(* ===== verification/Prelude.thy ===== *)
theory Prelude
  imports Complex_Main "HOL-Library.Sublist"
begin

text \<open>
  What every component shares: Python text as a list of code points, byte strings, the
  result type of code that may raise, the exceptions of the program, the collections the
  proofs use, and generic lemmas on lists and results.

  A Python \<^verbatim>\<open>str\<close> is a sequence of code points (surrogates included), so it is a
  \<open>nat list\<close>; \<open>lit\<close> turns a HOL string literal into one. A Python \<^verbatim>\<open>bytes\<close> value is a
  \<open>nat list\<close> whose elements are below 256.
\<close>

named_theorems res_simps \<open>rewriting of results: who raised, what was returned\<close>
named_theorems valid_simps \<open>characterisations of the validators of core.py\<close>

section \<open>Text and bytes\<close>

type_synonym str = "nat list"
type_synonym bytes = "nat list"

definition lit :: "string \<Rightarrow> str" where
  "lit s = map of_char s"

lemma lit_inject [simp]: "lit a = lit b \<longleftrightarrow> a = b"
  unfolding lit_def by (metis inj_map_eq_map inj_of_char)

lemma lit_empty_iff [simp]: "lit s = [] \<longleftrightarrow> s = []" "[] = lit s \<longleftrightarrow> s = []"
  by (auto simp: lit_def)

lemma length_lit [simp]: "length (lit s) = length s"
  by (simp add: lit_def)

lemma lit_Nil [simp]: "lit [] = []"
  by (simp add: lit_def)

definition is_bytes :: "bytes \<Rightarrow> bool" where
  "is_bytes b \<longleftrightarrow> list_all (\<lambda>x. x < 256) b"

lemma is_bytes_simps [simp]:
  "is_bytes []" "is_bytes (x # xs) \<longleftrightarrow> x < 256 \<and> is_bytes xs"
  "is_bytes (xs @ ys) \<longleftrightarrow> is_bytes xs \<and> is_bytes ys"
  by (auto simp: is_bytes_def)

text \<open>\<^verbatim>\<open>s.startswith(p)\<close> and \<^verbatim>\<open>s.endswith(p)\<close>.\<close>

definition starts_with :: "str \<Rightarrow> str \<Rightarrow> bool" where
  "starts_with p s \<longleftrightarrow> take (length p) s = p"

lemma starts_with_append [simp]: "starts_with p (p @ s)"
  by (simp add: starts_with_def)

lemma starts_with_iff: "starts_with p s \<longleftrightarrow> (\<exists>r. s = p @ r)"
proof
  assume "starts_with p s"
  then have "s = p @ drop (length p) s"
    by (metis append_take_drop_id starts_with_def)
  then show "\<exists>r. s = p @ r" ..
next
  assume "\<exists>r. s = p @ r"
  then show "starts_with p s" by auto
qed

definition ends_with :: "str \<Rightarrow> str \<Rightarrow> bool" where
  "ends_with p s \<longleftrightarrow> length p \<le> length s \<and> drop (length s - length p) s = p"

section \<open>Exceptions and results\<close>

text \<open>
  \<open>ChatError\<close>, its subclasses \<open>UnknownDeliveryError\<close> (core.py),
  \<open>DevinCapabilityExpiredError\<close> (devin.py) and those of claude_runtime.py, of which
  \<open>ClaudeSendMessageUnknownDelivery\<close> carries its phase, and the exceptions of Python the code
  catches or lets pass. Every message is kept: some are compared and forwarded.
\<close>

datatype exn =
    ChatError str
  | UnknownDeliveryError str
  | DevinCapabilityExpiredError str
  | ClaudeSendMessageRefused str
  | ClaudeAgentsPreflightTimeout str
  | ClaudeSendMessageUnknownDelivery str
  | OSError
  | TimeoutError
  | EOFError
  | ValueError
  | UnicodeError
  | JSONDecodeError
  | OtherError

type_synonym 'a res = "exn + 'a"

text \<open>\<^verbatim>\<open>isinstance(e, ChatError)\<close>, subclasses included.\<close>

fun is_chat_error :: "exn \<Rightarrow> bool" where
  "is_chat_error (ChatError _) = True"
| "is_chat_error (UnknownDeliveryError _) = True"
| "is_chat_error (DevinCapabilityExpiredError _) = True"
| "is_chat_error (ClaudeSendMessageRefused _) = True"
| "is_chat_error (ClaudeAgentsPreflightTimeout _) = True"
| "is_chat_error (ClaudeSendMessageUnknownDelivery _) = True"
| "is_chat_error _ = False"

fun is_unknown_delivery :: "exn \<Rightarrow> bool" where
  "is_unknown_delivery (UnknownDeliveryError _) = True"
| "is_unknown_delivery (ClaudeSendMessageUnknownDelivery _) = True"
| "is_unknown_delivery _ = False"

fun exn_text :: "exn \<Rightarrow> str" where
  "exn_text (ChatError m) = m"
| "exn_text (UnknownDeliveryError m) = m"
| "exn_text (DevinCapabilityExpiredError m) = m"
| "exn_text (ClaudeSendMessageRefused m) = m"
| "exn_text (ClaudeAgentsPreflightTimeout m) = m"
| "exn_text (ClaudeSendMessageUnknownDelivery _) = lit ''Claude SendMessage outcome is unknown''"
| "exn_text _ = []"

text \<open>\<^verbatim>\<open>isinstance(e, OSError)\<close>: a timeout is one.\<close>

fun is_os_error :: "exn \<Rightarrow> bool" where
  "is_os_error OSError = True"
| "is_os_error TimeoutError = True"
| "is_os_error _ = False"

text \<open>\<^verbatim>\<open>isinstance(e, ValueError)\<close>: Unicode and JSON errors are.\<close>

fun is_value_error :: "exn \<Rightarrow> bool" where
  "is_value_error ValueError = True"
| "is_value_error UnicodeError = True"
| "is_value_error JSONDecodeError = True"
| "is_value_error _ = False"

definition fail :: "string \<Rightarrow> 'a res" where
  "fail m = Inl (ChatError (lit m))"

definition bind :: "'a res \<Rightarrow> ('a \<Rightarrow> 'b res) \<Rightarrow> 'b res" where
  "bind r f = (case r of Inl e \<Rightarrow> Inl e | Inr x \<Rightarrow> f x)"

lemma bind_simps [simp]: "bind (Inl e) f = Inl e" "bind (Inr x) f = f x"
  by (simp_all add: bind_def)

lemma bind_Inr_iff [res_simps]: "bind r f = Inr y \<longleftrightarrow> (\<exists>x. r = Inr x \<and> f x = Inr y)"
  by (cases r) auto

lemma bind_Inl_iff [res_simps]:
  "bind r f = Inl e \<longleftrightarrow> r = Inl e \<or> (\<exists>x. r = Inr x \<and> f x = Inl e)"
  by (cases r) auto

lemma bind_cong [fundef_cong]:
  "r = r' \<Longrightarrow> (\<And>x. r' = Inr x \<Longrightarrow> f x = f' x) \<Longrightarrow> bind r f = bind r' f'"
  by (cases r') auto

lemma fail_neq_Inr [simp]: "fail m \<noteq> Inr x" "Inr x \<noteq> fail m"
  by (auto simp: fail_def)

lemma fail_eq_Inl [simp]: "fail m = Inl e \<longleftrightarrow> e = ChatError (lit m)"
  by (auto simp: fail_def)

lemma bind_fail [simp]: "bind (fail m) f = fail m"
  by (simp add: fail_def)

lemma if_fail_Inr [res_simps]:
  "(if b then fail m else r) = Inr x \<longleftrightarrow> \<not> b \<and> r = Inr x"
  "(if b then r else fail m) = Inr x \<longleftrightarrow> b \<and> r = Inr x"
  by auto

definition is_ok :: "'a res \<Rightarrow> bool" where
  "is_ok r \<longleftrightarrow> (case r of Inl _ \<Rightarrow> False | Inr _ \<Rightarrow> True)"

lemma is_ok_simps [simp]: "is_ok (Inr x)" "\<not> is_ok (Inl e)" "\<not> is_ok (fail m)"
  by (simp_all add: is_ok_def fail_def)

lemma is_ok_iff: "is_ok r \<longleftrightarrow> (\<exists>x. r = Inr x)"
  by (cases r) auto

lemma is_ok_bind: "is_ok (bind r f) \<longleftrightarrow> (\<exists>x. r = Inr x \<and> is_ok (f x))"
  by (cases r) auto

lemma is_ok_if_fail: "is_ok (if b then fail m else r) \<longleftrightarrow> \<not> b \<and> is_ok r"
  by simp

lemmas is_ok_rules = is_ok_bind is_ok_if_fail

text \<open>A list comprehension whose element expression may raise stops at the first raise.\<close>

fun map_res :: "('a \<Rightarrow> 'b res) \<Rightarrow> 'a list \<Rightarrow> 'b list res" where
  "map_res f [] = Inr []"
| "map_res f (x # xs) = bind (f x) (\<lambda>y. bind (map_res f xs) (\<lambda>ys. Inr (y # ys)))"

lemma map_res_append:
  "map_res f (xs @ ys) = bind (map_res f xs) (\<lambda>us. bind (map_res f ys) (\<lambda>vs. Inr (us @ vs)))"
proof (induction xs)
  case Nil
  show ?case by (cases "map_res f ys") auto
next
  case (Cons x xs)
  show ?case
  proof (cases "f x")
    case (Inr y)
    with Cons show ?thesis
      by (cases "map_res f xs"; cases "map_res f ys") auto
  qed simp
qed

lemma map_res_map_Inr:
  "(\<And>x. x \<in> set xs \<Longrightarrow> f (g x) = Inr (h x)) \<Longrightarrow> map_res f (map g xs) = Inr (map h xs)"
  by (induction xs) auto

lemma map_res_Inr_set:
  "map_res f xs = Inr ys \<Longrightarrow> y \<in> set ys \<Longrightarrow> \<exists>x \<in> set xs. f x = Inr y"
  by (induction xs arbitrary: ys) (auto simp: res_simps)

lemma map_res_length: "map_res f xs = Inr ys \<Longrightarrow> length ys = length xs"
  by (induction xs arbitrary: ys) (auto simp: res_simps)

lemma map_res_Inl_set:
  "map_res f xs = Inl e \<Longrightarrow> \<exists>x \<in> set xs. f x = Inl e"
  by (induction xs) (auto simp: res_simps)

section \<open>Lists\<close>

text \<open>
  \<^verbatim>\<open>len({f(x) for x in xs}) != len(xs)\<close> is the duplicate test of the stores.
\<close>

definition has_duplicates :: "'a list \<Rightarrow> bool" where
  "has_duplicates xs \<longleftrightarrow> \<not> distinct xs"

lemma has_duplicates_card: "has_duplicates xs \<longleftrightarrow> card (set xs) \<noteq> length xs"
  by (auto simp: has_duplicates_def card_distinct distinct_card)

text \<open>The rows that match, when the code wants exactly one of them.\<close>

definition the_one :: "('a \<Rightarrow> bool) \<Rightarrow> 'a list \<Rightarrow> 'a option" where
  "the_one P xs = (case filter P xs of [x] \<Rightarrow> Some x | _ \<Rightarrow> None)"

lemma the_one_Some_iff: "the_one P xs = Some x \<longleftrightarrow> filter P xs = [x]"
  by (auto simp: the_one_def split: list.splits)

lemma filter_length1_hd: "filter P xs = [x] \<Longrightarrow> x \<in> set xs \<and> P x"
proof -
  assume "filter P xs = [x]"
  then have "x \<in> set (filter P xs)" by simp
  then show ?thesis by simp
qed

lemma the_one_SomeD: "the_one P xs = Some x \<Longrightarrow> x \<in> set xs \<and> P x"
  unfolding the_one_Some_iff by (rule filter_length1_hd)

lemma the_one_unique:
  assumes "the_one P xs = Some x" and "y \<in> set xs" and "P y"
  shows "y = x"
proof -
  from assms have "y \<in> set (filter P xs)" by simp
  with assms(1) show ?thesis by (simp add: the_one_Some_iff)
qed

lemma distinct_map_eqD:
  "distinct (map f xs) \<Longrightarrow> x \<in> set xs \<Longrightarrow> y \<in> set xs \<Longrightarrow> f x = f y \<Longrightarrow> x = y"
  by (auto simp: distinct_map inj_on_def)

lemma filter_distinct_key:
  assumes "distinct (map f xs)" and "x \<in> set xs" and "P x"
    and "\<And>y. y \<in> set xs \<Longrightarrow> P y \<Longrightarrow> f y = f x"
  shows "filter P xs = [x]"
proof -
  obtain us vs where xs: "xs = us @ x # vs"
    using assms(2) by (auto dest: split_list)
  have no: "\<not> P y" if "y \<in> set us \<union> set vs" for y
  proof
    assume "P y"
    with that xs assms(4) have "f y = f x" by auto
    with that xs assms(1) show False by (auto simp: image_iff)
  qed
  with xs assms(3) show ?thesis by (auto simp: filter_empty_conv)
qed

lemma the_one_distinct_key:
  assumes "distinct (map f xs)" and "x \<in> set xs" and "P x"
    and "\<And>y. y \<in> set xs \<Longrightarrow> P y \<Longrightarrow> f y = f x"
  shows "the_one P xs = Some x"
  unfolding the_one_Some_iff using assms by (rule filter_distinct_key)

lemma the_one_distinct_iff:
  assumes "distinct (map key xs)" and "\<And>y. y \<in> set xs \<Longrightarrow> P y \<Longrightarrow> key y = k"
  shows "the_one P xs = Some x \<longleftrightarrow> x \<in> set xs \<and> P x"
proof
  show "the_one P xs = Some x \<Longrightarrow> x \<in> set xs \<and> P x" by (rule the_one_SomeD)
  assume x: "x \<in> set xs \<and> P x"
  then show "the_one P xs = Some x"
    using assms by (intro the_one_distinct_key [OF assms(1)]) metis+
qed

text \<open>Rewriting one row of a table selected by its key.\<close>

lemma map_if_key_keeps:
  assumes "\<And>x. x \<in> set xs \<Longrightarrow> k x = i \<Longrightarrow> k (g x) = k x"
  shows "map k (map (\<lambda>x. if k x = i then g x else x) xs) = map k xs"
  using assms by (induction xs) auto

section \<open>Tables of rows with a key\<close>

text \<open>
  The stores keep lists of rows in which a key occurs once. \<open>row_map\<close> is the map a table
  means, and \<open>put_row\<close> the replacement of the row with the same key by a new one at the end.
\<close>

definition row_map :: "('a \<Rightarrow> 'k) \<Rightarrow> 'a list \<Rightarrow> 'k \<Rightarrow> 'a option" where
  "row_map key rs k = (case filter (\<lambda>r. key r = k) rs of [] \<Rightarrow> None | r # _ \<Rightarrow> Some r)"

definition put_row :: "('a \<Rightarrow> 'k) \<Rightarrow> 'a \<Rightarrow> 'a list \<Rightarrow> 'a list" where
  "put_row key r rs = filter (\<lambda>x. key x \<noteq> key r) rs @ [r]"

lemma distinct_filter_keys: "distinct (map key rs) \<Longrightarrow> distinct (map key (filter P rs))"
  by (induction rs) auto

lemma distinct_put_row: "distinct (map key rs) \<Longrightarrow> distinct (map key (put_row key r rs))"
  by (auto simp: put_row_def distinct_filter_keys)

lemma row_map_Some_iff:
  "distinct (map key rs) \<Longrightarrow> row_map key rs k = Some r \<longleftrightarrow> r \<in> set rs \<and> key r = k"
proof
  assume "row_map key rs k = Some r"
  then have "\<exists>q. filter (\<lambda>r. key r = k) rs = r # q"
    by (auto simp: row_map_def split: list.splits)
  then have "r \<in> set (filter (\<lambda>r. key r = k) rs)" by (auto simp del: set_filter)
  then show "r \<in> set rs \<and> key r = k" by simp
next
  assume d: "distinct (map key rs)" and "r \<in> set rs \<and> key r = k"
  then have "filter (\<lambda>r. key r = k) rs = [r]" by (intro filter_distinct_key [OF d]) auto
  then show "row_map key rs k = Some r" by (simp add: row_map_def)
qed

lemma row_map_None_iff: "row_map key rs k = None \<longleftrightarrow> (\<forall>r \<in> set rs. key r \<noteq> k)"
  by (auto simp: row_map_def filter_empty_conv split: list.splits)
    (metis (mono_tags, lifting) filter_empty_conv list.distinct(1))

lemma row_map_eqI:
  assumes "distinct (map key rs)" and "\<And>r. r \<in> set rs \<longleftrightarrow> m (key r) = Some r"
    and "\<And>k r. m k = Some r \<Longrightarrow> key r = k"
  shows "row_map key rs = m"
proof
  fix k
  show "row_map key rs k = m k"
  proof (cases "m k")
    case None
    then show ?thesis using assms(2) by (auto simp: row_map_None_iff)
  next
    case (Some r)
    with assms show ?thesis by (auto simp: row_map_Some_iff)
  qed
qed

lemma row_map_put_row:
  assumes "distinct (map key rs)"
  shows "row_map key (put_row key r rs) = (row_map key rs)(key r \<mapsto> r)"
proof (rule row_map_eqI [OF distinct_put_row [OF assms]])
  show "x \<in> set (put_row key r rs) \<longleftrightarrow> ((row_map key rs)(key r \<mapsto> r)) (key x) = Some x" for x
    using row_map_Some_iff [OF assms, of "key x" x] by (auto simp: put_row_def)
  show "((row_map key rs)(key r \<mapsto> r)) k = Some x \<Longrightarrow> key x = k" for k x
    using row_map_Some_iff [OF assms, of k x] by (auto split: if_splits)
qed

lemma row_map_perm:
  assumes "distinct (map key rs)" and "distinct (map key rs')" and "set rs = set rs'"
  shows "row_map key rs = row_map key rs'"
  using assms by (intro row_map_eqI) (auto simp: row_map_Some_iff)

lemma row_map_filter:
  assumes "distinct (map key rs)"
  shows "row_map key (filter P rs) k = (case row_map key rs k of
      None \<Rightarrow> None | Some r \<Rightarrow> if P r then Some r else None)"
proof (cases "row_map key rs k")
  case None
  then have "row_map key (filter P rs) k = None" by (simp add: row_map_None_iff)
  with None show ?thesis by simp
next
  case (Some r)
  note d = distinct_filter_keys [OF assms, of P]
  show ?thesis
  proof (cases "P r")
    case True
    with Some have "row_map key (filter P rs) k = Some r"
      by (simp add: row_map_Some_iff [OF assms] row_map_Some_iff [OF d])
    with Some True show ?thesis by simp
  next
    case False
    have "key x \<noteq> k" if "x \<in> set rs" "P x" for x
      using that Some False distinct_map_eqD [OF assms that(1), of r]
      by (auto simp: row_map_Some_iff [OF assms])
    then have "row_map key (filter P rs) k = None" by (simp add: row_map_None_iff)
    with Some False show ?thesis by simp
  qed
qed

end
