(* ===== verification/PyText.thy ===== *)
theory PyText
  imports Prelude
begin

text \<open>
  The parts of Python's text library the program uses, as executable functions: the
  character classes of its regular expressions, decimal and hexadecimal digits, UTF-8 and
  URL-safe base64, each with its round trip.
\<close>

section \<open>Character classes\<close>

definition is_digit :: "nat \<Rightarrow> bool" where
  "is_digit c \<longleftrightarrow> 48 \<le> c \<and> c \<le> 57"

definition is_upper :: "nat \<Rightarrow> bool" where
  "is_upper c \<longleftrightarrow> 65 \<le> c \<and> c \<le> 90"

definition is_lower :: "nat \<Rightarrow> bool" where
  "is_lower c \<longleftrightarrow> 97 \<le> c \<and> c \<le> 122"

definition is_alnum :: "nat \<Rightarrow> bool" where
  "is_alnum c \<longleftrightarrow> is_digit c \<or> is_upper c \<or> is_lower c"

text \<open>\<^verbatim>\<open>[0-9a-f]\<close>, the only hexadecimal digits the validators take.\<close>

definition is_hex :: "nat \<Rightarrow> bool" where
  "is_hex c \<longleftrightarrow> is_digit c \<or> (97 \<le> c \<and> c \<le> 102)"

lemma is_hex_is_alnum: "is_hex c \<Longrightarrow> is_alnum c"
  by (auto simp: is_hex_def is_alnum_def is_lower_def)

text \<open>\<^verbatim>\<open>re.fullmatch(r"[0-9a-f]{64}", s)\<close>.\<close>

definition hex64 :: "str \<Rightarrow> bool" where
  "hex64 s \<longleftrightarrow> length s = 64 \<and> list_all is_hex s"

text \<open>\<^verbatim>\<open>str.isspace\<close> of a character, and \<^verbatim>\<open>s.strip()\<close>.\<close>

definition is_space :: "nat \<Rightarrow> bool" where
  "is_space c \<longleftrightarrow>
     (9 \<le> c \<and> c \<le> 13) \<or> (28 \<le> c \<and> c \<le> 32) \<or> c = 133 \<or> c = 160 \<or> c = 5760 \<or>
     (8192 \<le> c \<and> c \<le> 8202) \<or> c = 8232 \<or> c = 8233 \<or> c = 8239 \<or> c = 8287 \<or> c = 12288"

definition strip :: "str \<Rightarrow> str" where
  "strip s = rev (dropWhile is_space (rev (dropWhile is_space s)))"

lemma strip_newline:
  assumes "s \<noteq> []" "\<not> is_space (hd s)" "\<not> is_space (last s)" "is_space c"
  shows "strip (s @ [c]) = s" "strip s = s"
proof -
  have "dropWhile is_space s = s" "dropWhile is_space (s @ [c]) = s @ [c]"
    using assms(1,2) by (cases s; simp)+
  moreover have "dropWhile is_space (rev s) = rev s"
    using assms(1,3) by (cases s rule: rev_cases) simp_all
  ultimately show "strip (s @ [c]) = s" "strip s = s" using assms(4) by (simp_all add: strip_def)
qed

section \<open>Digits\<close>

definition hex_digit :: "nat \<Rightarrow> nat" where
  "hex_digit n = (if n < 10 then 48 + n else 87 + n)"

text \<open>A hexadecimal digit as the JSON decoder reads it: both cases.\<close>

definition hex_value :: "nat \<Rightarrow> nat option" where
  "hex_value c =
     (if is_digit c then Some (c - 48)
      else if 97 \<le> c \<and> c \<le> 102 then Some (c - 87)
      else if 65 \<le> c \<and> c \<le> 70 then Some (c - 55)
      else None)"

lemma hex_value_digit [simp]: "n < 16 \<Longrightarrow> hex_value (hex_digit n) = Some n"
  by (auto simp: hex_value_def hex_digit_def is_digit_def)

lemma is_hex_hex_digit [simp]: "n < 16 \<Longrightarrow> is_hex (hex_digit n)"
  by (auto simp: is_hex_def hex_digit_def is_digit_def)

text \<open>\<^verbatim>\<open>str(n)\<close> for a natural number, and the value of a run of digits.\<close>

fun dec_str :: "nat \<Rightarrow> str" where
  "dec_str n = (if n < 10 then [48 + n] else dec_str (n div 10) @ [48 + n mod 10])"

declare dec_str.simps [simp del]

definition dec_value :: "str \<Rightarrow> nat" where
  "dec_value s = foldl (\<lambda>a c. 10 * a + (c - 48)) 0 s"

lemma dec_str_digits: "list_all is_digit (dec_str n)"
proof (induction n rule: dec_str.induct)
  case (1 n)
  then show ?case
    by (subst dec_str.simps) (auto simp: is_digit_def list_all_iff)
qed

lemma dec_str_neq_Nil [simp]: "dec_str n \<noteq> []"
  by (subst dec_str.simps) simp

lemma dec_value_dec_str [simp]: "dec_value (dec_str n) = n"
proof (induction n rule: dec_str.induct)
  case (1 n)
  show ?case
  proof (cases "n < 10")
    case True
    then show ?thesis by (simp add: dec_str.simps [of n] dec_value_def)
  next
    case False
    with 1 have "dec_value (dec_str (n div 10)) = n div 10" by simp
    then have "dec_value (dec_str (n div 10) @ [48 + n mod 10]) = 10 * (n div 10) + n mod 10"
      by (simp add: dec_value_def)
    with False show ?thesis by (simp add: dec_str.simps [of n])
  qed
qed

lemma dec_str_hd_zero: "hd (dec_str n) = 48 \<longleftrightarrow> n = 0"
proof (induction n rule: dec_str.induct)
  case (1 n)
  then show ?case
    by (subst dec_str.simps) (auto simp: hd_append)
qed

lemma dec_str_0 [simp]: "dec_str 0 = [48]"
  by (simp add: dec_str.simps)

section \<open>UTF-8\<close>

definition is_surrogate :: "nat \<Rightarrow> bool" where
  "is_surrogate c \<longleftrightarrow> 55296 \<le> c \<and> c \<le> 57343"

definition is_code_point :: "nat \<Rightarrow> bool" where
  "is_code_point c \<longleftrightarrow> c < 1114112"

text \<open>A code point that UTF-8 can carry.\<close>

definition is_scalar :: "nat \<Rightarrow> bool" where
  "is_scalar c \<longleftrightarrow> is_code_point c \<and> \<not> is_surrogate c"

definition utf8_char :: "nat \<Rightarrow> bytes" where
  "utf8_char c =
     (if c < 128 then [c]
      else if c < 2048 then [192 + c div 64, 128 + c mod 64]
      else if c < 65536 then [224 + c div 4096, 128 + c div 64 mod 64, 128 + c mod 64]
      else [240 + c div 262144, 128 + c div 4096 mod 64, 128 + c div 64 mod 64, 128 + c mod 64])"

text \<open>\<^verbatim>\<open>s.encode("utf-8")\<close>; \<open>None\<close> is UnicodeEncodeError.\<close>

definition utf8_encode :: "str \<Rightarrow> bytes option" where
  "utf8_encode s = (if list_all (\<lambda>c. \<not> is_surrogate c) s then Some (concat (map utf8_char s)) else None)"

definition utf8_len :: "str \<Rightarrow> nat" where
  "utf8_len s = length (concat (map utf8_char s))"

lemma utf8_len_append [simp]: "utf8_len (a @ b) = utf8_len a + utf8_len b"
  by (simp add: utf8_len_def)

lemma utf8_len_Nil [simp]: "utf8_len [] = 0"
  by (simp add: utf8_len_def)

lemma utf8_len_Cons: "utf8_len (c # s) = length (utf8_char c) + utf8_len s"
  by (simp add: utf8_len_def)

lemma utf8_char_length: "1 \<le> length (utf8_char c) \<and> length (utf8_char c) \<le> 4"
  by (simp add: utf8_char_def)

lemma length_le_utf8_len: "length s \<le> utf8_len s"
proof (induction s)
  case (Cons c s)
  then show ?case using utf8_char_length [of c] by (simp add: utf8_len_Cons)
qed simp

lemma utf8_len_lit: "(\<And>c. c \<in> set s \<Longrightarrow> of_char c < (128::nat)) \<Longrightarrow> utf8_len (lit s) = length s"
  by (induction s) (auto simp: utf8_len_Cons lit_def utf8_char_def)

definition is_cont :: "nat \<Rightarrow> bool" where
  "is_cont b \<longleftrightarrow> 128 \<le> b \<and> b < 192"

text \<open>
  \<^verbatim>\<open>b.decode("utf-8", errors)\<close>: shortest forms only; encoded surrogates only with
  \<^verbatim>\<open>errors="surrogatepass"\<close> (the first argument). \<open>None\<close> is UnicodeDecodeError.
\<close>

fun utf8_decode :: "bool \<Rightarrow> bytes \<Rightarrow> str option" where
  "utf8_decode sp [] = Some []"
| "utf8_decode sp (a # r) =
     (if a < 128 then map_option ((#) a) (utf8_decode sp r)
      else if 194 \<le> a \<and> a < 224 then
        (case r of
           b # r1 \<Rightarrow>
             if is_cont b
             then map_option ((#) ((a - 192) * 64 + (b - 128))) (utf8_decode sp r1)
             else None
         | _ \<Rightarrow> None)
      else if 224 \<le> a \<and> a < 240 then
        (case r of
           b # c # r1 \<Rightarrow>
             let u = (a - 224) * 4096 + (b - 128) * 64 + (c - 128) in
             if is_cont b \<and> is_cont c \<and> 2048 \<le> u \<and> (sp \<or> \<not> is_surrogate u)
             then map_option ((#) u) (utf8_decode sp r1)
             else None
         | _ \<Rightarrow> None)
      else if 240 \<le> a \<and> a < 245 then
        (case r of
           b # c # d # r1 \<Rightarrow>
             let u = (a - 240) * 262144 + (b - 128) * 4096 + (c - 128) * 64 + (d - 128) in
             if is_cont b \<and> is_cont c \<and> is_cont d \<and> 65536 \<le> u \<and> u < 1114112
             then map_option ((#) u) (utf8_decode sp r1)
             else None
         | _ \<Rightarrow> None)
      else None)"

lemma utf8_split3: "c div 4096 * 4096 + c div 64 mod 64 * 64 + c mod 64 = (c::nat)"
proof -
  have "c div 4096 = c div 64 div 64" by (simp flip: div_mult2_eq)
  then have "c div 4096 * 64 + c div 64 mod 64 = c div 64" by simp
  then have "c div 4096 * 4096 + c div 64 mod 64 * 64 = c div 64 * 64" by simp
  then show ?thesis by simp
qed

lemma utf8_split4:
  "c div 262144 * 262144 + c div 4096 mod 64 * 4096 + c div 64 mod 64 * 64 + c mod 64 = (c::nat)"
proof -
  have "c div 262144 = c div 4096 div 64" by (simp flip: div_mult2_eq)
  then have "c div 262144 * 64 + c div 4096 mod 64 = c div 4096" by simp
  then have "c div 262144 * 262144 + c div 4096 mod 64 * 4096 = c div 4096 * 4096" by simp
  then show ?thesis using utf8_split3 [of c] by simp
qed

lemma utf8_decode_char:
  assumes "is_scalar c"
  shows "utf8_decode sp (utf8_char c @ r) = map_option ((#) c) (utf8_decode sp r)"
proof -
  from assms have c: "c < 1114112" "\<not> is_surrogate c"
    by (auto simp: is_scalar_def is_code_point_def)
  consider "c < 128" | "128 \<le> c" "c < 2048" | "2048 \<le> c" "c < 65536" | "65536 \<le> c"
    by linarith
  then show ?thesis
  proof cases
    case 1
    then show ?thesis by (simp add: utf8_char_def)
  next
    case 2
    then have "c div 64 < 32" "2 \<le> c div 64" by auto
    then show ?thesis using 2 by (simp add: utf8_char_def is_cont_def)
  next
    case 3
    then have "c div 4096 < 16" by auto
    then show ?thesis using 3 c utf8_split3 [of c]
      by (simp add: utf8_char_def is_cont_def)
  next
    case 4
    then have "c div 262144 < 5" using c by auto
    then show ?thesis using 4 c utf8_split4 [of c]
      by (simp add: utf8_char_def is_cont_def)
  qed
qed

lemma utf8_decode_encode_append:
  "list_all is_scalar s \<Longrightarrow>
   utf8_decode sp (concat (map utf8_char s) @ r) = map_option (\<lambda>t. s @ t) (utf8_decode sp r)"
  by (cases "utf8_decode sp r"; induction s) (auto simp: utf8_decode_char)

text \<open>Decoding what was encoded gives the text back.\<close>

lemma utf8_roundtrip:
  assumes "utf8_encode s = Some b" and "list_all is_code_point s"
  shows "utf8_decode sp b = Some s"
proof -
  from assms have "list_all is_scalar s" "b = concat (map utf8_char s)"
    by (auto simp: utf8_encode_def is_scalar_def list_all_iff split: if_splits)
  then show ?thesis using utf8_decode_encode_append [of s sp "[]"] by simp
qed

lemma utf8_char_bytes: "is_code_point c \<Longrightarrow> is_bytes (utf8_char c)"
  by (auto simp: utf8_char_def is_code_point_def is_bytes_def)

lemma utf8_encode_bytes: "utf8_encode s = Some b \<Longrightarrow> list_all is_code_point s \<Longrightarrow> is_bytes b"
  by (induction s arbitrary: b)
    (auto simp: utf8_encode_def utf8_char_bytes split: if_splits)

lemma utf8_encode_length: "utf8_encode s = Some b \<Longrightarrow> length b = utf8_len s"
  by (auto simp: utf8_encode_def utf8_len_def split: if_splits)

section \<open>URL-safe base64\<close>

definition b64_char :: "nat \<Rightarrow> nat" where
  "b64_char v = (if v < 26 then 65 + v else if v < 52 then 71 + v else if v < 62 then v - 4
                 else if v = 62 then 45 else 95)"

definition b64_value :: "nat \<Rightarrow> nat option" where
  "b64_value c = (if is_upper c then Some (c - 65) else if is_lower c then Some (c - 71)
                  else if is_digit c then Some (c + 4) else if c = 45 then Some 62
                  else if c = 95 then Some 63 else None)"

lemma b64_value_char [simp]: "v < 64 \<Longrightarrow> b64_value (b64_char v) = Some v"
  by (auto simp: b64_value_def b64_char_def is_upper_def is_lower_def is_digit_def)

text \<open>\<^verbatim>\<open>base64.urlsafe_b64encode\<close>, padding included.\<close>

fun urlsafe_b64encode :: "bytes \<Rightarrow> str" where
  "urlsafe_b64encode [] = []"
| "urlsafe_b64encode [a] = [b64_char (a div 4), b64_char (a mod 4 * 16), 61, 61]"
| "urlsafe_b64encode [a, b] =
     [b64_char (a div 4), b64_char (a mod 4 * 16 + b div 16), b64_char (b mod 16 * 4), 61]"
| "urlsafe_b64encode (a # b # c # r) =
     b64_char (a div 4) # b64_char (a mod 4 * 16 + b div 16) # b64_char (b mod 16 * 4 + c div 64)
       # b64_char (c mod 64) # urlsafe_b64encode r"

text \<open>
  \<^verbatim>\<open>base64.urlsafe_b64decode\<close> on text of the alphabet followed by padding, the only
  input its caller passes: groups of four, a last group of two or three characters
  completed by \<^verbatim>\<open>=\<close>, whose unused low bits are ignored.
\<close>

fun urlsafe_b64decode :: "str \<Rightarrow> bytes option" where
  "urlsafe_b64decode [] = Some []"
| "urlsafe_b64decode (w # x # y # z # r) =
     (case (b64_value w, b64_value x) of
        (Some p, Some q) \<Rightarrow>
          (if y = 61 then (if z = 61 \<and> r = [] then Some [p * 4 + q div 16] else None)
           else case b64_value y of
             None \<Rightarrow> None
           | Some s \<Rightarrow>
               (if z = 61 then (if r = [] then Some [p * 4 + q div 16, q mod 16 * 16 + s div 4] else None)
                else case b64_value z of
                  None \<Rightarrow> None
                | Some t \<Rightarrow>
                    map_option (\<lambda>bs. (p * 4 + q div 16) # (q mod 16 * 16 + s div 4) # (s mod 4 * 64 + t) # bs)
                      (urlsafe_b64decode r)))
      | _ \<Rightarrow> None)"
| "urlsafe_b64decode _ = None"

lemma b64_char_neq_pad [simp]: "b64_char v \<noteq> 61"
  by (auto simp: b64_char_def)

lemma b64_decode_encode:
  "is_bytes b \<Longrightarrow> urlsafe_b64decode (urlsafe_b64encode b) = Some b"
proof (induction b rule: urlsafe_b64encode.induct)
  case (4 a b c r)
  then have ab: "a < 256" "b < 256" "c < 256" "is_bytes r" by auto
  then have "a div 4 < 64" "a mod 4 * 16 + b div 16 < 64" "b mod 16 * 4 + c div 64 < 64" "c mod 64 < 64"
    by auto
  note v = this [THEN b64_value_char]
  have "(a div 4) * 4 + (a mod 4 * 16 + b div 16) div 16 = a"
    "(a mod 4 * 16 + b div 16) mod 16 * 16 + (b mod 16 * 4 + c div 64) div 4 = b"
    "(b mod 16 * 4 + c div 64) mod 4 * 64 + c mod 64 = c"
    using ab by auto
  with "4.IH" [OF ab(4)] v show ?case
    by (simp del: b64_value_char)
qed auto

text \<open>\<^verbatim>\<open>s.rstrip("=")\<close>.\<close>

definition rstrip_pad :: "str \<Rightarrow> str" where
  "rstrip_pad s = rev (dropWhile (\<lambda>c. c = 61) (rev s))"

definition repad :: "str \<Rightarrow> str" where
  "repad s = s @ replicate ((4 - length s mod 4) mod 4) 61"

text \<open>Stripping the padding and adding it back is the identity on encoder output.\<close>

lemma rstrip_pad_Cons_nonpad:
  "rstrip_pad (x # xs) = (if rstrip_pad xs = [] \<and> x = 61 then [] else x # rstrip_pad xs)"
proof (cases "\<forall>c \<in> set xs. c = 61")
  case True
  then have "dropWhile (\<lambda>c. c = 61) (rev xs) = []" by (simp add: dropWhile_eq_Nil_conv)
  with True show ?thesis by (auto simp: rstrip_pad_def dropWhile_append)
next
  case False
  then have "dropWhile (\<lambda>c. c = 61) (rev xs) \<noteq> []" by (simp add: dropWhile_eq_Nil_conv)
  with False show ?thesis by (auto simp: rstrip_pad_def dropWhile_append)
qed

lemma rstrip_pad_Nil [simp]: "rstrip_pad [] = []"
  by (simp add: rstrip_pad_def)

lemma repad_Cons4: "repad (w # x # y # z # s) = w # x # y # z # repad s"
proof -
  have "length (w # x # y # z # s) mod 4 = length s mod 4" by simp
  then show ?thesis by (simp add: repad_def)
qed

lemma repad_short:
  "repad [] = []" "repad [w, x] = [w, x, 61, 61]" "repad [w, x, y] = [w, x, y, 61]"
  by (simp_all add: repad_def numeral_2_eq_2)

lemmas b64_pad_simps = rstrip_pad_Cons_nonpad repad_Cons4 repad_short

lemma b64_repad:
  "is_bytes b \<Longrightarrow> repad (rstrip_pad (urlsafe_b64encode b)) = urlsafe_b64encode b"
  by (induction b rule: urlsafe_b64encode.induct) (simp_all add: b64_pad_simps)

definition is_b64 :: "nat \<Rightarrow> bool" where
  "is_b64 c \<longleftrightarrow> is_alnum c \<or> c = 95 \<or> c = 45"

lemma b64_char_is_b64 [simp]: "is_b64 (b64_char v)"
  by (auto simp: is_b64_def b64_char_def is_alnum_def is_digit_def is_upper_def is_lower_def)

lemma b64_unpadded_alphabet:
  "is_bytes b \<Longrightarrow> list_all is_b64 (rstrip_pad (urlsafe_b64encode b))"
  by (induction b rule: urlsafe_b64encode.induct) (simp_all add: b64_pad_simps)

lemma b64_unpadded_length:
  "is_bytes b \<Longrightarrow> length (rstrip_pad (urlsafe_b64encode b)) = (length b * 4 + 2) div 3"
  by (induction b rule: urlsafe_b64encode.induct) (simp_all add: b64_pad_simps)

end
