(* ===== verification/Json.thy ===== *)
theory Json
  imports PyText
begin

text \<open>
  JSON as the \<^verbatim>\<open>json\<close> module of Python reads and writes it. A \<open>dict\<close> is an association
  list in insertion order with distinct keys. \<open>py_eq\<close> is Python's \<open>==\<close> on these values
  (\<open>True == 1 == 1.0\<close>); \<open>dumps\<close> prints with the compact separators the program uses;
  \<open>loads\<close> is the decoder, a recursive descent over the code points. The printing and
  reading of floats is a parameter (\<open>float_repr\<close>, \<open>float\<close> of the interpreter).
\<close>

section \<open>Values\<close>

datatype pyfloat = Fin rat | PosInf | NegInf | NaN

datatype json =
    JNull
  | JBool bool
  | JInt int
  | JFloat pyfloat
  | JStr str
  | JArr "json list"
  | JObj "(str \<times> json) list"

type_synonym dict = "(str \<times> json) list"

text \<open>The number a value counts as: booleans are integers in Python.\<close>

fun num_of :: "json \<Rightarrow> rat option" where
  "num_of (JBool b) = Some (if b then 1 else 0)"
| "num_of (JInt i) = Some (of_int i)"
| "num_of (JFloat (Fin r)) = Some r"
| "num_of _ = None"

lemma size_json_arr: "x \<in> set xs \<Longrightarrow> size x < size (JArr xs)"
  by (induction xs) auto

lemma size_json_obj: "(k, v) \<in> set xs \<Longrightarrow> size v < size (JObj xs)"
  by (induction xs) auto

function (sequential) py_eq :: "json \<Rightarrow> json \<Rightarrow> bool" where
  "py_eq (JStr a) (JStr b) \<longleftrightarrow> a = b"
| "py_eq JNull JNull \<longleftrightarrow> True"
| "py_eq (JArr xs) (JArr ys) \<longleftrightarrow>
     length xs = length ys \<and> (\<forall>p \<in> set (zip xs ys). py_eq (fst p) (snd p))"
| "py_eq (JObj xs) (JObj ys) \<longleftrightarrow>
     length xs = length ys \<and>
     (\<forall>p \<in> set xs. case map_of ys (fst p) of None \<Rightarrow> False | Some w \<Rightarrow> py_eq (snd p) w)"
| "py_eq (JFloat PosInf) (JFloat PosInf) \<longleftrightarrow> True"
| "py_eq (JFloat NegInf) (JFloat NegInf) \<longleftrightarrow> True"
| "py_eq x y \<longleftrightarrow> (case num_of x of None \<Rightarrow> False | Some r \<Rightarrow> num_of y = Some r)"
  by pat_completeness auto

termination
  by (relation "measure (\<lambda>(a, _). size a)")
    (auto dest!: set_zip_leftD size_json_arr size_json_obj)

text \<open>Equality with a string, an integer, or the constant \<open>True\<close>.\<close>

lemma py_eq_str [simp]: "py_eq v (JStr s) \<longleftrightarrow> v = JStr s"
  by (cases v rule: num_of.cases) auto

lemma py_eq_str_left [simp]: "py_eq (JStr s) v \<longleftrightarrow> v = JStr s"
  by (cases v rule: num_of.cases) auto

lemma py_eq_int: "py_eq v (JInt i) \<longleftrightarrow>
    v = JInt i \<or> (i = 1 \<and> v = JBool True) \<or> (i = 0 \<and> v = JBool False) \<or> v = JFloat (Fin (of_int i))"
  by (cases v rule: num_of.cases) auto

text \<open>Dictionaries: \<^verbatim>\<open>d.get(k)\<close>, the key set, and \<^verbatim>\<open>d[k] = v\<close>.\<close>

abbreviation jget :: "dict \<Rightarrow> string \<Rightarrow> json option" where
  "jget d k \<equiv> map_of d (lit k)"

definition jkeys :: "dict \<Rightarrow> str set" where
  "jkeys d = fst ` set d"

definition keyset :: "string list \<Rightarrow> str set" where
  "keyset ks = lit ` set ks"

definition has_keys :: "dict \<Rightarrow> string list \<Rightarrow> bool" where
  "has_keys d ks \<longleftrightarrow> set (map fst d) = set (map lit ks)"

lemma has_keys_get: "has_keys d ks \<Longrightarrow> k \<in> set ks \<Longrightarrow> \<exists>v. jget d k = Some v"
proof -
  assume "has_keys d ks" "k \<in> set ks"
  then have "lit k \<in> fst ` set d" by (auto simp: has_keys_def)
  then show ?thesis by (metis domD dom_map_of_conv_image_fst)
qed

fun dict_put :: "dict \<Rightarrow> str \<Rightarrow> json \<Rightarrow> dict" where
  "dict_put [] k v = [(k, v)]"
| "dict_put ((k', w) # d) k v = (if k' = k then (k, v) # d else (k', w) # dict_put d k v)"

lemma map_of_dict_put [simp]: "map_of (dict_put d k v) = (map_of d)(k \<mapsto> v)"
  by (induction d) auto

lemma dict_put_fresh: "k \<notin> fst ` set d \<Longrightarrow> dict_put d k v = d @ [(k, v)]"
  by (induction d) auto

lemma dict_put_keys: "fst ` set (dict_put d k v) = insert k (fst ` set d)"
  by (induction d k v rule: dict_put.induct) (simp_all add: insert_commute)

lemma dict_put_distinct: "distinct (map fst d) \<Longrightarrow> distinct (map fst (dict_put d k v))"
  by (induction d) (auto simp: dict_put_keys)

definition as_str :: "json option \<Rightarrow> str option" where
  "as_str v = (case v of Some (JStr s) \<Rightarrow> Some s | _ \<Rightarrow> None)"

lemma as_str_Some [simp]: "as_str v = Some s \<longleftrightarrow> v = Some (JStr s)"
  by (auto simp: as_str_def split: option.splits json.splits)

lemma as_str_simps [simp]: "as_str (Some (JStr s)) = Some s" "as_str None = None"
  by (auto simp: as_str_def)

section \<open>Printing\<close>

definition hex4 :: "nat \<Rightarrow> str" where
  "hex4 u = [hex_digit (u div 4096), hex_digit (u div 256 mod 16), hex_digit (u div 16 mod 16),
             hex_digit (u mod 16)]"

text \<open>One character of \<^verbatim>\<open>json.dumps\<close> of a string; the flag is \<^verbatim>\<open>ensure_ascii\<close>.\<close>

definition esc_char :: "bool \<Rightarrow> nat \<Rightarrow> str" where
  "esc_char ascii c =
     (if c = 34 then [92, 34]
      else if c = 92 then [92, 92]
      else if c = 8 then [92, 98]
      else if c = 12 then [92, 102]
      else if c = 10 then [92, 110]
      else if c = 13 then [92, 114]
      else if c = 9 then [92, 116]
      else if c < 32 then [92, 117] @ hex4 c
      else if ascii \<and> 126 < c then
        (if c < 65536 then [92, 117] @ hex4 c
         else [92, 117] @ hex4 (55296 + (c - 65536) div 1024) @ [92, 117] @ hex4 (56320 + (c - 65536) mod 1024))
      else [c])"

definition json_str :: "bool \<Rightarrow> str \<Rightarrow> str" where
  "json_str ascii s = 34 # concat (map (esc_char ascii) s) @ [34]"

definition int_str :: "int \<Rightarrow> str" where
  "int_str i = (if i < 0 then 45 # dec_str (nat (- i)) else dec_str (nat i))"

fun intersperse_comma :: "str list \<Rightarrow> str" where
  "intersperse_comma [] = []"
| "intersperse_comma [x] = x"
| "intersperse_comma (x # y # xs) = x @ 44 # intersperse_comma (y # xs)"

text \<open>\<^verbatim>\<open>json.dumps(v, separators=(",", ":"), ensure_ascii=ascii)\<close>.\<close>

fun dumps :: "(pyfloat \<Rightarrow> str) \<Rightarrow> bool \<Rightarrow> json \<Rightarrow> str" where
  "dumps fr a JNull = lit ''null''"
| "dumps fr a (JBool b) = (if b then lit ''true'' else lit ''false'')"
| "dumps fr a (JInt i) = int_str i"
| "dumps fr a (JFloat f) = fr f"
| "dumps fr a (JStr s) = json_str a s"
| "dumps fr a (JArr xs) = 91 # intersperse_comma (map (dumps fr a) xs) @ [93]"
| "dumps fr a (JObj kvs) =
     123 # intersperse_comma (map (\<lambda>p. json_str a (fst p) @ 58 # dumps fr a (snd p)) kvs) @ [125]"

text \<open>\<^verbatim>\<open>sort_keys=True\<close>: every dict is printed with its keys in code point order.\<close>

fun str_less_eq :: "str \<Rightarrow> str \<Rightarrow> bool" where
  "str_less_eq [] _ = True"
| "str_less_eq (_ # _) [] = False"
| "str_less_eq (a # x) (b # y) = (a < b \<or> (a = b \<and> str_less_eq x y))"

fun insert_key :: "str \<times> json \<Rightarrow> dict \<Rightarrow> dict" where
  "insert_key p [] = [p]"
| "insert_key p (q # d) = (if str_less_eq (fst p) (fst q) then p # q # d else q # insert_key p d)"

fun sort_keys :: "json \<Rightarrow> json" where
  "sort_keys (JArr xs) = JArr (map sort_keys xs)"
| "sort_keys (JObj kvs) = JObj (foldr insert_key (map (\<lambda>p. (fst p, sort_keys (snd p))) kvs) [])"
| "sort_keys v = v"

section \<open>Reading\<close>

definition is_ws :: "nat \<Rightarrow> bool" where
  "is_ws c \<longleftrightarrow> c = 32 \<or> c = 9 \<or> c = 10 \<or> c = 13"

definition skip_ws :: "str \<Rightarrow> str" where
  "skip_ws s = dropWhile is_ws s"

lemma skip_ws_Cons [simp]: "\<not> is_ws c \<Longrightarrow> skip_ws (c # s) = c # s"
  by (simp add: skip_ws_def)

lemma skip_ws_length: "length (skip_ws s) \<le> length s"
  by (simp add: skip_ws_def length_dropWhile_le)

definition hex4_value :: "nat \<Rightarrow> nat \<Rightarrow> nat \<Rightarrow> nat \<Rightarrow> nat option" where
  "hex4_value a b c d =
     (case (hex_value a, hex_value b, hex_value c, hex_value d) of
        (Some p, Some q, Some r, Some s) \<Rightarrow> Some (p * 4096 + q * 256 + r * 16 + s)
      | _ \<Rightarrow> None)"

fun escape_value :: "nat \<Rightarrow> nat option" where
  "escape_value c =
     (if c = 34 then Some 34 else if c = 92 then Some 92 else if c = 47 then Some 47
      else if c = 98 then Some 8 else if c = 102 then Some 12 else if c = 110 then Some 10
      else if c = 114 then Some 13 else if c = 116 then Some 9 else None)"

definition is_high :: "nat \<Rightarrow> bool" where
  "is_high u \<longleftrightarrow> 55296 \<le> u \<and> u \<le> 56319"

definition is_low :: "nat \<Rightarrow> bool" where
  "is_low u \<longleftrightarrow> 56320 \<le> u \<and> u \<le> 57343"

definition cons_fst :: "nat \<Rightarrow> (str \<times> str) res \<Rightarrow> (str \<times> str) res" where
  "cons_fst c r = bind r (\<lambda>p. Inr (c # fst p, snd p))"

text \<open>
  What an escape denotes and what follows it, given the text after the backslash. A
  \<^verbatim>\<open>\u\<close> escape that is a high surrogate joins a following low one.
\<close>

definition join_low :: "nat \<Rightarrow> str \<Rightarrow> (nat \<times> str) option" where
  "join_low u r =
     (if is_high u then
        (case r of
           b1 # b2 # g1 # g2 # g3 # g4 # r3 \<Rightarrow>
             if b1 = 92 \<and> b2 = 117 then
               (case hex4_value g1 g2 g3 g4 of
                  None \<Rightarrow> None
                | Some l \<Rightarrow>
                    if is_low l then Some (65536 + (u - 55296) * 1024 + (l - 56320), r3)
                    else Some (u, r))
             else Some (u, r)
         | _ \<Rightarrow> Some (u, r))
      else Some (u, r))"

definition parse_unicode :: "str \<Rightarrow> (nat \<times> str) option" where
  "parse_unicode s =
     (case s of
        h1 # h2 # h3 # h4 # r \<Rightarrow>
          (case hex4_value h1 h2 h3 h4 of None \<Rightarrow> None | Some u \<Rightarrow> join_low u r)
      | _ \<Rightarrow> None)"

definition parse_escape :: "str \<Rightarrow> (nat \<times> str) option" where
  "parse_escape s =
     (case s of
        [] \<Rightarrow> None
      | e # r \<Rightarrow>
          if e = 117 then parse_unicode r
          else (case escape_value e of None \<Rightarrow> None | Some v \<Rightarrow> Some (v, r)))"

lemma join_low_length: "join_low u r = Some (v, q) \<Longrightarrow> length q \<le> length r"
  by (auto simp: join_low_def split: if_splits list.splits option.splits)

lemma parse_unicode_length: "parse_unicode s = Some (v, q) \<Longrightarrow> length q < length s"
  by (auto simp: parse_unicode_def dest!: join_low_length split: list.splits option.splits)

lemma parse_escape_length: "parse_escape s = Some (v, q) \<Longrightarrow> length q < length s"
  by (auto simp: parse_escape_def less_SucI dest!: parse_unicode_length simp del: escape_value.simps
      split: if_splits list.splits option.splits)

text \<open>
  The rest of a string after its opening quote: its characters and what follows the
  closing quote.
\<close>

function parse_str :: "str \<Rightarrow> (str \<times> str) res" where
  "parse_str [] = Inl JSONDecodeError"
| "parse_str (c # r) =
     (if c = 34 then Inr ([], r)
      else if c = 92 then
        (case parse_escape r of
           None \<Rightarrow> Inl JSONDecodeError
         | Some p \<Rightarrow> cons_fst (fst p) (parse_str (snd p)))
      else if c < 32 then Inl JSONDecodeError
      else cons_fst c (parse_str r))"
  by pat_completeness auto
termination
  by (relation "measure length") (auto dest!: parse_escape_length)

definition span_digits :: "str \<Rightarrow> str \<times> str" where
  "span_digits s = (takeWhile is_digit s, dropWhile is_digit s)"

text \<open>The interpreter refuses to convert more digits than this (ValueError).\<close>

definition int_max_str_digits :: nat where
  "int_max_str_digits = 4300"

definition frac_part :: "str \<Rightarrow> str \<times> str" where
  "frac_part s = (case s of
     c # d # r \<Rightarrow> if c = 46 \<and> is_digit d
                  then (c # takeWhile is_digit (d # r), dropWhile is_digit (d # r)) else ([], s)
   | _ \<Rightarrow> ([], s))"

definition exp_part :: "str \<Rightarrow> str \<times> str" where
  "exp_part s = (case s of
     c # r \<Rightarrow>
       if c = 101 \<or> c = 69 then
         (let (sign, r1) = (case r of d # r' \<Rightarrow> if d = 43 \<or> d = 45 then ([d], r') else ([], r) | [] \<Rightarrow> ([], r));
              ds = takeWhile is_digit r1
          in if ds = [] then ([], s) else (c # sign @ ds, dropWhile is_digit r1))
       else ([], s)
   | [] \<Rightarrow> ([], s))"

definition num_sign :: "str \<Rightarrow> str \<times> str" where
  "num_sign s = (case s of c # r \<Rightarrow> if c = 45 then ([45], r) else ([], s) | [] \<Rightarrow> ([], []))"

definition num_digits :: "str \<Rightarrow> str" where
  "num_digits s = (case s of c # r \<Rightarrow> if c = 48 then [48] else takeWhile is_digit s | [] \<Rightarrow> [])"

text \<open>A number: sign, integer part, and either nothing more or a float.\<close>

definition parse_number :: "(str \<Rightarrow> pyfloat) \<Rightarrow> str \<Rightarrow> (json \<times> str) res" where
  "parse_number fp s =
     (let (sign, s1) = num_sign s;
          ds = num_digits s1;
          (fs, s3) = frac_part (drop (length ds) s1);
          (es, s4) = exp_part s3
      in if ds = [] then Inl JSONDecodeError
         else if fs = [] \<and> es = [] then
           (if int_max_str_digits < length ds then Inl ValueError
            else Inr (JInt (if sign = [] then int (dec_value ds) else - int (dec_value ds)), s4))
         else Inr (JFloat (fp (sign @ ds @ fs @ es)), s4))"

text \<open>
  The value starting here, the rest of an array, and the rest of an object. The fuel
  counts calls; \<open>OtherError\<close> stands for running out of it, which \<open>loads\<close> never does.
\<close>

fun parse_value :: "(str \<Rightarrow> pyfloat) \<Rightarrow> nat \<Rightarrow> str \<Rightarrow> (json \<times> str) res"
and parse_elems :: "(str \<Rightarrow> pyfloat) \<Rightarrow> nat \<Rightarrow> str \<Rightarrow> (json list \<times> str) res"
and parse_members :: "(str \<Rightarrow> pyfloat) \<Rightarrow> nat \<Rightarrow> dict \<Rightarrow> str \<Rightarrow> (dict \<times> str) res" where
  "parse_value fp 0 s = Inl OtherError"
| "parse_value fp (Suc n) s =
     (case s of
        [] \<Rightarrow> Inl JSONDecodeError
      | c # r \<Rightarrow>
          if c = 34 then bind (parse_str r) (\<lambda>p. Inr (JStr (fst p), snd p))
          else if c = 91 then
            (case skip_ws r of
               d # r1 \<Rightarrow> if d = 93 then Inr (JArr [], r1)
                         else bind (parse_elems fp n (skip_ws r)) (\<lambda>p. Inr (JArr (fst p), snd p))
             | [] \<Rightarrow> Inl JSONDecodeError)
          else if c = 123 then
            (case skip_ws r of
               d # r1 \<Rightarrow> if d = 125 then Inr (JObj [], r1)
                         else bind (parse_members fp n [] (skip_ws r)) (\<lambda>p. Inr (JObj (fst p), snd p))
             | [] \<Rightarrow> Inl JSONDecodeError)
          else if starts_with (lit ''null'') s then Inr (JNull, drop 4 s)
          else if starts_with (lit ''true'') s then Inr (JBool True, drop 4 s)
          else if starts_with (lit ''false'') s then Inr (JBool False, drop 5 s)
          else if starts_with (lit ''NaN'') s then Inr (JFloat NaN, drop 3 s)
          else if starts_with (lit ''Infinity'') s then Inr (JFloat PosInf, drop 8 s)
          else if starts_with (lit ''-Infinity'') s then Inr (JFloat NegInf, drop 9 s)
          else parse_number fp s)"
| "parse_elems fp 0 s = Inl OtherError"
| "parse_elems fp (Suc n) s =
     bind (parse_value fp n s) (\<lambda>p.
       case skip_ws (snd p) of
         d # r \<Rightarrow> if d = 93 then Inr ([fst p], r)
                  else if d = 44
                  then bind (parse_elems fp n (skip_ws r)) (\<lambda>q. Inr (fst p # fst q, snd q))
                  else Inl JSONDecodeError
       | [] \<Rightarrow> Inl JSONDecodeError)"
| "parse_members fp 0 d s = Inl OtherError"
| "parse_members fp (Suc n) d s =
     (case s of
        [] \<Rightarrow> Inl JSONDecodeError
      | c # r \<Rightarrow>
          if c \<noteq> 34 then Inl JSONDecodeError
          else bind (parse_str r) (\<lambda>k.
            case skip_ws (snd k) of
              e # r1 \<Rightarrow>
                if e \<noteq> 58 then Inl JSONDecodeError
                else bind (parse_value fp n (skip_ws r1)) (\<lambda>p.
                  case skip_ws (snd p) of
                    f # r2 \<Rightarrow>
                      if f = 125 then Inr (dict_put d (fst k) (fst p), r2)
                      else if f = 44
                      then parse_members fp n (dict_put d (fst k) (fst p)) (skip_ws r2)
                      else Inl JSONDecodeError
                  | [] \<Rightarrow> Inl JSONDecodeError)
            | [] \<Rightarrow> Inl JSONDecodeError))"

text \<open>\<^verbatim>\<open>json.loads(text)\<close>: one value, surrounded by whitespace, and nothing more.\<close>

definition loads :: "(str \<Rightarrow> pyfloat) \<Rightarrow> str \<Rightarrow> json res" where
  "loads fp s =
     (case s of
        c # _ \<Rightarrow> if c = 65279 then Inl JSONDecodeError
                 else bind (parse_value fp (Suc (2 * length s)) (skip_ws s)) (\<lambda>p.
                        if skip_ws (snd p) = [] then Inr (fst p) else Inl JSONDecodeError)
      | [] \<Rightarrow> Inl JSONDecodeError)"

end
