(* ===== verification/JsonText.thy ===== *)
theory JsonText
  imports Json
begin

text \<open>
  Facts about the JSON text layer: reading back what was printed, and that the fuel
  \<open>loads\<close> passes to the decoder is enough for every input.
\<close>

section \<open>Strings\<close>

lemma hex4_value_hex4:
  assumes "u < 65536"
  shows "hex4_value (hex_digit (u div 4096)) (hex_digit (u div 256 mod 16))
           (hex_digit (u div 16 mod 16)) (hex_digit (u mod 16)) = Some u"
proof -
  have "u div 4096 < 16" using assms by auto
  moreover have "u div 4096 * 4096 + u div 256 mod 16 * 256 + u div 16 mod 16 * 16 + u mod 16 = u"
  proof -
    have "u div 4096 = u div 256 div 16" "u div 256 = u div 16 div 16"
      by (simp_all flip: div_mult2_eq)
    then have "u div 4096 * 16 + u div 256 mod 16 = u div 256"
      "u div 256 * 16 + u div 16 mod 16 = u div 16" "u div 16 * 16 + u mod 16 = u"
      by simp_all
    then show ?thesis by linarith
  qed
  ultimately show ?thesis by (simp add: hex4_value_def)
qed

lemma hex4_value_hex4':
  assumes "u < 65536" and "hex4 u = [a, b, c, d]"
  shows "hex4_value a b c d = Some u"
  using assms hex4_value_hex4 [of u] by (simp add: hex4_def)

text \<open>A character the printer can write so that the reader returns it.\<close>

definition printable :: "bool \<Rightarrow> nat \<Rightarrow> bool" where
  "printable ascii c \<longleftrightarrow> is_code_point c \<and> (ascii \<longrightarrow> \<not> is_surrogate c)"

lemma is_scalar_printable: "is_scalar c \<Longrightarrow> printable a c"
  by (simp add: is_scalar_def printable_def)

lemma parse_str_plain: "32 \<le> c \<Longrightarrow> c \<noteq> 34 \<Longrightarrow> c \<noteq> 92 \<Longrightarrow>
    parse_str (c # r) = cons_fst c (parse_str r)"
  by simp

lemma parse_str_escape: "escape_value e = Some v \<Longrightarrow> e \<noteq> 117 \<Longrightarrow>
    parse_str (92 # e # r) = cons_fst v (parse_str r)"
  by (simp add: parse_escape_def)

lemma parse_str_u:
  assumes "u < 65536" and "\<not> is_high u"
  shows "parse_str (92 # 117 # hex4 u @ r) = cons_fst u (parse_str r)"
  using assms hex4_value_hex4 [of u] by (simp add: hex4_def parse_escape_def parse_unicode_def join_low_def)

lemma parse_str_pair:
  assumes "is_high u" and "is_low l"
  shows "parse_str (92 # 117 # hex4 u @ 92 # 117 # hex4 l @ r) =
    cons_fst (65536 + (u - 55296) * 1024 + (l - 56320)) (parse_str r)"
proof -
  have "u < 65536" "l < 65536" using assms by (auto simp: is_high_def is_low_def)
  then show ?thesis using assms hex4_value_hex4 [of u] hex4_value_hex4 [of l]
    by (simp add: hex4_def parse_escape_def parse_unicode_def join_low_def)
qed

lemma parse_str_esc_char:
  assumes "printable a c"
  shows "parse_str (esc_char a c @ r) = cons_fst c (parse_str r)"
proof (cases "c < 32 \<or> c = 34 \<or> c = 92 \<or> \<not> (a \<and> 126 < c)")
  case True
  then show ?thesis
    using parse_str_u [of c r] parse_str_plain [of c r]
    by (auto simp: esc_char_def is_high_def parse_str_escape simp del: parse_str.simps)
next
  case False
  with assms have c: "126 < c" "c < 1114112" "\<not> is_surrogate c" and a
    by (auto simp: printable_def is_code_point_def)
  show ?thesis
  proof (cases "c < 65536")
    case True
    then have "\<not> is_high c" using c by (auto simp: is_high_def is_surrogate_def)
    with True c \<open>a\<close> show ?thesis
      using parse_str_u [of c r] by (simp add: esc_char_def del: parse_str.simps)
  next
    case large: False
    define u where "u = 55296 + (c - 65536) div 1024"
    define l where "l = 56320 + (c - 65536) mod 1024"
    have "(c - 65536) div 1024 < 1024" using c by auto
    then have hl: "is_high u" "is_low l"
      by (auto simp: u_def l_def is_high_def is_low_def)
    have "65536 + (u - 55296) * 1024 + (l - 56320) = c"
      using large by (simp add: u_def l_def)
    then show ?thesis
      using parse_str_pair [OF hl, of r] large c \<open>a\<close>
      by (simp add: esc_char_def u_def l_def del: parse_str.simps)
  qed
qed

lemma parse_str_json_str:
  "list_all (printable a) s \<Longrightarrow> parse_str (concat (map (esc_char a) s) @ 34 # r) = Inr (s, r)"
proof (induction s)
  case Nil
  then show ?case by simp
next
  case (Cons c s)
  then show ?case
    using parse_str_esc_char [of a c "concat (map (esc_char a) s) @ 34 # r"]
    by (simp add: cons_fst_def del: parse_str.simps)
qed

section \<open>Numbers\<close>

text \<open>What may follow a printed number without being read as part of it.\<close>

definition num_stop :: "str \<Rightarrow> bool" where
  "num_stop r \<longleftrightarrow> (case r of [] \<Rightarrow> True | c # _ \<Rightarrow> \<not> is_digit c \<and> c \<noteq> 46 \<and> c \<noteq> 101 \<and> c \<noteq> 69)"

lemma num_stop_parts: "num_stop r \<Longrightarrow> frac_part r = ([], r) \<and> exp_part r = ([], r)"
  by (auto simp: num_stop_def frac_part_def exp_part_def split: list.splits)

lemma takeWhile_digits: "list_all is_digit ds \<Longrightarrow> num_stop r \<Longrightarrow> takeWhile is_digit (ds @ r) = ds"
  by (induction ds) (auto simp: num_stop_def split: list.splits)

lemma dec_str_cases: "\<exists>d ds. dec_str n = d # ds \<and> is_digit d \<and> (d = 48 \<longrightarrow> ds = [])"
proof (cases "n = 0")
  case True
  then show ?thesis by (simp add: is_digit_def)
next
  case False
  obtain d ds where "dec_str n = d # ds" using dec_str_neq_Nil by (metis neq_Nil_conv)
  then show ?thesis
    using dec_str_digits [of n] dec_str_hd_zero [of n] False by auto
qed

lemma num_digits_dec_str:
  assumes "num_stop r"
  shows "num_digits (dec_str n @ r) = dec_str n"
proof -
  obtain d ds where d: "dec_str n = d # ds" "d = 48 \<longrightarrow> ds = []" using dec_str_cases by blast
  have "takeWhile is_digit (dec_str n @ r) = dec_str n"
    using dec_str_digits assms by (rule takeWhile_digits)
  with d show ?thesis by (auto simp: num_digits_def)
qed

lemma num_sign_dec_str: "num_sign (dec_str n @ r) = ([], dec_str n @ r)"
proof -
  obtain d ds where "dec_str n = d # ds" "is_digit d" using dec_str_cases by blast
  then show ?thesis by (auto simp: num_sign_def is_digit_def)
qed

definition int_fits :: "int \<Rightarrow> bool" where
  "int_fits i \<longleftrightarrow> length (dec_str (nat \<bar>i\<bar>)) \<le> int_max_str_digits"

lemma parse_number_int_str:
  assumes "num_stop r" and "int_fits i"
  shows "parse_number fp (int_str i @ r) = Inr (JInt i, r)"
proof -
  note stop = num_stop_parts [OF assms(1)] num_digits_dec_str [OF assms(1)]
  show ?thesis
  proof (cases "i < 0")
    case True
    with assms(2) stop show ?thesis
      by (simp add: parse_number_def int_str_def num_sign_def int_fits_def)
  next
    case False
    with assms(2) stop show ?thesis
      by (simp add: parse_number_def int_str_def num_sign_dec_str int_fits_def)
  qed
qed

lemma dec_str_bom: "dec_str n = 65279 # s \<Longrightarrow> False"
  using dec_str_cases [of n] by (auto simp: is_digit_def)

section \<open>Values\<close>

text \<open>
  A value \<open>dumps\<close> and \<open>loads\<close> carry exactly: no floats, printable text, dicts with
  distinct keys, integers within the conversion limit.
\<close>

fun plain :: "bool \<Rightarrow> json \<Rightarrow> bool" where
  "plain a (JInt i) = int_fits i"
| "plain a (JFloat f) = False"
| "plain a (JStr s) = list_all (printable a) s"
| "plain a (JArr xs) = list_all (plain a) xs"
| "plain a (JObj kvs) =
     (distinct (map fst kvs) \<and> list_all (\<lambda>p. list_all (printable a) (fst p) \<and> plain a (snd p)) kvs)"
| "plain a _ = True"

text \<open>
  A float is carried when the interpreter prints it as a number that it reads as the same float, as
  \<^verbatim>\<open>float.__repr__\<close> promises for every finite one. \<open>carried\<close> allows such floats.
\<close>

definition carried_float :: "(pyfloat \<Rightarrow> str) \<Rightarrow> (str \<Rightarrow> pyfloat) \<Rightarrow> pyfloat \<Rightarrow> bool" where
  "carried_float fr fp f \<longleftrightarrow>
     (\<exists>c s. fr f = c # s \<and> c < 128 \<and> list_all (\<lambda>x. x < 128) s \<and>
        (is_digit c \<or> c = 45 \<and> (\<exists>d s'. s = d # s' \<and> is_digit d))) \<and>
     (\<forall>r. num_stop r \<longrightarrow> parse_number fp (fr f @ r) = Inr (JFloat f, r))"

fun carried :: "(pyfloat \<Rightarrow> str) \<Rightarrow> (str \<Rightarrow> pyfloat) \<Rightarrow> bool \<Rightarrow> json \<Rightarrow> bool" where
  "carried fr fp a (JInt i) = int_fits i"
| "carried fr fp a (JFloat f) = carried_float fr fp f"
| "carried fr fp a (JStr s) = list_all (printable a) s"
| "carried fr fp a (JArr xs) = list_all (carried fr fp a) xs"
| "carried fr fp a (JObj kvs) =
     (distinct (map fst kvs) \<and> list_all (\<lambda>p. list_all (printable a) (fst p) \<and> carried fr fp a (snd p)) kvs)"
| "carried fr fp a _ = True"

lemma plain_carried: "plain a v \<Longrightarrow> carried fr fp a v"
  by (induction v) (auto simp: list_all_iff)

text \<open>The first character of printed text is never whitespace or a closing bracket.\<close>

definition val_start :: "nat \<Rightarrow> bool" where
  "val_start c \<longleftrightarrow> \<not> is_ws c \<and> c \<noteq> 93 \<and> c \<noteq> 125"

lemma lit_hd: "lit (c # s) = of_char c # lit s"
  by (simp add: lit_def)

lemma dumps_start:
  assumes "carried fr fp a v"
  shows "\<exists>c s. dumps fr a v = c # s \<and> val_start c"
proof (cases v)
  case (JInt i)
  obtain d ds where "dec_str (nat \<bar>i\<bar>) = d # ds" "is_digit d"
    using dec_str_cases by blast
  then show ?thesis using JInt
    by (cases "i < 0") (auto simp: int_str_def val_start_def is_ws_def is_digit_def)
next
  case (JFloat f)
  with assms show ?thesis by (auto simp: carried_float_def val_start_def is_ws_def is_digit_def)
qed (use assms in \<open>auto simp: lit_hd json_str_def val_start_def is_ws_def\<close>)

lemma num_stop_simps [simp]: "num_stop []" "num_stop (44 # r)" "num_stop (93 # r)" "num_stop (125 # r)"
  by (simp_all add: num_stop_def is_digit_def)

lemma starts_with_Cons: "starts_with (p # ps) (c # s) \<longleftrightarrow> p = c \<and> starts_with ps s"
  by (auto simp: starts_with_def)

lemma parse_value_number:
  assumes "is_digit c \<or> c = 45 \<and> (\<exists>d r'. r = d # r' \<and> is_digit d)"
  shows "parse_value fp (Suc n) (c # r) = parse_number fp (c # r)"
proof -
  have "c \<noteq> 34" "c \<noteq> 91" "c \<noteq> 123" using assms by (auto simp: is_digit_def)
  moreover have "\<not> starts_with (lit ''null'') (c # r)" "\<not> starts_with (lit ''true'') (c # r)"
    "\<not> starts_with (lit ''false'') (c # r)" "\<not> starts_with (lit ''NaN'') (c # r)"
    "\<not> starts_with (lit ''Infinity'') (c # r)" "\<not> starts_with (lit ''-Infinity'') (c # r)"
    using assms by (auto simp: lit_hd starts_with_Cons is_digit_def)
  ultimately show ?thesis by simp
qed

lemma parse_value_int:
  assumes "num_stop r" and "int_fits i"
  shows "parse_value fp (Suc n) (int_str i @ r) = Inr (JInt i, r)"
proof -
  obtain d ds where d: "dec_str (nat \<bar>i\<bar>) = d # ds" "is_digit d"
    using dec_str_cases by blast
  have "parse_value fp (Suc n) (int_str i @ r) = parse_number fp (int_str i @ r)"
  proof (cases "i < 0")
    case True
    with d have "int_str i @ r = 45 # d # ds @ r" by (simp add: int_str_def)
    with d(2) parse_value_number [of 45 "d # ds @ r"] show ?thesis by simp
  next
    case False
    with d have "int_str i @ r = d # ds @ r" by (simp add: int_str_def)
    with d(2) parse_value_number [of d "ds @ r"] show ?thesis by simp
  qed
  then show ?thesis using parse_number_int_str [OF assms] by simp
qed

lemma parse_elems_dumps:
  assumes "\<And>x n r. x \<in> set xs \<Longrightarrow> length (dumps fr a x) \<le> n \<Longrightarrow> num_stop r \<Longrightarrow>
      parse_value fp n (dumps fr a x @ r) = Inr (x, r)"
    and "list_all (carried fr fp a) xs" and "xs \<noteq> []"
    and "length (intersperse_comma (map (dumps fr a) xs)) < n"
  shows "parse_elems fp n (intersperse_comma (map (dumps fr a) xs) @ 93 # r) = Inr (xs, r)"
  using assms
proof (induction xs arbitrary: n)
  case Nil
  then show ?case by simp
next
  case (Cons x xs)
  then obtain m where n: "n = Suc m" by (cases n) auto
  show ?case
  proof (cases xs)
    case Nil
    with Cons n show ?thesis by (simp add: is_ws_def)
  next
    case (Cons y ys)
    let ?rest = "intersperse_comma (map (dumps fr a) xs) @ 93 # r"
    have lens: "length (dumps fr a x) \<le> m" "length (intersperse_comma (map (dumps fr a) xs)) < m"
      using Cons Cons.prems(4) n by auto
    obtain c s where "dumps fr a y = c # s" "val_start c"
      using dumps_start [of fr fp a y] Cons Cons.prems(2) by auto
    then have ws: "skip_ws ?rest = ?rest"
      using Cons by (cases ys) (auto simp: val_start_def)
    have "parse_value fp m (dumps fr a x @ 44 # ?rest) = Inr (x, 44 # ?rest)"
      using Cons.prems(1) lens(1) by simp
    moreover have "parse_elems fp m ?rest = Inr (xs, r)"
      using Cons.IH [of m] Cons.prems lens(2) \<open>xs = y # ys\<close> by simp
    ultimately show ?thesis
      using n ws Cons by (simp add: is_ws_def)
  qed
qed

lemma parse_members_dumps:
  assumes "\<And>k v n r. (k, v) \<in> set kvs \<Longrightarrow> length (dumps fr a v) \<le> n \<Longrightarrow> num_stop r \<Longrightarrow>
      parse_value fp n (dumps fr a v @ r) = Inr (v, r)"
    and "list_all (\<lambda>p. list_all (printable a) (fst p) \<and> carried fr fp a (snd p)) kvs" and "kvs \<noteq> []"
    and "distinct (map fst (d @ kvs))"
    and "length (intersperse_comma (map (\<lambda>p. json_str a (fst p) @ 58 # dumps fr a (snd p)) kvs)) < n"
  shows "parse_members fp n d
      (intersperse_comma (map (\<lambda>p. json_str a (fst p) @ 58 # dumps fr a (snd p)) kvs) @ 125 # r) =
      Inr (d @ kvs, r)"
  using assms
proof (induction kvs arbitrary: n d)
  case Nil
  then show ?case by simp
next
  case (Cons p kvs)
  let ?item = "\<lambda>p. json_str a (fst p) @ 58 # dumps fr a (snd p)"
  obtain k v where p: "p = (k, v)" by force
  obtain m where n: "n = Suc m" using Cons.prems(5) by (cases n) auto
  obtain c s where start: "dumps fr a v = c # s" "val_start c"
    using dumps_start [of fr fp a v] Cons.prems(2) p by auto
  have put: "dict_put d k v = d @ [(k, v)]"
    using Cons.prems(4) p by (intro dict_put_fresh) auto
  have str: "parse_str (concat (map (esc_char a) k) @ 34 # q) = Inr (k, q)" for q
    using Cons.prems(2) p by (intro parse_str_json_str) auto
  have val: "parse_value fp m (dumps fr a v @ q) = Inr (v, q)" if "num_stop q" for q
  proof -
    have "length (dumps fr a v) \<le> m"
      using Cons.prems(5) p n by (cases kvs) (auto simp: json_str_def)
    then show ?thesis using Cons.prems(1) [of k v m q] p that by simp
  qed
  show ?case
  proof (cases kvs)
    case Nil
    with p n put str val [of "125 # r"] start show ?thesis
      by (simp add: json_str_def is_ws_def val_start_def)
  next
    case (Cons q qs)
    let ?rest = "intersperse_comma (map ?item kvs) @ 125 # r"
    have ws: "skip_ws ?rest = ?rest"
      using Cons by (cases qs) (auto simp: json_str_def is_ws_def)
    have "parse_members fp m (d @ [(k, v)]) ?rest = Inr ((d @ [(k, v)]) @ kvs, r)"
    proof (rule Cons.IH)
      show "parse_value fp n' (dumps fr a v' @ r') = Inr (v', r')"
        if "(k', v') \<in> set kvs" "length (dumps fr a v') \<le> n'" "num_stop r'" for k' v' n' r'
        using Cons.prems(1) [of k' v' n' r'] that by simp
    qed (use Cons.prems Cons p n in auto)
    with Cons p n put str val [of "44 # ?rest"] start ws show ?thesis
      by (simp add: json_str_def is_ws_def val_start_def)
  qed
qed

lemma parse_value_dumps:
  "carried fr fp a v \<Longrightarrow> length (dumps fr a v) \<le> n \<Longrightarrow> num_stop r \<Longrightarrow>
   parse_value fp n (dumps fr a v @ r) = Inr (v, r)"
proof (induction v arbitrary: n r)
  case (JInt i)
  then obtain m where "n = Suc m"
    using dec_str_neq_Nil by (cases n) (auto simp: int_str_def split: if_splits)
  with JInt show ?case using parse_value_int [of r i fp m] by simp
next
  case (JStr s)
  then obtain m where "n = Suc m" by (cases n) (auto simp: json_str_def)
  with JStr show ?case
    using parse_str_json_str [of a s r] by (simp add: json_str_def del: parse_str.simps)
next
  case (JArr xs)
  then obtain m where n: "n = Suc m" by (cases n) auto
  show ?case
  proof (cases xs)
    case Nil
    with n show ?thesis by (simp add: is_ws_def)
  next
    case (Cons y ys)
    let ?body = "intersperse_comma (map (dumps fr a) xs) @ 93 # r"
    obtain c s where c: "dumps fr a y = c # s" "val_start c"
      using dumps_start [of fr fp a y] Cons JArr.prems(1) by auto
    then obtain t where body: "?body = c # t" "skip_ws ?body = c # t"
      using Cons by (cases ys) (auto simp: val_start_def)
    have "parse_elems fp m ?body = Inr (xs, r)"
      using JArr Cons n by (intro parse_elems_dumps) (auto simp: list_all_iff)
    with c body n show ?thesis by (simp add: val_start_def)
  qed
next
  case (JObj kvs)
  let ?item = "\<lambda>p. json_str a (fst p) @ 58 # dumps fr a (snd p)"
  obtain m where n: "n = Suc m" using JObj.prems(2) by (cases n) auto
  show ?case
  proof (cases kvs)
    case Nil
    with n show ?thesis by (simp add: is_ws_def)
  next
    case (Cons p ps)
    let ?body = "intersperse_comma (map ?item kvs) @ 125 # r"
    obtain t where body: "?body = 34 # t" "skip_ws ?body = 34 # t"
      using Cons by (cases ps) (auto simp: json_str_def is_ws_def)
    have "parse_members fp m [] ?body = Inr ([] @ kvs, r)"
    proof (rule parse_members_dumps)
      show "parse_value fp n' (dumps fr a v @ r') = Inr (v, r')"
        if "(k, v) \<in> set kvs" "length (dumps fr a v) \<le> n'" "num_stop r'" for k v n' r'
        using JObj.IH [OF that(1), of v] JObj.prems(1) that by (auto simp: list_all_iff)
    qed (use JObj.prems Cons n in auto)
    with body n show ?thesis by simp
  qed
next
  case JNull
  then obtain m where "n = Suc m" by (cases n) auto
  then show ?case by (simp add: lit_hd starts_with_def)
next
  case (JBool b)
  then obtain m where "n = Suc m" by (cases n; cases b) auto
  then show ?case by (cases b) (simp_all add: lit_hd starts_with_def)
next
  case (JFloat f)
  then obtain c s where c: "fr f = c # s" "is_digit c \<or> c = 45 \<and> (\<exists>d s'. s = d # s' \<and> is_digit d)"
    by (auto simp: carried_float_def)
  with JFloat obtain m where n: "n = Suc m" by (cases n) auto
  have "parse_value fp (Suc m) (c # (s @ r)) = parse_number fp (c # (s @ r))"
    using c(2) by (intro parse_value_number) auto
  with JFloat c(1) n show ?case by (simp add: carried_float_def del: parse_value.simps)
qed

text \<open>Reading back what was printed, possibly followed by the newline of a frame or a file.\<close>

lemma loads_carried:
  assumes "carried fr fp a v" and "list_all is_ws r"
  shows "loads fp (dumps fr a v @ r) = Inr v"
proof -
  obtain c s where c: "dumps fr a v = c # s" "val_start c"
    using dumps_start [OF assms(1)] by blast
  have stop: "num_stop r"
    using assms(2) by (cases r) (auto simp: num_stop_def is_ws_def is_digit_def)
  have "c \<noteq> 65279"
    using assms(1) c by (cases v) (auto simp: json_str_def int_str_def lit_hd carried_float_def split: if_splits
        dest!: dec_str_bom)
  with c stop assms parse_value_dumps [OF assms(1) _ stop, of "Suc (2 * length (dumps fr a v @ r))"]
  show ?thesis by (simp add: loads_def val_start_def skip_ws_def dropWhile_eq_Nil_conv list_all_iff)
qed

lemma loads_dumps_trailing:
  assumes "plain a v" and "list_all is_ws r"
  shows "loads fp (dumps fr a v @ r) = Inr v"
  using loads_carried [OF plain_carried assms(2)] assms(1) .

section \<open>The fuel is enough\<close>

text \<open>Every successful reader consumes at least one character.\<close>

lemma cons_fst_Inr: "cons_fst c r = Inr (t, q) \<longleftrightarrow> (\<exists>t'. t = c # t' \<and> r = Inr (t', q))"
  by (auto simp: cons_fst_def res_simps)

lemma cons_fst_Inl: "cons_fst c r = Inl e \<longleftrightarrow> r = Inl e"
  by (auto simp: cons_fst_def res_simps)

lemma parse_str_shorter: "parse_str s = Inr (t, r) \<Longrightarrow> length r < length s"
proof (induction s arbitrary: t rule: parse_str.induct)
  case (2 c q)
  then show ?case
    by (force simp: cons_fst_Inr split: if_splits option.splits dest: parse_escape_length)
qed simp

lemma parse_str_error: "parse_str s = Inl e \<Longrightarrow> e = JSONDecodeError"
  by (induction s rule: parse_str.induct) (auto simp: cons_fst_Inl split: if_splits option.splits)

lemma part_lengths: "length (snd (frac_part s)) \<le> length s" "length (snd (exp_part s)) \<le> length s"
proof -
  have dw: "length (dropWhile is_digit x) \<le> length x" for x by (rule length_dropWhile_le)
  show "length (snd (frac_part s)) \<le> length s"
    using dw [of "tl s"] by (auto simp: frac_part_def split: list.splits)
  show "length (snd (exp_part s)) \<le> length s"
    using dw [of "tl s"] dw [of "tl (tl s)"]
    by (auto simp: exp_part_def Let_def split: list.splits)
qed

lemma parse_number_shorter: "parse_number fp s = Inr (v, r) \<Longrightarrow> length r < length s"
proof -
  assume a: "parse_number fp s = Inr (v, r)"
  define s1 where "s1 = snd (num_sign s)"
  define s2 where "s2 = drop (length (num_digits s1)) s1"
  have r: "r = snd (exp_part (snd (frac_part s2)))" and ds: "num_digits s1 \<noteq> []"
    using a by (auto simp: parse_number_def Let_def case_prod_unfold s1_def s2_def split: if_splits)
  have "length s1 \<le> length s" by (auto simp: s1_def num_sign_def split: list.splits)
  moreover have "length s2 < length s1"
    using ds by (cases s1) (auto simp: s2_def num_digits_def)
  ultimately show ?thesis
    using part_lengths(1) [of s2] part_lengths(2) [of "snd (frac_part s2)"] r by simp
qed

lemma parse_number_error: "parse_number fp s = Inl e \<Longrightarrow> e = JSONDecodeError \<or> e = ValueError"
  by (auto simp: parse_number_def Let_def case_prod_unfold split: if_splits)

lemma parse_shorter:
  "parse_value fp n s = Inr (v, r) \<Longrightarrow> length r < length s"
  "parse_elems fp n s = Inr (vs, r) \<Longrightarrow> length r < length s"
  "parse_members fp n d s = Inr (d', r) \<Longrightarrow> length r < length s"
proof (induction n arbitrary: s v vs r d d')
  case 0
  { case 1 then show ?case by simp }
  { case 2 then show ?case by simp }
  { case 3 then show ?case by simp }
next
  case (Suc n)
  note le = order.strict_trans2 [OF _ skip_ws_length]
  { case 1
    then show ?case
      using skip_ws_length [of "tl s"]
      by (auto split: list.splits if_splits simp: res_simps
          dest!: parse_str_shorter parse_number_shorter Suc.IH) }
  { case 2
    then obtain p where p: "parse_value fp n s = Inr p" by (auto simp: res_simps)
    have "length (skip_ws (snd p)) < length s"
      using Suc.IH(1) [of s "fst p" "snd p"] p skip_ws_length [of "snd p"] by simp
    then show ?case using 2 p
      by (auto split: list.splits if_splits simp: res_simps dest!: Suc.IH(2)
          intro: order.strict_trans le) }
  { case 3
    from 3 obtain q where s: "s = 34 # q" by (auto split: list.splits if_splits)
    from 3 s obtain k where k: "parse_str q = Inr k" by (auto simp: res_simps)
    from 3 s k obtain r1 where r1: "skip_ws (snd k) = 58 # r1"
      by (auto split: list.splits if_splits)
    from 3 s k r1 obtain p where p: "parse_value fp n (skip_ws r1) = Inr p" by (auto simp: res_simps)
    from 3 s k r1 p obtain f r2 where r2: "skip_ws (snd p) = f # r2"
      by (auto split: list.splits if_splits)
    have "length (snd k) < length q" "length (snd p) < length (skip_ws r1)"
      using parse_str_shorter [of q "fst k" "snd k"] k Suc.IH(1) [of "skip_ws r1" "fst p" "snd p"] p by auto
    moreover have "Suc (length r1) \<le> length (snd k)" "Suc (length r2) \<le> length (snd p)"
      using skip_ws_length [of "snd k"] skip_ws_length [of "snd p"] r1 r2 by auto
    ultimately have len: "length r2 < length q"
      using skip_ws_length [of r1] by linarith
    from 3 s k r1 p r2 have "r = r2 \<or> (\<exists>d''. parse_members fp n d'' (skip_ws r2) = Inr (d', r))"
      by (auto split: if_splits)
    then show ?case
      using len s Suc.IH(3) [of _ "skip_ws r2" d' r] skip_ws_length [of r2] by force }
qed

text \<open>With two units of fuel per character no reader runs out of it.\<close>

lemma parse_no_fuel_error:
  "2 * length s < n \<Longrightarrow> parse_value fp n s \<noteq> Inl OtherError"
  "2 * length s + 1 < n \<Longrightarrow> parse_elems fp n s \<noteq> Inl OtherError"
  "2 * length s < n \<Longrightarrow> parse_members fp n d s \<noteq> Inl OtherError"
proof (induction n arbitrary: s d)
  case 0
  { case 1 then show ?case by simp }
  { case 2 then show ?case by simp }
  { case 3 then show ?case by simp }
next
  case (Suc n)
  { case 1
    then show ?case
      using skip_ws_length [of "tl s"] Suc.IH(2) [of "skip_ws (tl s)"] Suc.IH(3) [of "skip_ws (tl s)" "[]"]
      by (auto split: list.splits if_splits simp: res_simps
          dest!: parse_str_error parse_number_error) }
  { case 2
    show ?case
    proof
      assume e: "parse_elems fp (Suc n) s = Inl OtherError"
      from 2 Suc.IH(1) [of s] have "parse_value fp n s \<noteq> Inl OtherError" by simp
      with e obtain p where p: "parse_value fp n s = Inr p" by (auto simp: res_simps)
      with e obtain d r where r: "skip_ws (snd p) = d # r"
        by (cases "skip_ws (snd p)") auto
      with e p have f: "parse_elems fp n (skip_ws r) = Inl OtherError"
        by (auto simp: res_simps split: if_splits)
      have "length (skip_ws r) < length s"
        using parse_shorter(1) [of fp n s "fst p" "snd p"] p r
          skip_ws_length [of "snd p"] skip_ws_length [of r] by simp
      with 2 f Suc.IH(2) [of "skip_ws r"] show False by simp
    qed }
  { case 3
    show ?case
    proof
      assume e: "parse_members fp (Suc n) d s = Inl OtherError"
      from e obtain q where s: "s = 34 # q" by (auto split: list.splits if_splits)
      with e obtain k where k: "parse_str q = Inr k"
        by (auto simp: res_simps dest!: parse_str_error)
      with e s obtain r1 where r1: "skip_ws (snd k) = 58 # r1"
        by (cases "skip_ws (snd k)") (auto split: if_splits)
      have l1: "length (skip_ws r1) < length q"
        using parse_str_shorter [of q "fst k" "snd k"] k r1
          skip_ws_length [of "snd k"] skip_ws_length [of r1] by simp
      then have "parse_value fp n (skip_ws r1) \<noteq> Inl OtherError"
        using 3 s Suc.IH(1) [of "skip_ws r1"] by simp
      with e s k r1 obtain p where p: "parse_value fp n (skip_ws r1) = Inr p"
        by (auto simp: res_simps)
      with e s k r1 obtain f r2 where r2: "skip_ws (snd p) = f # r2"
        by (cases "skip_ws (snd p)") auto
      with e s k r1 p obtain d' where m: "parse_members fp n d' (skip_ws r2) = Inl OtherError"
        by (auto split: if_splits)
      have "length (skip_ws r2) < length q"
        using parse_shorter(1) [of fp n "skip_ws r1" "fst p" "snd p"] p r2 l1
          skip_ws_length [of "snd p"] skip_ws_length [of r2] by simp
      with 3 s m Suc.IH(3) [of "skip_ws r2" d'] show False by simp
    qed }
qed

lemma loads_no_fuel_error: "loads fp s \<noteq> Inl OtherError"
proof -
  have "2 * length (skip_ws s) < Suc (2 * length s)" using skip_ws_length [of s] by simp
  then show ?thesis
    using parse_no_fuel_error(1) [of "skip_ws s" "Suc (2 * length s)" fp]
    by (auto simp: loads_def res_simps split: list.splits if_splits)
qed

text \<open>The only errors of the decoder: malformed text, or an integer with too many digits.\<close>

lemma parse_errors:
  "parse_value fp n s = Inl e \<Longrightarrow> e \<in> {JSONDecodeError, ValueError, OtherError}"
  "parse_elems fp n s = Inl e \<Longrightarrow> e \<in> {JSONDecodeError, ValueError, OtherError}"
  "parse_members fp n d s = Inl e \<Longrightarrow> e \<in> {JSONDecodeError, ValueError, OtherError}"
proof (induction n arbitrary: s d)
  case 0
  { case 1 then show ?case by simp }
  { case 2 then show ?case by simp }
  { case 3 then show ?case by simp }
next
  case (Suc n)
  { case 1
    then show ?case using Suc.IH
      by (auto split: list.splits if_splits simp: res_simps dest!: parse_str_error parse_number_error) }
  { case 2
    show ?case
    proof (cases "parse_value fp n s")
      case (Inl x)
      with 2 Suc.IH(1) [of s] show ?thesis by auto
    next
      case (Inr p)
      then show ?thesis using 2 Suc.IH(2)
        by (cases "skip_ws (snd p)") (auto split: if_splits simp: res_simps)
    qed }
  { case 3
    show ?case
    proof (cases "\<exists>q. s = 34 # q")
      case False
      with 3 show ?thesis by (auto split: list.splits if_splits)
    next
      case True
      then obtain q where q: "s = 34 # q" by blast
      show ?thesis
      proof (cases "parse_str q")
        case (Inl x)
        with 3 q show ?thesis by (auto dest: parse_str_error)
      next
        case (Inr k)
        show ?thesis
        proof (cases "\<exists>r1. skip_ws (snd k) = 58 # r1")
          case False
          with 3 q Inr show ?thesis by (auto split: list.splits if_splits)
        next
          case True
          then obtain r1 where r1: "skip_ws (snd k) = 58 # r1" by blast
          show ?thesis
          proof (cases "parse_value fp n (skip_ws r1)")
            case (Inl x)
            with 3 q Inr r1 Suc.IH(1) [of "skip_ws r1"] show ?thesis by auto
          next
            case (Inr p)
            with 3 q \<open>parse_str q = Inr k\<close> r1 Suc.IH(3) show ?thesis
              by (cases "skip_ws (snd p)") (auto split: if_splits)
          qed
        qed
      qed
    qed }
qed

lemma loads_error: "loads fp s = Inl e \<Longrightarrow> e = JSONDecodeError \<or> e = ValueError"
proof -
  assume a: "loads fp s = Inl e"
  show ?thesis
  proof (cases "s = [] \<or> hd s = 65279")
    case True
    with a show ?thesis by (cases s) (auto simp: loads_def)
  next
    case False
    show ?thesis
    proof (cases "parse_value fp (Suc (2 * length s)) (skip_ws s)")
      case (Inl x)
      with a False have "x = e" by (cases s) (auto simp: loads_def)
      with Inl parse_errors(1) [OF Inl] loads_no_fuel_error [of fp s] a show ?thesis by auto
    next
      case (Inr p)
      with a False show ?thesis by (cases s) (auto simp: loads_def split: if_splits)
    qed
  qed
qed

end
