(* ===== verification/Disk.thy ===== *)
theory Disk
  imports JsonText
begin

text \<open>
  The state directory. Every store of the program keeps JSON files in one private
  directory, reads a file whole and replaces it whole: \<open>atomic_json\<close> writes a temporary file
  and renames it, and every read-modify-write runs under a file lock, so an operation is one
  transition from a directory to a directory. A file is its bytes and whether
  \<open>require_private_file\<close> would accept it (a regular file of this user with mode 0600); files
  the program writes are accepted.

  The parameters of the interpreter and of its standard tables are collected in
  \<open>pyenv\<close>; \<open>env_ok\<close> names what the program relies on of them.

  The locale \<open>json_table\<close> is the interface between a record type and its table on disk:
  a record printed with \<open>to_dict\<close> is accepted and restored by \<open>from_object\<close>.
\<close>

section \<open>The interpreter's tables\<close>

record pyenv =
  sha256hex :: "bytes \<Rightarrow> str"
  ucategory :: "nat \<Rightarrow> string"
  casefold :: "str \<Rightarrow> str"
  fromisoformat :: "str \<Rightarrow> (bool \<times> rat) option"
  isoformat :: "rat \<Rightarrow> str"
  float_repr :: "pyfloat \<Rightarrow> str"
  float_parse :: "str \<Rightarrow> pyfloat"
  decode_wide :: "bytes \<Rightarrow> str option"
  is_token_char :: "nat \<Rightarrow> bool"

text \<open>
  \<open>hashlib.sha256(..).hexdigest()\<close> is 64 lower-case hexadecimal digits; \<open>datetime.isoformat\<close>
  of an aware time is text that \<open>fromisoformat\<close> reads back. The other fields are the Unicode
  database (\<open>unicodedata.category\<close>, \<open>str.casefold\<close>, the class
  \<^verbatim>\<open>[^\W_]\<close> of regular expressions), the decimal conversion of floats, and the UTF-16 and UTF-32
  decoders that \<open>json.loads\<close> tries on bytes; nothing is assumed of them.
\<close>

definition env_ok :: "pyenv \<Rightarrow> bool" where
  "env_ok E \<longleftrightarrow>
     (\<forall>b. hex64 (sha256hex E b)) \<and>
     (\<forall>t. fromisoformat E (isoformat E t) = Some (True, t)) \<and>
     (\<forall>t. list_all is_scalar (isoformat E t))"

lemma env_ok_sha [dest]: "env_ok E \<Longrightarrow> hex64 (sha256hex E b)"
  by (simp add: env_ok_def)

lemma env_ok_iso: "env_ok E \<Longrightarrow> fromisoformat E (isoformat E t) = Some (True, t)"
  by (simp add: env_ok_def)

text \<open>
  An environment with these properties, for concrete runs: a digest that prints the first 32
  bytes in hexadecimal, and times printed as fractions. It is no model of SHA-256 or of ISO
  8601, only an instance of what the program relies on.
\<close>

definition sample_digest :: "bytes \<Rightarrow> str" where
  "sample_digest b =
     take 64 (concat (map (\<lambda>x. [hex_digit (x div 16 mod 16), hex_digit (x mod 16)]) b) @ replicate 64 48)"

definition sample_iso :: "rat \<Rightarrow> str" where
  "sample_iso t = (case quotient_of t of (n, d) \<Rightarrow> int_str n @ 47 # dec_str (nat d))"

definition sample_from_iso :: "str \<Rightarrow> (bool \<times> rat) option" where
  "sample_from_iso s =
     (let a = takeWhile (\<lambda>c. c \<noteq> 47) s; b = drop (Suc (length a)) s;
          n = (if a \<noteq> [] \<and> hd a = 45 then - int (dec_value (tl a)) else int (dec_value a))
      in if a = [] \<or> b = [] then None else Some (True, Fract n (int (dec_value b))))"

definition sample_env :: pyenv where
  "sample_env =
     \<lparr>sha256hex = sample_digest, ucategory = (\<lambda>c. if c < 32 then ''Cc'' else ''Ll''),
      casefold = map (\<lambda>c. if is_upper c then c + 32 else c),
      fromisoformat = sample_from_iso, isoformat = sample_iso,
      float_repr = (\<lambda>_. [48, 46, 48]), float_parse = (\<lambda>_. Fin 0), decode_wide = (\<lambda>_. None),
      is_token_char = is_alnum\<rparr>"

lemma sample_digest_hex64: "hex64 (sample_digest b)"
proof -
  have "is_hex (hex_digit (x div 16 mod 16))" "is_hex (hex_digit (x mod 16))" for x :: nat by simp_all
  then have "list_all is_hex (concat (map (\<lambda>x. [hex_digit (x div 16 mod 16), hex_digit (x mod 16)]) b) @ replicate 64 48)"
    by (auto simp: list_all_iff is_hex_def is_digit_def)
  then show ?thesis
    unfolding hex64_def sample_digest_def by (auto simp: list_all_iff dest!: in_set_takeD)
qed

lemma int_str_digits: "c \<in> set (int_str n) \<Longrightarrow> is_digit c \<or> c = 45"
  using dec_str_digits by (auto simp: int_str_def list_all_iff split: if_splits)

lemma int_str_value:
  "(if int_str n \<noteq> [] \<and> hd (int_str n) = 45 then - int (dec_value (tl (int_str n))) else int (dec_value (int_str n))) = n"
proof (cases "n < 0")
  case False
  have "hd (dec_str (nat n)) \<in> set (dec_str (nat n))" by simp
  with dec_str_digits [of "nat n"] have "hd (dec_str (nat n)) \<noteq> 45"
    by (force simp: list_all_iff is_digit_def)
  with False show ?thesis by (simp add: int_str_def)
qed (simp add: int_str_def)

lemma sample_iso_back: "sample_from_iso (sample_iso t) = Some (True, t)"
proof -
  obtain n d where q: "quotient_of t = (n, d)" by (cases "quotient_of t")
  then have t: "t = Fract n d" "0 < d"
    using quotient_of_div [OF q] quotient_of_denom_pos [OF q] by (simp_all add: Fract_of_int_quotient)
  have iso: "sample_iso t = int_str n @ 47 # dec_str (nat d)" by (simp add: sample_iso_def q)
  have "\<forall>c \<in> set (int_str n). c \<noteq> 47" by (auto dest: int_str_digits simp: is_digit_def)
  then have a: "takeWhile (\<lambda>c. c \<noteq> 47) (sample_iso t) = int_str n"
    by (simp add: iso takeWhile_append2)
  have "int_str n \<noteq> []" by (simp add: int_str_def)
  then show ?thesis
    unfolding sample_from_iso_def Let_def a using int_str_value [of n] t(2)
    by (simp add: iso) (simp add: t(1))
qed

lemma sample_env_ok: "env_ok sample_env"
proof -
  have "list_all is_scalar (sample_iso t)" for t
    using int_str_digits dec_str_digits
    by (force simp: sample_iso_def list_all_iff is_scalar_def is_code_point_def is_surrogate_def is_digit_def
        split: prod.splits)
  then show ?thesis
    by (simp add: env_ok_def sample_env_def sample_digest_hex64 sample_iso_back)
qed

section \<open>Sorted dictionaries\<close>

abbreviation sort_dict :: "dict \<Rightarrow> dict" where
  "sort_dict d \<equiv> foldr insert_key (map (\<lambda>p. (fst p, sort_keys (snd p))) d) []"

lemma set_insert_key [simp]: "set (insert_key p d) = insert p (set d)"
  by (induction d) auto

lemma distinct_insert_key:
  "fst p \<notin> fst ` set d \<Longrightarrow> distinct (map fst d) \<Longrightarrow> distinct (map fst (insert_key p d))"
  by (induction d) auto

lemma set_sort_dict: "set (sort_dict d) = (\<lambda>p. (fst p, sort_keys (snd p))) ` set d"
  by (induction d) auto

lemma keys_sort_dict [simp]: "fst ` set (sort_dict d) = fst ` set d"
  by (simp add: set_sort_dict image_image)

lemma distinct_sort_dict: "distinct (map fst d) \<Longrightarrow> distinct (map fst (sort_dict d))"
  by (induction d) (auto intro!: distinct_insert_key simp: set_sort_dict simp del: keys_sort_dict)

lemma map_of_insert_key:
  "fst p \<notin> fst ` set d \<Longrightarrow> map_of (insert_key p d) = (map_of d)(fst p \<mapsto> snd p)"
  by (induction d) (auto simp: fun_eq_iff)

lemma map_of_sort_dict:
  "distinct (map fst d) \<Longrightarrow> map_of (sort_dict d) k = map_option sort_keys (map_of d k)"
proof (induction d)
  case (Cons p d)
  then have "fst p \<notin> fst ` set (sort_dict d)" by simp
  with Cons show ?case by (cases p) (auto simp: map_of_insert_key)
qed simp

lemma has_keys_sort_dict [simp]: "has_keys (sort_dict d) ks \<longleftrightarrow> has_keys d ks"
  by (simp add: has_keys_def)

lemma carried_sort_keys: "carried fr fp a v \<Longrightarrow> carried fr fp a (sort_keys v)"
proof (induction v)
  case (JArr xs)
  then show ?case by (auto simp: list_all_iff)
next
  case (JObj d)
  then have "carried fr fp a (sort_keys (snd p))" if "p \<in> set d" for p
    using that by (cases p) (force simp: list_all_iff)
  with JObj.prems show ?case
    by (auto simp: list_all_iff set_sort_dict distinct_sort_dict simp del: keys_sort_dict)
qed auto

lemma plain_sort_keys: "plain a v \<Longrightarrow> plain a (sort_keys v)"
proof (induction v)
  case (JArr xs)
  then show ?case by (auto simp: list_all_iff)
next
  case (JObj d)
  then have "plain a (sort_keys (snd p))" if "p \<in> set d" for p
    using that by (cases p) (force simp: list_all_iff)
  with JObj.prems show ?case
    by (auto simp: list_all_iff set_sort_dict distinct_sort_dict simp del: keys_sort_dict)
qed auto

section \<open>Files\<close>

record pfile =
  is_private :: bool
  data :: bytes

record dir =
  root_path :: str
  files :: "str \<Rightarrow> pfile option"

definition require_private_file :: "dir \<Rightarrow> str \<Rightarrow> unit res" where
  "require_private_file d n =
     (case files d n of
        None \<Rightarrow> Inl OSError
      | Some f \<Rightarrow>
          if is_private f then Inr ()
          else Inl (ChatError (lit ''private file is unsafe: '' @ root_path d @ 47 # n)))"

text \<open>The bytes \<open>atomic_json\<close> writes: sorted keys, compact, ASCII, and a final newline.\<close>

definition json_payload :: "pyenv \<Rightarrow> json \<Rightarrow> bytes" where
  "json_payload E v = concat (map utf8_char (dumps (float_repr E) True (sort_keys v) @ [10]))"

definition atomic_json :: "pyenv \<Rightarrow> dir \<Rightarrow> str \<Rightarrow> json \<Rightarrow> dir" where
  "atomic_json E d n v =
     d\<lparr>files := (files d)(n \<mapsto> \<lparr>is_private = True, data = json_payload E v\<rparr>)\<rparr>"

definition unlink :: "dir \<Rightarrow> str \<Rightarrow> dir" where
  "unlink d n = d\<lparr>files := (files d)(n := None)\<rparr>"

text \<open>\<^verbatim>\<open>json.loads(path.read_text(encoding="utf-8"))\<close> on an existing file.\<close>

definition loads_file :: "pyenv \<Rightarrow> pfile \<Rightarrow> json res" where
  "loads_file E f =
     (case utf8_decode False (data f) of
        None \<Rightarrow> Inl UnicodeError
      | Some s \<Rightarrow> loads (float_parse E) s)"

text \<open>
  \<^verbatim>\<open>json.loads(b)\<close> on bytes: \<open>detect_encoding\<close> looks at a byte order mark and at zero bytes;
  text in UTF-8 may carry a mark, which is dropped.
\<close>

definition is_wide :: "bytes \<Rightarrow> bool" where
  "is_wide b \<longleftrightarrow>
     starts_with [0, 0, 254, 255] b \<or> starts_with [255, 254, 0, 0] b \<or> starts_with [254, 255] b \<or>
     starts_with [255, 254] b \<or>
     (\<not> starts_with [239, 187, 191] b \<and>
       ((4 \<le> length b \<and> (b ! 0 = 0 \<or> b ! 1 = 0)) \<or> (length b = 2 \<and> (b ! 0 = 0 \<or> b ! 1 = 0))))"

definition loads_bytes :: "pyenv \<Rightarrow> bytes \<Rightarrow> json res" where
  "loads_bytes E b =
     (case (if is_wide b then decode_wide E b
            else utf8_decode True (if starts_with [239, 187, 191] b then drop 3 b else b)) of
        None \<Rightarrow> Inl UnicodeError
      | Some s \<Rightarrow> loads (float_parse E) s)"

lemma loads_bytes_ascii_start:
  assumes "utf8_decode True (c # c' # b) = Some s" "0 < c" "c < 128" "0 < c'"
  shows "loads_bytes E (c # c' # b) = loads (float_parse E) s"
proof -
  have "\<not> is_wide (c # c' # b)" "\<not> starts_with [239, 187, 191] (c # c' # b)"
    using assms by (auto simp: is_wide_def starts_with_def)
  with assms(1) show ?thesis by (simp add: loads_bytes_def del: utf8_decode.simps)
qed

text \<open>\<^verbatim>\<open>except <class> as error: raise ChatError(m)\<close>.\<close>

definition except_chat :: "(exn \<Rightarrow> bool) \<Rightarrow> string \<Rightarrow> 'a res \<Rightarrow> 'a res" where
  "except_chat P m r = (case r of Inl e \<Rightarrow> if P e then fail m else Inl e | Inr x \<Rightarrow> Inr x)"

lemma except_chat_Inr [simp]: "except_chat P m (Inr x) = Inr x"
  by (simp add: except_chat_def)

lemma except_chat_Inr_iff [res_simps]: "except_chat P m r = Inr x \<longleftrightarrow> r = Inr x"
  by (auto simp: except_chat_def split: sum.splits)

text \<open>The class \<^verbatim>\<open>(OSError, UnicodeDecodeError, json.JSONDecodeError)\<close> of the readers.\<close>

fun is_read_error :: "exn \<Rightarrow> bool" where
  "is_read_error OSError = True"
| "is_read_error TimeoutError = True"
| "is_read_error UnicodeError = True"
| "is_read_error JSONDecodeError = True"
| "is_read_error _ = False"

text \<open>Reading a private JSON file that exists.\<close>

definition read_private_json :: "pyenv \<Rightarrow> dir \<Rightarrow> str \<Rightarrow> string \<Rightarrow> pfile \<Rightarrow> json res" where
  "read_private_json E d n m f =
     bind (require_private_file d n) (\<lambda>_. except_chat is_read_error m (loads_file E f))"

lemma read_private_json_cong:
  "files d n = files d' n \<Longrightarrow> root_path d = root_path d' \<Longrightarrow>
   read_private_json E d n m f = read_private_json E d' n m f"
  by (cases "files d' n") (simp_all add: read_private_json_def require_private_file_def)

lemma files_atomic_json [simp]:
  "files (atomic_json E d n v) m =
     (if m = n then Some \<lparr>is_private = True, data = json_payload E v\<rparr> else files d m)"
  "root_path (atomic_json E d n v) = root_path d"
  by (auto simp: atomic_json_def)

lemma files_unlink [simp]:
  "files (unlink d n) m = (if m = n then None else files d m)"
  "root_path (unlink d n) = root_path d"
  by (auto simp: unlink_def)

section \<open>What was written is read back\<close>

lemma scalar_lit [simp]: "list_all is_scalar (lit s)"
proof -
  have "is_scalar (of_char c)" for c :: char
    using nat_of_char_less_256 [of c]
    by (simp add: is_scalar_def is_code_point_def is_surrogate_def del: nat_of_char_less_256)
  then show ?thesis by (simp add: lit_def list_all_iff)
qed

lemma scalar_small: "c < 55296 \<Longrightarrow> is_scalar c"
  by (simp add: is_scalar_def is_code_point_def is_surrogate_def)

lemma scalar_hex_digit: "n < 16 \<Longrightarrow> is_scalar (hex_digit n)"
  by (simp add: hex_digit_def scalar_small)

lemma scalar_hex4: "u < 65536 \<Longrightarrow> list_all is_scalar (hex4 u)"
  by (simp add: hex4_def scalar_hex_digit)

lemma scalar_esc_char: "printable True c \<Longrightarrow> list_all is_scalar (esc_char a c)"
proof -
  assume "printable True c"
  then have c: "c < 1114112" "is_scalar c"
    by (auto simp: printable_def is_code_point_def is_scalar_def)
  then have "(c - 65536) div 1024 < 1024" "(c - 65536) mod 1024 < 1024" by auto
  then show ?thesis using c
    by (auto simp: esc_char_def intro!: scalar_hex4 scalar_small)
qed

lemma scalar_json_str: "list_all (printable True) s \<Longrightarrow> list_all is_scalar (json_str a s)"
  using scalar_esc_char by (fastforce simp: json_str_def list_all_iff scalar_small)

lemma scalar_intersperse:
  "list_all (list_all is_scalar) xs \<Longrightarrow> list_all is_scalar (intersperse_comma xs)"
  by (induction xs rule: intersperse_comma.induct) (auto simp: scalar_small)

lemma scalar_int_str: "list_all is_scalar (int_str i)"
proof -
  have "list_all is_scalar (dec_str n)" for n
    using dec_str_digits [of n] by (auto simp: list_all_iff is_digit_def intro!: scalar_small)
  then show ?thesis by (simp add: int_str_def scalar_small)
qed

lemma scalar_carried: "carried fr fp True v \<Longrightarrow> list_all is_scalar (dumps fr a v)"
proof (induction v)
  case (JArr xs)
  then show ?case by (auto simp: scalar_small list_all_iff intro!: scalar_intersperse [unfolded list_all_iff])
next
  case (JObj d)
  have "list_all is_scalar (json_str a (fst p) @ 58 # dumps fr a (snd p))" if "p \<in> set d" for p
    using JObj that scalar_json_str [of "fst p" a] by (cases p) (force simp: list_all_iff scalar_small)
  then have "list_all is_scalar
      (intersperse_comma (map (\<lambda>p. json_str a (fst p) @ 58 # dumps fr a (snd p)) d))"
    by (intro scalar_intersperse) (simp add: list_all_iff)
  then show ?case by (simp add: scalar_small)
next
  case (JFloat f)
  then have "\<forall>x \<in> set (fr f). x < 128" by (auto simp: carried_float_def list_all_iff)
  then have "\<forall>x \<in> set (fr f). x < 55296" by fastforce
  then show ?case by (simp add: list_all_iff scalar_small)
qed (auto simp: scalar_int_str scalar_json_str)

lemma scalar_dumps: "plain True v \<Longrightarrow> list_all is_scalar (dumps fr a v)"
  by (rule scalar_carried [OF plain_carried])

lemma loads_carried_payload:
  assumes "carried (float_repr E) (float_parse E) True v"
  shows "loads_file E \<lparr>is_private = b, data = json_payload E v\<rparr> = Inr (sort_keys v)"
proof -
  let ?s = "dumps (float_repr E) True (sort_keys v)"
  have p: "carried (float_repr E) (float_parse E) True (sort_keys v)" using assms by (rule carried_sort_keys)
  then have "list_all is_scalar (?s @ [10])" by (simp add: scalar_carried scalar_small)
  then have "utf8_decode False (json_payload E v) = Some (?s @ [10])"
    unfolding json_payload_def using utf8_decode_encode_append [of "?s @ [10]" False "[]"] by simp
  with loads_carried [OF p, of "[10]"] show ?thesis
    by (simp add: loads_file_def is_ws_def)
qed

lemma loads_payload:
  assumes "plain True v"
  shows "loads_file E \<lparr>is_private = b, data = json_payload E v\<rparr> = Inr (sort_keys v)"
  using loads_carried_payload [OF plain_carried] assms .

lemma read_carried:
  assumes "carried (float_repr E) (float_parse E) True v"
  shows "read_private_json E (atomic_json E d n v) n m \<lparr>is_private = True, data = json_payload E v\<rparr>
      = Inr (sort_keys v)"
  using assms by (simp add: read_private_json_def require_private_file_def loads_carried_payload)

lemma read_written:
  assumes "plain True v"
  shows "read_private_json E (atomic_json E d n v) n m \<lparr>is_private = True, data = json_payload E v\<rparr>
      = Inr (sort_keys v)"
  using assms by (simp add: read_private_json_def require_private_file_def loads_payload)

section \<open>Typed fields of an object\<close>

text \<open>
  \<^verbatim>\<open>isinstance(values[key], str)\<close>, the same for an integer that is no boolean, and for a
  string that may be absent; \<open>m\<close> is the error of the reader.
\<close>

definition get_str :: "string \<Rightarrow> dict \<Rightarrow> string \<Rightarrow> str res" where
  "get_str m d k = (case jget d k of Some (JStr s) \<Rightarrow> Inr s | _ \<Rightarrow> fail m)"

definition get_int :: "string \<Rightarrow> dict \<Rightarrow> string \<Rightarrow> int res" where
  "get_int m d k = (case jget d k of Some (JInt i) \<Rightarrow> Inr i | _ \<Rightarrow> fail m)"

definition get_bool :: "string \<Rightarrow> dict \<Rightarrow> string \<Rightarrow> bool res" where
  "get_bool m d k = (case jget d k of Some (JBool b) \<Rightarrow> Inr b | _ \<Rightarrow> fail m)"

definition get_opt_str :: "string \<Rightarrow> dict \<Rightarrow> string \<Rightarrow> str option res" where
  "get_opt_str m d k =
     (case jget d k of None \<Rightarrow> Inr None | Some (JStr s) \<Rightarrow> Inr (Some s) | _ \<Rightarrow> fail m)"

text \<open>The same for a key that is present and whose value is a string or null.\<close>

definition get_null_str :: "string \<Rightarrow> dict \<Rightarrow> string \<Rightarrow> str option res" where
  "get_null_str m d k =
     (case jget d k of Some JNull \<Rightarrow> Inr None | Some (JStr s) \<Rightarrow> Inr (Some s) | _ \<Rightarrow> fail m)"

lemma get_iff [res_simps]:
  "get_str m d k = Inr s \<longleftrightarrow> jget d k = Some (JStr s)"
  "get_int m d k = Inr i \<longleftrightarrow> jget d k = Some (JInt i)"
  "get_bool m d k = Inr b \<longleftrightarrow> jget d k = Some (JBool b)"
  "get_opt_str m d k = Inr t \<longleftrightarrow> jget d k = map_option JStr t"
  "get_null_str m d k = Inr t \<longleftrightarrow> jget d k = Some (case t of None \<Rightarrow> JNull | Some s \<Rightarrow> JStr s)"
  by (cases t; auto simp: get_str_def get_int_def get_bool_def get_opt_str_def get_null_str_def
      split: option.splits json.splits)+

lemma get_err [res_simps]:
  "get_str m d k = Inl e \<Longrightarrow> e = ChatError (lit m)"
  "get_int m d k = Inl e \<Longrightarrow> e = ChatError (lit m)"
  "get_bool m d k = Inl e \<Longrightarrow> e = ChatError (lit m)"
  "get_opt_str m d k = Inl e \<Longrightarrow> e = ChatError (lit m)"
  "get_null_str m d k = Inl e \<Longrightarrow> e = ChatError (lit m)"
  by (auto simp: get_str_def get_int_def get_bool_def get_opt_str_def get_null_str_def
      split: option.splits json.splits)

text \<open>
  \<^verbatim>\<open>values.get(k) == i\<close> with Python's equality: \<^verbatim>\<open>true\<close> and \<^verbatim>\<open>1.0\<close> are equal to 1.
\<close>

definition field_eq_int :: "dict \<Rightarrow> string \<Rightarrow> int \<Rightarrow> bool" where
  "field_eq_int d k i = (case jget d k of None \<Rightarrow> False | Some v \<Rightarrow> py_eq v (JInt i))"

lemma num_of_sort_keys [simp]: "num_of (sort_keys v) = num_of v"
  by (cases v) simp_all

lemma field_eq_int_sorted:
  "distinct (map fst d) \<Longrightarrow> field_eq_int (sort_dict d) k i = field_eq_int d k i"
  by (cases "jget d k") (simp_all add: field_eq_int_def map_of_sort_dict)

lemma sort_keys_JStr_iff [simp]: "sort_keys v = JStr s \<longleftrightarrow> v = JStr s" "sort_keys v = JInt i \<longleftrightarrow> v = JInt i"
  "sort_keys v = JNull \<longleftrightarrow> v = JNull" "sort_keys v = JBool b \<longleftrightarrow> v = JBool b"
  by (cases v; simp)+

text \<open>The evaluation of these readers on a dictionary sorted for printing.\<close>

lemma get_str_sorted:
  assumes "distinct (map fst d)"
  shows "get_str m (sort_dict d) k = get_str m d k" "get_int m (sort_dict d) k = get_int m d k"
    "get_bool m (sort_dict d) k = get_bool m d k" "get_opt_str m (sort_dict d) k = get_opt_str m d k"
    "get_null_str m (sort_dict d) k = get_null_str m d k"
  using assms
  by (auto simp: get_str_def get_int_def get_bool_def get_opt_str_def get_null_str_def map_of_sort_dict
      split: option.splits json.splits)

section \<open>Tables of records\<close>

text \<open>The rows of a table: a JSON list whose elements are read one by one.\<close>

definition rows_of :: "(json \<Rightarrow> 'a res) \<Rightarrow> string \<Rightarrow> json \<Rightarrow> 'a list res" where
  "rows_of f m v = (case v of JArr xs \<Rightarrow> map_res f xs | _ \<Rightarrow> fail m)"

lemma rows_of_Inr_set: "rows_of f m v = Inr rs \<Longrightarrow> r \<in> set rs \<Longrightarrow> \<exists>x. f x = Inr r"
  by (cases v) (auto simp: rows_of_def dest: map_res_Inr_set)

locale json_table =
  fixes good :: "'a \<Rightarrow> bool" and to_dict :: "'a \<Rightarrow> json" and from_object :: "json \<Rightarrow> 'a res"
  assumes plain_row: "good r \<Longrightarrow> plain True (to_dict r)"
    and row_restored: "good r \<Longrightarrow> from_object (sort_keys (to_dict r)) = Inr r"
begin

lemma plain_table: "list_all good rs \<Longrightarrow> plain True (JArr (map to_dict rs))"
  by (simp add: list_all_iff plain_row)

lemma rows_restored:
  "list_all good rs \<Longrightarrow> rows_of from_object m (sort_keys (JArr (map to_dict rs))) = Inr rs"
  using map_res_map_Inr [of rs from_object "\<lambda>r. sort_keys (to_dict r)" id]
  by (simp add: rows_of_def row_restored list_all_iff comp_def)

text \<open>A table written with \<open>atomic_json\<close> and read back is the table.\<close>

lemma table_read_written:
  assumes "list_all good rs"
  shows "bind (read_private_json E (atomic_json E d n (JArr (map to_dict rs))) n m
            \<lparr>is_private = True, data = json_payload E (JArr (map to_dict rs))\<rparr>)
          (rows_of from_object m') = Inr rs"
  using assms by (simp add: read_written [OF plain_table] rows_restored del: sort_keys.simps)

lemma row_read_written:
  assumes "good r"
  shows "bind (read_private_json E (atomic_json E d n (to_dict r)) n m
            \<lparr>is_private = True, data = json_payload E (to_dict r)\<rparr>) from_object = Inr r"
  using assms by (simp add: read_written plain_row row_restored)

end

section \<open>Stores that are maps\<close>

text \<open>
  What a client relies on of a store: a stored row replaces the row of its key and no
  other. Any sequence of writes then leaves, for every key, the last row written.
\<close>

fun store_all :: "(dir \<Rightarrow> 'a \<Rightarrow> dir res) \<Rightarrow> dir \<Rightarrow> 'a list \<Rightarrow> dir res" where
  "store_all put d [] = Inr d"
| "store_all put d (r # rs) = bind (put d r) (\<lambda>d'. store_all put d' rs)"

locale keyed_store =
  fixes ok :: "dir \<Rightarrow> bool" and look :: "dir \<Rightarrow> 'k \<Rightarrow> 'a option"
    and good :: "'a \<Rightarrow> bool" and key :: "'a \<Rightarrow> 'k" and put :: "dir \<Rightarrow> 'a \<Rightarrow> dir res"
  assumes put_law: "ok d \<Longrightarrow> good r \<Longrightarrow>
    \<exists>d'. put d r = Inr d' \<and> ok d' \<and> look d' = (look d)(key r \<mapsto> r)"
begin

lemma put_all:
  "ok d \<Longrightarrow> list_all good rs \<Longrightarrow>
   \<exists>d'. store_all put d rs = Inr d' \<and> ok d' \<and> look d' = look d ++ map_of (rev (map (\<lambda>r. (key r, r)) rs))"
proof (induction rs arbitrary: d)
  case (Cons r rs)
  then obtain d1 where d1: "put d r = Inr d1" "ok d1" "look d1 = (look d)(key r \<mapsto> r)"
    using put_law [of d r] by auto
  with Cons obtain d2 where d2: "store_all put d1 rs = Inr d2" "ok d2"
    "look d2 = look d1 ++ map_of (rev (map (\<lambda>r. (key r, r)) rs))"
    by (metis list_all_Cons_iff)
  with d1 show ?case by simp
qed simp

end

text \<open>An integer of more digits than the interpreter converts is a ValueError, not a JSON error.\<close>

lemma loads_integer_limit:
  assumes "t = [] \<or> t = [10]"
  shows "loads_bytes E (replicate 4301 49 @ t) = Inl ValueError"
proof -
  have split: "replicate 4301 (49::nat) = 49 # 49 # replicate 4299 49"
  proof -
    have "(4301::nat) = Suc (Suc 4299)" by simp
    then show ?thesis by (simp only: replicate_Suc)
  qed
  have dec: "utf8_decode True (replicate n 49 @ t) = Some (replicate n 49 @ t)" for n
    using assms by (induction n) auto
  have tw: "takeWhile is_digit (replicate n 49 @ t) = replicate n 49" for n
    using assms by (induction n) (auto simp: is_digit_def)
  let ?s = "49 # 49 # replicate 4299 (49::nat) @ t"
  have s: "?s = replicate 4301 49 @ t" by (simp add: split)
  have "num_digits ?s = replicate 4301 49"
    using tw [of 4301] unfolding num_digits_def s by (simp add: split)
  then have num: "parse_number fp ?s = Inl ValueError" for fp
    unfolding parse_number_def using assms
    by (auto simp: num_sign_def frac_part_def exp_part_def int_max_str_digits_def Let_def case_prod_unfold)
  have pv: "parse_value fp n ?s = Inl ValueError" if "0 < n" for fp n
    using that num [of fp] parse_value_number [of 49 "49 # replicate 4299 49 @ t" fp "n - 1"]
    by (simp add: is_digit_def)
  have "loads fp ?s = Inl ValueError" for fp
    by (simp add: loads_def is_ws_def pv)
  then have "loads_bytes E ?s = Inl ValueError"
    using loads_bytes_ascii_start [of 49 49 "replicate 4299 49 @ t" ?s E] dec [of 4301, unfolded split]
    by simp
  then show ?thesis unfolding s .
qed

end
