(* ===== verification/Validators.thy ===== *)
theory Validators
  imports Disk
begin

text \<open>
  The validators of core.py: identities, names, paths, the route alias, messages and
  timestamps. Each returns its argument or raises \<open>ChatError\<close>; the lemmas in
  \<open>valid_simps\<close> say exactly which texts they accept.
\<close>

section \<open>Identifiers\<close>

datatype provider = Claude | Codex | Devin

fun provider_str :: "provider \<Rightarrow> str" where
  "provider_str Claude = lit ''claude''"
| "provider_str Codex = lit ''codex''"
| "provider_str Devin = lit ''devin''"

definition provider_of :: "str \<Rightarrow> provider option" where
  "provider_of s =
     (if s = lit ''claude'' then Some Claude else if s = lit ''codex'' then Some Codex
      else if s = lit ''devin'' then Some Devin else None)"

lemma provider_of_str [simp]: "provider_of (provider_str p) = Some p"
  by (cases p) (simp_all add: provider_of_def)

lemma provider_of_Some [simp]: "provider_of s = Some p \<longleftrightarrow> s = provider_str p"
  by (cases p) (auto simp: provider_of_def)

lemma provider_str_inject [simp]: "provider_str p = provider_str q \<longleftrightarrow> p = q"
  by (cases p; cases q) simp_all

lemma provider_str_devin [simp]: "provider_str p = lit ''devin'' \<longleftrightarrow> p = Devin"
  by (cases p) simp_all

definition SCHEMA_VERSION :: int where "SCHEMA_VERSION = 1"
definition MAX_MESSAGE_BYTES :: nat where "MAX_MESSAGE_BYTES = 16 * 1024"
definition CODEX_ALIAS_DIGEST_LENGTH :: nat where "CODEX_ALIAS_DIGEST_LENGTH = 12"
definition MAX_NAME_CODEPOINTS :: nat where "MAX_NAME_CODEPOINTS = 128"
definition MAX_ALIAS_CODEPOINTS :: nat where "MAX_ALIAS_CODEPOINTS = 128"

text \<open>\<open>UUID_RE\<close>: 32 lower-case hexadecimal digits in groups of 8, 4, 4, 4 and 12.\<close>

definition uuid_shape :: "str \<Rightarrow> bool" where
  "uuid_shape s \<longleftrightarrow>
     length s = 36 \<and>
     s ! 8 = 45 \<and> s ! 13 = 45 \<and> s ! 18 = 45 \<and> s ! 23 = 45 \<and>
     list_all is_hex (take 8 s @ take 4 (drop 9 s) @ take 4 (drop 14 s) @ take 4 (drop 19 s) @ drop 24 s)"

text \<open>
  \<^verbatim>\<open>str(UUID(value))\<close>: the hyphens are dropped, 32 hexadecimal digits must remain, and
  the number is printed in groups again. On lower-case digits reading and printing the
  number is the identity.
\<close>

definition uuid_str :: "str \<Rightarrow> str option" where
  "uuid_str s =
     (let h = filter (\<lambda>c. c \<noteq> 45) s in
      if length h = 32 \<and> list_all is_hex h
      then Some (take 8 h @ 45 # take 4 (drop 8 h) @ 45 # take 4 (drop 12 h) @ 45 #
                 take 4 (drop 16 h) @ 45 # drop 20 h)
      else None)"

definition valid_uuid :: "str \<Rightarrow> string \<Rightarrow> str res" where
  "valid_uuid value field =
     (if \<not> uuid_shape value then fail (field @ '' is invalid'')
      else case uuid_str value of
             None \<Rightarrow> fail (field @ '' is invalid'')
           | Some t \<Rightarrow> if t \<noteq> value then fail (field @ '' is invalid'') else Inr value)"

definition devin_session_shape :: "str \<Rightarrow> bool" where
  "devin_session_shape s \<longleftrightarrow>
     8 \<le> length s \<and> length s \<le> 128 \<and> is_alnum (hd s) \<and>
     list_all (\<lambda>c. is_alnum c \<or> c = 46 \<or> c = 95 \<or> c = 45) (tl s)"

definition valid_session_id :: "str \<Rightarrow> str \<Rightarrow> string \<Rightarrow> str res" where
  "valid_session_id provider value field =
     (if provider = lit ''devin'' then
        (if \<not> devin_session_shape value then fail (field @ '' is invalid'') else Inr value)
      else valid_uuid value field)"

definition device_shape :: "str \<Rightarrow> bool" where
  "device_shape s \<longleftrightarrow>
     1 \<le> length s \<and> length s \<le> 63 \<and> is_alnum (hd s) \<and>
     list_all (\<lambda>c. is_alnum c \<or> c = 46 \<or> c = 45) (tl s)"

definition valid_device :: "str \<Rightarrow> str res" where
  "valid_device value = (if \<not> device_shape value then fail ''device name is invalid'' else Inr value)"

lemma is_hex_not_hyphen: "is_hex c \<Longrightarrow> c \<noteq> 45"
  by (auto simp: is_hex_def is_digit_def)

lemma filter_hex: "list_all is_hex s \<Longrightarrow> filter (\<lambda>c. c \<noteq> 45) s = s"
  by (auto simp: filter_id_conv list_all_iff dest: is_hex_not_hyphen)

lemma uuid_groups:
  assumes "length s = 36" "s ! 8 = 45" "s ! 13 = 45" "s ! 18 = 45" "s ! 23 = (45::nat)"
  shows "s = take 8 s @ 45 # take 4 (drop 9 s) @ 45 # take 4 (drop 14 s) @ 45 #
             take 4 (drop 19 s) @ 45 # drop 24 s"
proof -
  have cut: "drop k s = take n (drop k s) @ 45 # drop (Suc (k + n)) s"
    if "s ! (k + n) = 45" "k + n < 36" for k n
    using that assms(1) id_take_nth_drop [of n "drop k s"] by (simp add: add.commute)
  from cut [of 0 8] cut [of 9 4] cut [of 14 4] cut [of 19 4] assms(2-5)
  show ?thesis by simp
qed

text \<open>The checks after the regular expression never fail: it is the whole test.\<close>

lemma uuid_str_shape: "uuid_shape s \<Longrightarrow> uuid_str s = Some s"
proof -
  assume a: "uuid_shape s"
  define a1 a2 a3 a4 a5 where g: "a1 = take 8 s" "a2 = take 4 (drop 9 s)" "a3 = take 4 (drop 14 s)"
    "a4 = take 4 (drop 19 s)" "a5 = drop 24 s"
  have len: "length a1 = 8" "length a2 = 4" "length a3 = 4" "length a4 = 4" "length a5 = 12"
    using a by (auto simp: g uuid_shape_def)
  have hex: "list_all is_hex (a1 @ a2 @ a3 @ a4 @ a5)"
    using a by (simp add: g uuid_shape_def)
  have s: "s = a1 @ 45 # a2 @ 45 # a3 @ 45 # a4 @ 45 # a5"
    unfolding g using a by (intro uuid_groups) (auto simp: uuid_shape_def)
  have "filter (\<lambda>c. c \<noteq> 45) s = a1 @ a2 @ a3 @ a4 @ a5"
    using hex unfolding s by (simp add: filter_hex)
  with len hex show ?thesis by (simp add: uuid_str_def s)
qed

lemma valid_uuid_iff [valid_simps]: "valid_uuid v f = Inr x \<longleftrightarrow> x = v \<and> uuid_shape v"
  using uuid_str_shape [of v] by (auto simp: valid_uuid_def)

lemma valid_uuid_err [valid_simps]:
  "valid_uuid v f = Inl e \<longleftrightarrow> \<not> uuid_shape v \<and> e = ChatError (lit (f @ '' is invalid''))"
  using uuid_str_shape [of v] by (auto simp: valid_uuid_def)

definition session_shape :: "provider \<Rightarrow> str \<Rightarrow> bool" where
  "session_shape p s \<longleftrightarrow> (if p = Devin then devin_session_shape s else uuid_shape s)"

lemma valid_session_id_iff [valid_simps]:
  "valid_session_id (provider_str p) v f = Inr x \<longleftrightarrow> x = v \<and> session_shape p v"
  by (auto simp: valid_session_id_def session_shape_def valid_simps)

lemma valid_session_id_err [valid_simps]:
  "valid_session_id (provider_str p) v f = Inl e \<longleftrightarrow>
     \<not> session_shape p v \<and> e = ChatError (lit (f @ '' is invalid''))"
  by (auto simp: valid_session_id_def session_shape_def valid_simps)

lemma valid_device_iff [valid_simps]: "valid_device v = Inr x \<longleftrightarrow> x = v \<and> device_shape v"
  by (auto simp: valid_device_def)

section \<open>Names\<close>

definition bad_category :: "string \<Rightarrow> bool" where
  "bad_category c \<longleftrightarrow> take 1 c = ''C'' \<or> take 2 c = ''Zl'' \<or> take 2 c = ''Zp''"

definition valid_name :: "pyenv \<Rightarrow> str \<Rightarrow> string \<Rightarrow> str res" where
  "valid_name E value field =
     (if value = [] \<or> MAX_NAME_CODEPOINTS < length value then fail (field @ '' is invalid'')
      else if utf8_encode value = None then fail (field @ '' is invalid'')
      else if list_ex (\<lambda>c. bad_category (ucategory E c)) value then fail (field @ '' is invalid'')
      else Inr value)"

definition name_shape :: "pyenv \<Rightarrow> str \<Rightarrow> bool" where
  "name_shape E s \<longleftrightarrow>
     s \<noteq> [] \<and> length s \<le> 128 \<and> list_all (\<lambda>c. \<not> is_surrogate c \<and> \<not> bad_category (ucategory E c)) s"

lemma valid_name_iff [valid_simps]: "valid_name E v f = Inr x \<longleftrightarrow> x = v \<and> name_shape E v"
  by (auto simp: valid_name_def name_shape_def MAX_NAME_CODEPOINTS_def utf8_encode_def
      list_all_iff list_ex_iff)

lemma valid_name_err [valid_simps]:
  "valid_name E v f = Inl e \<longleftrightarrow> \<not> name_shape E v \<and> e = ChatError (lit (f @ '' is invalid''))"
  by (auto simp: valid_name_def name_shape_def MAX_NAME_CODEPOINTS_def utf8_encode_def
      list_all_iff list_ex_iff)

section \<open>Paths\<close>

text \<open>\<^verbatim>\<open>s.split("/")\<close> and \<^verbatim>\<open>"/".join(parts)\<close>.\<close>

fun split_slash :: "str \<Rightarrow> str list" where
  "split_slash [] = [[]]"
| "split_slash (c # s) =
     (if c = 47 then [] # split_slash s
      else case split_slash s of p # ps \<Rightarrow> (c # p) # ps | [] \<Rightarrow> [[c]])"

fun join_slash :: "str list \<Rightarrow> str" where
  "join_slash [] = []"
| "join_slash [p] = p"
| "join_slash (p # q # ps) = p @ 47 # join_slash (q # ps)"

text \<open>\<^verbatim>\<open>os.path.normpath\<close>: the components kept so far are held newest first.\<close>

fun norm_comps :: "bool \<Rightarrow> str list \<Rightarrow> str list \<Rightarrow> str list" where
  "norm_comps rooted acc [] = rev acc"
| "norm_comps rooted acc (c # cs) =
     (if c = [] \<or> c = [46] then norm_comps rooted acc cs
      else if c \<noteq> [46, 46] \<or> (\<not> rooted \<and> acc = []) \<or> (acc \<noteq> [] \<and> hd acc = [46, 46])
      then norm_comps rooted (c # acc) cs
      else if acc \<noteq> [] then norm_comps rooted (tl acc) cs
      else norm_comps rooted acc cs)"

definition normpath :: "str \<Rightarrow> str" where
  "normpath p =
     (if p = [] then [46]
      else
        let slashes = (if starts_with [47, 47] p \<and> \<not> starts_with [47, 47, 47] p then 2
                       else if starts_with [47] p then 1 else 0);
            r = replicate slashes 47 @ join_slash (norm_comps (0 < slashes) [] (split_slash p))
        in if r = [] then [46] else r)"

definition is_absolute :: "str \<Rightarrow> bool" where
  "is_absolute p \<longleftrightarrow> starts_with [47] p"

text \<open>\<^verbatim>\<open>Path(p).name\<close>: the last component, empty for the root.\<close>

definition path_name :: "str \<Rightarrow> str" where
  "path_name p = (case rev (filter (\<lambda>c. c \<noteq> [] \<and> c \<noteq> [46]) (split_slash p)) of [] \<Rightarrow> [] | c # _ \<Rightarrow> c)"

text \<open>
  What the file system answers: \<^verbatim>\<open>path.resolve(strict=True)\<close> and \<^verbatim>\<open>is_dir()\<close>.
\<close>

record fsview =
  fs_resolve :: "str \<Rightarrow> str res"
  fs_is_dir :: "str \<Rightarrow> bool"

definition canonical_cwd :: "fsview \<Rightarrow> str \<Rightarrow> str res" where
  "canonical_cwd fs value =
     (if \<not> is_absolute value then fail ''working directory must be absolute''
      else bind (except_chat is_os_error ''working directory is unavailable'' (fs_resolve fs value))
        (\<lambda>resolved.
           if \<not> fs_is_dir fs resolved \<or> 512 < length resolved then fail ''working directory is invalid''
           else Inr resolved))"

definition stored_cwd :: "str \<Rightarrow> str res" where
  "stored_cwd value =
     (if \<not> is_absolute value \<or> 512 < length value \<or> 0 \<in> set value \<or> normpath value \<noteq> value
      then fail ''working directory is invalid'' else Inr value)"

definition cwd_shape :: "str \<Rightarrow> bool" where
  "cwd_shape s \<longleftrightarrow> is_absolute s \<and> length s \<le> 512 \<and> 0 \<notin> set s \<and> normpath s = s"

lemma stored_cwd_iff [valid_simps]: "stored_cwd v = Inr x \<longleftrightarrow> x = v \<and> cwd_shape v"
  by (auto simp: stored_cwd_def cwd_shape_def)

text \<open>A normalised absolute path has no empty, \<^verbatim>\<open>.\<close> or \<^verbatim>\<open>..\<close> component.\<close>

lemma norm_comps_clean:
  "list_all (\<lambda>c. c \<noteq> [] \<and> c \<noteq> [46] \<and> c \<noteq> [46, 46]) acc \<Longrightarrow>
   list_all (\<lambda>c. c \<noteq> [] \<and> c \<noteq> [46] \<and> c \<noteq> [46, 46]) (norm_comps True acc cs)"
proof (induction cs arbitrary: acc)
  case (Cons c cs)
  show ?case
  proof (cases "acc \<noteq> [] \<and> hd acc = [46, 46]")
    case True
    with Cons.prems show ?thesis by (cases acc) auto
  next
    case False
    with Cons.prems Cons.IH [of acc] Cons.IH [of "c # acc"] Cons.IH [of "tl acc"]
    show ?thesis by (cases acc) auto
  qed
qed (simp add: list_all_iff)

lemma norm_comps_id:
  "list_all (\<lambda>c. c \<noteq> [] \<and> c \<noteq> [46] \<and> c \<noteq> [46, 46]) cs \<Longrightarrow> norm_comps b acc cs = rev acc @ cs"
  by (induction cs arbitrary: acc) auto

section \<open>Session keys and aliases\<close>

text \<open>\<^verbatim>\<open>xs[:i]\<close> for any integer.\<close>

definition py_prefix :: "int \<Rightarrow> 'a list \<Rightarrow> 'a list" where
  "py_prefix i xs = (if 0 \<le> i then take (nat i) xs else take (nat (int (length xs) + i)) xs)"

text \<open>\<^verbatim>\<open>s.encode()\<close>, raising UnicodeEncodeError.\<close>

definition encode :: "str \<Rightarrow> bytes res" where
  "encode s = (case utf8_encode s of None \<Rightarrow> Inl UnicodeError | Some b \<Rightarrow> Inr b)"

definition session_key :: "pyenv \<Rightarrow> provider \<Rightarrow> str \<Rightarrow> str res" where
  "session_key E provider session_id =
     bind (valid_session_id (provider_str provider) session_id ''session id'') (\<lambda>_.
     bind (encode (provider_str provider @ 58 # session_id)) (\<lambda>b.
     Inr (sha256hex E b)))"

definition friendly_alias :: "pyenv \<Rightarrow> provider \<Rightarrow> str \<Rightarrow> str \<Rightarrow> str \<Rightarrow> str res" where
  "friendly_alias E provider device project session_id =
     bind (valid_device device) (\<lambda>dev.
     let prefix = provider_str provider @ 64 # dev @ [58] in
     bind (if provider = Codex
           then bind (session_key E provider session_id)
                  (\<lambda>k. Inr (58 # take CODEX_ALIAS_DIGEST_LENGTH k))
           else Inr []) (\<lambda>suffix.
     bind (valid_name E project ''project'') (\<lambda>name.
     let available = int MAX_ALIAS_CODEPOINTS - int (length prefix) - int (length suffix) in
     if available \<le> 0 then fail ''route alias is invalid''
     else
       bind (if available < int (length name)
             then bind (encode name) (\<lambda>b.
                    let marker = 126 # take CODEX_ALIAS_DIGEST_LENGTH (sha256hex E b) in
                    Inr (py_prefix (available - int (length marker)) name @ marker))
             else Inr name) (\<lambda>exact_project.
       let alias = prefix @ exact_project @ suffix in
       if MAX_ALIAS_CODEPOINTS < length alias then fail ''route alias is invalid''
       else Inr alias))))"

lemma ascii_not_surrogate: "list_all (\<lambda>c. is_alnum c \<or> c = 46 \<or> c = 95 \<or> c = 45) s \<Longrightarrow>
    list_all (\<lambda>c. \<not> is_surrogate c) s"
  by (auto simp: list_all_iff is_alnum_def is_digit_def is_upper_def is_lower_def is_surrogate_def)

lemma uuid_shape_alnum:
  assumes "uuid_shape s" shows "list_all (\<lambda>c. is_hex c \<or> c = 45) s"
proof -
  have "s = take 8 s @ 45 # take 4 (drop 9 s) @ 45 # take 4 (drop 14 s) @ 45 #
             take 4 (drop 19 s) @ 45 # drop 24 s"
    using assms by (intro uuid_groups) (auto simp: uuid_shape_def)
  moreover have "list_all (\<lambda>c. is_hex c \<or> c = 45) (take 8 s @ 45 # take 4 (drop 9 s) @ 45 #
      take 4 (drop 14 s) @ 45 # take 4 (drop 19 s) @ 45 # drop 24 s)"
    using assms unfolding uuid_shape_def list_all_append by (auto simp: list_all_iff)
  ultimately show ?thesis by simp
qed

lemma session_shape_chars:
  assumes "session_shape p s"
  shows "list_all (\<lambda>c. is_alnum c \<or> c = 46 \<or> c = 95 \<or> c = 45) s"
proof (cases "p = Devin")
  case True
  with assms show ?thesis
    by (cases s) (auto simp: session_shape_def devin_session_shape_def)
next
  case False
  with assms uuid_shape_alnum [of s] show ?thesis
    by (auto simp: session_shape_def list_all_iff is_hex_is_alnum)
qed

lemma provider_str_scalar: "list_all is_scalar (provider_str p)"
  by (cases p) simp_all

lemma session_key_ok:
  assumes "session_shape p s"
  shows "\<exists>b. session_key E p s = Inr (sha256hex E b)"
proof -
  have "list_all (\<lambda>c. \<not> is_surrogate c) (provider_str p @ 58 # s)"
    using ascii_not_surrogate [OF session_shape_chars [OF assms]] provider_str_scalar [of p]
    by (auto simp: list_all_iff is_scalar_def is_surrogate_def)
  then have "\<exists>b. encode (provider_str p @ 58 # s) = Inr b"
    by (simp add: encode_def utf8_encode_def)
  moreover have "valid_session_id (provider_str p) s ''session id'' = Inr s"
    using assms by (simp add: valid_simps)
  ultimately show ?thesis by (auto simp: session_key_def)
qed

lemma session_key_err:
  "\<not> session_shape p s \<Longrightarrow> session_key E p s = fail ''session id is invalid''"
proof -
  assume "\<not> session_shape p s"
  then have "valid_session_id (provider_str p) s ''session id'' = Inl (ChatError (lit ''session id is invalid''))"
    by (simp add: valid_simps)
  then show ?thesis by (simp add: session_key_def fail_def)
qed

lemma hex64_take: "hex64 k \<Longrightarrow> n \<le> 64 \<Longrightarrow> length (take n k) = n"
  by (simp add: hex64_def)

lemma provider_str_length: "5 \<le> length (provider_str p) \<and> length (provider_str p) \<le> 6"
  by (cases p) simp_all

lemma name_encodes: "name_shape E n \<Longrightarrow> encode n = Inr (concat (map utf8_char n))"
  by (auto simp: encode_def utf8_encode_def name_shape_def list_all_iff)

text \<open>The part of the alias between the prefix and the session digest.\<close>

definition alias_project :: "pyenv \<Rightarrow> int \<Rightarrow> str \<Rightarrow> str" where
  "alias_project E room name =
     (if room < int (length name)
      then take (nat room - 13) name @ 126 # take 12 (sha256hex E (concat (map utf8_char name)))
      else name)"

lemma alias_project_length:
  assumes "env_ok E" and "13 \<le> room"
  shows "length (alias_project E room name) = nat (min room (int (length name)))"
proof -
  have "length (sha256hex E b) = 64" for b
    using env_ok_sha [OF assms(1)] by (simp add: hex64_def)
  then show ?thesis using assms(2) by (auto simp: alias_project_def)
qed

definition alias_suffix :: "pyenv \<Rightarrow> provider \<Rightarrow> str \<Rightarrow> str" where
  "alias_suffix E p sid =
     (if p = Codex then (case session_key E p sid of Inr k \<Rightarrow> 58 # take 12 k | Inl _ \<Rightarrow> []) else [])"

text \<open>
  On a valid identity the alias always exists and fits: none of the two size errors of
  \<open>friendly_alias\<close> is reachable.
\<close>

lemma friendly_alias_value:
  assumes E: "env_ok E" and dev: "device_shape dev" and name: "name_shape E name"
    and sid: "session_shape p sid"
  defines "pre \<equiv> provider_str p @ 64 # dev @ [58]"
  defines "room \<equiv> 128 - int (length pre) - int (length (alias_suffix E p sid))"
  shows "friendly_alias E p dev name sid = Inr (pre @ alias_project E room name @ alias_suffix E p sid)"
    and "length (pre @ alias_project E room name @ alias_suffix E p sid) \<le> 128"
proof -
  obtain k where k: "session_key E p sid = Inr k" "hex64 k"
    using session_key_ok [OF sid, of E] env_ok_sha [OF E] by auto
  have suf: "(if p = Codex then bind (session_key E p sid)
        (\<lambda>k. Inr (58 # take CODEX_ALIAS_DIGEST_LENGTH k)) else Inr []) = Inr (alias_suffix E p sid)"
    using k by (cases "p = Codex") (simp_all add: alias_suffix_def CODEX_ALIAS_DIGEST_LENGTH_def)
  have suflen: "length (alias_suffix E p sid) \<le> 13"
    using k by (cases "p = Codex") (simp_all add: alias_suffix_def hex64_def)
  have prelen: "length pre \<le> 71"
    using dev provider_str_length [of p] by (simp add: pre_def device_shape_def)
  have room: "44 \<le> room" using suflen prelen by (simp add: room_def)
  note len = alias_project_length [OF E, of room name]
  show le: "length (pre @ alias_project E room name @ alias_suffix E p sid) \<le> 128"
    using len room by (auto simp: room_def)
  have mark: "length (take CODEX_ALIAS_DIGEST_LENGTH (sha256hex E b)) = 12" for b
    using env_ok_sha [OF E] by (simp add: hex64_def CODEX_ALIAS_DIGEST_LENGTH_def)
  have proj: "(if room < int (length name)
        then bind (encode name) (\<lambda>b. let marker = 126 # take CODEX_ALIAS_DIGEST_LENGTH (sha256hex E b) in
               Inr (py_prefix (room - int (length marker)) name @ marker))
        else Inr name) = Inr (alias_project E room name)"
    using room mark name_encodes [OF name]
    by (auto simp: alias_project_def py_prefix_def Let_def CODEX_ALIAS_DIGEST_LENGTH_def
        nat_diff_distrib)
  have v: "valid_device dev = Inr dev" "valid_name E name ''project'' = Inr name"
    using dev name by (simp_all add: valid_simps)
  have room': "int MAX_ALIAS_CODEPOINTS - int (length pre) - int (length (alias_suffix E p sid)) = room"
    by (simp add: room_def MAX_ALIAS_CODEPOINTS_def)
  show "friendly_alias E p dev name sid = Inr (pre @ alias_project E room name @ alias_suffix E p sid)"
    using room le
    unfolding friendly_alias_def v bind_simps Let_def pre_def [symmetric] suf room'
      proj [unfolded Let_def]
    by (simp add: MAX_ALIAS_CODEPOINTS_def)
qed

section \<open>Messages\<close>

definition bounded_message :: "str \<Rightarrow> str res" where
  "bounded_message message =
     (case utf8_encode message of
        None \<Rightarrow> fail ''message is invalid''
      | Some encoded \<Rightarrow>
          if message = [] then fail ''message must not be empty''
          else if 0 \<in> set message \<or> MAX_MESSAGE_BYTES < length encoded
          then fail ''message exceeds the 16 KiB limit''
          else if 2 * MAX_MESSAGE_BYTES + 2 < utf8_len (json_str False message)
          then fail ''message exceeds the encoded frame budget''
          else Inr message)"

definition message_shape :: "str \<Rightarrow> bool" where
  "message_shape m \<longleftrightarrow>
     m \<noteq> [] \<and> 0 \<notin> set m \<and> list_all (\<lambda>c. \<not> is_surrogate c) m \<and> utf8_len m \<le> 16384 \<and>
     utf8_len (json_str False m) \<le> 32770"

lemma bounded_message_iff [valid_simps]: "bounded_message m = Inr x \<longleftrightarrow> x = m \<and> message_shape m"
  by (auto simp: bounded_message_def message_shape_def MAX_MESSAGE_BYTES_def utf8_encode_def utf8_len_def)

lemma bounded_message_chat_error: "bounded_message m = Inl e \<Longrightarrow> \<exists>t. e = ChatError t"
  by (auto simp: bounded_message_def split: option.splits if_splits)

text \<open>How much a character grows in JSON: six bytes at most, two without control characters.\<close>

lemma utf8_len_ascii: "list_all (\<lambda>c. c < 128) s \<Longrightarrow> utf8_len s = length s"
  by (induction s) (simp_all add: utf8_len_Cons utf8_char_def)

lemma hex_digit_ascii: "n < 16 \<Longrightarrow> hex_digit n < 128"
  by (simp add: hex_digit_def)

lemma esc_char_ascii:
  "c < 128 \<Longrightarrow> list_all (\<lambda>x. x < 128) (esc_char False c) \<and>
     length (esc_char False c) \<le> (if c < 32 then 6 else 2)"
  by (simp add: esc_char_def hex4_def hex_digit_ascii)

lemma esc_char_growth:
  "utf8_len (esc_char False c) \<le> (if c < 32 then 6 else 2) * length (utf8_char c)"
proof (cases "c < 128")
  case True
  then have "length (utf8_char c) = 1" by (simp add: utf8_char_def)
  with esc_char_ascii [OF True] show ?thesis by (simp add: utf8_len_ascii split: if_splits)
next
  case False
  then have "esc_char False c = [c]" by (simp add: esc_char_def)
  with False show ?thesis by (simp add: utf8_len_Cons)
qed

lemma json_str_growth:
  "list_all (\<lambda>c. 32 \<le> c) m \<Longrightarrow> utf8_len (json_str False m) \<le> 2 * utf8_len m + 2"
proof -
  assume "list_all (\<lambda>c. 32 \<le> c) m"
  then have "utf8_len (concat (map (esc_char False) m)) \<le> 2 * utf8_len m"
  proof (induction m)
    case (Cons c m)
    with esc_char_growth [of c] show ?case by (simp add: utf8_len_Cons)
  qed simp
  moreover have "length (utf8_char 34) = 1" by (simp add: utf8_char_def)
  ultimately show ?thesis by (simp add: json_str_def utf8_len_Cons)
qed

text \<open>So the frame budget only rejects messages with control characters.\<close>

lemma bounded_message_printable:
  assumes "m \<noteq> []" "list_all (\<lambda>c. 32 \<le> c \<and> \<not> is_surrogate c) m" "utf8_len m \<le> 16384"
  shows "bounded_message m = Inr m"
proof -
  have "list_all (\<lambda>c. 32 \<le> c) m" "list_all (\<lambda>c. \<not> is_surrogate c) m" "0 \<notin> set m"
    using assms(2) by (auto simp: list_all_iff)
  with assms json_str_growth [of m] show ?thesis
    by (simp add: valid_simps message_shape_def)
qed

section \<open>Timestamps\<close>

definition ABANDONED_INTENT_SECONDS :: rat where "ABANDONED_INTENT_SECONDS = 600"

definition parse_timestamp :: "pyenv \<Rightarrow> str \<Rightarrow> rat res" where
  "parse_timestamp E value =
     (case fromisoformat E value of
        None \<Rightarrow> fail ''route timestamp is invalid''
      | Some p \<Rightarrow> if \<not> fst p then fail ''route timestamp is invalid'' else Inr (snd p))"

definition intent_age_seconds :: "pyenv \<Rightarrow> rat \<Rightarrow> str \<Rightarrow> rat res" where
  "intent_age_seconds E now timestamp = bind (parse_timestamp E timestamp) (\<lambda>t. Inr (now - t))"

lemma parse_timestamp_iso [simp]: "env_ok E \<Longrightarrow> parse_timestamp E (isoformat E t) = Inr t"
  by (simp add: parse_timestamp_def env_ok_iso)

section \<open>Sample identifiers\<close>

definition sample_uuid :: "nat \<Rightarrow> str" where
  "sample_uuid c = replicate 8 c @ 45 # replicate 4 c @ 45 # replicate 4 c @ 45 # replicate 4 c @ 45 #
     replicate 12 c"

definition sample_hex64 :: "nat \<Rightarrow> str" where
  "sample_hex64 c = replicate 64 c"

lemma sample_uuid_shape: "is_hex c \<Longrightarrow> uuid_shape (sample_uuid c)"
  by (simp add: uuid_shape_def sample_uuid_def nth_append list_all_iff)

lemma sample_hex64_ok: "is_hex c \<Longrightarrow> hex64 (sample_hex64 c)"
  by (simp add: hex64_def sample_hex64_def list_all_iff)

lemma sample_hex_digits: "is_hex 48" "is_hex 49" "is_hex 50" "is_hex 51" "is_hex 97" "is_hex 98"
  by (simp_all add: is_hex_def is_digit_def)

lemma sample_name_shape:
  "s \<noteq> [] \<Longrightarrow> length s \<le> 128 \<Longrightarrow> list_all (\<lambda>c. 32 \<le> c \<and> c < 55296) s \<Longrightarrow> name_shape sample_env s"
  by (auto simp: name_shape_def sample_env_def bad_category_def is_surrogate_def list_all_iff)

lemmas sample_simps = sample_uuid_shape sample_hex64_ok sample_hex_digits sample_name_shape sample_env_ok

section \<open>Properties\<close>

text \<open>
  The route alias. For every valid identity \<open>friendly_alias\<close> returns an alias of at most 128
  code points that begins with provider and device, so its two size errors are unreachable; a
  project that fits is kept verbatim, a longer one is cut and marked with its digest; and for
  Codex the alias ends with twelve digits of the session key.
\<close>

theorem friendly_alias_total:
  assumes "env_ok E" "device_shape dev" "name_shape E name" "session_shape p sid"
  shows "\<exists>a mid. friendly_alias E p dev name sid = Inr a \<and> length a \<le> 128 \<and>
    a = (provider_str p @ 64 # dev @ [58]) @ mid @ alias_suffix E p sid \<and>
    (length (provider_str p @ 64 # dev @ [58]) + length name + length (alias_suffix E p sid) \<le> 128 \<longrightarrow>
       mid = name) \<and>
    (mid \<noteq> name \<longrightarrow> (\<exists>n b. mid = take n name @ 126 # take 12 (sha256hex E b)))"
proof -
  let ?pre = "provider_str p @ 64 # dev @ [58]"
  define mid where "mid = alias_project E (128 - int (length ?pre) - int (length (alias_suffix E p sid))) name"
  have "friendly_alias E p dev name sid = Inr (?pre @ mid @ alias_suffix E p sid)"
    "length (?pre @ mid @ alias_suffix E p sid) \<le> 128"
    unfolding mid_def by (rule friendly_alias_value [OF assms])+
  moreover have "length ?pre + length name + length (alias_suffix E p sid) \<le> 128 \<longrightarrow> mid = name"
    by (auto simp: mid_def alias_project_def)
  moreover have "mid \<noteq> name \<longrightarrow> (\<exists>n b. mid = take n name @ 126 # take 12 (sha256hex E b))"
    unfolding mid_def alias_project_def by (auto split: if_splits)
  ultimately show ?thesis by blast
qed

theorem friendly_alias_total_witness:
  "\<exists>a mid. friendly_alias sample_env Codex (lit ''mac'') (lit ''proj'') (sample_uuid 49) = Inr a \<and>
    length a \<le> 128 \<and> a = (provider_str Codex @ 64 # lit ''mac'' @ [58]) @ mid @
      alias_suffix sample_env Codex (sample_uuid 49)"
proof -
  have "device_shape (lit ''mac'')" "name_shape sample_env (lit ''proj'')" "session_shape Codex (sample_uuid 49)"
    by (simp_all add: device_shape_def lit_def is_alnum_def is_lower_def sample_simps session_shape_def)
  from friendly_alias_total [OF sample_env_ok this] show ?thesis by blast
qed

text \<open>
  The message bound. \<open>bounded_message\<close> returns its argument unchanged or raises a
  \<open>ChatError\<close>; what it returns is non-empty UTF-8 text without NUL of at most 16 KiB whose JSON
  string takes at most 32770 bytes; and every non-empty text without control characters and
  surrogates that fits 16 KiB is accepted.
\<close>

theorem bounded_message_spec:
  "(\<forall>x. bounded_message m = Inr x \<longrightarrow> x = m \<and> m \<noteq> [] \<and> 0 \<notin> set m \<and> utf8_encode m \<noteq> None \<and>
      utf8_len m \<le> 16384 \<and> utf8_len (dumps fr False (JStr m)) \<le> 32770) \<and>
   (\<forall>e. bounded_message m = Inl e \<longrightarrow> (\<exists>t. e = ChatError t)) \<and>
   (m \<noteq> [] \<and> list_all (\<lambda>c. 32 \<le> c \<and> \<not> is_surrogate c) m \<and> utf8_len m \<le> 16384 \<longrightarrow>
      bounded_message m = Inr m)"
  using bounded_message_chat_error bounded_message_printable
  by (auto simp: valid_simps message_shape_def utf8_encode_def)

theorem bounded_message_spec_witness:
  "bounded_message (lit ''hello'') = Inr (lit ''hello'') \<and> utf8_len (json_str False (lit ''hello'')) \<le> 32770"
proof -
  have "lit ''hello'' \<noteq> [] \<and> list_all (\<lambda>c. 32 \<le> c \<and> \<not> is_surrogate c) (lit ''hello'') \<and>
      utf8_len (lit ''hello'') \<le> 16384"
    by (simp add: lit_def is_surrogate_def utf8_len_def utf8_char_def)
  with bounded_message_spec [of "lit ''hello''" "\<lambda>_. []"] show ?thesis by simp
qed

end
