(* ===== verification/Routes.thy ===== *)
theory Routes
  imports Validators
begin

text \<open>
  \<open>Route\<close> and \<open>Registry\<close> of core.py: one generation of one live provider process, and the
  table of them on disk (two files: \<^verbatim>\<open>routes.json\<close> for Claude and Codex,
  \<^verbatim>\<open>devin-routes.json\<close> for Devin) with the owner anchors beside it.
\<close>

section \<open>Route\<close>

record route =
  r_schema_version :: int
  r_provider :: provider
  r_session_id :: str
  r_device :: str
  r_cwd :: str
  r_project :: str
  r_alias :: str
  r_generation :: str
  r_pid :: int
  r_last_seen :: str
  r_owner_identity :: "str option"
  r_profile_root :: "str option"

text \<open>\<open>__post_init__\<close>: the checks run on every construction, in this order.\<close>

definition route_post_init :: "pyenv \<Rightarrow> route \<Rightarrow> route res" where
  "route_post_init E r =
     (if r_schema_version r \<noteq> SCHEMA_VERSION then fail ''route schema is unsupported''
      else
        bind (valid_session_id (provider_str (r_provider r)) (r_session_id r) ''session id'') (\<lambda>_.
        bind (valid_uuid (r_generation r) ''route generation'') (\<lambda>_.
        bind (valid_device (r_device r)) (\<lambda>_.
        bind (stored_cwd (r_cwd r)) (\<lambda>c.
        if c \<noteq> r_cwd r then fail ''route working directory is not canonical''
        else
          bind (valid_name E (r_project r) ''project'') (\<lambda>_.
          bind (friendly_alias E (r_provider r) (r_device r) (r_project r) (r_session_id r)) (\<lambda>expected.
          if r_alias r \<noteq> expected then fail ''route alias conflicts with its identity''
          else if r_pid r \<le> 0 then fail ''route process is invalid''
          else
            bind (parse_timestamp E (r_last_seen r)) (\<lambda>_.
            if (case r_owner_identity r of None \<Rightarrow> False | Some w \<Rightarrow> \<not> hex64 w)
            then fail ''route owner identity is invalid''
            else
              case r_profile_root r of
                None \<Rightarrow> Inr r
              | Some p \<Rightarrow>
                  bind (stored_cwd p) (\<lambda>_.
                  if r_owner_identity r = None then fail ''route profile has no owner identity''
                  else Inr r)))))))))"

text \<open>What a constructed route satisfies.\<close>

definition route_valid :: "pyenv \<Rightarrow> route \<Rightarrow> bool" where
  "route_valid E r \<longleftrightarrow>
     r_schema_version r = 1 \<and> session_shape (r_provider r) (r_session_id r) \<and>
     uuid_shape (r_generation r) \<and> device_shape (r_device r) \<and> cwd_shape (r_cwd r) \<and>
     name_shape E (r_project r) \<and>
     friendly_alias E (r_provider r) (r_device r) (r_project r) (r_session_id r) = Inr (r_alias r) \<and>
     0 < r_pid r \<and> is_ok (parse_timestamp E (r_last_seen r)) \<and>
     (\<forall>w. r_owner_identity r = Some w \<longrightarrow> hex64 w) \<and>
     (\<forall>p. r_profile_root r = Some p \<longrightarrow> cwd_shape p \<and> r_owner_identity r \<noteq> None)"

lemma route_post_init_iff: "route_post_init E r = Inr r' \<longleftrightarrow> r' = r \<and> route_valid E r"
  by (cases "r_profile_root r"; cases "r_owner_identity r")
    (auto simp: route_post_init_def route_valid_def SCHEMA_VERSION_def res_simps valid_simps is_ok_iff)

definition route_create ::
  "pyenv \<Rightarrow> fsview \<Rightarrow> rat \<Rightarrow> str \<Rightarrow> str \<Rightarrow> str \<Rightarrow> str \<Rightarrow> str \<Rightarrow> int \<Rightarrow> str option \<Rightarrow> str option \<Rightarrow> str option
     \<Rightarrow> route res" where
  "route_create E fs now uuid4 provider session_id device cwd pid generation owner_identity profile_root =
     (case provider_of provider of
        None \<Rightarrow> fail ''route provider is invalid''
      | Some typed \<Rightarrow>
          bind (canonical_cwd fs cwd) (\<lambda>canonical.
          bind (valid_name E (if path_name canonical = [] then canonical else path_name canonical)
                 ''project'') (\<lambda>project.
          bind (valid_session_id provider session_id ''session id'') (\<lambda>sid.
          bind (valid_device device) (\<lambda>dev.
          bind (friendly_alias E typed device project session_id) (\<lambda>alias.
          bind (case generation of None \<Rightarrow> Inr uuid4 | Some g \<Rightarrow> valid_uuid g ''route generation'') (\<lambda>gen.
          route_post_init E
            \<lparr>r_schema_version = SCHEMA_VERSION, r_provider = typed, r_session_id = sid, r_device = dev,
             r_cwd = canonical, r_project = project, r_alias = alias, r_generation = gen, r_pid = pid,
             r_last_seen = isoformat E now, r_owner_identity = owner_identity,
             r_profile_root = profile_root\<rparr>)))))))"

definition route_fields :: "string list" where
  "route_fields = [''schema_version'', ''provider'', ''session_id'', ''device'', ''cwd'', ''project'',
     ''alias'', ''generation'', ''pid'', ''last_seen'']"

text \<open>
  \<^verbatim>\<open>values["provider"] not in {...}\<close> hashes the value: a list or an object raises
  TypeError, which no caller expects.
\<close>

definition get_provider :: "string \<Rightarrow> dict \<Rightarrow> provider res" where
  "get_provider m d =
     (case jget d ''provider'' of
        Some (JStr s) \<Rightarrow> (case provider_of s of None \<Rightarrow> fail m | Some p \<Rightarrow> Inr p)
      | Some (JArr _) \<Rightarrow> Inl OtherError
      | Some (JObj _) \<Rightarrow> Inl OtherError
      | _ \<Rightarrow> fail m)"

lemma get_provider_iff [res_simps]:
  "get_provider m d = Inr p \<longleftrightarrow> jget d ''provider'' = Some (JStr (provider_str p))"
  by (auto simp: get_provider_def split: option.splits json.splits)

definition route_from_object :: "pyenv \<Rightarrow> json \<Rightarrow> route res" where
  "route_from_object E raw =
     (let m = ''route schema is unsupported'' in
      case raw of
        JObj d \<Rightarrow>
          if \<not> (has_keys d route_fields \<or> has_keys d (route_fields @ [''owner_identity'']) \<or>
                has_keys d (route_fields @ [''owner_identity'', ''profile_root'']))
          then fail m
          else
            bind (get_int m d ''schema_version'') (\<lambda>version.
            bind (get_provider m d) (\<lambda>provider.
            bind (get_str m d ''session_id'') (\<lambda>session_id.
            bind (get_str m d ''device'') (\<lambda>device.
            bind (get_str m d ''cwd'') (\<lambda>cwd.
            bind (get_str m d ''project'') (\<lambda>project.
            bind (get_str m d ''alias'') (\<lambda>alias.
            bind (get_str m d ''generation'') (\<lambda>generation.
            bind (get_str m d ''last_seen'') (\<lambda>last_seen.
            bind (get_int m d ''pid'') (\<lambda>pid.
            bind (get_opt_str m d ''owner_identity'') (\<lambda>owner.
            bind (get_opt_str m d ''profile_root'') (\<lambda>profile.
            route_post_init E
              \<lparr>r_schema_version = version, r_provider = provider, r_session_id = session_id,
               r_device = device, r_cwd = cwd, r_project = project, r_alias = alias,
               r_generation = generation, r_pid = pid, r_last_seen = last_seen,
               r_owner_identity = owner, r_profile_root = profile\<rparr>))))))))))))
      | _ \<Rightarrow> fail m)"

definition route_dict :: "route \<Rightarrow> dict" where
  "route_dict r =
     [(lit ''schema_version'', JInt (r_schema_version r)),
      (lit ''provider'', JStr (provider_str (r_provider r))),
      (lit ''session_id'', JStr (r_session_id r)),
      (lit ''device'', JStr (r_device r)),
      (lit ''cwd'', JStr (r_cwd r)),
      (lit ''project'', JStr (r_project r)),
      (lit ''alias'', JStr (r_alias r)),
      (lit ''generation'', JStr (r_generation r)),
      (lit ''pid'', JInt (r_pid r)),
      (lit ''last_seen'', JStr (r_last_seen r))]
     @ (case r_owner_identity r of None \<Rightarrow> [] | Some w \<Rightarrow> [(lit ''owner_identity'', JStr w)])
     @ (case r_profile_root r of None \<Rightarrow> [] | Some p \<Rightarrow> [(lit ''profile_root'', JStr p)])"

definition route_to_dict :: "route \<Rightarrow> json" where
  "route_to_dict r = JObj (route_dict r)"

text \<open>A route whose texts are Unicode scalars and whose pid the decoder can read back.\<close>

definition route_storable :: "pyenv \<Rightarrow> route \<Rightarrow> bool" where
  "route_storable E r \<longleftrightarrow> route_valid E r \<and> plain True (route_to_dict r)"

lemma route_dict_distinct: "distinct (map fst (route_dict r))"
  by (auto simp: route_dict_def split: option.splits)

lemma get_provider_sorted:
  "distinct (map fst d) \<Longrightarrow> get_provider m (sort_dict d) = get_provider m d"
  by (auto simp: get_provider_def map_of_sort_dict split: option.splits json.splits)

lemmas sorted_getters = get_str_sorted get_provider_sorted has_keys_sort_dict field_eq_int_sorted

lemma route_eta:
  "\<lparr>r_schema_version = r_schema_version r, r_provider = r_provider r, r_session_id = r_session_id r,
    r_device = r_device r, r_cwd = r_cwd r, r_project = r_project r, r_alias = r_alias r,
    r_generation = r_generation r, r_pid = r_pid r, r_last_seen = r_last_seen r,
    r_owner_identity = r_owner_identity r, r_profile_root = r_profile_root r\<rparr> = r"
  by (cases r) simp

lemma route_from_object_dict:
  assumes "route_valid E r"
  shows "route_from_object E (JObj (route_dict r)) = Inr r"
proof -
  have prof: "r_profile_root r \<noteq> None \<Longrightarrow> r_owner_identity r \<noteq> None"
    using assms by (auto simp: route_valid_def)
  have keys: "has_keys (route_dict r) route_fields \<or>
      has_keys (route_dict r) (route_fields @ [''owner_identity'']) \<or>
      has_keys (route_dict r) (route_fields @ [''owner_identity'', ''profile_root''])"
    using prof by (cases "r_owner_identity r"; cases "r_profile_root r")
      (simp_all add: has_keys_def route_dict_def route_fields_def insert_commute)
  have fields: "get_int m (route_dict r) ''schema_version'' = Inr (r_schema_version r)"
    "get_provider m (route_dict r) = Inr (r_provider r)"
    "get_str m (route_dict r) ''session_id'' = Inr (r_session_id r)"
    "get_str m (route_dict r) ''device'' = Inr (r_device r)"
    "get_str m (route_dict r) ''cwd'' = Inr (r_cwd r)"
    "get_str m (route_dict r) ''project'' = Inr (r_project r)"
    "get_str m (route_dict r) ''alias'' = Inr (r_alias r)"
    "get_str m (route_dict r) ''generation'' = Inr (r_generation r)"
    "get_str m (route_dict r) ''last_seen'' = Inr (r_last_seen r)"
    "get_int m (route_dict r) ''pid'' = Inr (r_pid r)" for m
    by (simp_all add: res_simps route_dict_def)
  have opts: "get_opt_str m (route_dict r) ''owner_identity'' = Inr (r_owner_identity r)"
    "get_opt_str m (route_dict r) ''profile_root'' = Inr (r_profile_root r)" for m
    by (cases "r_owner_identity r"; cases "r_profile_root r"; simp add: res_simps route_dict_def)+
  have "route_post_init E r = Inr r" using assms by (simp add: route_post_init_iff)
  with keys show ?thesis
    by (simp add: route_from_object_def fields opts route_eta)
qed

lemma route_from_object_sorted:
  "distinct (map fst d) \<Longrightarrow> route_from_object E (JObj (sort_dict d)) = route_from_object E (JObj d)"
  by (simp add: route_from_object_def Let_def sorted_getters)

text \<open>A route read from an object satisfies the invariant of the constructor.\<close>

lemma route_from_object_valid: "route_from_object E v = Inr r \<Longrightarrow> route_valid E r"
  by (auto simp: route_from_object_def Let_def res_simps route_post_init_iff split: json.splits)

interpretation routes_json: json_table "route_storable E" route_to_dict "route_from_object E" for E
proof
  show "route_storable E r \<Longrightarrow> plain True (route_to_dict r)" for r
    by (simp add: route_storable_def)
  show "route_from_object E (sort_keys (route_to_dict r)) = Inr r" if "route_storable E r" for r
    using that route_from_object_dict [of E r] route_from_object_sorted [OF route_dict_distinct, of E r]
    by (simp add: route_storable_def route_to_dict_def)
qed

text \<open>What \<^verbatim>\<open>os.kill(pid, 0)\<close> does: nothing, ProcessLookupError, or another OSError.\<close>

datatype kill_result = Signalled | NoSuchProcess | NotPermitted

definition process_is_live :: "(int \<Rightarrow> kill_result) \<Rightarrow> route \<Rightarrow> bool" where
  "process_is_live kill r = (case kill (r_pid r) of Signalled \<Rightarrow> True | NoSuchProcess \<Rightarrow> False | NotPermitted \<Rightarrow> True)"

definition cwd_is_available :: "fsview \<Rightarrow> route \<Rightarrow> bool res" where
  "cwd_is_available fs r =
     (case canonical_cwd fs (r_cwd r) of
        Inr c \<Rightarrow> Inr (c = r_cwd r)
      | Inl e \<Rightarrow> if is_chat_error e then Inr False else Inl e)"

section \<open>Registry\<close>

definition routes_json :: str where "routes_json = lit ''routes.json''"
definition devin_routes_json :: str where "devin_routes_json = lit ''devin-routes.json''"

lemma route_file_names [simp]: "routes_json \<noteq> devin_routes_json" "devin_routes_json \<noteq> routes_json"
  by (simp_all add: routes_json_def devin_routes_json_def)

definition owner_anchor_name :: "str \<Rightarrow> str res" where
  "owner_anchor_name generation =
     bind (valid_uuid generation ''route generation'') (\<lambda>g. Inr (lit ''owner-'' @ g @ lit ''.json''))"

text \<open>\<open>OWNER_ANCHOR_RE\<close>: the generation in the name of an anchor.\<close>

definition anchor_generation :: "str \<Rightarrow> str option" where
  "anchor_generation name =
     (let g = take 36 (drop 6 name) in
      if name = lit ''owner-'' @ g @ lit ''.json'' \<and> uuid_shape g then Some g else None)"

definition identity :: "route \<Rightarrow> provider \<times> str" where
  "identity r = (r_provider r, r_session_id r)"

definition registry_read :: "pyenv \<Rightarrow> dir \<Rightarrow> str \<Rightarrow> bool \<Rightarrow> route list res" where
  "registry_read E d path devin =
     (case files d path of
        None \<Rightarrow> Inr []
      | Some f \<Rightarrow>
          bind (read_private_json E d path ''route registry is invalid'' f) (\<lambda>raw.
          bind (rows_of (route_from_object E) ''route registry schema is unsupported'' raw) (\<lambda>routes.
          if \<not> devin \<and> list_ex (\<lambda>r. r_provider r = Devin) routes
          then fail ''legacy route registry contains unsupported provider''
          else if devin \<and> list_ex (\<lambda>r. r_provider r \<noteq> Devin) routes
          then fail ''Devin route registry contains unsupported provider''
          else Inr routes)))"

definition registry_routes :: "pyenv \<Rightarrow> dir \<Rightarrow> route list res" where
  "registry_routes E d =
     bind (registry_read E d routes_json False) (\<lambda>legacy.
     bind (registry_read E d devin_routes_json True) (\<lambda>devin.
     if has_duplicates (map identity (legacy @ devin))
     then fail ''route registry contains duplicate identities''
     else Inr (legacy @ devin)))"

definition prune_owner_anchors :: "dir \<Rightarrow> route list \<Rightarrow> dir" where
  "prune_owner_anchors d retained =
     d\<lparr>files := (\<lambda>n. case anchor_generation n of
                   None \<Rightarrow> files d n
                 | Some g \<Rightarrow> if g \<in> set (map r_generation retained) then files d n else None)\<rparr>"

definition registry_write :: "pyenv \<Rightarrow> dir \<Rightarrow> route list \<Rightarrow> dir" where
  "registry_write E d routes =
     (let legacy = filter (\<lambda>r. r_provider r \<noteq> Devin) routes;
          devin = filter (\<lambda>r. r_provider r = Devin) routes;
          d1 = atomic_json E d routes_json (JArr (map route_to_dict legacy));
          d2 = (if devin \<noteq> [] then atomic_json E d1 devin_routes_json (JArr (map route_to_dict devin))
                else unlink d1 devin_routes_json)
      in prune_owner_anchors d2 routes)"

definition publish_owner_anchor :: "pyenv \<Rightarrow> dir \<Rightarrow> route \<Rightarrow> dict option \<Rightarrow> dir" where
  "publish_owner_anchor E d r anchor =
     (case anchor of
        None \<Rightarrow> d
      | Some a \<Rightarrow>
          (case owner_anchor_name (r_generation r) of
             Inl _ \<Rightarrow> d
           | Inr n \<Rightarrow> atomic_json E d n (JObj a)))"

definition registry_upsert :: "pyenv \<Rightarrow> dir \<Rightarrow> route \<Rightarrow> dict option \<Rightarrow> dir res" where
  "registry_upsert E d r anchor =
     bind (registry_routes E d) (\<lambda>routes.
     let existing = filter (\<lambda>x. identity x \<noteq> identity r) routes in
     Inr (registry_write E (publish_owner_anchor E d r anchor) (existing @ [r])))"

definition same_live_owner :: "route \<Rightarrow> route \<Rightarrow> bool" where
  "same_live_owner r x \<longleftrightarrow>
     r_provider x = r_provider r \<and> r_session_id x = r_session_id r \<and> r_device x = r_device r \<and>
     r_cwd x = r_cwd r \<and> r_pid x = r_pid r \<and> r_owner_identity x \<noteq> None \<and>
     r_owner_identity x = r_owner_identity r"

definition upsert_or_reuse_live_owner ::
  "pyenv \<Rightarrow> dir \<Rightarrow> route \<Rightarrow> dict option \<Rightarrow> (route \<times> dir) res" where
  "upsert_or_reuse_live_owner E d r anchor =
     bind (registry_routes E d) (\<lambda>existing.
     case filter (same_live_owner r) existing of
       [m] \<Rightarrow> Inr (m, d)
     | _ \<Rightarrow>
         let retained = filter (\<lambda>x. identity x \<noteq> identity r) existing in
         Inr (r, registry_write E (publish_owner_anchor E d r anchor) (retained @ [r])))"

definition registry_remove :: "pyenv \<Rightarrow> dir \<Rightarrow> provider \<Rightarrow> str \<Rightarrow> int \<Rightarrow> str option \<Rightarrow> dir res" where
  "registry_remove E d provider session_id pid generation =
     bind (registry_routes E d) (\<lambda>existing.
     let retained = filter (\<lambda>x. (r_provider x, r_session_id x, r_pid x) \<noteq> (provider, session_id, pid) \<or>
           (case generation of None \<Rightarrow> False | Some g \<Rightarrow> r_generation x \<noteq> g)) existing in
     Inr (registry_write E d retained))"

definition registry_current :: "pyenv \<Rightarrow> dir \<Rightarrow> route \<Rightarrow> bool res" where
  "registry_current E d r = bind (registry_routes E d) (\<lambda>routes. Inr (list_ex (\<lambda>x. x = r) routes))"

definition compact_dead :: "pyenv \<Rightarrow> (int \<Rightarrow> kill_result) \<Rightarrow> dir \<Rightarrow> (route list \<times> dir) res" where
  "compact_dead E kill d =
     bind (registry_routes E d) (\<lambda>existing.
     let retained = filter (process_is_live kill) existing in
     if length retained \<noteq> length existing then Inr (retained, registry_write E d retained)
     else Inr (retained, prune_owner_anchors d retained))"

section \<open>The registry is a map from identities to routes\<close>

lemma anchor_generation_files [simp]:
  "anchor_generation routes_json = None" "anchor_generation devin_routes_json = None"
proof -
  have "take 6 routes_json \<noteq> lit ''owner-''" "take 6 devin_routes_json \<noteq> lit ''owner-''"
    by (simp_all add: routes_json_def devin_routes_json_def lit_def)
  then show "anchor_generation routes_json = None" "anchor_generation devin_routes_json = None"
    by (auto simp: anchor_generation_def Let_def dest: arg_cong [where f = "take 6"])
qed

lemma anchor_generation_name: "uuid_shape g \<Longrightarrow> anchor_generation (lit ''owner-'' @ g @ lit ''.json'') = Some g"
  by (simp add: anchor_generation_def Let_def uuid_shape_def)

lemma files_prune:
  "files (prune_owner_anchors d rs) n =
     (case anchor_generation n of None \<Rightarrow> files d n
      | Some g \<Rightarrow> if g \<in> set (map r_generation rs) then files d n else None)"
  "root_path (prune_owner_anchors d rs) = root_path d"
  by (simp_all add: prune_owner_anchors_def)

lemma registry_read_cong:
  "files d n = files d' n \<Longrightarrow> root_path d = root_path d' \<Longrightarrow> registry_read E d n b = registry_read E d' n b"
  by (cases "files d' n") (simp_all add: registry_read_def read_private_json_cong [of d n d'])

lemma registry_routes_cong:
  assumes "\<And>n. anchor_generation n = None \<Longrightarrow> files d n = files d' n" "root_path d = root_path d'"
  shows "registry_routes E d = registry_routes E d'"
  using assms by (simp add: registry_routes_def registry_read_cong [of d _ d'])

lemma registry_routes_prune [simp]: "registry_routes E (prune_owner_anchors d rs) = registry_routes E d"
  by (rule registry_routes_cong) (simp_all add: files_prune)

lemma registry_routes_publish [simp]:
  "registry_routes E (publish_owner_anchor E d r a) = registry_routes E d"
  by (rule registry_routes_cong)
    (auto simp: publish_owner_anchor_def owner_anchor_name_def valid_simps res_simps
      anchor_generation_name split: option.splits sum.splits)

definition canonical_order :: "route list \<Rightarrow> route list" where
  "canonical_order rs = filter (\<lambda>r. r_provider r \<noteq> Devin) rs @ filter (\<lambda>r. r_provider r = Devin) rs"

lemma set_canonical_order [simp]: "set (canonical_order rs) = set rs"
  by (auto simp: canonical_order_def)

lemma distinct_canonical_order:
  "distinct (map identity rs) \<Longrightarrow> distinct (map identity (canonical_order rs))"
  by (auto simp: canonical_order_def distinct_filter_keys identity_def)

text \<open>What \<open>_write\<close> stores, \<open>routes\<close> returns: Claude and Codex first, then Devin.\<close>

lemma registry_routes_write:
  assumes "list_all (route_storable E) rs" and "distinct (map identity rs)"
  shows "registry_routes E (registry_write E d rs) = Inr (canonical_order rs)"
proof -
  define legacy devin where l: "legacy = filter (\<lambda>r. r_provider r \<noteq> Devin) rs"
    and v: "devin = filter (\<lambda>r. r_provider r = Devin) rs"
  define d1 where "d1 = atomic_json E d routes_json (JArr (map route_to_dict legacy))"
  define d2 where "d2 = (if devin \<noteq> [] then atomic_json E d1 devin_routes_json (JArr (map route_to_dict devin))
      else unlink d1 devin_routes_json)"
  have good: "list_all (route_storable E) legacy" "list_all (route_storable E) devin"
    using assms(1) by (auto simp: l v list_all_iff)
  have "registry_read E d1 routes_json False = Inr legacy"
    using routes_json.table_read_written [OF good(1), of E d routes_json]
    by (auto simp: registry_read_def d1_def res_simps l list_ex_iff)
  moreover have "registry_read E d2 routes_json False = registry_read E d1 routes_json False"
    by (rule registry_read_cong) (simp_all add: d2_def)
  moreover have "registry_read E d2 devin_routes_json True = Inr devin"
    using routes_json.table_read_written [OF good(2), of E d1 devin_routes_json]
    by (auto simp: registry_read_def d2_def res_simps v list_ex_iff)
  ultimately have "registry_routes E d2 = Inr (canonical_order rs)"
    using distinct_canonical_order [OF assms(2)]
    by (simp add: registry_routes_def has_duplicates_def canonical_order_def l v)
  then show ?thesis
    unfolding registry_write_def Let_def l [symmetric] v [symmetric] d1_def [symmetric] d2_def [symmetric]
    by simp
qed

text \<open>A registry the program can read, all of whose rows it can write again.\<close>

definition registry_ok :: "pyenv \<Rightarrow> dir \<Rightarrow> bool" where
  "registry_ok E d = (case registry_routes E d of Inl _ \<Rightarrow> False | Inr rs \<Rightarrow> list_all (route_storable E) rs)"

definition registry_map :: "pyenv \<Rightarrow> dir \<Rightarrow> provider \<times> str \<Rightarrow> route option" where
  "registry_map E d = (case registry_routes E d of Inl _ \<Rightarrow> Map.empty | Inr rs \<Rightarrow> row_map identity rs)"

lemma registry_routes_distinct: "registry_routes E d = Inr rs \<Longrightarrow> distinct (map identity rs)"
  by (auto simp: registry_routes_def res_simps has_duplicates_def)

lemma registry_okE:
  assumes "registry_ok E d"
  obtains rs where "registry_routes E d = Inr rs" "list_all (route_storable E) rs"
    "distinct (map identity rs)" "registry_map E d = row_map identity rs"
  using assms registry_routes_distinct
  by (auto simp: registry_ok_def registry_map_def split: sum.splits)

lemma registry_write_ok:
  assumes "list_all (route_storable E) rs" and "distinct (map identity rs)"
  shows "registry_ok E (registry_write E d rs)"
    and "registry_map E (registry_write E d rs) = row_map identity rs"
  using registry_routes_write [OF assms, of d] assms(1)
    row_map_perm [OF distinct_canonical_order [OF assms(2)] assms(2)]
  by (simp_all add: registry_ok_def registry_map_def list_all_iff)

lemma registry_upsert_law:
  assumes "registry_ok E d" and "route_storable E r"
  shows "\<exists>d'. registry_upsert E d r a = Inr d' \<and> registry_ok E d' \<and>
    registry_map E d' = (registry_map E d)(identity r \<mapsto> r)"
proof -
  obtain rs where rs: "registry_routes E d = Inr rs" "list_all (route_storable E) rs"
    "distinct (map identity rs)" "registry_map E d = row_map identity rs"
    using assms(1) by (rule registry_okE)
  have good: "list_all (route_storable E) (put_row identity r rs)"
    using rs(2) assms(2) by (auto simp: put_row_def list_all_iff)
  show ?thesis
    using rs registry_write_ok [OF good distinct_put_row [OF rs(3)]] row_map_put_row [OF rs(3), of r]
    by (simp add: registry_upsert_def put_row_def [symmetric])
qed

interpretation registry: keyed_store "registry_ok E" "registry_map E" "route_storable E" identity
  "\<lambda>d r. registry_upsert E d r (anchor r)" for E anchor
  by unfold_locales (rule registry_upsert_law)

lemma registry_retain_law:
  assumes "registry_ok E d" and "registry_routes E d = Inr rs"
  shows "registry_ok E (registry_write E d (filter P rs))"
    and "registry_map E (registry_write E d (filter P rs)) k =
      (case registry_map E d k of None \<Rightarrow> None | Some r \<Rightarrow> if P r then Some r else None)"
proof -
  have rs: "list_all (route_storable E) (filter P rs)" "distinct (map identity rs)"
    "registry_map E d = row_map identity rs"
    using assms by (auto elim!: registry_okE simp: list_all_iff)
  note w = registry_write_ok [OF rs(1) distinct_filter_keys [OF rs(2)], of d]
  show "registry_ok E (registry_write E d (filter P rs))" by (rule w)
  show "registry_map E (registry_write E d (filter P rs)) k =
      (case registry_map E d k of None \<Rightarrow> None | Some r \<Rightarrow> if P r then Some r else None)"
    using w row_map_filter [OF rs(2), of P k] rs(3) by simp
qed

text \<open>The anchors after a write: those of the written routes are kept, the others are gone.\<close>

lemma anchors_write:
  assumes "anchor_generation n = Some g"
  shows "files (registry_write E d rs) n = (if g \<in> set (map r_generation rs) then files d n else None)"
proof -
  have "n \<noteq> routes_json" "n \<noteq> devin_routes_json" using assms by auto
  then show ?thesis using assms by (simp add: registry_write_def Let_def files_prune)
qed

section \<open>A sample registry\<close>

definition sample_route :: route where
  "sample_route =
     \<lparr>r_schema_version = 1, r_provider = Claude, r_session_id = sample_uuid 49, r_device = lit ''mac'',
      r_cwd = lit ''/p'', r_project = lit ''p'', r_alias = lit ''claude@mac:p'',
      r_generation = sample_uuid 50, r_pid = 7, r_last_seen = isoformat sample_env 0,
      r_owner_identity = Some (sample_hex64 97), r_profile_root = None\<rparr>"

definition empty_dir :: dir where
  "empty_dir = \<lparr>root_path = lit ''/state'', files = Map.empty\<rparr>"

lemma sample_alias: "friendly_alias sample_env Claude (lit ''mac'') (lit ''p'') (sample_uuid 49) = Inr (lit ''claude@mac:p'')"
proof -
  have "device_shape (lit ''mac'')" "name_shape sample_env (lit ''p'')" "session_shape Claude (sample_uuid 49)"
    by (simp_all add: device_shape_def lit_def is_alnum_def is_lower_def sample_simps session_shape_def)
  from friendly_alias_value(1) [OF sample_env_ok this] show ?thesis
    by (simp add: alias_project_def alias_suffix_def lit_def)
qed

lemma int_fits_small: "\<bar>i\<bar> < 10 \<Longrightarrow> int_fits i"
  by (simp add: int_fits_def int_max_str_digits_def dec_str.simps)

lemma replicate_printable: "printable a c \<Longrightarrow> list_all (printable a) (replicate n c)"
  by (simp add: list_all_iff)

lemma sample_route_valid: "route_valid sample_env sample_route"
  using sample_alias parse_timestamp_iso [OF sample_env_ok, of 0]
  by (simp add: route_valid_def sample_route_def sample_simps session_shape_def)
    (simp add: device_shape_def cwd_shape_def lit_def is_alnum_def is_lower_def is_absolute_def
      starts_with_def normpath_def sample_simps)

lemma sample_iso_scalar: "list_all is_scalar (isoformat sample_env t)"
  using sample_env_ok by (simp add: env_ok_def)

lemma sample_uuid_printable:
  "c < 55296 \<Longrightarrow> list_all (printable True) (sample_uuid c)"
  by (auto simp: sample_uuid_def list_all_iff is_scalar_printable scalar_small)

lemma sample_route_storable: "route_storable sample_env sample_route"
proof -
  have "list_all (printable True) (lit s)" for s
    using scalar_lit by (auto simp: list_all_iff is_scalar_printable)
  moreover have "list_all (printable True) (isoformat sample_env 0)"
    using sample_iso_scalar by (auto simp: list_all_iff is_scalar_printable)
  moreover have "list_all (printable True) (sample_uuid c)" "list_all (printable True) (sample_hex64 c)"
    if "c < 55296" for c
    using that by (auto simp: sample_uuid_def sample_hex64_def list_all_iff is_scalar_printable scalar_small)
  ultimately show ?thesis
    using sample_route_valid
    by (simp add: route_storable_def route_to_dict_def route_dict_def sample_route_def int_fits_small)
qed

lemma empty_registry: "registry_ok E empty_dir" "registry_routes E empty_dir = Inr []"
  by (simp_all add: registry_ok_def registry_routes_def registry_read_def empty_dir_def has_duplicates_def)

section \<open>Properties\<close>

text \<open>
  Round trip of a route: the bytes \<open>atomic_json\<close> writes for a valid route, decoded as UTF-8
  and JSON and given to \<open>Route.from_object\<close>, give the same route; and \<open>from_object\<close> returns only
  routes that pass the checks of the constructor.
\<close>

theorem route_roundtrip:
  "(route_storable E r \<longrightarrow>
      bind (loads_file E \<lparr>is_private = True, data = json_payload E (route_to_dict r)\<rparr>)
        (route_from_object E) = Inr r) \<and>
   (\<forall>v r'. route_from_object E v = Inr r' \<longrightarrow> route_post_init E r' = Inr r')"
  using routes_json.plain_row routes_json.row_restored
  by (auto simp: loads_payload route_post_init_iff dest: route_from_object_valid)

theorem route_roundtrip_witness:
  "bind (loads_file sample_env \<lparr>is_private = True, data = json_payload sample_env (route_to_dict sample_route)\<rparr>)
     (route_from_object sample_env) = Inr sample_route"
  using route_roundtrip [of sample_env sample_route] sample_route_storable by simp

text \<open>
  C22. The registry refines a map from (provider, session) to routes: any sequence of
  \<open>upsert\<close> calls on a readable registry succeeds, leaves it readable, and for every identity
  keeps the last route written for it, and the old route where none was written.
\<close>

theorem registry_upserts:
  assumes "registry_ok E d" and "list_all (route_storable E) rs"
  shows "\<exists>d'. store_all (\<lambda>d r. registry_upsert E d r (anchor r)) d rs = Inr d' \<and> registry_ok E d' \<and>
    registry_map E d' = registry_map E d ++ map_of (rev (map (\<lambda>r. (identity r, r)) rs))"
  using assms by (rule registry.put_all)

theorem registry_upserts_witness:
  "\<exists>d'. store_all (\<lambda>d r. registry_upsert sample_env d r None) empty_dir
       [sample_route, sample_route\<lparr>r_owner_identity := None\<rparr>] = Inr d' \<and>
     registry_map sample_env d' (identity sample_route) = Some (sample_route\<lparr>r_owner_identity := None\<rparr>)"
proof -
  have "route_storable sample_env (sample_route\<lparr>r_owner_identity := None\<rparr>)"
    using sample_route_storable
    by (auto simp: route_storable_def route_valid_def route_to_dict_def route_dict_def sample_route_def)
  then show ?thesis
    using registry_upserts [OF empty_registry(1), of sample_env
        "[sample_route, sample_route\<lparr>r_owner_identity := None\<rparr>]" "\<lambda>_. None"] sample_route_storable
    by (auto simp: identity_def)
qed

text \<open>
  A repeated hook keeps the live generation: \<open>upsert_or_reuse_live_owner\<close> returns the stored
  route and leaves the directory untouched when one with the same owner identity, process,
  directory and device is registered; otherwise it returns the new route and stores it like
  \<open>upsert\<close>.
\<close>

theorem upsert_or_reuse_spec:
  assumes "registry_ok E d" and "route_storable E r"
  shows "case registry_map E d (identity r) of
      Some m \<Rightarrow>
        if same_live_owner r m then upsert_or_reuse_live_owner E d r a = Inr (m, d)
        else \<exists>d'. upsert_or_reuse_live_owner E d r a = Inr (r, d') \<and> registry_ok E d' \<and>
               registry_map E d' = (registry_map E d)(identity r \<mapsto> r)
    | None \<Rightarrow> \<exists>d'. upsert_or_reuse_live_owner E d r a = Inr (r, d') \<and> registry_ok E d' \<and>
               registry_map E d' = (registry_map E d)(identity r \<mapsto> r)"
proof -
  obtain rs where rs: "registry_routes E d = Inr rs" "distinct (map identity rs)"
    "registry_map E d = row_map identity rs"
    using assms(1) by (rule registry_okE)
  have own: "same_live_owner r x \<Longrightarrow> identity x = identity r" for x
    by (simp add: same_live_owner_def identity_def)
  have none: "filter (same_live_owner r) rs = []"
    if "\<And>m. row_map identity rs (identity r) = Some m \<Longrightarrow> \<not> same_live_owner r m"
    using that own row_map_Some_iff [OF rs(2), of "identity r"] unfolding filter_empty_conv by blast
  have one: "filter (same_live_owner r) rs = [m]"
    if "row_map identity rs (identity r) = Some m" "same_live_owner r m" for m
    using that own row_map_Some_iff [OF rs(2), of "identity r" m]
    by (intro filter_distinct_key [OF rs(2)]) auto
  have up: "\<exists>d'. Inr (r, registry_write E (publish_owner_anchor E d r a)
        (filter (\<lambda>x. identity x \<noteq> identity r) rs @ [r])) = Inr (r, d') \<and> registry_ok E d' \<and>
      registry_map E d' = (registry_map E d)(identity r \<mapsto> r)"
    using registry_upsert_law [OF assms, of a] rs(1) by (simp add: registry_upsert_def)
  have new: "\<exists>d'. upsert_or_reuse_live_owner E d r a = Inr (r, d') \<and> registry_ok E d' \<and>
      registry_map E d' = (registry_map E d)(identity r \<mapsto> r)" if "filter (same_live_owner r) rs = []"
    using that up by (simp add: upsert_or_reuse_live_owner_def rs(1))
  show ?thesis
  proof (cases "registry_map E d (identity r)")
    case None
    then show ?thesis using new none rs(3) by simp
  next
    case (Some m)
    then show ?thesis
      using new none one rs(3) by (simp add: upsert_or_reuse_live_owner_def rs(1))
  qed
qed

theorem upsert_or_reuse_spec_witness:
  "\<exists>d'. upsert_or_reuse_live_owner sample_env empty_dir sample_route None = Inr (sample_route, d') \<and>
     upsert_or_reuse_live_owner sample_env d' (sample_route\<lparr>r_generation := sample_uuid 51\<rparr>) None =
       Inr (sample_route, d')"
proof -
  have "route_storable sample_env (sample_route\<lparr>r_generation := sample_uuid 51\<rparr>)"
    using sample_route_storable
    by (auto simp: route_storable_def route_valid_def route_to_dict_def route_dict_def sample_route_def
        sample_simps sample_uuid_printable)
  moreover have "registry_map sample_env empty_dir = Map.empty"
    by (auto simp: registry_map_def empty_registry row_map_def)
  ultimately show ?thesis
    using upsert_or_reuse_spec [OF empty_registry(1) sample_route_storable, of None]
      upsert_or_reuse_spec [of sample_env _ "sample_route\<lparr>r_generation := sample_uuid 51\<rparr>" None]
    by (fastforce simp: identity_def sample_route_def same_live_owner_def)
qed

text \<open>
  Removal is exact: \<open>remove\<close> drops the route of that provider, session and process, with a
  generation only when it is still that generation, and keeps every other route.
\<close>

theorem registry_remove_spec:
  assumes "registry_ok E d"
  shows "\<exists>d'. registry_remove E d p sid pid gen = Inr d' \<and> registry_ok E d' \<and>
    registry_map E d' k =
      (case registry_map E d k of
         None \<Rightarrow> None
       | Some r \<Rightarrow> if k = (p, sid) \<and> r_pid r = pid \<and> (\<forall>g. gen = Some g \<longrightarrow> r_generation r = g)
                   then None else Some r)"
proof -
  let ?keep = "\<lambda>x. (r_provider x, r_session_id x, r_pid x) \<noteq> (p, sid, pid) \<or>
           (case gen of None \<Rightarrow> False | Some g \<Rightarrow> r_generation x \<noteq> g)"
  obtain rs where rs: "registry_routes E d = Inr rs" "distinct (map identity rs)"
    "registry_map E d = row_map identity rs"
    using assms by (rule registry_okE)
  have "r_provider r = fst k \<and> r_session_id r = snd k" if "registry_map E d k = Some r" for r
    using that rs row_map_Some_iff [OF rs(2), of k r] by (auto simp: identity_def)
  then have "?keep r \<longleftrightarrow> \<not> (k = (p, sid) \<and> r_pid r = pid \<and> (\<forall>g. gen = Some g \<longrightarrow> r_generation r = g))"
    if "registry_map E d k = Some r" for r
    using that by (cases k; cases gen) auto
  moreover have "registry_remove E d p sid pid gen = Inr (registry_write E d (filter ?keep rs))"
    by (simp add: registry_remove_def rs(1) Let_def)
  ultimately show ?thesis
    using registry_retain_law [OF assms rs(1), of ?keep]
    by (cases "registry_map E d k") auto
qed

theorem registry_remove_spec_witness:
  "\<exists>d'. registry_remove sample_env empty_dir Claude (sample_uuid 49) 7 None = Inr d' \<and> registry_ok sample_env d'"
  using registry_remove_spec [OF empty_registry(1), of sample_env Claude "sample_uuid 49" 7 None "(Claude, [])"] by blast

text \<open>
  Compaction: \<open>compact_dead\<close> returns exactly the routes whose process is not definitely gone,
  the registry then holds exactly those, and an owner anchor survives exactly when one of them has
  its generation.
\<close>

theorem compact_dead_spec:
  assumes "registry_ok E d"
  shows "\<exists>live d'. compact_dead E kill d = Inr (live, d') \<and> registry_ok E d' \<and>
    (\<forall>k. registry_map E d' k = (case registry_map E d k of
        None \<Rightarrow> None | Some r \<Rightarrow> if kill (r_pid r) = NoSuchProcess then None else Some r)) \<and>
    (\<forall>r. r \<in> set live \<longleftrightarrow> registry_map E d' (identity r) = Some r) \<and>
    (\<forall>n g. anchor_generation n = Some g \<longrightarrow>
       files d' n = (if g \<in> r_generation ` set live then files d n else None))"
proof -
  obtain rs where rs: "registry_routes E d = Inr rs" "list_all (route_storable E) rs"
    "distinct (map identity rs)" "registry_map E d = row_map identity rs"
    using assms by (rule registry_okE)
  define live where "live = filter (process_is_live kill) rs"
  define d' where "d' = (if length live \<noteq> length rs then registry_write E d live else prune_owner_anchors d live)"
  have c: "compact_dead E kill d = Inr (live, d')"
    by (simp add: compact_dead_def rs live_def d'_def Let_def)
  have alive: "process_is_live kill r \<longleftrightarrow> kill (r_pid r) \<noteq> NoSuchProcess" for r
    by (auto simp: process_is_live_def split: kill_result.splits)
  have "length live = length rs \<Longrightarrow> live = rs"
    unfolding live_def by (metis length_filter_less filter_True linorder_neq_iff)
  then have ok: "registry_ok E d'" and m: "registry_map E d' = row_map identity live"
    using registry_write_ok [of E live d] rs distinct_filter_keys [OF rs(3), of "process_is_live kill"]
    by (auto simp: d'_def live_def list_all_iff registry_ok_def registry_map_def)
  have dl: "distinct (map identity live)" unfolding live_def by (rule distinct_filter_keys [OF rs(3)])
  have "registry_map E d' k = (case registry_map E d k of
        None \<Rightarrow> None | Some r \<Rightarrow> if kill (r_pid r) = NoSuchProcess then None else Some r)" for k
    unfolding m rs(4) live_def row_map_filter [OF rs(3)] by (auto simp: alive split: option.splits)
  moreover have "r \<in> set live \<longleftrightarrow> registry_map E d' (identity r) = Some r" for r
    by (simp add: m row_map_Some_iff [OF dl])
  moreover have "files d' n = (if g \<in> r_generation ` set live then files d n else None)"
    if "anchor_generation n = Some g" for n g
    using that anchors_write [OF that, of E d live] by (auto simp: d'_def files_prune)
  ultimately show ?thesis using c ok by blast
qed

theorem compact_dead_spec_witness:
  "\<exists>live d'. compact_dead sample_env (\<lambda>_. NoSuchProcess) empty_dir = Inr (live, d') \<and> registry_ok sample_env d'"
  using compact_dead_spec [OF empty_registry(1), of sample_env "\<lambda>_. NoSuchProcess"] by blast

text \<open>
  The anchor of a published route: after \<open>upsert\<close> with an anchor the file named after the
  generation holds it, and the anchors of the other registered generations are untouched.
\<close>

theorem upsert_anchor:
  assumes "registry_ok E d" "route_storable E r" "plain True (JObj a)"
  shows "\<exists>d' n. registry_upsert E d r (Some a) = Inr d' \<and> owner_anchor_name (r_generation r) = Inr n \<and>
    bind (read_private_json E d' n m \<lparr>is_private = True, data = json_payload E (JObj a)\<rparr>) Inr =
      Inr (sort_keys (JObj a)) \<and> files d' n = Some \<lparr>is_private = True, data = json_payload E (JObj a)\<rparr> \<and>
    (\<forall>n' g. anchor_generation n' = Some g \<longrightarrow> n' \<noteq> n \<longrightarrow>
       (\<exists>x. registry_map E d (identity x) = Some x \<and> identity x \<noteq> identity r \<and> r_generation x = g) \<longrightarrow>
       files d' n' = files d n')"
proof -
  obtain rs where rs: "registry_routes E d = Inr rs" "distinct (map identity rs)"
    "registry_map E d = row_map identity rs"
    using assms(1) by (rule registry_okE)
  define n where "n = lit ''owner-'' @ r_generation r @ lit ''.json''"
  have u: "uuid_shape (r_generation r)" using assms(2) by (simp add: route_storable_def route_valid_def)
  then have n: "owner_anchor_name (r_generation r) = Inr n" "anchor_generation n = Some (r_generation r)"
    by (auto simp: owner_anchor_name_def n_def res_simps valid_simps anchor_generation_name)
  define d1 where "d1 = atomic_json E d n (JObj a)"
  define d' where "d' = registry_write E d1 (filter (\<lambda>x. identity x \<noteq> identity r) rs @ [r])"
  have up: "registry_upsert E d r (Some a) = Inr d'"
    by (simp add: registry_upsert_def rs publish_owner_anchor_def n d'_def d1_def)
  have f: "files d' n = Some \<lparr>is_private = True, data = json_payload E (JObj a)\<rparr>"
    by (simp add: d'_def anchors_write [OF n(2)] d1_def)
  have "read_private_json E d' n m \<lparr>is_private = True, data = json_payload E (JObj a)\<rparr> = Inr (sort_keys (JObj a))"
    using f loads_payload [OF assms(3), of E True]
    by (simp add: read_private_json_def require_private_file_def del: sort_keys.simps)
  moreover have "files d' n' = files d n'" if "anchor_generation n' = Some g" "n' \<noteq> n"
    "row_map identity rs (identity x) = Some x" "identity x \<noteq> identity r" "r_generation x = g" for n' g x
    using that row_map_Some_iff [OF rs(2)] by (auto simp: d'_def anchors_write d1_def)
  ultimately show ?thesis
    using up f n rs(3) by (auto simp del: sort_keys.simps)
qed

theorem upsert_anchor_witness:
  "\<exists>d' n. registry_upsert sample_env empty_dir sample_route (Some []) = Inr d' \<and>
    owner_anchor_name (sample_uuid 50) = Inr n \<and> files d' n \<noteq> None"
proof -
  have "r_generation sample_route = sample_uuid 50" by (simp add: sample_route_def)
  then show ?thesis
    using upsert_anchor [OF empty_registry(1) sample_route_storable, of "[]" "[]"] by fastforce
qed

end
