(* ===== verification/Intents.thy ===== *)
theory Intents
  imports Routes
begin

text \<open>
  \<open>Intent\<close> and \<open>IntentStore\<close> of core.py: the durable, content-free record of every delivery,
  and the state machine of its status. Also \<open>authenticate_sender\<close>. Every operation runs under
  the intents lock, so it is one transition of the directory; an operation that raises leaves
  the directory as it was and returns no new one.
\<close>

section \<open>Intent\<close>

datatype intent_status =
  PENDING | REMOTE_AUTHORIZED | PRE_EFFECT_REJECTED | TRANSPORT_ACCEPTED | UNKNOWN_DELIVERY
| RESOLVED_BY_OWNER

fun status_str :: "intent_status \<Rightarrow> str" where
  "status_str PENDING = lit ''PENDING''"
| "status_str REMOTE_AUTHORIZED = lit ''REMOTE_AUTHORIZED''"
| "status_str PRE_EFFECT_REJECTED = lit ''PRE_EFFECT_REJECTED''"
| "status_str TRANSPORT_ACCEPTED = lit ''TRANSPORT_ACCEPTED''"
| "status_str UNKNOWN_DELIVERY = lit ''UNKNOWN_DELIVERY''"
| "status_str RESOLVED_BY_OWNER = lit ''RESOLVED_BY_OWNER''"

definition status_of :: "str \<Rightarrow> intent_status option" where
  "status_of s = find (\<lambda>t. status_str t = s)
     [PENDING, REMOTE_AUTHORIZED, PRE_EFFECT_REJECTED, TRANSPORT_ACCEPTED, UNKNOWN_DELIVERY,
      RESOLVED_BY_OWNER]"

lemma status_of_str [simp]: "status_of (status_str t) = Some t"
  by (cases t) (simp_all add: status_of_def)

lemma status_of_Some [simp]: "status_of s = Some t \<longleftrightarrow> s = status_str t"
  by (cases t) (auto simp: status_of_def split: if_splits)

record intent =
  i_schema_version :: int
  i_event_id :: str
  i_source_key :: str
  i_source_generation :: str
  i_source_alias :: str
  i_target_key :: str
  i_target_generation :: str
  i_payload_digest :: str
  i_status :: intent_status
  i_timestamp :: str

definition intent_fields :: "string list" where
  "intent_fields = [''schema_version'', ''event_id'', ''source_key'', ''source_generation'',
     ''source_alias'', ''target_key'', ''target_generation'', ''payload_digest'', ''status'',
     ''timestamp'']"

text \<open>
  The version is compared with Python's \<^verbatim>\<open>!=\<close>, so \<^verbatim>\<open>true\<close> and \<^verbatim>\<open>1.0\<close> pass for 1; the
  constructed row has 1.
\<close>

definition intent_from_object :: "pyenv \<Rightarrow> json \<Rightarrow> intent res" where
  "intent_from_object E raw =
     (let m = ''intent schema is unsupported'' in
      case raw of
        JObj d \<Rightarrow>
          if \<not> has_keys d intent_fields then fail m
          else if \<not> field_eq_int d ''schema_version'' SCHEMA_VERSION then fail m
          else
            bind (get_str m d ''event_id'') (\<lambda>event_id.
            bind (get_str m d ''source_key'') (\<lambda>source_key.
            bind (get_str m d ''source_generation'') (\<lambda>source_generation.
            bind (get_str m d ''source_alias'') (\<lambda>source_alias.
            bind (get_str m d ''target_key'') (\<lambda>target_key.
            bind (get_str m d ''target_generation'') (\<lambda>target_generation.
            bind (get_str m d ''payload_digest'') (\<lambda>payload_digest.
            bind (get_str m d ''status'') (\<lambda>status_text.
            bind (get_str m d ''timestamp'') (\<lambda>timestamp.
            case status_of status_text of
              None \<Rightarrow> fail m
            | Some status \<Rightarrow>
                bind (valid_uuid event_id ''event id'') (\<lambda>_.
                bind (valid_uuid source_generation ''source generation'') (\<lambda>_.
                bind (valid_uuid target_generation ''target generation'') (\<lambda>_.
                bind (valid_name E source_alias ''source alias'') (\<lambda>_.
                if \<not> hex64 source_key \<or> \<not> hex64 target_key \<or> \<not> hex64 payload_digest then fail m
                else
                  bind (parse_timestamp E timestamp) (\<lambda>_.
                  Inr \<lparr>i_schema_version = SCHEMA_VERSION, i_event_id = event_id,
                       i_source_key = source_key, i_source_generation = source_generation,
                       i_source_alias = source_alias, i_target_key = target_key,
                       i_target_generation = target_generation, i_payload_digest = payload_digest,
                       i_status = status, i_timestamp = timestamp\<rparr>))))))))))))))
      | _ \<Rightarrow> fail m)"

definition intent_dict :: "intent \<Rightarrow> dict" where
  "intent_dict i =
     [(lit ''schema_version'', JInt (i_schema_version i)),
      (lit ''event_id'', JStr (i_event_id i)),
      (lit ''source_key'', JStr (i_source_key i)),
      (lit ''source_generation'', JStr (i_source_generation i)),
      (lit ''source_alias'', JStr (i_source_alias i)),
      (lit ''target_key'', JStr (i_target_key i)),
      (lit ''target_generation'', JStr (i_target_generation i)),
      (lit ''payload_digest'', JStr (i_payload_digest i)),
      (lit ''status'', JStr (status_str (i_status i))),
      (lit ''timestamp'', JStr (i_timestamp i))]"

definition intent_to_dict :: "intent \<Rightarrow> json" where
  "intent_to_dict i = JObj (intent_dict i)"

definition intent_valid :: "pyenv \<Rightarrow> intent \<Rightarrow> bool" where
  "intent_valid E i \<longleftrightarrow>
     i_schema_version i = 1 \<and> uuid_shape (i_event_id i) \<and> uuid_shape (i_source_generation i) \<and>
     uuid_shape (i_target_generation i) \<and> name_shape E (i_source_alias i) \<and>
     hex64 (i_source_key i) \<and> hex64 (i_target_key i) \<and> hex64 (i_payload_digest i) \<and>
     is_ok (parse_timestamp E (i_timestamp i))"

definition intent_storable :: "pyenv \<Rightarrow> intent \<Rightarrow> bool" where
  "intent_storable E i \<longleftrightarrow>
     intent_valid E i \<and> list_all is_scalar (i_source_alias i) \<and> list_all is_scalar (i_timestamp i)"

lemma is_hex_scalar: "is_hex c \<Longrightarrow> is_scalar c"
  by (auto simp: is_hex_def is_digit_def intro!: scalar_small)

lemma hex64_scalar: "hex64 s \<Longrightarrow> list_all is_scalar s"
  by (auto simp: hex64_def list_all_iff is_hex_scalar)

lemma uuid_scalar: "uuid_shape s \<Longrightarrow> list_all is_scalar s"
  using uuid_shape_alnum [of s] by (auto simp: list_all_iff is_hex_scalar scalar_small)

lemma status_scalar: "list_all is_scalar (status_str t)"
  by (cases t) simp_all

lemma scalar_printable: "list_all is_scalar s \<Longrightarrow> list_all (printable a) s"
  by (auto simp: list_all_iff is_scalar_printable)

lemma printable_lit [simp]: "list_all (printable a) (lit s)"
  by (rule scalar_printable) simp

lemma int_fits_1 [simp]: "int_fits 1"
  by (simp add: int_fits_def int_max_str_digits_def dec_str.simps)

lemma intent_plain: "intent_storable E i \<Longrightarrow> plain True (intent_to_dict i)"
  by (auto simp: intent_storable_def intent_valid_def intent_to_dict_def intent_dict_def status_scalar
      hex64_scalar uuid_scalar intro!: scalar_printable)

lemma intent_eta:
  "\<lparr>i_schema_version = i_schema_version i, i_event_id = i_event_id i, i_source_key = i_source_key i,
    i_source_generation = i_source_generation i, i_source_alias = i_source_alias i,
    i_target_key = i_target_key i, i_target_generation = i_target_generation i,
    i_payload_digest = i_payload_digest i, i_status = i_status i, i_timestamp = i_timestamp i\<rparr> = i"
  by (cases i) simp

lemma intent_from_object_dict:
  assumes "intent_valid E i"
  shows "intent_from_object E (JObj (intent_dict i)) = Inr i"
proof -
  have keys: "has_keys (intent_dict i) intent_fields"
    by (simp add: has_keys_def intent_dict_def intent_fields_def)
  have fields: "field_eq_int (intent_dict i) ''schema_version'' (i_schema_version i)"
    "get_str m (intent_dict i) ''event_id'' = Inr (i_event_id i)"
    "get_str m (intent_dict i) ''source_key'' = Inr (i_source_key i)"
    "get_str m (intent_dict i) ''source_generation'' = Inr (i_source_generation i)"
    "get_str m (intent_dict i) ''source_alias'' = Inr (i_source_alias i)"
    "get_str m (intent_dict i) ''target_key'' = Inr (i_target_key i)"
    "get_str m (intent_dict i) ''target_generation'' = Inr (i_target_generation i)"
    "get_str m (intent_dict i) ''payload_digest'' = Inr (i_payload_digest i)"
    "get_str m (intent_dict i) ''status'' = Inr (status_str (i_status i))"
    "get_str m (intent_dict i) ''timestamp'' = Inr (i_timestamp i)" for m
    by (simp_all add: res_simps intent_dict_def field_eq_int_def)
  have v: "valid_uuid (i_event_id i) f = Inr (i_event_id i)"
    "valid_uuid (i_source_generation i) f = Inr (i_source_generation i)"
    "valid_uuid (i_target_generation i) f = Inr (i_target_generation i)"
    "valid_name E (i_source_alias i) f = Inr (i_source_alias i)"
    "hex64 (i_source_key i)" "hex64 (i_target_key i)" "hex64 (i_payload_digest i)"
    "i_schema_version i = 1" for f
    using assms by (simp_all add: intent_valid_def valid_simps)
  obtain t where t: "parse_timestamp E (i_timestamp i) = Inr t"
    using assms by (auto simp: intent_valid_def is_ok_iff)
  show ?thesis
    using intent_eta [of i] fields(1) by (simp add: intent_from_object_def keys fields v t SCHEMA_VERSION_def)
qed

lemma intent_from_object_sorted:
  "distinct (map fst d) \<Longrightarrow> intent_from_object E (JObj (sort_dict d)) = intent_from_object E (JObj d)"
  by (simp add: intent_from_object_def Let_def sorted_getters)

lemma intent_from_object_valid: "intent_from_object E v = Inr i \<Longrightarrow> intent_valid E i"
  by (auto simp: intent_from_object_def Let_def res_simps valid_simps intent_valid_def is_ok_iff
      SCHEMA_VERSION_def split: json.splits option.splits if_splits)

interpretation intents_json: json_table "intent_storable E" intent_to_dict "intent_from_object E" for E
proof
  show "intent_storable E i \<Longrightarrow> plain True (intent_to_dict i)" for i by (rule intent_plain)
  show "intent_from_object E (sort_keys (intent_to_dict i)) = Inr i" if "intent_storable E i" for i
    using that intent_from_object_dict [of E i] intent_from_object_sorted [of "intent_dict i" E]
    by (simp add: intent_storable_def intent_to_dict_def intent_dict_def)
qed

section \<open>IntentStore\<close>

definition intents_json :: str where "intents_json = lit ''intents.json''"

definition intents :: "pyenv \<Rightarrow> dir \<Rightarrow> intent list res" where
  "intents E d =
     (case files d intents_json of
        None \<Rightarrow> Inr []
      | Some f \<Rightarrow>
          bind (read_private_json E d intents_json ''intent state is invalid'' f) (\<lambda>raw.
          bind (rows_of (intent_from_object E) ''intent schema is unsupported'' raw) (\<lambda>rows.
          if has_duplicates (map i_event_id rows) then fail ''intent state contains duplicate events''
          else Inr rows)))"

definition intents_write :: "pyenv \<Rightarrow> dir \<Rightarrow> intent list \<Rightarrow> dir" where
  "intents_write E d rows = atomic_json E d intents_json (JArr (map intent_to_dict rows))"

definition intent_for_source :: "pyenv \<Rightarrow> dir \<Rightarrow> str \<Rightarrow> str \<Rightarrow> str \<Rightarrow> intent option res" where
  "intent_for_source E d event_id source_key source_generation =
     bind (valid_uuid event_id ''event id'') (\<lambda>identifier.
     bind (valid_uuid source_generation ''source generation'') (\<lambda>_.
     if \<not> hex64 source_key then fail ''source key is invalid''
     else
       bind (intents E d) (\<lambda>rows.
       case filter (\<lambda>i. i_event_id i = identifier \<and> i_source_key i = source_key \<and>
                        i_source_generation i = source_generation) rows of
         [] \<Rightarrow> Inr None
       | [i] \<Rightarrow> Inr (Some i)
       | _ \<Rightarrow> fail ''intent state contains duplicate events'')))"

fun unresolved_status :: "intent_status \<Rightarrow> bool" where
  "unresolved_status PENDING = True"
| "unresolved_status REMOTE_AUTHORIZED = True"
| "unresolved_status _ = False"

text \<open>\<^verbatim>\<open>min(xs, key=f)\<close>: the first of the least ones; and \<^verbatim>\<open>int(x)\<close>, towards zero.\<close>

fun min_by :: "('a \<Rightarrow> rat) \<Rightarrow> 'a \<Rightarrow> 'a list \<Rightarrow> 'a" where
  "min_by f x [] = x"
| "min_by f x (y # ys) = (if f y < f x then min_by f y ys else min_by f x ys)"

definition int_of_rat :: "rat \<Rightarrow> int" where
  "int_of_rat r = (if 0 \<le> r then floor r else ceiling r)"

definition blocked_message :: "intent \<Rightarrow> rat \<Rightarrow> str" where
  "blocked_message blocker age =
     lit ''target has an unresolved delivery intent from this sender: event '' @ i_event_id blocker @
     lit '' is still '' @ status_str (i_status blocker) @ lit '' ('' @ int_str (int_of_rat age) @
     (if ABANDONED_INTENT_SECONDS \<le> age
      then lit ''s old -- age alone does not prove its send finished or failed); this attempt created no intent and sent nothing; it refuses only another send from this session to this target, so unrelated work still proceeds; if you accept that event's uncertain outcome, record your disposition with `cross-agent-chat resolve ''
           @ i_event_id blocker @
           lit ''` -- a disposition cancels nothing and does not make that work safe to send again''
      else lit ''s old); this attempt created no intent and sent nothing; do not resend that event -- wait for its recorded result before sending again'')"

definition begin_identity ::
  "pyenv \<Rightarrow> rat \<Rightarrow> str \<Rightarrow> dir \<Rightarrow> str \<Rightarrow> str \<Rightarrow> str \<Rightarrow> str \<Rightarrow> str \<Rightarrow> str \<Rightarrow> str option \<Rightarrow> (str \<times> dir) res" where
  "begin_identity E now uuid4 d source_key source_generation source_alias target_key
       target_generation payload_digest event_id =
     bind (case event_id of None \<Rightarrow> Inr uuid4 | Some e \<Rightarrow> valid_uuid e ''event id'') (\<lambda>identifier.
     if \<not> hex64 source_key then fail ''source key is invalid''
     else if \<not> hex64 target_key then fail ''target key is invalid''
     else if \<not> hex64 payload_digest then fail ''message digest is invalid''
     else
       bind (valid_uuid source_generation ''source generation'') (\<lambda>_.
       bind (valid_name E source_alias ''source alias'') (\<lambda>_.
       bind (valid_uuid target_generation ''target generation'') (\<lambda>_.
       bind (intents E d) (\<lambda>existing.
       if list_ex (\<lambda>i. i_event_id i = identifier) existing then fail ''event id is unavailable''
       else
         bind (map_res (\<lambda>i. bind (intent_age_seconds E now (i_timestamp i)) (\<lambda>a. Inr (i, a)))
                (filter (\<lambda>i. i_source_key i = source_key \<and> i_target_key i = target_key \<and>
                             unresolved_status (i_status i)) existing)) (\<lambda>unresolved.
         case unresolved of
           p # ps \<Rightarrow>
             (let blocker = min_by snd p ps in
              Inl (ChatError (blocked_message (fst blocker) (snd blocker))))
         | [] \<Rightarrow>
             Inr (identifier,
                  intents_write E d (existing @
                    [\<lparr>i_schema_version = SCHEMA_VERSION, i_event_id = identifier,
                      i_source_key = source_key, i_source_generation = source_generation,
                      i_source_alias = source_alias, i_target_key = target_key,
                      i_target_generation = target_generation, i_payload_digest = payload_digest,
                      i_status = PENDING, i_timestamp = isoformat E now\<rparr>]))))))))"

definition intent_begin ::
  "pyenv \<Rightarrow> rat \<Rightarrow> str \<Rightarrow> dir \<Rightarrow> route \<Rightarrow> route \<Rightarrow> str \<Rightarrow> str \<Rightarrow> str option \<Rightarrow> (str \<times> dir) res" where
  "intent_begin E now uuid4 d source target source_alias payload_digest event_id =
     bind (session_key E (r_provider source) (r_session_id source)) (\<lambda>sk.
     bind (session_key E (r_provider target) (r_session_id target)) (\<lambda>tk.
     begin_identity E now uuid4 d sk (r_generation source) source_alias tk (r_generation target)
       payload_digest event_id))"

definition set_status :: "pyenv \<Rightarrow> rat \<Rightarrow> str \<Rightarrow> intent_status \<Rightarrow> intent \<Rightarrow> intent" where
  "set_status E now event_id status i =
     (if i_event_id i = event_id then i\<lparr>i_status := status, i_timestamp := isoformat E now\<rparr> else i)"

definition claim_remote_authorization ::
  "pyenv \<Rightarrow> rat \<Rightarrow> dir \<Rightarrow> str \<Rightarrow> str \<Rightarrow> str \<Rightarrow> str \<Rightarrow> str \<Rightarrow> str \<Rightarrow> (bool \<times> dir) res" where
  "claim_remote_authorization E now d event_id source_generation source_alias target_key
       target_generation payload_digest =
     bind (valid_uuid event_id ''event id'') (\<lambda>_.
     bind (valid_uuid source_generation ''source generation'') (\<lambda>_.
     bind (valid_name E source_alias ''source alias'') (\<lambda>_.
     bind (valid_uuid target_generation ''target generation'') (\<lambda>_.
     if \<not> hex64 target_key then fail ''target key is invalid''
     else if \<not> hex64 payload_digest then fail ''message digest is invalid''
     else
       bind (intents E d) (\<lambda>existing.
       if length (filter (\<lambda>i. i_event_id i = event_id \<and> i_source_generation i = source_generation \<and>
              i_source_alias i = source_alias \<and> i_target_key i = target_key \<and>
              i_target_generation i = target_generation \<and> i_payload_digest i = payload_digest \<and>
              i_status i = PENDING) existing) \<noteq> 1
       then Inr (False, d)
       else Inr (True, intents_write E d (map (set_status E now event_id REMOTE_AUTHORIZED) existing)))))))"

definition require_one :: "intent list \<Rightarrow> str \<Rightarrow> intent res" where
  "require_one existing event_id =
     (case the_one (\<lambda>i. i_event_id i = event_id) existing of
        None \<Rightarrow> fail ''intent is unavailable'' | Some i \<Rightarrow> Inr i)"

definition write_status :: "pyenv \<Rightarrow> rat \<Rightarrow> dir \<Rightarrow> intent list \<Rightarrow> str \<Rightarrow> intent_status \<Rightarrow> dir" where
  "write_status E now d existing event_id status =
     intents_write E d (map (set_status E now event_id status) existing)"

definition mark :: "pyenv \<Rightarrow> rat \<Rightarrow> dir \<Rightarrow> str \<Rightarrow> intent_status \<Rightarrow> dir res" where
  "mark E now d event_id status =
     bind (valid_uuid event_id ''event id'') (\<lambda>_.
     bind (intents E d) (\<lambda>existing.
     bind (require_one existing event_id) (\<lambda>_.
     Inr (write_status E now d existing event_id status))))"

definition resolve_by_owner :: "pyenv \<Rightarrow> rat \<Rightarrow> dir \<Rightarrow> str \<Rightarrow> (intent_status \<times> dir) res" where
  "resolve_by_owner E now d event_id =
     bind (valid_uuid event_id ''event id'') (\<lambda>_.
     bind (intents E d) (\<lambda>existing.
     bind (require_one existing event_id) (\<lambda>current.
     if i_status current = RESOLVED_BY_OWNER then Inr (i_status current, d)
     else if i_status current \<notin> {UNKNOWN_DELIVERY, PENDING, REMOTE_AUTHORIZED}
     then Inl (ChatError (lit ''event '' @ event_id @ lit '' is '' @ status_str (i_status current) @
            lit '', which is already decided; nothing to resolve''))
     else
       bind (if i_status current \<in> {PENDING, REMOTE_AUTHORIZED}
             then bind (intent_age_seconds E now (i_timestamp current)) (\<lambda>age.
               if age < ABANDONED_INTENT_SECONDS
               then Inl (ChatError (lit ''event '' @ event_id @ lit '' is '' @
                      status_str (i_status current) @ lit '' and only '' @ int_str (int_of_rat age) @
                      lit ''s old, so it may still be in flight; wait until it is at least '' @
                      int_str (int_of_rat ABANDONED_INTENT_SECONDS) @
                      lit ''s old -- a heuristic orphan test, not proof the send is gone -- then resolve''))
               else Inr ())
             else Inr ()) (\<lambda>_.
       Inr (i_status current, write_status E now d existing event_id RESOLVED_BY_OWNER)))))"

section \<open>The sender\<close>

definition capitalised :: "provider \<Rightarrow> str" where
  "capitalised p = (case p of Claude \<Rightarrow> lit ''Claude'' | Codex \<Rightarrow> lit ''Codex'' | Devin \<Rightarrow> lit ''Devin'')"

definition authenticate_sender :: "route list \<Rightarrow> str \<Rightarrow> int \<Rightarrow> str option \<Rightarrow> route res" where
  "authenticate_sender routes provider parent_pid host_thread_id =
     (case provider_of provider of
        None \<Rightarrow> fail ''sender provider is invalid''
      | Some p \<Rightarrow>
          if p = Claude \<or> p = Devin then
            (case the_one (\<lambda>r. r_provider r = p \<and> r_pid r = parent_pid) routes of
               None \<Rightarrow> Inl (ChatError (lit ''exact '' @ capitalised p @ lit '' sender is unavailable''))
             | Some r \<Rightarrow> Inr r)
          else
            (case host_thread_id of
               None \<Rightarrow> fail ''Codex host thread identity is required''
             | Some t \<Rightarrow>
                 bind (valid_uuid t ''Codex host thread identity'') (\<lambda>identifier.
                 case the_one (\<lambda>r. r_provider r = Codex \<and> r_session_id r = identifier \<and>
                                   r_pid r = parent_pid) routes of
                   None \<Rightarrow> fail ''exact Codex sender is unavailable''
                 | Some r \<Rightarrow> Inr r)))"

section \<open>What the operations do to the rows\<close>

definition intents_ok :: "pyenv \<Rightarrow> dir \<Rightarrow> bool" where
  "intents_ok E d = (case intents E d of Inl _ \<Rightarrow> False | Inr rows \<Rightarrow> list_all (intent_storable E) rows)"

definition rows_of_dir :: "pyenv \<Rightarrow> dir \<Rightarrow> intent list" where
  "rows_of_dir E d = (case intents E d of Inl _ \<Rightarrow> [] | Inr rows \<Rightarrow> rows)"

lemma intents_distinct: "intents E d = Inr rows \<Longrightarrow> distinct (map i_event_id rows)"
  by (auto simp: intents_def res_simps has_duplicates_def split: option.splits)

lemma intents_okD:
  assumes "intents_ok E d"
  shows "intents E d = Inr (rows_of_dir E d)" "list_all (intent_storable E) (rows_of_dir E d)"
    "distinct (map i_event_id (rows_of_dir E d))"
  using assms intents_distinct by (auto simp: intents_ok_def rows_of_dir_def split: sum.splits)

lemma intents_write_read:
  assumes "list_all (intent_storable E) rows" and "distinct (map i_event_id rows)"
  shows "intents E (intents_write E d rows) = Inr rows"
  using intents_json.table_read_written [OF assms(1), of E d intents_json] assms(2)
  by (auto simp: intents_def intents_write_def res_simps has_duplicates_def)

lemma intents_write_ok:
  assumes "list_all (intent_storable E) rows" and "distinct (map i_event_id rows)"
  shows "intents_ok E (intents_write E d rows)" "rows_of_dir E (intents_write E d rows) = rows"
  using intents_write_read [OF assms, of d] assms(1) by (simp_all add: intents_ok_def rows_of_dir_def)

lemma set_status_event [simp]: "i_event_id (set_status E now e st i) = i_event_id i"
  by (simp add: set_status_def)

lemma set_status_storable: "env_ok E \<Longrightarrow> intent_storable E i \<Longrightarrow> intent_storable E (set_status E now e st i)"
  by (auto simp: set_status_def intent_storable_def intent_valid_def) (simp add: env_ok_def)

lemma set_status_write:
  assumes "env_ok E" and "intents_ok E d"
  shows "intents_ok E (write_status E now d (rows_of_dir E d) e st)"
    "rows_of_dir E (write_status E now d (rows_of_dir E d) e st) =
       map (set_status E now e st) (rows_of_dir E d)"
proof -
  have "list_all (intent_storable E) (map (set_status E now e st) (rows_of_dir E d))"
    using set_status_storable [OF assms(1)] intents_okD(2) [OF assms(2)] by (simp add: list_all_iff)
  moreover have "distinct (map i_event_id (map (set_status E now e st) (rows_of_dir E d)))"
    using intents_okD(3) [OF assms(2)] by (simp add: comp_def)
  ultimately show "intents_ok E (write_status E now d (rows_of_dir E d) e st)"
    "rows_of_dir E (write_status E now d (rows_of_dir E d) e st) =
       map (set_status E now e st) (rows_of_dir E d)"
    unfolding write_status_def by (rule intents_write_ok)+
qed

lemma require_one_iff: "require_one rows e = Inr i \<longleftrightarrow> filter (\<lambda>i. i_event_id i = e) rows = [i]"
  by (auto simp: require_one_def the_one_Some_iff [symmetric] split: option.splits)

lemma require_one_member: "require_one rows e = Inr i \<Longrightarrow> i \<in> set rows \<and> i_event_id i = e"
  unfolding require_one_iff by (rule filter_length1_hd)

text \<open>
  The three ways a row table can change: nothing, one fresh \<open>PENDING\<close> row for a pair that has
  no undecided one, or a new status for one existing row.
\<close>

definition unblocked :: "intent list \<Rightarrow> str \<Rightarrow> str \<Rightarrow> bool" where
  "unblocked rows sk tk \<longleftrightarrow>
     list_all (\<lambda>i. \<not> (i_source_key i = sk \<and> i_target_key i = tk \<and> unresolved_status (i_status i))) rows"

lemma list_case_Inl: "(case xs of [] \<Rightarrow> r | p # ps \<Rightarrow> Inl (f p ps)) = Inr z \<longleftrightarrow> xs = [] \<and> r = Inr z"
  by (cases xs) auto

lemma begin_rows:
  assumes "env_ok E" "intents_ok E d" "list_all is_code_point source_alias" "uuid_shape uuid4"
    and "begin_identity E now uuid4 d sk sg source_alias tk tg digest eid = Inr (e, d')"
  shows "\<exists>i. intents_ok E d' \<and> rows_of_dir E d' = rows_of_dir E d @ [i] \<and> i_event_id i = e \<and>
    e \<notin> i_event_id ` set (rows_of_dir E d) \<and> i_status i = PENDING \<and> i_source_key i = sk \<and>
    i_target_key i = tk \<and> i_source_generation i = sg \<and> i_target_generation i = tg \<and>
    i_payload_digest i = digest \<and> i_source_alias i = source_alias \<and> unblocked (rows_of_dir E d) sk tk"
proof -
  note ok = intents_okD [OF assms(2)]
  define i where "i = \<lparr>i_schema_version = SCHEMA_VERSION, i_event_id = e, i_source_key = sk,
    i_source_generation = sg, i_source_alias = source_alias, i_target_key = tk,
    i_target_generation = tg, i_payload_digest = digest, i_status = PENDING,
    i_timestamp = isoformat E now\<rparr>"
  have v: "hex64 sk" "hex64 tk" "hex64 digest" "uuid_shape sg" "uuid_shape tg" "uuid_shape e"
    "name_shape E source_alias" and fresh: "e \<notin> i_event_id ` set (rows_of_dir E d)"
    and d': "d' = intents_write E d (rows_of_dir E d @ [i])"
    and none: "filter (\<lambda>i. i_source_key i = sk \<and> i_target_key i = tk \<and> unresolved_status (i_status i))
      (rows_of_dir E d) = []"
    using assms(4,5) unfolding begin_identity_def ok(1)
    by (auto simp: res_simps valid_simps i_def list_ex_iff Let_def ok(1) list_case_Inl
        split: option.splits if_splits dest!: map_res_length)
  have "list_all is_scalar source_alias"
    using v(7) assms(3) by (auto simp: name_shape_def list_all_iff is_scalar_def)
  then have "intent_storable E i"
    using v assms(1) by (simp add: i_def intent_storable_def intent_valid_def SCHEMA_VERSION_def)
      (simp add: env_ok_def)
  moreover have "i_event_id i = e" by (simp add: i_def)
  ultimately have "intents_ok E d'" "rows_of_dir E d' = rows_of_dir E d @ [i]"
    unfolding d' using ok fresh intents_write_ok [of E "rows_of_dir E d @ [i]" d] by auto
  then show ?thesis
    using fresh none by (intro exI [of _ i])
      (auto simp: i_def unblocked_def list_all_iff filter_empty_conv)
qed

lemma claim_rows:
  assumes "env_ok E" "intents_ok E d"
    and "claim_remote_authorization E now d e sg alias tk tg digest = Inr (b, d')"
  shows "if b then \<exists>i \<in> set (rows_of_dir E d). i_event_id i = e \<and> i_status i = PENDING \<and>
             i_source_generation i = sg \<and> i_source_alias i = alias \<and> i_target_key i = tk \<and>
             i_target_generation i = tg \<and> i_payload_digest i = digest \<and>
             intents_ok E d' \<and> rows_of_dir E d' = map (set_status E now e REMOTE_AUTHORIZED) (rows_of_dir E d)
         else d' = d"
proof (cases b)
  case False
  with assms(3) show ?thesis
    by (auto simp: claim_remote_authorization_def res_simps split: if_splits)
next
  case True
  let ?P = "\<lambda>i. i_event_id i = e \<and> i_source_generation i = sg \<and>
              i_source_alias i = alias \<and> i_target_key i = tk \<and>
              i_target_generation i = tg \<and> i_payload_digest i = digest \<and>
              i_status i = PENDING"
  from True assms(3) have "length (filter ?P (rows_of_dir E d)) = 1"
    and d': "d' = write_status E now d (rows_of_dir E d) e REMOTE_AUTHORIZED"
    using intents_okD(1) [OF assms(2)]
    by (auto simp: claim_remote_authorization_def write_status_def res_simps split: if_splits)
  then obtain i where "filter ?P (rows_of_dir E d) = [i]"
    by (auto simp: length_Suc_conv)
  then have "i \<in> set (rows_of_dir E d)" "?P i" by (auto dest: filter_length1_hd)
  with True d' set_status_write [OF assms(1,2)] show ?thesis by auto
qed

lemma mark_rows:
  assumes "env_ok E" "intents_ok E d" and "mark E now d e st = Inr d'"
  shows "intents_ok E d'" "rows_of_dir E d' = map (set_status E now e st) (rows_of_dir E d)"
    "e \<in> i_event_id ` set (rows_of_dir E d)"
proof -
  have "d' = write_status E now d (rows_of_dir E d) e st"
    and m: "\<exists>i. require_one (rows_of_dir E d) e = Inr i"
    using assms(3) intents_okD(1) [OF assms(2)] by (auto simp: mark_def res_simps)
  with set_status_write [OF assms(1,2)] show "intents_ok E d'"
    "rows_of_dir E d' = map (set_status E now e st) (rows_of_dir E d)" by auto
  from m show "e \<in> i_event_id ` set (rows_of_dir E d)" by (auto dest: require_one_member)
qed

lemma resolve_rows:
  assumes "env_ok E" "intents_ok E d" and "resolve_by_owner E now d e = Inr (prior, d')"
  obtains i where "i \<in> set (rows_of_dir E d)" "i_event_id i = e" "i_status i = prior"
    "prior \<in> {UNKNOWN_DELIVERY, PENDING, REMOTE_AUTHORIZED, RESOLVED_BY_OWNER}"
    "prior \<in> {PENDING, REMOTE_AUTHORIZED} \<longrightarrow>
       (\<exists>t. parse_timestamp E (i_timestamp i) = Inr t \<and> 600 \<le> now - t)"
    "if prior = RESOLVED_BY_OWNER then d' = d
     else intents_ok E d' \<and> rows_of_dir E d' = map (set_status E now e RESOLVED_BY_OWNER) (rows_of_dir E d)"
proof -
  obtain i where i: "require_one (rows_of_dir E d) e = Inr i"
    using assms(3) intents_okD(1) [OF assms(2)] by (auto simp: resolve_by_owner_def res_simps)
  note ok = intents_okD(1) [OF assms(2)]
  have mem: "i \<in> set (rows_of_dir E d)" "i_event_id i = e" using require_one_member [OF i] by auto
  have st: "i_status i = prior" "prior \<in> {UNKNOWN_DELIVERY, PENDING, REMOTE_AUTHORIZED, RESOLVED_BY_OWNER}"
    using assms(3) i by (auto simp: resolve_by_owner_def ok res_simps split: if_splits)
  have age: "\<exists>t. parse_timestamp E (i_timestamp i) = Inr t \<and> 600 \<le> now - t"
    if "prior \<in> {PENDING, REMOTE_AUTHORIZED}"
    using assms(3) i that st(1)
    by (auto simp: resolve_by_owner_def ok res_simps intent_age_seconds_def ABANDONED_INTENT_SECONDS_def
        not_less split: if_splits)
  have d': "if prior = RESOLVED_BY_OWNER then d' = d else d' = write_status E now d (rows_of_dir E d) e RESOLVED_BY_OWNER"
    using assms(3) i st(1) by (auto simp: resolve_by_owner_def ok res_simps split: if_splits)
  show thesis
    using d' set_status_write [OF assms(1,2)] age by (intro that [OF mem st]) auto
qed

section \<open>The state machine of the intents\<close>

text \<open>
  One step is one successful operation, by any process, at any time: a sender begins an
  intent, a remote host claims it, a sender records an outcome (the program only ever marks
  \<open>PRE_EFFECT_REJECTED\<close>, \<open>TRANSPORT_ACCEPTED\<close> and \<open>UNKNOWN_DELIVERY\<close>), the owner resolves it.
\<close>

fun outcome_status :: "intent_status \<Rightarrow> bool" where
  "outcome_status PRE_EFFECT_REJECTED = True"
| "outcome_status TRANSPORT_ACCEPTED = True"
| "outcome_status UNKNOWN_DELIVERY = True"
| "outcome_status _ = False"

lemma outcome_resolved: "outcome_status st \<Longrightarrow> \<not> unresolved_status st"
  by (cases st) auto

inductive intent_step :: "pyenv \<Rightarrow> dir \<Rightarrow> dir \<Rightarrow> bool" for E where
  step_begin: "list_all is_code_point alias \<Longrightarrow> uuid_shape uuid4 \<Longrightarrow>
    begin_identity E now uuid4 d sk sg alias tk tg digest eid = Inr (e, d') \<Longrightarrow> intent_step E d d'"
| step_claim: "claim_remote_authorization E now d e sg alias tk tg digest = Inr (b, d') \<Longrightarrow> intent_step E d d'"
| step_mark: "outcome_status st \<Longrightarrow> mark E now d e st = Inr d' \<Longrightarrow> intent_step E d d'"
| step_resolve: "resolve_by_owner E now d e = Inr (prior, d') \<Longrightarrow> intent_step E d d'"

text \<open>The change of the rows that a step is.\<close>

inductive row_step :: "pyenv \<Rightarrow> intent list \<Rightarrow> intent list \<Rightarrow> bool" for E where
  row_same: "row_step E rows rows"
| row_new: "i_event_id i \<notin> i_event_id ` set rows \<Longrightarrow> i_status i = PENDING \<Longrightarrow>
    unblocked rows (i_source_key i) (i_target_key i) \<Longrightarrow> row_step E rows (rows @ [i])"
| row_set: "i \<in> set rows \<Longrightarrow> i_event_id i = e \<Longrightarrow>
    (i_status i = PENDING \<and> st = REMOTE_AUTHORIZED) \<or> \<not> unresolved_status st \<Longrightarrow>
    row_step E rows (map (set_status E now e st) rows)"

inductive_cases row_stepE: "row_step E rows rows'"

lemma intent_step_rows:
  assumes E: "env_ok E" and ok: "intents_ok E d" and step: "intent_step E d d'"
  shows "intents_ok E d' \<and> row_step E (rows_of_dir E d) (rows_of_dir E d')"
  using step
proof cases
  case (step_begin al uuid4 now sk sg tk tg digest eid e)
  from begin_rows [OF E ok step_begin] show ?thesis by (auto intro!: row_new)
next
  case (step_claim now e sg al tk tg digest b)
  from claim_rows [OF E ok step_claim] ok show ?thesis
    by (cases b) (auto intro: row_same intro!: row_set)
next
  case (step_mark st now e)
  from mark_rows [OF E ok step_mark(2)] outcome_resolved [OF step_mark(1)] show ?thesis
    by (auto intro!: row_set)
next
  case (step_resolve now e prior)
  show ?thesis
    by (rule resolve_rows [OF E ok step_resolve])
      (auto intro: row_same ok intro!: row_set split: if_splits)
qed

text \<open>At most one undecided event per sender and recipient.\<close>

definition gate :: "intent list \<Rightarrow> bool" where
  "gate rows \<longleftrightarrow> distinct (map (\<lambda>i. (i_source_key i, i_target_key i))
                      (filter (\<lambda>i. unresolved_status (i_status i)) rows))"

lemma set_status_pair [simp]:
  "i_source_key (set_status E now e st i) = i_source_key i"
  "i_target_key (set_status E now e st i) = i_target_key i"
  by (simp_all add: set_status_def)

lemma subseq_map_filter:
  "(\<And>x. x \<in> set xs \<Longrightarrow> Q (f x) \<Longrightarrow> R x) \<Longrightarrow> (\<And>x. p (f x) = p x) \<Longrightarrow>
   subseq (map p (filter Q (map f xs))) (map p (filter R xs))"
  by (induction xs) auto

lemma subseq_distinctD: "subseq xs ys \<Longrightarrow> distinct ys \<Longrightarrow> distinct xs"
  by (auto simp: subseq_conv_nths)

lemma gate_set_status:
  assumes "distinct (map i_event_id rows)" "gate rows"
    and "(\<exists>i \<in> set rows. i_event_id i = e \<and> unresolved_status (i_status i)) \<or> \<not> unresolved_status st"
  shows "gate (map (set_status E now e st) rows)"
proof -
  let ?p = "\<lambda>i. (i_source_key i, i_target_key i)"
  have u: "unresolved_status (i_status i)"
    if "i \<in> set rows" "unresolved_status (i_status (set_status E now e st i))" for i
    using that assms(1,3) by (auto simp: set_status_def split: if_splits dest: distinct_map_eqD)
  have sub: "subseq (map ?p (filter (\<lambda>i. unresolved_status (i_status i)) (map (set_status E now e st) rows)))
     (map ?p (filter (\<lambda>i. unresolved_status (i_status i)) rows))"
    by (rule subseq_map_filter [where f = "set_status E now e st"]) (use u in simp_all)
  from subseq_distinctD [OF sub] assms(2) show ?thesis unfolding gate_def by blast
qed

lemma gate_new:
  assumes "gate rows" "unblocked rows (i_source_key i) (i_target_key i)"
  shows "gate (rows @ [i])"
  using assms by (auto simp: gate_def unblocked_def list_all_iff)

lemma row_step_gate:
  "row_step E rows rows' \<Longrightarrow> distinct (map i_event_id rows) \<Longrightarrow> gate rows \<Longrightarrow> gate rows'"
  by (erule row_stepE) (auto intro: gate_new intro!: gate_set_status)

text \<open>Everything but status and timestamp of a row is permanent.\<close>

definition intent_core :: "intent \<Rightarrow> str list" where
  "intent_core i = [i_event_id i, i_source_key i, i_source_generation i, i_source_alias i,
     i_target_key i, i_target_generation i, i_payload_digest i]"

lemma set_status_core [simp]: "intent_core (set_status E now e st i) = intent_core i"
  by (simp add: intent_core_def set_status_def)

lemma row_step_core: "row_step E rows rows' \<Longrightarrow> prefix (map intent_core rows) (map intent_core rows')"
  by (erule row_stepE) (auto simp: comp_def)

text \<open>An event that is no longer \<open>PENDING\<close> never is again.\<close>

definition left_pending :: "str \<Rightarrow> intent list \<Rightarrow> bool" where
  "left_pending e rows \<longleftrightarrow> e \<in> i_event_id ` set rows \<and>
     list_all (\<lambda>i. i_event_id i = e \<longrightarrow> i_status i \<noteq> PENDING) rows"

lemma row_step_left_pending: "row_step E rows rows' \<Longrightarrow> left_pending e rows \<Longrightarrow> left_pending e rows'"
proof (induction rule: row_step.induct)
  case (row_set i rows e' st now)
  have "i_status (set_status E now e' st x) = (if i_event_id x = e' then st else i_status x)" for x
    by (simp add: set_status_def)
  with row_set show ?case
    by (cases st) (auto simp: left_pending_def list_all_iff image_image)
qed (auto simp: left_pending_def)

text \<open>The invariant of reachable stores, by induction on the run.\<close>

definition intents_inv :: "pyenv \<Rightarrow> dir \<Rightarrow> bool" where
  "intents_inv E d \<longleftrightarrow> intents_ok E d \<and> gate (rows_of_dir E d)"

lemma intents_inv_step:
  "env_ok E \<Longrightarrow> intents_inv E d \<Longrightarrow> intent_step E d d' \<Longrightarrow> intents_inv E d'"
  using intent_step_rows [of E d d'] row_step_gate [of E "rows_of_dir E d" "rows_of_dir E d'"]
    intents_okD(3) [of E d]
  by (auto simp: intents_inv_def)

abbreviation intent_steps :: "pyenv \<Rightarrow> dir \<Rightarrow> dir \<Rightarrow> bool" where
  "intent_steps E \<equiv> (intent_step E)\<^sup>*\<^sup>*"

lemma intents_inv_steps:
  "intent_steps E d d' \<Longrightarrow> env_ok E \<Longrightarrow> intents_inv E d \<Longrightarrow>
   intents_inv E d' \<and> prefix (map intent_core (rows_of_dir E d)) (map intent_core (rows_of_dir E d')) \<and>
   (left_pending e (rows_of_dir E d) \<longrightarrow> left_pending e (rows_of_dir E d'))"
proof (induction rule: rtranclp_induct)
  case (step y z)
  then have y: "intents_inv E y" "intents_ok E y" by (auto simp: intents_inv_def)
  with step intent_step_rows [of E y z] have "row_step E (rows_of_dir E y) (rows_of_dir E z)" by blast
  with step y show ?case
    using intents_inv_step [of E y z] row_step_core row_step_left_pending
    by (meson prefix_order.trans)
qed simp

section \<open>When an intent can begin\<close>

definition begin_args_valid :: "pyenv \<Rightarrow> str \<Rightarrow> str \<Rightarrow> str \<Rightarrow> str \<Rightarrow> str \<Rightarrow> str \<Rightarrow> str option \<Rightarrow> bool" where
  "begin_args_valid E sk sg source_alias tk tg digest eid \<longleftrightarrow>
     hex64 sk \<and> hex64 tk \<and> hex64 digest \<and> uuid_shape sg \<and> uuid_shape tg \<and> name_shape E source_alias \<and>
     (case eid of None \<Rightarrow> True | Some e \<Rightarrow> uuid_shape e)"

lemma ages_ok:
  "list_all (intent_storable E) rows \<Longrightarrow>
   \<exists>ps. map_res (\<lambda>i. bind (intent_age_seconds E now (i_timestamp i)) (\<lambda>a. Inr (i, a))) rows = Inr ps \<and>
     length ps = length rows"
proof (induction rows)
  case (Cons i rows)
  then have "is_ok (parse_timestamp E (i_timestamp i))"
    by (simp add: intent_storable_def intent_valid_def)
  with Cons show ?case by (auto simp: is_ok_iff intent_age_seconds_def)
qed simp

lemma is_ok_list_case: "is_ok (case xs of [] \<Rightarrow> r | p # ps \<Rightarrow> let b = g p ps in Inl (f b)) \<longleftrightarrow> xs = [] \<and> is_ok r"
  by (cases xs) auto

lemma begin_ok_iff:
  assumes "intents_ok E d"
  shows "is_ok (begin_identity E now uuid4 d sk sg source_alias tk tg digest eid) \<longleftrightarrow>
    begin_args_valid E sk sg source_alias tk tg digest eid \<and>
    (case eid of None \<Rightarrow> uuid4 | Some e \<Rightarrow> e) \<notin> i_event_id ` set (rows_of_dir E d) \<and>
    unblocked (rows_of_dir E d) sk tk"
proof -
  let ?rows = "rows_of_dir E d" and ?u = "\<lambda>i. i_source_key i = sk \<and> i_target_key i = tk \<and> unresolved_status (i_status i)"
  note ok = intents_okD [OF assms]
  have "list_all (intent_storable E) (filter ?u ?rows)" using ok(2) by (auto simp: list_all_iff)
  then obtain ps where ps: "map_res (\<lambda>i. bind (intent_age_seconds E now (i_timestamp i)) (\<lambda>a. Inr (i, a)))
      (filter ?u ?rows) = Inr ps" "length ps = length (filter ?u ?rows)"
    using ages_ok by blast
  have un: "unblocked ?rows sk tk \<longleftrightarrow> ps = []"
  proof -
    have "unblocked ?rows sk tk \<longleftrightarrow> filter ?u ?rows = []"
      by (auto simp: unblocked_def list_all_iff filter_empty_conv)
    also have "\<dots> \<longleftrightarrow> ps = []" 
      unfolding length_0_conv [symmetric, of ps] length_0_conv [symmetric, of "filter ?u ?rows"] ps(2) ..
    finally show ?thesis .
  qed
  show ?thesis
    unfolding begin_identity_def is_ok_rules is_ok_list_case un begin_args_valid_def
    by (cases eid) (auto simp: valid_simps list_ex_iff ok(1) ps(1))
qed

section \<open>Properties\<close>

text \<open>
  C21. Beginning an intent. On a readable store \<open>begin_identity\<close> succeeds exactly when its
  arguments are well formed, the event id is unused and the sender has no undecided event to that
  recipient; it then adds one \<open>PENDING\<close> row with exactly these identities after the existing rows
  and keeps the store readable.
\<close>

theorem begin_identity_spec:
  assumes "env_ok E" "intents_ok E d" "list_all is_code_point source_alias" "uuid_shape uuid4"
  shows "(is_ok (begin_identity E now uuid4 d sk sg source_alias tk tg digest eid) \<longleftrightarrow>
      begin_args_valid E sk sg source_alias tk tg digest eid \<and>
      (case eid of None \<Rightarrow> uuid4 | Some e \<Rightarrow> e) \<notin> i_event_id ` set (rows_of_dir E d) \<and>
      (\<forall>i \<in> set (rows_of_dir E d). i_source_key i = sk \<longrightarrow> i_target_key i = tk \<longrightarrow>
         i_status i \<noteq> PENDING \<and> i_status i \<noteq> REMOTE_AUTHORIZED)) \<and>
    (\<forall>e d'. begin_identity E now uuid4 d sk sg source_alias tk tg digest eid = Inr (e, d') \<longrightarrow>
      intents_ok E d' \<and>
      (\<exists>i. rows_of_dir E d' = rows_of_dir E d @ [i] \<and> i_status i = PENDING \<and>
         intent_core i = [e, sk, sg, source_alias, tk, tg, digest]))"
proof -
  have "unresolved_status st \<longleftrightarrow> st = PENDING \<or> st = REMOTE_AUTHORIZED" for st by (cases st) auto
  then have "unblocked (rows_of_dir E d) sk tk \<longleftrightarrow> (\<forall>i \<in> set (rows_of_dir E d). i_source_key i = sk \<longrightarrow>
      i_target_key i = tk \<longrightarrow> i_status i \<noteq> PENDING \<and> i_status i \<noteq> REMOTE_AUTHORIZED)"
    by (auto simp: unblocked_def list_all_iff)
  with begin_ok_iff [OF assms(2), of now uuid4 sk sg source_alias tk tg digest eid]
    begin_rows [OF assms, of now sk sg tk tg digest eid]
  show ?thesis by (fastforce simp: intent_core_def)
qed

lemma empty_intents: "intents_ok E empty_dir" "rows_of_dir E empty_dir = []" "intents_inv E empty_dir"
  by (simp_all add: intents_ok_def intents_def empty_dir_def rows_of_dir_def intents_inv_def gate_def)

lemma lit_code_points: "list_all is_code_point (lit s)"
  using scalar_lit [of s] by (auto simp: list_all_iff is_scalar_def)

lemma sample_begin_args:
  "begin_args_valid sample_env (sample_hex64 97) (sample_uuid 49) (lit ''claude@mac:p'') (sample_hex64 98)
     (sample_uuid 50) (sample_hex64 48) None"
  by (simp add: begin_args_valid_def sample_simps) (rule sample_name_shape; simp add: lit_def)

theorem begin_identity_spec_witness:
  "is_ok (begin_identity sample_env 0 (sample_uuid 51) empty_dir (sample_hex64 97) (sample_uuid 49)
     (lit ''claude@mac:p'') (sample_hex64 98) (sample_uuid 50) (sample_hex64 48) None)"
  using begin_identity_spec [OF sample_env_ok empty_intents(1) lit_code_points sample_uuid_shape,
      of 51 0 "sample_hex64 97" "sample_uuid 49" "''claude@mac:p''" "sample_hex64 98" "sample_uuid 50"
      "sample_hex64 48" None] sample_begin_args
  by (simp add: empty_intents sample_simps)

text \<open>
  C17. In every state reachable by any interleaving of begin, claim, outcome and resolve steps the
  store stays readable, no sender has two undecided events to one recipient, and no row is ever
  lost, reordered or changed in anything but status and time.
\<close>

theorem intent_runs:
  assumes "env_ok E" "intents_inv E d" "intent_steps E d d'"
  shows "intents_ok E d' \<and>
    (\<forall>i \<in> set (rows_of_dir E d'). \<forall>j \<in> set (rows_of_dir E d').
       i_source_key i = i_source_key j \<and> i_target_key i = i_target_key j \<and>
       unresolved_status (i_status i) \<and> unresolved_status (i_status j) \<longrightarrow> i = j) \<and>
    prefix (map intent_core (rows_of_dir E d)) (map intent_core (rows_of_dir E d'))"
proof -
  from intents_inv_steps [OF assms(3,1,2)] have inv: "intents_inv E d'"
    and p: "prefix (map intent_core (rows_of_dir E d)) (map intent_core (rows_of_dir E d'))" by blast+
  from inv have g: "gate (rows_of_dir E d')" "intents_ok E d'" by (auto simp: intents_inv_def)
  have "i = j" if "i \<in> set (rows_of_dir E d')" "j \<in> set (rows_of_dir E d')"
    "i_source_key i = i_source_key j" "i_target_key i = i_target_key j"
    "unresolved_status (i_status i)" "unresolved_status (i_status j)" for i j
    using distinct_map_eqD [OF g(1) [unfolded gate_def], of i j] that by simp
  with g p show ?thesis by blast
qed

text \<open>A store with one pending intent.\<close>

lemma sample_begin:
  obtains d' i where "begin_identity sample_env 0 (sample_uuid 51) empty_dir (sample_hex64 97)
     (sample_uuid 49) (lit ''claude@mac:p'') (sample_hex64 98) (sample_uuid 50) (sample_hex64 48) None
       = Inr (sample_uuid 51, d')"
    "intents_inv sample_env d'" "rows_of_dir sample_env d' = [i]" "i_status i = PENDING"
    "intent_core i = [sample_uuid 51, sample_hex64 97, sample_uuid 49, lit ''claude@mac:p'',
       sample_hex64 98, sample_uuid 50, sample_hex64 48]"
proof -
  obtain e d' where d': "begin_identity sample_env 0 (sample_uuid 51) empty_dir (sample_hex64 97)
     (sample_uuid 49) (lit ''claude@mac:p'') (sample_hex64 98) (sample_uuid 50) (sample_hex64 48) None = Inr (e, d')"
    using begin_ok_iff [OF empty_intents(1), of sample_env 0 "sample_uuid 51" "sample_hex64 97"
        "sample_uuid 49" "lit ''claude@mac:p''" "sample_hex64 98" "sample_uuid 50" "sample_hex64 48" None]
      sample_begin_args
    by (auto simp: empty_intents unblocked_def is_ok_iff)
  moreover from d' have e: "e = sample_uuid 51"
    by (auto simp: begin_identity_def res_simps list_case_Inl Let_def split: if_splits)
  moreover have "intent_step sample_env empty_dir d'"
    using d' by (intro step_begin) (simp_all add: sample_simps lit_code_points)
  then have "intents_inv sample_env d'"
    using intents_inv_step [OF sample_env_ok empty_intents(3)] by blast
  ultimately show thesis
    using begin_rows [OF sample_env_ok empty_intents(1) lit_code_points sample_uuid_shape d'] that
    by (auto simp: sample_simps empty_intents intent_core_def)
qed

theorem intent_runs_witness:
  "\<exists>d'. intent_steps sample_env empty_dir d' \<and> d' \<noteq> empty_dir \<and> intents_ok sample_env d'"
proof -
  obtain d' i where d': "begin_identity sample_env 0 (sample_uuid 51) empty_dir (sample_hex64 97)
     (sample_uuid 49) (lit ''claude@mac:p'') (sample_hex64 98) (sample_uuid 50) (sample_hex64 48) None
       = Inr (sample_uuid 51, d')" and r: "rows_of_dir sample_env d' = [i]"
    by (rule sample_begin)
  then have s: "intent_steps sample_env empty_dir d'"
    by (intro r_into_rtranclp step_begin) (simp_all add: sample_simps lit_code_points)
  have "d' \<noteq> empty_dir" using r empty_intents(2) by (metis list.distinct(1))
  with s intent_runs [OF sample_env_ok empty_intents(3) s] show ?thesis by blast
qed

text \<open>The answer of a well formed claim.\<close>

lemma claim_result:
  assumes "intents_ok E d" "uuid_shape e" "uuid_shape sg" "name_shape E al" "uuid_shape tg" "hex64 tk" "hex64 digest"
  shows "\<exists>d'. claim_remote_authorization E now d e sg al tk tg digest =
    Inr (\<exists>i \<in> set (rows_of_dir E d). i_status i = PENDING \<and>
           intent_core i = [e, i_source_key i, sg, al, tk, tg, digest], d')"
proof -
  let ?P = "\<lambda>i. i_event_id i = e \<and> i_source_generation i = sg \<and> i_source_alias i = al \<and> i_target_key i = tk \<and>
     i_target_generation i = tg \<and> i_payload_digest i = digest \<and> i_status i = PENDING"
  note ok = intents_okD [OF assms(1)]
  have v: "valid_uuid e f = Inr e" "valid_uuid sg f = Inr sg" "valid_uuid tg f = Inr tg" "valid_name E al f = Inr al" for f
    using assms by (simp_all add: valid_simps)
  have "length (filter ?P (rows_of_dir E d)) = 1 \<longleftrightarrow> (\<exists>i \<in> set (rows_of_dir E d). ?P i)"
  proof
    assume "\<exists>i \<in> set (rows_of_dir E d). ?P i"
    then obtain i where "i \<in> set (rows_of_dir E d)" "?P i" by blast
    then have "filter ?P (rows_of_dir E d) = [i]" by (intro filter_distinct_key [OF ok(3)]) auto
    then show "length (filter ?P (rows_of_dir E d)) = 1" by simp
  next
    assume "length (filter ?P (rows_of_dir E d)) = 1"
    then have "set (filter ?P (rows_of_dir E d)) \<noteq> {}" by (cases "filter ?P (rows_of_dir E d)") auto
    then show "\<exists>i \<in> set (rows_of_dir E d). ?P i" by auto
  qed
  then show ?thesis
    using assms(6,7) by (auto simp: claim_remote_authorization_def v ok(1) intent_core_def)
qed

lemma claim_leaves_pending:
  assumes "env_ok E" "intents_inv E d" "claim_remote_authorization E now d e sg al tk tg digest = Inr (True, d1)"
  obtains i where "i \<in> set (rows_of_dir E d)" "i_status i = PENDING" "intent_core i = [e, i_source_key i, sg, al, tk, tg, digest]"
    "left_pending e (rows_of_dir E d1)" "intents_inv E d1"
proof -
  have ok: "intents_ok E d" using assms(2) by (simp add: intents_inv_def)
  from claim_rows [OF assms(1) ok assms(3)] obtain i where i: "i \<in> set (rows_of_dir E d)"
    "i_event_id i = e" "i_status i = PENDING" "i_source_generation i = sg" "i_source_alias i = al"
    "i_target_key i = tk" "i_target_generation i = tg" "i_payload_digest i = digest"
    and d1: "rows_of_dir E d1 = map (set_status E now e REMOTE_AUTHORIZED) (rows_of_dir E d)" by auto
  have "left_pending e (rows_of_dir E d1)"
    using i(1,2) by (auto simp: d1 left_pending_def list_all_iff image_image) (simp add: set_status_def)
  moreover have "intents_inv E d1"
    using intents_inv_step [OF assms(1,2)] assms(3) by (auto intro: step_claim)
  ultimately show thesis using that i by (auto simp: intent_core_def)
qed

lemma claim_spent:
  assumes "env_ok E" "intents_inv E d1" "left_pending e (rows_of_dir E d1)" "intent_steps E d1 d2"
    and "claim_remote_authorization E now' d2 e sg' al' tk' tg' digest' = Inr (b, d3)"
  shows "\<not> b \<and> d3 = d2"
proof -
  have lp: "left_pending e (rows_of_dir E d2)" "intents_ok E d2"
    using intents_inv_steps [OF assms(4,1,2), of e] assms(3) by (auto simp: intents_inv_def)
  from claim_rows [OF assms(1) lp(2) assms(5)] lp(1) show ?thesis
    by (auto simp: left_pending_def list_all_iff split: if_splits)
qed

text \<open>
  C1. A remote authorization is claimed at most once: after a claim of an event has returned
  \<open>True\<close>, whatever steps other processes take, no later claim of that event returns \<open>True\<close>; and a
  claim returns \<open>True\<close> only for a \<open>PENDING\<close> row with exactly the claimed identities and digest.
\<close>

theorem claim_once:
  assumes "env_ok E" "intents_inv E d"
    and "claim_remote_authorization E now d e sg al tk tg digest = Inr (True, d1)"
    and "intent_steps E d1 d2"
    and "claim_remote_authorization E now' d2 e sg' al' tk' tg' digest' = Inr (b, d3)"
  shows "\<not> b \<and> d3 = d2 \<and>
    (\<exists>i \<in> set (rows_of_dir E d). i_status i = PENDING \<and>
       intent_core i = [e, i_source_key i, sg, al, tk, tg, digest])"
  using claim_leaves_pending [OF assms(1-3)] claim_spent [OF assms(1) _ _ assms(4,5)] by metis

theorem claim_once_witness:
  "\<exists>d d1. claim_remote_authorization sample_env 1 d (sample_uuid 51) (sample_uuid 49) (lit ''claude@mac:p'')
       (sample_hex64 98) (sample_uuid 50) (sample_hex64 48) = Inr (True, d1) \<and>
     claim_remote_authorization sample_env 2 d1 (sample_uuid 51) (sample_uuid 49) (lit ''claude@mac:p'')
       (sample_hex64 98) (sample_uuid 50) (sample_hex64 48) = Inr (False, d1)"
proof -
  obtain d i where inv: "intents_inv sample_env d" and r: "rows_of_dir sample_env d = [i]"
    "i_status i = PENDING" "intent_core i = [sample_uuid 51, sample_hex64 97, sample_uuid 49, lit ''claude@mac:p'',
       sample_hex64 98, sample_uuid 50, sample_hex64 48]"
    by (rule sample_begin)
  have "name_shape sample_env (lit ''claude@mac:p'')" using sample_begin_args by (simp add: begin_args_valid_def)
  note c = claim_result [OF _ sample_uuid_shape sample_uuid_shape this sample_uuid_shape sample_hex64_ok sample_hex64_ok,
      of _ 51 49 50 98 48]
  obtain d1 where c1: "claim_remote_authorization sample_env 1 d (sample_uuid 51) (sample_uuid 49)
      (lit ''claude@mac:p'') (sample_hex64 98) (sample_uuid 50) (sample_hex64 48) = Inr (True, d1)"
    using c [of d 1] inv r by (auto simp: intents_inv_def sample_simps intent_core_def)
  have "intents_ok sample_env d1"
    using intents_inv_step [OF sample_env_ok inv step_claim [OF c1]] by (simp add: intents_inv_def)
  then obtain b d3 where c2: "claim_remote_authorization sample_env 2 d1 (sample_uuid 51) (sample_uuid 49)
      (lit ''claude@mac:p'') (sample_hex64 98) (sample_uuid 50) (sample_hex64 48) = Inr (b, d3)"
    using c [of d1 2] by (auto simp: sample_simps)
  from claim_once [OF sample_env_ok inv c1 rtranclp.rtrancl_refl c2] c1 c2 show ?thesis by auto
qed

text \<open>
  The owner can only resolve what is undecided: \<open>resolve_by_owner\<close> succeeds only for an
  existing event that is \<open>UNKNOWN_DELIVERY\<close>, already resolved, or in flight for at least 600
  seconds; it returns the prior status, and changes only the status and time of that row. A
  decided event is refused.
\<close>

theorem resolve_by_owner_spec:
  assumes "env_ok E" "intents_ok E d"
  shows "(\<forall>prior d'. resolve_by_owner E now d e = Inr (prior, d') \<longrightarrow>
      prior \<noteq> TRANSPORT_ACCEPTED \<and> prior \<noteq> PRE_EFFECT_REJECTED \<and> intents_ok E d' \<and>
      (\<exists>i \<in> set (rows_of_dir E d). i_event_id i = e \<and> i_status i = prior \<and>
         (unresolved_status prior \<longrightarrow> (\<exists>t. parse_timestamp E (i_timestamp i) = Inr t \<and> 600 \<le> now - t))) \<and>
      (rows_of_dir E d' = rows_of_dir E d \<and> prior = RESOLVED_BY_OWNER \<or>
       rows_of_dir E d' = map (set_status E now e RESOLVED_BY_OWNER) (rows_of_dir E d))) \<and>
    (\<forall>i \<in> set (rows_of_dir E d). i_event_id i = e \<and> i_status i \<in> {TRANSPORT_ACCEPTED, PRE_EFFECT_REJECTED} \<longrightarrow>
       \<not> is_ok (resolve_by_owner E now d e))"
proof (intro conjI allI impI ballI)
  fix prior d'
  assume "resolve_by_owner E now d e = Inr (prior, d')"
  then obtain i where "i \<in> set (rows_of_dir E d)" "i_event_id i = e" "i_status i = prior"
    "prior \<in> {UNKNOWN_DELIVERY, PENDING, REMOTE_AUTHORIZED, RESOLVED_BY_OWNER}"
    "prior \<in> {PENDING, REMOTE_AUTHORIZED} \<longrightarrow>
       (\<exists>t. parse_timestamp E (i_timestamp i) = Inr t \<and> 600 \<le> now - t)"
    "if prior = RESOLVED_BY_OWNER then d' = d
     else intents_ok E d' \<and> rows_of_dir E d' = map (set_status E now e RESOLVED_BY_OWNER) (rows_of_dir E d)"
    by (rule resolve_rows [OF assms])
  then show "prior \<noteq> TRANSPORT_ACCEPTED" "prior \<noteq> PRE_EFFECT_REJECTED" "intents_ok E d'"
    "\<exists>i \<in> set (rows_of_dir E d). i_event_id i = e \<and> i_status i = prior \<and>
       (unresolved_status prior \<longrightarrow> (\<exists>t. parse_timestamp E (i_timestamp i) = Inr t \<and> 600 \<le> now - t))"
    "rows_of_dir E d' = rows_of_dir E d \<and> prior = RESOLVED_BY_OWNER \<or>
       rows_of_dir E d' = map (set_status E now e RESOLVED_BY_OWNER) (rows_of_dir E d)"
    using assms(2) by (cases prior; auto)+
next
  fix i
  assume i: "i \<in> set (rows_of_dir E d)" "i_event_id i = e \<and> i_status i \<in> {TRANSPORT_ACCEPTED, PRE_EFFECT_REJECTED}"
  show "\<not> is_ok (resolve_by_owner E now d e)"
  proof
    assume "is_ok (resolve_by_owner E now d e)"
    then obtain prior d' where "resolve_by_owner E now d e = Inr (prior, d')" by (auto simp: is_ok_iff)
    then obtain j where j: "j \<in> set (rows_of_dir E d)" "i_event_id j = e"
      "i_status j \<in> {UNKNOWN_DELIVERY, PENDING, REMOTE_AUTHORIZED, RESOLVED_BY_OWNER}"
      by (rule resolve_rows [OF assms]) auto
    then have "j = i" using i distinct_map_eqD [OF intents_okD(3) [OF assms(2)], of j i] by auto
    with i j show False by auto
  qed
qed

theorem resolve_by_owner_spec_witness:
  "\<exists>d. rows_of_dir sample_env d \<noteq> [] \<and> \<not> is_ok (resolve_by_owner sample_env 1000 d (sample_uuid 51))"
proof -
  obtain d i where inv: "intents_inv sample_env d" and r: "rows_of_dir sample_env d = [i]"
    "intent_core i = [sample_uuid 51, sample_hex64 97, sample_uuid 49, lit ''claude@mac:p'',
       sample_hex64 98, sample_uuid 50, sample_hex64 48]"
    by (rule sample_begin)
  have ok: "intents_ok sample_env d" using inv by (simp add: intents_inv_def)
  have "require_one [i] (sample_uuid 51) = Inr i" using r(2) by (simp add: require_one_iff intent_core_def)
  moreover have "valid_uuid (sample_uuid 51) f = Inr (sample_uuid 51)" for f
    by (simp add: valid_simps sample_simps)
  ultimately obtain d1 where m: "mark sample_env 5 d (sample_uuid 51) TRANSPORT_ACCEPTED = Inr d1"
    using intents_okD(1) [OF ok] r(1) by (simp add: mark_def)
  note d1 = mark_rows [OF sample_env_ok ok m]
  have "i_event_id i = sample_uuid 51" using r(2) by (simp add: intent_core_def)
  then have "\<not> is_ok (resolve_by_owner sample_env 1000 d1 (sample_uuid 51))"
    using resolve_by_owner_spec [OF sample_env_ok d1(1), of 1000 "sample_uuid 51"] d1(2) r(1)
    by (simp add: set_status_def)
  moreover have "rows_of_dir sample_env d1 \<noteq> []" using d1(2) r(1) by simp
  ultimately show ?thesis by blast
qed

end
