(* ===== verification/Tokens.thy ===== *)
theory Tokens
  imports Intents
begin

text \<open>
  The two self-contained texts the program hands out and reads back: recipient tokens
  (recipient.py) and remote envelopes (transport.py writes, remote.py parses).
\<close>

section \<open>Recipient tokens\<close>

definition RECIPIENT_TOKEN_VERSION :: int where "RECIPIENT_TOKEN_VERSION = 2"
definition RECIPIENT_TOKEN_PREFIX :: str where "RECIPIENT_TOKEN_PREFIX = lit ''cac2.''"
definition RECIPIENT_TOKEN_MAX_CHARS :: nat where "RECIPIENT_TOKEN_MAX_CHARS = 512"

datatype recipient_scope = Local | Remote

record recipient_token =
  t_scope :: recipient_scope
  t_handle :: str
  t_generation :: str
  t_node_id :: "str option"
  t_origin :: "str option"

definition token_error :: "'a res" where
  "token_error = fail ''recipient token is invalid''"

definition checked_handle :: "str \<Rightarrow> str res" where
  "checked_handle value = (if \<not> hex64 value then token_error else Inr value)"

definition node_id_shape :: "str \<Rightarrow> bool" where
  "node_id_shape s \<longleftrightarrow> 1 \<le> length s \<and> length s \<le> 64 \<and> list_all is_alnum s"

definition checked_node_id :: "str \<Rightarrow> str res" where
  "checked_node_id value = (if \<not> node_id_shape value then token_error else Inr value)"

text \<open>The argument is \<^verbatim>\<open>str(root.expanduser().resolve(strict=False))\<close>.\<close>

definition local_origin :: "pyenv \<Rightarrow> str \<Rightarrow> str res" where
  "local_origin E canonical =
     bind (encode (lit ''cac-recipient-origin-v1'' @ 0 # canonical)) (\<lambda>b. Inr (sha256hex E b))"

definition token_encode :: "pyenv \<Rightarrow> dict \<Rightarrow> str res" where
  "token_encode E items =
     bind (encode (dumps (float_repr E) True (sort_keys (JObj items)))) (\<lambda>payload.
     Inr (RECIPIENT_TOKEN_PREFIX @ rstrip_pad (urlsafe_b64encode payload)))"

definition local_token :: "pyenv \<Rightarrow> str \<Rightarrow> str \<Rightarrow> str \<Rightarrow> str res" where
  "local_token E canonical handle generation =
     bind (checked_handle handle) (\<lambda>h.
     bind (valid_uuid generation ''route generation'') (\<lambda>g.
     bind (local_origin E canonical) (\<lambda>o'.
     token_encode E [(lit ''v'', JInt RECIPIENT_TOKEN_VERSION), (lit ''s'', JStr (lit ''local'')),
       (lit ''h'', JStr h), (lit ''g'', JStr g), (lit ''o'', JStr o')])))"

definition remote_token :: "pyenv \<Rightarrow> str \<Rightarrow> str \<Rightarrow> str \<Rightarrow> str res" where
  "remote_token E node_id handle generation =
     bind (checked_handle handle) (\<lambda>h.
     bind (valid_uuid generation ''route generation'') (\<lambda>g.
     bind (checked_node_id node_id) (\<lambda>n.
     token_encode E [(lit ''v'', JInt RECIPIENT_TOKEN_VERSION), (lit ''s'', JStr (lit ''remote'')),
       (lit ''h'', JStr h), (lit ''g'', JStr g), (lit ''n'', JStr n)])))"

text \<open>The checks on the decoded payload, and the whole parser.\<close>

definition token_scope :: "dict \<Rightarrow> recipient_scope option" where
  "token_scope items =
     (case jget items ''s'' of
        Some (JStr s) \<Rightarrow> if s = lit ''local'' then Some Local
                         else if s = lit ''remote'' then Some Remote else None
      | _ \<Rightarrow> None)"

definition token_payload :: "json \<Rightarrow> recipient_token res" where
  "token_payload payload =
     (case payload of
        JObj items \<Rightarrow>
          (if jget items ''v'' \<noteq> Some (JInt RECIPIENT_TOKEN_VERSION) then token_error
           else
             case token_scope items of
               None \<Rightarrow> token_error
             | Some sc \<Rightarrow>
                 if \<not> has_keys items [''v'', ''s'', ''h'', ''g'', if sc = Local then ''o'' else ''n'']
                 then token_error
                 else
                   bind (get_str ''recipient token is invalid'' items ''h'') (\<lambda>handle.
                   bind (get_str ''recipient token is invalid'' items ''g'') (\<lambda>generation.
                   bind (except_chat is_chat_error ''recipient token is invalid''
                          (valid_uuid generation ''route generation'')) (\<lambda>exact_generation.
                   if sc = Local then
                     bind (get_str ''recipient token is invalid'' items ''o'') (\<lambda>origin.
                     bind (checked_handle handle) (\<lambda>h.
                     bind (checked_handle origin) (\<lambda>o'.
                     Inr \<lparr>t_scope = Local, t_handle = h, t_generation = exact_generation,
                          t_node_id = None, t_origin = Some o'\<rparr>)))
                   else
                     bind (get_str ''recipient token is invalid'' items ''n'') (\<lambda>node_id.
                     bind (checked_handle handle) (\<lambda>h.
                     bind (checked_node_id node_id) (\<lambda>n.
                     Inr \<lparr>t_scope = Remote, t_handle = h, t_generation = exact_generation,
                          t_node_id = Some n, t_origin = None\<rparr>)))))))
      | _ \<Rightarrow> token_error)"

definition parse_recipient_token :: "pyenv \<Rightarrow> str \<Rightarrow> recipient_token option res" where
  "parse_recipient_token E value =
     (if \<not> starts_with RECIPIENT_TOKEN_PREFIX value then Inr None
      else if RECIPIENT_TOKEN_MAX_CHARS < length value then token_error
      else
        let body = drop (length RECIPIENT_TOKEN_PREFIX) value in
        if body = [] \<or> \<not> list_all is_b64 body \<or> length body mod 4 = 1 then token_error
        else
          bind (except_chat is_value_error ''recipient token is invalid''
                  (case urlsafe_b64decode (repad body) of
                     None \<Rightarrow> Inl ValueError | Some decoded \<Rightarrow> loads_bytes E decoded)) (\<lambda>payload.
          bind (token_payload payload) (\<lambda>t. Inr (Some t))))"

lemma checked_handle_iff [valid_simps]: "checked_handle v = Inr x \<longleftrightarrow> x = v \<and> hex64 v"
  by (auto simp: checked_handle_def token_error_def)

lemma checked_node_id_iff [valid_simps]: "checked_node_id v = Inr x \<longleftrightarrow> x = v \<and> node_id_shape v"
  by (auto simp: checked_node_id_def token_error_def)

text \<open>What \<open>_encode\<close> prints is decoded to the fields it was given.\<close>

lemma dumps_obj_start: "\<exists>r. dumps fr a (JObj ((k, v) # d)) = 123 # 34 # r"
proof -
  have "\<exists>r. intersperse_comma ((34 # x) # xs) @ q = 34 # r" for x xs q
    by (cases xs) auto
  then show ?thesis by (simp add: json_str_def)
qed

lemma sort_dict_Cons: "\<exists>k v d'. sort_dict (p # d) = (k, v) # d'"
proof -
  have "insert_key q e \<noteq> []" for q e by (cases e) auto
  then show ?thesis by (metis (no_types, lifting) foldr.simps(2) comp_apply list.exhaust list.simps(9) surj_pair)
qed

lemma token_decode:
  assumes "plain True (JObj (p # d))"
    and payload_def: "payload = concat (map utf8_char (dumps (float_repr E) True (sort_keys (JObj (p # d)))))"
  shows "token_encode E (p # d) = Inr (RECIPIENT_TOKEN_PREFIX @ rstrip_pad (urlsafe_b64encode payload))"
    and "urlsafe_b64decode (repad (rstrip_pad (urlsafe_b64encode payload))) = Some payload"
    and "loads_bytes E payload = Inr (JObj (sort_dict (p # d)))"
proof -
  let ?t = "dumps (float_repr E) True (sort_keys (JObj (p # d)))"
  have pl: "plain True (sort_keys (JObj (p # d)))" using assms(1) by (rule plain_sort_keys)
  have sc: "list_all is_scalar ?t" using scalar_dumps [OF pl] .
  have bytes: "is_bytes payload"
    using sc utf8_char_bytes by (auto simp: payload_def list_all_iff is_scalar_def is_bytes_def)
  show "token_encode E (p # d) = Inr (RECIPIENT_TOKEN_PREFIX @ rstrip_pad (urlsafe_b64encode payload))"
    using sc by (auto simp: token_encode_def encode_def utf8_encode_def payload_def list_all_iff is_scalar_def
        simp del: dumps.simps sort_keys.simps)
  show "urlsafe_b64decode (repad (rstrip_pad (urlsafe_b64encode payload))) = Some payload"
    using bytes by (simp add: b64_repad b64_decode_encode)
  obtain k v d' where "sort_dict (p # d) = (k, v) # d'" using sort_dict_Cons by blast
  then obtain r where r: "?t = 123 # 34 # r"
    using dumps_obj_start [of "float_repr E" True k v d'] by auto
  have dec: "utf8_decode True payload = Some ?t"
    unfolding payload_def using utf8_decode_encode_append [OF sc, of True "[]"]
    by (simp del: dumps.simps sort_keys.simps)
  have pe: "payload = 123 # 34 # concat (map utf8_char r)"
    unfolding payload_def r by (simp add: utf8_char_def)
  have "loads_bytes E payload = loads (float_parse E) ?t"
    unfolding pe by (rule loads_bytes_ascii_start [OF dec [unfolded pe]]) simp_all
  with loads_dumps_trailing [OF pl, of "[]" "float_parse E" "float_repr E"]
  show "loads_bytes E payload = Inr (JObj (sort_dict (p # d)))" by simp
qed

text \<open>The size of what is printed: the texts of a token are plain ASCII.\<close>

definition tame :: "nat \<Rightarrow> bool" where
  "tame c \<longleftrightarrow> 32 \<le> c \<and> c \<le> 126 \<and> c \<noteq> 34 \<and> c \<noteq> 92"

lemma json_str_tame: "list_all tame s \<Longrightarrow> json_str a s = 34 # s @ [34]"
proof -
  assume "list_all tame s"
  then have "concat (map (esc_char a) s) = s"
    by (induction s) (auto simp: tame_def esc_char_def)
  then show ?thesis by (simp add: json_str_def)
qed

lemma tame_alnum: "list_all is_alnum s \<Longrightarrow> list_all tame s"
  by (auto simp: list_all_iff tame_def is_alnum_def is_digit_def is_upper_def is_lower_def)

lemma tame_hex64: "hex64 s \<Longrightarrow> list_all tame s"
  by (rule tame_alnum) (auto simp: hex64_def list_all_iff is_hex_is_alnum)

lemma tame_uuid: "uuid_shape s \<Longrightarrow> list_all tame s"
  using uuid_shape_alnum [of s] by (auto simp: list_all_iff tame_def is_hex_def is_digit_def)

lemma tame_printable: "list_all tame s \<Longrightarrow> list_all (printable a) s"
  by (auto simp: list_all_iff tame_def is_scalar_printable scalar_small)

lemma tame_small: "list_all tame s \<Longrightarrow> list_all (\<lambda>c. c < 128) s"
  by (auto simp: list_all_iff tame_def)

lemma token_text:
  assumes "list_all tame h" "list_all tame g" "list_all tame x" "list_all tame s"
    "k = lit ''o'' \<or> k = lit ''n''"
  shows "dumps fr True (sort_keys (JObj [(lit ''v'', JInt 2), (lit ''s'', JStr s), (lit ''h'', JStr h),
            (lit ''g'', JStr g), (k, JStr x)])) =
     lit ''{\"g\":\"'' @ g @ lit ''\",\"h\":\"'' @ h @ lit ''\",\"'' @ k @ lit ''\":\"'' @ x @
     lit ''\",\"s\":\"'' @ s @ lit ''\",\"v\":2}''"
proof -
  have ks: "list_all tame [118]" "list_all tame [115]" "list_all tame [104]" "list_all tame [103]" "list_all tame k"
    using assms(5) by (auto simp: tame_def lit_def)
  have "int_str 2 = [50]" by (simp add: int_str_def dec_str.simps)
  then show ?thesis
    using assms(5) ks by (auto simp: lit_def json_str_tame assms(1-4))
qed

lemma token_scope_sorted: "distinct (map fst d) \<Longrightarrow> token_scope (sort_dict d) = token_scope d"
  by (auto simp: token_scope_def map_of_sort_dict split: option.splits json.splits)

lemma token_payload_sorted:
  assumes "distinct (map fst d)"
  shows "token_payload (JObj (sort_dict d)) = token_payload (JObj d)"
proof -
  have "jget (sort_dict d) ''v'' \<noteq> Some (JInt i) \<longleftrightarrow> jget d ''v'' \<noteq> Some (JInt i)" for i
    using assms by (cases "jget d ''v''") (auto simp: map_of_sort_dict)
  with assms show ?thesis
    by (simp add: token_payload_def sorted_getters token_scope_sorted del: map_of_eq_Some_iff
        split: option.split)
qed

lemma token_parse:
  assumes "list_all tame h" "list_all tame g" "list_all tame x" "list_all tame s"
    "k = lit ''o'' \<or> k = lit ''n''" "length h + length g + length x + length s \<le> 300"
  shows "\<exists>t. token_encode E [(lit ''v'', JInt 2), (lit ''s'', JStr s), (lit ''h'', JStr h),
            (lit ''g'', JStr g), (k, JStr x)] = Inr t \<and> length t \<le> 512 \<and>
     parse_recipient_token E t =
       bind (token_payload (JObj [(lit ''v'', JInt 2), (lit ''s'', JStr s), (lit ''h'', JStr h),
            (lit ''g'', JStr g), (k, JStr x)])) (\<lambda>t. Inr (Some t))"
proof -
  define d where "d = [(lit ''s'', JStr s), (lit ''h'', JStr h), (lit ''g'', JStr g), (k, JStr x)]"
  let ?p = "(lit ''v'', JInt 2)"
  define tx where "tx = dumps (float_repr E) True (sort_keys (JObj (?p # d)))"
  define payload where "payload = concat (map utf8_char tx)"
  define body where "body = rstrip_pad (urlsafe_b64encode payload)"
  have pl: "plain True (JObj (?p # d))"
    using assms(1-5) by (auto simp: d_def tame_printable int_fits_small)
  note dec = token_decode [OF pl payload_def [unfolded tx_def]]
  have tx: "tx = lit ''{\"g\":\"'' @ g @ lit ''\",\"h\":\"'' @ h @ lit ''\",\"'' @ k @ lit ''\":\"'' @ x @
     lit ''\",\"s\":\"'' @ s @ lit ''\",\"v\":2}''"
    unfolding tx_def d_def using token_text [OF assms(1-5)] .
  have "list_all (\<lambda>c. c < 128) tx"
    unfolding tx list_all_append using assms(5) tame_small [OF assms(1)] tame_small [OF assms(2)]
      tame_small [OF assms(3)] tame_small [OF assms(4)]
    by (elim disjE) (simp_all add: lit_def)
  then have len: "length payload = length tx"
    using utf8_len_ascii [of tx] by (simp add: payload_def utf8_len_def)
  then have len': "length payload \<le> 340" "length payload \<noteq> 0"
    using assms(5,6) by (auto simp: tx)
  have bytes: "is_bytes payload"
    using scalar_dumps [OF plain_sort_keys [OF pl], of "float_repr E" True] utf8_char_bytes
    by (auto simp: payload_def tx_def list_all_iff is_scalar_def is_bytes_def)
  have body: "list_all is_b64 body" "length body = (length payload * 4 + 2) div 3"
    unfolding body_def using bytes by (rule b64_unpadded_alphabet, rule b64_unpadded_length)
  have "length body mod 4 \<noteq> 1"
    unfolding body(2) by presburger
  moreover have "0 < length body" "length body \<le> 460" using len' unfolding body(2) by presburger+
  ultimately have "parse_recipient_token E (RECIPIENT_TOKEN_PREFIX @ body) =
      bind (token_payload (JObj (?p # d))) (\<lambda>t. Inr (Some t))"
    using body(1) dec(2,3) token_payload_sorted [of "?p # d"] pl
    by (auto simp: parse_recipient_token_def RECIPIENT_TOKEN_PREFIX_def RECIPIENT_TOKEN_MAX_CHARS_def
        body_def [symmetric] Let_def simp del: sort_keys.simps foldr.simps)
  moreover have "length (RECIPIENT_TOKEN_PREFIX @ body) \<le> 512"
    using \<open>length body \<le> 460\<close> by (simp add: RECIPIENT_TOKEN_PREFIX_def)
  ultimately show ?thesis using dec(1) by (auto simp: d_def body_def simp del: foldr.simps)
qed

lemma token_payload_chat_error: "token_payload v = Inl e \<Longrightarrow> e = ChatError (lit ''recipient token is invalid'')"
  by (cases v) (auto simp: token_payload_def Let_def res_simps token_error_def checked_handle_def
      checked_node_id_def except_chat_def valid_simps dest: get_err
      split: if_splits option.splits sum.splits)

lemma token_payload_valid:
  "token_payload v = Inr t \<Longrightarrow> hex64 (t_handle t) \<and> uuid_shape (t_generation t) \<and>
     (case t_scope t of
        Local \<Rightarrow> t_node_id t = None \<and> (\<exists>x. t_origin t = Some x \<and> hex64 x)
      | Remote \<Rightarrow> t_origin t = None \<and> (\<exists>n. t_node_id t = Some n \<and> node_id_shape n))"
  by (cases v) (auto simp: token_payload_def Let_def res_simps token_error_def valid_simps
      split: if_splits option.splits)

section \<open>Remote envelopes\<close>

text \<open>\<open>remote_envelope\<close> of transport.py; the arguments are evaluated in this order.\<close>

definition remote_envelope ::
  "pyenv \<Rightarrow> str \<Rightarrow> str \<Rightarrow> str \<Rightarrow> str \<Rightarrow> str \<Rightarrow> str \<Rightarrow> str res" where
  "remote_envelope E event_id source_alias source_generation target_alias generation message =
     bind (valid_uuid event_id ''event id'') (\<lambda>e.
     bind (valid_name E source_alias ''source alias'') (\<lambda>sa.
     bind (valid_uuid source_generation ''source generation'') (\<lambda>sg.
     bind (valid_name E target_alias ''target alias'') (\<lambda>ta.
     bind (valid_uuid generation ''target generation'') (\<lambda>g.
     bind (bounded_message message) (\<lambda>m.
     Inr (dumps (float_repr E) False
            (JObj [(lit ''schema_version'', JInt 1), (lit ''event_id'', JStr e),
                   (lit ''source_alias'', JStr sa), (lit ''source_generation'', JStr sg),
                   (lit ''target_alias'', JStr ta), (lit ''generation'', JStr g),
                   (lit ''message'', JStr m)]) @ [10])))))))"

definition envelope_fields :: "string list" where
  "envelope_fields = [''schema_version'', ''event_id'', ''source_alias'', ''source_generation'',
     ''target_alias'', ''generation'', ''message'']"

text \<open>
  \<open>parse_remote_envelope\<close> of remote.py. The text is encoded first, outside the handler; the
  handler catches only decoding errors, so an integer with more than 4300 digits leaves it as
  ValueError.
\<close>

definition parse_remote_envelope :: "pyenv \<Rightarrow> str \<Rightarrow> (str \<times> str \<times> str \<times> str \<times> str \<times> str) res" where
  "parse_remote_envelope E tx =
     bind (encode tx) (\<lambda>b.
     if 64 * 1024 < length b then fail ''remote envelope is invalid''
     else
       bind (except_chat (\<lambda>e. e = UnicodeError \<or> e = JSONDecodeError) ''remote envelope is invalid''
              (loads (float_parse E) tx)) (\<lambda>raw.
       case raw of
         JObj d \<Rightarrow>
           if \<not> has_keys d envelope_fields then fail ''remote envelope is invalid''
           else if \<not> field_eq_int d ''schema_version'' 1 then fail ''remote envelope is invalid''
           else
             bind (get_str ''remote envelope is invalid'' d ''event_id'') (\<lambda>event_id.
             bind (get_str ''remote envelope is invalid'' d ''source_alias'') (\<lambda>source_alias.
             bind (get_str ''remote envelope is invalid'' d ''source_generation'') (\<lambda>source_generation.
             bind (get_str ''remote envelope is invalid'' d ''target_alias'') (\<lambda>target_alias.
             bind (get_str ''remote envelope is invalid'' d ''generation'') (\<lambda>generation.
             bind (get_str ''remote envelope is invalid'' d ''message'') (\<lambda>message.
             bind (valid_uuid event_id ''event id'') (\<lambda>e.
             bind (valid_name E source_alias ''source alias'') (\<lambda>sa.
             bind (valid_uuid source_generation ''source generation'') (\<lambda>sg.
             bind (valid_name E target_alias ''target alias'') (\<lambda>ta.
             bind (valid_uuid generation ''target generation'') (\<lambda>g.
             bind (bounded_message message) (\<lambda>m.
             Inr (e, sa, sg, ta, g, m)))))))))))))
       | _ \<Rightarrow> fail ''remote envelope is invalid''))"

lemma esc_growth6: "utf8_len (json_str False m) \<le> 6 * utf8_len m + 2"
proof -
  have "utf8_len (concat (map (esc_char False) m)) \<le> 6 * utf8_len m"
  proof (induction m)
    case (Cons c m)
    with esc_char_growth [of c] show ?case by (simp add: utf8_len_Cons split: if_splits)
  qed simp
  moreover have "length (utf8_char 34) = 1" by (simp add: utf8_char_def)
  ultimately show ?thesis by (simp add: json_str_def utf8_len_Cons)
qed

lemma json_len24: "utf8_len (json_str False s) \<le> 24 * length s + 2"
proof -
  have "utf8_len s \<le> 4 * length s"
  proof (induction s)
    case (Cons c s)
    with utf8_char_length [of c] show ?case by (simp add: utf8_len_Cons)
  qed simp
  with esc_growth6 [of s] show ?thesis by simp
qed

lemma name_json_len: "name_shape E s \<Longrightarrow> utf8_len (json_str False s) \<le> 3074"
  using json_len24 [of s] by (simp add: name_shape_def)

lemma uuid_json_len: "uuid_shape s \<Longrightarrow> utf8_len (json_str False s) = 38"
proof -
  assume u: "uuid_shape s"
  then have t: "list_all tame s" by (rule tame_uuid)
  have "utf8_len (34 # s @ [34]) = 38"
    using utf8_len_ascii [of "34 # s @ [34]"] tame_small [OF t] u by (simp add: uuid_shape_def)
  with json_str_tame [OF t] show ?thesis by simp
qed

definition envelope_dict :: "str \<Rightarrow> str \<Rightarrow> str \<Rightarrow> str \<Rightarrow> str \<Rightarrow> str \<Rightarrow> dict" where
  "envelope_dict e sa sg ta g m =
     [(lit ''schema_version'', JInt 1), (lit ''event_id'', JStr e),
      (lit ''source_alias'', JStr sa), (lit ''source_generation'', JStr sg),
      (lit ''target_alias'', JStr ta), (lit ''generation'', JStr g), (lit ''message'', JStr m)]"

lemma envelope_len:
  assumes "uuid_shape e" "name_shape E sa" "uuid_shape sg" "name_shape E ta" "uuid_shape g" "message_shape m"
  shows "utf8_len (dumps fr False (JObj (envelope_dict e sa sg ta g m)) @ [10]) \<le> 65536"
proof -
  have c: "length (utf8_char 44) = 1" "length (utf8_char 58) = 1" "length (utf8_char 123) = 1"
    "length (utf8_char 125) = 1" "length (utf8_char 10) = 1" "length (utf8_char 49) = 1"
    by (simp_all add: utf8_char_def)
  have "utf8_len (json_str False m) \<le> 32770" using assms(6) by (simp add: message_shape_def)
  moreover have "int_str 1 = [49]" by (simp add: int_str_def dec_str.simps)
  ultimately show ?thesis
    using name_json_len [OF assms(2)] name_json_len [OF assms(4)] uuid_json_len [OF assms(1)]
      uuid_json_len [OF assms(3)] uuid_json_len [OF assms(5)] json_len24 [of "lit ''schema_version''"]
      json_len24 [of "lit ''event_id''"] json_len24 [of "lit ''source_alias''"]
      json_len24 [of "lit ''source_generation''"] json_len24 [of "lit ''target_alias''"]
      json_len24 [of "lit ''generation''"] json_len24 [of "lit ''message''"]
    by (simp add: envelope_dict_def utf8_len_Cons c)
qed

lemma scalarI: "list_all is_code_point s \<Longrightarrow> list_all (\<lambda>c. \<not> is_surrogate c) s \<Longrightarrow> list_all is_scalar s"
  by (auto simp: list_all_iff is_scalar_def)

lemma name_scalar: "name_shape E s \<Longrightarrow> list_all is_code_point s \<Longrightarrow> list_all is_scalar s"
  by (auto simp: name_shape_def list_all_iff is_scalar_def)

lemma remote_envelope_iff:
  "remote_envelope E e sa sg ta g m = Inr t \<longleftrightarrow>
     uuid_shape e \<and> name_shape E sa \<and> uuid_shape sg \<and> name_shape E ta \<and> uuid_shape g \<and> message_shape m \<and>
     t = dumps (float_repr E) False (JObj (envelope_dict e sa sg ta g m)) @ [10]"
  by (auto simp: remote_envelope_def envelope_dict_def res_simps valid_simps simp del: dumps.simps)

lemma envelope_loads:
  assumes "uuid_shape e" "name_shape E sa" "uuid_shape sg" "name_shape E ta" "uuid_shape g" "message_shape m"
    and "list_all is_code_point sa" "list_all is_code_point ta" "list_all is_code_point m"
    and t_def: "t = dumps fr False (JObj (envelope_dict e sa sg ta g m)) @ [10]"
  shows "loads fp t = Inr (JObj (envelope_dict e sa sg ta g m))" and "\<exists>b. encode t = Inr b \<and> length b \<le> 65536"
proof -
  have sc: "list_all is_scalar e" "list_all is_scalar sa" "list_all is_scalar sg" "list_all is_scalar ta"
    "list_all is_scalar g" "list_all is_scalar m"
    using assms name_scalar [of E] uuid_scalar by (auto simp: message_shape_def intro: scalarI)
  have pl: "plain a (JObj (envelope_dict e sa sg ta g m))" for a
    by (simp add: envelope_dict_def scalar_printable [OF sc(1)] scalar_printable [OF sc(2)]
        scalar_printable [OF sc(3)] scalar_printable [OF sc(4)] scalar_printable [OF sc(5)]
        scalar_printable [OF sc(6)])
  show "loads fp t = Inr (JObj (envelope_dict e sa sg ta g m))"
    unfolding t_def by (rule loads_dumps_trailing [OF pl]) (simp add: is_ws_def)
  have "list_all is_scalar t" unfolding t_def using scalar_dumps [OF pl, of fr False] by (simp add: scalar_small)
  then have "encode t = Inr (concat (map utf8_char t))"
    by (auto simp: encode_def utf8_encode_def list_all_iff is_scalar_def)
  moreover have "length (concat (map utf8_char t)) \<le> 65536"
    using envelope_len [OF assms(1-6), of fr] by (simp add: t_def utf8_len_def del: dumps.simps)
  ultimately show "\<exists>b. encode t = Inr b \<and> length b \<le> 65536" by blast
qed

lemma envelope_read_back:
  assumes "remote_envelope E e sa sg ta g m = Inr t"
    and "list_all is_code_point (sa @ ta @ m)"
  shows "parse_remote_envelope E t = Inr (e, sa, sg, ta, g, m)"
proof -
  have v: "uuid_shape e" "name_shape E sa" "uuid_shape sg" "name_shape E ta" "uuid_shape g" "message_shape m"
    and t: "t = dumps (float_repr E) False (JObj (envelope_dict e sa sg ta g m)) @ [10]"
    using assms(1) unfolding remote_envelope_iff by blast+
  have cp: "list_all is_code_point sa" "list_all is_code_point ta" "list_all is_code_point m" using assms(2) by auto
  note l = envelope_loads [OF v cp t]
  have f: "has_keys (envelope_dict e sa sg ta g m) envelope_fields"
    "field_eq_int (envelope_dict e sa sg ta g m) ''schema_version'' 1"
    "get_str x (envelope_dict e sa sg ta g m) ''event_id'' = Inr e"
    "get_str x (envelope_dict e sa sg ta g m) ''source_alias'' = Inr sa"
    "get_str x (envelope_dict e sa sg ta g m) ''source_generation'' = Inr sg"
    "get_str x (envelope_dict e sa sg ta g m) ''target_alias'' = Inr ta"
    "get_str x (envelope_dict e sa sg ta g m) ''generation'' = Inr g"
    "get_str x (envelope_dict e sa sg ta g m) ''message'' = Inr m" for x
    by (simp_all add: envelope_dict_def envelope_fields_def has_keys_def field_eq_int_def get_str_def insert_commute)
  have w: "valid_uuid e x = Inr e" "valid_name E sa x = Inr sa" "valid_uuid sg x = Inr sg"
    "valid_name E ta x = Inr ta" "valid_uuid g x = Inr g" "bounded_message m = Inr m" for x
    using v by (simp_all add: valid_simps)
  obtain b where "encode t = Inr b" "length b \<le> 65536" using l(2) by blast
  then show ?thesis using l(1) [of "float_parse E"] by (simp add: parse_remote_envelope_def f w)
qed

text \<open>The payloads of the two kinds of token, as they are read back.\<close>

lemma token_payload_local:
  "hex64 h \<Longrightarrow> uuid_shape g \<Longrightarrow> hex64 x \<Longrightarrow>
   token_payload (JObj [(lit ''v'', JInt 2), (lit ''s'', JStr (lit ''local'')), (lit ''h'', JStr h),
      (lit ''g'', JStr g), (lit ''o'', JStr x)]) =
   Inr \<lparr>t_scope = Local, t_handle = h, t_generation = g, t_node_id = None, t_origin = Some x\<rparr>"
  by (simp add: token_payload_def token_scope_def RECIPIENT_TOKEN_VERSION_def has_keys_def get_str_def checked_handle_def
      except_chat_def split: sum.splits) (auto simp: valid_simps)

lemma token_payload_remote:
  "hex64 h \<Longrightarrow> uuid_shape g \<Longrightarrow> node_id_shape n \<Longrightarrow>
   token_payload (JObj [(lit ''v'', JInt 2), (lit ''s'', JStr (lit ''remote'')), (lit ''h'', JStr h),
      (lit ''g'', JStr g), (lit ''n'', JStr n)]) =
   Inr \<lparr>t_scope = Remote, t_handle = h, t_generation = g, t_node_id = Some n, t_origin = None\<rparr>"
  by (simp add: token_payload_def token_scope_def RECIPIENT_TOKEN_VERSION_def has_keys_def get_str_def checked_handle_def
      checked_node_id_def except_chat_def split: sum.splits) (auto simp: valid_simps)

lemma local_token_parse:
  assumes "env_ok E" "local_token E canonical h g = Inr t"
  shows "\<exists>x. local_origin E canonical = Inr x \<and> length t \<le> 512 \<and>
    parse_recipient_token E t = Inr (Some \<lparr>t_scope = Local, t_handle = h, t_generation = g,
      t_node_id = None, t_origin = Some x\<rparr>)"
proof -
  from assms(2) obtain x where x: "hex64 h" "uuid_shape g" "local_origin E canonical = Inr x"
    "token_encode E [(lit ''v'', JInt 2), (lit ''s'', JStr (lit ''local'')), (lit ''h'', JStr h),
       (lit ''g'', JStr g), (lit ''o'', JStr x)] = Inr t"
    by (auto simp: local_token_def res_simps valid_simps RECIPIENT_TOKEN_VERSION_def)
  then have hx: "hex64 x" using env_ok_sha [OF assms(1)] by (auto simp: local_origin_def res_simps)
  have loc: "list_all tame (lit ''local'')" by (simp add: lit_def tame_def)
  have "length h + length g + length x + length (lit ''local'') \<le> 300"
    using x hx by (simp add: hex64_def uuid_shape_def)
  note p = token_parse [OF tame_hex64 [OF x(1)] tame_uuid [OF x(2)] tame_hex64 [OF hx] loc _ this, of "lit ''o''" E,
      unfolded x(4)]
  from p x(3) token_payload_local [OF x(1,2) hx] show ?thesis
    by auto
qed

lemma remote_token_ok:
  assumes "node_id_shape n" "hex64 h" "uuid_shape g"
  shows "\<exists>t. remote_token E n h g = Inr t"
proof -
  have tn: "list_all tame n" using assms(1) tame_alnum by (simp add: node_id_shape_def)
  have rem: "list_all tame (lit ''remote'')" by (simp add: lit_def tame_def)
  have v: "checked_handle h = Inr h" "valid_uuid g f = Inr g" "checked_node_id n = Inr n" for f
    using assms by (simp_all add: valid_simps)
  have "length h + length g + length n + length (lit ''remote'') \<le> 300"
    using assms by (simp add: hex64_def uuid_shape_def node_id_shape_def)
  from token_parse [OF tame_hex64 [OF assms(2)] tame_uuid [OF assms(3)] tn rem _ this, of "lit ''n''" E]
  show ?thesis by (auto simp: remote_token_def v RECIPIENT_TOKEN_VERSION_def)
qed

lemma remote_token_parse:
  assumes "remote_token E n h g = Inr t"
  shows "length t \<le> 512 \<and> parse_recipient_token E t = Inr (Some \<lparr>t_scope = Remote, t_handle = h,
      t_generation = g, t_node_id = Some n, t_origin = None\<rparr>)"
proof -
  from assms have x: "hex64 h" "uuid_shape g" "node_id_shape n"
    "token_encode E [(lit ''v'', JInt 2), (lit ''s'', JStr (lit ''remote'')), (lit ''h'', JStr h),
       (lit ''g'', JStr g), (lit ''n'', JStr n)] = Inr t"
    by (auto simp: remote_token_def res_simps valid_simps RECIPIENT_TOKEN_VERSION_def)
  have rem: "list_all tame (lit ''remote'')" by (simp add: lit_def tame_def)
  have tn: "list_all tame n" using x(3) tame_alnum by (simp add: node_id_shape_def)
  have "length h + length g + length n + length (lit ''remote'') \<le> 300"
    using x by (simp add: hex64_def uuid_shape_def node_id_shape_def)
  note p = token_parse [OF tame_hex64 [OF x(1)] tame_uuid [OF x(2)] tn rem _ this, of "lit ''n''" E, unfolded x(4)]
  from p token_payload_remote [OF x(1,2,3)] show ?thesis
    by auto
qed

section \<open>Properties\<close>

text \<open>
  Minted tokens are read back exactly: a local token parses to its handle, generation and the
  digest of the state root, a remote one to its handle, generation and node, and both have at most
  512 characters.
\<close>

theorem token_roundtrip:
  assumes "env_ok E"
  shows "(local_token E canonical h g = Inr t \<longrightarrow>
      (\<exists>x. local_origin E canonical = Inr x \<and> length t \<le> 512 \<and>
         parse_recipient_token E t = Inr (Some \<lparr>t_scope = Local, t_handle = h, t_generation = g,
           t_node_id = None, t_origin = Some x\<rparr>))) \<and>
    (remote_token E n h g = Inr t' \<longrightarrow>
       length t' \<le> 512 \<and>
       parse_recipient_token E t' = Inr (Some \<lparr>t_scope = Remote, t_handle = h, t_generation = g,
         t_node_id = Some n, t_origin = None\<rparr>))"
  using local_token_parse [OF assms] remote_token_parse by blast

lemma sample_node: "node_id_shape (lit ''nCNTRL'')"
  by (simp add: node_id_shape_def lit_def is_alnum_def is_lower_def is_upper_def)

lemma sample_remote_token: "\<exists>t. remote_token sample_env (lit ''nCNTRL'') (sample_hex64 97) (sample_uuid 50) = Inr t"
  by (rule remote_token_ok) (simp_all add: sample_node sample_simps)

theorem token_roundtrip_witness:
  "\<exists>t. remote_token sample_env (lit ''nCNTRL'') (sample_hex64 97) (sample_uuid 50) = Inr t \<and>
     parse_recipient_token sample_env t = Inr (Some \<lparr>t_scope = Remote, t_handle = sample_hex64 97,
       t_generation = sample_uuid 50, t_node_id = Some (lit ''nCNTRL''), t_origin = None\<rparr>)"
  using sample_remote_token
    token_roundtrip [OF sample_env_ok, of "[]" "sample_hex64 97" "sample_uuid 50" "[]" "lit ''nCNTRL''"] by blast

text \<open>
  Token parsing is strict: text without the prefix is no token; text with it is either refused
  with one fixed \<open>ChatError\<close> (never another exception), or gives a token with a well formed
  handle and generation and exactly one of node and origin, as its scope says.
\<close>

theorem token_parse_strict:
  "case parse_recipient_token E v of
     Inr None \<Rightarrow> \<not> starts_with (lit ''cac2.'') v
   | Inr (Some t) \<Rightarrow> starts_with (lit ''cac2.'') v \<and> length v \<le> 512 \<and> hex64 (t_handle t) \<and>
       uuid_shape (t_generation t) \<and>
       (case t_scope t of
          Local \<Rightarrow> t_node_id t = None \<and> (\<exists>x. t_origin t = Some x \<and> hex64 x)
        | Remote \<Rightarrow> t_origin t = None \<and> (\<exists>n. t_node_id t = Some n \<and> node_id_shape n))
   | Inl e \<Rightarrow> starts_with (lit ''cac2.'') v \<and> e = ChatError (lit ''recipient token is invalid'')"
proof (cases "parse_recipient_token E v")
  case (Inl e)
  have "loads_bytes E b = Inl x \<Longrightarrow> is_value_error x" for b x
    using loads_error by (fastforce simp: loads_bytes_def split: option.splits)
  then have "e = ChatError (lit ''recipient token is invalid'')"
    using Inl by (auto simp: parse_recipient_token_def Let_def res_simps token_error_def except_chat_def
        dest: token_payload_chat_error split: if_splits option.splits sum.splits)
  with Inl show ?thesis
    by (auto simp: parse_recipient_token_def RECIPIENT_TOKEN_PREFIX_def split: if_splits)
next
  case (Inr r)
  then show ?thesis
    by (cases r) (auto simp: parse_recipient_token_def RECIPIENT_TOKEN_PREFIX_def
        RECIPIENT_TOKEN_MAX_CHARS_def Let_def res_simps token_error_def split: if_splits
        dest!: token_payload_valid)
qed

text \<open>
  Remote envelopes are read back exactly: every envelope \<open>remote_envelope\<close> builds is accepted by
  \<open>parse_remote_envelope\<close>, within its 64 KiB bound, with the same event, aliases, generations and
  message.
\<close>

theorem envelope_roundtrip:
  assumes "remote_envelope E e sa sg ta g m = Inr t"
    and "list_all is_code_point (sa @ ta @ m)"
  shows "parse_remote_envelope E t = Inr (e, sa, sg, ta, g, m)"
  by (rule envelope_read_back [OF assms])

theorem envelope_roundtrip_witness:
  "\<exists>t. remote_envelope sample_env (sample_uuid 49) (lit ''a'') (sample_uuid 50) (lit ''b'') (sample_uuid 51) (lit ''hi'')
       = Inr t \<and>
     parse_remote_envelope sample_env t =
       Inr (sample_uuid 49, lit ''a'', sample_uuid 50, lit ''b'', sample_uuid 51, lit ''hi'')"
proof -
  have "message_shape (lit ''hi'')"
    using bounded_message_printable [of "lit ''hi''"]
    by (simp add: valid_simps lit_def is_surrogate_def utf8_len_def utf8_char_def)
  moreover have "name_shape sample_env (lit ''a'')" "name_shape sample_env (lit ''b'')"
    by (simp_all add: sample_name_shape lit_def)
  ultimately have r: "remote_envelope sample_env (sample_uuid 49) (lit ''a'') (sample_uuid 50) (lit ''b'') (sample_uuid 51) (lit ''hi'')
      = Inr (dumps (float_repr sample_env) False (JObj (envelope_dict (sample_uuid 49) (lit ''a'') (sample_uuid 50)
          (lit ''b'') (sample_uuid 51) (lit ''hi''))) @ [10])"
    by (simp add: remote_envelope_iff sample_simps del: dumps.simps)
  have "list_all is_code_point (lit ''a'' @ lit ''b'' @ lit ''hi'')"
    using lit_code_points by simp
  from envelope_roundtrip [OF r this] r show ?thesis by blast
qed

end
