(* ===== verification/Frames.thy ===== *)
theory Frames
  imports Disk
begin

text \<open>
  One JSON value per line, as the stdio server, the couriers and the brokers exchange them: a printed
  value contains no newline, and the bytes of a line are read back to the value.
\<close>

section \<open>Lines of JSON\<close>

text \<open>A printed value contains no newline, so a line per value is a frame per value.\<close>

lemma esc_char_no_newline: "10 \<notin> set (esc_char a c)"
proof -
  have "hex_digit n \<noteq> 10" for n by (simp add: hex_digit_def)
  then show ?thesis by (auto simp: esc_char_def hex4_def)
qed

lemma intersperse_no_newline:
  "(\<And>x. x \<in> set xs \<Longrightarrow> 10 \<notin> set x) \<Longrightarrow> 10 \<notin> set (intersperse_comma xs)"
  by (induction xs rule: intersperse_comma.induct) auto

lemma json_str_no_newline: "10 \<notin> set (json_str a s)"
  by (auto simp: json_str_def esc_char_no_newline)

lemma dumps_no_newline: "plain b v \<Longrightarrow> 10 \<notin> set (dumps fr a v)"
proof (induction v)
  case (JInt i)
  then show ?case by (auto dest: int_str_digits simp: is_digit_def)
next
  case (JArr xs)
  then have "10 \<notin> set (dumps fr a x)" if "x \<in> set xs" for x using that by (auto simp: list_all_iff)
  with intersperse_no_newline [of "map (dumps fr a) xs"] show ?case by auto
next
  case (JObj kvs)
  then have "10 \<notin> set (json_str a (fst p) @ 58 # dumps fr a (snd p))" if "p \<in> set kvs" for p
    using that by (cases p) (force simp: list_all_iff json_str_no_newline)
  then have "10 \<notin> set (intersperse_comma (map (\<lambda>p. json_str a (fst p) @ 58 # dumps fr a (snd p)) kvs))"
    by (intro intersperse_no_newline) (simp only: set_map, erule imageE, simp only: simp_thms)
  then show ?case by simp
qed (auto simp: lit_def json_str_no_newline)

lemma utf8_no_newline: "10 \<notin> set s \<Longrightarrow> 10 \<notin> set (concat (map utf8_char s))"
  by (auto simp: utf8_char_def split: if_splits)

lemma plain_True_False: "plain True v \<Longrightarrow> plain False v"
  by (induction v) (auto simp: list_all_iff printable_def split: prod.splits)

lemma loads_utf8_ws:
  assumes "plain True v" "dumps fr False v = 123 # 34 # r" "list_all is_ws w"
  shows "loads_bytes E (concat (map utf8_char (dumps fr False v @ w))) = Inr v"
proof -
  let ?t = "dumps fr False v @ w"
  have "list_all is_scalar w" using assms(3) by (auto simp: list_all_iff is_ws_def intro!: scalar_small)
  then have sc: "list_all is_scalar ?t" using scalar_dumps [OF assms(1)] by simp
  have pe: "concat (map utf8_char ?t) = 123 # 34 # concat (map utf8_char (r @ w))"
    by (simp add: assms(2) utf8_char_def)
  have "utf8_decode True (concat (map utf8_char ?t)) = Some ?t"
    using utf8_decode_encode_append [OF sc, of True "[]"] by simp
  then show ?thesis
    unfolding pe using loads_bytes_ascii_start [of 123 34 _ ?t E]
      loads_dumps_trailing [OF plain_True_False [OF assms(1)] assms(3), of "float_parse E" fr]
    by (simp del: utf8_decode.simps)
qed

lemma loads_utf8:
  assumes "plain True v" "dumps fr False v = 123 # 34 # r"
  shows "loads_bytes E (concat (map utf8_char (dumps fr False v @ [10]))) = Inr v"
  using loads_utf8_ws [OF assms, of "[10]"] by (simp add: is_ws_def)

definition json_line :: "pyenv \<Rightarrow> json \<Rightarrow> bytes" where
  "json_line E v = concat (map utf8_char (dumps (float_repr E) False v @ [10]))"

end
