(* ===== verification/Mcp.thy ===== *)
theory Mcp
  imports Tokens Frames
begin

text \<open>
  mcp_server.py: the stdio JSON-RPC surface. Frames are cut from the byte stream with a bounded
  reader, decoded, and handled by a session with three phases. The callbacks are parameters:
  \<open>dispatch\<close> is a function of the method, the parameters and the state \<open>'w\<close> of everything outside
  this module, and returns its answer and the new state, so that an effect is a change of \<open>'w\<close>.
\<close>

section \<open>Frames\<close>

definition MAX_FRAME_BYTES :: nat where "MAX_FRAME_BYTES = 65536"

datatype frame = Frame bytes | DroppedFrame str

text \<open>\<^verbatim>\<open>stream.readline(n)\<close>: the next line, cut after \<open>n\<close> bytes; and what follows.\<close>

fun readline :: "nat \<Rightarrow> bytes \<Rightarrow> bytes \<times> bytes" where
  "readline 0 s = ([], s)"
| "readline (Suc n) [] = ([], [])"
| "readline (Suc n) (c # s) =
     (if c = 10 then ([c], s) else (c # fst (readline n s), snd (readline n s)))"

lemma readline_length: "length (fst (readline n s)) + length (snd (readline n s)) = length s"
  by (induction n s rule: readline.induct) auto

lemma readline_shorter: "fst (readline n s) \<noteq> [] \<Longrightarrow> length (snd (readline n s)) < length s"
  using readline_length [of n s] by (cases "fst (readline n s)") auto

lemma readline_empty: "0 < n \<Longrightarrow> fst (readline n s) = [] \<longleftrightarrow> s = []"
  by (cases n; cases s) auto

function discard_line_remainder :: "nat \<Rightarrow> bytes \<Rightarrow> bytes" where
  "discard_line_remainder limit s =
     (let chunk = fst (readline (Suc limit) s); rest = snd (readline (Suc limit) s) in
      if chunk = [] \<or> last chunk = 10 then rest else discard_line_remainder limit rest)"
  by pat_completeness auto
termination
  by (relation "measure (\<lambda>(_, s). length s)") (auto dest: readline_shorter)

declare discard_line_remainder.simps [simp del]

lemma discard_length: "length (discard_line_remainder limit s) \<le> length s"
proof (induction limit s rule: discard_line_remainder.induct)
  case (1 limit s)
  have le: "length (snd (readline (Suc limit) s)) \<le> length s"
    using readline_length [of "Suc limit" s] by simp
  show ?case
    by (subst discard_line_remainder.simps) (use 1 le in \<open>auto simp: Let_def intro: order.trans\<close>)
qed

text \<open>
  The whole sequence of frames a byte stream yields. The stream is the byte buffer of the
  standard input, which never raises UnicodeDecodeError.
\<close>

function read_frames :: "nat \<Rightarrow> bytes \<Rightarrow> frame list" where
  "read_frames limit s =
     (let data = fst (readline (Suc limit) s); rest = snd (readline (Suc limit) s) in
      if data = [] then []
      else if limit < length data then
        DroppedFrame (lit ''request exceeds the bounded limit'') #
          read_frames limit (if last data \<noteq> 10 then discard_line_remainder limit rest else rest)
      else Frame data # read_frames limit rest)"
  by pat_completeness auto
termination
proof (relation "measure (\<lambda>(_, s). length s)", goal_cases)
  case (2 limit s data rest)
  then show ?case
    using readline_shorter [of "Suc limit" s] discard_length [of limit rest]
    by (auto intro: order.strict_trans1)
qed (auto dest: readline_shorter)

declare read_frames.simps [simp del]

lemma read_frames_Nil [simp]: "read_frames limit [] = []"
  by (subst read_frames.simps) simp

text \<open>What the reader must do, line by line: the lines of the input, each with its newline.\<close>

fun lines_of :: "bytes \<Rightarrow> bytes list" where
  "lines_of [] = []"
| "lines_of (c # s) =
     (if c = 10 then [c] # lines_of s
      else case lines_of s of [] \<Rightarrow> [[c]] | l # ls \<Rightarrow> (c # l) # ls)"

definition classify_line :: "nat \<Rightarrow> bytes \<Rightarrow> frame" where
  "classify_line limit l =
     (if limit < length l then DroppedFrame (lit ''request exceeds the bounded limit'') else Frame l)"

lemma lines_of_line: "10 \<notin> set l \<Longrightarrow> lines_of (l @ 10 # r) = (l @ [10]) # lines_of r"
  by (induction l) auto

lemma lines_of_last: "10 \<notin> set l \<Longrightarrow> l \<noteq> [] \<Longrightarrow> lines_of l = [l]"
proof (induction l)
  case (Cons c l)
  then show ?case by (cases l) auto
qed simp

lemma readline_line:
  "10 \<notin> set l \<Longrightarrow> length l < n \<Longrightarrow> readline n (l @ 10 # r) = (l @ [10], r)"
proof (induction l arbitrary: n)
  case Nil
  then show ?case by (cases n) auto
next
  case (Cons c l)
  then show ?case by (cases n) auto
qed

lemma readline_cut:
  "10 \<notin> set l \<Longrightarrow> n \<le> length l \<Longrightarrow> readline n (l @ r) = (take n l, drop n l @ r)"
proof (induction l arbitrary: n)
  case (Cons c l)
  then show ?case by (cases n) auto
qed simp

lemma readline_last: "10 \<notin> set l \<Longrightarrow> length l < n \<Longrightarrow> readline n l = (l, [])"
proof (induction l arbitrary: n)
  case Nil
  then show ?case by (cases n) auto
next
  case (Cons c l)
  then show ?case by (cases n) auto
qed

lemma last_no_newline: "10 \<notin> set l \<Longrightarrow> l \<noteq> [] \<Longrightarrow> last l \<noteq> 10"
  by (metis last_in_set)

text \<open>The rest of an oversized line is consumed up to its newline, or to the end.\<close>

lemma discard_to_newline:
  "10 \<notin> set l \<Longrightarrow> discard_line_remainder limit (l @ 10 # r) = r"
proof (induction "length l" arbitrary: l rule: less_induct)
  case less
  show ?case
  proof (cases "length l < Suc limit")
    case True
    with less.prems show ?thesis
      by (subst discard_line_remainder.simps) (simp add: readline_line)
  next
    case False
    have t: "take (Suc limit) l \<noteq> []" "10 \<notin> set (take (Suc limit) l)"
      using less.prems False by (auto dest: in_set_takeD)
    have d: "10 \<notin> set (drop (Suc limit) l)" using less.prems by (auto dest: in_set_dropD)
    have "length (drop (Suc limit) l) < length l" using False by simp
    with less.hyps d have "discard_line_remainder limit (drop (Suc limit) l @ 10 # r) = r" by blast
    with t False less.prems show ?thesis
      by (subst discard_line_remainder.simps)
        (simp add: readline_cut last_no_newline [OF t(2,1)] Let_def)
  qed
qed

lemma discard_to_end: "10 \<notin> set l \<Longrightarrow> discard_line_remainder limit l = []"
proof (induction "length l" arbitrary: l rule: less_induct)
  case less
  show ?case
  proof (cases "length l < Suc limit")
    case True
    with less.prems show ?thesis
      by (subst discard_line_remainder.simps)
        (auto simp: readline_last Let_def discard_line_remainder.simps [of limit "[]"])
  next
    case False
    have t: "take (Suc limit) l \<noteq> []" "10 \<notin> set (take (Suc limit) l)"
      using less.prems False by (auto dest: in_set_takeD)
    have d: "10 \<notin> set (drop (Suc limit) l)" using less.prems by (auto dest: in_set_dropD)
    have "length (drop (Suc limit) l) < length l" using False by simp
    with less.hyps d have "discard_line_remainder limit (drop (Suc limit) l) = []" by blast
    with t False less.prems readline_cut [of l "Suc limit" "[]"] show ?thesis
      by (subst discard_line_remainder.simps)
        (simp add: last_no_newline [OF t(2,1)] Let_def)
  qed
qed

lemma read_frames_line:
  assumes "10 \<notin> set l"
  shows "read_frames limit (l @ 10 # r) = classify_line limit (l @ [10]) # read_frames limit r"
proof (cases "length l < Suc limit")
  case True
  with assms show ?thesis
    by (subst read_frames.simps) (simp add: readline_line classify_line_def Let_def)
next
  case False
  have t: "take (Suc limit) l \<noteq> []" "10 \<notin> set (take (Suc limit) l)"
    using assms False by (auto dest: in_set_takeD)
  have d: "10 \<notin> set (drop (Suc limit) l)" using assms by (auto dest: in_set_dropD)
  show ?thesis
    using False assms t discard_to_newline [OF d, of limit r]
    by (subst read_frames.simps)
      (simp add: readline_cut last_no_newline [OF t(2,1)] classify_line_def Let_def)
qed

lemma read_frames_last:
  assumes "10 \<notin> set l" "l \<noteq> []"
  shows "read_frames limit l = [classify_line limit l]"
proof (cases "length l < Suc limit")
  case True
  have "read_frames limit [] = []" by (subst read_frames.simps) simp
  with True assms show ?thesis
    by (subst read_frames.simps) (simp add: readline_last classify_line_def Let_def)
next
  case False
  have t: "take (Suc limit) l \<noteq> []" "10 \<notin> set (take (Suc limit) l)"
    using assms False by (auto dest: in_set_takeD)
  have d: "10 \<notin> set (drop (Suc limit) l)" using assms by (auto dest: in_set_dropD)
  have "read_frames limit [] = []" by (subst read_frames.simps) simp
  with False assms t discard_to_end [OF d, of limit] readline_cut [of l "Suc limit" "[]"]
  show ?thesis
    by (subst read_frames.simps)
      (simp add: last_no_newline [OF t(2,1)] classify_line_def Let_def)
qed

lemma read_frames_lines: "read_frames limit s = map (classify_line limit) (lines_of s)"
proof (induction "length s" arbitrary: s rule: less_induct)
  case less
  show ?case
  proof (cases "10 \<in> set s")
    case True
    then obtain l r where s: "s = l @ 10 # r" "10 \<notin> set l" by (metis split_list_first)
    with less [of r] show ?thesis by (simp add: read_frames_line lines_of_line)
  next
    case False
    then show ?thesis
      by (cases "s = []") (simp_all add: read_frames_last lines_of_last read_frames.simps [of _ "[]"])
  qed
qed

section \<open>The session\<close>

datatype phase = AWAIT_INITIALIZE | AWAIT_INITIALIZED | OPERATIONAL

text \<open>What the dispatch callback does: return, raise \<open>MethodNotFound\<close>, or raise anything else.\<close>

datatype dispatch_result = Returned json | MethodNotFound | Raised exn

record session =
  s_phase :: phase
  s_seen_ids :: "json list"

definition new_session :: session where
  "new_session = \<lparr>s_phase = AWAIT_INITIALIZE, s_seen_ids = []\<rparr>"

definition rpc_success :: "json \<Rightarrow> json \<Rightarrow> json" where
  "rpc_success identifier result =
     JObj [(lit ''jsonrpc'', JStr (lit ''2.0'')), (lit ''id'', identifier), (lit ''result'', result)]"

definition rpc_error :: "json \<Rightarrow> int \<Rightarrow> str \<Rightarrow> json" where
  "rpc_error identifier code message =
     JObj [(lit ''jsonrpc'', JStr (lit ''2.0'')), (lit ''id'', identifier),
           (lit ''error'', JObj [(lit ''code'', JInt code), (lit ''message'', JStr message)])]"

definition PARSE_ERROR :: int where "PARSE_ERROR = - 32700"
definition INVALID_REQUEST :: int where "INVALID_REQUEST = - 32600"
definition METHOD_NOT_FOUND :: int where "METHOD_NOT_FOUND = - 32601"
definition INVALID_PARAMS :: int where "INVALID_PARAMS = - 32602"
definition INTERNAL_ERROR :: int where "INTERNAL_ERROR = - 32603"

fun valid_request_id :: "json \<Rightarrow> bool" where
  "valid_request_id (JStr _) = True"
| "valid_request_id (JInt _) = True"
| "valid_request_id _ = False"

definition is_str :: "json option \<Rightarrow> bool" where
  "is_str v = (case v of Some (JStr _) \<Rightarrow> True | _ \<Rightarrow> False)"

definition initialize_params_error :: "dict \<Rightarrow> string option" where
  "initialize_params_error params =
     (if (case jget params ''protocolVersion'' of Some (JStr s) \<Rightarrow> s = [] | _ \<Rightarrow> True)
      then Some ''initialize protocolVersion is invalid''
      else if (case jget params ''capabilities'' of Some (JObj _) \<Rightarrow> False | _ \<Rightarrow> True)
      then Some ''initialize capabilities is invalid''
      else
        case jget params ''clientInfo'' of
          Some (JObj info) \<Rightarrow>
            if \<not> is_str (jget info ''name'') then Some ''initialize clientInfo name is invalid''
            else if \<not> is_str (jget info ''version'') then Some ''initialize clientInfo version is invalid''
            else None
        | _ \<Rightarrow> Some ''initialize clientInfo is invalid'')"

type_synonym 'w dispatch = "str \<Rightarrow> dict \<Rightarrow> 'w \<Rightarrow> dispatch_result \<times> 'w"

text \<open>
  The end of \<open>_handle_one\<close>: a request whose identifier is valid and new, already recorded in the
  session. \<open>MethodNotFound\<close>, \<open>ChatError\<close> and every other exception of the callback are answered.
\<close>

definition handle_dispatch ::
  "'w dispatch \<Rightarrow> json \<Rightarrow> str \<Rightarrow> dict \<Rightarrow> session \<Rightarrow> 'w \<Rightarrow> json \<times> session \<times> 'w" where
  "handle_dispatch dispatch identifier m params s w =
     (if s_phase s \<noteq> OPERATIONAL then
        (rpc_error identifier INVALID_REQUEST (lit ''session is not initialized''), s, w)
      else
        case dispatch m params w of
          (Returned v, w') \<Rightarrow> (rpc_success identifier v, s, w')
        | (MethodNotFound, w') \<Rightarrow> (rpc_error identifier METHOD_NOT_FOUND (lit ''method not found''), s, w')
        | (Raised e, w') \<Rightarrow>
            (if is_chat_error e then rpc_error identifier INVALID_PARAMS (exn_text e)
             else rpc_error identifier INTERNAL_ERROR (lit ''internal error''), s, w'))"

definition handle_initialize :: "json \<Rightarrow> bool \<Rightarrow> json \<Rightarrow> dict \<Rightarrow> session \<Rightarrow> json \<times> session" where
  "handle_initialize init in_batch identifier params s =
     (if in_batch then
        (rpc_error identifier INVALID_REQUEST (lit ''initialize must not be sent in a batch''), s)
      else if s_phase s \<noteq> AWAIT_INITIALIZE then
        (rpc_error identifier INVALID_REQUEST (lit ''session is already initialized''), s)
      else
        case initialize_params_error params of
          Some e \<Rightarrow> (rpc_error identifier INVALID_PARAMS (lit e), s)
        | None \<Rightarrow> (rpc_success identifier init, s\<lparr>s_phase := AWAIT_INITIALIZED\<rparr>))"

definition handle_request ::
  "json \<Rightarrow> 'w dispatch \<Rightarrow> bool \<Rightarrow> json \<Rightarrow> dict \<Rightarrow> session \<Rightarrow> 'w \<Rightarrow> json \<times> session \<times> 'w" where
  "handle_request init dispatch in_batch identifier d s w =
     (case as_str (jget d ''method'') of
        None \<Rightarrow> (rpc_error identifier INVALID_REQUEST (lit ''invalid request''), s, w)
      | Some m \<Rightarrow>
          (case (case jget d ''params'' of None \<Rightarrow> JObj [] | Some p \<Rightarrow> p) of
             JObj params \<Rightarrow>
               if m = lit ''initialize'' then
                 (case handle_initialize init in_batch identifier params s of (r, s') \<Rightarrow> (r, s', w))
               else if m = lit ''ping'' then (rpc_success identifier (JObj []), s, w)
               else handle_dispatch dispatch identifier m params s w
           | _ \<Rightarrow> (rpc_error identifier INVALID_PARAMS (lit ''invalid params''), s, w)))"

text \<open>
  \<open>_handle_one\<close>: the answer, if any, the new session and the new outside state. The identifiers
  seen are strings and integers, so membership is equality.
\<close>

definition handle_one ::
  "json \<Rightarrow> 'w dispatch \<Rightarrow> bool \<Rightarrow> json \<Rightarrow> session \<Rightarrow> 'w \<Rightarrow> json option \<times> session \<times> 'w" where
  "handle_one init dispatch in_batch element s w =
     (let invalid = rpc_error JNull INVALID_REQUEST (lit ''invalid request'') in
      case element of
        JObj d \<Rightarrow>
          if jget d ''jsonrpc'' \<noteq> Some (JStr (lit ''2.0'')) then (Some invalid, s, w)
          else
            (case jget d ''id'' of
               None \<Rightarrow>
                 if jget d ''method'' = Some (JStr (lit ''notifications/initialized'')) \<and>
                    s_phase s = AWAIT_INITIALIZED
                 then (None, s\<lparr>s_phase := OPERATIONAL\<rparr>, w) else (None, s, w)
             | Some identifier \<Rightarrow>
                 if \<not> valid_request_id identifier then (Some invalid, s, w)
                 else if identifier \<in> set (s_seen_ids s)
                 then (Some (rpc_error identifier INVALID_REQUEST (lit ''request id was already used'')), s, w)
                 else
                   (case handle_request init dispatch in_batch identifier d
                           (s\<lparr>s_seen_ids := identifier # s_seen_ids s\<rparr>) w of
                      (r, s', w') \<Rightarrow> (Some r, s', w')))
      | _ \<Rightarrow> (Some invalid, s, w))"

fun handle_batch ::
  "json \<Rightarrow> 'w dispatch \<Rightarrow> json list \<Rightarrow> session \<Rightarrow> 'w \<Rightarrow> json list \<times> session \<times> 'w" where
  "handle_batch init dispatch [] s w = ([], s, w)"
| "handle_batch init dispatch (x # xs) s w =
     (case handle_one init dispatch True x s w of
        (r, s1, w1) \<Rightarrow>
          (case handle_batch init dispatch xs s1 w1 of
             (rs, s2, w2) \<Rightarrow> ((case r of None \<Rightarrow> rs | Some v \<Rightarrow> v # rs), s2, w2)))"

text \<open>\<open>handle\<close>: what is emitted (nothing, a response, or an array of responses).\<close>

definition handle :: "json \<Rightarrow> 'w dispatch \<Rightarrow> json \<Rightarrow> session \<Rightarrow> 'w \<Rightarrow> json list \<times> session \<times> 'w" where
  "handle init dispatch message s w =
     (case message of
        JArr [] \<Rightarrow> ([rpc_error JNull INVALID_REQUEST (lit ''invalid request'')], s, w)
      | JArr elements \<Rightarrow>
          (case handle_batch init dispatch elements s w of
             (responses, s', w') \<Rightarrow> (if responses = [] then [] else [JArr responses], s', w'))
      | _ \<Rightarrow>
          (case handle_one init dispatch False message s w of
             (r, s', w') \<Rightarrow> (case r of None \<Rightarrow> [] | Some v \<Rightarrow> [v], s', w')))"

text \<open>
  \<open>serve\<close>: the emitted values, the final session and outside state, and the exception that ended
  the loop, if one escaped it. Only JSONDecodeError and UnicodeDecodeError are caught.
\<close>

fun serve_frames ::
  "pyenv \<Rightarrow> json \<Rightarrow> 'w dispatch \<Rightarrow> frame list \<Rightarrow> session \<Rightarrow> 'w \<Rightarrow> json list \<times> session \<times> 'w \<times> exn option" where
  "serve_frames E init dispatch [] s w = ([], s, w, None)"
| "serve_frames E init dispatch (DroppedFrame m # fs) s w =
     (case serve_frames E init dispatch fs s w of
        (out, r) \<Rightarrow> (rpc_error JNull PARSE_ERROR m # out, r))"
| "serve_frames E init dispatch (Frame b # fs) s w =
     (case loads_bytes E b of
        Inl e \<Rightarrow>
          if e = JSONDecodeError \<or> e = UnicodeError then
            (case serve_frames E init dispatch fs s w of
               (out, r) \<Rightarrow> (rpc_error JNull PARSE_ERROR (lit ''parse error'') # out, r))
          else ([], s, w, Some e)
      | Inr message \<Rightarrow>
          (case handle init dispatch message s w of
             (o1, s1, w1) \<Rightarrow>
               (case serve_frames E init dispatch fs s1 w1 of (o2, r) \<Rightarrow> (o1 @ o2, r))))"

definition serve :: "pyenv \<Rightarrow> json \<Rightarrow> 'w dispatch \<Rightarrow> bytes \<Rightarrow> 'w \<Rightarrow> json list \<times> session \<times> 'w \<times> exn option" where
  "serve E init dispatch input w =
     serve_frames E init dispatch (read_frames MAX_FRAME_BYTES input) new_session w"

section \<open>The arguments of a send\<close>

definition TARGET_FIELDS :: "string list" where "TARGET_FIELDS = [''to'', ''recipient'', ''destination'']"
definition REPLY_HINTS :: "string list" where "REPLY_HINTS = [''wait_for_reply'', ''request_reply'']"

fun min_str :: "str \<Rightarrow> str list \<Rightarrow> str" where
  "min_str x [] = x"
| "min_str x (y # ys) = min_str (if str_less_eq x y then x else y) ys"

definition normalize_send_arguments :: "dict \<Rightarrow> (str \<times> str) res" where
  "normalize_send_arguments arguments =
     (let unknown = filter (\<lambda>k. k \<notin> set (map lit (TARGET_FIELDS @ [''message''] @ REPLY_HINTS)))
                      (map fst arguments);
          targets = filter (\<lambda>f. jget arguments f \<noteq> None) TARGET_FIELDS in
      case unknown of
        u # us \<Rightarrow> Inl (ChatError (lit ''unknown field: '' @ min_str u us))
      | [] \<Rightarrow>
          if length targets \<noteq> 1 then fail ''exactly one target field is required''
          else if list_ex (\<lambda>h. jget arguments h \<noteq> None \<and> jget arguments h \<noteq> Some (JBool False)) REPLY_HINTS
          then fail ''blocking replies are not supported''
          else
            case jget arguments (hd targets) of
              Some (JStr target) \<Rightarrow>
                if strip target = [] then fail ''target is invalid''
                else
                  (case jget arguments ''message'' of
                     Some (JStr message) \<Rightarrow> bind (bounded_message message) (\<lambda>m. Inr (target, m))
                   | _ \<Rightarrow> fail ''message is invalid'')
            | _ \<Rightarrow> fail ''target is invalid'')"

section \<open>One element\<close>

definition is_notification :: "json \<Rightarrow> bool" where
  "is_notification x = (case x of
     JObj d \<Rightarrow> jget d ''jsonrpc'' = Some (JStr (lit ''2.0'')) \<and> jget d ''id'' = None | _ \<Rightarrow> False)"

definition has_method :: "string \<Rightarrow> json \<Rightarrow> bool" where
  "has_method m x = (case x of JObj d \<Rightarrow> jget d ''method'' = Some (JStr (lit m)) | _ \<Rightarrow> False)"

text \<open>The identifier an answer to this element must carry: its own, or null if it is no valid one.\<close>

definition answer_id :: "json \<Rightarrow> json" where
  "answer_id x = (case x of
     JObj d \<Rightarrow>
       if jget d ''jsonrpc'' = Some (JStr (lit ''2.0''))
       then (case jget d ''id'' of Some i \<Rightarrow> if valid_request_id i then i else JNull | None \<Rightarrow> JNull)
       else JNull
   | _ \<Rightarrow> JNull)"

definition response_id :: "json \<Rightarrow> json option" where
  "response_id r = (case r of JObj d \<Rightarrow> jget d ''id'' | _ \<Rightarrow> None)"

lemma response_id_simps [simp]:
  "response_id (rpc_success i v) = Some i" "response_id (rpc_error i c m) = Some i"
  by (simp_all add: response_id_def rpc_success_def rpc_error_def)

lemmas handle_defs = handle_request_def handle_initialize_def handle_dispatch_def

lemma handle_request_id: "response_id (fst (handle_request init dsp b i d s w)) = Some i"
  by (auto simp: handle_defs split: json.split option.split dispatch_result.split prod.split)

lemma handle_request_seen: "s_seen_ids (fst (snd (handle_request init dsp b i d s w))) = s_seen_ids s"
  by (auto simp: handle_defs split: json.split option.split dispatch_result.split prod.split)

lemma handle_request_quiet:
  "s_phase s \<noteq> OPERATIONAL \<Longrightarrow> snd (snd (handle_request init dsp b i d s w)) = w \<and>
     s_phase (fst (snd (handle_request init dsp b i d s w))) \<noteq> OPERATIONAL"
  by (auto simp: handle_defs split: json.split option.split)

lemma handle_request_await:
  "s_phase s = AWAIT_INITIALIZE \<Longrightarrow> b \<or> jget d ''method'' \<noteq> Some (JStr (lit ''initialize'')) \<Longrightarrow>
   s_phase (fst (snd (handle_request init dsp b i d s w))) = AWAIT_INITIALIZE"
  by (auto simp: handle_defs as_str_def split: json.split option.split)

lemma handle_one_answer:
  "fst (handle_one init dsp b x s w) = None \<longleftrightarrow> is_notification x"
  by (auto simp: handle_one_def is_notification_def Let_def split: json.split option.split prod.split)

lemma handle_one_answer_id:
  "fst (handle_one init dsp b x s w) = Some r \<Longrightarrow> response_id r = Some (answer_id x)"
  using handle_request_id
  by (fastforce simp: handle_one_def answer_id_def Let_def case_prod_unfold
      split: json.splits option.splits if_splits)

lemma handle_one_quiet:
  "s_phase s \<noteq> OPERATIONAL \<Longrightarrow> snd (snd (handle_one init dsp b x s w)) = w"
  by (auto simp: handle_one_def Let_def case_prod_unfold handle_request_quiet split: json.split option.split)

lemma handle_one_await_initialize:
  "s_phase s = AWAIT_INITIALIZE \<Longrightarrow> b \<or> \<not> has_method ''initialize'' x \<Longrightarrow>
   s_phase (fst (snd (handle_one init dsp b x s w))) = AWAIT_INITIALIZE"
  by (auto simp: handle_one_def has_method_def Let_def case_prod_unfold handle_request_await
      split: json.split option.split)

lemma handle_one_await_initialized:
  "s_phase s \<noteq> OPERATIONAL \<Longrightarrow> \<not> (is_notification x \<and> has_method ''notifications/initialized'' x) \<Longrightarrow>
   s_phase (fst (snd (handle_one init dsp b x s w))) \<noteq> OPERATIONAL"
  by (auto simp: handle_one_def is_notification_def has_method_def Let_def case_prod_unfold
      handle_request_quiet split: json.split option.split)

lemma handle_one_seen_mono:
  "set (s_seen_ids s) \<subseteq> set (s_seen_ids (fst (snd (handle_one init dsp b x s w))))"
  by (auto simp: handle_one_def Let_def case_prod_unfold handle_request_seen split: json.split option.split)

lemma handle_one_seen:
  "answer_id x \<noteq> JNull \<Longrightarrow> answer_id x \<in> set (s_seen_ids (fst (snd (handle_one init dsp b x s w))))"
  by (auto simp: handle_one_def answer_id_def Let_def case_prod_unfold handle_request_seen
      split: json.splits option.splits if_splits)

lemma handle_one_repeat:
  "answer_id x \<in> set (s_seen_ids s) \<Longrightarrow> answer_id x \<noteq> JNull \<Longrightarrow>
   handle_one init dsp b x s w =
     (Some (rpc_error (answer_id x) INVALID_REQUEST (lit ''request id was already used'')), s, w)"
  by (auto simp: handle_one_def answer_id_def Let_def split: json.splits option.splits if_splits)

section \<open>Messages and frames\<close>

text \<open>The elements of a message, and those among them that need an answer.\<close>

definition elements :: "json \<Rightarrow> json list" where
  "elements x = (case x of JArr [] \<Rightarrow> [x] | JArr xs \<Rightarrow> xs | _ \<Rightarrow> [x])"

lemma handle_batch_Cons:
  "handle_batch init dsp (x # xs) s w =
     (let h = handle_one init dsp True x s w; t = handle_batch init dsp xs (fst (snd h)) (snd (snd h)) in
      ((case fst h of None \<Rightarrow> fst t | Some v \<Rightarrow> v # fst t), snd t))"
  by (simp add: Let_def case_prod_unfold)

declare handle_batch.simps(2) [simp del]

lemma handle_batch_answers:
  "map response_id (fst (handle_batch init dsp xs s w)) =
     map (\<lambda>x. Some (answer_id x)) (filter (\<lambda>x. \<not> is_notification x) xs)"
proof (induction xs arbitrary: s w)
  case (Cons x xs)
  show ?case
  proof (cases "fst (handle_one init dsp True x s w)")
    case None
    then have "is_notification x" using handle_one_answer by metis
    with None Cons show ?thesis by (simp add: handle_batch_Cons Let_def)
  next
    case (Some r)
    then have "\<not> is_notification x" using handle_one_answer [of init dsp True x s w] by simp
    with Some Cons handle_one_answer_id [OF Some] show ?thesis by (simp add: handle_batch_Cons Let_def)
  qed
qed simp

text \<open>
  An invariant of sessions and outside states that every element keeps is kept by batches,
  messages and whole runs.
\<close>

definition all_elements :: "(bool \<Rightarrow> json \<Rightarrow> bool) \<Rightarrow> json \<Rightarrow> bool" where
  "all_elements ok x = (case x of JArr xs \<Rightarrow> list_all (ok True) xs | _ \<Rightarrow> ok False x)"

definition all_frames :: "pyenv \<Rightarrow> (json \<Rightarrow> bool) \<Rightarrow> frame list \<Rightarrow> bool" where
  "all_frames E Q fs = list_all (\<lambda>f. case f of
      Frame b \<Rightarrow> (case loads_bytes E b of Inr x \<Rightarrow> Q x | Inl _ \<Rightarrow> True) | DroppedFrame _ \<Rightarrow> True) fs"

lemma handle_JArr:
  "handle init dsp (JArr (x # xs)) s w =
     (let t = handle_batch init dsp (x # xs) s w in (if fst t = [] then [] else [JArr (fst t)], snd t))"
  by (simp add: handle_def Let_def case_prod_unfold)

lemma handle_single:
  "\<nexists>xs. x = JArr xs \<Longrightarrow> handle init dsp x s w =
     (let t = handle_one init dsp False x s w in (case fst t of None \<Rightarrow> [] | Some v \<Rightarrow> [v], snd t))"
  by (cases x) (simp_all add: handle_def Let_def case_prod_unfold)

locale session_invariant =
  fixes init :: json and dsp :: "'w dispatch" and P :: "session \<Rightarrow> 'w \<Rightarrow> bool" and ok :: "bool \<Rightarrow> json \<Rightarrow> bool"
  assumes one: "P s w \<Longrightarrow> ok b x \<Longrightarrow> P (fst (snd (handle_one init dsp b x s w))) (snd (snd (handle_one init dsp b x s w)))"
begin

lemma batch_keeps:
  "P s w \<Longrightarrow> list_all (ok True) xs \<Longrightarrow>
   P (fst (snd (handle_batch init dsp xs s w))) (snd (snd (handle_batch init dsp xs s w)))"
  by (induction xs arbitrary: s w) (auto simp: handle_batch_Cons Let_def one)

lemma message_keeps:
  assumes "P s w" "all_elements ok x"
  shows "P (fst (snd (handle init dsp x s w))) (snd (snd (handle init dsp x s w)))"
proof (cases "\<exists>xs. x = JArr xs")
  case True
  then obtain xs where x: "x = JArr xs" by blast
  show ?thesis
  proof (cases xs)
    case Nil
    with x assms(1) show ?thesis by (simp add: handle_def)
  next
    case (Cons y ys)
    with x assms batch_keeps [of s w xs] show ?thesis by (simp add: handle_JArr Let_def all_elements_def)
  qed
next
  case False
  with assms one [of s w False x] show ?thesis
    by (simp add: handle_single Let_def) (cases x; simp add: all_elements_def)
qed

lemma frames_keep:
  "P s w \<Longrightarrow> all_frames E (all_elements ok) fs \<Longrightarrow>
   P (fst (snd (serve_frames E init dsp fs s w))) (fst (snd (snd (serve_frames E init dsp fs s w))))"
proof (induction fs arbitrary: s w)
  case (Cons f fs)
  show ?case
  proof (cases f)
    case (DroppedFrame m)
    with Cons show ?thesis by (auto simp: all_frames_def case_prod_unfold)
  next
    case (Frame b)
    show ?thesis
    proof (cases "loads_bytes E b")
      case (Inl e)
      with Cons Frame show ?thesis by (auto simp: all_frames_def case_prod_unfold)
    next
      case (Inr x)
      let ?h = "handle init dsp x s w"
      have "P (fst (snd ?h)) (snd (snd ?h))"
        using Cons.prems Frame Inr message_keeps [of s w x] by (simp add: all_frames_def)
      with Cons.IH [of "fst (snd ?h)" "snd (snd ?h)"] Cons.prems Frame Inr show ?thesis
        by (simp add: all_frames_def case_prod_unfold)
    qed
  qed
qed simp

end

text \<open>Before a standalone \<open>initialize\<close> nothing happens outside, whatever is sent.\<close>

interpretation before_initialize: session_invariant init dsp
  "\<lambda>s w. s_phase s = AWAIT_INITIALIZE \<and> w = w0" "\<lambda>b x. b \<or> \<not> has_method ''initialize'' x" for init dsp w0
  by unfold_locales (auto simp: handle_one_await_initialize handle_one_quiet)

text \<open>Nor before \<open>notifications/initialized\<close>.\<close>

interpretation before_initialized: session_invariant init dsp
  "\<lambda>s w. s_phase s \<noteq> OPERATIONAL \<and> w = w0"
  "\<lambda>b x. \<not> (is_notification x \<and> has_method ''notifications/initialized'' x)" for init dsp w0
  by unfold_locales (auto simp: handle_one_await_initialized handle_one_quiet)

text \<open>An identifier once seen stays seen.\<close>

interpretation seen_ids: session_invariant init dsp "\<lambda>s w. i \<in> set (s_seen_ids s)" "\<lambda>b x. True" for init dsp i
  by unfold_locales (rule subsetD [OF handle_one_seen_mono])

text \<open>Once every further element repeats a seen identifier, nothing happens outside any more.\<close>

interpretation replays: session_invariant init dsp
  "\<lambda>s w. I \<subseteq> set (s_seen_ids s) \<and> w = w0" "\<lambda>b x. answer_id x \<in> I \<and> answer_id x \<noteq> JNull" for init dsp I w0
  by unfold_locales (auto simp: handle_one_repeat subsetD)

section \<open>Lines of JSON as frames\<close>

lemma json_line_frames:
  assumes "list_all (\<lambda>v. plain True v \<and> length (json_line E v) \<le> limit) vs"
  shows "read_frames limit (concat (map (json_line E) vs)) = map (\<lambda>v. Frame (json_line E v)) vs"
  using assms
proof (induction vs)
  case Nil
  then show ?case by (subst read_frames.simps) simp
next
  case (Cons v vs)
  define l where "l = concat (map utf8_char (dumps (float_repr E) False v))"
  have l: "json_line E v = l @ [10]" by (simp add: json_line_def l_def utf8_char_def)
  have "10 \<notin> set l"
    unfolding l_def using Cons.prems dumps_no_newline by (intro utf8_no_newline) auto
  from read_frames_line [OF this, of limit "concat (map (json_line E) vs)"] Cons l show ?case
    by (simp add: classify_line_def)
qed

section \<open>Properties\<close>

text \<open>
  C24. Framing: the bounded reader cuts any byte stream into its lines. A line of at most the limit
  is a frame, byte for byte; a longer one is one dropped frame, and the next frame starts after its
  newline, so the tail of an oversized line is never read as a request.
\<close>

theorem read_frames_spec:
  "read_frames limit s = map (classify_line limit) (lines_of s) \<and> concat (lines_of s) = s \<and>
   (\<forall>l \<in> set (lines_of s). l \<noteq> [] \<and> 10 \<notin> set (butlast l)) \<and>
   (\<forall>f b. f \<in> set (read_frames limit s) \<longrightarrow> f = Frame b \<longrightarrow> length b \<le> limit)"
proof -
  have "concat (lines_of s) = s" by (induction s) (auto split: list.split)
  moreover have "l \<noteq> [] \<and> 10 \<notin> set (butlast l)" if "l \<in> set (lines_of s)" for l
    using that by (induction s arbitrary: l) (fastforce split: if_splits list.splits)+
  moreover have "classify_line limit l = Frame b \<Longrightarrow> length b \<le> limit" for l b
    by (auto simp: classify_line_def split: if_splits)
  ultimately show ?thesis by (auto simp: read_frames_lines)
qed

theorem read_frames_spec_witness:
  "read_frames 3 [65, 66, 67, 68, 69, 10, 70, 10] = [DroppedFrame (lit ''request exceeds the bounded limit''), Frame [70, 10]]"
  using read_frames_spec [of 3 "[65, 66, 67, 68, 69, 10, 70, 10]"] by (simp add: classify_line_def)


text \<open>A complete handshake followed by one call, on an outside state that counts calls.\<close>

definition sample_messages :: "json list" where
  "sample_messages =
     [JObj [(lit ''jsonrpc'', JStr (lit ''2.0'')), (lit ''id'', JInt 1), (lit ''method'', JStr (lit ''initialize'')),
            (lit ''params'', JObj [(lit ''protocolVersion'', JStr (lit ''1'')), (lit ''capabilities'', JObj []),
               (lit ''clientInfo'', JObj [(lit ''name'', JStr (lit ''c'')), (lit ''version'', JStr (lit ''1''))])])],
      JObj [(lit ''jsonrpc'', JStr (lit ''2.0'')), (lit ''method'', JStr (lit ''notifications/initialized''))],
      JObj [(lit ''jsonrpc'', JStr (lit ''2.0'')), (lit ''id'', JInt 2), (lit ''method'', JStr (lit ''call''))]]"

definition count_dispatch :: "nat dispatch" where
  "count_dispatch m p w = (Returned JNull, Suc w)"

lemma sample_messages_frames:
  "read_frames MAX_FRAME_BYTES (concat (map (json_line sample_env) sample_messages)) =
     map (\<lambda>v. Frame (json_line sample_env v)) sample_messages"
  "list_all (\<lambda>v. loads_bytes sample_env (json_line sample_env v) = Inr v) sample_messages"
proof -
  have pl: "list_all (plain True) sample_messages"
    by (simp add: sample_messages_def int_fits_small)
  have "list_all (\<lambda>v. \<exists>r. dumps (float_repr sample_env) False v = 123 # 34 # r) sample_messages"
    by (simp add: sample_messages_def json_str_def)
  with pl show "list_all (\<lambda>v. loads_bytes sample_env (json_line sample_env v) = Inr v) sample_messages"
    unfolding json_line_def list_all_iff using loads_utf8 by blast
  have "int_str 1 = [49]" "int_str 2 = [50]" by (simp_all add: int_str_def dec_str.simps)
  then have "list_all (\<lambda>v. length (json_line sample_env v) \<le> MAX_FRAME_BYTES) sample_messages"
    by (simp add: sample_messages_def json_line_def MAX_FRAME_BYTES_def lit_def json_str_def esc_char_def utf8_char_def)
  with pl show "read_frames MAX_FRAME_BYTES (concat (map (json_line sample_env) sample_messages)) =
     map (\<lambda>v. Frame (json_line sample_env v)) sample_messages"
    by (intro json_line_frames) (simp add: list_all_iff)
qed


text \<open>
  Answers: a message is answered by one response per element that is no notification, in order
  and with the identifier of the element (null where that is no string or integer); a batch of
  notifications is not answered at all.
\<close>

theorem handle_answers:
  "map response_id (case fst (handle init dsp x s w) of
       [] \<Rightarrow> [] | r # _ \<Rightarrow> (case r of JArr rs \<Rightarrow> rs | _ \<Rightarrow> [r])) =
     map (\<lambda>y. Some (answer_id y)) (filter (\<lambda>y. \<not> is_notification y) (elements x)) \<and>
   length (fst (handle init dsp x s w)) \<le> 1"
proof (cases "\<exists>xs. x = JArr xs")
  case True
  then obtain xs where x: "x = JArr xs" by blast
  show ?thesis
  proof (cases xs)
    case Nil
    with x show ?thesis
      by (simp add: handle_def elements_def is_notification_def answer_id_def)
        (simp add: rpc_error_def response_id_def)
  next
    case (Cons y ys)
    with x handle_batch_answers [of init dsp xs s w] show ?thesis
      by (auto simp: handle_JArr elements_def Let_def)
  qed
next
  case False
  then have el: "elements x = [x]" by (cases x) (auto simp: elements_def)
  show ?thesis
  proof (cases "fst (handle_one init dsp False x s w)")
    case None
    then have "is_notification x" by (simp add: handle_one_answer)
    with None False el show ?thesis by (simp add: handle_single Let_def)
  next
    case (Some r)
    then have n: "\<not> is_notification x" using handle_one_answer [of init dsp False x s w] by simp
    have "response_id r = Some (answer_id x)" using handle_one_answer_id [OF Some] .
    moreover from this obtain d where "r = JObj d" by (cases r) (auto simp: response_id_def)
    ultimately show ?thesis using Some False el n by (simp add: handle_single Let_def)
  qed
qed

text \<open>
  A request identifier takes effect at most once: after a message with that identifier has been
  handled, any later messages that only repeat used identifiers change nothing outside the session
  and never reach the dispatch callback, batches included.
\<close>

theorem request_id_once:
  assumes "answer_id x = i" "i \<noteq> JNull" "\<nexists>xs. x = JArr xs"
    and "handle init dsp x s w = (out, s1, w1)"
    and "all_frames E (all_elements (\<lambda>b y. answer_id y = i)) fs"
  shows "fst (snd (snd (serve_frames E init dsp fs s1 w1))) = w1"
proof -
  have "i \<in> set (s_seen_ids s1)"
    using handle_one_seen [of x init dsp False s w] assms(1-4) by (simp add: handle_single Let_def)
  moreover have "(\<lambda>(b::bool) y. answer_id y \<in> {i} \<and> answer_id y \<noteq> JNull) = (\<lambda>b y. answer_id y = i)"
    using assms(2) by (auto simp: fun_eq_iff)
  ultimately show ?thesis
    using replays.frames_keep [of "{i}" s1 w1 w1 E fs init dsp] assms(5) by auto
qed

theorem request_id_once_witness:
  "fst (snd (snd (serve_frames sample_env JNull count_dispatch [Frame (json_line sample_env (sample_messages ! 2))]
       (fst (snd (handle JNull count_dispatch (sample_messages ! 2) (new_session\<lparr>s_phase := OPERATIONAL\<rparr>) 0))) 1))) = 1"
proof -
  let ?x = "sample_messages ! 2"
  have a: "answer_id ?x = JInt 2" by (simp add: sample_messages_def answer_id_def)
  have b: "\<nexists>xs. ?x = JArr xs" by (simp add: sample_messages_def)
  have c: "handle JNull count_dispatch ?x (new_session\<lparr>s_phase := OPERATIONAL\<rparr>) 0 =
      (fst (handle JNull count_dispatch ?x (new_session\<lparr>s_phase := OPERATIONAL\<rparr>) 0),
       fst (snd (handle JNull count_dispatch ?x (new_session\<lparr>s_phase := OPERATIONAL\<rparr>) 0)), 1)"
    by (simp add: sample_messages_def handle_def handle_one_def handle_defs new_session_def count_dispatch_def)
  have d: "all_frames sample_env (all_elements (\<lambda>b y. answer_id y = JInt 2)) [Frame (json_line sample_env ?x)]"
    using sample_messages_frames(2)
    by (simp add: all_frames_def all_elements_def sample_messages_def answer_id_def)
  from request_id_once [OF a _ b c d] show ?thesis by simp
qed

text \<open>
  The arguments of a send: what \<open>normalize_send_arguments\<close> accepts names exactly one target in
  exactly one of the three fields, carries no unknown field and no truthy reply hint, and its
  message passed \<open>bounded_message\<close>; everything else is a \<open>ChatError\<close>.
\<close>

theorem normalize_send_spec:
  "(\<forall>target message. normalize_send_arguments d = Inr (target, message) \<longrightarrow>
      (\<exists>f \<in> set TARGET_FIELDS. jget d f = Some (JStr target) \<and>
         (\<forall>g \<in> set TARGET_FIELDS. g \<noteq> f \<longrightarrow> jget d g = None)) \<and>
      jget d ''message'' = Some (JStr message) \<and> message_shape message \<and> strip target \<noteq> [] \<and>
      (\<forall>h \<in> set REPLY_HINTS. jget d h = None \<or> jget d h = Some (JBool False)) \<and>
      set (map fst d) \<subseteq> set (map lit (TARGET_FIELDS @ [''message''] @ REPLY_HINTS))) \<and>
   (\<forall>e. normalize_send_arguments d = Inl e \<longrightarrow> is_chat_error e)"
proof (rule conjI; intro allI impI)
  let ?unknown = "filter (\<lambda>k. k \<notin> set (map lit (TARGET_FIELDS @ [''message''] @ REPLY_HINTS))) (map fst d)"
  let ?targets = "filter (\<lambda>f. jget d f \<noteq> None) TARGET_FIELDS"
  let ?hint = "list_ex (\<lambda>h. jget d h \<noteq> None \<and> jget d h \<noteq> Some (JBool False)) REPLY_HINTS"
  {
    fix target message
    assume a: "normalize_send_arguments d = Inr (target, message)"
    have u: "?unknown = []"
      using a by (cases ?unknown) (simp_all add: normalize_send_arguments_def Let_def)
    have t: "length ?targets = 1" and h: "\<not> ?hint"
      using a unfolding normalize_send_arguments_def Let_def u by (auto split: if_splits)
    from t obtain f where f: "?targets = [f]" by (auto simp: length_Suc_conv)
    have m: "jget d f = Some (JStr target)" "strip target \<noteq> []" "jget d ''message'' = Some (JStr message)"
      "message_shape message"
      using a t h unfolding normalize_send_arguments_def Let_def u f
      by (auto simp: res_simps valid_simps split: option.splits json.splits if_splits)
    have "f \<in> set TARGET_FIELDS" using filter_length1_hd [OF f] by blast
    moreover have "jget d g = None" if "g \<in> set TARGET_FIELDS" "g \<noteq> f" for g
    proof (rule ccontr)
      assume "jget d g \<noteq> None"
      with that(1) have "g \<in> set ?targets" by simp
      with that(2) f show False by simp
    qed
    moreover have "set (map fst d) \<subseteq> set (map lit (TARGET_FIELDS @ [''message''] @ REPLY_HINTS))"
      using u unfolding filter_empty_conv by blast
    moreover have "\<forall>h \<in> set REPLY_HINTS. jget d h = None \<or> jget d h = Some (JBool False)"
      using h unfolding list_ex_iff by blast
    ultimately show "(\<exists>f \<in> set TARGET_FIELDS. jget d f = Some (JStr target) \<and>
         (\<forall>g \<in> set TARGET_FIELDS. g \<noteq> f \<longrightarrow> jget d g = None)) \<and>
      jget d ''message'' = Some (JStr message) \<and> message_shape message \<and> strip target \<noteq> [] \<and>
      (\<forall>h \<in> set REPLY_HINTS. jget d h = None \<or> jget d h = Some (JBool False)) \<and>
      set (map fst d) \<subseteq> set (map lit (TARGET_FIELDS @ [''message''] @ REPLY_HINTS))"
      using m by blast
  next
    fix e
    assume a: "normalize_send_arguments d = Inl e"
    show "is_chat_error e"
    proof (cases ?unknown)
      case Nil
      show ?thesis using a unfolding normalize_send_arguments_def Let_def Nil
        by (auto simp: res_simps dest!: bounded_message_chat_error
            split: if_splits option.splits json.splits)
    next
      case (Cons x xs)
      then show ?thesis using a by (simp add: normalize_send_arguments_def Let_def) auto
    qed
  }
qed

theorem normalize_send_spec_witness:
  "\<exists>f \<in> set TARGET_FIELDS. jget [(lit ''to'', JStr (lit ''bob'')), (lit ''message'', JStr (lit ''hi''))] f = Some (JStr (lit ''bob''))"
proof -
  have "bounded_message (lit ''hi'') = Inr (lit ''hi'')"
    by (rule bounded_message_printable) (simp_all add: lit_def is_surrogate_def utf8_len_def utf8_char_def)
  then have "normalize_send_arguments [(lit ''to'', JStr (lit ''bob'')), (lit ''message'', JStr (lit ''hi''))] =
      Inr (lit ''bob'', lit ''hi'')"
    by (simp add: normalize_send_arguments_def TARGET_FIELDS_def REPLY_HINTS_def)
      (simp add: lit_def strip_def is_space_def)
  with normalize_send_spec [of "[(lit ''to'', JStr (lit ''bob'')), (lit ''message'', JStr (lit ''hi''))]"]
  show ?thesis by blast
qed

text \<open>
  The gap of the parse handler: a line with one integer of 4301 digits, well within the frame
  limit, is no parse error but a ValueError that ends the whole session.
\<close>

lemma serve_integer_limit:
  "serve E init dsp (replicate 4301 49 @ [10]) w = ([], new_session, w, Some ValueError)"
proof -
  have line: "read_frames MAX_FRAME_BYTES (replicate 4301 49 @ [10]) = [Frame (replicate 4301 49 @ [10])]"
    using read_frames_line [of "replicate 4301 49" MAX_FRAME_BYTES "[]"]
    by (simp add: classify_line_def MAX_FRAME_BYTES_def)
  show ?thesis unfolding serve_def line using loads_integer_limit [of "[10]" E] by simp
qed

end
