(* ===== verification/External.thy ===== *)
theory External
  imports Tokens
begin

text \<open>
  external.py: endpoints the owner enrolls, with a credential each, kept in their own table. The
  user id, the clock, fresh uuids and random secrets are arguments. Writes of the record file can
  fail before or after the rename in \<open>configure_callback\<close>, the one operation that handles that.
\<close>

section \<open>Endpoint\<close>

text \<open>A value for which \<^verbatim>\<open>isinstance(v, int)\<close> holds: booleans are integers in Python.\<close>

datatype pyint = PyInt int | PyBool bool

record endpoint =
  x_schema_version :: pyint
  x_endpoint_id :: str
  x_generation :: str
  x_owner_uid :: pyint
  x_device :: str
  x_name :: str
  x_context :: str
  x_credential_hash :: str
  x_expires_at :: "str option"
  x_revoked :: bool
  x_allowed_recipients :: "str list option"
  x_callback_ref :: "str option"

text \<open>\<open>_CALLBACK_VERSION\<close>: a hyphen, a uuid and \<^verbatim>\<open>.json\<close>.\<close>

definition callback_version :: "str \<Rightarrow> bool" where
  "callback_version s \<longleftrightarrow>
     length s = 42 \<and> hd s = 45 \<and> uuid_shape (take 36 (tl s)) \<and> drop 37 s = lit ''.json''"

definition callback_prefix :: "str \<Rightarrow> str" where
  "callback_prefix endpoint_id = lit ''external-callback-'' @ endpoint_id"

definition callback_ref_ok :: "str \<Rightarrow> str \<Rightarrow> bool" where
  "callback_ref_ok endpoint_id ref \<longleftrightarrow>
     starts_with (callback_prefix endpoint_id) ref \<and>
     (let suffix = drop (length (callback_prefix endpoint_id)) ref in
      suffix = lit ''.json'' \<or> callback_version suffix)"

text \<open>Every recipient of the scope must be a token; parsing may raise.\<close>

fun check_recipients :: "pyenv \<Rightarrow> str list \<Rightarrow> unit res" where
  "check_recipients E [] = Inr ()"
| "check_recipients E (r # rs) =
     bind (parse_recipient_token E r) (\<lambda>t.
     case t of None \<Rightarrow> fail ''external recipient scope is invalid'' | Some _ \<Rightarrow> check_recipients E rs)"

definition endpoint_post_init :: "pyenv \<Rightarrow> int \<Rightarrow> endpoint \<Rightarrow> endpoint res" where
  "endpoint_post_init E uid x =
     (if x_schema_version x \<noteq> PyInt 1 then fail ''external endpoint schema is unsupported''
      else
        bind (valid_uuid (x_endpoint_id x) ''external endpoint id'') (\<lambda>_.
        bind (valid_uuid (x_generation x) ''external endpoint generation'') (\<lambda>_.
        if x_owner_uid x \<noteq> PyInt uid then fail ''external endpoint owner is invalid''
        else
          bind (valid_device (x_device x)) (\<lambda>_.
          bind (valid_name E (x_name x) ''external endpoint name'') (\<lambda>_.
          bind (valid_name E (x_context x) ''owner-enrolled context'') (\<lambda>_.
          if \<not> hex64 (x_credential_hash x) then fail ''external credential verifier is invalid''
          else
            bind (case x_expires_at x of
                    None \<Rightarrow> Inr ()
                  | Some t \<Rightarrow>
                      (case fromisoformat E t of
                         None \<Rightarrow> fail ''external credential expiry is invalid''
                       | Some p \<Rightarrow> if \<not> fst p then fail ''external credential expiry is invalid'' else Inr ())) (\<lambda>_.
            bind (case x_allowed_recipients x of None \<Rightarrow> Inr () | Some rs \<Rightarrow> check_recipients E rs) (\<lambda>_.
            case x_callback_ref x of
              None \<Rightarrow> Inr x
            | Some ref \<Rightarrow>
                if callback_ref_ok (x_endpoint_id x) ref then Inr x
                else fail ''external callback reference is invalid''))))))))"

definition endpoint_key :: "pyenv \<Rightarrow> endpoint \<Rightarrow> str" where
  "endpoint_key E x =
     sha256hex E (concat (map utf8_char (lit ''cac-external-endpoint-v1'' @ 0 # x_endpoint_id x)))"

definition endpoint_alias :: "pyenv \<Rightarrow> endpoint \<Rightarrow> str" where
  "endpoint_alias E x =
     lit ''external@'' @ x_device x @ 58 # take 40 (x_name x) @ 58 # take 12 (endpoint_key E x)"

text \<open>\<open>available\<close> on a constructed endpoint, whose expiry is readable.\<close>

definition endpoint_available :: "pyenv \<Rightarrow> rat \<Rightarrow> endpoint \<Rightarrow> bool" where
  "endpoint_available E now x \<longleftrightarrow>
     \<not> x_revoked x \<and>
     (case x_expires_at x of
        None \<Rightarrow> True
      | Some t \<Rightarrow> (case fromisoformat E t of None \<Rightarrow> False | Some p \<Rightarrow> now < snd p))"

definition get_pyint :: "string \<Rightarrow> dict \<Rightarrow> string \<Rightarrow> pyint res" where
  "get_pyint m d k = (case jget d k of
     Some (JInt i) \<Rightarrow> Inr (PyInt i) | Some (JBool b) \<Rightarrow> Inr (PyBool b) | _ \<Rightarrow> fail m)"

definition optional_scope :: "json option \<Rightarrow> str list option res" where
  "optional_scope v =
     (case v of
        Some JNull \<Rightarrow> Inr None
      | Some (JArr xs) \<Rightarrow>
          bind (map_res (\<lambda>x. case x of JStr s \<Rightarrow> Inr s | _ \<Rightarrow> fail ''external recipient scope is invalid'') xs)
            (\<lambda>ss. Inr (Some ss))
      | _ \<Rightarrow> fail ''external recipient scope is invalid'')"

definition endpoint_fields :: "string list" where
  "endpoint_fields = [''schema_version'', ''endpoint_id'', ''generation'', ''owner_uid'', ''device'',
     ''name'', ''context'', ''credential_hash'', ''expires_at'', ''revoked'', ''allowed_recipients'',
     ''callback_ref'']"

definition endpoint_from_object :: "pyenv \<Rightarrow> int \<Rightarrow> json \<Rightarrow> endpoint res" where
  "endpoint_from_object E uid raw =
     (let m = ''external endpoint schema is unsupported'' in
      case raw of
        JObj d \<Rightarrow>
          if \<not> has_keys d endpoint_fields then fail m
          else
            bind (get_str m d ''endpoint_id'') (\<lambda>endpoint_id.
            bind (get_str m d ''generation'') (\<lambda>generation.
            bind (get_str m d ''device'') (\<lambda>device.
            bind (get_str m d ''name'') (\<lambda>name.
            bind (get_str m d ''context'') (\<lambda>context.
            bind (get_str m d ''credential_hash'') (\<lambda>credential_hash.
            bind (get_pyint m d ''schema_version'') (\<lambda>version.
            bind (get_pyint m d ''owner_uid'') (\<lambda>owner_uid.
            bind (get_bool m d ''revoked'') (\<lambda>revoked.
            bind (get_null_str m d ''expires_at'') (\<lambda>expires_at.
            bind (optional_scope (jget d ''allowed_recipients'')) (\<lambda>allowed.
            bind (get_null_str m d ''callback_ref'') (\<lambda>callback_ref.
            endpoint_post_init E uid
              \<lparr>x_schema_version = version, x_endpoint_id = endpoint_id, x_generation = generation,
               x_owner_uid = owner_uid, x_device = device, x_name = name, x_context = context,
               x_credential_hash = credential_hash, x_expires_at = expires_at, x_revoked = revoked,
               x_allowed_recipients = allowed, x_callback_ref = callback_ref\<rparr>))))))))))))
      | _ \<Rightarrow> fail m)"

definition json_pyint :: "pyint \<Rightarrow> json" where
  "json_pyint v = (case v of PyInt i \<Rightarrow> JInt i | PyBool b \<Rightarrow> JBool b)"

definition json_opt :: "str option \<Rightarrow> json" where
  "json_opt v = (case v of None \<Rightarrow> JNull | Some s \<Rightarrow> JStr s)"

text \<open>\<^verbatim>\<open>asdict(endpoint)\<close> as JSON.\<close>

definition endpoint_dict :: "endpoint \<Rightarrow> dict" where
  "endpoint_dict x =
     [(lit ''schema_version'', json_pyint (x_schema_version x)),
      (lit ''endpoint_id'', JStr (x_endpoint_id x)),
      (lit ''generation'', JStr (x_generation x)),
      (lit ''owner_uid'', json_pyint (x_owner_uid x)),
      (lit ''device'', JStr (x_device x)),
      (lit ''name'', JStr (x_name x)),
      (lit ''context'', JStr (x_context x)),
      (lit ''credential_hash'', JStr (x_credential_hash x)),
      (lit ''expires_at'', json_opt (x_expires_at x)),
      (lit ''revoked'', JBool (x_revoked x)),
      (lit ''allowed_recipients'', case x_allowed_recipients x of None \<Rightarrow> JNull | Some rs \<Rightarrow> JArr (map JStr rs)),
      (lit ''callback_ref'', json_opt (x_callback_ref x))]"

definition endpoint_to_dict :: "endpoint \<Rightarrow> json" where
  "endpoint_to_dict x = JObj (endpoint_dict x)"

definition endpoint_storable :: "pyenv \<Rightarrow> int \<Rightarrow> endpoint \<Rightarrow> bool" where
  "endpoint_storable E uid x \<longleftrightarrow> endpoint_post_init E uid x = Inr x \<and> plain True (endpoint_to_dict x)"

section \<open>Store\<close>

definition endpoints_json :: str where "endpoints_json = lit ''external-endpoints-v1.json''"

text \<open>Here the handler also catches ValueError, so every malformed file is a \<open>ChatError\<close>.\<close>

definition endpoints :: "pyenv \<Rightarrow> int \<Rightarrow> dir \<Rightarrow> endpoint list res" where
  "endpoints E uid d =
     (case files d endpoints_json of
        None \<Rightarrow> Inr []
      | Some f \<Rightarrow>
          bind (require_private_file d endpoints_json) (\<lambda>_.
          bind (except_chat (\<lambda>e. is_os_error e \<or> is_value_error e) ''external endpoint state is invalid''
                 (loads_file E f)) (\<lambda>raw.
          bind (rows_of (endpoint_from_object E uid) ''external endpoint schema is unsupported'' raw) (\<lambda>rows.
          if has_duplicates (map x_endpoint_id rows)
          then fail ''external endpoint state contains duplicate identities''
          else Inr rows))))"

definition endpoints_write :: "pyenv \<Rightarrow> dir \<Rightarrow> endpoint list \<Rightarrow> dir" where
  "endpoints_write E d rows = atomic_json E d endpoints_json (JArr (map endpoint_to_dict rows))"

definition credential_digest :: "pyenv \<Rightarrow> str \<Rightarrow> str" where
  "credential_digest E credential = sha256hex E (concat (map utf8_char credential))"

definition enroll ::
  "pyenv \<Rightarrow> int \<Rightarrow> str \<Rightarrow> str \<Rightarrow> str \<Rightarrow> dir \<Rightarrow> str \<Rightarrow> str \<Rightarrow> str \<Rightarrow> str option \<Rightarrow> str list option
     \<Rightarrow> (endpoint \<times> str \<times> dir) res" where
  "enroll E uid uuid1 uuid2 secret d device name context expires_at allowed_recipients =
     (let credential = uuid1 @ 46 # secret in
      bind (endpoint_post_init E uid
             \<lparr>x_schema_version = PyInt 1, x_endpoint_id = uuid1, x_generation = uuid2,
              x_owner_uid = PyInt uid, x_device = device, x_name = name, x_context = context,
              x_credential_hash = credential_digest E credential, x_expires_at = expires_at,
              x_revoked = False, x_allowed_recipients = allowed_recipients, x_callback_ref = None\<rparr>) (\<lambda>x.
      bind (endpoints E uid d) (\<lambda>existing.
      Inr (x, credential, endpoints_write E d (existing @ [x])))))"

text \<open>\<open>_CREDENTIAL\<close>: a uuid, a dot, and 64 hexadecimal digits.\<close>

definition credential_id :: "str \<Rightarrow> str option" where
  "credential_id c =
     (if length c = 101 \<and> uuid_shape (take 36 c) \<and> c ! 36 = 46 \<and> list_all is_hex (drop 37 c)
      then Some (take 36 c) else None)"

definition authenticate :: "pyenv \<Rightarrow> int \<Rightarrow> rat \<Rightarrow> dir \<Rightarrow> str \<Rightarrow> endpoint res" where
  "authenticate E uid now d credential =
     (case credential_id credential of
        None \<Rightarrow> fail ''external credential is unavailable; enroll this endpoint''
      | Some i \<Rightarrow>
          bind (endpoints E uid d) (\<lambda>rows.
          case the_one (\<lambda>x. x_endpoint_id x = i \<and> endpoint_available E now x \<and>
                            x_credential_hash x = credential_digest E credential) rows of
            None \<Rightarrow> fail ''external credential is unavailable; enroll this endpoint''
          | Some x \<Rightarrow> Inr x))"

definition replace_endpoint :: "endpoint \<Rightarrow> endpoint list \<Rightarrow> endpoint list" where
  "replace_endpoint x rows = map (\<lambda>y. if x_endpoint_id y = x_endpoint_id x then x else y) rows"

text \<open>\<^verbatim>\<open>sorted(set(xs))\<close>.\<close>

fun insert_str :: "str \<Rightarrow> str list \<Rightarrow> str list" where
  "insert_str x [] = [x]"
| "insert_str x (y # ys) = (if x = y then y # ys else if str_less_eq x y then x # y # ys else y # insert_str x ys)"

definition sorted_set :: "str list \<Rightarrow> str list" where
  "sorted_set xs = foldr insert_str xs []"

fun check_scope :: "pyenv \<Rightarrow> str \<Rightarrow> str list \<Rightarrow> unit res" where
  "check_scope E canonical [] = Inr ()"
| "check_scope E canonical (r # rs) =
     bind (parse_recipient_token E r) (\<lambda>t.
     case t of
       None \<Rightarrow> fail ''external recipient scope is invalid''
     | Some p \<Rightarrow>
         if t_scope p = Local then
           bind (local_origin E canonical) (\<lambda>o'.
           if t_origin p \<noteq> Some o' then fail ''external recipient scope is invalid''
           else check_scope E canonical rs)
         else check_scope E canonical rs)"

definition configure_scope ::
  "pyenv \<Rightarrow> int \<Rightarrow> rat \<Rightarrow> str \<Rightarrow> str \<Rightarrow> dir \<Rightarrow> str \<Rightarrow> str \<Rightarrow> str list \<Rightarrow> (endpoint \<times> bool \<times> dir) res" where
  "configure_scope E uid now uuid4 canonical d endpoint_id expected_generation allowed_recipients =
     bind (valid_uuid endpoint_id ''external endpoint id'') (\<lambda>identifier.
     bind (valid_uuid expected_generation ''external endpoint generation'') (\<lambda>generation.
     if allowed_recipients = [] then fail ''external recipient scope must contain at least one token''
     else
       let recipients = sorted_set allowed_recipients in
       bind (check_scope E canonical recipients) (\<lambda>_.
       bind (endpoints E uid d) (\<lambda>existing.
       case the_one (\<lambda>x. x_endpoint_id x = identifier \<and> x_generation x = generation \<and>
                         endpoint_available E now x) existing of
         None \<Rightarrow> fail ''external endpoint is unavailable or generation changed''
       | Some current \<Rightarrow>
           if (case x_allowed_recipients current of None \<Rightarrow> False | Some rs \<Rightarrow> set rs = set recipients)
           then Inr (current, False, d)
           else
             bind (endpoint_post_init E uid
                    (current\<lparr>x_generation := uuid4, x_allowed_recipients := Some recipients\<rparr>)) (\<lambda>updated.
             Inr (updated, True, endpoints_write E d (replace_endpoint updated existing)))))))"

definition endpoint_current :: "pyenv \<Rightarrow> int \<Rightarrow> rat \<Rightarrow> dir \<Rightarrow> endpoint \<Rightarrow> bool res" where
  "endpoint_current E uid now d x =
     (if \<not> endpoint_available E now x then Inr False
      else bind (endpoints E uid d) (\<lambda>rows. Inr (list_ex (\<lambda>y. y = x) rows)))"

definition rotate_endpoint ::
  "pyenv \<Rightarrow> int \<Rightarrow> rat \<Rightarrow> str \<Rightarrow> str \<Rightarrow> dir \<Rightarrow> str \<Rightarrow> (endpoint \<times> str \<times> dir) res" where
  "rotate_endpoint E uid now uuid4 secret d endpoint_id =
     bind (valid_uuid endpoint_id ''external endpoint id'') (\<lambda>identifier.
     let credential = identifier @ 46 # secret in
     bind (endpoints E uid d) (\<lambda>existing.
     case the_one (\<lambda>x. x_endpoint_id x = identifier \<and> endpoint_available E now x) existing of
       None \<Rightarrow> fail ''external endpoint is unavailable''
     | Some current \<Rightarrow>
         bind (endpoint_post_init E uid
                (current\<lparr>x_generation := uuid4, x_credential_hash := credential_digest E credential\<rparr>)) (\<lambda>x.
         Inr (x, credential, endpoints_write E d (replace_endpoint x existing)))))"

text \<open>
  The record write of \<open>configure_callback\<close> may fail before the rename, or after it (the directory
  fsync). The result is the answer or the exception, and in every case the directory left behind.
\<close>

datatype write_fault = NoFault | FailBeforeCommit | FailAfterCommit

definition new_callback_ref :: "str \<Rightarrow> str \<Rightarrow> str" where
  "new_callback_ref i uuid4 = callback_prefix i @ 45 # uuid4 @ lit ''.json''"

text \<open>The checks before the first write: the configuration, the stored row and the updated one.\<close>

definition callback_selection ::
  "pyenv \<Rightarrow> int \<Rightarrow> rat \<Rightarrow> str \<Rightarrow> dir \<Rightarrow> str \<Rightarrow> dict res \<Rightarrow> (dict \<times> endpoint list \<times> endpoint \<times> endpoint) res" where
  "callback_selection E uid now uuid4 d endpoint_id config =
     bind (valid_uuid endpoint_id ''external endpoint id'') (\<lambda>identifier.
     bind config (\<lambda>cfg.
     bind (endpoints E uid d) (\<lambda>existing.
     case the_one (\<lambda>x. x_endpoint_id x = identifier \<and> endpoint_available E now x) existing of
       None \<Rightarrow> fail ''external endpoint is unavailable''
     | Some current \<Rightarrow>
         bind (endpoint_post_init E uid
                (current\<lparr>x_generation := uuid4, x_callback_ref := Some (new_callback_ref identifier uuid4)\<rparr>))
           (\<lambda>x. Inr (cfg, existing, current, x)))))"

text \<open>Publish the new file, commit the record, and clean up after either outcome.\<close>

definition callback_commit ::
  "pyenv \<Rightarrow> int \<Rightarrow> write_fault \<Rightarrow> dir \<Rightarrow> str \<Rightarrow> dict \<Rightarrow> endpoint list \<Rightarrow> endpoint \<Rightarrow> endpoint
     \<Rightarrow> endpoint res \<times> dir" where
  "callback_commit E uid fault d ref cfg existing current x =
     (let d1 = atomic_json E d ref (JObj cfg);
          d2 = endpoints_write E d1 (replace_endpoint x existing)
      in if fault = NoFault then
           (Inr x,
            case x_callback_ref current of
              None \<Rightarrow> d2
            | Some previous \<Rightarrow> if previous \<noteq> ref then unlink d2 previous else d2)
         else
           let dw = (if fault = FailBeforeCommit then d1 else d2);
               orphan = (case endpoints E uid dw of
                           Inl _ \<Rightarrow> False
                         | Inr rows \<Rightarrow> \<not> list_ex (\<lambda>y. x_callback_ref y = Some ref) rows)
           in (Inl OSError, if orphan then unlink dw ref else dw))"

definition configure_callback ::
  "pyenv \<Rightarrow> int \<Rightarrow> rat \<Rightarrow> str \<Rightarrow> write_fault \<Rightarrow> dir \<Rightarrow> str \<Rightarrow> dict res \<Rightarrow> endpoint res \<times> dir" where
  "configure_callback E uid now uuid4 fault d endpoint_id config =
     (case callback_selection E uid now uuid4 d endpoint_id config of
        Inl e \<Rightarrow> (Inl e, d)
      | Inr (cfg, existing, current, x) \<Rightarrow>
          callback_commit E uid fault d (new_callback_ref (x_endpoint_id x) uuid4) cfg existing current x)"

text \<open>The callback files of an endpoint: the old fixed name and the generation-named copies.\<close>

definition is_callback_of :: "str \<Rightarrow> str \<Rightarrow> bool" where
  "is_callback_of identifier n \<longleftrightarrow>
     n = callback_prefix identifier @ lit ''.json'' \<or>
     (starts_with (callback_prefix identifier @ [45]) n \<and>
      ends_with (lit ''.json'') (drop (length (callback_prefix identifier) + 1) n))"

definition revoke_endpoint :: "pyenv \<Rightarrow> int \<Rightarrow> str \<Rightarrow> dir \<Rightarrow> str \<Rightarrow> dir res" where
  "revoke_endpoint E uid uuid4 d endpoint_id =
     bind (valid_uuid endpoint_id ''external endpoint id'') (\<lambda>identifier.
     bind (endpoints E uid d) (\<lambda>existing.
     if \<not> list_ex (\<lambda>x. x_endpoint_id x = identifier) existing then fail ''external endpoint is unavailable''
     else
       bind (map_res (\<lambda>x. if x_endpoint_id x = identifier
                          then endpoint_post_init E uid (x\<lparr>x_revoked := True, x_generation := uuid4\<rparr>)
                          else Inr x) existing) (\<lambda>rows.
       let d1 = endpoints_write E d rows in
       Inr (d1\<lparr>files := (\<lambda>n. if is_callback_of identifier n then None else files d1 n)\<rparr>))))"

text \<open>
  \<open>endpoint_effect_lock\<close> without waiting: the second holder is refused. With \<open>wait=True\<close> the caller
  blocks until the first has left, so operations that wait see a free lock.
\<close>

definition endpoint_effect_lock :: "bool \<Rightarrow> bool \<Rightarrow> str \<Rightarrow> unit res" where
  "endpoint_effect_lock held wait endpoint_id =
     bind (valid_uuid endpoint_id ''external endpoint id'') (\<lambda>_.
     if held \<and> \<not> wait then fail ''external endpoint is busy; nothing was delivered'' else Inr ())"

definition ascii_decode :: "bytes \<Rightarrow> str res" where
  "ascii_decode b = (if list_all (\<lambda>c. c < 128) b then Inr b else Inl UnicodeError)"

definition read_credential :: "dir \<Rightarrow> str \<Rightarrow> str res" where
  "read_credential d n =
     bind (except_chat (\<lambda>e. is_chat_error e \<or> is_os_error e \<or> e = UnicodeError)
             ''external credential file is unavailable or unsafe''
             (bind (require_private_file d n) (\<lambda>_.
              case files d n of
                None \<Rightarrow> Inl OSError
              | Some f \<Rightarrow> bind (ascii_decode (take 256 (data f))) (\<lambda>s. Inr (strip s))))) (\<lambda>value.
     if credential_id value = None then fail ''external credential file is invalid'' else Inr value)"

definition write_credential :: "dir \<Rightarrow> str \<Rightarrow> str \<Rightarrow> dir res" where
  "write_credential d n credential =
     (if files d n \<noteq> None then Inl OSError
      else bind (ascii_decode credential) (\<lambda>b.
        Inr (d\<lparr>files := (files d)(n \<mapsto> \<lparr>is_private = True, data = b @ [10]\<rparr>)\<rparr>)))"

section \<open>The table\<close>

lemma get_pyint_iff [res_simps]: "get_pyint m d k = Inr v \<longleftrightarrow> jget d k = Some (json_pyint v)"
  by (cases v) (auto simp: get_pyint_def json_pyint_def split: option.splits json.splits)

lemma get_pyint_sorted: "distinct (map fst d) \<Longrightarrow> get_pyint m (sort_dict d) k = get_pyint m d k"
  by (auto simp: get_pyint_def map_of_sort_dict split: option.splits json.splits)

lemma optional_scope_sorted: "optional_scope (map_option sort_keys v) = optional_scope v"
proof -
  have "(case sort_keys x of JStr s \<Rightarrow> Inr s | _ \<Rightarrow> fail m) = (case x of JStr s \<Rightarrow> Inr s | _ \<Rightarrow> fail m)" for x m
    by (cases x) simp_all
  then have "map_res (\<lambda>x. case x of JStr s \<Rightarrow> Inr s | _ \<Rightarrow> fail m) (map sort_keys xs) =
      map_res (\<lambda>x. case x of JStr s \<Rightarrow> Inr s | _ \<Rightarrow> fail m) xs" for xs m
    by (induction xs) simp_all
  then show ?thesis by (auto simp: optional_scope_def split: option.split json.split)
qed

lemma optional_scope_strs: "optional_scope (Some (JArr (map JStr rs))) = Inr (Some rs)"
  using map_res_map_Inr [of rs "\<lambda>x. case x of JStr s \<Rightarrow> Inr s | _ \<Rightarrow> fail ''external recipient scope is invalid''" JStr id]
  by (simp add: optional_scope_def)

lemma endpoint_eta:
  "\<lparr>x_schema_version = x_schema_version x, x_endpoint_id = x_endpoint_id x, x_generation = x_generation x,
    x_owner_uid = x_owner_uid x, x_device = x_device x, x_name = x_name x, x_context = x_context x,
    x_credential_hash = x_credential_hash x, x_expires_at = x_expires_at x, x_revoked = x_revoked x,
    x_allowed_recipients = x_allowed_recipients x, x_callback_ref = x_callback_ref x\<rparr> = x"
  by (cases x) simp

lemma endpoint_from_object_dict: "endpoint_from_object E uid (JObj (endpoint_dict x)) = endpoint_post_init E uid x"
proof -
  have keys: "has_keys (endpoint_dict x) endpoint_fields"
    by (simp add: has_keys_def endpoint_dict_def endpoint_fields_def)
  have f: "get_str m (endpoint_dict x) ''endpoint_id'' = Inr (x_endpoint_id x)"
    "get_str m (endpoint_dict x) ''generation'' = Inr (x_generation x)"
    "get_str m (endpoint_dict x) ''device'' = Inr (x_device x)"
    "get_str m (endpoint_dict x) ''name'' = Inr (x_name x)"
    "get_str m (endpoint_dict x) ''context'' = Inr (x_context x)"
    "get_str m (endpoint_dict x) ''credential_hash'' = Inr (x_credential_hash x)"
    "get_pyint m (endpoint_dict x) ''schema_version'' = Inr (x_schema_version x)"
    "get_pyint m (endpoint_dict x) ''owner_uid'' = Inr (x_owner_uid x)"
    "get_bool m (endpoint_dict x) ''revoked'' = Inr (x_revoked x)"
    "get_null_str m (endpoint_dict x) ''expires_at'' = Inr (x_expires_at x)"
    "get_null_str m (endpoint_dict x) ''callback_ref'' = Inr (x_callback_ref x)" for m
    by (simp_all add: res_simps endpoint_dict_def json_opt_def)
  have r: "optional_scope (jget (endpoint_dict x) ''allowed_recipients'') = Inr (x_allowed_recipients x)"
    using optional_scope_strs
    by (cases "x_allowed_recipients x") (simp_all add: endpoint_dict_def optional_scope_def)
  show ?thesis by (simp add: endpoint_from_object_def keys f r endpoint_eta)
qed

lemma endpoint_from_object_sorted:
  "distinct (map fst d) \<Longrightarrow> endpoint_from_object E uid (JObj (sort_dict d)) = endpoint_from_object E uid (JObj d)"
  by (simp add: endpoint_from_object_def Let_def sorted_getters get_pyint_sorted map_of_sort_dict
      optional_scope_sorted)

interpretation endpoints_table: json_table "endpoint_storable E uid" endpoint_to_dict "endpoint_from_object E uid" for E uid
proof
  show "endpoint_storable E uid x \<Longrightarrow> plain True (endpoint_to_dict x)" for x by (simp add: endpoint_storable_def)
  show "endpoint_from_object E uid (sort_keys (endpoint_to_dict x)) = Inr x" if "endpoint_storable E uid x" for x
    using that endpoint_from_object_sorted [of "endpoint_dict x" E uid] endpoint_from_object_dict [of E uid x]
    by (simp add: endpoint_storable_def endpoint_to_dict_def endpoint_dict_def)
qed

definition endpoints_ok :: "pyenv \<Rightarrow> int \<Rightarrow> dir \<Rightarrow> bool" where
  "endpoints_ok E uid d =
     (case endpoints E uid d of Inl _ \<Rightarrow> False | Inr rows \<Rightarrow> list_all (endpoint_storable E uid) rows)"

definition endpoint_rows :: "pyenv \<Rightarrow> int \<Rightarrow> dir \<Rightarrow> endpoint list" where
  "endpoint_rows E uid d = (case endpoints E uid d of Inl _ \<Rightarrow> [] | Inr rows \<Rightarrow> rows)"

lemma endpoints_distinct: "endpoints E uid d = Inr rows \<Longrightarrow> distinct (map x_endpoint_id rows)"
  by (auto simp: endpoints_def res_simps has_duplicates_def split: option.splits)

lemma endpoints_okD:
  assumes "endpoints_ok E uid d"
  shows "endpoints E uid d = Inr (endpoint_rows E uid d)"
    "list_all (endpoint_storable E uid) (endpoint_rows E uid d)"
    "distinct (map x_endpoint_id (endpoint_rows E uid d))"
  using assms endpoints_distinct by (auto simp: endpoints_ok_def endpoint_rows_def split: sum.splits)

lemma endpoints_cong:
  assumes "files d endpoints_json = files d' endpoints_json" "root_path d = root_path d'"
  shows "endpoints E uid d = endpoints E uid d'"
  using assms by (cases "files d' endpoints_json") (simp_all add: endpoints_def require_private_file_def)

lemma endpoints_write_read:
  assumes "list_all (endpoint_storable E uid) rows" "distinct (map x_endpoint_id rows)"
  shows "endpoints E uid (endpoints_write E d rows) = Inr rows"
  using endpoints_table.rows_restored [OF assms(1)] loads_payload [OF endpoints_table.plain_table [OF assms(1)], of E True]
    assms(2)
  by (simp add: endpoints_def endpoints_write_def require_private_file_def has_duplicates_def del: sort_keys.simps)

lemma endpoints_write_ok:
  assumes "list_all (endpoint_storable E uid) rows" "distinct (map x_endpoint_id rows)"
  shows "endpoints_ok E uid (endpoints_write E d rows)" "endpoint_rows E uid (endpoints_write E d rows) = rows"
  using endpoints_write_read [OF assms, of d] assms(1) by (simp_all add: endpoints_ok_def endpoint_rows_def)

lemma endpoint_post_init_id: "endpoint_post_init E uid x = Inr y \<Longrightarrow> y = x"
  by (auto simp: endpoint_post_init_def res_simps split: option.splits if_splits)

lemma endpoint_post_init_valid:
  "endpoint_post_init E uid x = Inr y \<Longrightarrow> uuid_shape (x_endpoint_id x) \<and> uuid_shape (x_generation x) \<and>
     hex64 (x_credential_hash x) \<and> (\<forall>r. x_callback_ref x = Some r \<longrightarrow> callback_ref_ok (x_endpoint_id x) r)"
  by (auto simp: endpoint_post_init_def res_simps valid_simps split: option.splits if_splits)

lemma token_printable:
  assumes "parse_recipient_token E v = Inr (Some t)"
  shows "list_all (printable a) v"
proof -
  from assms have p: "starts_with RECIPIENT_TOKEN_PREFIX v" "list_all is_b64 (drop (length RECIPIENT_TOKEN_PREFIX) v)"
    by (auto simp: parse_recipient_token_def Let_def token_error_def split: if_splits)
  then have v: "v = RECIPIENT_TOKEN_PREFIX @ drop (length RECIPIENT_TOKEN_PREFIX) v"
    unfolding starts_with_def by (metis append_take_drop_id)
  have "is_b64 c \<Longrightarrow> printable a c" for c
    by (auto simp: is_b64_def is_alnum_def is_digit_def is_upper_def is_lower_def intro!: is_scalar_printable scalar_small)
  then have "list_all (printable a) (drop (length RECIPIENT_TOKEN_PREFIX) v)" using p(2) by (auto simp: list_all_iff)
  then show ?thesis by (subst v) (simp add: RECIPIENT_TOKEN_PREFIX_def)
qed

lemma check_recipients_printable:
  "check_recipients E rs = Inr u \<Longrightarrow> r \<in> set rs \<Longrightarrow> list_all (printable a) r"
  by (induction rs) (auto simp: bind_Inr_iff dest: token_printable split: option.splits)

lemma endpoint_post_init_scope:
  "endpoint_post_init E uid x = Inr y \<Longrightarrow> x_allowed_recipients x = Some rs \<Longrightarrow> r \<in> set rs \<Longrightarrow>
   list_all (printable a) r"
  by (auto simp: endpoint_post_init_def bind_Inr_iff split: if_splits dest: check_recipients_printable)

lemma replace_endpoint_ids: "map x_endpoint_id (replace_endpoint x rows) = map x_endpoint_id rows"
  by (auto simp: replace_endpoint_def)

lemma replace_endpoint_set:
  assumes "distinct (map x_endpoint_id rows)" "c \<in> set rows" "x_endpoint_id c = x_endpoint_id x"
  shows "set (replace_endpoint x rows) = insert x (set rows - {c})"
proof -
  have same: "y \<in> set rows \<Longrightarrow> x_endpoint_id y = x_endpoint_id x \<longleftrightarrow> y = c" for y
    using distinct_map_eqD [OF assms(1) _ assms(2)] assms(3) by auto
  then have "replace_endpoint x rows = map (\<lambda>y. if y = c then x else y) rows"
    by (simp add: replace_endpoint_def)
  then show ?thesis using assms(2) by auto
qed

lemma replace_write_ok:
  assumes "endpoints_ok E uid d" "endpoint_storable E uid x"
  shows "endpoints_ok E uid (endpoints_write E d' (replace_endpoint x (endpoint_rows E uid d)))"
    "endpoint_rows E uid (endpoints_write E d' (replace_endpoint x (endpoint_rows E uid d))) =
       replace_endpoint x (endpoint_rows E uid d)"
proof -
  have "list_all (endpoint_storable E uid) (replace_endpoint x (endpoint_rows E uid d))"
    using endpoints_okD(2) [OF assms(1)] assms(2) by (auto simp: replace_endpoint_def list_all_iff)
  moreover have "distinct (map x_endpoint_id (replace_endpoint x (endpoint_rows E uid d)))"
    using endpoints_okD(3) [OF assms(1)] by (simp add: replace_endpoint_ids)
  ultimately show "endpoints_ok E uid (endpoints_write E d' (replace_endpoint x (endpoint_rows E uid d)))"
    "endpoint_rows E uid (endpoints_write E d' (replace_endpoint x (endpoint_rows E uid d))) =
       replace_endpoint x (endpoint_rows E uid d)" by (rule endpoints_write_ok)+
qed

lemma case_option_fail_iff: "(case v of None \<Rightarrow> fail m | Some x \<Rightarrow> f x) = Inr y \<longleftrightarrow> (\<exists>x. v = Some x \<and> f x = Inr y)"
  by (cases v) (simp_all add: fail_def)

text \<open>Authentication, on a readable store.\<close>

lemma authenticate_iff:
  assumes "endpoints_ok E uid d"
  shows "authenticate E uid now d c = Inr x \<longleftrightarrow>
    x \<in> set (endpoint_rows E uid d) \<and> credential_id c = Some (x_endpoint_id x) \<and>
    endpoint_available E now x \<and> x_credential_hash x = credential_digest E c"
proof (cases "credential_id c")
  case (Some i)
  note ok = endpoints_okD [OF assms]
  have "the_one (\<lambda>x. x_endpoint_id x = i \<and> endpoint_available E now x \<and> x_credential_hash x = credential_digest E c)
      (endpoint_rows E uid d) = Some x \<longleftrightarrow> x \<in> set (endpoint_rows E uid d) \<and>
      x_endpoint_id x = i \<and> endpoint_available E now x \<and> x_credential_hash x = credential_digest E c"
    by (rule the_one_distinct_iff [OF ok(3), where k = i]) blast
  then show ?thesis using Some by (auto simp: authenticate_def ok(1) case_option_fail_iff)
qed (simp add: authenticate_def fail_def)

lemma authenticate_error:
  "endpoints_ok E uid d \<Longrightarrow> authenticate E uid now d c = Inl e \<Longrightarrow>
   e = ChatError (lit ''external credential is unavailable; enroll this endpoint'')"
  by (auto simp: authenticate_def endpoints_okD(1) fail_def split: option.splits)

text \<open>Authentication only looks at the rows with the id in the credential.\<close>

lemma authenticate_cong:
  assumes "endpoints_ok E uid d" "endpoints_ok E uid d'"
    and "\<And>x. credential_id c = Some (x_endpoint_id x) \<Longrightarrow>
           x \<in> set (endpoint_rows E uid d) \<longleftrightarrow> x \<in> set (endpoint_rows E uid d')"
  shows "authenticate E uid now d c = authenticate E uid now d' c"
proof -
  have eq: "authenticate E uid now d c = Inr x \<longleftrightarrow> authenticate E uid now d' c = Inr x" for x
    unfolding authenticate_iff [OF assms(1)] authenticate_iff [OF assms(2)] using assms(3) by blast
  show ?thesis
  proof (cases "authenticate E uid now d c")
    case (Inr x)
    then show ?thesis using eq by simp
  next
    case (Inl e)
    then obtain e' where "authenticate E uid now d' c = Inl e'"
      using eq [of "projr (authenticate E uid now d' c)"] by (cases "authenticate E uid now d' c") auto
    with Inl show ?thesis using authenticate_error assms(1,2) by metis
  qed
qed

lemma credential_id_format:
  "uuid_shape i \<Longrightarrow> hex64 s \<Longrightarrow> credential_id (i @ 46 # s) = Some i"
  by (simp add: credential_id_def uuid_shape_def hex64_def nth_append)

lemma credential_id_shape: "credential_id c = Some i \<Longrightarrow> uuid_shape i"
  by (auto simp: credential_id_def split: if_splits)

text \<open>
  What a change of one row through \<open>replace_endpoint\<close> means: the updated row is stored, every other
  row is as before.
\<close>

lemma replace_rows:
  assumes "endpoints_ok E uid d" "endpoint_storable E uid x"
    and "c \<in> set (endpoint_rows E uid d)" "x_endpoint_id c = x_endpoint_id x"
  shows "endpoints_ok E uid (endpoints_write E d' (replace_endpoint x (endpoint_rows E uid d)))"
    "set (endpoint_rows E uid (endpoints_write E d' (replace_endpoint x (endpoint_rows E uid d)))) =
       insert x (set (endpoint_rows E uid d) - {c})"
    "x_endpoint_id y \<noteq> x_endpoint_id x \<Longrightarrow>
       y \<in> set (endpoint_rows E uid (endpoints_write E d' (replace_endpoint x (endpoint_rows E uid d)))) \<longleftrightarrow>
       y \<in> set (endpoint_rows E uid d)"
  using replace_write_ok [OF assms(1,2), of d'] replace_endpoint_set [OF endpoints_okD(3) [OF assms(1)] assms(3,4)]
    assms(4) by auto

text \<open>A stored row stays storable when its generated fields are replaced by well formed ones.\<close>

lemma endpoint_update_storable:
  assumes "endpoint_storable E uid x" "endpoint_post_init E uid y = Inr z"
    and "x_device y = x_device x" "x_name y = x_name x" "x_context y = x_context x"
    and "x_expires_at y = x_expires_at x"
    and "x_schema_version y = x_schema_version x" "x_owner_uid y = x_owner_uid x"
    and "\<And>r. x_callback_ref y = Some r \<Longrightarrow> list_all (printable True) r"
  shows "endpoint_storable E uid y"
proof -
  note v = endpoint_post_init_valid [OF assms(2)]
  have "list_all (printable True) (x_endpoint_id y)" "list_all (printable True) (x_generation y)"
    "list_all (printable True) (x_credential_hash y)"
    using v tame_printable [OF tame_uuid] tame_printable [OF tame_hex64] by blast+
  then have "plain True (endpoint_to_dict y)"
    using assms endpoint_post_init_scope [OF assms(2)] by (auto simp: endpoint_storable_def endpoint_to_dict_def endpoint_dict_def json_opt_def
        list_all_iff split: option.splits)
  then show ?thesis using assms(2) endpoint_post_init_id [OF assms(2)] by (simp add: endpoint_storable_def)
qed

lemma revoke_rows:
  assumes "map_res (\<lambda>x. if P x then endpoint_post_init E uid (f x) else Inr x) xs = Inr rows"
  shows "\<forall>x\<in>set xs. P x \<longrightarrow> endpoint_post_init E uid (f x) = Inr (f x)"
    "rows = map (\<lambda>x. if P x then f x else x) xs"
  using assms
  by (induction xs arbitrary: rows) (auto simp: bind_Inr_iff split: if_splits dest: endpoint_post_init_id)

lemma map_other:
  assumes "\<And>y. key (f y) = key y" "\<And>y. key y \<noteq> k \<Longrightarrow> f y = y" "key x \<noteq> k"
  shows "x \<in> set (map f xs) \<longleftrightarrow> x \<in> set xs"
  using assms by (auto simp: image_iff) metis+

lemma endpoints_json_not_callback: "\<not> is_callback_of i endpoints_json" "\<not> starts_with (callback_prefix i) endpoints_json"
  by (auto simp: is_callback_of_def callback_prefix_def endpoints_json_def starts_with_def lit_def)

text \<open>Every endpoint that is not revoked and names a callback file has that file.\<close>

definition callbacks_live :: "pyenv \<Rightarrow> int \<Rightarrow> dir \<Rightarrow> bool" where
  "callbacks_live E uid d =
     list_all (\<lambda>x. x_revoked x \<or> (case x_callback_ref x of None \<Rightarrow> True | Some r \<Rightarrow> files d r \<noteq> None))
       (endpoint_rows E uid d)"

lemma new_callback_ref_prefix: "starts_with (callback_prefix i) (new_callback_ref i uuid4)"
  by (simp add: new_callback_ref_def starts_with_def)

lemma callback_prefix_inj:
  assumes "starts_with (callback_prefix i) r" "starts_with (callback_prefix j) r" "length i = length j"
  shows "i = j"
  using assms by (auto simp: callback_prefix_def starts_with_def)

lemma stored_ref_prefix:
  assumes "endpoint_storable E uid x" "x_callback_ref x = Some r"
  shows "starts_with (callback_prefix (x_endpoint_id x)) r" "length (x_endpoint_id x) = 36" "r \<noteq> endpoints_json"
proof -
  have "callback_ref_ok (x_endpoint_id x) r" "uuid_shape (x_endpoint_id x)"
    using assms endpoint_post_init_valid [of E uid x x] by (auto simp: endpoint_storable_def)
  then show "starts_with (callback_prefix (x_endpoint_id x)) r" "length (x_endpoint_id x) = 36"
    by (simp_all add: callback_ref_ok_def uuid_shape_def)
  then show "r \<noteq> endpoints_json" using endpoints_json_not_callback(2) by auto
qed

lemma endpoints_ok_cong:
  assumes "files d endpoints_json = files d' endpoints_json" "root_path d = root_path d'"
  shows "endpoints_ok E uid d = endpoints_ok E uid d'" "endpoint_rows E uid d = endpoint_rows E uid d'"
  using endpoints_cong [OF assms] by (simp_all add: endpoints_ok_def endpoint_rows_def)

lemma set_insert_str: "set (insert_str x ys) = insert x (set ys)"
  by (induction ys) auto

lemma set_sorted_set: "set (sorted_set xs) = set xs"
  by (induction xs) (simp_all add: sorted_set_def set_insert_str)

lemma check_scope_tokens:
  "check_scope E canonical rs = Inr () \<Longrightarrow> \<forall>r\<in>set rs. \<exists>t. parse_recipient_token E r = Inr (Some t)"
  by (induction rs) (auto simp: bind_Inr_iff case_option_fail_iff split: if_splits)

section \<open>A sample store\<close>

definition sample_endpoint :: endpoint where
  "sample_endpoint =
     \<lparr>x_schema_version = PyInt 1, x_endpoint_id = sample_uuid 49, x_generation = sample_uuid 50,
      x_owner_uid = PyInt 5, x_device = lit ''mac'', x_name = lit ''cam'', x_context = lit ''home'',
      x_credential_hash = credential_digest sample_env (sample_uuid 49 @ 46 # sample_hex64 97),
      x_expires_at = None, x_revoked = False, x_allowed_recipients = None, x_callback_ref = None\<rparr>"

definition sample_store :: dir where
  "sample_store = endpoints_write sample_env empty_dir [sample_endpoint]"

lemma valid_sample_uuid: "is_hex c \<Longrightarrow> valid_uuid (sample_uuid c) f = Inr (sample_uuid c)"
  by (simp add: valid_uuid_iff sample_simps)

lemma hex64_sample_digest: "hex64 (credential_digest sample_env c)"
  using sample_env_ok by (simp add: credential_digest_def env_ok_def)

lemma sample_update_post_init:
  assumes "uuid_shape g" "hex64 h" "\<And>r. ref = Some r \<Longrightarrow> callback_ref_ok (sample_uuid 49) r"
  shows "endpoint_post_init sample_env 5
      (sample_endpoint\<lparr>x_generation := g, x_credential_hash := h, x_revoked := b, x_callback_ref := ref\<rparr>) =
    Inr (sample_endpoint\<lparr>x_generation := g, x_credential_hash := h, x_revoked := b, x_callback_ref := ref\<rparr>)"
proof -
  have v: "valid_uuid (sample_uuid 49) f = Inr (sample_uuid 49)" "valid_uuid g f = Inr g"
    "valid_device (lit ''mac'') = Inr (lit ''mac'')" "valid_name sample_env (lit ''cam'') f = Inr (lit ''cam'')"
    "valid_name sample_env (lit ''home'') f = Inr (lit ''home'')" for f
    using assms(1) by (simp_all add: valid_simps sample_simps device_shape_def lit_def is_alnum_def is_lower_def)
  show ?thesis
    using assms(2,3) by (simp add: endpoint_post_init_def sample_endpoint_def v split: option.split)
qed

lemma sample_endpoint_storable: "endpoint_storable sample_env 5 sample_endpoint"
proof -
  have "list_all (printable True) (sample_uuid 49)" "list_all (printable True) (sample_uuid 50)"
    "list_all (printable True) (x_credential_hash sample_endpoint)"
    using hex64_sample_digest tame_printable [OF tame_uuid] tame_printable [OF tame_hex64]
    by (simp_all add: sample_simps sample_endpoint_def)
  then have "plain True (endpoint_to_dict sample_endpoint)"
    by (simp add: endpoint_to_dict_def endpoint_dict_def sample_endpoint_def json_opt_def json_pyint_def int_fits_small)
  moreover have "endpoint_post_init sample_env 5 sample_endpoint = Inr sample_endpoint"
    using sample_update_post_init [of "sample_uuid 50" "x_credential_hash sample_endpoint" None False] hex64_sample_digest
    by (simp add: sample_simps sample_endpoint_def)
  ultimately show ?thesis by (simp add: endpoint_storable_def)
qed

lemma sample_store_rows:
  "endpoints_ok sample_env 5 sample_store" "endpoint_rows sample_env 5 sample_store = [sample_endpoint]"
  unfolding sample_store_def by (intro endpoints_write_ok; simp add: sample_endpoint_storable)+

lemma sample_store_none: "endpoints_ok sample_env 5 empty_dir" "endpoint_rows sample_env 5 empty_dir = []"
  by (simp_all add: endpoints_ok_def endpoint_rows_def endpoints_def empty_dir_def)

section \<open>Properties\<close>

text \<open>
  Enrollment issues a working credential: after \<open>enroll\<close> with a fresh id the table has one more
  row, the new credential authenticates exactly that endpoint for as long as it has not expired,
  no credential with another digest authenticates it, and every other credential authenticates as
  before.
\<close>

theorem enroll_spec:
  assumes "endpoints_ok E uid d" "hex64 secret"
    and "uuid1 \<notin> x_endpoint_id ` set (endpoint_rows E uid d)"
    and "enroll E uid uuid1 uuid2 secret d device name context expires_at allowed = Inr (x, c, d')"
    and "plain True (endpoint_to_dict x)"
  shows "endpoint_rows E uid d' = endpoint_rows E uid d @ [x] \<and> \<not> x_revoked x \<and>
    (endpoint_available E now x \<longrightarrow> authenticate E uid now d' c = Inr x) \<and>
    (\<forall>c'. credential_digest E c' \<noteq> credential_digest E c \<longrightarrow> authenticate E uid now d' c' \<noteq> Inr x) \<and>
    (\<forall>c'. credential_id c' \<noteq> Some uuid1 \<longrightarrow> authenticate E uid now d' c' = authenticate E uid now d c')"
proof -
  note ok = endpoints_okD [OF assms(1)]
  have c: "c = uuid1 @ 46 # secret" and d': "d' = endpoints_write E d (endpoint_rows E uid d @ [x])"
    and i: "x_endpoint_id x = uuid1" "x_credential_hash x = credential_digest E c" "\<not> x_revoked x"
    and p: "endpoint_post_init E uid x = Inr x"
    using assms(4) by (auto simp: enroll_def ok(1) res_simps Let_def dest: endpoint_post_init_id)
  have "endpoint_storable E uid x" using p assms(5) by (simp add: endpoint_storable_def)
  then have w: "endpoints_ok E uid d'" "endpoint_rows E uid d' = endpoint_rows E uid d @ [x]"
    unfolding d' using ok(2,3) assms(3) i(1) by (intro endpoints_write_ok; simp)+
  have "uuid_shape uuid1" using endpoint_post_init_valid [OF p] i(1) by simp
  then have "credential_id c = Some uuid1" unfolding c using assms(2) by (rule credential_id_format)
  moreover have "authenticate E uid now d' c' = authenticate E uid now d c'" if "credential_id c' \<noteq> Some uuid1" for c'
    using that i(1) by (intro authenticate_cong w(1) assms(1)) (auto simp: w(2))
  ultimately show ?thesis using w i by (auto simp: authenticate_iff [OF w(1)])
qed

theorem enroll_spec_witness:
  "\<exists>c d'. enroll sample_env 5 (sample_uuid 49) (sample_uuid 50) (sample_hex64 97) empty_dir
      (lit ''mac'') (lit ''cam'') (lit ''home'') None None = Inr (sample_endpoint, c, d') \<and>
    authenticate sample_env 5 0 d' c = Inr sample_endpoint"
proof -
  let ?d' = "endpoints_write sample_env empty_dir [sample_endpoint]"
  have e: "enroll sample_env 5 (sample_uuid 49) (sample_uuid 50) (sample_hex64 97) empty_dir
      (lit ''mac'') (lit ''cam'') (lit ''home'') None None =
      Inr (sample_endpoint, sample_uuid 49 @ 46 # sample_hex64 97, ?d')"
    using sample_endpoint_storable endpoints_okD(1) [OF sample_store_none(1)] sample_store_none(2)
    by (simp add: enroll_def endpoint_storable_def sample_endpoint_def Let_def)
  have "plain True (endpoint_to_dict sample_endpoint)" "endpoint_available sample_env 0 sample_endpoint"
    using sample_endpoint_storable by (simp_all add: endpoint_storable_def endpoint_available_def sample_endpoint_def)
  with enroll_spec [OF sample_store_none(1) _ _ e, of 0] e show ?thesis
    by (simp add: sample_simps sample_store_none(2))
qed

text \<open>
  Rotation replaces the credential: after \<open>rotate\<close> the new credential authenticates the endpoint
  under its new generation, no credential of that endpoint with another digest authenticates at
  all, at any time, the endpoint as it was is no longer current, and every other endpoint is
  untouched.
\<close>

theorem rotate_spec:
  assumes "endpoints_ok E uid d" "hex64 secret"
    and "rotate_endpoint E uid now uuid4 secret d i = Inr (x, c, d')"
    and "current \<in> set (endpoint_rows E uid d)" "x_endpoint_id current = i" "uuid4 \<noteq> x_generation current"
  shows "authenticate E uid now d' c = Inr x \<and> x_endpoint_id x = i \<and> x_generation x = uuid4 \<and>
    (\<forall>c' t y. credential_id c' = Some i \<longrightarrow> credential_digest E c' \<noteq> credential_digest E c \<longrightarrow>
       authenticate E uid t d' c' \<noteq> Inr y) \<and>
    (\<forall>t. endpoint_current E uid t d' current = Inr False) \<and>
    (\<forall>c' t. credential_id c' \<noteq> Some i \<longrightarrow> authenticate E uid t d' c' = authenticate E uid t d c')"
proof -
  note ok = endpoints_okD [OF assms(1)]
  obtain cur where one: "the_one (\<lambda>x. x_endpoint_id x = i \<and> endpoint_available E now x) (endpoint_rows E uid d) = Some cur"
    and x: "x = cur\<lparr>x_generation := uuid4, x_credential_hash := credential_digest E c\<rparr>"
    and c: "c = i @ 46 # secret" and d': "d' = endpoints_write E d (replace_endpoint x (endpoint_rows E uid d))"
    and p: "endpoint_post_init E uid x = Inr x" and i: "uuid_shape i"
    using assms(3) unfolding rotate_endpoint_def
    by (auto simp add: ok(1) bind_Inr_iff valid_uuid_iff Let_def case_option_fail_iff simp del: endpoint.simps
        dest: endpoint_post_init_id)
  have cur: "cur \<in> set (endpoint_rows E uid d)" "x_endpoint_id cur = i" "endpoint_available E now cur"
    using the_one_SomeD [OF one] by auto
  then have same: "current = cur" using distinct_map_eqD [OF ok(3) assms(4)] assms(5) by simp
  have "endpoint_storable E uid cur" using cur(1) ok(2) by (auto simp: list_all_iff)
  then have sx: "endpoint_storable E uid x"
    by (rule endpoint_update_storable [OF _ p])
      (use \<open>endpoint_storable E uid cur\<close> in \<open>auto simp: x endpoint_storable_def endpoint_to_dict_def endpoint_dict_def json_opt_def\<close>)
  note r = replace_rows [OF assms(1) sx cur(1), where d' = d, folded d']
  have r1: "endpoints_ok E uid d'" "set (endpoint_rows E uid d') = insert x (set (endpoint_rows E uid d) - {cur})"
    using r cur(2) by (auto simp: x)
  have others: "y \<in> set (endpoint_rows E uid d') \<longleftrightarrow> y \<in> set (endpoint_rows E uid d)" if "x_endpoint_id y \<noteq> i" for y
    using that cur(2) r1(2) by (auto simp: x)
  have only: "y = x" if "y \<in> set (endpoint_rows E uid d')" "x_endpoint_id y = i" for y
    using that r1(2) cur distinct_map_eqD [OF ok(3) _ cur(1), of y] by (auto simp: x)
  have av: "endpoint_available E now x" using cur(3) by (simp add: x endpoint_available_def)
  have "authenticate E uid now d' c = Inr x"
    using av cur(2) credential_id_format [OF i assms(2)] r1(2) by (auto simp: authenticate_iff [OF r1(1)] c x)
  moreover have "authenticate E uid t d' c' \<noteq> Inr y"
    if "credential_id c' = Some i" "credential_digest E c' \<noteq> credential_digest E c" for c' t y
  proof
    assume "authenticate E uid t d' c' = Inr y"
    then have "y \<in> set (endpoint_rows E uid d')" "x_endpoint_id y = i" "x_credential_hash y = credential_digest E c'"
      using that(1) unfolding authenticate_iff [OF r1(1)] by simp_all
    moreover from this(1,2) have "y = x" by (rule only)
    ultimately show False using that(2) by (simp add: x)
  qed
  moreover have "endpoint_current E uid t d' current = Inr False" for t
    using only [of current] assms(5,6) endpoints_okD(1) [OF r1(1)] by (auto simp: endpoint_current_def x list_ex_iff)
  moreover have "authenticate E uid t d' c' = authenticate E uid t d c'" if "credential_id c' \<noteq> Some i" for c' t
    using that others by (intro authenticate_cong r1(1) assms(1)) auto
  ultimately show ?thesis using cur(2) by (simp add: x)
qed

theorem rotate_spec_witness:
  "\<exists>x c d'. rotate_endpoint sample_env 5 0 (sample_uuid 51) (sample_hex64 98) sample_store (sample_uuid 49) =
      Inr (x, c, d') \<and> authenticate sample_env 5 0 d' c = Inr x \<and>
    endpoint_current sample_env 5 0 d' sample_endpoint = Inr False"
proof -
  let ?c = "sample_uuid 49 @ 46 # sample_hex64 98"
  let ?x = "sample_endpoint\<lparr>x_generation := sample_uuid 51, x_credential_hash := credential_digest sample_env ?c\<rparr>"
  have "endpoint_post_init sample_env 5 ?x = Inr ?x"
    using sample_update_post_init [of "sample_uuid 51" "credential_digest sample_env ?c" None False] hex64_sample_digest
    by (simp add: sample_simps sample_endpoint_def)
  then have r: "rotate_endpoint sample_env 5 0 (sample_uuid 51) (sample_hex64 98) sample_store (sample_uuid 49) =
      Inr (?x, ?c, endpoints_write sample_env sample_store (replace_endpoint ?x [sample_endpoint]))"
    using endpoints_okD(1) [OF sample_store_rows(1)] sample_store_rows(2)
    by (simp add: rotate_endpoint_def valid_sample_uuid sample_simps the_one_def endpoint_available_def
        sample_endpoint_def Let_def)
  have "sample_uuid 51 \<noteq> x_generation sample_endpoint" by (simp add: sample_endpoint_def sample_uuid_def)
  from rotate_spec [OF sample_store_rows(1) _ r _ _ this] r show ?thesis
    by (simp add: sample_simps sample_store_rows(2)) (simp add: sample_endpoint_def)
qed

text \<open>
  Revocation is final: after \<open>revoke\<close> no credential of the endpoint authenticates at any time,
  none of its callback files is left, and every other endpoint's row and file are untouched.
\<close>

theorem revoke_spec:
  assumes "endpoints_ok E uid d" "revoke_endpoint E uid uuid4 d i = Inr d'"
  shows "(\<forall>c t x. credential_id c = Some i \<longrightarrow> authenticate E uid t d' c \<noteq> Inr x) \<and>
    (\<forall>n. is_callback_of i n \<longrightarrow> files d' n = None) \<and>
    (\<forall>n. \<not> is_callback_of i n \<longrightarrow> n \<noteq> endpoints_json \<longrightarrow> files d' n = files d n) \<and>
    (\<forall>c t. credential_id c \<noteq> Some i \<longrightarrow> authenticate E uid t d' c = authenticate E uid t d c)"
proof -
  note ok = endpoints_okD [OF assms(1)]
  let ?f = "\<lambda>x. if x_endpoint_id x = i then x\<lparr>x_revoked := True, x_generation := uuid4\<rparr> else x"
  obtain rows where rows: "map_res (\<lambda>x. if x_endpoint_id x = i
        then endpoint_post_init E uid (x\<lparr>x_revoked := True, x_generation := uuid4\<rparr>) else Inr x)
        (endpoint_rows E uid d) = Inr rows"
    and d': "d' = (endpoints_write E d rows)\<lparr>files := (\<lambda>n. if is_callback_of i n then None
               else files (endpoints_write E d rows) n)\<rparr>"
    using assms(2) by (auto simp: revoke_endpoint_def ok(1) bind_Inr_iff valid_uuid_iff Let_def split: if_splits)
  have g: "\<forall>x\<in>set (endpoint_rows E uid d). x_endpoint_id x = i \<longrightarrow> endpoint_post_init E uid (?f x) = Inr (?f x)"
    "rows = map ?f (endpoint_rows E uid d)"
    using revoke_rows [OF rows] by simp_all
  have "list_all (endpoint_storable E uid) rows"
    unfolding g(2) list_all_iff
  proof
    fix y assume "y \<in> set (map ?f (endpoint_rows E uid d))"
    then obtain x where x: "x \<in> set (endpoint_rows E uid d)" "y = ?f x" by auto
    then have s: "endpoint_storable E uid x" using ok(2) by (simp add: list_all_iff)
    show "endpoint_storable E uid y"
    proof (cases "x_endpoint_id x = i")
      case True
      then have "endpoint_post_init E uid y = Inr y" using g(1) x by blast
      then show ?thesis by (rule endpoint_update_storable [OF s])
        (use s True x(2) in \<open>auto simp: endpoint_storable_def endpoint_to_dict_def endpoint_dict_def json_opt_def\<close>)
    qed (use s x in simp)
  qed
  moreover have "distinct (map x_endpoint_id rows)"
    using ok(3) by (simp add: g(2) o_def if_distrib cong: if_cong)
  ultimately have w: "endpoints_ok E uid (endpoints_write E d rows)" "endpoint_rows E uid (endpoints_write E d rows) = rows"
    by (rule endpoints_write_ok)+
  have "endpoints E uid d' = endpoints E uid (endpoints_write E d rows)"
    by (rule endpoints_cong) (simp_all add: d' endpoints_json_not_callback)
  then have w': "endpoints_ok E uid d'" "endpoint_rows E uid d' = rows"
    using w by (simp_all add: endpoints_ok_def endpoint_rows_def)
  have "authenticate E uid t d' c \<noteq> Inr x" if "credential_id c = Some i" for c t x
  proof
    assume "authenticate E uid t d' c = Inr x"
    then have x: "x \<in> set rows" "x_endpoint_id x = i" "\<not> x_revoked x"
      using that unfolding authenticate_iff [OF w'(1)] w'(2) by (simp_all add: endpoint_available_def)
    from x(1) obtain y where y: "x = ?f y" unfolding g(2) set_map by (rule imageE)
    have "x_revoked x \<or> x_endpoint_id x \<noteq> i" unfolding y by simp
    with x(2,3) show False by blast
  qed
  moreover have "authenticate E uid t d' c = authenticate E uid t d c" if "credential_id c \<noteq> Some i" for c t
  proof (intro authenticate_cong w'(1) assms(1))
    fix x :: endpoint assume "credential_id c = Some (x_endpoint_id x)"
    with that have "x_endpoint_id x \<noteq> i" by auto
    then show "x \<in> set (endpoint_rows E uid d') \<longleftrightarrow> x \<in> set (endpoint_rows E uid d)"
      unfolding w'(2) g(2) using map_other [of x_endpoint_id ?f i x] by simp
  qed
  ultimately show ?thesis by (simp add: d' endpoints_write_def)
qed

theorem revoke_spec_witness:
  "\<exists>d'. revoke_endpoint sample_env 5 (sample_uuid 51) sample_store (sample_uuid 49) = Inr d' \<and>
    (\<forall>t x. authenticate sample_env 5 t d' (sample_uuid 49 @ 46 # sample_hex64 97) \<noteq> Inr x)"
proof -
  let ?x = "sample_endpoint\<lparr>x_revoked := True, x_generation := sample_uuid 51\<rparr>"
  have "endpoint_post_init sample_env 5 ?x = Inr ?x"
    using sample_update_post_init [of "sample_uuid 51" "x_credential_hash sample_endpoint" None True] hex64_sample_digest
    by (simp add: sample_simps sample_endpoint_def)
  then obtain d' where r: "revoke_endpoint sample_env 5 (sample_uuid 51) sample_store (sample_uuid 49) = Inr d'"
    using endpoints_okD(1) [OF sample_store_rows(1)] sample_store_rows(2)
    by (simp add: revoke_endpoint_def sample_simps Let_def valid_sample_uuid)
      (simp add: sample_endpoint_def Let_def)
  have "credential_id (sample_uuid 49 @ 46 # sample_hex64 97) = Some (sample_uuid 49)"
    by (rule credential_id_format) (simp_all add: sample_simps)
  with revoke_spec [OF sample_store_rows(1) r] r show ?thesis by blast
qed

text \<open>A directory in which the record write has happened, up to the removal of the previous file.\<close>

lemma callback_committed:
  assumes "endpoints_ok E uid d" "callbacks_live E uid d" "uuid_shape i"
    and "current \<in> set (endpoint_rows E uid d)" "x_endpoint_id current = i"
    and x: "x = current\<lparr>x_generation := uuid4, x_callback_ref := Some (new_callback_ref i uuid4)\<rparr>"
    and "endpoint_post_init E uid x = Inr x"
    and D: "root_path D = root_path d"
      "files D endpoints_json = files (endpoints_write E d (replace_endpoint x (endpoint_rows E uid d))) endpoints_json"
      "files D (new_callback_ref i uuid4) = Some \<lparr>is_private = True, data = json_payload E (JObj cfg)\<rparr>"
      "\<And>n. n \<noteq> endpoints_json \<Longrightarrow> \<not> starts_with (callback_prefix i) n \<Longrightarrow> files D n = files d n"
  shows "endpoints_ok E uid D" "callbacks_live E uid D"
    "endpoint_rows E uid D = replace_endpoint x (endpoint_rows E uid d)"
    "\<forall>y ref. y \<in> set (endpoint_rows E uid d) \<longrightarrow> x_endpoint_id y \<noteq> i \<longrightarrow> x_callback_ref y = Some ref \<longrightarrow>
       files D ref = files d ref"
proof -
  note ok = endpoints_okD [OF assms(1)]
  have s: "endpoint_storable E uid current" using ok(2) assms(4) by (simp add: list_all_iff)
  have "list_all (printable True) (new_callback_ref i uuid4)"
    using tame_printable [OF tame_uuid] assms(3) endpoint_post_init_valid [OF assms(7)]
    by (simp add: new_callback_ref_def callback_prefix_def x is_scalar_printable scalar_small)
  then have "endpoint_storable E uid x"
    by (intro endpoint_update_storable [OF s assms(7)]) (simp_all add: x)
  note w = replace_write_ok [OF assms(1) this, of d]
  note c = endpoints_ok_cong [of D "endpoints_write E d (replace_endpoint x (endpoint_rows E uid d))" E uid]
  show rows: "endpoints_ok E uid D" "endpoint_rows E uid D = replace_endpoint x (endpoint_rows E uid d)"
    using w c D(1,2) by (simp_all add: endpoints_write_def)
  have keep: "files D ref = files d ref"
    if "y \<in> set (endpoint_rows E uid d)" "x_endpoint_id y \<noteq> i" "x_callback_ref y = Some ref" for y ref
  proof (rule D(4))
    have y: "endpoint_storable E uid y" using ok(2) that(1) by (simp add: list_all_iff)
    show "ref \<noteq> endpoints_json" by (rule stored_ref_prefix(3) [OF y that(3)])
    show "\<not> starts_with (callback_prefix i) ref"
      using callback_prefix_inj [OF stored_ref_prefix(1) [OF y that(3)]] stored_ref_prefix(2) [OF y that(3)]
        assms(3) that(2) by (auto simp: uuid_shape_def)
  qed
  then show "\<forall>y ref. y \<in> set (endpoint_rows E uid d) \<longrightarrow> x_endpoint_id y \<noteq> i \<longrightarrow> x_callback_ref y = Some ref \<longrightarrow>
       files D ref = files d ref" by blast
  have "set (replace_endpoint x (endpoint_rows E uid d)) = insert x (set (endpoint_rows E uid d) - {current})"
    using assms(4) by (intro replace_endpoint_set [OF ok(3)]) (simp_all add: x)
  moreover have "x_endpoint_id y \<noteq> i" if "y \<in> set (endpoint_rows E uid d) - {current}" for y
    using that distinct_map_eqD [OF ok(3) _ assms(4), of y] assms(5) by auto
  ultimately show "callbacks_live E uid D"
    using assms(2) keep D(3) unfolding callbacks_live_def rows list_all_iff
    by (fastforce simp: x split: option.splits)
qed

lemma callback_not_committed:
  assumes "endpoints_ok E uid d" "callbacks_live E uid d" "files d (new_callback_ref i uuid4) = None"
    and D: "root_path D = root_path d" "\<And>n. n \<noteq> new_callback_ref i uuid4 \<Longrightarrow> files D n = files d n"
  shows "endpoints_ok E uid D" "callbacks_live E uid D" "endpoint_rows E uid D = endpoint_rows E uid d"
    "\<forall>y ref. y \<in> set (endpoint_rows E uid d) \<longrightarrow> \<not> x_revoked y \<longrightarrow> x_callback_ref y = Some ref \<longrightarrow>
          files D ref = files d ref"
proof -
  have "endpoints_json \<noteq> new_callback_ref i uuid4"
    using new_callback_ref_prefix endpoints_json_not_callback(2) by metis
  then have "files D endpoints_json = files d endpoints_json" by (rule D(2))
  from endpoints_ok_cong [OF this D(1)] assms(1)
  show rows: "endpoints_ok E uid D" "endpoint_rows E uid D = endpoint_rows E uid d" by simp_all
  have live: "files d ref \<noteq> None"
    if "y \<in> set (endpoint_rows E uid d)" "\<not> x_revoked y" "x_callback_ref y = Some ref" for y ref
    using that assms(2) by (auto simp: callbacks_live_def list_all_iff)
  then show keep: "\<forall>y ref. y \<in> set (endpoint_rows E uid d) \<longrightarrow> \<not> x_revoked y \<longrightarrow> x_callback_ref y = Some ref \<longrightarrow>
          files D ref = files d ref"
    using D(2) assms(3) by metis
  show "callbacks_live E uid D"
    using live keep unfolding callbacks_live_def rows list_all_iff by (fastforce split: option.splits)
qed

lemma callback_commit_cases:
  assumes "endpoints_ok E uid d" "callbacks_live E uid d" "files d (new_callback_ref i uuid4) = None"
    and "uuid_shape i" "current \<in> set (endpoint_rows E uid d)" "x_endpoint_id current = i"
    and x: "x = current\<lparr>x_generation := uuid4, x_callback_ref := Some (new_callback_ref i uuid4)\<rparr>"
    and "endpoint_post_init E uid x = Inr x"
    and run: "callback_commit E uid fault d (new_callback_ref i uuid4) cfg (endpoint_rows E uid d) current x = (r, d')"
  shows "endpoints_ok E uid d' \<and> callbacks_live E uid d' \<and>
    (r = Inl OSError \<and> endpoint_rows E uid d' = endpoint_rows E uid d \<and>
       (\<forall>y ref. y \<in> set (endpoint_rows E uid d) \<longrightarrow> \<not> x_revoked y \<longrightarrow> x_callback_ref y = Some ref \<longrightarrow>
          files d' ref = files d ref)
     \<or> endpoint_rows E uid d' = replace_endpoint x (endpoint_rows E uid d) \<and>
          (r = Inr x \<or> fault = FailAfterCommit) \<and>
          files d' (new_callback_ref i uuid4) = Some \<lparr>is_private = True, data = json_payload E (JObj cfg)\<rparr> \<and>
          (\<forall>y ref. y \<in> set (endpoint_rows E uid d) \<longrightarrow> x_endpoint_id y \<noteq> i \<longrightarrow> x_callback_ref y = Some ref \<longrightarrow>
             files d' ref = files d ref))"
proof -
  let ?ref = "new_callback_ref i uuid4"
  let ?d1 = "atomic_json E d ?ref (JObj cfg)"
  let ?d2 = "endpoints_write E ?d1 (replace_endpoint x (endpoint_rows E uid d))"
  note commit = callback_committed [OF assms(1,2,4-8), where cfg = cfg]
  have neq: "endpoints_json \<noteq> ?ref" using new_callback_ref_prefix endpoints_json_not_callback(2) by metis
  have prev: "starts_with (callback_prefix i) p \<and> p \<noteq> endpoints_json" if "x_callback_ref current = Some p" for p
    using stored_ref_prefix [of E uid current p] that assms(5,6) endpoints_okD(2) [OF assms(1)] by (auto simp: list_all_iff)
  show ?thesis
  proof (cases fault)
    case FailBeforeCommit
    have "root_path d' = root_path d" "\<And>n. n \<noteq> ?ref \<Longrightarrow> files d' n = files d n" "r = Inl OSError"
      using run by (auto simp: callback_commit_def FailBeforeCommit Let_def split: if_splits)
    then show ?thesis using callback_not_committed [OF assms(1-3), where D = d'] by blast
  next
    case NoFault
    then have "r = Inr x" "files d' = files ?d2 \<and> root_path d' = root_path ?d2 \<or>
        (\<exists>p. x_callback_ref current = Some p \<and> p \<noteq> ?ref \<and> d' = unlink ?d2 p)"
      using run by (auto simp: callback_commit_def Let_def split: option.splits if_splits)
    moreover from this(2) have "root_path d' = root_path d"
        "files d' endpoints_json = files (endpoints_write E d (replace_endpoint x (endpoint_rows E uid d))) endpoints_json"
        "files d' ?ref = Some \<lparr>is_private = True, data = json_payload E (JObj cfg)\<rparr>"
        "\<And>n. n \<noteq> endpoints_json \<Longrightarrow> \<not> starts_with (callback_prefix i) n \<Longrightarrow> files d' n = files d n"
      using neq prev new_callback_ref_prefix [of i uuid4] by (auto simp: endpoints_write_def)
    note c = this
    ultimately show ?thesis using commit [OF c] c(3) by blast
  next
    case FailAfterCommit
    have "root_path ?d2 = root_path d"
        "files ?d2 endpoints_json = files (endpoints_write E d (replace_endpoint x (endpoint_rows E uid d))) endpoints_json"
        "files ?d2 ?ref = Some \<lparr>is_private = True, data = json_payload E (JObj cfg)\<rparr>"
        "\<And>n. n \<noteq> endpoints_json \<Longrightarrow> \<not> starts_with (callback_prefix i) n \<Longrightarrow> files ?d2 n = files d n"
      using neq new_callback_ref_prefix [of i uuid4] by (auto simp: endpoints_write_def)
    note c = this
    have "x \<in> set (replace_endpoint x (endpoint_rows E uid d))"
      using assms(5,6) by (force simp: replace_endpoint_def x image_iff)
    then have "list_ex (\<lambda>y. x_callback_ref y = Some ?ref) (replace_endpoint x (endpoint_rows E uid d))"
      unfolding list_ex_iff by (rule bexI [rotated]) (simp add: x)
    moreover have "endpoints E uid ?d2 = Inr (replace_endpoint x (endpoint_rows E uid d))"
      using endpoints_okD(1) [OF commit(1) [OF c]] commit(3) [OF c] by (rule trans [OF _ arg_cong])
    ultimately have "d' = ?d2"
      using run by (simp add: callback_commit_def FailAfterCommit Let_def)
    then show ?thesis using commit [OF c] c(3) FailAfterCommit by blast
  qed
qed

text \<open>
  C28. Changing the callback destination is atomic under write failures. Whatever the new record
  write does (succeed, fail before or after the rename), and whatever else is refused, the store
  stays readable and every live endpoint keeps its callback file. Either all rows and the files
  they select are as before and the caller gets an error, or the row of the endpoint selects the new,
  complete file under the new generation while every other row and its file are as before.
\<close>

theorem configure_callback_atomic:
  assumes "endpoints_ok E uid d" "callbacks_live E uid d"
    and "files d (new_callback_ref i uuid4) = None"
    and "configure_callback E uid now uuid4 fault d i config = (r, d')"
  shows "endpoints_ok E uid d' \<and> callbacks_live E uid d' \<and>
    ((\<exists>e. r = Inl e) \<and> endpoint_rows E uid d' = endpoint_rows E uid d \<and>
       (\<forall>y ref. y \<in> set (endpoint_rows E uid d) \<longrightarrow> \<not> x_revoked y \<longrightarrow> x_callback_ref y = Some ref \<longrightarrow>
          files d' ref = files d ref)
     \<or> (\<exists>x cfg. endpoint_rows E uid d' = replace_endpoint x (endpoint_rows E uid d) \<and>
          (r = Inr x \<or> fault = FailAfterCommit) \<and> config = Inr cfg \<and>
          x_endpoint_id x = i \<and> x_generation x = uuid4 \<and> x_callback_ref x = Some (new_callback_ref i uuid4) \<and>
          files d' (new_callback_ref i uuid4) = Some \<lparr>is_private = True, data = json_payload E (JObj cfg)\<rparr> \<and>
          (\<forall>y ref. y \<in> set (endpoint_rows E uid d) \<longrightarrow> x_endpoint_id y \<noteq> i \<longrightarrow> x_callback_ref y = Some ref \<longrightarrow>
             files d' ref = files d ref)))"
proof -
  note ok = endpoints_okD [OF assms(1)]
  let ?ref = "new_callback_ref i uuid4"
  show ?thesis
  proof (cases "callback_selection E uid now uuid4 d i config")
    case (Inl e)
    then have "r = Inl e" "d' = d" using assms(4) by (simp_all add: configure_callback_def)
    then show ?thesis using assms(1,2) by blast
  next
    case (Inr q)
    obtain cfg existing current x where q: "q = (cfg, existing, current, x)" by (cases q)
    have sel: "uuid_shape i" "config = Inr cfg" "existing = endpoint_rows E uid d"
      "the_one (\<lambda>x. x_endpoint_id x = i \<and> endpoint_available E now x) (endpoint_rows E uid d) = Some current"
      "x = current\<lparr>x_generation := uuid4, x_callback_ref := Some ?ref\<rparr>" "endpoint_post_init E uid x = Inr x"
      using Inr unfolding q callback_selection_def
      by (auto simp add: ok(1) bind_Inr_iff valid_uuid_iff Let_def case_option_fail_iff
          simp del: endpoint.simps dest: endpoint_post_init_id)
    have cur: "current \<in> set (endpoint_rows E uid d)" "x_endpoint_id current = i"
      using the_one_SomeD [OF sel(4)] by auto
    have i: "x_endpoint_id x = i" using cur(2) by (simp add: sel(5))
    have "callback_commit E uid fault d ?ref cfg (endpoint_rows E uid d) current x = (r, d')"
      using assms(4) by (simp add: configure_callback_def Inr q i sel(3))
    from callback_commit_cases [OF assms(1-3) sel(1) cur sel(5,6) this]
    show ?thesis using sel(2,5) i by auto
  qed
qed

theorem configure_callback_atomic_witness:
  "\<exists>r d'. configure_callback sample_env 5 0 (sample_uuid 51) FailAfterCommit sample_store (sample_uuid 49)
      (Inr []) = (r, d') \<and> callbacks_live sample_env 5 d'"
proof -
  obtain r d' where r: "configure_callback sample_env 5 0 (sample_uuid 51) FailAfterCommit sample_store
      (sample_uuid 49) (Inr []) = (r, d')" by (cases "configure_callback sample_env 5 0 (sample_uuid 51)
      FailAfterCommit sample_store (sample_uuid 49) (Inr [])") blast
  have "callbacks_live sample_env 5 sample_store"
    by (simp add: callbacks_live_def sample_store_rows(2)) (simp add: sample_endpoint_def)
  moreover have "files sample_store (new_callback_ref (sample_uuid 49) (sample_uuid 51)) = None"
    using new_callback_ref_prefix [of "sample_uuid 49" "sample_uuid 51"] endpoints_json_not_callback(2) [of "sample_uuid 49"]
    by (auto simp: sample_store_def endpoints_write_def empty_dir_def)
  ultimately show ?thesis using configure_callback_atomic [OF sample_store_rows(1) _ _ r] r by blast
qed

text \<open>
  Changing the recipient scope: \<open>configure_scope\<close> succeeds only for the available endpoint with the
  expected generation. When the stored scope already is the requested one nothing is written and
  nothing changes; otherwise the row gets the new generation and exactly the requested
  recipients, every one of them a recipient token, and no other row changes.
\<close>

theorem configure_scope_spec:
  assumes "endpoints_ok E uid d"
    and "configure_scope E uid now uuid4 canonical d i g recipients = Inr (x, changed, d')"
  shows "\<exists>current \<in> set (endpoint_rows E uid d). x_endpoint_id current = i \<and> x_generation current = g \<and>
    endpoint_available E now current \<and> recipients \<noteq> [] \<and>
    (if changed then
       x = current\<lparr>x_generation := uuid4, x_allowed_recipients := Some (sorted_set recipients)\<rparr> \<and>
       set (sorted_set recipients) = set recipients \<and>
       (\<forall>r\<in>set recipients. \<exists>t. parse_recipient_token E r = Inr (Some t)) \<and>
       endpoints_ok E uid d' \<and>
       set (endpoint_rows E uid d') = insert x (set (endpoint_rows E uid d) - {current})
     else x = current \<and> d' = d \<and>
       (\<exists>rs. x_allowed_recipients current = Some rs \<and> set rs = set recipients))"
proof -
  note ok = endpoints_okD [OF assms(1)]
  obtain current where one: "the_one (\<lambda>x. x_endpoint_id x = i \<and> x_generation x = g \<and> endpoint_available E now x)
      (endpoint_rows E uid d) = Some current"
    and ne: "recipients \<noteq> []" and chk: "check_scope E canonical (sorted_set recipients) = Inr ()"
    and res: "(if (case x_allowed_recipients current of None \<Rightarrow> False | Some rs \<Rightarrow> set rs = set (sorted_set recipients))
        then Inr (current, False, d)
        else bind (endpoint_post_init E uid
                 (current\<lparr>x_generation := uuid4, x_allowed_recipients := Some (sorted_set recipients)\<rparr>)) (\<lambda>updated.
             Inr (updated, True, endpoints_write E d (replace_endpoint updated (endpoint_rows E uid d))))) =
        Inr (x, changed, d')"
    using assms(2) unfolding configure_scope_def
    by (auto simp add: ok(1) bind_Inr_iff valid_uuid_iff Let_def case_option_fail_iff fail_def
        simp del: endpoint.simps split: if_splits)
  have cur: "current \<in> set (endpoint_rows E uid d)" "x_endpoint_id current = i" "x_generation current = g"
    "endpoint_available E now current"
    using the_one_SomeD [OF one] by auto
  show ?thesis
  proof (cases changed)
    case False
    with res have "x = current" "d' = d" "\<exists>rs. x_allowed_recipients current = Some rs \<and> set rs = set recipients"
      by (auto simp: bind_Inr_iff set_sorted_set split: if_splits option.splits)
    with False cur ne show ?thesis by (intro bexI [OF _ cur(1)]) simp
  next
    case True
    with res have x: "x = current\<lparr>x_generation := uuid4, x_allowed_recipients := Some (sorted_set recipients)\<rparr>"
      and p: "endpoint_post_init E uid x = Inr x"
      and d': "d' = endpoints_write E d (replace_endpoint x (endpoint_rows E uid d))"
      by (auto simp add: bind_Inr_iff simp del: endpoint.simps split: if_splits dest: endpoint_post_init_id)
    have s: "endpoint_storable E uid current" using ok(2) cur(1) by (simp add: list_all_iff)
    have "endpoint_storable E uid x"
      by (rule endpoint_update_storable [OF s p])
        (use s in \<open>auto simp: x endpoint_storable_def endpoint_to_dict_def endpoint_dict_def json_opt_def\<close>)
    note r = replace_rows [OF assms(1) this cur(1), where d' = d, folded d']
    have "endpoints_ok E uid d'" "set (endpoint_rows E uid d') = insert x (set (endpoint_rows E uid d) - {current})"
      using r(1,2) by (simp_all add: x)
    with True x cur ne check_scope_tokens [OF chk] show ?thesis
      by (intro bexI [OF _ cur(1)]) (simp add: set_sorted_set)
  qed
qed

theorem configure_scope_spec_witness:
  "\<exists>t x d'. configure_scope sample_env 5 0 (sample_uuid 51) [] sample_store (sample_uuid 49) (sample_uuid 50) [t] =
      Inr (x, True, d') \<and> x_allowed_recipients x = Some [t] \<and> x \<in> set (endpoint_rows sample_env 5 d')"
proof -
  obtain t where "remote_token sample_env (lit ''nCNTRL'') (sample_hex64 97) (sample_uuid 50) = Inr t"
    using sample_remote_token by blast
  then have t: "parse_recipient_token sample_env t = Inr (Some \<lparr>t_scope = Remote, t_handle = sample_hex64 97,
      t_generation = sample_uuid 50, t_node_id = Some (lit ''nCNTRL''), t_origin = None\<rparr>)"
    using remote_token_parse by blast
  let ?x = "sample_endpoint\<lparr>x_generation := sample_uuid 51, x_allowed_recipients := Some [t]\<rparr>"
  have "endpoint_post_init sample_env 5 ?x = Inr ?x"
    using sample_update_post_init [of "sample_uuid 51" "x_credential_hash sample_endpoint" None False] hex64_sample_digest t
    by (simp add: sample_simps sample_endpoint_def endpoint_post_init_def bind_Inr_iff)
  then have r: "\<exists>d'. configure_scope sample_env 5 0 (sample_uuid 51) [] sample_store (sample_uuid 49) (sample_uuid 50) [t] =
      Inr (?x, True, d')"
    using endpoints_okD(1) [OF sample_store_rows(1)] sample_store_rows(2) t
    by (simp add: configure_scope_def valid_sample_uuid sample_simps sorted_set_def the_one_def endpoint_available_def
        sample_endpoint_def Let_def)
  then obtain d' where r: "configure_scope sample_env 5 0 (sample_uuid 51) [] sample_store (sample_uuid 49)
      (sample_uuid 50) [t] = Inr (?x, True, d')" by blast
  from configure_scope_spec [OF sample_store_rows(1) r] have "?x \<in> set (endpoint_rows sample_env 5 d')" by auto
  with r show ?thesis by (intro exI [of _ t] exI [of _ ?x] exI [of _ d']) simp
qed

text \<open>
  The credential file: what \<open>write_credential\<close> stores, \<open>read_credential\<close> returns; an existing
  file is never overwritten; and reading returns a well formed credential or raises \<open>ChatError\<close>,
  whatever the file holds.
\<close>

theorem credential_file_roundtrip:
  assumes "uuid_shape i" "hex64 s"
  shows "(files d n = None \<longrightarrow>
      (\<exists>d'. write_credential d n (i @ 46 # s) = Inr d' \<and> read_credential d' n = Inr (i @ 46 # s) \<and>
        (\<forall>c. write_credential d' n c = Inl OSError))) \<and>
    (case read_credential d n of Inr c \<Rightarrow> credential_id c \<noteq> None | Inl e \<Rightarrow> is_chat_error e)"
proof -
  let ?c = "i @ 46 # s"
  have ascii: "list_all (\<lambda>c. c < 128) ?c" "length ?c = 101"
    using tame_small [OF tame_uuid [OF assms(1)]] tame_small [OF tame_hex64 [OF assms(2)]] assms
    by (auto simp: uuid_shape_def hex64_def)
  have "?c \<noteq> [] \<and> \<not> is_space (hd ?c) \<and> \<not> is_space (last ?c)"
    using uuid_shape_alnum [OF assms(1)] assms
    by (cases i; cases s rule: rev_cases) (auto simp: uuid_shape_def hex64_def is_space_def is_hex_def is_digit_def)
  then have strip: "strip (?c @ [10]) = ?c" by (intro strip_newline) (simp_all add: is_space_def)
  have "files d n = None \<longrightarrow> (\<exists>d'. write_credential d n ?c = Inr d' \<and> read_credential d' n = Inr ?c \<and>
        (\<forall>c. write_credential d' n c = Inl OSError))"
    using ascii strip credential_id_format [OF assms]
    by (simp add: write_credential_def ascii_decode_def read_credential_def require_private_file_def except_chat_def)
  moreover have "case read_credential d n of Inr c \<Rightarrow> credential_id c \<noteq> None | Inl e \<Rightarrow> is_chat_error e"
    by (auto simp: read_credential_def except_chat_def bind_def ascii_decode_def require_private_file_def fail_def
        split: sum.splits option.splits if_splits)
  ultimately show ?thesis by blast
qed

theorem credential_file_roundtrip_witness:
  "\<exists>d'. write_credential empty_dir (lit ''c'') (sample_uuid 49 @ 46 # sample_hex64 97) = Inr d' \<and>
     read_credential d' (lit ''c'') = Inr (sample_uuid 49 @ 46 # sample_hex64 97)"
  using credential_file_roundtrip [of "sample_uuid 49" "sample_hex64 97" empty_dir "lit ''c''"]
  by (auto simp: sample_simps empty_dir_def)

end
