(* ===== verification/NativeHelper.thy ===== *)
theory NativeHelper
  imports Routes
begin

text \<open>
  native_helper.py: the durable, body-free relation between an original Codex task and its private
  native helper (\<open>NativeHelperBinding\<close>, \<open>NativeHelperStore\<close>), and the one-use claims of native
  dispatches (\<open>NativeDispatch\<close>, \<open>NativeDispatchStore\<close>). Every changing operation runs under its
  state lock, so it is one transition of the directory. The random ids of a reservation are an
  infinite supply given as an argument.
\<close>

section \<open>Hook groups\<close>

definition native_hook :: "string \<Rightarrow> (string \<times> string) list \<Rightarrow> string \<Rightarrow> json" where
  "native_hook tool input status =
     JObj [(lit ''type'', JStr (lit ''mcp_tool'')), (lit ''server'', JStr (lit ''codex_app'')),
       (lit ''tool'', JStr (lit tool)),
       (lit ''input'', JObj (map (\<lambda>(k, v). (lit k, JStr (lit v))) input)),
       (lit ''timeout'', JInt 30), (lit ''statusMessage'', JStr (lit status))]"

definition native_helper_create_hook_group :: dict where
  "native_helper_create_hook_group =
     [(lit ''matcher'', JStr (lit ''mcp__cross_agent_chat__native_bootstrap'')),
      (lit ''hooks'', JArr [native_hook ''create_thread''
         [(''prompt'', ''${tool_response._meta.create_thread.prompt}''),
          (''target'', ''${tool_response._meta.create_thread.target}''),
          (''model'', ''${tool_response._meta.create_thread.model}''),
          (''thinking'', ''${tool_response._meta.create_thread.thinking}''),
          (''title'', ''${tool_response._meta.create_thread.title}'')]
         ''Starting Cross Agent Chat helper''])]"

definition native_helper_dispatch_hook_group :: dict where
  "native_helper_dispatch_hook_group =
     [(lit ''matcher'', JStr (lit ''mcp__cross_agent_chat__native_dispatch'')),
      (lit ''hooks'', JArr [native_hook ''send_message_to_thread''
         [(''threadId'', ''${tool_response._meta.native_args.threadId}''),
          (''prompt'', ''${tool_response._meta.native_args.prompt}'')]
         ''Delivering Cross Agent Chat message''])]"

section \<open>NativeHelperBinding\<close>

datatype helper_state = UNKNOWN | REGISTERED | RETIRED

fun helper_state_str :: "helper_state \<Rightarrow> str" where
  "helper_state_str UNKNOWN = lit ''UNKNOWN''"
| "helper_state_str REGISTERED = lit ''REGISTERED''"
| "helper_state_str RETIRED = lit ''RETIRED''"

definition helper_state_of :: "str \<Rightarrow> helper_state option" where
  "helper_state_of s = find (\<lambda>t. helper_state_str t = s) [UNKNOWN, REGISTERED, RETIRED]"

lemma helper_state_of_str [simp]: "helper_state_of (helper_state_str t) = Some t"
  by (cases t) (simp_all add: helper_state_of_def)

lemma helper_state_of_Some [simp]: "helper_state_of s = Some t \<longleftrightarrow> s = helper_state_str t"
  by (cases t) (auto simp: helper_state_of_def split: if_splits)

record native_helper_binding =
  nb_original_session_id :: str
  nb_original_generation :: str
  nb_original_device :: str
  nb_original_cwd :: str
  nb_original_profile_root :: str
  nb_account_sha256 :: str
  nb_helper_directory :: str
  nb_nonce_sha256 :: str
  nb_state :: helper_state
  nb_helper_session_id :: "str option"
  nb_helper_generation :: "str option"

definition helper_prefix :: str where "helper_prefix = lit ''cac-native-helper-''"

definition removeprefix :: "str \<Rightarrow> str \<Rightarrow> str" where
  "removeprefix p s = (if starts_with p s then drop (length p) s else s)"

definition binding_post_init :: "native_helper_binding \<Rightarrow> native_helper_binding res" where
  "binding_post_init b =
     (let m = ''native helper binding is invalid''; n = nb_helper_directory b in
      bind (valid_uuid (nb_original_session_id b) ''original session id'') (\<lambda>_.
      bind (valid_uuid (nb_original_generation b) ''original generation'') (\<lambda>_.
      bind (valid_device (nb_original_device b)) (\<lambda>_.
      bind (stored_cwd (nb_original_cwd b)) (\<lambda>_.
      bind (stored_cwd (nb_original_profile_root b)) (\<lambda>_.
      if path_name n \<noteq> n \<or> \<not> starts_with helper_prefix n then fail m
      else
        bind (except_chat is_chat_error m (valid_uuid (removeprefix helper_prefix n) ''helper directory'')) (\<lambda>_.
        if \<not> hex64 (nb_nonce_sha256 b) then fail m
        else if \<not> hex64 (nb_account_sha256 b) then fail m
        else if nb_state b = REGISTERED \<or> nb_state b = RETIRED then
          (case (nb_helper_session_id b, nb_helper_generation b) of
             (Some s, Some g) \<Rightarrow>
               bind (valid_uuid s ''helper session id'') (\<lambda>_.
               bind (valid_uuid g ''helper generation'') (\<lambda>_. Inr b))
           | _ \<Rightarrow> fail m)
        else if nb_helper_session_id b \<noteq> None \<or> nb_helper_generation b \<noteq> None then fail m
        else Inr b)))))))"

definition nonce_digest :: "pyenv \<Rightarrow> str \<Rightarrow> str res" where
  "nonce_digest E nonce = bind (encode nonce) (\<lambda>b. Inr (sha256hex E b))"

definition binding_reserve :: "pyenv \<Rightarrow> route \<Rightarrow> str \<Rightarrow> str \<Rightarrow> str \<Rightarrow> native_helper_binding res" where
  "binding_reserve E original nonce helper_directory account_sha256 =
     (case r_profile_root original of
        Some profile \<Rightarrow>
          if r_provider original \<noteq> Codex then fail ''native helper source is unavailable''
          else
            bind (nonce_digest E nonce) (\<lambda>digest.
            binding_post_init
              \<lparr>nb_original_session_id = r_session_id original, nb_original_generation = r_generation original,
               nb_original_device = r_device original, nb_original_cwd = r_cwd original,
               nb_original_profile_root = profile, nb_account_sha256 = account_sha256,
               nb_helper_directory = helper_directory, nb_nonce_sha256 = digest, nb_state = UNKNOWN,
               nb_helper_session_id = None, nb_helper_generation = None\<rparr>)
      | None \<Rightarrow> fail ''native helper source is unavailable'')"

definition binding_register ::
  "pyenv \<Rightarrow> native_helper_binding \<Rightarrow> route \<Rightarrow> str \<Rightarrow> str \<Rightarrow> native_helper_binding res" where
  "binding_register E b helper nonce account_sha256 =
     (if nb_state b \<noteq> UNKNOWN \<or> r_provider helper \<noteq> Codex then fail ''native helper registration is unavailable''
      else if r_session_id helper = nb_original_session_id b \<or> r_device helper \<noteq> nb_original_device b \<or>
           r_profile_root helper \<noteq> Some (nb_original_profile_root b) \<or>
           path_name (r_cwd helper) \<noteq> nb_helper_directory b \<or> account_sha256 \<noteq> nb_account_sha256 b
      then fail ''native helper context is invalid''
      else
        bind (nonce_digest E nonce) (\<lambda>digest.
        if digest \<noteq> nb_nonce_sha256 b then fail ''native helper token is invalid''
        else binding_post_init
          (b\<lparr>nb_state := REGISTERED, nb_helper_session_id := Some (r_session_id helper),
             nb_helper_generation := Some (r_generation helper)\<rparr>)))"

definition binding_retire :: "native_helper_binding \<Rightarrow> native_helper_binding res" where
  "binding_retire b =
     (if nb_state b \<noteq> REGISTERED then fail ''native helper binding is invalid''
      else binding_post_init (b\<lparr>nb_state := RETIRED\<rparr>))"

definition opt_str_entry :: "string \<Rightarrow> str option \<Rightarrow> dict" where
  "opt_str_entry k v = (case v of None \<Rightarrow> [] | Some s \<Rightarrow> [(lit k, JStr s)])"

text \<open>
  A constructed binding has both helper fields exactly in the states \<open>REGISTERED\<close> and \<open>RETIRED\<close>,
  so the assertion of \<open>to_dict\<close> never fails.
\<close>

definition binding_dict :: "native_helper_binding \<Rightarrow> dict" where
  "binding_dict b =
     [(lit ''original_session_id'', JStr (nb_original_session_id b)),
      (lit ''original_generation'', JStr (nb_original_generation b)),
      (lit ''original_device'', JStr (nb_original_device b)),
      (lit ''original_cwd'', JStr (nb_original_cwd b)),
      (lit ''original_profile_root'', JStr (nb_original_profile_root b)),
      (lit ''account_sha256'', JStr (nb_account_sha256 b)),
      (lit ''helper_directory'', JStr (nb_helper_directory b)),
      (lit ''nonce_sha256'', JStr (nb_nonce_sha256 b)),
      (lit ''state'', JStr (helper_state_str (nb_state b)))] @
     (if nb_state b = UNKNOWN then []
      else opt_str_entry ''helper_session_id'' (nb_helper_session_id b) @
           opt_str_entry ''helper_generation'' (nb_helper_generation b))"

definition binding_to_dict :: "native_helper_binding \<Rightarrow> json" where
  "binding_to_dict b = JObj (binding_dict b)"

definition binding_fields :: "string list" where
  "binding_fields = [''original_session_id'', ''original_generation'', ''original_device'', ''original_cwd'',
     ''original_profile_root'', ''account_sha256'', ''helper_directory'', ''nonce_sha256'', ''state'']"

definition json_str_of :: "json \<Rightarrow> str option" where
  "json_str_of v = (case v of JStr s \<Rightarrow> Some s | _ \<Rightarrow> None)"

definition str_field :: "dict \<Rightarrow> string \<Rightarrow> str option" where
  "str_field d k = (case jget d k of Some (JStr s) \<Rightarrow> Some s | _ \<Rightarrow> None)"

definition binding_from_dict :: "json \<Rightarrow> native_helper_binding res" where
  "binding_from_dict value =
     (let m = ''native helper binding is invalid'' in
      case value of
        JObj d \<Rightarrow>
          if \<not> (has_keys d binding_fields \<or>
                has_keys d (binding_fields @ [''helper_session_id'', ''helper_generation''])) \<or>
             \<not> list_all (\<lambda>p. json_str_of (snd p) \<noteq> None) d then fail m
          else
            bind (get_str m d ''original_session_id'') (\<lambda>osid.
            bind (get_str m d ''original_generation'') (\<lambda>ogen.
            bind (get_str m d ''original_device'') (\<lambda>odev.
            bind (get_str m d ''original_cwd'') (\<lambda>ocwd.
            bind (get_str m d ''original_profile_root'') (\<lambda>oroot.
            bind (get_str m d ''account_sha256'') (\<lambda>account.
            bind (get_str m d ''helper_directory'') (\<lambda>directory.
            bind (get_str m d ''nonce_sha256'') (\<lambda>digest.
            bind (get_str m d ''state'') (\<lambda>s.
            case helper_state_of s of
              None \<Rightarrow> fail m
            | Some state \<Rightarrow>
                binding_post_init
                  \<lparr>nb_original_session_id = osid, nb_original_generation = ogen, nb_original_device = odev,
                   nb_original_cwd = ocwd, nb_original_profile_root = oroot, nb_account_sha256 = account,
                   nb_helper_directory = directory, nb_nonce_sha256 = digest, nb_state = state,
                   nb_helper_session_id = str_field d ''helper_session_id'',
                   nb_helper_generation = str_field d ''helper_generation''\<rparr>)))))))))
      | _ \<Rightarrow> fail m)"

section \<open>NativeHelperStore\<close>

definition native_helpers_json :: str where "native_helpers_json = lit ''native-helpers.json''"

text \<open>
  Reading a table of this file: only OSError and JSONDecodeError are turned into \<open>ChatError\<close>, so a
  file that is no UTF-8 raises UnicodeDecodeError.
\<close>

definition read_json_table :: "pyenv \<Rightarrow> dir \<Rightarrow> str \<Rightarrow> string \<Rightarrow> (json \<Rightarrow> 'a res) \<Rightarrow> 'a list res" where
  "read_json_table E d n m row =
     (case files d n of
        None \<Rightarrow> Inr []
      | Some f \<Rightarrow>
          bind (require_private_file d n) (\<lambda>_.
          bind (except_chat (\<lambda>e. is_os_error e \<or> e = JSONDecodeError) m (loads_file E f)) (\<lambda>raw.
          rows_of row m raw)))"

definition is_active :: "native_helper_binding \<Rightarrow> bool" where
  "is_active b \<longleftrightarrow> nb_state b = UNKNOWN \<or> nb_state b = REGISTERED"

definition is_bound :: "native_helper_binding \<Rightarrow> bool" where
  "is_bound b \<longleftrightarrow> nb_state b = REGISTERED \<or> nb_state b = RETIRED"

definition original_of :: "native_helper_binding \<Rightarrow> str \<times> str" where
  "original_of b = (nb_original_session_id b, nb_original_generation b)"

definition helper_of :: "native_helper_binding \<Rightarrow> str option \<times> str option" where
  "helper_of b = (nb_helper_session_id b, nb_helper_generation b)"

definition bindings_unique :: "native_helper_binding list \<Rightarrow> bool" where
  "bindings_unique bs \<longleftrightarrow>
     distinct (map original_of (filter is_active bs)) \<and> distinct (map nb_helper_directory bs) \<and>
     distinct (map nb_nonce_sha256 bs) \<and> distinct (map helper_of (filter is_bound bs))"

definition bindings :: "pyenv \<Rightarrow> dir \<Rightarrow> native_helper_binding list res" where
  "bindings E d =
     bind (read_json_table E d native_helpers_json ''native helper state is invalid'' binding_from_dict) (\<lambda>bs.
     if \<not> bindings_unique bs then fail ''native helper state is invalid'' else Inr bs)"

definition bindings_write :: "pyenv \<Rightarrow> dir \<Rightarrow> native_helper_binding list \<Rightarrow> dir" where
  "bindings_write E d bs = atomic_json E d native_helpers_json (JArr (map binding_to_dict bs))"

fun filter_res :: "('a \<Rightarrow> bool res) \<Rightarrow> 'a list \<Rightarrow> 'a list res" where
  "filter_res p [] = Inr []"
| "filter_res p (x # xs) = bind (p x) (\<lambda>b. bind (filter_res p xs) (\<lambda>ys. Inr (if b then x # ys else ys)))"

definition and_res :: "bool \<Rightarrow> bool res \<Rightarrow> bool res" where
  "and_res a b = (if a then b else Inr False)"

definition same_original :: "route \<Rightarrow> native_helper_binding \<Rightarrow> bool" where
  "same_original r b \<longleftrightarrow>
     nb_original_session_id b = r_session_id r \<and> nb_original_generation b = r_generation r"

definition bound_helper :: "native_helper_binding \<Rightarrow> route \<Rightarrow> bool" where
  "bound_helper b r \<longleftrightarrow>
     Some (r_session_id r) = nb_helper_session_id b \<and> Some (r_generation r) = nb_helper_generation b"

definition live_helpers ::
  "(int \<Rightarrow> kill_result) \<Rightarrow> fsview \<Rightarrow> native_helper_binding list \<Rightarrow> route list \<Rightarrow> route list res" where
  "live_helpers kill fs matches routes =
     bind (map_res (\<lambda>b. filter_res (\<lambda>r. and_res (bound_helper b r \<and> process_is_live kill r) (cwd_is_available fs r)) routes)
             (filter (\<lambda>b. nb_state b = REGISTERED) matches))
       (\<lambda>rss. Inr (concat rss))"

text \<open>The first directory name of the supply that no binding has; no value if there is none.\<close>

partial_function (option) fresh_directory :: "native_helper_binding list \<Rightarrow> (nat \<Rightarrow> str) \<Rightarrow> nat \<Rightarrow> str option" where
  "fresh_directory bs uuids n =
     (let candidate = helper_prefix @ uuids n in
      if list_ex (\<lambda>b. nb_helper_directory b = candidate) bs then fresh_directory bs uuids (Suc n)
      else Some candidate)"

definition reserve_helper ::
  "pyenv \<Rightarrow> (int \<Rightarrow> kill_result) \<Rightarrow> fsview \<Rightarrow> str \<Rightarrow> (nat \<Rightarrow> str) \<Rightarrow> dir \<Rightarrow> route \<Rightarrow> str \<Rightarrow> route list \<Rightarrow>
   (native_helper_binding \<times> str \<times> dir) res option" where
  "reserve_helper E kill fs nonce uuids d original account_sha256 routes =
     (case bindings E d of
        Inl e \<Rightarrow> Some (Inl e)
      | Inr existing \<Rightarrow>
          (let matches = filter (same_original original) existing in
           case live_helpers kill fs matches routes of
             Inl e \<Rightarrow> Some (Inl e)
           | Inr live \<Rightarrow>
               if list_ex (\<lambda>b. nb_state b = UNKNOWN) matches \<or> live \<noteq> []
               then Some (fail ''native helper bootstrap is unavailable'')
               else
                 (case fresh_directory existing uuids 0 of
                    None \<Rightarrow> None
                  | Some directory \<Rightarrow>
                      Some
                        (bind (binding_reserve E original nonce directory account_sha256) (\<lambda>b.
                         bind (map_res (\<lambda>i. if i \<in> set matches \<and> nb_state i = REGISTERED
                                            then binding_retire i else Inr i) existing) (\<lambda>retired.
                         Inr (b, nonce, bindings_write E d (retired @ [b]))))))))"

text \<open>
  \<^verbatim>\<open>suffix.isdecimal() and int(suffix) > 0\<close>: \<open>decimal\<close> is the Unicode decimal value of a
  character; an integer of more than 4300 digits raises ValueError.
\<close>

definition positive_decimal :: "(nat \<Rightarrow> nat option) \<Rightarrow> str \<Rightarrow> bool res" where
  "positive_decimal decimal s =
     (if s = [] \<or> \<not> list_all (\<lambda>c. decimal c \<noteq> None) s then Inr False
      else if int_max_str_digits < length s then Inl ValueError
      else Inr (list_ex (\<lambda>c. decimal c \<noteq> Some 0) s))"

fun lineage_scan :: "(nat \<Rightarrow> nat option) \<Rightarrow> str \<Rightarrow> native_helper_binding list \<Rightarrow> bool res" where
  "lineage_scan decimal directory [] = Inr False"
| "lineage_scan decimal directory (b # bs) =
     (if directory = nb_helper_directory b then Inr True
      else
        let prefix = nb_helper_directory b @ lit ''-'' in
        bind (and_res (starts_with prefix directory) (positive_decimal decimal (removeprefix prefix directory))) (\<lambda>y.
        if y then Inr True else lineage_scan decimal directory bs))"

definition is_helper_lineage :: "pyenv \<Rightarrow> (nat \<Rightarrow> nat option) \<Rightarrow> dir \<Rightarrow> route \<Rightarrow> bool res" where
  "is_helper_lineage E decimal d r =
     bind (bindings E d) (lineage_scan decimal (path_name (r_cwd r)))"

definition needs_bootstrap :: "pyenv \<Rightarrow> (nat \<Rightarrow> nat option) \<Rightarrow> dir \<Rightarrow> route \<Rightarrow> bool res" where
  "needs_bootstrap E decimal d r =
     bind (is_helper_lineage E decimal d r) (\<lambda>lineage.
     if lineage then Inr False
     else bind (bindings E d) (\<lambda>bs. Inr (\<not> list_ex (same_original r) bs)))"

definition pending_for_helper :: "pyenv \<Rightarrow> dir \<Rightarrow> route \<Rightarrow> bool res" where
  "pending_for_helper E d r =
     bind (bindings E d) (\<lambda>bs.
     Inr (list_ex (\<lambda>b. nb_state b = UNKNOWN \<and> nb_original_device b = r_device r \<and>
            Some (nb_original_profile_root b) = r_profile_root r \<and>
            path_name (r_cwd r) = nb_helper_directory b) bs))"

definition original_for_nonce :: "pyenv \<Rightarrow> dir \<Rightarrow> str \<Rightarrow> route list \<Rightarrow> route res" where
  "original_for_nonce E d nonce routes =
     bind (nonce_digest E nonce) (\<lambda>digest.
     bind (bindings E d) (\<lambda>bs.
     case the_one (\<lambda>b. nb_nonce_sha256 b = digest) bs of
       None \<Rightarrow> fail ''native helper registration is unavailable''
     | Some b \<Rightarrow>
         (case the_one (\<lambda>r. r_provider r = Codex \<and> same_original r b) routes of
            None \<Rightarrow> fail ''native helper original route changed''
          | Some r \<Rightarrow> Inr r)))"

text \<open>The nonce is hashed in a filter over the rows, so only when there is a row.\<close>

definition register_helper ::
  "pyenv \<Rightarrow> dir \<Rightarrow> route \<Rightarrow> str \<Rightarrow> route \<Rightarrow> str \<Rightarrow> (native_helper_binding \<times> dir) res" where
  "register_helper E d helper nonce original_current account_sha256 =
     bind (bindings E d) (\<lambda>existing.
     bind (filter_res (\<lambda>b. bind (nonce_digest E nonce) (\<lambda>digest. Inr (nb_nonce_sha256 b = digest))) existing) (\<lambda>matches.
     case matches of
       [pending] \<Rightarrow>
         if r_session_id original_current \<noteq> nb_original_session_id pending \<or>
            r_generation original_current \<noteq> nb_original_generation pending \<or>
            r_provider original_current \<noteq> Codex
         then fail ''native helper original route changed''
         else
           bind (binding_register E pending helper nonce account_sha256) (\<lambda>registered.
           Inr (registered, bindings_write E d (map (\<lambda>b. if b = pending then registered else b) existing)))
     | _ \<Rightarrow> fail ''native helper registration is unavailable''))"

definition original_for_helper :: "pyenv \<Rightarrow> dir \<Rightarrow> route \<Rightarrow> route list \<Rightarrow> route res" where
  "original_for_helper E d helper routes =
     bind (bindings E d) (\<lambda>bs.
     case the_one (\<lambda>b. nb_state b = REGISTERED \<and> bound_helper b helper) bs of
       None \<Rightarrow> fail ''native helper dispatch is unavailable''
     | Some b \<Rightarrow>
         (case the_one (\<lambda>r. r_provider r = Codex \<and> same_original r b \<and> r_device r = nb_original_device b \<and>
                  r_profile_root r = Some (nb_original_profile_root b)) routes of
            None \<Rightarrow> fail ''native helper original route changed''
          | Some r \<Rightarrow> Inr r))"

definition helper_for_original ::
  "pyenv \<Rightarrow> (int \<Rightarrow> kill_result) \<Rightarrow> fsview \<Rightarrow> dir \<Rightarrow> route \<Rightarrow> route list \<Rightarrow> route option res" where
  "helper_for_original E kill fs d original routes =
     bind (bindings E d) (\<lambda>bs.
     case filter (\<lambda>b. nb_state b = REGISTERED \<and> same_original original b) bs of
       [] \<Rightarrow> Inr None
     | [b] \<Rightarrow>
         bind (filter_res (\<lambda>r. and_res (r_provider r = Codex \<and> bound_helper b r \<and> r_device r = r_device original \<and>
                  r_profile_root r = r_profile_root original \<and> path_name (r_cwd r) = nb_helper_directory b \<and>
                  process_is_live kill r) (cwd_is_available fs r)) routes) (\<lambda>helpers.
         Inr (case helpers of [r] \<Rightarrow> Some r | _ \<Rightarrow> None))
     | _ \<Rightarrow> fail ''native helper binding is unavailable'')"

section \<open>NativeDispatch and its store\<close>

record native_dispatch =
  nd_event_id :: str
  nd_helper_session_id :: str
  nd_helper_generation :: str
  nd_original_session_id :: str
  nd_original_generation :: str
  nd_payload_sha256 :: str

text \<open>The only state of a dispatch is \<open>UNKNOWN\<close>, so it is not a field.\<close>

definition dispatch_post_init :: "native_dispatch \<Rightarrow> native_dispatch res" where
  "dispatch_post_init x =
     bind (valid_uuid (nd_event_id x) ''event id'') (\<lambda>_.
     bind (valid_uuid (nd_helper_session_id x) ''helper session id'') (\<lambda>_.
     bind (valid_uuid (nd_helper_generation x) ''helper generation'') (\<lambda>_.
     bind (valid_uuid (nd_original_session_id x) ''original session id'') (\<lambda>_.
     bind (valid_uuid (nd_original_generation x) ''original generation'') (\<lambda>_.
     if \<not> hex64 (nd_payload_sha256 x) then fail ''native dispatch is invalid'' else Inr x)))))"

definition dispatch_dict :: "native_dispatch \<Rightarrow> dict" where
  "dispatch_dict x =
     [(lit ''event_id'', JStr (nd_event_id x)),
      (lit ''helper_session_id'', JStr (nd_helper_session_id x)),
      (lit ''helper_generation'', JStr (nd_helper_generation x)),
      (lit ''original_session_id'', JStr (nd_original_session_id x)),
      (lit ''original_generation'', JStr (nd_original_generation x)),
      (lit ''payload_sha256'', JStr (nd_payload_sha256 x)),
      (lit ''state'', JStr (lit ''UNKNOWN''))]"

definition dispatch_to_dict :: "native_dispatch \<Rightarrow> json" where
  "dispatch_to_dict x = JObj (dispatch_dict x)"

definition dispatch_fields :: "string list" where
  "dispatch_fields = [''event_id'', ''helper_session_id'', ''helper_generation'', ''original_session_id'',
     ''original_generation'', ''payload_sha256'', ''state'']"

definition dispatch_from_dict :: "json \<Rightarrow> native_dispatch res" where
  "dispatch_from_dict value =
     (let m = ''native dispatch is invalid'' in
      case value of
        JObj d \<Rightarrow>
          if \<not> has_keys d dispatch_fields \<or> \<not> list_all (\<lambda>p. json_str_of (snd p) \<noteq> None) d then fail m
          else if jget d ''state'' \<noteq> Some (JStr (lit ''UNKNOWN'')) then fail m
          else
            bind (get_str m d ''event_id'') (\<lambda>event.
            bind (get_str m d ''helper_session_id'') (\<lambda>hs.
            bind (get_str m d ''helper_generation'') (\<lambda>hg.
            bind (get_str m d ''original_session_id'') (\<lambda>os.
            bind (get_str m d ''original_generation'') (\<lambda>og.
            bind (get_str m d ''payload_sha256'') (\<lambda>digest.
            dispatch_post_init
              \<lparr>nd_event_id = event, nd_helper_session_id = hs, nd_helper_generation = hg,
               nd_original_session_id = os, nd_original_generation = og, nd_payload_sha256 = digest\<rparr>))))))
      | _ \<Rightarrow> fail m)"

definition native_dispatches_json :: str where "native_dispatches_json = lit ''native-dispatches.json''"

definition dispatches :: "pyenv \<Rightarrow> dir \<Rightarrow> native_dispatch list res" where
  "dispatches E d =
     read_json_table E d native_dispatches_json ''native dispatch state is invalid'' dispatch_from_dict"

definition claim_dispatch :: "pyenv \<Rightarrow> dir \<Rightarrow> route \<Rightarrow> route \<Rightarrow> str \<Rightarrow> str \<Rightarrow> (native_dispatch \<times> dir) res" where
  "claim_dispatch E d helper original event_id message =
     bind (encode message) (\<lambda>b.
     bind (dispatch_post_init
       \<lparr>nd_event_id = event_id, nd_helper_session_id = r_session_id helper,
        nd_helper_generation = r_generation helper, nd_original_session_id = r_session_id original,
        nd_original_generation = r_generation original, nd_payload_sha256 = sha256hex E b\<rparr>) (\<lambda>x.
     bind (dispatches E d) (\<lambda>existing.
     if list_ex (\<lambda>y. nd_event_id y = nd_event_id x) existing then fail ''native dispatch is unavailable''
     else Inr (x, atomic_json E d native_dispatches_json (JArr (map dispatch_to_dict (existing @ [x])))))))"

definition has_event :: "pyenv \<Rightarrow> dir \<Rightarrow> str \<Rightarrow> bool res" where
  "has_event E d event_id =
     bind (valid_uuid event_id ''event id'') (\<lambda>identifier.
     bind (dispatches E d) (\<lambda>existing. Inr (list_ex (\<lambda>y. nd_event_id y = identifier) existing)))"

section \<open>Tables that are read back\<close>

definition binding_valid :: "native_helper_binding \<Rightarrow> bool" where
  "binding_valid b \<longleftrightarrow>
     uuid_shape (nb_original_session_id b) \<and> uuid_shape (nb_original_generation b) \<and>
     device_shape (nb_original_device b) \<and> cwd_shape (nb_original_cwd b) \<and> cwd_shape (nb_original_profile_root b) \<and>
     path_name (nb_helper_directory b) = nb_helper_directory b \<and>
     (\<exists>u. nb_helper_directory b = helper_prefix @ u \<and> uuid_shape u) \<and>
     hex64 (nb_nonce_sha256 b) \<and> hex64 (nb_account_sha256 b) \<and>
     (case nb_state b of
        UNKNOWN \<Rightarrow> nb_helper_session_id b = None \<and> nb_helper_generation b = None
      | _ \<Rightarrow> (\<exists>s g. nb_helper_session_id b = Some s \<and> nb_helper_generation b = Some g \<and> uuid_shape s \<and> uuid_shape g))"

lemma removeprefix_append [simp]: "removeprefix p (p @ s) = s"
  by (simp add: removeprefix_def)

lemma binding_post_init_iff: "binding_post_init b = Inr b' \<longleftrightarrow> b' = b \<and> binding_valid b"
proof -
  have "\<not> (path_name n \<noteq> n \<or> \<not> starts_with helper_prefix n) \<and>
      except_chat is_chat_error m (valid_uuid (removeprefix helper_prefix n) f) = Inr x \<longleftrightarrow>
    path_name n = n \<and> n = helper_prefix @ x \<and> uuid_shape x" for n m f x
    by (auto simp: starts_with_iff res_simps valid_simps)
  then show ?thesis
    by (cases "nb_state b"; cases "nb_helper_session_id b"; cases "nb_helper_generation b")
      (auto simp: binding_post_init_def binding_valid_def Let_def res_simps valid_simps)
qed

lemma dispatch_post_init_iff:
  "dispatch_post_init x = Inr y \<longleftrightarrow> y = x \<and> uuid_shape (nd_event_id x) \<and> uuid_shape (nd_helper_session_id x) \<and>
     uuid_shape (nd_helper_generation x) \<and> uuid_shape (nd_original_session_id x) \<and>
     uuid_shape (nd_original_generation x) \<and> hex64 (nd_payload_sha256 x)"
  by (auto simp: dispatch_post_init_def res_simps valid_simps)

context json_table
begin

lemma json_table_written:
  "list_all good rs \<Longrightarrow> read_json_table E (atomic_json E d n (JArr (map to_dict rs))) n m from_object = Inr rs"
  using loads_payload [OF plain_table, of rs E] rows_restored [of rs m]
  by (simp add: read_json_table_def require_private_file_def del: sort_keys.simps)

end

lemma read_json_table_cong:
  "files d n = files d' n \<Longrightarrow> root_path d = root_path d' \<Longrightarrow> read_json_table E d n m row = read_json_table E d' n m row"
  by (cases "files d' n") (simp_all add: read_json_table_def require_private_file_def)

definition binding_storable :: "native_helper_binding \<Rightarrow> bool" where
  "binding_storable b \<longleftrightarrow> binding_valid b \<and> plain True (binding_to_dict b)"

lemma binding_from_dict_dict: "binding_valid b \<Longrightarrow> binding_from_dict (JObj (binding_dict b)) = Inr b"
proof -
  assume v: "binding_valid b"
  then have h: "nb_state b = UNKNOWN \<and> nb_helper_session_id b = None \<and> nb_helper_generation b = None \<or>
      nb_state b \<noteq> UNKNOWN \<and> (\<exists>s g. nb_helper_session_id b = Some s \<and> nb_helper_generation b = Some g)"
    by (auto simp: binding_valid_def split: helper_state.splits)
  then have keys: "has_keys (binding_dict b) binding_fields \<or>
      has_keys (binding_dict b) (binding_fields @ [''helper_session_id'', ''helper_generation''])"
    by (auto simp: has_keys_def binding_dict_def binding_fields_def opt_str_entry_def)
  have strs: "list_all (\<lambda>p. json_str_of (snd p) \<noteq> None) (binding_dict b)"
    by (auto simp: binding_dict_def json_str_of_def opt_str_entry_def split: option.splits)
  have fields: "get_str m (binding_dict b) ''original_session_id'' = Inr (nb_original_session_id b)"
    "get_str m (binding_dict b) ''original_generation'' = Inr (nb_original_generation b)"
    "get_str m (binding_dict b) ''original_device'' = Inr (nb_original_device b)"
    "get_str m (binding_dict b) ''original_cwd'' = Inr (nb_original_cwd b)"
    "get_str m (binding_dict b) ''original_profile_root'' = Inr (nb_original_profile_root b)"
    "get_str m (binding_dict b) ''account_sha256'' = Inr (nb_account_sha256 b)"
    "get_str m (binding_dict b) ''helper_directory'' = Inr (nb_helper_directory b)"
    "get_str m (binding_dict b) ''nonce_sha256'' = Inr (nb_nonce_sha256 b)"
    "get_str m (binding_dict b) ''state'' = Inr (helper_state_str (nb_state b))" for m
    by (simp_all add: res_simps binding_dict_def)
  have opts: "str_field (binding_dict b) ''helper_session_id'' = nb_helper_session_id b"
    "str_field (binding_dict b) ''helper_generation'' = nb_helper_generation b"
    using h by (auto simp: str_field_def binding_dict_def opt_str_entry_def)
  have "binding_post_init b = Inr b" using v by (simp add: binding_post_init_iff)
  moreover have eta: "\<lparr>nb_original_session_id = nb_original_session_id b, nb_original_generation = nb_original_generation b,
      nb_original_device = nb_original_device b, nb_original_cwd = nb_original_cwd b,
      nb_original_profile_root = nb_original_profile_root b, nb_account_sha256 = nb_account_sha256 b,
      nb_helper_directory = nb_helper_directory b, nb_nonce_sha256 = nb_nonce_sha256 b, nb_state = nb_state b,
      nb_helper_session_id = nb_helper_session_id b, nb_helper_generation = nb_helper_generation b\<rparr> = b"
    by (cases b) simp
  ultimately show ?thesis using keys strs by (simp add: binding_from_dict_def fields opts eta)
qed

lemma binding_dict_distinct: "distinct (map fst (binding_dict b))"
  by (auto simp: binding_dict_def opt_str_entry_def split: option.splits)

lemma str_field_sorted: "distinct (map fst d) \<Longrightarrow> str_field (sort_dict d) k = str_field d k"
  by (auto simp: str_field_def map_of_sort_dict split: option.splits json.splits)

lemma json_str_of_sort_keys [simp]: "json_str_of (sort_keys v) = json_str_of v"
  by (cases v) (simp_all add: json_str_of_def)

lemma all_str_sorted:
  "list_all (\<lambda>p. json_str_of (snd p) \<noteq> None) (sort_dict d) = list_all (\<lambda>p. json_str_of (snd p) \<noteq> None) d"
  by (auto simp: list_all_iff set_sort_dict)

lemma binding_from_dict_sorted:
  "distinct (map fst d) \<Longrightarrow> binding_from_dict (JObj (sort_dict d)) = binding_from_dict (JObj d)"
  by (simp add: binding_from_dict_def Let_def sorted_getters all_str_sorted str_field_sorted del: not_None_eq
      cong: option.case_cong)

interpretation helper_table: json_table binding_storable binding_to_dict binding_from_dict
proof
  show "binding_storable b \<Longrightarrow> plain True (binding_to_dict b)" for b by (simp add: binding_storable_def)
  show "binding_from_dict (sort_keys (binding_to_dict b)) = Inr b" if "binding_storable b" for b
    using that binding_from_dict_dict [of b] binding_from_dict_sorted [OF binding_dict_distinct, of b]
    by (simp add: binding_storable_def binding_to_dict_def)
qed

definition dispatch_valid :: "native_dispatch \<Rightarrow> bool" where
  "dispatch_valid x \<longleftrightarrow> uuid_shape (nd_event_id x) \<and> uuid_shape (nd_helper_session_id x) \<and>
     uuid_shape (nd_helper_generation x) \<and> uuid_shape (nd_original_session_id x) \<and>
     uuid_shape (nd_original_generation x) \<and> hex64 (nd_payload_sha256 x)"

lemma uuid_printable: "uuid_shape s \<Longrightarrow> list_all (printable a) s"
  using uuid_shape_alnum [of s] by (auto simp: list_all_iff is_scalar_printable scalar_small is_hex_def is_digit_def)

lemma hex64_printable: "hex64 s \<Longrightarrow> list_all (printable a) s"
  by (auto simp: hex64_def list_all_iff is_scalar_printable scalar_small is_hex_def is_digit_def)

lemma lit_printable: "list_all (printable a) (lit s)"
  using scalar_lit by (auto simp: list_all_iff is_scalar_printable)

lemma dispatch_from_dict_dict: "dispatch_valid x \<Longrightarrow> dispatch_from_dict (JObj (dispatch_dict x)) = Inr x"
proof -
  assume v: "dispatch_valid x"
  have keys: "has_keys (dispatch_dict x) dispatch_fields"
    "list_all (\<lambda>p. json_str_of (snd p) \<noteq> None) (dispatch_dict x)"
    "jget (dispatch_dict x) ''state'' = Some (JStr (lit ''UNKNOWN''))"
    by (auto simp: has_keys_def dispatch_dict_def dispatch_fields_def json_str_of_def)
  have fields: "get_str m (dispatch_dict x) ''event_id'' = Inr (nd_event_id x)"
    "get_str m (dispatch_dict x) ''helper_session_id'' = Inr (nd_helper_session_id x)"
    "get_str m (dispatch_dict x) ''helper_generation'' = Inr (nd_helper_generation x)"
    "get_str m (dispatch_dict x) ''original_session_id'' = Inr (nd_original_session_id x)"
    "get_str m (dispatch_dict x) ''original_generation'' = Inr (nd_original_generation x)"
    "get_str m (dispatch_dict x) ''payload_sha256'' = Inr (nd_payload_sha256 x)" for m
    by (simp_all add: res_simps dispatch_dict_def)
  have "dispatch_post_init x = Inr x" using v by (simp add: dispatch_post_init_iff dispatch_valid_def)
  moreover have eta: "\<lparr>nd_event_id = nd_event_id x, nd_helper_session_id = nd_helper_session_id x,
      nd_helper_generation = nd_helper_generation x, nd_original_session_id = nd_original_session_id x,
      nd_original_generation = nd_original_generation x, nd_payload_sha256 = nd_payload_sha256 x\<rparr> = x"
    by (cases x) simp
  ultimately show ?thesis using keys by (simp add: dispatch_from_dict_def fields eta)
qed

lemma dispatch_from_dict_sorted:
  "distinct (map fst d) \<Longrightarrow> dispatch_from_dict (JObj (sort_dict d)) = dispatch_from_dict (JObj d)"
  by (simp add: dispatch_from_dict_def Let_def sorted_getters all_str_sorted map_of_sort_dict del: not_None_eq)

interpretation dispatch_table: json_table dispatch_valid dispatch_to_dict dispatch_from_dict
proof
  show "dispatch_valid x \<Longrightarrow> plain True (dispatch_to_dict x)" for x
    by (auto simp: dispatch_valid_def dispatch_to_dict_def dispatch_dict_def uuid_printable hex64_printable lit_printable)
  show "dispatch_from_dict (sort_keys (dispatch_to_dict x)) = Inr x" if "dispatch_valid x" for x
    using that dispatch_from_dict_dict [of x] dispatch_from_dict_sorted [of "dispatch_dict x"]
    by (simp add: dispatch_to_dict_def) (simp add: dispatch_dict_def)
qed


section \<open>What the operations do to the tables\<close>

definition helpers_ok :: "pyenv \<Rightarrow> dir \<Rightarrow> native_helper_binding list \<Rightarrow> bool" where
  "helpers_ok E d bs \<longleftrightarrow> bindings E d = Inr bs \<and> list_all binding_storable bs"

lemma bindings_written:
  "list_all binding_storable bs \<Longrightarrow> bindings_unique bs \<Longrightarrow> helpers_ok E (bindings_write E d bs) bs"
  by (simp add: helpers_ok_def bindings_def bindings_write_def helper_table.json_table_written)

lemma bindings_uniqueD: "bindings E d = Inr bs \<Longrightarrow> bindings_unique bs"
  by (auto simp: bindings_def res_simps)

lemma filter_res_pure: "(\<And>x. x \<in> set xs \<Longrightarrow> p x = Inr (q x)) \<Longrightarrow> filter_res p xs = Inr (filter q xs)"
  by (induction xs) auto

lemma filter_res_set: "filter_res p xs = Inr ys \<Longrightarrow> y \<in> set ys \<Longrightarrow> y \<in> set xs \<and> p y = Inr True"
  by (induction xs arbitrary: ys) (auto simp: res_simps split: if_splits)

lemma binding_registerD:
  assumes "binding_register E b helper nonce account = Inr b'"
  shows "nb_state b = UNKNOWN" "b' = b\<lparr>nb_state := REGISTERED, nb_helper_session_id := Some (r_session_id helper),
      nb_helper_generation := Some (r_generation helper)\<rparr>" "binding_valid b'"
    "nonce_digest E nonce = Inr (nb_nonce_sha256 b)" "account = nb_account_sha256 b"
    "r_provider helper = Codex" "r_session_id helper \<noteq> nb_original_session_id b"
    "r_device helper = nb_original_device b" "r_profile_root helper = Some (nb_original_profile_root b)"
    "path_name (r_cwd helper) = nb_helper_directory b"
  using assms by (auto simp: binding_register_def res_simps binding_post_init_iff)

lemma register_storable:
  assumes "binding_storable b" "binding_register E b helper nonce account = Inr b'"
  shows "binding_storable b'"
proof -
  note r = binding_registerD [OF assms(2)]
  from r(3) have "uuid_shape (r_session_id helper)" "uuid_shape (r_generation helper)"
    unfolding r(2) by (auto simp: binding_valid_def)
  with assms(1) r(1,3) show ?thesis
    unfolding binding_storable_def r(2)
    by (auto simp: binding_to_dict_def binding_dict_def opt_str_entry_def uuid_printable lit_printable)
qed

lemma retire_storable:
  "binding_storable b \<Longrightarrow> nb_state b = REGISTERED \<Longrightarrow>
   binding_retire b = Inr (b\<lparr>nb_state := RETIRED\<rparr>) \<and> binding_storable (b\<lparr>nb_state := RETIRED\<rparr>)"
  by (auto simp: binding_retire_def binding_post_init_iff binding_storable_def binding_valid_def
      binding_to_dict_def binding_dict_def lit_printable)

text \<open>Replacing the one pending row keeps the table unique when the helper is not bound yet.\<close>

lemma distinct_filter_replace:
  assumes "distinct (map f (filter P xs))" "x \<in> set xs" "\<not> P x" "P y" "f y \<notin> f ` set (filter P xs)" "distinct xs"
  shows "distinct (map f (filter P (map (\<lambda>z. if z = x then y else z) xs)))"
proof -
  obtain us vs where xs: "xs = us @ x # vs" using assms(2) by (auto dest: split_list)
  with assms(6) have no: "x \<notin> set us" "x \<notin> set vs" by auto
  then have "map (\<lambda>z. if z = x then y else z) us = us" "map (\<lambda>z. if z = x then y else z) vs = vs"
    by (auto intro!: map_idI)
  with xs no assms show ?thesis by auto
qed

lemma map_replace_keeps:
  assumes "f y = f x"
  shows "map f (map (\<lambda>z. if z = x then y else z) xs) = map f xs"
  using assms by auto

lemma filter_map_replace_keeps:
  assumes "P y = P x" "f y = f x"
  shows "map f (filter P (map (\<lambda>z. if z = x then y else z) xs)) = map f (filter P xs)"
  using assms by (induction xs) auto

definition helper_unbound :: "native_helper_binding list \<Rightarrow> route \<Rightarrow> bool" where
  "helper_unbound bs helper \<longleftrightarrow> \<not> list_ex (\<lambda>b. is_bound b \<and> bound_helper b helper) bs"

lemma replace_unique:
  assumes "bindings_unique bs" "b \<in> set bs" "binding_register E b helper nonce account = Inr b'"
    and "helper_unbound bs helper"
  shows "bindings_unique (map (\<lambda>x. if x = b then b' else x) bs)"
proof -
  note r = binding_registerD [OF assms(3)]
  have same: "nb_helper_directory b' = nb_helper_directory b" "nb_nonce_sha256 b' = nb_nonce_sha256 b"
    "original_of b' = original_of b" "is_active b' = is_active b"
    unfolding r(2) using r(1) by (simp_all add: original_of_def is_active_def)
  have "distinct bs" using assms(1) by (auto simp: bindings_unique_def distinct_map)
  moreover have "helper_of b' \<notin> helper_of ` set (filter is_bound bs)"
    using assms(4) unfolding r(2) by (auto simp: helper_unbound_def list_ex_iff helper_of_def bound_helper_def)
  moreover have "\<not> is_bound b" "is_bound b'" using r(1) unfolding r(2) by (simp_all add: is_bound_def)
  ultimately have "distinct (map helper_of (filter is_bound (map (\<lambda>x. if x = b then b' else x) bs)))"
    using assms(1,2) by (intro distinct_filter_replace) (auto simp: bindings_unique_def)
  then show ?thesis
    using assms(1) unfolding bindings_unique_def
    by (simp only: map_replace_keeps [where f = nb_helper_directory, OF same(1)]
        map_replace_keeps [where f = nb_nonce_sha256, OF same(2)]
        filter_map_replace_keeps [where f = original_of, OF same(4,3)])
qed

text \<open>A case distinction that wants exactly one element.\<close>

lemma one_case_Inr:
  "(case xs of [] \<Rightarrow> fail m | [x] \<Rightarrow> f x | _ \<Rightarrow> fail m') = Inr z \<longleftrightarrow> (\<exists>x. xs = [x] \<and> f x = Inr z)"
  by (cases xs rule: remdups_adj.cases) auto

lemma option_case_Inr:
  "(case q of None \<Rightarrow> fail m | Some x \<Rightarrow> f x) = Inr z \<longleftrightarrow> (\<exists>x. q = Some x \<and> f x = Inr z)"
  by (cases q) auto

lemma one_case_Some: "(case xs of [] \<Rightarrow> None | [x] \<Rightarrow> Some x | _ \<Rightarrow> None) = Some z \<longleftrightarrow> xs = [z]"
  by (cases xs rule: remdups_adj.cases) auto

lemma at_most_one_case:
  "(case xs of [] \<Rightarrow> Inr None | [x] \<Rightarrow> f x | _ \<Rightarrow> fail m) = Inr (Some z) \<longleftrightarrow> (\<exists>x. xs = [x] \<and> f x = Inr (Some z))"
  by (cases xs rule: remdups_adj.cases) auto

text \<open>A registration: the pending row it consumes, and the table it leaves.\<close>

lemma register_helperE:
  assumes "helpers_ok E d bs" "register_helper E d helper nonce original account = Inr (b', d')"
  obtains b where "b \<in> set bs" "nonce_digest E nonce = Inr (nb_nonce_sha256 b)" "same_original original b"
    "r_provider original = Codex" "binding_register E b helper nonce account = Inr b'"
    "d' = bindings_write E d (map (\<lambda>x. if x = b then b' else x) bs)"
proof -
  let ?p = "\<lambda>b. bind (nonce_digest E nonce) (\<lambda>digest. Inr (nb_nonce_sha256 b = digest))"
  obtain b where b: "filter_res ?p bs = Inr [b]" "same_original original b" "r_provider original = Codex"
    "binding_register E b helper nonce account = Inr b'"
    "d' = bindings_write E d (map (\<lambda>x. if x = b then b' else x) bs)"
    using assms by (auto simp: register_helper_def helpers_ok_def res_simps same_original_def one_case_Inr)
  from filter_res_set [OF b(1)] have "b \<in> set bs" "?p b = Inr True" by auto
  with b that show thesis by (auto simp: res_simps)
qed

lemma register_helper_ok:
  assumes "helpers_ok E d bs" "register_helper E d helper nonce original account = Inr (b', d')" "helper_unbound bs helper"
  shows "\<exists>b \<in> set bs. nb_state b = UNKNOWN \<and> helpers_ok E d' (map (\<lambda>x. if x = b then b' else x) bs)"
proof -
  from assms(1,2) obtain b where b: "b \<in> set bs" "binding_register E b helper nonce account = Inr b'"
    "d' = bindings_write E d (map (\<lambda>x. if x = b then b' else x) bs)"
    by (rule register_helperE)
  have all: "list_all binding_storable bs" "bindings_unique bs"
    using assms(1) bindings_uniqueD by (auto simp: helpers_ok_def)
  with b register_storable have "list_all binding_storable (map (\<lambda>x. if x = b then b' else x) bs)"
    by (auto simp: list_all_iff)
  with bindings_written replace_unique [OF all(2) b(1,2) assms(3)] b(3) binding_registerD(1) [OF b(2)] b(1)
  show ?thesis by blast
qed

text \<open>In a table without a pending row of the nonce nothing is registered with it.\<close>

lemma register_helper_spent:
  assumes "helpers_ok E d bs" "nonce_digest E nonce = Inr g"
    and "\<And>b. b \<in> set bs \<Longrightarrow> nb_nonce_sha256 b = g \<Longrightarrow> nb_state b \<noteq> UNKNOWN"
  shows "\<exists>m. register_helper E d helper nonce original account = Inl (ChatError m)"
proof -
  have f: "filter_res (\<lambda>b. bind (nonce_digest E nonce) (\<lambda>digest. Inr (nb_nonce_sha256 b = digest))) bs =
      Inr (filter (\<lambda>b. nb_nonce_sha256 b = g) bs)"
    using assms(2) by (intro filter_res_pure) simp
  show ?thesis
  proof (cases "filter (\<lambda>b. nb_nonce_sha256 b = g) bs")
    case (Cons b ys)
    then have "b \<in> set (filter (\<lambda>b. nb_nonce_sha256 b = g) bs)" by simp
    with assms(3) have "nb_state b \<noteq> UNKNOWN" by simp
    with assms(1) Cons show ?thesis
      by (cases ys) (auto simp: register_helper_def helpers_ok_def f fail_def binding_register_def)
  qed (use assms(1) in \<open>simp add: register_helper_def helpers_ok_def f fail_def\<close>)
qed

lemma helper_for_original_some:
  assumes "helper_for_original E kill fs d original routes = Inr (Some r)"
  shows "r \<in> set routes \<and> r_provider r = Codex \<and> r_device r = r_device original \<and>
    r_profile_root r = r_profile_root original \<and> process_is_live kill r \<and> cwd_is_available fs r = Inr True \<and>
    (\<exists>bs. \<exists>b \<in> set bs. bindings E d = Inr bs \<and> nb_state b = REGISTERED \<and> same_original original b \<and>
       bound_helper b r \<and> path_name (r_cwd r) = nb_helper_directory b)"
proof -
  let ?q = "\<lambda>b r. and_res (r_provider r = Codex \<and> bound_helper b r \<and> r_device r = r_device original \<and>
      r_profile_root r = r_profile_root original \<and> path_name (r_cwd r) = nb_helper_directory b \<and>
      process_is_live kill r) (cwd_is_available fs r)"
  obtain bs b where b: "bindings E d = Inr bs" "filter (\<lambda>b. nb_state b = REGISTERED \<and> same_original original b) bs = [b]"
    "filter_res (?q b) routes = Inr [r]"
    using assms by (auto simp: helper_for_original_def res_simps at_most_one_case one_case_Some)
  from filter_length1_hd [OF b(2)] filter_res_set [OF b(3)] b(1) show ?thesis
    by (auto simp: and_res_def split: if_splits)
qed

lemma original_for_helperD:
  assumes "original_for_helper E d helper routes = Inr r"
  obtains bs b where "bindings E d = Inr bs" "b \<in> set bs" "nb_state b = REGISTERED" "bound_helper b helper"
    "same_original r b" "r \<in> set routes"
  using assms by (auto simp: original_for_helper_def res_simps option_case_Inr dest!: the_one_SomeD)

section \<open>A sample table\<close>

lemma encode_ascii: "list_all (\<lambda>c. c < 128) s \<Longrightarrow> encode s = Inr s"
proof -
  assume s: "list_all (\<lambda>c. c < 128) s"
  then have "concat (map utf8_char s) = s" by (induction s) (simp_all add: utf8_char_def)
  with s show ?thesis by (auto simp: encode_def utf8_encode_def is_surrogate_def list_ex_iff list_all_iff)
qed


definition sample_original :: route where
  "sample_original = sample_route\<lparr>r_provider := Codex, r_profile_root := Some (lit ''/home'')\<rparr>"

definition sample_directory :: str where "sample_directory = helper_prefix @ sample_uuid 49"

lemma split_slash_plain: "47 \<notin> set s \<Longrightarrow> split_slash s = [s]"
  by (induction s) auto

lemma sample_directory_plain: "47 \<notin> set sample_directory" "sample_directory \<noteq> []" "sample_directory \<noteq> [46]"
  by (auto simp: sample_directory_def helper_prefix_def lit_def sample_uuid_def)

lemma path_name_sample: "path_name sample_directory = sample_directory"
    "path_name (47 # 119 # 47 # sample_directory) = sample_directory"
  using sample_directory_plain by (simp_all add: path_name_def split_slash_plain)

definition sample_binding :: native_helper_binding where
  "sample_binding =
     \<lparr>nb_original_session_id = sample_uuid 49, nb_original_generation = sample_uuid 50,
      nb_original_device = lit ''mac'', nb_original_cwd = lit ''/p'', nb_original_profile_root = lit ''/home'',
      nb_account_sha256 = sample_hex64 97, nb_helper_directory = sample_directory,
      nb_nonce_sha256 = sample_digest (sample_uuid 48), nb_state = UNKNOWN,
      nb_helper_session_id = None, nb_helper_generation = None\<rparr>"

definition sample_helper :: route where
  "sample_helper = sample_original\<lparr>r_session_id := sample_uuid 97, r_generation := sample_uuid 98,
     r_cwd := lit ''/w/'' @ sample_directory\<rparr>"

lemma sample_binding_storable: "binding_storable sample_binding"
proof -
  have "cwd_shape (lit ''/p'')" "cwd_shape (lit ''/home'')" "device_shape (lit ''mac'')"
    by (simp_all add: cwd_shape_def lit_def is_absolute_def starts_with_def normpath_def device_shape_def
        is_alnum_def is_lower_def)
  moreover have "list_all (printable True) sample_directory"
    by (simp add: sample_directory_def helper_prefix_def lit_printable uuid_printable sample_simps)
  ultimately show ?thesis
    using sample_digest_hex64 [of "sample_uuid 48"] path_name_sample(1)
    by (simp add: binding_storable_def binding_valid_def sample_binding_def sample_simps binding_to_dict_def
        binding_dict_def lit_printable uuid_printable hex64_printable sample_directory_def)
qed

definition sample_helper_dir :: dir where
  "sample_helper_dir = bindings_write sample_env empty_dir [sample_binding]"

lemma sample_helpers_ok: "helpers_ok sample_env sample_helper_dir [sample_binding]"
  unfolding sample_helper_dir_def
  by (intro bindings_written) (simp_all add: sample_binding_storable bindings_unique_def)

lemma sample_registration:
  obtains b d' where "register_helper sample_env sample_helper_dir sample_helper (sample_uuid 48) sample_original
     (sample_hex64 97) = Inr (b, d')"
proof -
  have enc: "encode (sample_uuid 48) = Inr (sample_uuid 48)"
    by (rule encode_ascii) (simp add: sample_uuid_def list_all_iff)
  have nd: "nonce_digest sample_env (sample_uuid 48) = Inr (nb_nonce_sha256 sample_binding)"
    by (simp add: nonce_digest_def enc sample_binding_def sample_env_def)
  have name: "path_name (lit ''/w/'' @ sample_directory) = sample_directory"
    using path_name_sample(2) by (simp add: lit_def)
  have "hd (sample_uuid 97) \<noteq> hd (sample_uuid 49)" by (simp add: sample_uuid_def)
  then have ne: "sample_uuid 97 \<noteq> sample_uuid 49" by metis
  define b where "b = sample_binding\<lparr>nb_state := REGISTERED, nb_helper_session_id := Some (sample_uuid 97),
     nb_helper_generation := Some (sample_uuid 98)\<rparr>"
  have "binding_valid b"
    using sample_binding_storable
    by (simp add: b_def binding_storable_def binding_valid_def sample_binding_def sample_simps)
  then have "binding_post_init b = Inr b" by (simp add: binding_post_init_iff)
  with name ne have "binding_register sample_env sample_binding sample_helper (sample_uuid 48) (sample_hex64 97) = Inr b"
    by (simp add: binding_register_def nd b_def)
      (simp add: sample_binding_def sample_helper_def sample_original_def sample_route_def)
  then show thesis
    using sample_helpers_ok that
    by (simp add: register_helper_def helpers_ok_def nd)
      (simp add: sample_original_def sample_binding_def sample_route_def)
qed

section \<open>Properties\<close>

text \<open>
  A helper is bound once, to the original it was created for. When \<open>register\<close> succeeds for a
  helper that has no binding yet, the nonce belonged to a reservation still unknown, of exactly
  this original route, device, profile, directory and account; the store stays readable and
  differs only in that row; afterwards no registration with the same nonce succeeds, and the
  helper resolves to no other original.
\<close>

theorem helper_registration:
  assumes "helpers_ok E d bs" "helper_unbound bs helper"
    and "register_helper E d helper nonce original account = Inr (b', d')"
  shows "(\<exists>b \<in> set bs. nb_state b = UNKNOWN \<and> same_original original b \<and>
       nonce_digest E nonce = Inr (nb_nonce_sha256 b) \<and> account = nb_account_sha256 b \<and>
       r_device helper = nb_original_device b \<and> r_profile_root helper = Some (nb_original_profile_root b) \<and>
       path_name (r_cwd helper) = nb_helper_directory b \<and> r_session_id helper \<noteq> r_session_id original \<and>
       helpers_ok E d' (map (\<lambda>x. if x = b then b' else x) bs)) \<and>
    bound_helper b' helper \<and> same_original original b' \<and>
    (\<forall>helper2 original2 account2. \<exists>m. register_helper E d' helper2 nonce original2 account2 = Inl (ChatError m)) \<and>
    (\<forall>routes r. original_for_helper E d' helper routes = Inr r \<longrightarrow>
       r \<in> set routes \<and> r_session_id r = r_session_id original \<and> r_generation r = r_generation original)"
proof -
  obtain b where b: "b \<in> set bs" "nonce_digest E nonce = Inr (nb_nonce_sha256 b)" "same_original original b"
    "r_provider original = Codex" "binding_register E b helper nonce account = Inr b'"
    "d' = bindings_write E d (map (\<lambda>x. if x = b then b' else x) bs)"
    by (rule register_helperE [OF assms(1,3)])
  let ?bs = "map (\<lambda>x. if x = b then b' else x) bs"
  note r = binding_registerD [OF b(5)]
  have all: "list_all binding_storable bs" "bindings_unique bs"
    using assms(1) bindings_uniqueD by (auto simp: helpers_ok_def)
  have "list_all binding_storable ?bs" using all(1) b(1,5) register_storable by (auto simp: list_all_iff)
  then have ok: "helpers_ok E d' ?bs" using bindings_written replace_unique [OF all(2) b(1,5) assms(2)] b(6) by blast
  have other: "x = b" if "x \<in> set bs" "nb_nonce_sha256 x = nb_nonce_sha256 b" for x
    using that b(1) all(2) distinct_map_eqD [of nb_nonce_sha256 bs x b] by (simp add: bindings_unique_def)
  have b': "bound_helper b' helper" "same_original original b'" "is_bound b'" "nb_state b' = REGISTERED"
    using b(3) unfolding r(2) by (simp_all add: bound_helper_def same_original_def is_bound_def)
  have spent: "\<exists>m. register_helper E d' h2 nonce o2 a2 = Inl (ChatError m)" for h2 o2 a2
    using other b'(4) by (intro register_helper_spent [OF ok b(2)]) (auto split: if_splits)
  have sole: "x = b'" if "x \<in> set ?bs" "nb_state x = REGISTERED" "bound_helper x helper" for x
    using that assms(2) by (auto simp: helper_unbound_def list_ex_iff is_bound_def split: if_splits)
  have resolves: "rt \<in> set routes \<and> r_session_id rt = r_session_id original \<and> r_generation rt = r_generation original"
    if "original_for_helper E d' helper routes = Inr rt" for routes rt
  proof -
    from that obtain bs' x where x: "bindings E d' = Inr bs'" "x \<in> set bs'" "nb_state x = REGISTERED" "bound_helper x helper"
      "same_original rt x" "rt \<in> set routes"
      by (rule original_for_helperD)
    with ok have "bs' = ?bs" by (simp add: helpers_ok_def)
    with sole x have "x = b'" by blast
    with x b'(2) show ?thesis by (simp add: same_original_def)
  qed
  have "r_session_id helper \<noteq> r_session_id original" using r(7) b(3) by (simp add: same_original_def)
  with b(1,2,3) r(1,5,8-10) ok have "\<exists>b \<in> set bs. nb_state b = UNKNOWN \<and> same_original original b \<and>
       nonce_digest E nonce = Inr (nb_nonce_sha256 b) \<and> account = nb_account_sha256 b \<and>
       r_device helper = nb_original_device b \<and> r_profile_root helper = Some (nb_original_profile_root b) \<and>
       path_name (r_cwd helper) = nb_helper_directory b \<and> r_session_id helper \<noteq> r_session_id original \<and>
       helpers_ok E d' (map (\<lambda>x. if x = b then b' else x) bs)"
    by (intro bexI [of _ b]) simp_all
  with b'(1,2) spent resolves show ?thesis by blast
qed

theorem helper_registration_witness:
  "\<exists>b' d' m. register_helper sample_env sample_helper_dir sample_helper (sample_uuid 48) sample_original
       (sample_hex64 97) = Inr (b', d') \<and>
     register_helper sample_env d' sample_helper (sample_uuid 48) sample_original (sample_hex64 97) = Inl (ChatError m)"
proof -
  obtain b' d' where r: "register_helper sample_env sample_helper_dir sample_helper (sample_uuid 48) sample_original
     (sample_hex64 97) = Inr (b', d')" by (rule sample_registration)
  have "helper_unbound [sample_binding] sample_helper" by (simp add: helper_unbound_def is_bound_def sample_binding_def)
  from helper_registration [OF sample_helpers_ok this r] r show ?thesis by blast
qed

text \<open>The loop for a directory name ends as soon as the supply has an unused one.\<close>

lemma directory_used: "list_ex (\<lambda>b. nb_helper_directory b = x) bs \<longleftrightarrow> x \<in> nb_helper_directory ` set bs"
  by (auto simp: list_ex_iff)

lemma fresh_directory_returns:
  assumes "helper_prefix @ uuids (n + k) \<notin> nb_helper_directory ` set bs"
  shows "\<exists>directory. fresh_directory bs uuids n = Some directory \<and>
    directory \<notin> nb_helper_directory ` set bs \<and> (\<exists>m. directory = helper_prefix @ uuids m)"
  using assms
proof (induction k arbitrary: n)
  case 0
  then have "fresh_directory bs uuids n = Some (helper_prefix @ uuids n)"
    by (subst fresh_directory.simps) (simp add: directory_used Let_def)
  with 0 show ?case by auto
next
  case (Suc k)
  show ?case
  proof (cases "helper_prefix @ uuids n \<in> nb_helper_directory ` set bs")
    case True
    then have "fresh_directory bs uuids n = fresh_directory bs uuids (Suc n)"
      by (subst fresh_directory.simps) (simp add: directory_used Let_def)
    with Suc.IH [of "Suc n"] Suc.prems show ?thesis by simp
  next
    case False
    then have "fresh_directory bs uuids n = Some (helper_prefix @ uuids n)"
      by (subst fresh_directory.simps) (simp add: directory_used Let_def)
    with False show ?thesis by auto
  qed
qed

definition retire_old :: "route \<Rightarrow> native_helper_binding \<Rightarrow> native_helper_binding" where
  "retire_old original b =
     (if same_original original b \<and> nb_state b = REGISTERED then b\<lparr>nb_state := RETIRED\<rparr> else b)"

lemma retire_old_keeps [simp]:
  "nb_helper_directory (retire_old o' b) = nb_helper_directory b" "nb_nonce_sha256 (retire_old o' b) = nb_nonce_sha256 b"
  "original_of (retire_old o' b) = original_of b" "helper_of (retire_old o' b) = helper_of b"
  "is_bound (retire_old o' b) = is_bound b"
  by (simp_all add: retire_old_def original_of_def helper_of_def is_bound_def)

lemma retire_rows:
  assumes "list_all binding_storable bs"
  shows "map_res (\<lambda>i. if i \<in> set (filter (same_original original) bs) \<and> nb_state i = REGISTERED
      then binding_retire i else Inr i) bs = Inr (map (retire_old original) bs)"
    "list_all binding_storable (map (retire_old original) bs)"
proof -
  have "map_res f bs = Inr (map g bs)" if "\<And>i. i \<in> set bs \<Longrightarrow> f i = Inr (g i)" for f :: "_ \<Rightarrow> native_helper_binding res" and g
    using that map_res_map_Inr [of bs f id g] by simp
  then show "map_res (\<lambda>i. if i \<in> set (filter (same_original original) bs) \<and> nb_state i = REGISTERED
      then binding_retire i else Inr i) bs = Inr (map (retire_old original) bs)"
    using assms retire_storable by (auto simp: list_all_iff retire_old_def)
  show "list_all binding_storable (map (retire_old original) bs)"
    using assms retire_storable by (auto simp: list_all_iff retire_old_def)
qed

lemma binding_reserveD:
  assumes "binding_reserve E original nonce directory account = Inr b"
  shows "binding_valid b" "nb_state b = UNKNOWN" "same_original original b" "nb_helper_directory b = directory"
    "nonce_digest E nonce = Inr (nb_nonce_sha256 b)" "nb_account_sha256 b = account"
    "nb_original_cwd b = r_cwd original" "r_profile_root original = Some (nb_original_profile_root b)"
    "nb_original_device b = r_device original" "r_provider original = Codex"
  using assms by (auto simp: binding_reserve_def res_simps binding_post_init_iff same_original_def split: option.splits)

lemma reserve_storable:
  assumes "binding_reserve E original nonce directory account = Inr b" "route_storable E original"
  shows "binding_storable b"
proof -
  note b = binding_reserveD [OF assms(1)]
  have "plain True (route_to_dict original)" using assms(2) by (simp add: route_storable_def)
  then have p: "list_all (printable True) (r_cwd original)" "list_all (printable True) (r_device original)"
    "list_all (printable True) (nb_original_profile_root b)"
    using b(8) by (auto simp: route_to_dict_def route_dict_def)
  then have p': "list_all (printable True) (nb_original_cwd b)" "list_all (printable True) (nb_original_device b)"
    by (simp_all only: b(7) b(9))
  obtain u where "nb_helper_directory b = helper_prefix @ u" "uuid_shape u" using b(1) by (auto simp: binding_valid_def)
  then have "list_all (printable True) (nb_helper_directory b)"
    by (simp add: helper_prefix_def lit_printable uuid_printable)
  moreover have "uuid_shape (nb_original_session_id b)" "uuid_shape (nb_original_generation b)"
    "hex64 (nb_account_sha256 b)" "hex64 (nb_nonce_sha256 b)"
    using b(1) by (simp_all add: binding_valid_def)
  ultimately show ?thesis
    using p p' b(1) by (simp add: binding_storable_def binding_to_dict_def binding_dict_def b(2) uuid_printable
        hex64_printable lit_printable)
qed

lemma retired_unique:
  assumes "bindings_unique bs" "nb_state b = UNKNOWN" "same_original original b"
    "nb_helper_directory b \<notin> nb_helper_directory ` set bs" "nb_nonce_sha256 b \<notin> nb_nonce_sha256 ` set bs"
    and "\<not> list_ex (\<lambda>x. same_original original x \<and> nb_state x = UNKNOWN) bs"
  shows "bindings_unique (map (retire_old original) bs @ [b])"
proof -
  have eq: "map original_of (filter is_active (map (retire_old original) bs)) =
      map original_of (filter (\<lambda>x. \<not> same_original original x) (filter is_active bs))"
    using assms(6) by (induction bs) (auto simp: retire_old_def is_active_def original_of_def)
  have "distinct (map original_of (filter is_active (map (retire_old original) bs)))"
    unfolding eq by (rule distinct_filter_keys) (use assms(1) in \<open>simp add: bindings_unique_def\<close>)
  moreover have "original_of b \<notin> set (map original_of (filter is_active (map (retire_old original) bs)))"
    unfolding eq using assms(3) by (auto simp: same_original_def original_of_def)
  moreover have "map helper_of (filter is_bound (map (retire_old original) bs)) = map helper_of (filter is_bound bs)"
    by (induction bs) auto
  ultimately show ?thesis
    using assms(1,2,4,5) by (auto simp: bindings_unique_def is_active_def is_bound_def comp_def image_image)
qed

text \<open>
  A reservation returns whenever the supply of random ids has an unused directory, and it never
  makes the store unreadable: with a nonce digest not used before, a successful reservation
  retires the registered helpers of that original, adds one unknown binding of it with the fresh
  directory, and then the original has no other active binding. It is refused while a create of
  this original is unknown or its helper lives.
\<close>

theorem helper_reservation:
  assumes "helpers_ok E d bs" "route_storable E original" "helper_prefix @ uuids n \<notin> nb_helper_directory ` set bs"
  shows "\<exists>result. reserve_helper E kill fs nonce uuids d original account routes = Some result \<and>
    (\<forall>b t d'. result = Inr (b, t, d') \<longrightarrow> nb_nonce_sha256 b \<notin> nb_nonce_sha256 ` set bs \<longrightarrow>
       helpers_ok E d' (map (retire_old original) bs @ [b]) \<and> t = nonce \<and> nb_state b = UNKNOWN \<and>
       same_original original b \<and> nonce_digest E nonce = Inr (nb_nonce_sha256 b) \<and>
       \<not> list_ex (\<lambda>x. same_original original x \<and> is_active x) (map (retire_old original) bs)) \<and>
    (list_ex (\<lambda>x. same_original original x \<and> nb_state x = UNKNOWN) bs \<longrightarrow> \<not> is_ok result) \<and>
    (\<forall>live. live_helpers kill fs (filter (same_original original) bs) routes = Inr live \<longrightarrow> live \<noteq> [] \<longrightarrow> \<not> is_ok result)"
proof -
  obtain directory where dir: "fresh_directory bs uuids 0 = Some directory" "directory \<notin> nb_helper_directory ` set bs"
    using fresh_directory_returns [of uuids 0 n bs] assms(3) by auto
  note ok = assms(1) [unfolded helpers_ok_def]
  have unique: "bindings_unique bs" using ok bindings_uniqueD by blast
  let ?pending = "list_ex (\<lambda>x. same_original original x \<and> nb_state x = UNKNOWN) bs"
  have pending: "list_ex (\<lambda>x. nb_state x = UNKNOWN) (filter (same_original original) bs) = ?pending"
    by (auto simp: list_ex_iff)
  define result where "result = bind (live_helpers kill fs (filter (same_original original) bs) routes) (\<lambda>live.
    if ?pending \<or> live \<noteq> [] then fail ''native helper bootstrap is unavailable''
    else bind (binding_reserve E original nonce directory account) (\<lambda>b.
      Inr (b, nonce, bindings_write E d (map (retire_old original) bs @ [b]))))"
  have run: "reserve_helper E kill fs nonce uuids d original account routes = Some result"
    using ok retire_rows(1) [of bs original] unfolding result_def
    by (simp add: reserve_helper_def Let_def pending dir(1) split: sum.splits)
  have "helpers_ok E d' (map (retire_old original) bs @ [b]) \<and> t = nonce \<and> nb_state b = UNKNOWN \<and>
       same_original original b \<and> nonce_digest E nonce = Inr (nb_nonce_sha256 b) \<and>
       \<not> list_ex (\<lambda>x. same_original original x \<and> is_active x) (map (retire_old original) bs)"
    if "result = Inr (b, t, d')" "nb_nonce_sha256 b \<notin> nb_nonce_sha256 ` set bs" for b t d'
  proof -
    from that(1) have b: "binding_reserve E original nonce directory account = Inr b" "\<not> ?pending" "t = nonce"
      "d' = bindings_write E d (map (retire_old original) bs @ [b])"
      unfolding result_def by (auto simp: res_simps)
    note f = binding_reserveD [OF b(1)]
    have "bindings_unique (map (retire_old original) bs @ [b])"
      using retired_unique [OF unique f(2,3)] f(4) dir(2) that(2) b(2) by blast
    moreover have "list_all binding_storable (map (retire_old original) bs @ [b])"
      using retire_rows(2) ok reserve_storable [OF b(1) assms(2)] by simp
    moreover have "\<not> list_ex (\<lambda>x. same_original original x \<and> is_active x) (map (retire_old original) bs)"
      using b(2) by (auto simp: list_ex_iff retire_old_def is_active_def same_original_def)
    ultimately show ?thesis using bindings_written b(3,4) f(2,3,5) by blast
  qed
  moreover have "?pending \<longrightarrow> \<not> is_ok result" by (simp add: result_def is_ok_bind)
  moreover have "live_helpers kill fs (filter (same_original original) bs) routes = Inr live \<longrightarrow> live \<noteq> [] \<longrightarrow> \<not> is_ok result" for live
    by (simp add: result_def)
  ultimately show ?thesis using run by blast
qed

theorem helper_reservation_witness:
  "\<exists>result. reserve_helper sample_env (\<lambda>_. Signalled) \<lparr>fs_resolve = Inr, fs_is_dir = (\<lambda>_. True)\<rparr> (sample_uuid 48)
     (\<lambda>n. sample_uuid n) sample_helper_dir sample_route (sample_hex64 97) [] = Some result"
proof -
  have "helper_prefix @ sample_uuid 50 \<noteq> sample_directory"
  proof
    assume "helper_prefix @ sample_uuid 50 = sample_directory"
    then have "hd (sample_uuid 50) = hd (sample_uuid 49)" by (simp add: sample_directory_def)
    then show False by (simp add: sample_uuid_def)
  qed
  then have "helper_prefix @ sample_uuid 50 \<notin> nb_helper_directory ` set [sample_binding]" by (simp add: sample_binding_def)
  from helper_reservation [OF sample_helpers_ok sample_route_storable, where uuids = sample_uuid, OF this]
  show ?thesis by blast
qed

text \<open>The claims other processes make.\<close>

definition dispatches_ok :: "pyenv \<Rightarrow> dir \<Rightarrow> native_dispatch list \<Rightarrow> bool" where
  "dispatches_ok E d xs \<longleftrightarrow> dispatches E d = Inr xs \<and> list_all dispatch_valid xs"

inductive claim_step :: "pyenv \<Rightarrow> dir \<Rightarrow> dir \<Rightarrow> bool" for E where
  "claim_dispatch E d helper original event message = Inr (x, d') \<Longrightarrow> claim_step E d d'"

lemma claim_dispatch_ok:
  assumes "dispatches_ok E d xs" "claim_dispatch E d helper original event message = Inr (x, d')"
  shows "dispatches_ok E d' (xs @ [x])" "nd_event_id x = event" "event \<notin> nd_event_id ` set xs" "uuid_shape event"
proof -
  from assms have x: "dispatch_valid x" "nd_event_id x = event" "event \<notin> nd_event_id ` set xs"
    and d': "d' = atomic_json E d native_dispatches_json (JArr (map dispatch_to_dict (xs @ [x])))"
    by (auto simp: claim_dispatch_def dispatches_ok_def res_simps dispatch_post_init_iff dispatch_valid_def list_ex_iff)
  show "dispatches_ok E d' (xs @ [x])"
    using assms(1) x(1) dispatch_table.json_table_written [of "xs @ [x]"]
    by (simp add: dispatches_ok_def dispatches_def d')
  show "nd_event_id x = event" "event \<notin> nd_event_id ` set xs" by fact+
  show "uuid_shape event" using x by (simp add: dispatch_valid_def)
qed

lemma claim_steps_keep:
  "(claim_step E)\<^sup>*\<^sup>* d d' \<Longrightarrow> dispatches_ok E d xs \<Longrightarrow> \<exists>ys. dispatches_ok E d' (xs @ ys)"
proof (induction rule: rtranclp_induct)
  case base
  then show ?case by (intro exI [of _ "[]"]) simp
next
  case (step y z)
  then obtain ys where "dispatches_ok E y (xs @ ys)" by blast
  moreover obtain h o' e m x where "claim_dispatch E y h o' e m = Inr (x, z)"
    using step.hyps(2) by (auto elim: claim_step.cases)
  ultimately have "dispatches_ok E z ((xs @ ys) @ [x])" by (rule claim_dispatch_ok(1))
  then show ?case by auto
qed

text \<open>
  C18. A native dispatch is claimed at most once. After a successful claim of an event the store says
  so, and whatever claims other processes make meanwhile, every later claim of that event by any
  helper for any original and message is refused.
\<close>

theorem dispatch_claimed_once:
  assumes "dispatches_ok E d xs" "claim_dispatch E d helper original event message = Inr (x, d1)"
    and "(claim_step E)\<^sup>*\<^sup>* d1 d2"
  shows "event \<notin> nd_event_id ` set xs \<and> has_event E d2 event = Inr True \<and>
    (\<forall>helper' original' message'. \<not> is_ok (claim_dispatch E d2 helper' original' event message'))"
proof -
  note c = claim_dispatch_ok [OF assms(1,2)]
  obtain ys where ys: "dispatches_ok E d2 ((xs @ [x]) @ ys)" using claim_steps_keep [OF assms(3) c(1)] by blast
  moreover have "valid_uuid event f = Inr event" for f using c(4) by (simp add: valid_uuid_iff)
  ultimately have "has_event E d2 event = Inr True"
    using c(2) by (simp add: has_event_def dispatches_ok_def)
  moreover have "\<not> is_ok (claim_dispatch E d2 h o' event m)" for h o' m
  proof
    assume "is_ok (claim_dispatch E d2 h o' event m)"
    then obtain y d3 where "claim_dispatch E d2 h o' event m = Inr (y, d3)" by (auto simp: is_ok_iff)
    from claim_dispatch_ok(3) [OF ys this] c(2) show False by auto
  qed
  ultimately show ?thesis using c(3) by blast
qed

lemma sample_claim:
  obtains x d' where "claim_dispatch sample_env empty_dir sample_helper sample_original (sample_uuid 51) [104] = Inr (x, d')"
proof -
  have "encode [104] = Inr [104]" by (simp add: encode_def utf8_encode_def is_surrogate_def utf8_char_def)
  moreover have "valid_uuid (sample_uuid c) f = Inr (sample_uuid c)" if "is_hex c" for c f
    using that by (simp add: valid_uuid_iff sample_simps)
  moreover have "hex64 (sha256hex sample_env b)" for b using sample_env_ok by blast
  ultimately show thesis
    using that
    by (simp add: claim_dispatch_def dispatch_post_init_def dispatches_def read_json_table_def empty_dir_def sample_simps
        sample_helper_def sample_original_def sample_route_def)
qed

theorem dispatch_claimed_once_witness:
  "\<exists>x d1. claim_dispatch sample_env empty_dir sample_helper sample_original (sample_uuid 51) [104] = Inr (x, d1) \<and>
     has_event sample_env d1 (sample_uuid 51) = Inr True"
proof -
  obtain x d1 where c: "claim_dispatch sample_env empty_dir sample_helper sample_original (sample_uuid 51) [104] = Inr (x, d1)"
    by (rule sample_claim)
  have "dispatches_ok sample_env empty_dir []"
    by (simp add: dispatches_ok_def dispatches_def read_json_table_def empty_dir_def)
  from dispatch_claimed_once [OF this c rtranclp.rtrancl_refl] c show ?thesis by blast
qed

end
