(* ===== verification/Wire.thy ===== *)
theory Wire
  imports Frames Tokens
begin

text \<open>
  The local wire of runtime.py: one bounded JSON line each way between a client and a courier or
  broker, the boundary before which a failure had no effect, and the record a provider hook writes
  on standard input. What a socket does is an argument: the chunks it delivers, its errors, and
  where the deadline expires.
\<close>

definition WIRE_FRAME_BYTES :: nat where "WIRE_FRAME_BYTES = 64 * 1024"

section \<open>Frames on a socket\<close>

text \<open>
  What the socket does next: the deadline has passed, \<open>recv\<close> raises, or bytes are available (none
  at end of file). When the list ends nothing more happens before the deadline.
\<close>

datatype recv = Expired | RecvFails exn | Data bytes

fun recv_size :: "recv \<Rightarrow> nat" where
  "recv_size (Data b) = Suc (length b)"
| "recv_size _ = 1"

text \<open>The loop of \<open>read_frame\<close>; bytes beyond the requested size stay in the socket.\<close>

function read_payload :: "nat \<Rightarrow> bytes \<Rightarrow> recv list \<Rightarrow> bytes res" where
  "read_payload limit payload evs =
     (if 10 \<in> set payload then Inr payload
      else
        case evs of
          [] \<Rightarrow> Inl TimeoutError
        | Expired # _ \<Rightarrow> Inl TimeoutError
        | RecvFails e # _ \<Rightarrow> Inl e
        | Data b # rest \<Rightarrow>
            let n = min 65536 (limit + 1 - length payload); chunk = take n b in
            if chunk = [] then Inr payload
            else if limit < length payload + length chunk
            then fail ''courier frame exceeds the bounded limit''
            else read_payload limit (payload @ chunk) (if drop n b = [] then rest else Data (drop n b) # rest))"
  by pat_completeness auto
termination
  by (relation "measure (\<lambda>(_, _, evs). sum_list (map recv_size evs))") auto

declare read_payload.simps [simp del]

definition read_frame :: "nat \<Rightarrow> recv list \<Rightarrow> bytes res" where
  "read_frame limit evs =
     bind (read_payload limit [] evs) (\<lambda>payload.
     if payload = [] \<or> last payload \<noteq> 10 \<or> length (filter (\<lambda>c. c = 10) payload) \<noteq> 1
     then fail ''courier frame is malformed'' else Inr (butlast payload))"

text \<open>
  The bytes of a frame; encoding a lone surrogate raises UnicodeEncodeError, a ValueError that the
  handlers below do not name.
\<close>

definition frame_bytes :: "pyenv \<Rightarrow> dict \<Rightarrow> bytes res" where
  "frame_bytes E payload =
     (case utf8_encode (dumps (float_repr E) False (JObj payload) @ [10]) of None \<Rightarrow> Inl ValueError | Some b \<Rightarrow> Inr b)"

section \<open>Exchanges\<close>

text \<open>
  What happens to one exchange: the socket check or connection set-up, whether the deadline has
  passed before connecting, before writing and before reading, what \<open>sendall\<close> does, and the reply.
\<close>

record exchange =
  ex_check :: "unit res"
  ex_late_connect :: bool
  ex_connect :: "unit res"
  ex_late_write :: bool
  ex_write :: "unit res"
  ex_late_read :: bool
  ex_reply :: "recv list"

definition late :: "bool \<Rightarrow> 'a res \<Rightarrow> 'a res" where
  "late b r = (if b then Inl TimeoutError else r)"

text \<open>\<^verbatim>\<open>except (OSError, UnicodeDecodeError, json.JSONDecodeError, ChatError)\<close>.\<close>

definition is_exchange_error :: "exn \<Rightarrow> bool" where
  "is_exchange_error e \<longleftrightarrow> is_read_error e \<or> is_chat_error e"

text \<open>Everything before \<open>attempted_write\<close>, and everything after.\<close>

definition open_socket :: "exchange \<Rightarrow> unit res" where
  "open_socket x =
     bind (ex_check x) (\<lambda>_. bind (late (ex_late_connect x) (ex_connect x)) (\<lambda>_. late (ex_late_write x) (Inr ())))"

definition write_and_read :: "pyenv \<Rightarrow> exchange \<Rightarrow> dict \<Rightarrow> json res" where
  "write_and_read E x payload =
     bind (frame_bytes E payload) (\<lambda>_. bind (ex_write x) (\<lambda>_.
     bind (late (ex_late_read x) (read_frame WIRE_FRAME_BYTES (ex_reply x))) (loads_bytes E)))"

definition after_write :: "string \<Rightarrow> json res \<Rightarrow> dict res" where
  "after_write unknown r =
     (case r of
        Inl e \<Rightarrow> if is_exchange_error e then Inl (UnknownDeliveryError (lit unknown)) else Inl e
      | Inr (JObj d) \<Rightarrow> Inr d
      | Inr _ \<Rightarrow> Inl (UnknownDeliveryError (lit unknown)))"

definition request_socket :: "pyenv \<Rightarrow> exchange \<Rightarrow> dict \<Rightarrow> dict res" where
  "request_socket E x payload =
     bind (except_chat is_exchange_error ''session courier is unavailable before delivery'' (open_socket x)) (\<lambda>_.
     after_write ''delivery state is unknown'' (write_and_read E x payload))"

text \<open>\<open>request_tailnet\<close> has no socket check; the connection is made in one call.\<close>

definition request_tailnet :: "pyenv \<Rightarrow> exchange \<Rightarrow> dict \<Rightarrow> dict res" where
  "request_tailnet E x payload =
     bind (except_chat is_exchange_error ''Tailnet peer is unavailable before delivery''
            (bind (late (ex_late_connect x) (ex_connect x)) (\<lambda>_. late (ex_late_write x) (Inr ())))) (\<lambda>_.
     after_write ''Tailnet delivery state is unknown'' (write_and_read E x payload))"

section \<open>Hook input\<close>

text \<open>
  \<open>_hook_json_record\<close> reads characters until the braces outside strings are balanced. The result is
  the text read and what was left unread.
\<close>

record hook_state =
  h_depth :: nat
  h_quoted :: bool
  h_escaped :: bool
  h_started :: bool

definition hook_start :: hook_state where
  "hook_start = \<lparr>h_depth = 0, h_quoted = False, h_escaped = False, h_started = False\<rparr>"

text \<open>One character: an error, the end of the record, or the next state.\<close>

definition hook_char :: "hook_state \<Rightarrow> nat \<Rightarrow> hook_state option res" where
  "hook_char h c =
     (if \<not> h_started h then
        if is_space c then Inr (Some h)
        else if c \<noteq> 123 then fail ''hook input is not a JSON object''
        else Inr (Some (h\<lparr>h_started := True, h_depth := 1\<rparr>))
      else if h_quoted h then
        if h_escaped h then Inr (Some (h\<lparr>h_escaped := False\<rparr>))
        else if c = 92 then Inr (Some (h\<lparr>h_escaped := True\<rparr>))
        else if c = 34 then Inr (Some (h\<lparr>h_quoted := False\<rparr>))
        else Inr (Some h)
      else if c = 34 then Inr (Some (h\<lparr>h_quoted := True\<rparr>))
      else if c = 123 then Inr (Some (h\<lparr>h_depth := h_depth h + 1\<rparr>))
      else if c = 125 then
        if h_depth h = 1 then Inr None else Inr (Some (h\<lparr>h_depth := h_depth h - 1\<rparr>))
      else Inr (Some h))"

fun hook_scan :: "hook_state \<Rightarrow> nat \<Rightarrow> str \<Rightarrow> (str \<times> str) res" where
  "hook_scan h n [] = Inr ([], [])"
| "hook_scan h n (c # s) =
     (if is_surrogate c then Inl ValueError
      else
        let k = n + length (utf8_char c) in
        if WIRE_FRAME_BYTES < k then fail ''hook input exceeds the bounded limit''
        else
          bind (hook_char h c) (\<lambda>nx.
          case nx of
            None \<Rightarrow> Inr ([c], s)
          | Some h' \<Rightarrow> bind (hook_scan h' k s) (\<lambda>(t, r). Inr (c # t, r))))"

definition hook_json_record :: "str \<Rightarrow> (str \<times> str) res" where
  "hook_json_record s = hook_scan hook_start 0 s"

text \<open>
  \<open>hook_input\<close>: the validated object. \<open>missing\<close> says whether resolving a path failed with
  FileNotFoundError, the one cause for which a SessionEnd keeps the stored directory.
\<close>

definition hook_session :: "dict \<Rightarrow> json option" where
  "hook_session d = (case jget d ''session_id'' of Some v \<Rightarrow> Some v | None \<Rightarrow> jget d ''sessionId'')"

definition hook_input :: "pyenv \<Rightarrow> fsview \<Rightarrow> (str \<Rightarrow> bool) \<Rightarrow> str \<Rightarrow> string \<Rightarrow> dict res" where
  "hook_input E fs missing stdin expected_event =
     bind (hook_json_record stdin) (\<lambda>(t, _).
     bind (except_chat (\<lambda>e. e = JSONDecodeError) ''hook input is not JSON'' (loads (float_parse E) t)) (\<lambda>raw.
     case raw of
       JObj d \<Rightarrow>
         if jget d ''hook_event_name'' \<noteq> Some (JStr (lit expected_event)) then fail ''hook event is invalid''
         else
           (case (hook_session d, jget d ''cwd'') of
              (Some (JStr session_id), Some (JStr cwd)) \<Rightarrow>
                bind (valid_uuid session_id ''session id'') (\<lambda>sid.
                let d1 = dict_put (dict_put d (lit ''session_id'') (JStr sid)) (lit ''_cwd_unavailable'') (JBool False) in
                case canonical_cwd fs cwd of
                  Inr path \<Rightarrow> Inr (dict_put d1 (lit ''cwd'') (JStr path))
                | Inl e \<Rightarrow>
                    if expected_event = ''SessionEnd'' \<and> is_chat_error e \<and> is_absolute cwd \<and>
                       \<not> is_ok (fs_resolve fs cwd) \<and> missing cwd
                    then bind (stored_cwd cwd) (\<lambda>path.
                           Inr (dict_put (dict_put d1 (lit ''cwd'') (JStr path)) (lit ''_cwd_unavailable'') (JBool True)))
                    else Inl e)
            | _ \<Rightarrow> fail ''hook lacks session identity or cwd'')
     | _ \<Rightarrow> fail ''hook event is invalid''))"

section \<open>Reading a frame\<close>

text \<open>The bytes a reader can get: up to the end of file, an error or the deadline.\<close>

fun available :: "recv list \<Rightarrow> bytes" where
  "available (Data b # evs) = (if b = [] then [] else b @ available evs)"
| "available _ = []"

lemma read_payload_Data:
  assumes "10 \<notin> set p" "n = min 65536 (limit + 1 - length p)"
  shows "read_payload limit p (Data b # rest) =
        (if take n b = [] then Inr p
         else if limit < length p + length (take n b) then fail ''courier frame exceeds the bounded limit''
         else read_payload limit (p @ take n b) (if drop n b = [] then rest else Data (drop n b) # rest))"
  unfolding read_payload.simps [of limit p "Data b # rest"] list.case recv.case Let_def assms(2) [symmetric]
  using assms(1) by (simp only: if_False)

lemma read_payload_sound:
  "read_payload limit p evs = Inr q \<Longrightarrow> length p \<le> limit \<Longrightarrow>
   \<exists>s r. q = p @ s \<and> available evs = s @ r \<and> length q \<le> limit"
proof (induction limit p evs rule: read_payload.induct)
  case (1 limit p evs)
  show ?case
  proof (cases "10 \<in> set p")
    case True
    with 1 show ?thesis by (simp add: read_payload.simps [of limit p])
  next
    case False
    with "1.prems" obtain b rest where evs: "evs = Data b # rest"
      by (subst (asm) read_payload.simps) (auto split: list.splits recv.splits)
    define n where "n = min 65536 (limit + 1 - length p)"
    have step: "read_payload limit p evs =
        (if take n b = [] then Inr p
         else if limit < length p + length (take n b) then fail ''courier frame exceeds the bounded limit''
         else read_payload limit (p @ take n b) (if drop n b = [] then rest else Data (drop n b) # rest))"
      unfolding evs by (rule read_payload_Data [OF False n_def])
    have av: "available evs = take n b @ available (if drop n b = [] then rest else Data (drop n b) # rest)" if "take n b \<noteq> []"
      using that append_take_drop_id [of n b] by (cases "drop n b = []") (auto simp: evs)
    show ?thesis
    proof (cases "take n b = []")
      case True
      with step 1(2,3) show ?thesis by auto
    next
      case ne: False
      with step 1(2) have ok: "\<not> limit < length p + length (take n b)"
        "read_payload limit (p @ take n b) (if drop n b = [] then rest else Data (drop n b) # rest) = Inr q"
        by (auto split: if_splits)
      from 1(1) [OF False evs refl n_def refl, unfolded Let_def] 
      have "\<exists>s r. q = (p @ take n b) @ s \<and>
          available (if drop n b = [] then rest else Data (drop n b) # rest) = s @ r \<and> length q \<le> limit"
        using ok ne by simp
      with av [OF ne] show ?thesis by auto
    qed
  qed
qed

lemma read_payload_step:
  assumes "10 \<notin> set p" "n = min 65536 (limit + 1 - length p)" "take n b \<noteq> []" "length p + length (take n b) \<le> limit"
  shows "read_payload limit p (Data b # rest) =
    read_payload limit (p @ take n b) (if drop n b = [] then rest else Data (drop n b) # rest)"
proof -
  have "\<not> limit < length p + length (take n b)" using assms(4) by simp
  then show ?thesis unfolding read_payload_Data [OF assms(1,2)] using assms(3) by (simp only: if_False)
qed

text \<open>A frame that fits is read whole, however the socket cuts it into chunks.\<close>

lemma read_payload_complete:
  assumes "list_all (\<lambda>b. b \<noteq> []) bs" "p @ concat bs = f @ [10]" "10 \<notin> set f" "length f < limit"
  shows "read_payload limit p (map Data bs @ evs) = Inr (f @ [10])"
  using assms
proof (induction "length (concat bs) + length bs" arbitrary: p bs rule: less_induct)
  case less
  show ?case
  proof (cases "10 \<in> set p")
    case True
    then obtain u v where p: "p = u @ 10 # v" by (meson split_list)
    have "concat bs = []"
    proof -
      have "f @ [10] = u @ 10 # (v @ concat bs)" using less.prems(2) p by simp
      then have "v @ concat bs = []" using less.prems(3)
        by (cases "v @ concat bs" rule: rev_cases) (auto simp: append_eq_append_conv2 append_eq_Cons_conv)
      then show ?thesis by simp
    qed
    then have "p = f @ [10]" using less.prems(2) by (metis append_Nil2)
    then show ?thesis by (simp add: read_payload.simps [of limit "f @ [10]"])
  next
    case False
    then obtain b rest where bs: "bs = b # rest" using less.prems(2) by (cases bs) auto
    define n where "n = min 65536 (limit + 1 - length p)"
    have len: "length p + length (concat bs) = length f + 1"
      using arg_cong [OF less.prems(2), of length] by simp
    then have "0 < n" "length p + length (take n b) \<le> limit"
      using less.prems(4) by (auto simp: n_def bs)
    moreover have b: "b \<noteq> []" using less.prems(1) bs by simp
    ultimately have step: "read_payload limit p (map Data bs @ evs) = read_payload limit (p @ take n b)
        (if drop n b = [] then map Data rest @ evs else Data (drop n b) # map Data rest @ evs)"
      using read_payload_step [OF False n_def, of b "map Data rest @ evs"] by (simp add: bs)
    let ?bs = "if drop n b = [] then rest else drop n b # rest"
    have "length (concat ?bs) + length ?bs < length (concat bs) + length bs"
      using b \<open>0 < n\<close> by (cases b) (auto simp: bs)
    moreover have "list_all (\<lambda>b. b \<noteq> []) ?bs" using less.prems(1) bs by simp
    moreover have "(p @ take n b) @ concat ?bs = f @ [10]"
    proof -
      have glue: "take n b @ drop n b @ x = b @ x" for x by (simp add: append_assoc [symmetric] del: append_assoc)
      show ?thesis using less.prems(2) by (cases "drop n b = []") (auto simp: bs glue)
    qed
    ultimately have "read_payload limit (p @ take n b) (map Data ?bs @ evs) = Inr (f @ [10])"
      using less.prems(3,4) by (intro less.hyps)
    then show ?thesis unfolding step by (cases "drop n b = []") simp_all
  qed
qed

lemma read_frame_complete:
  assumes "list_all (\<lambda>b. b \<noteq> []) bs" "concat bs = f @ [10]" "10 \<notin> set f" "length f < limit"
  shows "read_frame limit (map Data bs @ evs) = Inr f"
proof -
  have "filter (\<lambda>c. c = 10) f = []" using assms(3) by (auto simp: filter_empty_conv)
  then show ?thesis
    using read_payload_complete [OF assms(1) _ assms(3,4), of "[]" evs] assms(2) by (simp add: read_frame_def)
qed

lemma read_frame_sound:
  assumes "read_frame limit evs = Inr f"
  shows "10 \<notin> set f" "length f < limit" "\<exists>r. available evs = f @ 10 # r"
proof -
  from assms obtain q where q: "read_payload limit [] evs = Inr q" "q \<noteq> []" "last q = 10"
    "length (filter (\<lambda>c. c = 10) q) = 1" "f = butlast q"
    by (auto simp: read_frame_def res_simps)
  then have qf: "q = f @ [10]" by (metis append_butlast_last_id)
  then have "filter (\<lambda>c. c = 10) f = []" using q(4) by simp
  then show "10 \<notin> set f" by (auto simp: filter_empty_conv)
  from read_payload_sound [OF q(1)] qf show "length f < limit" "\<exists>r. available evs = f @ 10 # r" by auto
qed

lemma read_payload_errors:
  "read_payload limit p evs = Inl e \<Longrightarrow>
   e = TimeoutError \<or> RecvFails e \<in> set evs \<or> e = ChatError (lit ''courier frame exceeds the bounded limit'')"
proof (induction limit p evs rule: read_payload.induct)
  case (1 limit p evs)
  show ?case
  proof (cases "10 \<in> set p \<or> (\<nexists>b rest. evs = Data b # rest)")
    case True
    with 1(2) show ?thesis
      unfolding read_payload.simps [of limit p evs] by (auto split: if_splits list.splits recv.splits)
  next
    case False
    then obtain b rest where evs: "evs = Data b # rest" and nl: "10 \<notin> set p" by auto
    define n where "n = min 65536 (limit + 1 - length p)"
    note ih = 1(1) [OF nl evs refl n_def refl, unfolded evs]
    from 1(2) show ?thesis
      unfolding evs read_payload_Data [OF nl n_def] using ih by (auto split: if_splits)
  qed
qed

lemma os_read_error: "is_os_error e \<Longrightarrow> is_read_error e"
  by (cases e) simp_all

text \<open>A frame that was emitted is read back to the same object.\<close>

lemma frame_bytes_line:
  assumes "plain True (JObj d)"
  shows "frame_bytes E d = Inr (json_line E (JObj d))"
proof -
  have "list_all is_scalar (dumps (float_repr E) False (JObj d) @ [10])"
    using scalar_dumps [OF assms] by (simp add: scalar_small del: dumps.simps)
  then show ?thesis
    by (simp add: frame_bytes_def utf8_encode_def json_line_def list_all_iff is_scalar_def del: dumps.simps)
qed

lemma dumps_nonempty_obj:
  assumes "d \<noteq> []"
  shows "\<exists>r. dumps fr a (JObj d) = 123 # 34 # r"
  using assms dumps_obj_start by (cases d) auto

section \<open>Scanning a hook record\<close>

text \<open>
  Printing an object and scanning it: outside strings only braces change the depth, and a printed
  string ends with the first quote that is not escaped. \<open>scans h t h'\<close> says that the characters of
  \<open>t\<close> take the scanner from \<open>h\<close> to \<open>h'\<close> without ending the record.
\<close>

fun scans :: "hook_state \<Rightarrow> str \<Rightarrow> hook_state \<Rightarrow> bool" where
  "scans h [] h' = (h' = h)"
| "scans h (c # t) h' = (case hook_char h c of Inr (Some h1) \<Rightarrow> scans h1 t h' | _ \<Rightarrow> False)"

lemma scans_append: "scans h (s @ t) h' \<longleftrightarrow> (\<exists>h1. scans h s h1 \<and> scans h1 t h')"
  by (induction s arbitrary: h) (auto split: sum.splits option.splits)

definition inside :: "nat \<Rightarrow> hook_state" where
  "inside k = \<lparr>h_depth = k, h_quoted = False, h_escaped = False, h_started = True\<rparr>"

definition in_string :: "nat \<Rightarrow> hook_state" where
  "in_string k = \<lparr>h_depth = k, h_quoted = True, h_escaped = False, h_started = True\<rparr>"

lemma scans_plain: "c \<noteq> 34 \<Longrightarrow> c \<noteq> 123 \<Longrightarrow> c \<noteq> 125 \<Longrightarrow> scans (inside k) (c # t) h \<longleftrightarrow> scans (inside k) t h"
  by (simp add: hook_char_def inside_def)

lemma scans_quote: "scans (inside k) (34 # t) h \<longleftrightarrow> scans (in_string k) t h"
  by (simp add: hook_char_def inside_def in_string_def)

lemma scans_open: "scans (inside k) (123 # t) h \<longleftrightarrow> scans (inside (Suc k)) t h"
  by (simp add: hook_char_def inside_def)

lemma scans_close: "0 < k \<Longrightarrow> scans (inside (Suc k)) (125 # t) h \<longleftrightarrow> scans (inside k) t h"
  by (simp add: hook_char_def inside_def)

lemma scans_esc: "scans (in_string k) (esc_char a c) (in_string k)"
proof -
  have hex: "hex_digit n \<noteq> 34 \<and> hex_digit n \<noteq> 92" for n by (simp add: hex_digit_def)
  have "scans (in_string k) (hex4 u @ t) h \<longleftrightarrow> scans (in_string k) t h" for u t h
    using hex by (simp add: hex4_def hook_char_def in_string_def)
  from this [of _ "[]"] this show ?thesis
    by (auto simp: esc_char_def hook_char_def in_string_def)
qed

lemma scans_json_str: "scans (inside k) (json_str a s) (inside k)"
proof -
  have "scans (in_string k) (concat (map (esc_char a) s)) (in_string k)"
    by (induction s) (auto simp: scans_append intro: scans_esc)
  moreover have "scans (in_string k) [34] (inside k)" by (simp add: hook_char_def in_string_def inside_def)
  ultimately show ?thesis by (auto simp: json_str_def scans_quote scans_append simp del: scans.simps)
qed

lemma scans_seq: "scans h s h1 \<Longrightarrow> scans h1 t h2 \<Longrightarrow> scans h (s @ t) h2"
  by (auto simp: scans_append)

lemma scans_sep: "scans (inside k) t h \<Longrightarrow> scans (inside k) (44 # t) h" "scans (inside k) t h \<Longrightarrow> scans (inside k) (58 # t) h"
  by (simp_all add: scans_plain del: scans.simps)

lemma scans_item: "scans (inside k) t (inside k) \<Longrightarrow> scans (inside k) (json_str a s @ 58 # t) (inside k)"
  by (intro scans_seq [OF scans_json_str] scans_sep)

lemma scans_comma:
  "(\<And>x. x \<in> set xs \<Longrightarrow> scans (inside k) x (inside k)) \<Longrightarrow> scans (inside k) (intersperse_comma xs) (inside k)"
  by (induction xs rule: intersperse_comma.induct) (auto intro!: scans_seq scans_sep simp del: scans.simps(2))

lemma scans_members:
  assumes "\<And>p. p \<in> set kvs \<Longrightarrow> scans (inside k) (dumps fr a (snd p)) (inside k)"
  shows "scans (inside k) (intersperse_comma (map (\<lambda>p. json_str a (fst p) @ 58 # dumps fr a (snd p)) kvs)) (inside k)"
  using assms scans_item by (intro scans_comma) (force simp del: scans.simps)

lemma scans_chars:
  "(\<And>c. c \<in> set t \<Longrightarrow> c \<noteq> 34 \<and> c \<noteq> 123 \<and> c \<noteq> 125) \<Longrightarrow> scans (inside k) t (inside k)"
  by (induction t) (auto simp: scans_plain simp del: scans.simps(2))

lemma scans_dumps: "plain b v \<Longrightarrow> scans (inside (Suc k)) (dumps fr a v) (inside (Suc k))"
proof (induction v arbitrary: k)
  case (JInt i)
  then show ?case by (auto intro!: scans_chars dest: int_str_digits simp: is_digit_def)
next
  case (JArr xs)
  then have "scans (inside (Suc k)) (intersperse_comma (map (dumps fr a) xs)) (inside (Suc k))"
    by (intro scans_comma) (auto simp: list_all_iff)
  then show ?case by (auto simp: scans_plain scans_append simp del: scans.simps(2))
next
  case (JObj kvs)
  have "scans (inside (Suc (Suc k)))
      (intersperse_comma (map (\<lambda>p. json_str a (fst p) @ 58 # dumps fr a (snd p)) kvs)) (inside (Suc (Suc k)))"
  proof (rule scans_members)
    fix p assume p: "p \<in> set kvs"
    then have "plain b (snd p)" using JObj.prems by (auto simp: list_all_iff)
    with p show "scans (inside (Suc (Suc k))) (dumps fr a (snd p)) (inside (Suc (Suc k)))"
      using JObj.IH [OF p Basic_BNFs.snds.intros, of "Suc k"] by simp
  qed
  then show ?case by (auto simp: scans_open scans_append scans_close simp del: scans.simps(2))
next
  case JNull
  show ?case by (rule scans_chars) (auto simp: lit_def)
next
  case (JBool b)
  show ?case by (cases b) (auto simp: lit_def simp del: scans.simps intro!: scans_chars)
next
  case (JStr s)
  show ?case by (simp add: scans_json_str)
qed simp

lemma hook_scan_scans:
  assumes "scans h t h'" "list_all (\<lambda>c. \<not> is_surrogate c) t" "n + utf8_len t \<le> WIRE_FRAME_BYTES"
  shows "hook_scan h n (t @ s) = bind (hook_scan h' (n + utf8_len t) s) (\<lambda>(u, r). Inr (t @ u, r))"
  using assms
proof (induction t arbitrary: h n)
  case Nil
  then show ?case by (cases "hook_scan h' n s") auto
next
  case (Cons c t)
  then obtain h1 where h1: "hook_char h c = Inr (Some h1)" "scans h1 t h'"
    by (auto split: sum.splits option.splits)
  from Cons.IH [OF h1(2), of "n + length (utf8_char c)"] Cons.prems h1(1) show ?case
    by (cases "hook_scan h' (n + (length (utf8_char c) + utf8_len t)) s")
      (auto simp: Let_def utf8_len_Cons add.assoc)
qed

text \<open>
  A printed object on the pipe is read exactly to its closing brace, whatever follows and whether
  or not the writer closes the pipe.
\<close>

lemma hook_record_object:
  assumes "plain True (JObj d)" "utf8_len (dumps fr a (JObj d)) \<le> WIRE_FRAME_BYTES"
  shows "hook_json_record (dumps fr a (JObj d) @ rest) = Inr (dumps fr a (JObj d), rest)"
proof -
  let ?m = "intersperse_comma (map (\<lambda>p. json_str a (fst p) @ 58 # dumps fr a (snd p)) d)"
  have t: "dumps fr a (JObj d) = 123 # ?m @ [125]" by simp
  have "scans (inside 1) (dumps fr a (snd p)) (inside 1)" if "p \<in> set d" for p
    using that assms(1) scans_dumps [of True "snd p" 0 fr a] by (simp add: list_all_iff del: scans.simps)
  then have "scans (inside 1) ?m (inside 1)" by (rule scans_members)
  moreover have "hook_char hook_start 123 = Inr (Some (inside 1))"
    by (simp add: hook_char_def hook_start_def inside_def is_space_def)
  ultimately have sc: "scans hook_start (123 # ?m) (inside 1)" by simp
  have cl: "list_all (\<lambda>c. \<not> is_surrogate c) (123 # ?m @ [125])"
    using scalar_dumps [OF assms(1), of fr a] unfolding t by (auto simp: list_all_iff is_scalar_def)
  have len: "utf8_len (123 # ?m) + 1 \<le> WIRE_FRAME_BYTES"
    using assms(2) unfolding t by (simp add: utf8_len_Cons utf8_char_def)
  have "hook_scan (inside 1) (utf8_len (123 # ?m)) (125 # rest) = Inr ([125], rest)"
    using len by (simp add: hook_char_def inside_def is_surrogate_def utf8_char_def Let_def)
  then show ?thesis
    using hook_scan_scans [OF sc, of 0 "125 # rest"] cl len
    by (simp add: hook_json_record_def del: hook_scan.simps)
qed

lemma frame_read_back:
  assumes "plain True (JObj d)" "d \<noteq> []" "frame_bytes E d = Inr b" "length b \<le> WIRE_FRAME_BYTES"
    and "list_all (\<lambda>c. c \<noteq> []) cs" "concat cs = b"
  shows "bind (read_frame WIRE_FRAME_BYTES (map Data cs @ evs)) (loads_bytes E) = Inr (JObj d)"
proof -
  define f where "f = concat (map utf8_char (dumps (float_repr E) False (JObj d)))"
  have b: "b = f @ [10]"
    using assms(3) frame_bytes_line [OF assms(1), of E] by (simp add: json_line_def f_def utf8_char_def del: dumps.simps)
  have nl: "10 \<notin> set f" unfolding f_def by (intro utf8_no_newline dumps_no_newline [OF assms(1)])
  have "read_frame WIRE_FRAME_BYTES (map Data cs @ evs) = Inr f"
    using assms(4,5,6) nl by (intro read_frame_complete) (simp_all add: b)
  moreover obtain r where "dumps (float_repr E) False (JObj d) = 123 # 34 # r"
    using dumps_nonempty_obj [OF assms(2)] by blast
  then have "loads_bytes E f = Inr (JObj d)"
    using loads_utf8_ws [OF assms(1), of "float_repr E" r "[]" E] by (simp add: f_def del: dumps.simps)
  ultimately show ?thesis by simp
qed

text \<open>An exchange in which nothing fails and the peer sends these bytes.\<close>

definition good_exchange :: "bytes \<Rightarrow> exchange" where
  "good_exchange b = \<lparr>ex_check = Inr (), ex_late_connect = False, ex_connect = Inr (), ex_late_write = False,
     ex_write = Inr (), ex_late_read = False, ex_reply = [Data b]\<rparr>"

lemma good_request:
  assumes "plain True (JObj d)" "d \<noteq> []" "frame_bytes E d = Inr b" "length b \<le> WIRE_FRAME_BYTES" "is_ok (frame_bytes E p)"
  shows "request_socket E (good_exchange b) p = Inr d" "request_tailnet E (good_exchange b) p = Inr d"
proof -
  have "b \<noteq> []" using assms(3) frame_bytes_line [OF assms(1), of E] by (auto simp: json_line_def utf8_char_def)
  then have "bind (read_frame WIRE_FRAME_BYTES [Data b]) (loads_bytes E) = Inr (JObj d)"
    using frame_read_back [OF assms(1-4), of "[b]" "[]"] by simp
  with assms(5) have "write_and_read E (good_exchange b) p = Inr (JObj d)"
    by (auto simp: write_and_read_def good_exchange_def late_def is_ok_def split: sum.splits)
  then show "request_socket E (good_exchange b) p = Inr d" "request_tailnet E (good_exchange b) p = Inr d"
    by (simp_all add: request_socket_def request_tailnet_def after_write_def except_chat_def open_socket_def)
      (simp_all add: good_exchange_def late_def)
qed

section \<open>Properties\<close>

text \<open>
  C32. A frame crosses a socket intact: the bytes of any object, cut into chunks in any way, are read
  back to that object; and whatever a peer sends, a frame that is read is the bytes up to the first
  newline and is shorter than the limit.
\<close>

theorem frame_roundtrip:
  assumes "plain True (JObj d)" "d \<noteq> []" "frame_bytes E d = Inr b" "length b \<le> WIRE_FRAME_BYTES"
    and "list_all (\<lambda>c. c \<noteq> []) cs" "concat cs = b"
  shows "bind (read_frame WIRE_FRAME_BYTES (map Data cs @ evs)) (loads_bytes E) = Inr (JObj d) \<and>
    (\<forall>evs' f. read_frame WIRE_FRAME_BYTES evs' = Inr f \<longrightarrow>
       10 \<notin> set f \<and> length f < WIRE_FRAME_BYTES \<and> (\<exists>r. available evs' = f @ 10 # r))"
  using frame_read_back [OF assms] read_frame_sound by auto

theorem frame_roundtrip_witness:
  "bind (read_frame WIRE_FRAME_BYTES [Data [123, 34, 97], Data [34, 58, 49, 125, 10]]) (loads_bytes sample_env) =
     Inr (JObj [(lit ''a'', JInt 1)])"
proof -
  have p: "plain True (JObj [(lit ''a'', JInt 1)])" by (simp add: int_fits_small)
  have "dumps fr False (JObj [(lit ''a'', JInt 1)]) = [123, 34, 97, 34, 58, 49, 125]" for fr
    by (simp add: json_str_def lit_def esc_char_def int_str_def dec_str.simps)
  then have b: "frame_bytes sample_env [(lit ''a'', JInt 1)] = Inr [123, 34, 97, 34, 58, 49, 125, 10]"
    using frame_bytes_line [OF p, of sample_env] by (simp add: json_line_def utf8_char_def del: dumps.simps)
  from frame_roundtrip [OF p _ b, of "[[123, 34, 97], [34, 58, 49, 125, 10]]" "[]"] show ?thesis
    by (simp add: WIRE_FRAME_BYTES_def)
qed



text \<open>
  A hook reads its event from an open pipe: of any object printed on standard input it consumes
  exactly the characters of the object, whatever follows, and for a well formed event of the
  expected kind it returns that object with the validated session id and the canonical directory.
\<close>

theorem hook_input_open_pipe:
  assumes "plain True (JObj d)" "utf8_len (dumps fr True (JObj d)) \<le> WIRE_FRAME_BYTES"
    and "jget d ''hook_event_name'' = Some (JStr (lit event))"
    and "hook_session d = Some (JStr sid)" "uuid_shape sid"
    and "jget d ''cwd'' = Some (JStr cwd)" "canonical_cwd fs cwd = Inr path"
  shows "hook_json_record (dumps fr True (JObj d) @ rest) = Inr (dumps fr True (JObj d), rest) \<and>
    hook_input E fs missing (dumps fr True (JObj d) @ rest) event =
      Inr (dict_put (dict_put (dict_put d (lit ''session_id'') (JStr sid)) (lit ''_cwd_unavailable'') (JBool False))
             (lit ''cwd'') (JStr path))"
proof -
  note r = hook_record_object [OF assms(1,2), of rest]
  have "loads (float_parse E) (dumps fr True (JObj d)) = Inr (JObj d)"
    using loads_dumps_trailing [OF assms(1), of "[]" "float_parse E" fr] by (simp del: dumps.simps)
  moreover have "valid_uuid sid f = Inr sid" for f using assms(5) by (simp add: valid_uuid_iff)
  ultimately show ?thesis
    using r assms(3,4,6,7) by (simp add: hook_input_def Let_def del: dumps.simps)
qed

definition sample_hook :: dict where
  "sample_hook = [(lit ''hook_event_name'', JStr (lit ''Stop'')), (lit ''sessionId'', JStr (sample_uuid 49)),
     (lit ''cwd'', JStr (lit ''/w''))]"

theorem hook_input_open_pipe_witness:
  "\<exists>d. hook_input sample_env \<lparr>fs_resolve = Inr, fs_is_dir = (\<lambda>_. True)\<rparr> (\<lambda>_. False)
      (dumps (\<lambda>_. []) True (JObj sample_hook) @ lit ''junk'') ''Stop'' = Inr d \<and>
    jget d ''session_id'' = Some (JStr (sample_uuid 49))"
proof -
  let ?fs = "\<lparr>fs_resolve = Inr, fs_is_dir = (\<lambda>_. True)\<rparr>"
  have p: "plain True (JObj sample_hook)"
    using tame_printable [OF tame_uuid, of "sample_uuid 49" True] by (simp add: sample_hook_def sample_simps)
  have u: "concat (map (esc_char True) (sample_uuid 49)) = sample_uuid 49"
    by (simp add: sample_uuid_def esc_char_def numeral_eq_Suc)
  have "list_all (\<lambda>c. c < 128) (dumps (\<lambda>_. []) True (JObj sample_hook)) \<and>
      length (dumps (\<lambda>_. []) True (JObj sample_hook)) \<le> 200"
    using tame_small [OF tame_uuid, of "sample_uuid 49"]
    by (simp add: sample_hook_def json_str_def u sample_simps) (simp add: lit_def esc_char_def sample_uuid_def)
  then have len: "utf8_len (dumps (\<lambda>_. []) True (JObj sample_hook)) \<le> WIRE_FRAME_BYTES"
    by (simp add: utf8_len_ascii WIRE_FRAME_BYTES_def del: dumps.simps)
  have c: "canonical_cwd ?fs (lit ''/w'') = Inr (lit ''/w'')" by (simp add: canonical_cwd_def is_absolute_def starts_with_def lit_def)
  from hook_input_open_pipe [OF p len _ _ _ _ c, of "''Stop''" "sample_uuid 49" "lit ''junk''" sample_env "\<lambda>_. False"]
  show ?thesis by (simp add: sample_hook_def hook_session_def sample_simps del: dumps.simps)
qed

end
