(* ===== verification/CourierServer.thy ===== *)
theory CourierServer
  imports Courier Wire Routes
begin

text \<open>
  The courier process of runtime.py: one delivery attempt (\<open>courier_accept\<close>), its three-valued report,
  what a sender reads out of the report, and the request handler of the server with its gates:
  route generation, bootstrap, shutdown, and the lock that admits one delivery at a time. The calls
  into a provider (the app-server daemon, the native queue, the Claude command line) are arguments.
\<close>

section \<open>Reports\<close>

definition COURIER_BUSY :: str where "COURIER_BUSY = lit ''session courier is busy with another delivery''"

definition COURIER_STOPPED :: str where
  "COURIER_STOPPED = lit ''session courier stopped before admitting a delivery''"

record claude_agent =
  ag_session_id :: str
  ag_name :: str
  ag_kind :: str
  ag_cwd :: str

definition claude_alias :: "pyenv \<Rightarrow> str \<Rightarrow> str \<Rightarrow> claude_agent \<Rightarrow> str res" where
  "claude_alias E device project agent =
     bind (valid_name E project ''project'') (\<lambda>_.
     bind (valid_name E (ag_name agent) ''Claude session name'') (\<lambda>_.
     let rendered = lit ''claude@'' @ device @ 58 # project @ 58 # ag_name agent in
     bind (if 128 < length rendered
           then bind (session_key E Claude (ag_session_id agent)) (\<lambda>k. Inr (take 115 rendered @ 126 # take 12 k))
           else Inr rendered) (\<lambda>a.
     valid_name E a ''Claude alias'')))"

text \<open>
  The provider calls of one delivery: the daemon's \<open>accept\<close> if a daemon owns the session, the outcome
  of the native queue, and for Claude the two inventories, the target discovery and the send.
\<close>

record provider_calls =
  pc_daemon :: "(str \<Rightarrow> str \<Rightarrow> dict res) option"
  pc_queue :: "exn option"
  pc_agent :: "claude_agent res"
  pc_target_ref :: "str res"
  pc_agent_again :: "claude_agent res"
  pc_send :: "unit res"

definition accepted_report :: "str \<Rightarrow> str \<Rightarrow> str \<Rightarrow> dict" where
  "accepted_report i alias p =
     [(lit ''schema_version'', JInt 1), (lit ''event_id'', JStr i),
      (lit ''status'', JStr (lit ''TRANSPORT_ACCEPTED'')), (lit ''to'', JStr alias), (lit ''provider'', JStr p)]"

definition rejected_report :: "str \<Rightarrow> str \<Rightarrow> str \<Rightarrow> dict" where
  "rejected_report i p error =
     [(lit ''schema_version'', JInt 1), (lit ''event_id'', JStr i),
      (lit ''status'', JStr (lit ''PRE_EFFECT_REJECTED'')), (lit ''provider'', JStr p), (lit ''error'', JStr error)]"

definition unknown_report :: "str \<Rightarrow> str \<Rightarrow> str option \<Rightarrow> dict" where
  "unknown_report i p diagnostic =
     [(lit ''schema_version'', JInt 1), (lit ''event_id'', JStr i),
      (lit ''status'', JStr (lit ''UNKNOWN_DELIVERY'')), (lit ''provider'', JStr p)] @
     (case diagnostic of None \<Rightarrow> [] | Some t \<Rightarrow> [(lit ''diagnostic'', JStr t)])"

definition claude_delivery :: "pyenv \<Rightarrow> route \<Rightarrow> provider_calls \<Rightarrow> str \<Rightarrow> dict res" where
  "claude_delivery E r calls i =
     bind (pc_agent calls) (\<lambda>agent.
     bind (pc_target_ref calls) (\<lambda>_.
     bind (pc_agent_again calls) (\<lambda>agent'.
     if agent' \<noteq> agent then fail ''Claude target changed during discovery''
     else
       bind (claude_alias E (r_device r) (r_project r) agent) (\<lambda>target_alias.
       bind (pc_send calls) (\<lambda>_.
       Inr (accepted_report i target_alias (lit ''claude'')))))))"

text \<open>The body of the try block, with the courier as it is left.\<close>

definition provider_delivery ::
  "pyenv \<Rightarrow> rat \<Rightarrow> rat \<Rightarrow> route \<Rightarrow> provider_calls \<Rightarrow> courier option \<Rightarrow> str \<Rightarrow> str \<Rightarrow> dict res \<times> courier option" where
  "provider_delivery E now now' r calls c event_id message =
     (case bind (valid_uuid event_id ''event id'') (\<lambda>i. bind (bounded_message message) (\<lambda>b. Inr (i, b))) of
        Inl e \<Rightarrow> (Inl e, c)
      | Inr (i, body) \<Rightarrow>
          (case r_provider r of
             Codex \<Rightarrow>
               (case pc_daemon calls of
                  Some daemon_accept \<Rightarrow>
                    (case daemon_accept i body of
                       Inl e \<Rightarrow> (Inl e, c)
                     | Inr response \<Rightarrow>
                         (Inr response,
                          if jget response ''status'' = Some (JStr (lit ''TRANSPORT_ACCEPTED''))
                          then map_option (retire_event now' i) c else c))
                | None \<Rightarrow>
                    (case c of
                       None \<Rightarrow> (fail ''Codex courier is unavailable'', None)
                     | Some q \<Rightarrow> (case accept now now' (pc_queue calls) q i body of (v, q') \<Rightarrow> (v, Some q'))))
           | Devin \<Rightarrow>
               (case c of
                  None \<Rightarrow> (fail ''Devin inbox is unavailable'', None)
                | Some q \<Rightarrow> (case accept now now' (pc_queue calls) q i body of (v, q') \<Rightarrow> (v, Some q')))
           | Claude \<Rightarrow> (claude_delivery E r calls i, c)))"

text \<open>The handlers: what each exception is reported as. Other exceptions pass.\<close>

definition delivery_report :: "provider \<Rightarrow> str \<Rightarrow> exn \<Rightarrow> dict res" where
  "delivery_report p event_id e =
     (case e of
        ClaudeSendMessageUnknownDelivery ph \<Rightarrow> Inr (unknown_report event_id (provider_str p) (Some (lit ''claude_'' @ ph)))
      | UnknownDeliveryError _ \<Rightarrow> Inr (unknown_report event_id (provider_str p) None)
      | ClaudeSendMessageRefused _ \<Rightarrow>
          Inr (rejected_report event_id (provider_str p) (lit ''Claude SendMessage was refused before delivery''))
      | _ \<Rightarrow> if is_chat_error e then Inr (rejected_report event_id (provider_str p) (exn_text e)) else Inl e)"

definition courier_accept ::
  "pyenv \<Rightarrow> rat \<Rightarrow> rat \<Rightarrow> route \<Rightarrow> provider_calls \<Rightarrow> courier option \<Rightarrow> str \<Rightarrow> str \<Rightarrow> dict res \<times> courier option" where
  "courier_accept E now now' r calls c event_id message =
     (case provider_delivery E now now' r calls c event_id message of
        (Inr d, c') \<Rightarrow> (Inr d, c')
      | (Inl e, c') \<Rightarrow> (delivery_report (r_provider r) event_id e, c'))"

section \<open>Reading a report\<close>

definition field_is :: "dict \<Rightarrow> string \<Rightarrow> str \<Rightarrow> bool" where
  "field_is d k v \<longleftrightarrow> jget d k = Some (JStr v)"

definition pre_effect_error :: "dict \<Rightarrow> str \<Rightarrow> str \<Rightarrow> str option" where
  "pre_effect_error response event_id p =
     (if \<not> has_keys response [''schema_version'', ''event_id'', ''status'', ''provider'', ''error''] then None
      else
        case jget response ''error'' of
          Some (JStr error) \<Rightarrow>
            if \<not> field_eq_int response ''schema_version'' SCHEMA_VERSION \<or>
               \<not> field_is response ''event_id'' event_id \<or>
               \<not> field_is response ''status'' (lit ''PRE_EFFECT_REJECTED'') \<or>
               \<not> field_is response ''provider'' p \<or>
               error = [] \<or> list_ex (\<lambda>c. c = 13 \<or> c = 10 \<or> c = 0) error
            then None
            else
              (case utf8_encode error of
                 None \<Rightarrow> None
               | Some b \<Rightarrow> if 256 < length b then None else Some error)
        | _ \<Rightarrow> None)"

definition UNKNOWN_DIAGNOSTICS :: "string list" where
  "UNKNOWN_DIAGNOSTICS =
     [''claude_pretool_gate_unobserved'', ''claude_pretool_gate_unreadable'', ''claude_pretool_gate_denied'',
      ''claude_pretool_gate_conflict'', ''claude_no_sendmessage_tool_use'', ''claude_multiple_sendmessage_tool_use'',
      ''claude_sendmessage_payload_mismatch'', ''claude_sendmessage_target_mismatch'',
      ''claude_sendmessage_message_mismatch'', ''claude_sendmessage_control_mismatch'',
      ''claude_sendmessage_type_mismatch'', ''claude_sendmessage_summary_mismatch'',
      ''claude_helper_stream_invalid'', ''claude_helper_timeout'', ''claude_helper_execution_failed'',
      ''claude_helper_exit_nonzero'', ''claude_receipt_invalid'']"

definition unknown_delivery_diagnostic :: "dict \<Rightarrow> str \<Rightarrow> str \<Rightarrow> str option" where
  "unknown_delivery_diagnostic response event_id p =
     (case jget response ''diagnostic'' of
        Some (JStr diagnostic) \<Rightarrow>
          if \<not> has_keys response [''schema_version'', ''event_id'', ''status'', ''provider'', ''diagnostic''] \<or>
             \<not> field_eq_int response ''schema_version'' SCHEMA_VERSION \<or>
             \<not> field_is response ''event_id'' event_id \<or>
             \<not> field_is response ''status'' (lit ''UNKNOWN_DELIVERY'') \<or>
             \<not> field_is response ''provider'' p \<or> p \<noteq> lit ''claude'' \<or>
             \<not> list_ex (\<lambda>t. diagnostic = lit t) UNKNOWN_DIAGNOSTICS
          then None else Some diagnostic
      | _ \<Rightarrow> None)"

section \<open>Health\<close>

definition delivery_mode :: "route \<Rightarrow> courier option \<Rightarrow> bool \<Rightarrow> str" where
  "delivery_mode r c native_helper =
     (case r_provider r of
        Claude \<Rightarrow> lit ''claude_native_cross_session''
      | Devin \<Rightarrow> lit ''devin_stop_or_prompt_bound''
      | Codex \<Rightarrow>
          if native_helper \<or> (case c of None \<Rightarrow> False | Some q \<Rightarrow> c_native_queue q \<noteq> None)
          then lit ''codex_experimental_queue'' else lit ''codex_stop_bound'')"

definition delivery_mechanism :: "route \<Rightarrow> courier option \<Rightarrow> bool \<Rightarrow> str" where
  "delivery_mechanism r c native_helper =
     (case r_provider r of
        Claude \<Rightarrow> lit ''claude_native''
      | Devin \<Rightarrow> lit ''devin_prompt_bound''
      | Codex \<Rightarrow>
          if native_helper then lit ''native_helper''
          else if (case c of None \<Rightarrow> False | Some q \<Rightarrow> c_native_queue q \<noteq> None)
          then lit ''direct_queue'' else lit ''stop_bound'')"

text \<open>The keyword arguments of \<open>courier_health\<close>.\<close>

record health_view =
  hv_mode :: bool
  hv_direct_mode :: bool
  hv_mechanism :: bool
  hv_native_helper :: bool
  hv_owning_daemon :: bool
  hv_daemon :: bool
  hv_tool_boundary :: bool
  hv_tool_boundary_observed :: bool
  hv_acp_host :: bool
  hv_acp_host_observed :: bool
  hv_current_boundary :: bool
  hv_boundary :: "str option"

definition put_mode :: "health_view \<Rightarrow> str \<Rightarrow> str \<Rightarrow> dict \<Rightarrow> dict" where
  "put_mode h mode mechanism d =
     (let d1 = (if hv_mode h then dict_put d (lit ''delivery_mode'') (JStr mode) else d)
      in if hv_mechanism h then dict_put d1 (lit ''delivery_mechanism'') (JStr mechanism) else d1)"

definition only_if :: "bool \<Rightarrow> ('a \<Rightarrow> 'a) \<Rightarrow> 'a \<Rightarrow> 'a" where
  "only_if b f x = (if b then f x else x)"

definition courier_health :: "pyenv \<Rightarrow> route \<Rightarrow> courier option \<Rightarrow> claude_agent res \<Rightarrow> health_view \<Rightarrow> dict res" where
  "courier_health E r c agent h =
     (case (if r_provider r = Claude
            then bind agent (\<lambda>a. claude_alias E (r_device r) (r_project r) a) else Inr (r_alias r)) of
        Inl e \<Rightarrow>
          if is_chat_error e then
            Inr [(lit ''schema_version'', JInt 1), (lit ''status'', JStr (lit ''UNAVAILABLE'')),
                 (lit ''generation'', JStr (r_generation r))]
          else Inl e
      | Inr alias \<Rightarrow>
          let d0 = [(lit ''schema_version'', JInt 1), (lit ''status'', JStr (lit ''READY'')),
                    (lit ''generation'', JStr (r_generation r)), (lit ''alias'', JStr alias)];
              d1 = put_mode h (delivery_mode r c (hv_native_helper h)) (delivery_mechanism r c (hv_native_helper h)) d0;
              d2 = only_if (hv_daemon h \<and> hv_owning_daemon h)
                     (put_mode h (lit ''codex_daemon_input'') (lit ''owning_daemon'')) d1;
              d3 = only_if (r_provider r = Devin \<and> hv_tool_boundary h \<and> hv_tool_boundary_observed h)
                     (put_mode h (lit ''devin_tool_boundary'') (lit ''devin_tool_boundary'')) d2;
              d4 = only_if (r_provider r = Devin \<and> hv_acp_host h \<and> hv_acp_host_observed h)
                     (put_mode h (lit ''devin_acp_hosted'')
                        (if hv_tool_boundary_observed h then lit ''devin_tool_boundary'' else lit ''devin_acp_host'')) d3;
              d5 = only_if (hv_current_boundary h \<and> r_provider r = Devin \<and> hv_boundary h \<noteq> None)
                     (\<lambda>d. dict_put d (lit ''current_boundary'') (JStr (the (hv_boundary h)))) d4
          in Inr (only_if (hv_direct_mode h)
                    (\<lambda>d. dict_put d (lit ''direct_delivery_mode'') (JStr (delivery_mode r c False))) d5))"

section \<open>The request handler\<close>

text \<open>
  The flags shared by the connection workers, whether some worker holds the \<open>accept_lock\<close>, and the
  courier. A request is served as one transition; deliveries that take long are those during which
  \<open>sv_busy\<close> is set for the others.
\<close>

record server =
  sv_bootstrapped :: bool
  sv_stopping :: bool
  sv_busy :: bool
  sv_courier :: "courier option"

text \<open>
  What one request meets: the route, whether it is current at the recheck, the provider calls,
  whether the bootstrap acknowledgement could be sent, what health observes, and the clock.
\<close>

record surroundings =
  su_route :: route
  su_current :: bool
  su_calls :: provider_calls
  su_emits :: bool
  su_agent :: "claude_agent res"
  su_native_helper :: bool
  su_tool_boundary_observed :: bool
  su_acp_host_observed :: bool
  su_boundary :: str
  su_version :: str
  su_incarnation :: str
  su_now :: rat
  su_now' :: rat

definition flag :: "dict \<Rightarrow> string \<Rightarrow> bool" where
  "flag d k \<longleftrightarrow> jget d k = Some (JBool True)"

definition health_of :: "surroundings \<Rightarrow> dict \<Rightarrow> health_view" where
  "health_of su request =
     (let devin = (r_provider (su_route su) = Devin) in
      \<lparr>hv_mode = flag request ''include_delivery_mode'',
       hv_direct_mode = flag request ''include_direct_delivery_mode'',
       hv_mechanism = flag request ''include_delivery_mechanism'',
       hv_native_helper = su_native_helper su,
       hv_owning_daemon = flag request ''include_owning_daemon'',
       hv_daemon = (pc_daemon (su_calls su) \<noteq> None),
       hv_tool_boundary = flag request ''include_devin_tool_boundary'',
       hv_tool_boundary_observed = devin \<and> su_tool_boundary_observed su,
       hv_acp_host = flag request ''include_devin_acp_host'',
       hv_acp_host_observed = devin \<and> su_acp_host_observed su,
       hv_current_boundary = flag request ''include_current_boundary'',
       hv_boundary = (if devin \<and> flag request ''include_current_boundary'' then Some (su_boundary su) else None)\<rparr>)"

definition status_reply :: "string \<Rightarrow> str \<Rightarrow> dict" where
  "status_reply status g =
     [(lit ''schema_version'', JInt 1), (lit ''status'', JStr (lit status)), (lit ''generation'', JStr g)]"

fun event_state_str :: "event_state \<Rightarrow> str" where
  "event_state_str HandedOff = lit ''handed_off''"
| "event_state_str Pending = lit ''pending''"
| "event_state_str Unseen = lit ''unseen''"

definition inspect_reply :: "surroundings \<Rightarrow> server \<Rightarrow> str \<Rightarrow> dict option" where
  "inspect_reply su s event_id =
     (case valid_uuid event_id ''event id'' of
        Inl _ \<Rightarrow> None
      | Inr i \<Rightarrow>
          Some ([(lit ''schema_version'', JInt 1), (lit ''status'', JStr (lit ''INSPECTED'')),
                 (lit ''generation'', JStr (r_generation (su_route su))),
                 (lit ''courier_version'', JStr (su_version su)),
                 (lit ''courier_incarnation'', JStr (su_incarnation su))] @
                (case sv_courier s of
                   None \<Rightarrow> [(lit ''event_state'', JStr (lit ''no_courier_queue''))]
                 | Some q \<Rightarrow>
                     (case inspect_event (su_now su) q i of
                        Inl _ \<Rightarrow> []
                      | Inr (st, n, age) \<Rightarrow>
                          [(lit ''event_state'', JStr (event_state_str st)), (lit ''pending_count'', JInt (int n)),
                           (lit ''oldest_pending_age_seconds'',
                            case age of None \<Rightarrow> JNull | Some t \<Rightarrow> JFloat (Fin t))]))))"

definition refusal :: "surroundings \<Rightarrow> str \<Rightarrow> str \<Rightarrow> dict option" where
  "refusal su event_id reason =
     (case valid_uuid event_id ''event id'' of
        Inl _ \<Rightarrow> None
      | Inr i \<Rightarrow> Some (rejected_report i (provider_str (r_provider (su_route su))) reason))"

definition serve_accept :: "pyenv \<Rightarrow> surroundings \<Rightarrow> server \<Rightarrow> str \<Rightarrow> str \<Rightarrow> dict option \<times> server" where
  "serve_accept E su s event_id message =
     (if \<not> sv_bootstrapped s then (refusal su event_id (lit ''session courier is still bootstrapping''), s)
      else if sv_busy s then (refusal su event_id COURIER_BUSY, s)
      else if sv_stopping s \<or> \<not> su_current su then (refusal su event_id COURIER_STOPPED, s)
      else
        (case courier_accept E (su_now su) (su_now' su) (su_route su) (su_calls su) (sv_courier s) event_id message of
           (Inr d, c) \<Rightarrow> (Some d, s\<lparr>sv_courier := c\<rparr>)
         | (Inl _, c) \<Rightarrow> (None, s\<lparr>sv_courier := c\<rparr>)))"

definition serve_dispatch :: "surroundings \<Rightarrow> server \<Rightarrow> str \<Rightarrow> dict option \<times> server" where
  "serve_dispatch su s event_id =
     (case (r_provider (su_route su), sv_courier s) of
        (Codex, Some q) \<Rightarrow>
          (case native_dispatch_message q event_id of
             Inl e \<Rightarrow>
               (if is_chat_error e
                then Some (status_reply ''UNAVAILABLE'' (r_generation (su_route su)) @ [(lit ''error'', JStr (exn_text e))])
                else None, s)
           | Inr (m, q') \<Rightarrow>
               (Some (status_reply ''NATIVE_DISPATCH'' (r_generation (su_route su)) @
                      [(lit ''event_id'', JStr event_id), (lit ''message'', JStr m)]), s\<lparr>sv_courier := Some q'\<rparr>))
      | _ \<Rightarrow> (None, s))"

definition serve_dispatch_ack :: "surroundings \<Rightarrow> server \<Rightarrow> str \<Rightarrow> dict option \<times> server" where
  "serve_dispatch_ack su s event_id =
     (case (r_provider (su_route su), sv_courier s) of
        (Codex, Some q) \<Rightarrow>
          (case acknowledge (su_now su) q [event_id] of
             Inl _ \<Rightarrow> (None, s)
           | Inr q' \<Rightarrow>
               (Some (status_reply ''NATIVE_DISPATCH_ACKED'' (r_generation (su_route su)) @
                      [(lit ''event_id'', JStr event_id)]), s\<lparr>sv_courier := Some q'\<rparr>))
      | _ \<Rightarrow> (None, s))"

definition serve_peek :: "pyenv \<Rightarrow> surroundings \<Rightarrow> server \<Rightarrow> dict option \<times> server" where
  "serve_peek E su s =
     (case sv_courier s of
        None \<Rightarrow> (None, s)
      | Some q \<Rightarrow>
          (case peek E q of
             Inl _ \<Rightarrow> (None, s)
           | Inr ms \<Rightarrow>
               (case peek_response (r_generation (su_route su)) ms of JObj d \<Rightarrow> (Some d, s) | _ \<Rightarrow> (None, s))))"

fun str_list :: "json list \<Rightarrow> str list option" where
  "str_list [] = Some []"
| "str_list (JStr s # xs) = map_option ((#) s) (str_list xs)"
| "str_list (_ # xs) = None"

definition serve_ack :: "surroundings \<Rightarrow> server \<Rightarrow> json option \<Rightarrow> dict option \<times> server" where
  "serve_ack su s identifiers =
     (case (sv_courier s, identifiers) of
        (Some q, Some (JArr xs)) \<Rightarrow>
          (case str_list xs of
             None \<Rightarrow> (None, s)
           | Some ids \<Rightarrow>
               (case acknowledge (su_now su) q ids of
                  Inl _ \<Rightarrow> (None, s)
                | Inr q' \<Rightarrow>
                    (Some [(lit ''schema_version'', JInt 1), (lit ''status'', JStr (lit ''ACKNOWLEDGED'')),
                           (lit ''event_ids'', JArr (map JStr ids))], s\<lparr>sv_courier := Some q'\<rparr>)))
      | _ \<Rightarrow> (None, s))"

text \<open>One connection, after its frame was read and parsed. \<open>None\<close> closes it without an answer.\<close>

definition serve_request :: "pyenv \<Rightarrow> surroundings \<Rightarrow> server \<Rightarrow> json \<Rightarrow> dict option \<times> server" where
  "serve_request E su s raw =
     (case raw of
        JObj request \<Rightarrow>
          let g = r_generation (su_route su); operation = field_is request ''operation'' in
          if \<not> field_eq_int request ''schema_version'' SCHEMA_VERSION \<or> \<not> field_is request ''generation'' g
          then (None, s)
          else if operation (lit ''bootstrap'') then
            (if su_emits su then (Some (status_reply ''BOOTSTRAPPED'' g), s\<lparr>sv_bootstrapped := True\<rparr>) else (None, s))
          else if operation (lit ''inspect'') then
            (if \<not> sv_bootstrapped s then Some (status_reply ''UNAVAILABLE'' g)
             else case jget request ''event_id'' of Some (JStr i) \<Rightarrow> inspect_reply su s i | _ \<Rightarrow> None, s)
          else if operation (lit ''health'') then
            (if \<not> sv_bootstrapped s then Some (status_reply ''UNAVAILABLE'' g)
             else case courier_health E (su_route su) (sv_courier s) (su_agent su) (health_of su request) of
                    Inl _ \<Rightarrow> None | Inr d \<Rightarrow> Some d, s)
          else if operation (lit ''shutdown'') then
            (Some [(lit ''schema_version'', JInt 1), (lit ''status'', JStr (lit ''STOPPED''))], s\<lparr>sv_stopping := True\<rparr>)
          else if operation (lit ''accept'') then
            (case (jget request ''event_id'', jget request ''message'') of
               (Some (JStr i), Some (JStr m)) \<Rightarrow> serve_accept E su s i m
             | _ \<Rightarrow> (None, s))
          else if operation (lit ''native_dispatch'') then
            (case jget request ''event_id'' of Some (JStr i) \<Rightarrow> serve_dispatch su s i | _ \<Rightarrow> (None, s))
          else if operation (lit ''native_dispatch_ack'') then
            (case jget request ''event_id'' of Some (JStr i) \<Rightarrow> serve_dispatch_ack su s i | _ \<Rightarrow> (None, s))
          else if operation (lit ''peek'') then serve_peek E su s
          else if operation (lit ''ack'') then serve_ack su s (jget request ''event_ids'')
          else (None, s)
      | _ \<Rightarrow> (None, s))"

text \<open>A connection beyond the serving seats: only a complete accept frame gets an answer.\<close>

definition refuse_request :: "surroundings \<Rightarrow> json \<Rightarrow> dict option" where
  "refuse_request su raw =
     (case raw of
        JObj request \<Rightarrow>
          if \<not> field_eq_int request ''schema_version'' SCHEMA_VERSION \<or>
             \<not> field_is request ''generation'' (r_generation (su_route su)) \<or>
             \<not> field_is request ''operation'' (lit ''accept'')
          then None
          else
            (case (jget request ''event_id'', jget request ''message'') of
               (Some (JStr i), Some (JStr _)) \<Rightarrow> refusal su i COURIER_BUSY
             | _ \<Rightarrow> None)
      | _ \<Rightarrow> None)"

text \<open>A sequence of requests, each with what it meets.\<close>

fun serve_all :: "pyenv \<Rightarrow> server \<Rightarrow> (surroundings \<times> json) list \<Rightarrow> dict option list \<times> server" where
  "serve_all E s [] = ([], s)"
| "serve_all E s ((su, raw) # rs) =
     (case serve_request E su s raw of (a, s1) \<Rightarrow> (case serve_all E s1 rs of (as, s2) \<Rightarrow> (a # as, s2)))"

section \<open>What the queue keeps\<close>

definition queued :: "courier option \<Rightarrow> pending" where
  "queued c = (case c of None \<Rightarrow> [] | Some q \<Rightarrow> c_pending q)"

lemma pop_admitted:
  "map_of (c_pending q) i = None \<Longrightarrow> pop_key i (c_pending q @ [(i, b, t)]) = c_pending q"
  by (simp add: pop_key_absent map_of_pending) (auto simp: pop_key_def filter_id_conv map_of_pending)

lemma accept_outcomes:
  assumes "accept now now' oc q i m = (v, q')" "i \<notin> c_handed_off q"
  shows "case v of
      Inr d \<Rightarrow> (\<exists>t. (i, m, t) \<in> set (c_pending q')) \<or> i \<in> fst ` set (c_retired q')
    | Inl e \<Rightarrow> is_chat_error e \<longrightarrow> \<not> is_unknown_delivery e \<longrightarrow> c_pending q' = c_pending q"
proof (cases "bind (valid_uuid i ''event id'') (\<lambda>i. bind (bounded_message m) (\<lambda>b. Inr (i, b)))")
  case (Inl e)
  then show ?thesis using assms by (auto simp: accept_def accept_begin_def)
next
  case (Inr p)
  then have p: "p = (i, m)" by (auto simp: res_simps valid_simps)
  have mem: "map_of (c_pending q) i = Some (m, t) \<Longrightarrow> \<exists>t. (i, m, t) \<in> set (c_pending q)" for t
    by (auto dest: map_of_SomeD)
  show ?thesis
    using assms Inr p mem pop_admitted [of q i m] retire_event_retired
    by (auto simp: accept_def accept_begin_def accept_end_def Let_def settle_def admit_def conflict_error_def full_error_def
        split: option.splits if_splits prod.splits) blast+
qed

text \<open>The report of a failed delivery, and what a sender makes of a report.\<close>

lemma delivery_report_cases:
  assumes "delivery_report p i e = Inr d"
  shows "is_unknown_delivery e \<and> (\<exists>g. d = unknown_report i (provider_str p) g) \<or>
    is_chat_error e \<and> \<not> is_unknown_delivery e \<and> (\<exists>t. d = rejected_report i (provider_str p) t)"
  using assms by (cases e) (auto simp: delivery_report_def)

lemma rejected_read:
  "pre_effect_error (rejected_report i p t) i p =
     (if t = [] \<or> list_ex (\<lambda>c. c = 13 \<or> c = 10 \<or> c = 0) t then None
      else case utf8_encode t of None \<Rightarrow> None | Some b \<Rightarrow> if 256 < length b then None else Some t)"
  by (simp add: pre_effect_error_def has_keys_def rejected_report_def field_eq_int_def field_is_def SCHEMA_VERSION_def)

lemma pre_effect_status:
  "pre_effect_error d i p = Some t \<Longrightarrow> jget d ''status'' = Some (JStr (lit ''PRE_EFFECT_REJECTED''))"
  by (auto simp: pre_effect_error_def field_is_def split: if_splits option.splits json.splits)

lemma diagnostic_status:
  "unknown_delivery_diagnostic d i p = Some t \<Longrightarrow> jget d ''status'' = Some (JStr (lit ''UNKNOWN_DELIVERY''))"
  by (auto simp: unknown_delivery_diagnostic_def field_is_def split: if_splits option.splits json.splits)

lemma report_status:
  "jget (accepted_report i al p) ''status'' = Some (JStr (lit ''TRANSPORT_ACCEPTED''))"
  "jget (rejected_report i p t) ''status'' = Some (JStr (lit ''PRE_EFFECT_REJECTED''))"
  "jget (unknown_report i p g) ''status'' = Some (JStr (lit ''UNKNOWN_DELIVERY''))"
  "jget (accepted c i p) ''status'' = Some (JStr (lit ''TRANSPORT_ACCEPTED''))"
  by (simp_all add: accepted_report_def rejected_report_def unknown_report_def accepted_def)

lemma accept_answers: "accept now now' oc q i m = (Inr d, q') \<Longrightarrow> \<exists>c p. d = accepted c i p"
  by (auto simp: accept_def accept_begin_def accept_end_def Let_def res_simps valid_simps
      split: option.splits if_splits prod.splits sum.splits admission.splits)

lemma refusal_cases:
  "refusal su i t = a \<Longrightarrow> a = None \<or> a = Some (rejected_report i (provider_str (r_provider (su_route su))) t)"
  by (auto simp: refusal_def valid_simps split: sum.splits)

text \<open>Only an admitted accept can add to the queue.\<close>

lemma acknowledge_subset: "acknowledge now q ids = Inr q' \<Longrightarrow> set (c_pending q') \<subseteq> set (c_pending q)"
  by (auto simp: acknowledge_iff fold_ack_fields)

lemma serve_other_subset:
  "serve_dispatch su s i = (a, s') \<Longrightarrow> queued (sv_courier s') = queued (sv_courier s)"
  "serve_dispatch_ack su s i = (a, s') \<Longrightarrow> set (queued (sv_courier s')) \<subseteq> set (queued (sv_courier s))"
  "serve_peek E su s = (a, s') \<Longrightarrow> s' = s"
  "serve_ack su s js = (a, s') \<Longrightarrow> set (queued (sv_courier s')) \<subseteq> set (queued (sv_courier s))"
  by (auto simp: serve_dispatch_def serve_dispatch_ack_def serve_peek_def serve_ack_def queued_def
      split: provider.splits option.splits sum.splits prod.splits json.splits if_splits
      dest: dispatch_inv(3) acknowledge_subset [THEN subsetD])

definition accepts :: "dict option \<Rightarrow> bool" where
  "accepts a \<longleftrightarrow> (case a of None \<Rightarrow> False | Some d \<Rightarrow> field_is d ''status'' (lit ''TRANSPORT_ACCEPTED''))"

lemma put_mode_status: "jget (put_mode h m k d) ''status'' = jget d ''status''"
  by (simp add: put_mode_def Let_def)

lemma only_if_status: "(\<And>d. jget (f d) k = jget d k) \<Longrightarrow> jget (only_if b f d) k = jget d k"
  by (simp add: only_if_def)

lemma health_status:
  assumes "courier_health E r c ag h = Inr d"
  shows "\<not> accepts (Some d)"
proof -
  have "jget d ''status'' = Some (JStr (lit ''READY'')) \<or> jget d ''status'' = Some (JStr (lit ''UNAVAILABLE''))"
  proof (cases "if r_provider r = Claude then bind ag (\<lambda>a. claude_alias E (r_device r) (r_project r) a) else Inr (r_alias r)")
    case (Inl e)
    with assms show ?thesis by (auto simp: courier_health_def split: if_splits)
  next
    case (Inr al)
    show ?thesis
      using assms unfolding courier_health_def Inr
      by (auto simp: Let_def only_if_status put_mode_status)
  qed
  then show ?thesis by (auto simp: accepts_def field_is_def)
qed

lemma serve_other_status:
  "serve_dispatch su s i = (a, s') \<Longrightarrow> \<not> accepts a" "serve_dispatch_ack su s i = (a, s') \<Longrightarrow> \<not> accepts a"
  "serve_peek E su s = (a, s') \<Longrightarrow> \<not> accepts a" "serve_ack su s js = (a, s') \<Longrightarrow> \<not> accepts a"
  by (auto simp: serve_dispatch_def serve_dispatch_ack_def serve_peek_def serve_ack_def status_reply_def peek_response_def
      accepts_def field_is_def split: provider.splits option.splits sum.splits prod.splits json.splits if_splits)

lemma inspect_status: "\<not> accepts (inspect_reply su s i)"
  by (auto simp: inspect_reply_def accepts_def field_is_def split: sum.splits option.splits)

lemma serve_other_flags:
  "serve_dispatch su s i = (a, s') \<Longrightarrow> sv_stopping s' = sv_stopping s"
  "serve_dispatch_ack su s i = (a, s') \<Longrightarrow> sv_stopping s' = sv_stopping s"
  "serve_ack su s js = (a, s') \<Longrightarrow> sv_stopping s' = sv_stopping s"
  "serve_accept E su s i m = (a, s') \<Longrightarrow> sv_stopping s' = sv_stopping s"
  by (auto simp: serve_dispatch_def serve_dispatch_ack_def serve_ack_def serve_accept_def
      split: provider.splits option.splits sum.splits prod.splits json.splits if_splits)

text \<open>The gates of a delivery.\<close>

definition gates_open :: "surroundings \<Rightarrow> server \<Rightarrow> bool" where
  "gates_open su s \<longleftrightarrow> sv_bootstrapped s \<and> \<not> sv_busy s \<and> \<not> sv_stopping s \<and> su_current su"

definition accept_request :: "surroundings \<Rightarrow> str \<Rightarrow> str \<Rightarrow> json \<Rightarrow> bool" where
  "accept_request su i m raw \<longleftrightarrow>
     (\<exists>d. raw = JObj d \<and> field_eq_int d ''schema_version'' SCHEMA_VERSION \<and>
        field_is d ''generation'' (r_generation (su_route su)) \<and> field_is d ''operation'' (lit ''accept'') \<and>
        field_is d ''event_id'' i \<and> field_is d ''message'' m)"

lemma serve_accept_closed:
  assumes "\<not> gates_open su s"
  shows "\<exists>t. serve_accept E su s i m = (refusal su i t, s)"
  using assms by (auto simp: serve_accept_def gates_open_def)

lemma serve_accept_open:
  "gates_open su s \<Longrightarrow> serve_accept E su s i m =
     (case courier_accept E (su_now su) (su_now' su) (su_route su) (su_calls su) (sv_courier s) i m of
        (v, c) \<Rightarrow> (case v of Inr d \<Rightarrow> Some d | Inl _ \<Rightarrow> None, s\<lparr>sv_courier := c\<rparr>))"
  by (auto simp: serve_accept_def gates_open_def split: prod.split sum.split)

lemma refusal_status: "\<not> accepts (refusal su i t)"
  by (auto simp: refusal_def accepts_def field_is_def report_status split: sum.splits)

lemma serve_request_other:
  assumes "serve_request E su s raw = (a, s')"
  shows "(\<exists>i m. accept_request su i m raw \<and> serve_accept E su s i m = (a, s')) \<or>
    (set (queued (sv_courier s')) \<subseteq> set (queued (sv_courier s)) \<and> \<not> accepts a \<and> (sv_stopping s \<longrightarrow> sv_stopping s'))"
proof (cases raw)
  case (JObj d)
  let ?op = "field_is d ''operation''"
  have none: "\<not> accepts None" by (simp add: accepts_def)
  have simple: "\<not> accepts (Some (status_reply t g))" if "t \<noteq> ''TRANSPORT_ACCEPTED''" for t g
    using that by (auto simp: accepts_def status_reply_def field_is_def)
  show ?thesis
  proof (cases "?op (lit ''accept'')")
    case True
    then have "\<not> ?op (lit ''bootstrap'')" "\<not> ?op (lit ''inspect'')" "\<not> ?op (lit ''health'')" "\<not> ?op (lit ''shutdown'')"
      by (auto simp: field_is_def)
    with True JObj assms none show ?thesis
      by (fastforce simp: serve_request_def Let_def accept_request_def field_is_def split: if_splits option.splits json.splits)
  next
    case False
    with JObj assms none simple inspect_status show ?thesis
      by (auto simp: serve_request_def Let_def accepts_def [of "Some [_, _]"] field_is_def [of "[_, _]"]
          split: if_splits option.splits json.splits sum.splits
          dest: serve_other_subset(2,4) [THEN subsetD] serve_other_subset(1,3) serve_other_status serve_other_flags health_status)
  qed
qed (use assms in \<open>auto simp: serve_request_def accepts_def\<close>)

lemma provider_delivery_queue:
  assumes "provider_delivery E now now' r calls c i m = (v, c')" "pc_daemon calls = None"
    and "\<And>q. c = Some q \<Longrightarrow> i \<notin> c_handed_off q"
  shows "case v of
      Inr d \<Rightarrow> field_is d ''status'' (lit ''TRANSPORT_ACCEPTED'') \<and>
        (r_provider r = Claude \<longrightarrow> pc_send calls = Inr ()) \<and>
        (r_provider r \<noteq> Claude \<longrightarrow>
           (\<exists>q'. c' = Some q' \<and> ((\<exists>t. (i, m, t) \<in> set (c_pending q')) \<or> i \<in> fst ` set (c_retired q'))))
    | Inl e \<Rightarrow> is_chat_error e \<longrightarrow> \<not> is_unknown_delivery e \<longrightarrow> queued c' = queued c"
proof (cases "bind (valid_uuid i ''event id'') (\<lambda>i. bind (bounded_message m) (\<lambda>b. Inr (i, b)))")
  case (Inl e)
  then show ?thesis using assms(1) by (auto simp: provider_delivery_def)
next
  case (Inr p)
  then have p: "p = (i, m)" by (auto simp: res_simps valid_simps)
  show ?thesis
  proof (cases "r_provider r = Claude")
    case True
    then have "v = claude_delivery E r calls i" "c' = c" using assms(1) Inr p by (auto simp: provider_delivery_def)
    with True show ?thesis
      by (auto simp: claude_delivery_def res_simps report_status field_is_def split: sum.splits)
  next
    case False
    show ?thesis
    proof (cases c)
      case None
      with False show ?thesis
        using assms(1,2) Inr p by (cases "r_provider r") (auto simp: provider_delivery_def fail_def)
    next
      case (Some q)
      obtain w q' where w: "accept now now' (pc_queue calls) q i m = (w, q')" by (cases "accept now now' (pc_queue calls) q i m")
      then have "v = w" "c' = Some q'"
        using assms(1,2) Inr p False Some by (cases "r_provider r"; auto simp: provider_delivery_def)+
      then show ?thesis
        using accept_outcomes [OF w assms(3) [OF Some]] accept_answers [of now now' "pc_queue calls" q i m] w False Some
        by (cases w) (auto simp: queued_def field_is_def report_status)
    qed
  qed
qed

section \<open>A sample server\<close>

definition sample_calls :: provider_calls where
  "sample_calls = \<lparr>pc_daemon = None, pc_queue = None, pc_agent = fail ''no'', pc_target_ref = fail ''no'',
     pc_agent_again = fail ''no'', pc_send = fail ''no''\<rparr>"

definition sample_surroundings :: surroundings where
  "sample_surroundings = \<lparr>su_route = sample_route\<lparr>r_provider := Codex\<rparr>, su_current = True, su_calls = sample_calls, su_emits = True,
     su_agent = fail ''no'', su_native_helper = False, su_tool_boundary_observed = False,
     su_acp_host_observed = False, su_boundary = [], su_version = [], su_incarnation = [], su_now = 0, su_now' = 0\<rparr>"

definition sample_server :: server where
  "sample_server = \<lparr>sv_bootstrapped = True, sv_stopping = False, sv_busy = False,
     sv_courier = Some (sample_courier\<lparr>c_native_queue := None, c_native_helper := False\<rparr>)\<rparr>"

definition sample_request :: "string \<Rightarrow> dict" where
  "sample_request operation =
     [(lit ''schema_version'', JInt 1), (lit ''generation'', JStr (r_generation sample_route)),
      (lit ''operation'', JStr (lit operation)), (lit ''event_id'', JStr (sample_uuid 51)),
      (lit ''message'', JStr (lit ''hello''))]"

lemma sample_fields:
  "field_eq_int (sample_request op) ''schema_version'' SCHEMA_VERSION"
  "field_is (sample_request op) ''generation'' (r_generation (su_route sample_surroundings))"
  "field_is (sample_request op) ''generation'' (r_generation sample_route)"
  "field_is (sample_request op) ''operation'' t \<longleftrightarrow> t = lit op"
  "jget (sample_request op) ''event_id'' = Some (JStr (sample_uuid 51))"
  "jget (sample_request op) ''message'' = Some (JStr (lit ''hello''))"
  by (auto simp: sample_request_def field_eq_int_def field_is_def SCHEMA_VERSION_def sample_surroundings_def)

lemma sample_accept:
  assumes "r_provider r = Codex" "pc_daemon calls = None"
  shows "\<exists>d q. courier_accept E 0 0 r calls (sv_courier sample_server) (sample_uuid 51) (lit ''hello'') = (Inr d, Some q) \<and>
    (sample_uuid 51, lit ''hello'', 0) \<in> set (c_pending q) \<and> field_is d ''status'' (lit ''TRANSPORT_ACCEPTED'')"
proof -
  have "valid_uuid (sample_uuid 51) f = Inr (sample_uuid 51)" "bounded_message (lit ''hello'') = Inr (lit ''hello'')" for f
    using sample_message by (simp_all add: valid_uuid_iff sample_simps bounded_message_iff)
  then show ?thesis
    using assms by (simp add: courier_accept_def provider_delivery_def sample_server_def accept_def accept_begin_def
        sample_courier_def queue_full_def admit_def accepted_def field_is_def)
qed

section \<open>Properties\<close>



text \<open>
  The gates. A request adds a message to the queue, or is answered \<open>TRANSPORT_ACCEPTED\<close>, only if it
  is a well formed accept of this route generation and the courier is bootstrapped, not stopping,
  not busy with another delivery, and its route is current; every other request leaves the queue as
  it was or smaller.
\<close>

theorem serve_request_gates:
  assumes "serve_request E su s raw = (a, s')"
    and "\<not> set (queued (sv_courier s')) \<subseteq> set (queued (sv_courier s)) \<or> accepts a"
  shows "\<exists>i m. accept_request su i m raw \<and> sv_bootstrapped s \<and> \<not> sv_stopping s \<and> \<not> sv_busy s \<and> su_current su \<and>
    (\<exists>v. courier_accept E (su_now su) (su_now' su) (su_route su) (su_calls su) (sv_courier s) i m =
       (v, sv_courier s') \<and> a = (case v of Inr d \<Rightarrow> Some d | Inl _ \<Rightarrow> None))"
proof -
  from serve_request_other [OF assms(1)] assms(2) obtain i m where
    i: "accept_request su i m raw" "serve_accept E su s i m = (a, s')" by blast
  have "gates_open su s"
    using serve_accept_closed [of su s E i m] i(2) assms(2) refusal_status by (auto simp: accepts_def)
  with i show ?thesis
    by (intro exI [of _ i] exI [of _ m]) (auto simp: serve_accept_open gates_open_def split: prod.splits)
qed

theorem serve_request_gates_witness:
  "\<exists>a s'. serve_request sample_env sample_surroundings sample_server (JObj (sample_request ''accept'')) = (a, s') \<and>
     accepts a \<and> (\<exists>i m. accept_request sample_surroundings i m (JObj (sample_request ''accept'')))"
proof -
  obtain d q where q: "courier_accept sample_env 0 0 (sample_route\<lparr>r_provider := Codex\<rparr>) sample_calls (sv_courier sample_server)
      (sample_uuid 51) (lit ''hello'') = (Inr d, Some q)" "field_is d ''status'' (lit ''TRANSPORT_ACCEPTED'')"
    using sample_accept [of "sample_route\<lparr>r_provider := Codex\<rparr>" sample_calls sample_env] by (auto simp: sample_calls_def)
  have r: "serve_request sample_env sample_surroundings sample_server (JObj (sample_request ''accept'')) =
      (Some d, sample_server\<lparr>sv_courier := Some q\<rparr>)"
    using q(1) by (simp add: serve_request_def Let_def sample_fields serve_accept_def sample_surroundings_def
        sample_server_def)
  have a: "accepts (Some d)" using q(2) by (simp add: accepts_def)
  from serve_request_gates [OF r] a r show ?thesis by blast
qed

text \<open>
  C19. Shutdown is final. After the courier has answered a shutdown, no sequence of requests, whatever
  they meet, adds a message to its queue or is answered \<open>TRANSPORT_ACCEPTED\<close>.
\<close>

theorem shutdown_is_final:
  assumes "field_eq_int d ''schema_version'' SCHEMA_VERSION" "field_is d ''generation'' (r_generation (su_route su))"
    and "field_is d ''operation'' (lit ''shutdown'')"
    and "serve_request E su s (JObj d) = (a, s1)" "serve_all E s1 rs = (as, s2)"
  shows "a = Some [(lit ''schema_version'', JInt 1), (lit ''status'', JStr (lit ''STOPPED''))] \<and>
    set (queued (sv_courier s2)) \<subseteq> set (queued (sv_courier s1)) \<and> \<not> list_ex accepts as"
proof -
  have keep: "serve_all E t xs = (bs, u) \<Longrightarrow> sv_stopping t \<Longrightarrow>
      set (queued (sv_courier u)) \<subseteq> set (queued (sv_courier t)) \<and> \<not> list_ex accepts bs" for t xs bs u
  proof (induction xs arbitrary: t bs)
    case (Cons x xs)
    obtain y r where x: "x = (y, r)" by (cases x)
    obtain b t1 bs' where b: "serve_request E y t r = (b, t1)" "serve_all E t1 xs = (bs', u)" "bs = b # bs'"
      using Cons.prems(1) by (auto simp: x split: prod.splits)
    have "\<not> gates_open y t" using Cons.prems(2) by (simp add: gates_open_def)
    from serve_request_other [OF b(1)] serve_accept_closed [OF this] refusal_status Cons.prems(2)
    have "set (queued (sv_courier t1)) \<subseteq> set (queued (sv_courier t)) \<and> \<not> accepts b \<and> sv_stopping t1"
      by (metis Pair_inject subset_refl)
    with Cons.IH [OF b(2)] b(3) show ?case by auto
  qed simp
  have "\<not> field_is d ''operation'' (lit ''bootstrap'')" "\<not> field_is d ''operation'' (lit ''inspect'')"
    "\<not> field_is d ''operation'' (lit ''health'')"
    using assms(3) by (auto simp: field_is_def)
  with assms(1-4) have "a = Some [(lit ''schema_version'', JInt 1), (lit ''status'', JStr (lit ''STOPPED''))]" "sv_stopping s1"
    by (auto simp: serve_request_def Let_def)
  with keep [OF assms(5)] show ?thesis by blast
qed

theorem shutdown_is_final_witness:
  "\<exists>a s1 as s2. serve_request sample_env sample_surroundings sample_server (JObj (sample_request ''shutdown'')) = (a, s1) \<and>
     serve_all sample_env s1 [(sample_surroundings, JObj (sample_request ''accept''))] = (as, s2) \<and> \<not> list_ex accepts as"
proof -
  obtain a s1 where r: "serve_request sample_env sample_surroundings sample_server (JObj (sample_request ''shutdown'')) = (a, s1)"
    by (cases "serve_request sample_env sample_surroundings sample_server (JObj (sample_request ''shutdown''))")
  obtain as s2 where l: "serve_all sample_env s1 [(sample_surroundings, JObj (sample_request ''accept''))] = (as, s2)"
    by (cases "serve_all sample_env s1 [(sample_surroundings, JObj (sample_request ''accept''))]")
  from shutdown_is_final [OF _ _ _ r l] r l show ?thesis by (simp add: sample_fields)
qed

end
