(* ===== verification/Peers.thy ===== *)
theory Peers
  imports External NativeHelper CourierServer
begin

text \<open>
  The peers of runtime.py: \<open>Target\<close> and what it discloses (\<open>public\<close>), the selection of a target by
  handle, alias or words (\<open>resolve_target\<close>), what a target promises about receiving
  (\<open>destination_receiving\<close>), and the enrolled endpoints as targets (\<open>external_targets\<close>).
\<close>

section \<open>Target\<close>

text \<open>\<^verbatim>\<open>Provider | Literal["external"]\<close>.\<close>

datatype peer_provider = Native provider | ExternalPeer

fun peer_str :: "peer_provider \<Rightarrow> str" where
  "peer_str (Native p) = provider_str p"
| "peer_str ExternalPeer = lit ''external''"

lemma peer_str_inject [simp]: "peer_str p = peer_str q \<longleftrightarrow> p = q"
proof -
  have "provider_str r \<noteq> lit ''external''" for r by (cases r) simp_all
  then show ?thesis by (cases p; cases q) (auto simp: eq_commute)
qed

record target =
  p_alias :: str
  p_provider :: peer_provider
  p_device :: str
  p_project :: str
  p_generation :: str
  p_session_key :: str
  p_remote :: bool
  p_session_id :: "str option"
  p_cwd :: "str option"
  p_pid :: "int option"
  p_tailnet_address :: "str option"
  p_tailnet_node_id :: "str option"
  p_delivery_mode :: "str option"
  p_delivery_mechanism :: "str option"
  p_title :: "str option"
  p_current_boundary :: "str option"

text \<open>The options of \<open>public\<close>.\<close>

record disclosure =
  dc_delivery_mode :: bool
  dc_delivery_mechanism :: bool
  dc_handle :: bool
  dc_title :: bool
  dc_owning_daemon :: bool
  dc_tool_boundary :: bool
  dc_acp_host :: bool
  dc_current_boundary :: bool

text \<open>
  What of mode and mechanism an older reader may see: three fallbacks, each applied to the result
  of the one before.
\<close>

definition disclosed_mode :: "disclosure \<Rightarrow> str option \<times> str option \<Rightarrow> str option \<times> str option" where
  "disclosed_mode dc mm =
     (let mm1 = (if fst mm = Some (lit ''codex_daemon_input'') \<and> \<not> dc_owning_daemon dc
                 then (Some (lit ''codex_stop_bound''), Some (lit ''stop_bound'')) else mm);
          mm2 = (if fst mm1 = Some (lit ''devin_acp_hosted'') \<and> \<not> dc_acp_host dc
                 then (if snd mm1 = Some (lit ''devin_tool_boundary'')
                       then (Some (lit ''devin_tool_boundary''), Some (lit ''devin_tool_boundary''))
                       else (Some (lit ''devin_stop_or_prompt_bound''), Some (lit ''devin_prompt_bound'')))
                 else mm1)
      in if fst mm2 = Some (lit ''devin_tool_boundary'') \<and> \<not> dc_tool_boundary dc
         then (Some (lit ''devin_stop_or_prompt_bound''), Some (lit ''devin_prompt_bound'')) else mm2)"

definition or_unknown :: "str option \<Rightarrow> str" where
  "or_unknown x = (case x of None \<Rightarrow> lit ''unknown'' | Some s \<Rightarrow> s)"

definition public :: "disclosure \<Rightarrow> str option \<Rightarrow> target \<Rightarrow> (str \<times> str) list" where
  "public dc handle t =
     (let mm = disclosed_mode dc (p_delivery_mode t, p_delivery_mechanism t) in
      [(lit ''alias'', p_alias t), (lit ''provider'', peer_str (p_provider t)), (lit ''device'', p_device t),
       (lit ''project'', p_project t), (lit ''status'', lit ''available'')] @
      (if dc_handle dc then [(lit ''handle'', case handle of None \<Rightarrow> p_session_key t | Some h \<Rightarrow> h)] else []) @
      (case p_title t of Some n \<Rightarrow> if dc_title dc then [(lit ''title'', n)] else [] | None \<Rightarrow> []) @
      (if dc_delivery_mode dc
       then [(lit ''delivery_mode'', or_unknown (fst mm))] @
            (if dc_delivery_mechanism dc then [(lit ''delivery_mechanism'', or_unknown (snd mm))] else [])
       else []) @
      (case p_current_boundary t of
         Some b \<Rightarrow> if dc_current_boundary dc then [(lit ''current_boundary'', b)] else []
       | None \<Rightarrow> []))"

section \<open>Selecting a target\<close>

text \<open>\<^verbatim>\<open>re.findall(r"[^\W_]+", s)\<close>: the maximal runs of word characters.\<close>

fun word_runs :: "(nat \<Rightarrow> bool) \<Rightarrow> str \<Rightarrow> str \<Rightarrow> str list" where
  "word_runs p acc [] = (if acc = [] then [] else [rev acc])"
| "word_runs p acc (c # s) =
     (if p c then word_runs p (c # acc) s
      else if acc = [] then word_runs p [] s
      else rev acc # word_runs p [] s)"

definition words_of :: "pyenv \<Rightarrow> str \<Rightarrow> str list" where
  "words_of E s = word_runs (is_token_char E) [] (casefold E s)"

definition same_alias :: "pyenv \<Rightarrow> target \<Rightarrow> str \<Rightarrow> bool" where
  "same_alias E t query \<longleftrightarrow> casefold E (p_alias t) = casefold E query"

definition target_matches :: "pyenv \<Rightarrow> target \<Rightarrow> str \<Rightarrow> bool" where
  "target_matches E t query \<longleftrightarrow>
     same_alias E t query \<or>
     words_of E query \<noteq> [] \<and> list_all (\<lambda>w. w \<in> set (words_of E (p_alias t))) (words_of E query)"

fun comma_join :: "str list \<Rightarrow> str" where
  "comma_join [] = []"
| "comma_join [s] = s"
| "comma_join (s # ss) = s @ lit '', '' @ comma_join ss"

text \<open>One match is returned; none or several raise.\<close>

definition only_one :: "('a list \<Rightarrow> str) \<Rightarrow> 'a list \<Rightarrow> 'a res" where
  "only_one message ts = (case ts of [t] \<Rightarrow> Inr t | _ \<Rightarrow> Inl (ChatError (message ts)))"

definition resolve_target :: "pyenv \<Rightarrow> target list \<Rightarrow> str \<Rightarrow> target res" where
  "resolve_target E targets query =
     (let handle_matches = filter (\<lambda>t. p_session_key t = query) targets;
          exact_matches = filter (\<lambda>t. same_alias E t query) targets;
          candidates = (\<lambda>ts. comma_join (map p_alias ts)) in
      if strip query = [] \<or> 160 < length query then fail ''target query is invalid''
      else if handle_matches \<noteq> [] then only_one (\<lambda>_. lit ''target handle is unavailable'') handle_matches
      else if hex64 query then fail ''target handle is unavailable''
      else if exact_matches \<noteq> []
      then only_one (\<lambda>ts. lit ''target is ambiguous or unavailable: '' @ candidates ts) exact_matches
      else only_one (\<lambda>ts. lit ''target is ambiguous or unavailable'' @
                       (if candidates ts = [] then [] else lit '': '' @ candidates ts))
             (filter (\<lambda>t. target_matches E t query) targets))"

section \<open>What a target promises about receiving\<close>

definition receiving_qualification :: "str option \<Rightarrow> str option \<Rightarrow> bool option \<times> bool option \<times> str" where
  "receiving_qualification mode mechanism =
     (if mode = Some (lit ''codex_daemon_input'') \<and> mechanism = Some (lit ''owning_daemon'')
      then (Some True, Some True, lit ''while_idle'')
      else if mode = Some (lit ''devin_acp_hosted'') \<and>
              (mechanism = Some (lit ''devin_acp_host'') \<or> mechanism = Some (lit ''devin_tool_boundary''))
      then (Some True, Some (mechanism = Some (lit ''devin_tool_boundary'')), lit ''while_idle'')
      else if mode = Some (lit ''devin_tool_boundary'') \<and> mechanism = Some (lit ''devin_tool_boundary'')
      then (Some False, Some True, lit ''next_turn'')
      else if mode = Some (lit ''codex_stop_bound'') \<or> mode = Some (lit ''devin_stop_or_prompt_bound'')
      then (Some False, Some False, lit ''next_turn'')
      else (None, None, lit ''unknown''))"

text \<open>\<open>None\<close> above is the literal \<^verbatim>\<open>"unknown"\<close>.\<close>

definition tri :: "bool option \<Rightarrow> json" where
  "tri b = (case b of None \<Rightarrow> JStr (lit ''unknown'') | Some v \<Rightarrow> JBool v)"

text \<open>\<^verbatim>\<open>mode or "unknown"\<close>: an empty text is false too.\<close>

definition text_or_unknown :: "str option \<Rightarrow> str" where
  "text_or_unknown x = (case x of None \<Rightarrow> lit ''unknown'' | Some s \<Rightarrow> if s = [] then lit ''unknown'' else s)"

definition destination_receiving :: "target option \<Rightarrow> dict" where
  "destination_receiving target =
     (let mode = Option.bind target p_delivery_mode;
          mechanism = Option.bind target p_delivery_mechanism;
          q = receiving_qualification mode mechanism;
          parked_wake = fst q; qualified_input = fst (snd q);
          boundary = Option.bind target p_current_boundary;
          active =
            (if boundary = Some (lit ''next_prompt_custom_subagent'') \<or>
                boundary = Some (lit ''next_prompt_unobserved_launch'') then JBool False
             else if boundary = Some (lit ''root_tools_only'') \<and> qualified_input = Some True
             then JStr (lit ''limited'')
             else tri qualified_input)
      in [(lit ''mode'', JStr (text_or_unknown mode)), (lit ''mechanism'', JStr (text_or_unknown mechanism)),
          (lit ''parked_wake'', tri parked_wake), (lit ''active_turn_input'', active),
          (lit ''delivery_observation'', JStr (lit ''not_observed''))] @
         (case boundary of None \<Rightarrow> [] | Some b \<Rightarrow> [(lit ''current_boundary'', JStr b)]))"

section \<open>Enrolled endpoints as targets\<close>

definition endpoint_target :: "pyenv \<Rightarrow> endpoint \<Rightarrow> target" where
  "endpoint_target E x =
     \<lparr>p_alias = endpoint_alias E x, p_provider = ExternalPeer, p_device = x_device x, p_project = x_name x,
      p_generation = x_generation x, p_session_key = endpoint_key E x, p_remote = False, p_session_id = None,
      p_cwd = None, p_pid = None, p_tailnet_address = None, p_tailnet_node_id = None, p_delivery_mode = None,
      p_delivery_mechanism = None, p_title = Some (x_name x), p_current_boundary = None\<rparr>"

definition external_targets :: "pyenv \<Rightarrow> int \<Rightarrow> rat \<Rightarrow> dir \<Rightarrow> str option \<Rightarrow> target list res" where
  "external_targets E uid now d handle =
     bind (endpoints E uid d) (\<lambda>xs.
     Inr (map (endpoint_target E)
       (filter (\<lambda>x. endpoint_available E now x \<and> x_callback_ref x \<noteq> None \<and>
                    (handle = None \<or> handle = Some (endpoint_key E x))) xs)))"

text \<open>\<open>native\<close> is what \<open>local_targets\<close> returned for that handle.\<close>

definition local_endpoint_targets :: "pyenv \<Rightarrow> int \<Rightarrow> rat \<Rightarrow> dir \<Rightarrow> target list \<Rightarrow> str option \<Rightarrow> target list res" where
  "local_endpoint_targets E uid now d native handle =
     (if handle \<noteq> None \<and> native \<noteq> [] then Inr native
      else
        case external_targets E uid now d handle of
          Inr ts \<Rightarrow> Inr (native @ ts)
        | Inl e \<Rightarrow> if is_chat_error e then Inr native else Inl e)"

section \<open>Properties of the selection\<close>

lemma only_one_Inr [simp]: "only_one message ts = Inr t \<longleftrightarrow> ts = [t]"
  by (cases ts rule: remdups_adj.cases) (auto simp: only_one_def)

lemma only_one_Inl: "only_one message ts = Inl x \<Longrightarrow> \<exists>m. x = ChatError m"
  by (cases ts rule: remdups_adj.cases) (auto simp: only_one_def)

text \<open>The order of preference as one list: the targets that decide the query.\<close>

definition deciding :: "pyenv \<Rightarrow> target list \<Rightarrow> str \<Rightarrow> target list" where
  "deciding E targets query =
     (let handles = filter (\<lambda>t. p_session_key t = query) targets;
          exact = filter (\<lambda>t. same_alias E t query) targets
      in if handles \<noteq> [] \<or> hex64 query then handles
         else if exact \<noteq> [] then exact
         else filter (\<lambda>t. target_matches E t query) targets)"

lemma resolve_target_deciding:
  "resolve_target E targets query = Inr t \<longleftrightarrow>
     strip query \<noteq> [] \<and> length query \<le> 160 \<and> deciding E targets query = [t]"
  by (auto simp: resolve_target_def deciding_def Let_def)

lemma resolve_target_errors: "resolve_target E targets query = Inl e \<Longrightarrow> \<exists>m. e = ChatError m"
  by (auto simp: resolve_target_def Let_def split: if_splits dest: only_one_Inl)

text \<open>
  Selecting a peer never guesses. \<open>resolve_target\<close> returns a target exactly when the query is
  well formed and the first of these that applies has exactly that one member: the targets with
  this handle (also when the query merely looks like a handle), the targets with this alias up to
  case, the targets whose alias has every word of the query. Every other outcome is a \<open>ChatError\<close>.
\<close>

theorem resolve_target_spec:
  "(resolve_target E targets query = Inr t \<longleftrightarrow>
      strip query \<noteq> [] \<and> length query \<le> 160 \<and>
      (let handles = filter (\<lambda>t. p_session_key t = query) targets;
           exact = filter (\<lambda>t. same_alias E t query) targets
       in (if handles = [] \<and> \<not> hex64 query
           then (if exact = [] then filter (\<lambda>t. target_matches E t query) targets else exact)
           else handles) = [t])) \<and>
   (\<exists>r. resolve_target E targets query = Inr r \<or> (\<exists>m. resolve_target E targets query = Inl (ChatError m)))"
  using resolve_target_deciding [of E targets query t] resolve_target_errors [of E targets query]
  by (cases "resolve_target E targets query") (auto simp: deciding_def Let_def)

section \<open>What is disclosed\<close>

text \<open>
  A reader that asked for none of the newer layers only sees modes that older readers know, and
  nothing stronger than the target has: a fallback never promises parked wake or active input.
\<close>

lemma disclosed_mode_conservative:
  assumes "\<not> dc_owning_daemon dc" "\<not> dc_acp_host dc" "\<not> dc_tool_boundary dc"
  shows "fst (disclosed_mode dc mm) \<notin> {Some (lit ''codex_daemon_input''), Some (lit ''devin_acp_hosted''),
      Some (lit ''devin_tool_boundary'')}"
    "disclosed_mode dc mm = mm \<or> fst (receiving_qualification (fst (disclosed_mode dc mm)) (snd (disclosed_mode dc mm))) = Some False"
  using assms by (auto simp: disclosed_mode_def Let_def receiving_qualification_def)

text \<open>A restriction of the receiver never upgrades what the mode qualifies.\<close>

lemma receiving_active_input:
  "jget (destination_receiving (Some t)) ''active_turn_input'' = Some (JBool True) \<Longrightarrow>
   fst (snd (receiving_qualification (p_delivery_mode t) (p_delivery_mechanism t))) = Some True"
  by (auto simp: destination_receiving_def Let_def tri_def split: option.splits if_splits)

end
