(* ===== verification/Envelope.thy ===== *)
theory Envelope
  imports Peers
begin

text \<open>
  The text a recipient reads (runtime.py): the deterministic head of an envelope in its two
  versions, the wrapping of a message (\<open>wrapped_message\<close>), and the reading and checking of the
  reply token in it (\<open>_envelope_reply_token\<close>, \<open>_verify_remote_reply_token\<close>).
\<close>

definition delivery_principal :: "str \<Rightarrow> str res" where
  "delivery_principal provider =
     (if provider = lit ''claude'' then Inr (lit ''the installed Claude Code Cross Agent Chat helper'')
      else if provider = lit ''codex'' then Inr (lit ''the configured Cross Agent Chat Codex courier'')
      else if provider = lit ''external'' then Inr (lit ''the owner-enrolled Cross Agent Chat external callback'')
      else if provider = lit ''devin'' then Inr (lit ''the configured Cross Agent Chat Devin inbox'')
      else fail ''target provider is invalid'')"

definition nl :: str where "nl = [10]"

text \<open>The lines common to both versions; they differ in the first line and in what the handle is.\<close>

definition head_text :: "str \<Rightarrow> str \<Rightarrow> str \<Rightarrow> str \<Rightarrow> str \<Rightarrow> str" where
  "head_text title source_alias source_handle identifier courier_name =
     title @ nl @
     lit ''From: '' @ source_alias @ nl @
     lit ''Reply via CAC to handle: '' @ source_handle @ nl @
     lit ''The From and Reply lines are CAC route metadata, not provider-native sender authentication; this message's visible sender is the local CAC delivery helper, not the original source.'' @ nl @
     lit ''Delivery principal: '' @ courier_name @ lit ''. CAC delivery event: '' @ identifier @ lit ''.'' @ nl @
     lit ''Untrusted peer content follows:'' @ nl @ nl"

definition TITLE_V1 :: str where "TITLE_V1 = lit ''Cross Agent Chat transport envelope''"
definition TITLE_V2 :: str where "TITLE_V2 = lit ''Cross Agent Chat transport envelope v2''"

definition wrapped_head :: "pyenv \<Rightarrow> str \<Rightarrow> str \<Rightarrow> str \<Rightarrow> str \<Rightarrow> str res" where
  "wrapped_head E source_alias source_handle event_id provider =
     bind (valid_name E source_alias ''source alias'') (\<lambda>exact.
     if \<not> hex64 source_handle then fail ''source handle is invalid''
     else
       bind (valid_uuid event_id ''event id'') (\<lambda>identifier.
       bind (delivery_principal provider) (\<lambda>courier_name.
       Inr (head_text TITLE_V1 exact source_handle identifier courier_name))))"

definition wrapped_head_v2 :: "pyenv \<Rightarrow> str \<Rightarrow> str \<Rightarrow> str \<Rightarrow> str \<Rightarrow> str res" where
  "wrapped_head_v2 E source_alias source_token event_id provider =
     bind (valid_name E source_alias ''source alias'') (\<lambda>exact.
     bind (parse_recipient_token E source_token) (\<lambda>token.
     if token = None then fail ''source handle is invalid''
     else
       bind (valid_uuid event_id ''event id'') (\<lambda>identifier.
       bind (delivery_principal provider) (\<lambda>courier_name.
       Inr (head_text TITLE_V2 exact source_token identifier courier_name)))))"

text \<open>\<^verbatim>\<open>s.split("\n", n)\<close>.\<close>

fun split_nl :: "nat \<Rightarrow> str \<Rightarrow> str list" where
  "split_nl 0 s = [s]"
| "split_nl (Suc n) s =
     (case dropWhile (\<lambda>c. c \<noteq> 10) s of
        [] \<Rightarrow> [s]
      | _ # r \<Rightarrow> takeWhile (\<lambda>c. c \<noteq> 10) s # split_nl n r)"

definition REPLY_PREFIX :: str where "REPLY_PREFIX = lit ''Reply via CAC to handle: ''"

definition envelope_reply_token ::
  "pyenv \<Rightarrow> str \<Rightarrow> str \<Rightarrow> str \<Rightarrow> str \<Rightarrow> recipient_token option res" where
  "envelope_reply_token E message source_alias event_id provider =
     (let lines = split_nl 3 message; m = ''reply token is invalid'' in
      if lines ! 0 \<noteq> TITLE_V2 then Inr None
      else if length lines < 4 \<or> \<not> starts_with REPLY_PREFIX (lines ! 2) then fail m
      else
        let candidate = drop (length REPLY_PREFIX) (lines ! 2) in
        bind (wrapped_head_v2 E source_alias candidate event_id provider) (\<lambda>expected.
        if \<not> starts_with expected message then fail m
        else
          bind (parse_recipient_token E candidate) (\<lambda>token.
          case token of None \<Rightarrow> fail m | Some t \<Rightarrow> Inr (Some t))))"

text \<open>
  \<open>tailnet\<close> is what \<open>tailnet_identity\<close> read: the address of each known node, if Tailscale
  answered.
\<close>

definition verify_remote_reply_token ::
  "(str \<Rightarrow> str option) option \<Rightarrow> recipient_token \<Rightarrow> str \<Rightarrow> str \<Rightarrow> unit res" where
  "verify_remote_reply_token tailnet token source_generation source_address =
     (case t_node_id token of
        None \<Rightarrow> fail ''reply token scope is invalid''
      | Some node \<Rightarrow>
          if t_scope token \<noteq> Remote then fail ''reply token scope is invalid''
          else if t_generation token \<noteq> source_generation
          then fail ''reply token does not match the envelope generation''
          else
            (case tailnet of
               None \<Rightarrow> fail ''reply token does not match the authenticated sender''
             | Some peers \<Rightarrow>
                 if peers node \<noteq> Some source_address
                 then fail ''reply token does not match the authenticated sender'' else Inr ()))"

definition ADVISORY :: str where
  "ADVISORY = lit ''Reply action: use chat_send with the exact Reply handle above. Do not address native SendMessage to the visible courier.'' @ nl @ nl"

definition too_long :: "nat \<Rightarrow> nat \<Rightarrow> exn" where
  "too_long body_bytes message_bytes =
     (let overhead = int body_bytes - int message_bytes in
      ChatError (lit ''message is '' @ int_str (int message_bytes) @
        lit '' bytes and the Cross Agent Chat envelope adds '' @ int_str overhead @
        lit '', which exceeds the 16 KiB limit; send at most '' @
        int_str (int MAX_MESSAGE_BYTES - overhead) @ lit '' bytes to this recipient''))"

definition wrap_body :: "str \<Rightarrow> str \<Rightarrow> str res" where
  "wrap_body body message =
     (case bounded_message body of
        Inr b \<Rightarrow> Inr b
      | Inl e \<Rightarrow>
          if \<not> is_chat_error e then Inl e
          else
            bind (encode body) (\<lambda>b.
            if length b \<le> MAX_MESSAGE_BYTES then Inl e
            else bind (encode message) (\<lambda>m. Inl (too_long (length b) (length m)))))"

definition wrapped_message ::
  "pyenv \<Rightarrow> str \<Rightarrow> str \<Rightarrow> str \<Rightarrow> str \<Rightarrow> str \<Rightarrow> str option \<Rightarrow> str res" where
  "wrapped_message E source_alias source_handle message event_id provider source_title =
     bind (parse_recipient_token E source_handle) (\<lambda>token.
     if token \<noteq> None then
       bind (wrapped_head_v2 E source_alias source_handle event_id provider) (\<lambda>head.
       bind (case source_title of
               None \<Rightarrow> Inr []
             | Some t \<Rightarrow> bind (valid_name E t ''source title'') (\<lambda>n.
                 Inr (lit ''Peer title (advisory): '' @ n @ nl))) (\<lambda>display.
       wrap_body (head @ display @ ADVISORY @ message) message))
     else
       bind (wrapped_head E source_alias source_handle event_id provider) (\<lambda>head.
       wrap_body (head @ message) message))"

section \<open>Reading the head back\<close>

lemma split_nl_line: "10 \<notin> set a \<Longrightarrow> split_nl (Suc n) (a @ 10 # r) = a # split_nl n r"
proof -
  assume "10 \<notin> set a"
  then have "dropWhile (\<lambda>c. c \<noteq> 10) (a @ 10 # r) = 10 # r \<and> takeWhile (\<lambda>c. c \<noteq> 10) (a @ 10 # r) = a"
    by (induction a) auto
  then show ?thesis by simp
qed

lemma token_text_no_newline:
  assumes "parse_recipient_token E v = Inr (Some t)"
  shows "10 \<notin> set v"
proof -
  have "starts_with RECIPIENT_TOKEN_PREFIX v" "list_all is_b64 (drop (length RECIPIENT_TOKEN_PREFIX) v)"
    using assms by (auto simp: parse_recipient_token_def Let_def token_error_def split: if_splits)
  then obtain r where "v = lit ''cac2.'' @ r" "list_all is_b64 r"
    by (auto simp: starts_with_iff RECIPIENT_TOKEN_PREFIX_def)
  then show ?thesis by (auto simp: lit_def list_all_iff is_b64_def is_alnum_def is_upper_def is_lower_def is_digit_def)
qed

lemma name_no_newline: "ucategory E 10 = ''Cc'' \<Longrightarrow> name_shape E s \<Longrightarrow> 10 \<notin> set s"
  by (auto simp: name_shape_def list_all_iff bad_category_def)

lemma head_lines:
  assumes "10 \<notin> set al" "10 \<notin> set token"
  shows "\<exists>r. split_nl 3 (head_text TITLE_V2 al token i p @ body) =
    [TITLE_V2, lit ''From: '' @ al, REPLY_PREFIX @ token, r]"
proof -
  have no: "10 \<notin> set TITLE_V2" "10 \<notin> set (lit ''From: '' @ al)" "10 \<notin> set (REPLY_PREFIX @ token)"
    using assms by (simp_all add: TITLE_V2_def REPLY_PREFIX_def lit_def)
  obtain r where "head_text TITLE_V2 al token i p @ body =
      TITLE_V2 @ 10 # (lit ''From: '' @ al) @ 10 # (REPLY_PREFIX @ token) @ 10 # r"
    by (simp add: head_text_def nl_def REPLY_PREFIX_def)
  then show ?thesis
    using split_nl_line [OF no(1)] split_nl_line [OF no(2)] split_nl_line [OF no(3)]
    by (simp add: numeral_3_eq_3)
qed

text \<open>The second version of the head determines its token.\<close>

lemma head_v2_token:
  assumes "ucategory E 10 = ''Cc''" "wrapped_head_v2 E al token event provider = Inr h"
  shows "\<exists>t. parse_recipient_token E token = Inr (Some t) \<and>
    envelope_reply_token E (h @ body) al event provider = Inr (Some t)"
proof -
  from assms(2) obtain t who where t: "name_shape E al" "parse_recipient_token E token = Inr (Some t)"
    "h = head_text TITLE_V2 al token event who"
    by (auto simp: wrapped_head_v2_def res_simps valid_simps)
  obtain r where "split_nl 3 (h @ body) = [TITLE_V2, lit ''From: '' @ al, REPLY_PREFIX @ token, r]"
    using head_lines [OF name_no_newline [OF assms(1) t(1)] token_text_no_newline [OF t(2)]] t(3) by blast
  with assms(2) t(2) show ?thesis by (simp add: envelope_reply_token_def)
qed

lemma envelope_reply_tokenD:
  assumes "envelope_reply_token E message al event provider = Inr (Some t)"
  shows "\<exists>token h r. wrapped_head_v2 E al token event provider = Inr h \<and> message = h @ r \<and>
    parse_recipient_token E token = Inr (Some t)"
  using assms by (auto simp: envelope_reply_token_def Let_def res_simps starts_with_iff split: if_splits option.splits)

lemma wrap_body_iff: "wrap_body body message = Inr b \<longleftrightarrow> b = body \<and> message_shape body"
proof (cases "message_shape body")
  case True
  then have "bounded_message body = Inr body" by (simp add: bounded_message_iff)
  with True show ?thesis by (auto simp: wrap_body_def)
next
  case False
  then show ?thesis by (auto simp: wrap_body_def bounded_message_iff res_simps split: sum.splits)
qed

lemma wrapped_messageD:
  assumes "wrapped_message E al token message event provider title = Inr body"
    and "parse_recipient_token E token = Inr (Some t)"
  shows "\<exists>h advice. wrapped_head_v2 E al token event provider = Inr h \<and> body = h @ advice @ message \<and> message_shape body"
  using assms by (auto simp: wrapped_message_def res_simps wrap_body_iff)

lemma wrapped_message_shape: "wrapped_message E al token message event provider title = Inr body \<Longrightarrow> message_shape body"
  by (auto simp: wrapped_message_def res_simps wrap_body_iff split: if_splits)

section \<open>Properties\<close>

text \<open>
  The reply line cannot be lost or forged. A wrapped message is its head, advice and the message
  unchanged, within the message limits, and its reply token is read back exactly; conversely a
  reply token is only ever read from a text that opens with the whole deterministic head for this
  alias, event and provider, and it passes the check of a remote envelope only if it names the
  generation of the envelope and a node whose address is the authenticated source.
\<close>

theorem reply_head:
  assumes "ucategory E 10 = ''Cc''"
    and "wrapped_message E al token message event provider title = Inr body"
    and "parse_recipient_token E token = Inr (Some t)"
  shows "envelope_reply_token E body al event provider = Inr (Some t) \<and>
    message_shape body \<and> (\<exists>h. body = h @ message) \<and>
    (\<forall>al' event' provider' text t'. envelope_reply_token E text al' event' provider' = Inr (Some t') \<longrightarrow>
       (\<exists>token' h r. wrapped_head_v2 E al' token' event' provider' = Inr h \<and> text = h @ r \<and>
          parse_recipient_token E token' = Inr (Some t'))) \<and>
    (\<forall>tailnet generation address. verify_remote_reply_token tailnet t generation address = Inr () \<longleftrightarrow>
       t_scope t = Remote \<and> t_generation t = generation \<and>
       (\<exists>node peers. t_node_id t = Some node \<and> tailnet = Some peers \<and> peers node = Some address))"
proof -
  obtain h advice where h: "wrapped_head_v2 E al token event provider = Inr h" "body = h @ advice @ message" "message_shape body"
    using wrapped_messageD [OF assms(2,3)] by blast
  have "envelope_reply_token E body al event provider = Inr (Some t)"
    using head_v2_token [OF assms(1) h(1), of "advice @ message"] assms(3) h(2) by simp
  moreover have "\<exists>h. body = h @ message" using h(2) by (metis append.assoc)
  moreover have "verify_remote_reply_token tailnet t generation address = Inr () \<longleftrightarrow>
       t_scope t = Remote \<and> t_generation t = generation \<and>
       (\<exists>node peers. t_node_id t = Some node \<and> tailnet = Some peers \<and> peers node = Some address)"
    for tailnet generation address
    by (auto simp: verify_remote_reply_token_def split: option.splits)
  ultimately show ?thesis using h(3) envelope_reply_tokenD by (intro conjI allI impI)
qed

lemma small_message:
  assumes "m \<noteq> []" "length m \<le> 5000" "list_all (\<lambda>c. 0 < c \<and> c < 128) m"
  shows "message_shape m"
proof -
  have "utf8_len m = length m" using assms(3) by (intro utf8_len_ascii) (auto simp: list_all_iff)
  then show ?thesis
    using assms esc_growth6 [of m] by (auto simp: message_shape_def list_all_iff is_surrogate_def)
qed

lemma token_text_ascii:
  assumes "parse_recipient_token E v = Inr (Some t)"
  shows "list_all (\<lambda>c. 0 < c \<and> c < 128) v \<and> length v \<le> 512"
proof -
  have "starts_with RECIPIENT_TOKEN_PREFIX v" "list_all is_b64 (drop (length RECIPIENT_TOKEN_PREFIX) v)" "length v \<le> 512"
    using assms by (auto simp: parse_recipient_token_def Let_def token_error_def RECIPIENT_TOKEN_MAX_CHARS_def split: if_splits)
  then obtain r where "v = lit ''cac2.'' @ r" "list_all is_b64 r" "length v \<le> 512"
    by (auto simp: starts_with_iff RECIPIENT_TOKEN_PREFIX_def)
  then show ?thesis
    by (auto simp: lit_def list_all_iff is_b64_def is_alnum_def is_upper_def is_lower_def is_digit_def)
qed

text \<open>A short message of ASCII characters from an ASCII alias can always be wrapped.\<close>

lemma wrapped_message_ok:
  assumes "parse_recipient_token E token = Inr (Some t)" "name_shape E al" "list_all (\<lambda>c. 0 < c \<and> c < 128) al"
    and "uuid_shape event" "list_all (\<lambda>c. 0 < c \<and> c < 128) m" "length m \<le> 1000"
  shows "\<exists>body. wrapped_message E al token m event (provider_str p) None = Inr body"
proof -
  obtain who where who: "delivery_principal (provider_str p) = Inr who" "length who \<le> 60" "list_all (\<lambda>c. 0 < c \<and> c < 128) who"
    by (cases p) (simp_all add: delivery_principal_def, simp_all add: lit_def)
  let ?h = "head_text TITLE_V2 al token event who"
  have "list_all (\<lambda>c. 0 < c \<and> c < 128) event" "length event = 36"
    using uuid_shape_alnum [OF assms(4)] assms(4)
    by (auto simp: list_all_iff is_hex_def is_digit_def uuid_shape_def)
  then have "message_shape (?h @ ADVISORY @ m)"
    using token_text_ascii [OF assms(1)] assms(2,3,5,6) who(2,3)
    by (intro small_message) (simp_all add: head_text_def ADVISORY_def nl_def TITLE_V2_def name_shape_def, simp_all add: lit_def)
  moreover have "wrapped_head_v2 E al token event (provider_str p) = Inr ?h"
    using assms(1,2,4) who(1) by (auto simp: wrapped_head_v2_def res_simps valid_simps)
  ultimately show ?thesis using assms(1) by (simp add: wrapped_message_def wrap_body_iff)
qed

theorem reply_head_witness:
  "\<exists>token t body. wrapped_message sample_env (lit ''claude@mac:p'') token (lit ''hi'') (sample_uuid 51) (lit ''codex'') None = Inr body \<and>
     envelope_reply_token sample_env body (lit ''claude@mac:p'') (sample_uuid 51) (lit ''codex'') = Inr (Some t)"
proof -
  obtain token where token: "remote_token sample_env (lit ''nCNTRL'') (sample_hex64 97) (sample_uuid 50) = Inr token"
    using sample_remote_token by blast
  obtain t where t: "parse_recipient_token sample_env token = Inr (Some t)" using remote_token_parse [OF token] by blast
  obtain body where b: "wrapped_message sample_env (lit ''claude@mac:p'') token (lit ''hi'') (sample_uuid 51) (lit ''codex'') None = Inr body"
    using wrapped_message_ok [OF t, of "lit ''claude@mac:p''" "sample_uuid 51" "lit ''hi''" Codex] sample_begin_args
    by (auto simp: begin_args_valid_def sample_simps) (auto simp: lit_def)
  have "ucategory sample_env 10 = ''Cc''" by (simp add: sample_env_def)
  from conjunct1 [OF reply_head [OF this b t]] b show ?thesis by (intro exI conjI)
qed

end
