(* ===== verification/Callback.thy ===== *)
theory Callback
  imports External
begin

text \<open>
  external_callback.py: the owner-configured HTTPS delivery of a message to an enrolled endpoint. The
  parsing of URLs and IP addresses by the standard library is given as functions, and what the
  resolver, the TLS connection, the server and the worker process do as arguments; every decision
  the code takes on them is modelled. In this file \<open>OtherError\<close> stands for
  \<open>http.client.HTTPException\<close>, \<open>KeyError\<close>, \<open>TypeError\<close> and \<open>AttributeError\<close> as said at each use.
\<close>

section \<open>Configuration\<close>

text \<open>\<^verbatim>\<open>urllib.parse.urlsplit\<close>: the parts; reading the port may raise ValueError.\<close>

record url_parts =
  u_scheme :: str
  u_hostname :: "str option"
  u_port :: "int option res"
  u_username :: "str option"
  u_password :: "str option"
  u_path :: str
  u_query :: str
  u_fragment :: str

record url_env =
  url_split :: "str \<Rightarrow> url_parts res"
  is_ip_address :: "str \<Rightarrow> bool"
  is_global_address :: "str \<Rightarrow> bool"

definition printable_ascii :: "str \<Rightarrow> bool" where
  "printable_ascii s \<longleftrightarrow> list_all (\<lambda>c. 33 \<le> c \<and> c \<le> 126) s"

definition private_host :: "str \<Rightarrow> bool" where
  "private_host host \<longleftrightarrow>
     ends_with (lit ''.local'') host \<or> ends_with (lit ''.localhost'') host \<or> ends_with (lit ''.internal'') host \<or>
     host = lit ''localhost'' \<or> 46 \<notin> set host"

definition callback_destination :: "url_env \<Rightarrow> str \<Rightarrow> (str \<times> str) res" where
  "callback_destination U url =
     (let m = ''external callback destination is invalid'' in
      bind (except_chat is_value_error m (bind (url_split U url) (\<lambda>p. bind (u_port p) (\<lambda>port. Inr (p, port))))) (\<lambda>pp.
      let parts = fst pp; port = snd pp in
      case u_hostname parts of
        None \<Rightarrow> fail m
      | Some host \<Rightarrow>
          if 4096 < length url \<or> u_scheme parts \<noteq> lit ''https'' \<or> host = [] \<or> u_username parts \<noteq> None \<or>
             u_password parts \<noteq> None \<or> u_fragment parts \<noteq> [] \<or> \<not> (port = None \<or> port = Some 443) \<or>
             private_host host \<or> \<not> printable_ascii url
          then fail m
          else if is_ip_address U host then fail ''external callback must use a public HTTPS hostname''
          else
            let path = (if u_path parts = [] then lit ''/'' else u_path parts) in
            Inr (host, if u_query parts = [] then path else path @ lit ''?'' @ u_query parts)))"

record callback_config =
  cc_url :: str
  cc_bearer :: str

definition callback_config_post_init :: "url_env \<Rightarrow> str \<Rightarrow> str \<Rightarrow> callback_config res" where
  "callback_config_post_init U url bearer =
     bind (callback_destination U url) (\<lambda>_.
     if bearer = [] \<or> 4096 < length bearer \<or> \<not> printable_ascii bearer
     then fail ''external callback credential is invalid''
     else Inr \<lparr>cc_url = url, cc_bearer = bearer\<rparr>)"

definition read_callback :: "pyenv \<Rightarrow> url_env \<Rightarrow> dir \<Rightarrow> str \<Rightarrow> callback_config res" where
  "read_callback E U d n =
     (let m = ''external callback configuration is invalid'' in
      bind (except_chat (\<lambda>e. is_chat_error e \<or> is_os_error e \<or> is_value_error e)
              ''external callback configuration is unavailable or invalid''
              (bind (require_private_file d n) (\<lambda>_.
               case files d n of
                 None \<Rightarrow> Inl OSError
               | Some f \<Rightarrow>
                   if 16384 < length (data f)
                   then fail ''external callback configuration exceeds the bounded limit''
                   else loads_bytes E (data f)))) (\<lambda>value.
      case value of
        JObj items \<Rightarrow>
          if \<not> has_keys items [''url'', ''bearer''] then fail m
          else
            bind (get_str m items ''url'') (\<lambda>url.
            bind (get_str m items ''bearer'') (\<lambda>bearer.
            callback_config_post_init U url bearer))
      | _ \<Rightarrow> fail m))"

section \<open>The POST\<close>

datatype callback_outcome = Accepted | Rejected | Unknown

fun outcome_str :: "callback_outcome \<Rightarrow> str" where
  "outcome_str Accepted = lit ''TRANSPORT_ACCEPTED''"
| "outcome_str Rejected = lit ''PRE_EFFECT_REJECTED''"
| "outcome_str Unknown = lit ''UNKNOWN_DELIVERY''"

definition outcome_of :: "str \<Rightarrow> callback_outcome option" where
  "outcome_of s = find (\<lambda>t. outcome_str t = s) [Accepted, Rejected, Unknown]"

lemma outcome_of_str [simp]: "outcome_of s = Some t \<longleftrightarrow> s = outcome_str t"
  by (cases t) (auto simp: outcome_of_def split: if_splits)

text \<open>The addresses the resolver gave; duplicates are dropped in order.\<close>

definition public_addresses :: "url_env \<Rightarrow> str list res \<Rightarrow> str list res" where
  "public_addresses U resolved =
     bind resolved (\<lambda>addresses.
     if addresses = [] \<or> list_ex (\<lambda>a. \<not> is_global_address U a) addresses
     then fail ''external callback destination is not public''
     else Inr (rev (remdups (rev addresses))))"

text \<open>
  What one POST met: the resolver's answer, what connecting to an address did, and what sending the
  request and waiting for the status did.
\<close>

record https_run =
  hr_resolved :: "str \<Rightarrow> str list res"
  hr_connect :: "str \<Rightarrow> unit res"
  hr_request :: "unit res"
  hr_status :: "int res"

text \<open>\<^verbatim>\<open>except (ChatError, OSError, ValueError, http.client.HTTPException)\<close>.\<close>

definition is_https_error :: "exn \<Rightarrow> bool" where
  "is_https_error e \<longleftrightarrow> is_chat_error e \<or> is_os_error e \<or> is_value_error e \<or> e = OtherError"

text \<open>The part before \<open>attempted\<close> is set, and the part after.\<close>

definition https_open :: "url_env \<Rightarrow> https_run \<Rightarrow> callback_config \<Rightarrow> unit res" where
  "https_open U run config =
     bind (callback_destination U (cc_url config)) (\<lambda>hp.
     bind (public_addresses U (hr_resolved run (fst hp))) (\<lambda>addresses. hr_connect run (hd addresses)))"

definition https_exchange :: "https_run \<Rightarrow> str \<Rightarrow> int res" where
  "https_exchange run body = bind (encode body) (\<lambda>_. bind (hr_request run) (\<lambda>_. hr_status run))"

definition post_https :: "url_env \<Rightarrow> https_run \<Rightarrow> callback_config \<Rightarrow> str \<Rightarrow> callback_outcome res" where
  "post_https U run config body =
     (case https_open U run config of
        Inl e \<Rightarrow> if is_https_error e then Inr Rejected else Inl e
      | Inr _ \<Rightarrow>
          (case https_exchange run body of
             Inl e \<Rightarrow> if is_https_error e then Inr Unknown else Inl e
           | Inr status \<Rightarrow> Inr (if 200 \<le> status \<and> status < 300 then Accepted else Unknown)))"

text \<open>
  \<^verbatim>\<open>json.loads(value["body"])["message"]\<close>: KeyError and TypeError are caught by the caller
  (\<open>None\<close>); a message that is no text makes \<open>bounded_message\<close> raise AttributeError, which is not.
\<close>

definition body_message :: "pyenv \<Rightarrow> str \<Rightarrow> str option res" where
  "body_message E body =
     bind (loads (float_parse E) body) (\<lambda>v.
     case v of
       JObj d \<Rightarrow>
         (case jget d ''message'' of
            None \<Rightarrow> Inr None
          | Some (JStr m) \<Rightarrow> Inr (Some m)
          | Some _ \<Rightarrow> Inl OtherError)
     | _ \<Rightarrow> Inr None)"

text \<open>
  \<open>_worker\<close> on the bytes of its standard input, after the checks of its arguments: what it prints,
  or the exception it dies of.
\<close>

definition worker :: "pyenv \<Rightarrow> url_env \<Rightarrow> https_run \<Rightarrow> bytes \<Rightarrow> callback_outcome res" where
  "worker E U run raw =
     (let caught = (\<lambda>r. case r of
            Inl e \<Rightarrow> if is_chat_error e \<or> is_value_error e then Inr Rejected else Inl e
          | Inr y \<Rightarrow> Inr y) in
      if 131072 < length raw then Inr Rejected
      else caught
        (bind (loads_bytes E raw) (\<lambda>value.
         case value of
           JObj d \<Rightarrow>
             (case (jget d ''url'', jget d ''bearer'', jget d ''body'') of
                (Some (JStr url), Some (JStr bearer), Some (JStr body)) \<Rightarrow>
                  if \<not> has_keys d [''url'', ''bearer'', ''body''] then Inr Rejected
                  else
                    bind (body_message E body) (\<lambda>message.
                    case message of
                      None \<Rightarrow> Inr Rejected
                    | Some m \<Rightarrow>
                        bind (bounded_message m) (\<lambda>_.
                        bind (callback_config_post_init U url bearer) (\<lambda>config.
                        post_https U run config body)))
              | _ \<Rightarrow> Inr Rejected)
         | _ \<Rightarrow> Inr Rejected)))"

text \<open>How the worker process ended for the caller.\<close>

datatype process_result = TimeExpired | NotStarted | Exited int str

definition CALLBACK_TIMEOUT_SECONDS :: rat where "CALLBACK_TIMEOUT_SECONDS = 15"

text \<open>The default separators of \<open>json.dumps\<close> have a space.\<close>

definition worker_payload :: "callback_config \<Rightarrow> str \<Rightarrow> str" where
  "worker_payload config body =
     lit ''{\"url\": '' @ json_str True (cc_url config) @ lit '', \"bearer\": '' @ json_str True (cc_bearer config) @
     lit '', \"body\": '' @ json_str True body @ lit ''}''"

definition process_outcome :: "process_result \<Rightarrow> callback_outcome" where
  "process_outcome result =
     (case result of
        Exited code out \<Rightarrow>
          (case outcome_of (strip out) of
             Some t \<Rightarrow> if code = 0 then t else Unknown
           | None \<Rightarrow> Unknown)
      | _ \<Rightarrow> Unknown)"

text \<open>The worker process is given the payload; \<open>process\<close> says how it ended.\<close>

definition post_callback ::
  "pyenv \<Rightarrow> callback_config \<Rightarrow> dict \<Rightarrow> rat \<Rightarrow> nat \<Rightarrow> (str \<Rightarrow> process_result) \<Rightarrow> callback_outcome res" where
  "post_callback E config envelope timeout_seconds locks process =
     (if timeout_seconds \<le> 0 \<or> CALLBACK_TIMEOUT_SECONDS < timeout_seconds
      then fail ''external callback deadline is exhausted''
      else if locks = 0 then fail ''external callback effect custody is unavailable''
      else
        let body = dumps (float_repr E) False (JObj envelope) in
        bind (encode body) (\<lambda>b.
        if 65536 < length b then fail ''external callback envelope exceeds the bounded limit''
        else Inr (process_outcome (process (worker_payload config body)))))"

section \<open>What an outcome means\<close>

lemma callback_destination_public:
  assumes "callback_destination U url = Inr (host, path)"
  shows "\<exists>parts. url_split U url = Inr parts \<and> u_scheme parts = lit ''https'' \<and> u_hostname parts = Some host \<and>
    \<not> private_host host \<and> \<not> is_ip_address U host \<and> u_username parts = None \<and> u_password parts = None \<and>
    path \<noteq> []"
  using assms by (auto simp: callback_destination_def Let_def res_simps split: option.splits if_splits)

lemma public_addresses_global:
  assumes "public_addresses U r = Inr as"
  shows "as \<noteq> [] \<and> list_all (is_global_address U) as"
  using assms by (auto simp: public_addresses_def res_simps list_ex_iff list_all_iff)

lemma post_https_cases:
  "post_https U run config body = Inr Rejected \<longleftrightarrow> (\<exists>e. https_open U run config = Inl e \<and> is_https_error e)"
  "post_https U run config body = Inr Accepted \<longleftrightarrow>
     https_open U run config = Inr () \<and> (\<exists>s. https_exchange run body = Inr s \<and> 200 \<le> s \<and> s < 300)"
  by (auto simp: post_https_def split: sum.splits if_splits)

lemma https_open_request [simp]:
  "https_open U (run\<lparr>hr_request := q, hr_status := t\<rparr>) config = https_open U run config"
  by (simp add: https_open_def)

lemma post_https_rejected_any:
  "post_https U run config body = Inr Rejected \<Longrightarrow> post_https U (run\<lparr>hr_request := q, hr_status := t\<rparr>) config body = Inr Rejected"
  by (auto simp: post_https_def split: sum.splits if_splits)

text \<open>The checks of the worker that come before the POST, and the POST it makes.\<close>

definition worker_job :: "pyenv \<Rightarrow> url_env \<Rightarrow> bytes \<Rightarrow> (callback_config \<times> str) option res" where
  "worker_job E U raw =
     (if 131072 < length raw then Inr None
      else bind (loads_bytes E raw) (\<lambda>value.
         case value of
           JObj d \<Rightarrow>
             (case (jget d ''url'', jget d ''bearer'', jget d ''body'') of
                (Some (JStr url), Some (JStr bearer), Some (JStr body)) \<Rightarrow>
                  if \<not> has_keys d [''url'', ''bearer'', ''body''] then Inr None
                  else
                    bind (body_message E body) (\<lambda>message.
                    case message of
                      None \<Rightarrow> Inr None
                    | Some m \<Rightarrow>
                        bind (bounded_message m) (\<lambda>_.
                        bind (callback_config_post_init U url bearer) (\<lambda>config. Inr (Some (config, body)))))
              | _ \<Rightarrow> Inr None)
         | _ \<Rightarrow> Inr None))"

lemma worker_runs_job:
  "worker E U run raw =
     (case bind (worker_job E U raw) (\<lambda>j. case j of None \<Rightarrow> Inr Rejected | Some (config, body) \<Rightarrow> post_https U run config body) of
        Inl e \<Rightarrow> if is_chat_error e \<or> is_value_error e then Inr Rejected else Inl e
      | Inr y \<Rightarrow> Inr y)"
  by (auto simp: worker_def worker_job_def Let_def bind_def split: sum.splits json.splits option.splits)

lemma post_https_uncaught: "post_https U run config body = Inl e \<Longrightarrow> \<not> is_chat_error e \<and> \<not> is_value_error e"
  by (auto simp: post_https_def is_https_error_def split: sum.splits if_splits)

lemma worker_rejected_any:
  assumes "worker E U run raw = Inr Rejected"
  shows "worker E U (run\<lparr>hr_request := q, hr_status := t\<rparr>) raw = Inr Rejected"
proof (cases "worker_job E U raw")
  case (Inl e)
  then show ?thesis using assms by (simp add: worker_runs_job)
next
  case (Inr j)
  show ?thesis
  proof (cases j)
    case (Some cb)
    then obtain config body where j: "j = Some (config, body)" by (cases cb) auto
    have "post_https U run config body = Inr Rejected"
      using assms Inr j post_https_uncaught [of U run config body]
      by (auto simp: worker_runs_job split: sum.splits if_splits)
    with Inr j show ?thesis by (simp add: worker_runs_job post_https_rejected_any)
  qed (use Inr in \<open>simp add: worker_runs_job\<close>)
qed

lemma worker_accepted:
  assumes "worker E U run raw = Inr Accepted"
  shows "\<exists>config body. worker_job E U raw = Inr (Some (config, body)) \<and> post_https U run config body = Inr Accepted"
proof -
  obtain j where "worker_job E U raw = Inr j" using assms by (cases "worker_job E U raw") (auto simp: worker_runs_job split: if_splits)
  with assms show ?thesis by (cases j) (auto simp: worker_runs_job split: sum.splits if_splits)
qed

section \<open>Properties\<close>

text \<open>
  C20. The outcome of a callback is truthful. The worker reports a rejection before effect only when
  no request was sent: whatever sending and the server would have done, the report is the same. It
  reports acceptance only for a 2xx status on a connection to a global address of a public host
  name, of which the URL was checked. The caller takes an outcome only from a worker that exited
  with code 0 and printed exactly it; every other end, a timeout included, is unknown.
\<close>

theorem callback_truthful:
  "(worker E U run raw = Inr Rejected \<longrightarrow> (\<forall>q t. worker E U (run\<lparr>hr_request := q, hr_status := t\<rparr>) raw = Inr Rejected)) \<and>
   (worker E U run raw = Inr Accepted \<longrightarrow>
      (\<exists>config body host path as status. worker_job E U raw = Inr (Some (config, body)) \<and>
         callback_destination U (cc_url config) = Inr (host, path) \<and> \<not> private_host host \<and> \<not> is_ip_address U host \<and>
         public_addresses U (hr_resolved run host) = Inr as \<and> list_all (is_global_address U) as \<and>
         hr_connect run (hd as) = Inr () \<and> hr_request run = Inr () \<and> hr_status run = Inr status \<and>
         200 \<le> status \<and> status < 300)) \<and>
   (\<forall>config envelope timeout locks process out. post_callback E config envelope timeout locks process = Inr out \<longrightarrow>
      out = Unknown \<or>
      (\<exists>text. process (worker_payload config (dumps (float_repr E) False (JObj envelope))) = Exited 0 text \<and>
         strip text = outcome_str out))"
proof (intro conjI impI allI)
  fix q t
  assume "worker E U run raw = Inr Rejected"
  then show "worker E U (run\<lparr>hr_request := q, hr_status := t\<rparr>) raw = Inr Rejected" by (rule worker_rejected_any)
next
  assume "worker E U run raw = Inr Accepted"
  then obtain config body where j: "worker_job E U raw = Inr (Some (config, body))" "post_https U run config body = Inr Accepted"
    using worker_accepted by blast
  then obtain s where s: "https_open U run config = Inr ()" "https_exchange run body = Inr s" "200 \<le> s" "s < 300"
    by (auto simp: post_https_cases)
  from s(1) obtain host path as where h: "callback_destination U (cc_url config) = Inr (host, path)"
    "public_addresses U (hr_resolved run host) = Inr as" "hr_connect run (hd as) = Inr ()"
    by (auto simp: https_open_def res_simps)
  moreover have "hr_request run = Inr ()" "hr_status run = Inr s" using s(2) by (auto simp: https_exchange_def res_simps)
  ultimately show "\<exists>config body host path as status. worker_job E U raw = Inr (Some (config, body)) \<and>
         callback_destination U (cc_url config) = Inr (host, path) \<and> \<not> private_host host \<and> \<not> is_ip_address U host \<and>
         public_addresses U (hr_resolved run host) = Inr as \<and> list_all (is_global_address U) as \<and>
         hr_connect run (hd as) = Inr () \<and> hr_request run = Inr () \<and> hr_status run = Inr status \<and>
         200 \<le> status \<and> status < 300"
    using j(1) s(3,4) callback_destination_public [OF h(1)] public_addresses_global [OF h(2)] by blast
next
  fix config envelope timeout locks process out
  assume "post_callback E config envelope timeout locks process = Inr out"
  then have "out = process_outcome (process (worker_payload config (dumps (float_repr E) False (JObj envelope))))"
    by (auto simp: post_callback_def Let_def res_simps simp del: dumps.simps)
  then show "out = Unknown \<or> (\<exists>text. process (worker_payload config (dumps (float_repr E) False (JObj envelope))) =
      Exited 0 text \<and> strip text = outcome_str out)"
    by (auto simp: process_outcome_def simp del: dumps.simps split: process_result.splits option.splits if_splits)
qed

text \<open>A sample worker that is given no input.\<close>

definition sample_urls :: url_env where
  "sample_urls = \<lparr>url_split = (\<lambda>_. Inl ValueError), is_ip_address = (\<lambda>_. False), is_global_address = (\<lambda>_. True)\<rparr>"

definition sample_https :: https_run where
  "sample_https = \<lparr>hr_resolved = (\<lambda>_. Inr [[49]]), hr_connect = (\<lambda>_. Inr ()), hr_request = Inr (), hr_status = Inr 200\<rparr>"

theorem callback_truthful_witness:
  "worker sample_env sample_urls sample_https [] = Inr Rejected \<and>
   worker sample_env sample_urls (sample_https\<lparr>hr_request := Inl OSError, hr_status := Inr 500\<rparr>) [] = Inr Rejected"
proof -
  have "loads_bytes sample_env [] = Inl JSONDecodeError"
    by (simp add: loads_bytes_def is_wide_def starts_with_def loads_def)
  then have "worker sample_env sample_urls sample_https [] = Inr Rejected" by (simp add: worker_def)
  with callback_truthful [of sample_env sample_urls sample_https "[]"] show ?thesis by blast
qed

end
