(* ===== verification/Sender.thy ===== *)
theory Sender
  imports Envelope Intents Callback
begin

text \<open>
  Sending (runtime.py): the identity of a sender and its public alias, the begin of a delivery, the
  bounded resending of a refused frame, and \<open>_send_local_target\<close>, \<open>_send_remote_target\<close> and
  \<open>_send_external_target\<close>, which turn what an exchange did into the status of the intent and an
  answer. What sockets, clocks, other processes and providers do is an argument.
\<close>

section \<open>Senders\<close>

datatype source = RouteSource route | EndpointSource endpoint

fun is_endpoint :: "source \<Rightarrow> bool" where
  "is_endpoint (EndpointSource _) = True"
| "is_endpoint (RouteSource _) = False"

fun source_generation :: "source \<Rightarrow> str" where
  "source_generation (RouteSource r) = r_generation r"
| "source_generation (EndpointSource x) = x_generation x"

fun source_key :: "pyenv \<Rightarrow> source \<Rightarrow> str res" where
  "source_key E (EndpointSource x) = Inr (endpoint_key E x)"
| "source_key E (RouteSource r) = session_key E (r_provider r) (r_session_id r)"

text \<open>
  The host at one moment: the resolved state root, the user, what signalling a process does, the
  file system, whether the owner process of a route still is the one it was registered with
  (\<open>_route_owner_current\<close>, which inspects the running process), and the wall clock.
\<close>

record host =
  h_root :: str
  h_uid :: int
  h_kill :: "int \<Rightarrow> kill_result"
  h_fs :: fsview
  h_owner_current :: "route \<Rightarrow> bool"
  h_wall :: rat

definition route_current :: "pyenv \<Rightarrow> host \<Rightarrow> dir \<Rightarrow> route \<Rightarrow> bool res" where
  "route_current E h d r =
     (if \<not> (r_owner_identity r = None \<or> h_owner_current h r) then Inr False
      else
        bind (registry_current E d r) (\<lambda>current.
        and_res (current \<and> process_is_live (h_kill h) r) (cwd_is_available (h_fs h) r)))"

fun source_current :: "pyenv \<Rightarrow> host \<Rightarrow> dir \<Rightarrow> source \<Rightarrow> bool res" where
  "source_current E h d (EndpointSource x) = endpoint_current E (h_uid h) (h_wall h) d x"
| "source_current E h d (RouteSource r) = route_current E h d r"

section \<open>Preparing a delivery\<close>

text \<open>
  What the preparation of one send meets: the monotonic clock at its readings, what the two Claude
  inventories returned, the owner binary and native title lookups, a fresh uuid, the host and what
  other processes did to the state directory until the intent begins, the host then, and the
  wall clock of the new row.
\<close>

record preparation =
  pr_host :: host
  pr_clock_alias :: rat
  pr_agent :: "claude_agent res"
  pr_clock_retry :: rat
  pr_agent_retry :: "claude_agent res"
  pr_others :: "dir \<Rightarrow> dir"
  pr_host_after :: host
  pr_clock_title :: rat
  pr_binary :: "str option res"
  pr_titles :: "str \<Rightarrow> str option"
  pr_uuid4 :: str
  pr_clock_timeout :: rat
  pr_stamp :: rat

definition PRE_EFFECT_RETRY_SECONDS :: rat where "PRE_EFFECT_RETRY_SECONDS = 1 / 4"
definition PRE_EFFECT_RETRY_MAX_SECONDS :: rat where "PRE_EFFECT_RETRY_MAX_SECONDS = 1"
definition PRE_EFFECT_RETRY_ROOM_SECONDS :: rat where "PRE_EFFECT_RETRY_ROOM_SECONDS = 2"
definition SOURCE_INVENTORY_RETRY_MINIMUM_SECONDS :: rat where "SOURCE_INVENTORY_RETRY_MINIMUM_SECONDS = 1"
definition OPERATION_TIMEOUT_SECONDS :: rat where "OPERATION_TIMEOUT_SECONDS = 260"
definition AGENTS_TIMEOUT_SECONDS :: rat where "AGENTS_TIMEOUT_SECONDS = 15"
definition HEALTH_TIMEOUT_SECONDS :: rat where "HEALTH_TIMEOUT_SECONDS = AGENTS_TIMEOUT_SECONDS + 2"
definition ACCEPT_TIMEOUT_SECONDS :: rat where "ACCEPT_TIMEOUT_SECONDS = 2 * AGENTS_TIMEOUT_SECONDS + 30 + 90 + 5"
definition AUTHORIZE_TIMEOUT_SECONDS :: rat where "AUTHORIZE_TIMEOUT_SECONDS = 20"
definition REMOTE_TIMEOUT_SECONDS :: rat where
  "REMOTE_TIMEOUT_SECONDS = HEALTH_TIMEOUT_SECONDS + AUTHORIZE_TIMEOUT_SECONDS + ACCEPT_TIMEOUT_SECONDS + 5"

text \<open>
  \<open>_remaining_operation_timeout\<close>. The timeout it returns only bounds how long an exchange may
  take, which is part of what the exchange did.
\<close>

definition remaining_operation_timeout :: "rat \<Rightarrow> rat \<Rightarrow> rat \<Rightarrow> rat res" where
  "remaining_operation_timeout deadline now maximum =
     (if deadline - now \<le> 0 then fail ''delivery timed out before provider acceptance''
      else Inr (min maximum (deadline - now)))"

definition changed_sender :: "'a res" where
  "changed_sender = fail ''sender route changed before transport acceptance''"

fun is_preflight_timeout :: "exn \<Rightarrow> bool" where
  "is_preflight_timeout (ClaudeAgentsPreflightTimeout _) = True"
| "is_preflight_timeout _ = False"

text \<open>The exact agent, with one retry after a preflight timeout while a second is left.\<close>

definition source_agent :: "preparation \<Rightarrow> rat \<Rightarrow> claude_agent res" where
  "source_agent pr deadline =
     (case pr_agent pr of
        Inr a \<Rightarrow> Inr a
      | Inl e \<Rightarrow>
          if is_preflight_timeout e \<and>
             SOURCE_INVENTORY_RETRY_MINIMUM_SECONDS \<le> deadline - pr_clock_retry pr
          then pr_agent_retry pr else Inl e)"

fun canonical_source_alias :: "pyenv \<Rightarrow> preparation \<Rightarrow> rat \<Rightarrow> dir \<Rightarrow> source \<Rightarrow> str res" where
  "canonical_source_alias E pr deadline d (EndpointSource x) =
     bind (source_current E (pr_host pr) d (EndpointSource x)) (\<lambda>ok.
     if \<not> ok then changed_sender else Inr (endpoint_alias E x))"
| "canonical_source_alias E pr deadline d (RouteSource r) =
     bind (source_current E (pr_host pr) d (RouteSource r)) (\<lambda>ok.
     if \<not> ok then changed_sender
     else if r_provider r \<noteq> Claude then Inr (r_alias r)
     else
       bind (remaining_operation_timeout deadline (pr_clock_alias pr) AGENTS_TIMEOUT_SECONDS) (\<lambda>_.
       bind (source_agent pr deadline) (\<lambda>agent.
       bind (source_current E (pr_host_after pr) (pr_others pr d) (RouteSource r)) (\<lambda>still.
       if \<not> still then changed_sender else claude_alias E (r_device r) (r_project r) agent))))"

fun source_display_title :: "preparation \<Rightarrow> rat \<Rightarrow> source \<Rightarrow> str option res" where
  "source_display_title pr deadline (EndpointSource x) = Inr None"
| "source_display_title pr deadline (RouteSource r) =
     (if r_provider r \<noteq> Codex then Inr None
      else if deadline - pr_clock_title pr \<le> 0 \<or> r_profile_root r = None then Inr None
      else
        case pr_binary pr of
          Inl e \<Rightarrow> if is_chat_error e \<or> is_os_error e then Inr None else Inl e
        | Inr None \<Rightarrow> Inr None
        | Inr (Some _) \<Rightarrow> Inr (pr_titles pr (r_session_id r)))"

definition payload_digest :: "pyenv \<Rightarrow> str \<Rightarrow> str res" where
  "payload_digest E body = bind (encode body) (\<lambda>b. Inr (sha256hex E b))"

text \<open>
  \<open>_begin_delivery\<close>: an endpoint that repeats a request id gets the existing intent back, if it is
  for the same content and recipient.
\<close>

definition begin_delivery ::
  "pyenv \<Rightarrow> rat \<Rightarrow> dir \<Rightarrow> source \<Rightarrow> str \<Rightarrow> str \<Rightarrow> str \<Rightarrow> str \<Rightarrow> str \<Rightarrow> (intent option \<times> dir) res" where
  "begin_delivery E now d source target_key target_generation source_alias body event_id =
     bind (payload_digest E body) (\<lambda>digest.
     bind (case source of
             RouteSource _ \<Rightarrow> Inr None
           | EndpointSource x \<Rightarrow>
               bind (intent_for_source E d event_id (endpoint_key E x) (x_generation x)) (\<lambda>existing.
               case existing of
                 None \<Rightarrow> Inr None
               | Some i \<Rightarrow>
                   if (i_target_key i, i_target_generation i, i_source_alias i, i_payload_digest i) \<noteq>
                      (target_key, target_generation, source_alias, digest)
                   then fail ''request id was already used with different content or recipient''
                   else Inr (Some i))) (\<lambda>existing.
     case existing of
       Some i \<Rightarrow> Inr (Some i, d)
     | None \<Rightarrow>
         bind (source_key E source) (\<lambda>key.
         bind (begin_identity E now event_id d key (source_generation source) source_alias target_key
                 target_generation digest (Some event_id)) (\<lambda>p.
         Inr (None, snd p)))))"

definition existing_delivery :: "intent \<Rightarrow> target \<Rightarrow> dict" where
  "existing_delivery i t =
     [(lit ''schema_version'', JInt SCHEMA_VERSION), (lit ''event_id'', JStr (i_event_id i)),
      (lit ''status'', JStr (status_str (i_status i))), (lit ''to'', JStr (p_alias t)),
      (lit ''provider'', JStr (peer_str (p_provider t))),
      (lit ''delivery_observation'', JStr (lit ''not_observed'')), (lit ''reused_request'', JBool True),
      (lit ''destination_receiving'', JObj (destination_receiving None))]"

definition event_of :: "preparation \<Rightarrow> str option \<Rightarrow> str res" where
  "event_of pr event_id = (case event_id of None \<Rightarrow> Inr (pr_uuid4 pr) | Some e \<Rightarrow> valid_uuid e ''event id'')"

section \<open>Resending a refused frame\<close>

text \<open>
  One attempt: what the exchange did and what other processes did to the directory meanwhile, how
  long it took, and how much longer than asked the following pause lasted. The clock is
  monotonic, so no span is negative.
\<close>

record attempt =
  at_exchange :: exchange
  at_others :: "dir \<Rightarrow> dir"
  at_took :: rat
  at_overslept :: rat

definition after :: "rat \<Rightarrow> rat \<Rightarrow> rat" where
  "after now s = now + max 0 s"

text \<open>\<open>_pre_effect_retry_pause\<close>: the next delay and the clock after the pause.\<close>

definition pre_effect_retry_pause :: "rat \<Rightarrow> rat \<Rightarrow> rat \<Rightarrow> rat \<Rightarrow> (rat \<times> rat) option" where
  "pre_effect_retry_pause deadline now delay overslept =
     (let remaining = deadline - now - PRE_EFFECT_RETRY_ROOM_SECONDS in
      if remaining \<le> 0 then None
      else Some (min PRE_EFFECT_RETRY_MAX_SECONDS (delay * 2), after (now + min delay remaining) overslept))"

text \<open>
  The loop of the three senders. It ends with a reply that is not to be retried, with what the
  request raised, or, when no time is left for another attempt, with the refusal itself.
\<close>

datatype sent = Reply dict | Raised exn | GaveUp dict

partial_function (option) resend ::
  "(nat \<Rightarrow> attempt) \<Rightarrow> (exchange \<Rightarrow> dict res) \<Rightarrow> (dict \<Rightarrow> bool) \<Rightarrow> rat \<Rightarrow> rat \<Rightarrow> rat \<Rightarrow> nat \<Rightarrow> dir \<Rightarrow>
   (sent \<times> nat \<times> dir) option" where
  "resend attempts request again deadline now delay n d =
     (let a = attempts n; d' = at_others a d; now' = after now (at_took a) in
      case request (at_exchange a) of
        Inl e \<Rightarrow> Some (Raised e, n, d')
      | Inr response \<Rightarrow>
          if \<not> again response then Some (Reply response, n, d')
          else
            (case pre_effect_retry_pause deadline now' delay (at_overslept a) of
               None \<Rightarrow> Some (GaveUp response, n, d')
             | Some (delay', now'') \<Rightarrow>
                 if deadline - now'' \<le> 0 then Some (GaveUp response, n, d')
                 else resend attempts request again deadline now'' delay' (Suc n) d'))"

text \<open>Marking a row and answering; when marking raises, its exception is what the caller sees.\<close>

definition marking :: "pyenv \<Rightarrow> rat \<Rightarrow> dir \<Rightarrow> str \<Rightarrow> intent_status \<Rightarrow> dict res \<Rightarrow> dict res \<times> dir" where
  "marking E now d event_id status answer =
     (case mark E now d event_id status of Inl e \<Rightarrow> (Inl e, d) | Inr d' \<Rightarrow> (answer, d'))"

section \<open>Sending to a local session\<close>

definition event_text :: "string \<Rightarrow> str \<Rightarrow> string \<Rightarrow> str" where
  "event_text before event_id behind = lit before @ event_id @ lit behind"

definition accept_payload :: "route \<Rightarrow> str \<Rightarrow> str \<Rightarrow> dict" where
  "accept_payload r event_id body =
     [(lit ''schema_version'', JInt 1), (lit ''operation'', JStr (lit ''accept'')),
      (lit ''generation'', JStr (r_generation r)), (lit ''event_id'', JStr event_id),
      (lit ''message'', JStr body)]"

definition is_busy :: "str \<Rightarrow> str \<Rightarrow> dict \<Rightarrow> bool" where
  "is_busy event_id provider response \<longleftrightarrow> pre_effect_error response event_id provider = Some COURIER_BUSY"

definition accepted_answer :: "str \<Rightarrow> str \<Rightarrow> str \<Rightarrow> dict" where
  "accepted_answer event_id recipient provider =
     [(lit ''schema_version'', JInt 1), (lit ''event_id'', JStr event_id),
      (lit ''status'', JStr (lit ''TRANSPORT_ACCEPTED'')), (lit ''to'', JStr recipient),
      (lit ''provider'', JStr provider)]"

definition with_receiving :: "dict \<Rightarrow> target \<Rightarrow> dict" where
  "with_receiving answer t = answer @ [(lit ''destination_receiving'', JObj (destination_receiving (Some t)))]"

definition UNKNOWN_TEXT :: "str \<Rightarrow> str" where
  "UNKNOWN_TEXT event_id = event_text ''delivery state is unknown for event '' event_id ''; do not retry automatically''"

definition BUSY_TEXT :: str where
  "BUSY_TEXT = lit ''recipient stayed busy with another delivery until the send deadline; nothing was delivered; send again''"

text \<open>What the reply of the courier decides.\<close>

definition local_reply :: "pyenv \<Rightarrow> rat \<Rightarrow> dir \<Rightarrow> str \<Rightarrow> target \<Rightarrow> dict \<Rightarrow> dict \<Rightarrow> dict res \<times> dir" where
  "local_reply E stamp d event_id t expected response =
     (let provider = peer_str (p_provider t) in
      case pre_effect_error response event_id provider of
        Some rejection \<Rightarrow>
          marking E stamp d event_id PRE_EFFECT_REJECTED
            (Inl (ChatError (rejection @ lit ''; nothing was delivered; event '' @ event_id)))
      | None \<Rightarrow>
          (case unknown_delivery_diagnostic response event_id provider of
             Some diagnostic \<Rightarrow>
               marking E stamp d event_id UNKNOWN_DELIVERY
                 (Inl (UnknownDeliveryError (lit ''delivery state is unknown for event '' @ event_id @
                    lit ''; diagnostic '' @ diagnostic @ lit ''; do not retry automatically'')))
           | None \<Rightarrow>
               if \<not> py_eq (JObj response) (JObj expected)
               then marking E stamp d event_id UNKNOWN_DELIVERY (Inl (UnknownDeliveryError (UNKNOWN_TEXT event_id)))
               else marking E stamp d event_id TRANSPORT_ACCEPTED
                 (Inr (with_receiving (accepted_answer event_id (p_alias t) provider) t))))"

definition local_outcome :: "pyenv \<Rightarrow> rat \<Rightarrow> dir \<Rightarrow> str \<Rightarrow> target \<Rightarrow> dict \<Rightarrow> sent \<Rightarrow> dict res \<times> dir" where
  "local_outcome E stamp d event_id t expected out =
     (case out of
        Raised e \<Rightarrow>
          if is_unknown_delivery e
          then marking E stamp d event_id UNKNOWN_DELIVERY (Inl (UnknownDeliveryError (UNKNOWN_TEXT event_id)))
          else if is_chat_error e then marking E stamp d event_id PRE_EFFECT_REJECTED (Inl e)
          else (Inl e, d)
      | GaveUp _ \<Rightarrow> marking E stamp d event_id PRE_EFFECT_REJECTED (Inl (ChatError BUSY_TEXT))
      | Reply response \<Rightarrow> local_reply E stamp d event_id t expected response)"

text \<open>The route a local target names, and its native helper when it has one.\<close>

definition delivery_route :: "pyenv \<Rightarrow> host \<Rightarrow> dir \<Rightarrow> target \<Rightarrow> (route \<times> route) res" where
  "delivery_route E h d t =
     bind (registry_routes E d) (\<lambda>routes.
     case the_one (\<lambda>r. Some (r_session_id r) = p_session_id t \<and> r_generation r = p_generation t \<and>
            Some (r_pid r) = p_pid t \<and> Some (r_cwd r) = p_cwd t) routes of
       None \<Rightarrow> fail ''target changed before transport acceptance''
     | Some target_route \<Rightarrow>
         if r_provider target_route \<noteq> Codex then Inr (target_route, target_route)
         else
           bind (helper_for_original E (h_kill h) (h_fs h) d target_route routes) (\<lambda>helper.
           case helper of
             None \<Rightarrow> Inr (target_route, target_route)
           | Some r \<Rightarrow>
               bind (route_current E h d r) (\<lambda>ok.
               if \<not> ok then fail ''native helper is unavailable'' else Inr (target_route, r))))"

text \<open>
  Event id, wrapped body, and the time check: what local, remote and external sends share. The
  token is the reply handle of the sender.
\<close>

definition wrap_for ::
  "pyenv \<Rightarrow> preparation \<Rightarrow> rat \<Rightarrow> source \<Rightarrow> str \<Rightarrow> (str \<Rightarrow> str res) \<Rightarrow> str \<Rightarrow> str option \<Rightarrow> str \<Rightarrow> (str \<times> str) res" where
  "wrap_for E pr deadline source source_alias token message event_id provider =
     bind (event_of pr event_id) (\<lambda>event.
     bind (source_key E source) (\<lambda>key.
     bind (token key) (\<lambda>source_token.
     bind (bounded_message message) (\<lambda>m.
     bind (source_display_title pr deadline source) (\<lambda>title.
     bind (wrapped_message E source_alias source_token m event provider title) (\<lambda>body.
     Inr (event, body)))))))"

record prepared =
  pd_alias :: str
  pd_event :: str
  pd_body :: str
  pd_target_route :: route
  pd_route :: route

definition prepare_local ::
  "pyenv \<Rightarrow> preparation \<Rightarrow> rat \<Rightarrow> dir \<Rightarrow> source \<Rightarrow> target \<Rightarrow> str \<Rightarrow> str option \<Rightarrow> prepared res" where
  "prepare_local E pr deadline d source t message event_id =
     (if p_session_id t = None \<or> p_pid t = None \<or> p_cwd t = None then fail ''target route is incomplete''
      else
        bind (canonical_source_alias E pr deadline d source) (\<lambda>source_alias.
        bind (delivery_route E (pr_host_after pr) (pr_others pr d) t) (\<lambda>rs.
        bind (wrap_for E pr deadline source source_alias
                (\<lambda>key. local_token E (h_root (pr_host pr)) key (source_generation source)) message event_id
                (peer_str (p_provider t))) (\<lambda>eb.
        bind (remaining_operation_timeout deadline (pr_clock_timeout pr) ACCEPT_TIMEOUT_SECONDS) (\<lambda>_.
        Inr \<lparr>pd_alias = source_alias, pd_event = fst eb, pd_body = snd eb, pd_target_route = fst rs,
             pd_route = snd rs\<rparr>)))))"

text \<open>The checks between the begin and the first exchange: a repeated request, and an endpoint sender that changed.\<close>

definition begun ::
  "pyenv \<Rightarrow> preparation \<Rightarrow> rat \<Rightarrow> dir \<Rightarrow> source \<Rightarrow> target \<Rightarrow> str \<Rightarrow> str \<Rightarrow> str \<Rightarrow>
   (dir \<Rightarrow> (dict res \<times> dir) option) \<Rightarrow> (dict res \<times> dir) option" where
  "begun E pr stamp d source t source_alias body event_id go =
     (case begin_delivery E (pr_stamp pr) d source (p_session_key t) (p_generation t) source_alias body event_id of
        Inl e \<Rightarrow> Some (Inl e, d)
      | Inr (Some previous, d') \<Rightarrow> Some (Inr (existing_delivery previous t), d')
      | Inr (None, d') \<Rightarrow>
          (case (if is_endpoint source then source_current E (pr_host_after pr) d' source else Inr True) of
             Inl e \<Rightarrow> Some (Inl e, d')
           | Inr False \<Rightarrow>
               Some (marking E stamp d' event_id PRE_EFFECT_REJECTED
                 (fail ''sender changed before transport acceptance''))
           | Inr True \<Rightarrow> go d'))"

definition send_native ::
  "pyenv \<Rightarrow> preparation \<Rightarrow> (nat \<Rightarrow> attempt) \<Rightarrow> rat \<Rightarrow> rat \<Rightarrow> dir \<Rightarrow> source \<Rightarrow> target \<Rightarrow> str \<Rightarrow> str option \<Rightarrow>
   (dict res \<times> dir) option" where
  "send_native E pr attempts stamp deadline d source t message event_id =
     (case prepare_local E pr deadline d source t message event_id of
        Inl e \<Rightarrow> Some (Inl e, pr_others pr d)
      | Inr p \<Rightarrow>
          (let r = pd_route p; event = pd_event p; provider = peer_str (p_provider t) in
           begun E pr stamp (pr_others pr d) source t (pd_alias p) (pd_body p) event (\<lambda>d'.
             case resend attempts (\<lambda>x. request_socket E x (accept_payload r event (pd_body p)))
                    (is_busy event provider) deadline (pr_clock_timeout pr) PRE_EFFECT_RETRY_SECONDS 0 d' of
               None \<Rightarrow> None
             | Some (out, n, d'') \<Rightarrow>
                 Some (local_outcome E stamp d'' event t
                   (accepted_answer event (if r = pd_target_route p then p_alias t else r_alias r)
                      (provider_str (r_provider r))) out))))"

section \<open>Sending to a remote device\<close>

definition BROKER_CAPACITY_REFUSAL :: dict where
  "BROKER_CAPACITY_REFUSAL =
     [(lit ''schema_version'', JInt SCHEMA_VERSION), (lit ''status'', JStr (lit ''REFUSED'')),
      (lit ''detail'', JStr (lit ''recipient broker is at capacity''))]"

definition at_capacity :: "dict \<Rightarrow> bool" where
  "at_capacity r \<longleftrightarrow> py_eq (JObj r) (JObj BROKER_CAPACITY_REFUSAL)"

definition remote_reply :: "pyenv \<Rightarrow> rat \<Rightarrow> dir \<Rightarrow> str \<Rightarrow> target \<Rightarrow> dict \<Rightarrow> dict res \<times> dir" where
  "remote_reply E stamp d event_id t response =
     (let provider = peer_str (p_provider t); expected = accepted_answer event_id (p_alias t) provider in
      case pre_effect_error response event_id provider of
        Some rejection \<Rightarrow>
          marking E stamp d event_id PRE_EFFECT_REJECTED
            (Inl (ChatError (lit ''remote target rejected the message before provider effect: '' @ rejection @
               lit ''; nothing was delivered'')))
      | None \<Rightarrow>
          (case unknown_delivery_diagnostic response event_id provider of
             Some diagnostic \<Rightarrow>
               marking E stamp d event_id UNKNOWN_DELIVERY
                 (Inl (UnknownDeliveryError (lit ''remote delivery state is unknown for event '' @ event_id @
                    lit ''; diagnostic '' @ diagnostic @ lit ''; do not retry automatically'')))
           | None \<Rightarrow>
               if \<not> py_eq (JObj response) (JObj expected)
               then marking E stamp d event_id UNKNOWN_DELIVERY
                      (Inl (UnknownDeliveryError (lit ''remote delivery state is unknown'')))
               else marking E stamp d event_id TRANSPORT_ACCEPTED (Inr (with_receiving expected t))))"

definition remote_outcome :: "pyenv \<Rightarrow> rat \<Rightarrow> dir \<Rightarrow> str \<Rightarrow> target \<Rightarrow> sent \<Rightarrow> dict res \<times> dir" where
  "remote_outcome E stamp d event_id t out =
     (case out of
        Raised e \<Rightarrow>
          if is_unknown_delivery e
          then marking E stamp d event_id UNKNOWN_DELIVERY
                 (Inl (UnknownDeliveryError
                   (event_text ''remote delivery state is unknown for event '' event_id ''; do not retry automatically'')))
          else if is_chat_error e then marking E stamp d event_id PRE_EFFECT_REJECTED (Inl e)
          else (Inl e, d)
      | GaveUp _ \<Rightarrow>
          marking E stamp d event_id PRE_EFFECT_REJECTED
            (fail ''recipient broker is at capacity; nothing was delivered; send again'')
      | Reply response \<Rightarrow> remote_reply E stamp d event_id t response)"

definition receive_payload :: "str \<Rightarrow> dict" where
  "receive_payload envelope =
     [(lit ''schema_version'', JInt SCHEMA_VERSION), (lit ''operation'', JStr (lit ''receive'')),
      (lit ''envelope'', JStr envelope)]"

definition prepare_remote ::
  "pyenv \<Rightarrow> preparation \<Rightarrow> rat \<Rightarrow> dir \<Rightarrow> source \<Rightarrow> target \<Rightarrow> str \<Rightarrow> str \<Rightarrow> str option \<Rightarrow> (str \<times> str \<times> str) res" where
  "prepare_remote E pr deadline d source t self_node_id message event_id =
     (if p_tailnet_address t = None then fail ''remote target route is incomplete''
      else
        bind (canonical_source_alias E pr deadline d source) (\<lambda>source_alias.
        bind (wrap_for E pr deadline source source_alias
                (\<lambda>key. remote_token E self_node_id key (source_generation source)) message event_id
                (peer_str (p_provider t))) (\<lambda>eb.
        bind (remaining_operation_timeout deadline (pr_clock_timeout pr) REMOTE_TIMEOUT_SECONDS) (\<lambda>_.
        Inr (source_alias, eb)))))"

text \<open>When the envelope cannot be built the exception leaves the row as it is.\<close>

definition send_remote_target ::
  "pyenv \<Rightarrow> preparation \<Rightarrow> (nat \<Rightarrow> attempt) \<Rightarrow> rat \<Rightarrow> rat \<Rightarrow> dir \<Rightarrow> source \<Rightarrow> target \<Rightarrow> str \<Rightarrow> str \<Rightarrow> str option \<Rightarrow>
   (dict res \<times> dir) option" where
  "send_remote_target E pr attempts stamp deadline d source t self_node_id message event_id =
     (case prepare_remote E pr deadline d source t self_node_id message event_id of
        Inl e \<Rightarrow> Some (Inl e, pr_others pr d)
      | Inr (source_alias, event, body) \<Rightarrow>
          begun E pr stamp (pr_others pr d) source t source_alias body event (\<lambda>d'.
            case remote_envelope E event source_alias (source_generation source) (p_alias t) (p_generation t) body of
              Inl e \<Rightarrow> Some (Inl e, d')
            | Inr envelope \<Rightarrow>
                (case resend attempts (\<lambda>x. request_tailnet E x (receive_payload envelope))
                        at_capacity deadline (pr_clock_timeout pr)
                        PRE_EFFECT_RETRY_SECONDS 0 d' of
                   None \<Rightarrow> None
                 | Some (out, n, d'') \<Rightarrow> Some (remote_outcome E stamp d'' event t out))))"

section \<open>Sending to an enrolled endpoint\<close>

text \<open>
  What the acceptance by an endpoint meets: whether another holder has its effect lock, what other
  processes did until the lock was held, and how the callback worker ended.
\<close>

record callback_run =
  cb_urls :: url_env
  cb_held :: bool
  cb_others :: "dir \<Rightarrow> dir"
  cb_process :: "str \<Rightarrow> process_result"

definition callback_envelope :: "target \<Rightarrow> str \<Rightarrow> str \<Rightarrow> str \<Rightarrow> str \<Rightarrow> str \<Rightarrow> dict" where
  "callback_envelope t event_id source_alias sgen reply_handle body =
     [(lit ''schema_version'', JInt SCHEMA_VERSION), (lit ''event_id'', JStr event_id),
      (lit ''source_alias'', JStr source_alias), (lit ''source_generation'', JStr sgen),
      (lit ''target_alias'', JStr (p_alias t)), (lit ''generation'', JStr (p_generation t)),
      (lit ''reply_handle'', JStr reply_handle), (lit ''message'', JStr body)]"

definition callback_answer :: "target \<Rightarrow> str \<Rightarrow> callback_outcome \<Rightarrow> dict res" where
  "callback_answer t event_id outcome =
     (case outcome of
        Rejected \<Rightarrow> fail ''external callback rejected before submission; nothing was delivered''
      | Unknown \<Rightarrow> Inl (UnknownDeliveryError (lit ''external callback delivery is unknown; do not retry''))
      | Accepted \<Rightarrow> Inr (accepted_answer event_id (p_alias t) (lit ''external'')))"

definition accept_external ::
  "pyenv \<Rightarrow> host \<Rightarrow> callback_run \<Rightarrow> dir \<Rightarrow> target \<Rightarrow> str \<Rightarrow> str \<Rightarrow> str \<Rightarrow> str \<Rightarrow> rat \<Rightarrow> nat \<Rightarrow> dict res" where
  "accept_external E h cb d t body event_id source_alias sgen timeout_seconds locks =
     bind (valid_uuid event_id ''event id'') (\<lambda>identifier.
     bind (endpoints E (h_uid h) d) (\<lambda>xs.
     case the_one (\<lambda>x. endpoint_key E x = p_session_key t \<and> x_generation x = p_generation t \<and>
            endpoint_alias E x = p_alias t \<and> endpoint_available E (h_wall h) x \<and> x_callback_ref x \<noteq> None) xs of
       None \<Rightarrow> fail ''external recipient is unavailable or changed; nothing was delivered''
     | Some x \<Rightarrow>
         bind (endpoint_effect_lock (cb_held cb) False (x_endpoint_id x)) (\<lambda>_.
         bind (endpoint_current E (h_uid h) (h_wall h) (cb_others cb d) x) (\<lambda>current.
         if \<not> current then fail ''external recipient changed before effect; nothing was delivered''
         else
           bind (read_callback E (cb_urls cb) (cb_others cb d) (the (x_callback_ref x))) (\<lambda>config.
           bind (envelope_reply_token E body source_alias identifier (lit ''external'')) (\<lambda>token.
           if token = None then fail ''external recipient requires an exact CAC reply token''
           else
             let reply_handle = drop (length REPLY_PREFIX) (split_nl 3 body ! 2) in
             bind (post_callback E config (callback_envelope t identifier source_alias sgen reply_handle body)
                     timeout_seconds locks (cb_process cb)) (\<lambda>outcome.
             callback_answer t identifier outcome)))))))"

text \<open>
  \<open>held_locks\<close> is 1 when the caller passes the effect lock of an endpoint that sends; the lock of
  the recipient makes it one more.
\<close>

definition send_external_target ::
  "pyenv \<Rightarrow> preparation \<Rightarrow> callback_run \<Rightarrow> rat \<Rightarrow> rat \<Rightarrow> rat \<Rightarrow> dir \<Rightarrow> source \<Rightarrow> nat \<Rightarrow> target \<Rightarrow> str \<Rightarrow> str option \<Rightarrow>
   dict res \<times> dir" where
  "send_external_target E pr cb clock stamp deadline d source held_locks t message event_id =
     (if is_endpoint source \<and> held_locks = 0
      then (fail ''external sender effect custody is unavailable; nothing was delivered'', d)
      else
        let d1 = pr_others pr d in
        case bind (canonical_source_alias E pr deadline d source) (\<lambda>source_alias.
               bind (wrap_for E pr deadline source source_alias
                       (\<lambda>key. local_token E (h_root (pr_host pr)) key (source_generation source)) message event_id
                       (lit ''external'')) (\<lambda>eb. Inr (source_alias, eb))) of
          Inl e \<Rightarrow> (Inl e, d1)
        | Inr (source_alias, event, body) \<Rightarrow>
            (case begin_delivery E (pr_stamp pr) d1 source (p_session_key t) (p_generation t) source_alias body event of
               Inl e \<Rightarrow> (Inl e, d1)
             | Inr (Some previous, d2) \<Rightarrow> (Inr (existing_delivery previous t), d2)
             | Inr (None, d2) \<Rightarrow>
                 (case bind (source_current E (pr_host_after pr) d2 source) (\<lambda>current.
                        if \<not> current then fail ''sender changed before effect; nothing was delivered''
                        else
                          bind (remaining_operation_timeout deadline clock 15) (\<lambda>remaining.
                          accept_external E (pr_host_after pr) cb d2 t body event source_alias
                            (source_generation source) remaining (Suc held_locks))) of
                    Inr result \<Rightarrow>
                      marking E stamp (cb_others cb d2) event TRANSPORT_ACCEPTED (Inr (with_receiving result t))
                  | Inl e \<Rightarrow>
                      if is_unknown_delivery e
                      then marking E stamp (cb_others cb d2) event UNKNOWN_DELIVERY
                             (Inl (UnknownDeliveryError
                               (event_text ''external delivery is unknown for event '' event ''; do not retry'')))
                      else if is_chat_error e
                      then marking E stamp (cb_others cb d2) event PRE_EFFECT_REJECTED (Inl e)
                      else (Inl e, cb_others cb d2))))"

text \<open>\<open>_send_local_target\<close>.\<close>

definition send_local_target ::
  "pyenv \<Rightarrow> preparation \<Rightarrow> (nat \<Rightarrow> attempt) \<Rightarrow> callback_run \<Rightarrow> rat \<Rightarrow> rat \<Rightarrow> rat \<Rightarrow> dir \<Rightarrow> source \<Rightarrow> nat \<Rightarrow> target \<Rightarrow>
   str \<Rightarrow> str option \<Rightarrow> (dict res \<times> dir) option" where
  "send_local_target E pr attempts cb clock stamp deadline d source held_locks t message event_id =
     (if p_provider t = ExternalPeer
      then Some (send_external_target E pr cb clock stamp deadline d source held_locks t message event_id)
      else send_native E pr attempts stamp deadline d source t message event_id)"

section \<open>The loop ends, and what it leaves behind\<close>

lemma after_le: "now \<le> after now s"
  by (simp add: after_def)

lemma pause_delay:
  "pre_effect_retry_pause deadline now delay over = Some (delay', now') \<Longrightarrow>
   delay' = min 1 (delay * 2) \<and> (now + delay \<le> now' \<or> deadline - 2 \<le> now')"
  by (auto simp: pre_effect_retry_pause_def Let_def PRE_EFFECT_RETRY_MAX_SECONDS_def PRE_EFFECT_RETRY_ROOM_SECONDS_def
      after_def min_def split: if_splits)

lemma pause_none: "deadline - 2 \<le> now \<Longrightarrow> pre_effect_retry_pause deadline now delay over = None"
  by (simp add: pre_effect_retry_pause_def Let_def PRE_EFFECT_RETRY_ROOM_SECONDS_def)

text \<open>What the attempts up to the last one were, and that the directory only changed by others.\<close>

definition traced :: "(nat \<Rightarrow> attempt) \<Rightarrow> (exchange \<Rightarrow> dict res) \<Rightarrow> (dict \<Rightarrow> bool) \<Rightarrow> nat \<Rightarrow> sent \<Rightarrow> nat \<Rightarrow> bool" where
  "traced attempts request again n out m \<longleftrightarrow>
     n \<le> m \<and> (\<forall>k. n \<le> k \<and> k < m \<longrightarrow> (\<exists>r. request (at_exchange (attempts k)) = Inr r \<and> again r)) \<and>
     (case out of
        Reply r \<Rightarrow> request (at_exchange (attempts m)) = Inr r \<and> \<not> again r
      | GaveUp r \<Rightarrow> request (at_exchange (attempts m)) = Inr r \<and> again r
      | Raised e \<Rightarrow> request (at_exchange (attempts m)) = Inl e)"

lemma traced_Suc:
  "traced attempts request again (Suc n) out m \<Longrightarrow> request (at_exchange (attempts n)) = Inr r \<Longrightarrow> again r \<Longrightarrow>
   traced attempts request again n out m"
  unfolding traced_def by (metis Suc_leD le_neq_implies_less Suc_leI)

definition others_step :: "(nat \<Rightarrow> attempt) \<Rightarrow> dir \<Rightarrow> dir \<Rightarrow> bool" where
  "others_step attempts d d' \<longleftrightarrow> (\<exists>k. d' = at_others (attempts k) d)"

definition ends_within ::
  "(nat \<Rightarrow> attempt) \<Rightarrow> (exchange \<Rightarrow> dict res) \<Rightarrow> (dict \<Rightarrow> bool) \<Rightarrow> nat \<Rightarrow> dir \<Rightarrow> nat \<Rightarrow> (sent \<times> nat \<times> dir) option \<Rightarrow> bool" where
  "ends_within attempts request again n d k result \<longleftrightarrow>
     (\<exists>out m d'. result = Some (out, m, d') \<and> m \<le> n + k \<and> traced attempts request again n out m \<and>
        (others_step attempts)\<^sup>*\<^sup>* d d')"

lemma ends_now:
  "traced attempts request again n out n \<Longrightarrow>
   ends_within attempts request again n d k (Some (out, n, at_others (attempts n) d))"
  unfolding ends_within_def others_step_def by (auto intro!: r_into_rtranclp)

lemma ends_later:
  assumes "ends_within attempts request again (Suc n) (at_others (attempts n) d) k result"
    and "request (at_exchange (attempts n)) = Inr r" "again r"
  shows "ends_within attempts request again n d (Suc k) result"
proof -
  from assms(1) obtain out m d' where r: "result = Some (out, m, d')" "m \<le> Suc n + k"
    "traced attempts request again (Suc n) out m" "(others_step attempts)\<^sup>*\<^sup>* (at_others (attempts n) d) d'"
    by (auto simp: ends_within_def)
  have "others_step attempts d (at_others (attempts n) d)" by (auto simp: others_step_def)
  with r(4) have "(others_step attempts)\<^sup>*\<^sup>* d d'" by (rule converse_rtranclp_into_rtranclp [rotated])
  with r traced_Suc [OF r(3) assms(2,3)] show ?thesis by (auto simp: ends_within_def)
qed

text \<open>
  Every pause lasts at least the smallest delay or uses up the time left, so the number of
  attempts is bounded.
\<close>

lemma resend_ends:
  assumes "0 < \<delta>" "\<delta> \<le> 1" "\<delta> \<le> delay" "deadline - 2 - now \<le> of_nat k * \<delta>"
  shows "ends_within attempts request again n d k (resend attempts request again deadline now delay n d)"
  using assms(3,4)
proof (induction k arbitrary: now delay n d)
  case 0
  then have "deadline - 2 \<le> after now (at_took (attempts n))" using after_le [of now] by (simp add: order_trans)
  then have "pre_effect_retry_pause deadline (after now (at_took (attempts n))) delay ov = None" for ov
    by (rule pause_none)
  then show ?case
    by (subst resend.simps) (auto simp: Let_def traced_def intro!: ends_now split: sum.splits)
next
  case (Suc k)
  let ?a = "attempts n" and ?now = "after now (at_took (attempts n))"
  show ?case
  proof (cases "\<exists>r. request (at_exchange ?a) = Inr r \<and> again r")
    case False
    then show ?thesis by (subst resend.simps) (auto simp: Let_def traced_def intro!: ends_now split: sum.splits)
  next
    case True
    then obtain r where r: "request (at_exchange ?a) = Inr r" "again r" by blast
    then have gave: "traced attempts request again n (GaveUp r) n" by (auto simp: traced_def)
    show ?thesis
    proof (cases "pre_effect_retry_pause deadline ?now delay (at_overslept ?a)")
      case None
      with r gave show ?thesis by (subst resend.simps) (simp add: Let_def ends_now)
    next
      case (Some q)
      obtain delay' now' where q: "q = (delay', now')" by (cases q)
      note p = pause_delay [OF Some [unfolded q]]
      show ?thesis
      proof (cases "deadline - now' \<le> 0")
        case True
        with r gave Some q show ?thesis by (subst resend.simps) (simp add: Let_def ends_now)
      next
        case False
        have d: "\<delta> \<le> delay'" using p assms(1,2) Suc.prems(1) by (auto simp: min_def)
        have "0 \<le> of_nat k * \<delta>" "now \<le> ?now" using assms(1) after_le by simp_all
        then have "deadline - 2 - now' \<le> of_nat k * \<delta>" using p Suc.prems by (auto simp: algebra_simps)
        from ends_later [OF Suc.IH [OF d this] r] r Some q False show ?thesis
          by (subst resend.simps) (simp add: Let_def)
      qed
    qed
  qed
qed

text \<open>With the code's first delay of a quarter of a second.\<close>

lemma resend_first:
  "ends_within attempts request again 0 d (nat \<lceil>4 * (deadline - 2 - now)\<rceil>)
     (resend attempts request again deadline now PRE_EFFECT_RETRY_SECONDS 0 d)"
proof (rule resend_ends [of "1 / 4"])
  define x where "x = deadline - 2 - now"
  have "4 * x \<le> of_nat (nat \<lceil>4 * x\<rceil>)" by (rule of_nat_ceiling)
  then show "deadline - 2 - now \<le> of_nat (nat \<lceil>4 * (deadline - 2 - now)\<rceil>) * (1 / 4)"
    unfolding x_def [symmetric] by simp
qed (simp_all add: PRE_EFFECT_RETRY_SECONDS_def)

section \<open>Exchanges that had no effect\<close>

text \<open>
  What the senders rely on of a request: a plain \<open>ChatError\<close> means that nothing was written, and a
  refusal that is retried is one without effect. Then a send that gave up, that raised a plain
  \<open>ChatError\<close>, or that was answered by such a refusal has made only attempts without effect.
\<close>

locale resending =
  fixes request :: "exchange \<Rightarrow> dict res" and unwritten :: "exchange \<Rightarrow> bool"
    and again :: "dict \<Rightarrow> bool" and harmless :: "dict \<Rightarrow> bool"
  assumes early: "request x = Inl e \<Longrightarrow> is_chat_error e \<Longrightarrow> \<not> is_unknown_delivery e \<Longrightarrow> unwritten x"
    and again_harmless: "again r \<Longrightarrow> harmless r"
begin

lemma all_without_effect:
  assumes "traced attempts request again 0 out m"
    and "case out of
           GaveUp r \<Rightarrow> True
         | Raised e \<Rightarrow> is_chat_error e \<and> \<not> is_unknown_delivery e
         | Reply r \<Rightarrow> harmless r"
    and "k \<le> m"
  shows "unwritten (at_exchange (attempts k)) \<or> (\<exists>r. request (at_exchange (attempts k)) = Inr r \<and> harmless r)"
proof (cases "k < m")
  case True
  with assms(1) show ?thesis using again_harmless by (auto simp: traced_def)
next
  case False
  with assms(3) have "k = m" by simp
  with assms(1,2) show ?thesis using again_harmless early by (auto simp: traced_def split: sent.splits)
qed

end

lemma request_socket_early:
  "request_socket E x p = Inl e \<Longrightarrow> is_chat_error e \<Longrightarrow> \<not> is_unknown_delivery e \<Longrightarrow> open_socket x \<noteq> Inr ()"
  by (auto simp: request_socket_def after_write_def is_exchange_error_def split: sum.splits json.splits if_splits)

definition open_tailnet :: "exchange \<Rightarrow> unit res" where
  "open_tailnet x = bind (late (ex_late_connect x) (ex_connect x)) (\<lambda>_. late (ex_late_write x) (Inr ()))"

lemma request_tailnet_early:
  "request_tailnet E x p = Inl e \<Longrightarrow> is_chat_error e \<Longrightarrow> \<not> is_unknown_delivery e \<Longrightarrow> open_tailnet x \<noteq> Inr ()"
  by (auto simp: request_tailnet_def open_tailnet_def after_write_def is_exchange_error_def split: sum.splits json.splits if_splits)

definition refused :: "str \<Rightarrow> str \<Rightarrow> dict \<Rightarrow> bool" where
  "refused event_id provider r \<longleftrightarrow> (\<exists>reason. pre_effect_error r event_id provider = Some reason)"

interpretation socket_sends: resending "\<lambda>x. request_socket E x payload" "\<lambda>x. open_socket x \<noteq> Inr ()"
    "is_busy event provider" "refused event provider" for E payload event provider
  by unfold_locales (auto dest: request_socket_early simp: is_busy_def refused_def)

interpretation tailnet_sends: resending "\<lambda>x. request_tailnet E x payload" "\<lambda>x. open_tailnet x \<noteq> Inr ()"
    at_capacity "\<lambda>r. at_capacity r \<or> refused event provider r" for E payload event provider
  by unfold_locales (auto dest: request_tailnet_early)

section \<open>Marking\<close>

definition has_status :: "pyenv \<Rightarrow> dir \<Rightarrow> str \<Rightarrow> intent_status \<Rightarrow> bool" where
  "has_status E d e st \<longleftrightarrow> (\<exists>i \<in> set (rows_of_dir E d). i_event_id i = e \<and> i_status i = st)"

definition known_event :: "pyenv \<Rightarrow> dir \<Rightarrow> str \<Rightarrow> bool" where
  "known_event E d e \<longleftrightarrow> intents_inv E d \<and> uuid_shape e \<and> e \<in> i_event_id ` set (rows_of_dir E d)"

lemma known_event_steps:
  assumes "env_ok E" "intent_steps E d d'" "known_event E d e"
  shows "known_event E d' e"
proof -
  have inv: "intents_inv E d" using assms(3) by (simp add: known_event_def)
  from intents_inv_steps [OF assms(2,1) inv] have p: "intents_inv E d'"
    "prefix (map intent_core (rows_of_dir E d)) (map intent_core (rows_of_dir E d'))" by blast+
  have "i_event_id ` set rows = (\<lambda>c. hd c) ` set (map intent_core rows)" for rows
    by (force simp: intent_core_def)
  moreover have "set (map intent_core (rows_of_dir E d)) \<subseteq> set (map intent_core (rows_of_dir E d'))"
    by (rule set_mono_prefix [OF p(2)])
  ultimately show ?thesis using assms(3) p(1) unfolding known_event_def by (metis image_mono subsetD)
qed

lemma marking_known:
  assumes "env_ok E" "known_event E d e"
  shows "\<exists>d'. marking E now d e st answer = (answer, d') \<and> has_status E d' e st \<and> intents_ok E d'"
proof -
  have ok: "intents_ok E d" using assms(2) by (simp add: known_event_def intents_inv_def)
  note r = intents_okD [OF ok]
  obtain i where i: "i \<in> set (rows_of_dir E d)" "i_event_id i = e" using assms(2) by (auto simp: known_event_def)
  have "the_one (\<lambda>i. i_event_id i = e) (rows_of_dir E d) = Some i"
    using i by (intro the_one_distinct_key [OF r(3)]) auto
  moreover have "valid_uuid e f = Inr e" for f using assms(2) by (simp add: known_event_def valid_uuid_iff)
  ultimately obtain d' where m: "mark E now d e st = Inr d'"
    by (simp add: mark_def r(1) require_one_def)
  note row = mark_rows [OF assms(1) ok m]
  have "set_status E now e st i \<in> set (rows_of_dir E d')" using i(1) unfolding row(2) by simp
  moreover have "i_event_id (set_status E now e st i) = e" "i_status (set_status E now e st i) = st"
    using i(2) by (simp_all add: set_status_def)
  ultimately have "has_status E d' e st" unfolding has_status_def by blast
  with m row(1) show ?thesis by (simp add: marking_def)
qed

text \<open>
  A truthful end of a send: success means an accepted row and that \<open>delivered\<close> holds; an
  \<open>UnknownDeliveryError\<close> an unknown row; any other \<open>ChatError\<close> a rejected row and that \<open>untouched\<close>
  holds.
\<close>

definition truthful :: "pyenv \<Rightarrow> dir \<Rightarrow> str \<Rightarrow> bool \<Rightarrow> bool \<Rightarrow> dict res \<Rightarrow> bool" where
  "truthful E d e delivered untouched r \<longleftrightarrow>
     (case r of
        Inr _ \<Rightarrow> has_status E d e TRANSPORT_ACCEPTED \<and> delivered
      | Inl x \<Rightarrow>
          if is_unknown_delivery x then has_status E d e UNKNOWN_DELIVERY
          else if is_chat_error x then has_status E d e PRE_EFFECT_REJECTED \<and> untouched
          else True)"

lemma truthful_mono:
  "truthful E d e a b r \<Longrightarrow> (a \<Longrightarrow> a') \<Longrightarrow> (b \<Longrightarrow> b') \<Longrightarrow> truthful E d e a' b' r"
  by (auto simp: truthful_def split: sum.splits if_splits)

text \<open>When an end of the loop is one without effect.\<close>

definition fruitless :: "(dict \<Rightarrow> bool) \<Rightarrow> sent \<Rightarrow> bool" where
  "fruitless harmless out \<longleftrightarrow>
     (case out of GaveUp r \<Rightarrow> True | Raised e \<Rightarrow> is_chat_error e \<and> \<not> is_unknown_delivery e | Reply r \<Rightarrow> harmless r)"

lemma is_unknown_chat: "is_unknown_delivery e \<Longrightarrow> is_chat_error e"
  by (cases e) auto

lemma marking_truthful:
  assumes "env_ok E" "known_event E d e"
    and "case answer of
           Inr _ \<Rightarrow> st = TRANSPORT_ACCEPTED \<and> delivered
         | Inl x \<Rightarrow> if is_unknown_delivery x then st = UNKNOWN_DELIVERY
                    else is_chat_error x \<longrightarrow> st = PRE_EFFECT_REJECTED \<and> untouched"
  shows "\<exists>r d'. marking E now d e st answer = (r, d') \<and> truthful E d' e delivered untouched r"
proof -
  obtain d' where "marking E now d e st answer = (answer, d')" "has_status E d' e st"
    using marking_known [OF assms(1,2)] by blast
  moreover from this(2) assms(3) have "truthful E d' e delivered untouched answer"
    by (cases answer) (auto simp: truthful_def split: if_splits)
  ultimately show ?thesis by blast
qed

lemma local_outcome_truthful:
  assumes "env_ok E" "known_event E d e"
  shows "\<exists>r d'. local_outcome E stamp d e t expected out = (r, d') \<and>
    truthful E d' e (\<exists>response. out = Reply response \<and> py_eq (JObj response) (JObj expected))
      (fruitless (refused e (peer_str (p_provider t))) out) r"
proof -
  note m = marking_truthful [OF assms]
  show ?thesis
  proof (cases out)
    case (Reply response)
    then show ?thesis
      by (auto simp: local_outcome_def local_reply_def Let_def fruitless_def refused_def split: option.splits intro!: m)
  next
    case (Raised x)
    then show ?thesis
      by (auto simp: local_outcome_def fruitless_def truthful_def [of _ _ _ _ _ "Inl _"] intro!: m)
  next
    case (GaveUp response)
    then show ?thesis by (auto simp: local_outcome_def fruitless_def intro!: m)
  qed
qed

lemma remote_outcome_truthful:
  assumes "env_ok E" "known_event E d e"
  shows "\<exists>r d'. remote_outcome E stamp d e t out = (r, d') \<and>
    truthful E d' e
      (\<exists>response. out = Reply response \<and>
         py_eq (JObj response) (JObj (accepted_answer e (p_alias t) (peer_str (p_provider t)))))
      (fruitless (\<lambda>r. at_capacity r \<or> refused e (peer_str (p_provider t)) r) out) r"
proof -
  note m = marking_truthful [OF assms]
  show ?thesis
  proof (cases out)
    case (Reply response)
    then show ?thesis
      by (auto simp: remote_outcome_def remote_reply_def Let_def fruitless_def refused_def split: option.splits intro!: m)
  next
    case (Raised x)
    then show ?thesis
      by (auto simp: remote_outcome_def fruitless_def truthful_def [of _ _ _ _ _ "Inl _"] intro!: m)
  next
    case (GaveUp response)
    then show ?thesis by (auto simp: remote_outcome_def fruitless_def fail_def intro!: m)
  qed
qed

text \<open>A delivery that began has a row, which other processes cannot take away.\<close>

lemma begin_delivery_known:
  assumes "env_ok E" "intents_inv E d" "list_all is_code_point al"
    and "begin_delivery E now d source tk tg al body event = Inr (None, d')"
  shows "known_event E d' event \<and> has_status E d' event PENDING"
proof -
  from assms(4) obtain key digest e where b: "begin_identity E now event d key (source_generation source) al tk tg digest (Some event) = Inr (e, d')"
    by (auto simp: begin_delivery_def res_simps split: option.splits)
  have ev: "uuid_shape event" "e = event"
    using b by (auto simp: begin_identity_def res_simps valid_simps list_case_Inl Let_def split: if_splits)
  have ok: "intents_ok E d" using assms(2) by (simp add: intents_inv_def)
  from begin_rows [OF assms(1) ok assms(3) ev(1) b] obtain i where i: "rows_of_dir E d' = rows_of_dir E d @ [i]"
    "i_event_id i = event" "i_status i = PENDING" using ev(2) by blast
  have "intents_inv E d'" using intents_inv_step [OF assms(1,2)] step_begin [OF assms(3) ev(1) b] by blast
  with i ev show ?thesis by (auto simp: known_event_def has_status_def)
qed

text \<open>What other processes may do during an exchange: any steps of the intent machine.\<close>

definition fair_others :: "pyenv \<Rightarrow> (nat \<Rightarrow> attempt) \<Rightarrow> bool" where
  "fair_others E attempts \<longleftrightarrow> (\<forall>k d. intent_steps E d (at_others (attempts k) d))"

lemma fair_steps: "(others_step attempts)\<^sup>*\<^sup>* d d' \<Longrightarrow> fair_others E attempts \<Longrightarrow> intent_steps E d d'"
proof (induction rule: rtranclp_induct)
  case (step y z)
  then show ?case by (auto simp: others_step_def fair_others_def intro: rtranclp_trans)
qed simp

lemma begun_route:
  assumes "begin_delivery E (pr_stamp pr) d source (p_session_key t) (p_generation t) al body event = Inr (None, d')"
    and "is_endpoint source \<longrightarrow> source_current E (pr_host_after pr) d' source = Inr True"
  shows "begun E pr stamp d source t al body event go = go d'"
  using assms by (auto simp: begun_def)

section \<open>Properties\<close>

text \<open>
  C2. A local send is decided and truthful. Once its intent has begun, \<open>_send_local_target\<close> returns,
  after at most one attempt for every quarter of a second until its deadline, whatever sockets and
  other processes do. It answers success only with an accepted row and after the courier gave
  exactly the expected acceptance; it raises \<open>UnknownDeliveryError\<close> only with an unknown row; and
  every other \<open>ChatError\<close> comes with a rejected row and means that each attempt it made either
  wrote nothing to the courier or was refused by it before any effect.
\<close>

theorem send_local_truthful:
  assumes "env_ok E" "intents_inv E (pr_others pr d)" "fair_others E attempts"
    and "prepare_local E pr deadline d source t message event_id = Inr p" "list_all is_code_point (pd_alias p)"
    and "begin_delivery E (pr_stamp pr) (pr_others pr d) source (p_session_key t) (p_generation t) (pd_alias p)
           (pd_body p) (pd_event p) = Inr (None, d1)"
    and "is_endpoint source \<longrightarrow> source_current E (pr_host_after pr) d1 source = Inr True"
  shows "\<exists>r d' m. send_native E pr attempts stamp deadline d source t message event_id = Some (r, d') \<and>
    m \<le> nat \<lceil>4 * (deadline - 2 - pr_clock_timeout pr)\<rceil> \<and>
    truthful E d' (pd_event p)
      (\<exists>response. request_socket E (at_exchange (attempts m)) (accept_payload (pd_route p) (pd_event p) (pd_body p)) = Inr response \<and>
         py_eq (JObj response) (JObj (accepted_answer (pd_event p)
           (if pd_route p = pd_target_route p then p_alias t else r_alias (pd_route p)) (provider_str (r_provider (pd_route p))))))
      (\<forall>k \<le> m. open_socket (at_exchange (attempts k)) \<noteq> Inr () \<or>
         (\<exists>response. request_socket E (at_exchange (attempts k)) (accept_payload (pd_route p) (pd_event p) (pd_body p)) = Inr response \<and>
            refused (pd_event p) (peer_str (p_provider t)) response)) r"
proof -
  let ?rq = "\<lambda>x. request_socket E x (accept_payload (pd_route p) (pd_event p) (pd_body p))"
  let ?prov = "peer_str (p_provider t)"
  obtain out m d2 where loop: "resend attempts ?rq (is_busy (pd_event p) ?prov) deadline (pr_clock_timeout pr)
      PRE_EFFECT_RETRY_SECONDS 0 d1 = Some (out, m, d2)" "m \<le> nat \<lceil>4 * (deadline - 2 - pr_clock_timeout pr)\<rceil>"
    "traced attempts ?rq (is_busy (pd_event p) ?prov) 0 out m" "(others_step attempts)\<^sup>*\<^sup>* d1 d2"
    using resend_first [of attempts ?rq "is_busy (pd_event p) ?prov" d1 deadline "pr_clock_timeout pr"]
    by (auto simp: ends_within_def)
  have "known_event E d1 (pd_event p)" using begin_delivery_known [OF assms(1,2,5,6)] by blast
  then have "known_event E d2 (pd_event p)" by (rule known_event_steps [OF assms(1) fair_steps [OF loop(4) assms(3)]])
  from local_outcome_truthful [OF assms(1) this] obtain r d' where
    r: "local_outcome E stamp d2 (pd_event p) t (accepted_answer (pd_event p)
          (if pd_route p = pd_target_route p then p_alias t else r_alias (pd_route p)) (provider_str (r_provider (pd_route p)))) out = (r, d')"
      "truthful E d' (pd_event p) (\<exists>response. out = Reply response \<and> py_eq (JObj response) (JObj (accepted_answer (pd_event p)
          (if pd_route p = pd_target_route p then p_alias t else r_alias (pd_route p)) (provider_str (r_provider (pd_route p))))))
        (fruitless (refused (pd_event p) ?prov) out) r" by blast
  have run: "send_native E pr attempts stamp deadline d source t message event_id = Some (r, d')"
    using loop(1) r(1) by (simp add: send_native_def assms(4) Let_def begun_route [OF assms(6,7)])
  show ?thesis
  proof (intro exI conjI)
    show "send_native E pr attempts stamp deadline d source t message event_id = Some (r, d')" by (rule run)
    show "m \<le> nat \<lceil>4 * (deadline - 2 - pr_clock_timeout pr)\<rceil>" by (rule loop(2))
    show "truthful E d' (pd_event p)
      (\<exists>response. ?rq (at_exchange (attempts m)) = Inr response \<and> py_eq (JObj response) (JObj (accepted_answer (pd_event p)
           (if pd_route p = pd_target_route p then p_alias t else r_alias (pd_route p)) (provider_str (r_provider (pd_route p))))))
      (\<forall>k \<le> m. open_socket (at_exchange (attempts k)) \<noteq> Inr () \<or>
         (\<exists>response. ?rq (at_exchange (attempts k)) = Inr response \<and> refused (pd_event p) ?prov response)) r"
      using socket_sends.all_without_effect [OF loop(3)] loop(3)
      by (intro truthful_mono [OF r(2)]) (auto simp: fruitless_def traced_def)
  qed
qed

text \<open>
  C3. A remote send is decided and truthful in the same way: it returns after a bounded number of
  attempts; success means an accepted row and exactly the expected acceptance from the remote
  broker; an \<open>UnknownDeliveryError\<close> an unknown row; and any other \<open>ChatError\<close> a rejected row
  after attempts that all wrote nothing, met a broker at capacity, or were refused before effect.
\<close>

theorem send_remote_truthful:
  assumes "env_ok E" "intents_inv E (pr_others pr d)" "fair_others E attempts"
    and "prepare_remote E pr deadline d source t node message event_id = Inr (al, event, body)" "list_all is_code_point al"
    and "begin_delivery E (pr_stamp pr) (pr_others pr d) source (p_session_key t) (p_generation t) al body event = Inr (None, d1)"
    and "is_endpoint source \<longrightarrow> source_current E (pr_host_after pr) d1 source = Inr True"
    and "remote_envelope E event al (source_generation source) (p_alias t) (p_generation t) body = Inr envelope"
  shows "\<exists>r d' m. send_remote_target E pr attempts stamp deadline d source t node message event_id = Some (r, d') \<and>
    m \<le> nat \<lceil>4 * (deadline - 2 - pr_clock_timeout pr)\<rceil> \<and>
    truthful E d' event
      (\<exists>response. request_tailnet E (at_exchange (attempts m)) (receive_payload envelope) = Inr response \<and>
         py_eq (JObj response) (JObj (accepted_answer event (p_alias t) (peer_str (p_provider t)))))
      (\<forall>k \<le> m. open_tailnet (at_exchange (attempts k)) \<noteq> Inr () \<or>
         (\<exists>response. request_tailnet E (at_exchange (attempts k)) (receive_payload envelope) = Inr response \<and>
            (at_capacity response \<or> refused event (peer_str (p_provider t)) response))) r"
proof -
  let ?rq = "\<lambda>x. request_tailnet E x (receive_payload envelope)" and ?prov = "peer_str (p_provider t)"
  obtain out m d2 where loop: "resend attempts ?rq at_capacity deadline (pr_clock_timeout pr)
      PRE_EFFECT_RETRY_SECONDS 0 d1 = Some (out, m, d2)" "m \<le> nat \<lceil>4 * (deadline - 2 - pr_clock_timeout pr)\<rceil>"
    "traced attempts ?rq at_capacity 0 out m" "(others_step attempts)\<^sup>*\<^sup>* d1 d2"
    using resend_first [of attempts ?rq at_capacity d1 deadline "pr_clock_timeout pr"] by (auto simp: ends_within_def)
  have "known_event E d1 event" using begin_delivery_known [OF assms(1,2,5,6)] by blast
  then have "known_event E d2 event" by (rule known_event_steps [OF assms(1) fair_steps [OF loop(4) assms(3)]])
  from remote_outcome_truthful [OF assms(1) this] obtain r d' where
    r: "remote_outcome E stamp d2 event t out = (r, d')"
      "truthful E d' event (\<exists>response. out = Reply response \<and> py_eq (JObj response) (JObj (accepted_answer event (p_alias t) ?prov)))
        (fruitless (\<lambda>r. at_capacity r \<or> refused event ?prov r) out) r" by blast
  have "send_remote_target E pr attempts stamp deadline d source t node message event_id = Some (r, d')"
    using loop(1) r(1) by (simp add: send_remote_target_def assms(4,8) begun_route [OF assms(6,7)])
  moreover have "truthful E d' event
      (\<exists>response. ?rq (at_exchange (attempts m)) = Inr response \<and> py_eq (JObj response) (JObj (accepted_answer event (p_alias t) ?prov)))
      (\<forall>k \<le> m. open_tailnet (at_exchange (attempts k)) \<noteq> Inr () \<or>
         (\<exists>response. ?rq (at_exchange (attempts k)) = Inr response \<and> (at_capacity response \<or> refused event ?prov response))) r"
    using tailnet_sends.all_without_effect [OF loop(3), where event = event and provider = ?prov] loop(3)
    by (intro truthful_mono [OF r(2)]) (auto simp: fruitless_def traced_def)
  ultimately show ?thesis using loop(2) by blast
qed

section \<open>A sample send\<close>

definition sample_registry :: dir where
  "sample_registry = registry_write sample_env empty_dir [sample_route]"

lemma sample_registry_routes: "registry_routes sample_env sample_registry = Inr [sample_route]"
proof -
  have "r_provider sample_route = Claude" by (simp add: sample_route_def)
  then show ?thesis
    unfolding sample_registry_def
    by (subst registry_routes_write) (simp_all add: sample_route_storable canonical_order_def)
qed

lemma sample_registry_intents: "intents_inv E sample_registry" "rows_of_dir E sample_registry = []"
proof -
  have "anchor_generation intents_json = None" by (simp add: anchor_generation_def intents_json_def lit_def Let_def)
  moreover have "intents_json \<noteq> routes_json" "intents_json \<noteq> devin_routes_json"
    by (simp_all add: intents_json_def routes_json_def devin_routes_json_def)
  ultimately have "files sample_registry intents_json = None"
    by (simp add: sample_registry_def registry_write_def Let_def prune_owner_anchors_def empty_dir_def sample_route_def)
  then have "intents E sample_registry = Inr []" by (simp add: intents_def)
  then show "intents_inv E sample_registry" "rows_of_dir E sample_registry = []"
    by (simp_all add: intents_inv_def intents_ok_def rows_of_dir_def gate_def)
qed

definition sample_host :: host where
  "sample_host = \<lparr>h_root = lit ''/state'', h_uid = 5, h_kill = (\<lambda>_. Signalled),
     h_fs = \<lparr>fs_resolve = Inr, fs_is_dir = (\<lambda>_. True)\<rparr>, h_owner_current = (\<lambda>_. True), h_wall = 0\<rparr>"

definition sample_agent :: claude_agent where
  "sample_agent = \<lparr>ag_session_id = sample_uuid 49, ag_name = lit ''cam'', ag_kind = lit ''k'', ag_cwd = lit ''/p''\<rparr>"

definition sample_preparation :: preparation where
  "sample_preparation = \<lparr>pr_host = sample_host, pr_clock_alias = 0, pr_agent = Inr sample_agent, pr_clock_retry = 0,
     pr_agent_retry = fail ''no'', pr_others = (\<lambda>d. d), pr_host_after = sample_host, pr_clock_title = 0,
     pr_binary = Inr None, pr_titles = (\<lambda>_. None), pr_uuid4 = sample_uuid 51, pr_clock_timeout = 0, pr_stamp = 0\<rparr>"

definition sample_target :: target where
  "sample_target = \<lparr>p_alias = lit ''claude@mac:p:cam'', p_provider = Native Claude, p_device = lit ''mac'',
     p_project = lit ''p'', p_generation = sample_uuid 50, p_session_key = sample_hex64 98, p_remote = False,
     p_session_id = Some (sample_uuid 49), p_cwd = Some (lit ''/p''), p_pid = Some 7,
     p_tailnet_address = Some (lit ''100.64.0.1''), p_tailnet_node_id = Some (lit ''nCNTRL''), p_delivery_mode = None,
     p_delivery_mechanism = None, p_title = None, p_current_boundary = None\<rparr>"

text \<open>Attempts that find no courier.\<close>

definition sample_attempts :: "nat \<Rightarrow> attempt" where
  "sample_attempts k = \<lparr>at_exchange = \<lparr>ex_check = Inl OSError, ex_late_connect = False, ex_connect = Inl OSError,
       ex_late_write = False, ex_write = Inr (), ex_late_read = False, ex_reply = []\<rparr>,
     at_others = (\<lambda>d. d), at_took = 0, at_overslept = 0\<rparr>"

lemma sample_fair: "fair_others E sample_attempts"
  by (simp add: fair_others_def sample_attempts_def)

lemma sample_source_current: "source_current sample_env sample_host sample_registry (RouteSource sample_route) = Inr True"
proof -
  have "is_absolute (r_cwd sample_route)" "length (r_cwd sample_route) \<le> 512"
    by (simp_all add: sample_route_def is_absolute_def starts_with_def lit_def)
  then have "canonical_cwd \<lparr>fs_resolve = Inr, fs_is_dir = (\<lambda>_. True)\<rparr> (r_cwd sample_route) = Inr (r_cwd sample_route)"
    by (simp add: canonical_cwd_def)
  then show ?thesis
    by (simp add: route_current_def registry_current_def sample_registry_routes sample_host_def and_res_def
        process_is_live_def cwd_is_available_def)
qed

lemma sample_alias_value:
  "canonical_source_alias sample_env sample_preparation 260 sample_registry (RouteSource sample_route) =
     Inr (lit ''claude@mac:p:cam'')"
proof -
  have "lit ''claude@'' @ lit ''mac'' @ 58 # lit ''p'' @ 58 # lit ''cam'' = lit ''claude@mac:p:cam''" by (simp add: lit_def)
  moreover have "name_shape sample_env (lit ''p'')" "name_shape sample_env (lit ''cam'')"
    "name_shape sample_env (lit ''claude@mac:p:cam'')"
    by (rule sample_name_shape; simp add: lit_def)+
  then have "valid_name sample_env (lit ''p'') f = Inr (lit ''p'')" "valid_name sample_env (lit ''cam'') f = Inr (lit ''cam'')"
    "valid_name sample_env (lit ''claude@mac:p:cam'') f = Inr (lit ''claude@mac:p:cam'')" for f
    by (simp_all add: valid_name_iff)
  ultimately have "claude_alias sample_env (r_device sample_route) (r_project sample_route) sample_agent = Inr (lit ''claude@mac:p:cam'')"
    by (simp add: claude_alias_def sample_route_def sample_agent_def Let_def)
  then show ?thesis
    using sample_source_current
    by (simp add: sample_preparation_def remaining_operation_timeout_def source_agent_def)
      (simp add: sample_route_def)
qed

lemma sample_alias_shape:
  "name_shape sample_env (lit ''claude@mac:p:cam'')" "list_all (\<lambda>c. 0 < c \<and> c < 128) (lit ''claude@mac:p:cam'')"
  "list_all is_code_point (lit ''claude@mac:p:cam'')"
  by (rule sample_name_shape; simp add: lit_def) (simp_all add: lit_def is_code_point_def)

lemma sample_key: "\<exists>key. source_key sample_env (RouteSource sample_route) = Inr key \<and> hex64 key"
proof -
  have "session_shape (r_provider sample_route) (r_session_id sample_route)"
    by (simp add: sample_route_def session_shape_def sample_simps)
  from session_key_ok [OF this] env_ok_sha [OF sample_env_ok] show ?thesis by fastforce
qed

lemma local_token_ok:
  assumes "hex64 h" "uuid_shape g" "env_ok E" "is_ok (encode (lit ''cac-recipient-origin-v1'' @ 0 # canonical))"
  shows "\<exists>t. local_token E canonical h g = Inr t"
proof -
  obtain x where x: "local_origin E canonical = Inr x" "hex64 x"
    using assms(3,4) env_ok_sha [OF assms(3)] by (auto simp: local_origin_def is_ok_iff)
  have loc: "list_all tame (lit ''local'')" by (simp add: lit_def tame_def)
  have "length h + length g + length x + length (lit ''local'') \<le> 300"
    using assms x by (simp add: hex64_def uuid_shape_def)
  from token_parse [OF tame_hex64 [OF assms(1)] tame_uuid [OF assms(2)] tame_hex64 [OF x(2)] loc _ this, of "lit ''o''" E]
  have "\<exists>t. token_encode E [(lit ''v'', JInt 2), (lit ''s'', JStr (lit ''local'')), (lit ''h'', JStr h),
      (lit ''g'', JStr g), (lit ''o'', JStr x)] = Inr t" by blast
  moreover have "checked_handle h = Inr h" "valid_uuid g f = Inr g" for f using assms by (simp_all add: valid_simps)
  ultimately show ?thesis using x(1) by (simp add: local_token_def RECIPIENT_TOKEN_VERSION_def)
qed

text \<open>The body of a sample message, for any token the sender may put into it.\<close>

lemma sample_wrap:
  assumes "\<And>key. hex64 key \<Longrightarrow> \<exists>tok t. token key = Inr tok \<and> parse_recipient_token sample_env tok = Inr (Some t)"
  obtains body where "wrap_for sample_env sample_preparation 260 (RouteSource sample_route) (lit ''claude@mac:p:cam'')
      token (lit ''hi'') None (peer_str (p_provider sample_target)) = Inr (sample_uuid 51, body)" "message_shape body"
proof -
  obtain key where key: "source_key sample_env (RouteSource sample_route) = Inr key" "hex64 key" using sample_key by blast
  obtain tok t where tok: "token key = Inr tok" "parse_recipient_token sample_env tok = Inr (Some t)"
    using assms [OF key(2)] by blast
  have "list_all (\<lambda>c. 0 < c \<and> c < 128) (lit ''hi'')" by (simp add: lit_def)
  then obtain body where b: "wrapped_message sample_env (lit ''claude@mac:p:cam'') tok (lit ''hi'') (sample_uuid 51) (provider_str Claude) None = Inr body"
    using wrapped_message_ok [OF tok(2) sample_alias_shape(1,2), of "sample_uuid 51" "lit ''hi''" Claude] by (auto simp: sample_simps)
  have "message_shape (lit ''hi'')" by (rule small_message) (simp_all add: lit_def)
  then have m: "bounded_message (lit ''hi'') = Inr (lit ''hi'')" by (simp add: bounded_message_iff)
  have "source_display_title sample_preparation 260 (RouteSource sample_route) = Inr None" by (simp add: sample_route_def)
  with key tok b m show thesis
    using that [of body] wrapped_message_shape [OF b]
    by (simp add: wrap_for_def event_of_def sample_preparation_def sample_target_def del: source_key.simps source_display_title.simps)
qed

lemma sample_begin_delivery:
  assumes "message_shape body"
  obtains d1 where "begin_delivery sample_env 0 sample_registry (RouteSource sample_route) (p_session_key sample_target)
     (p_generation sample_target) (lit ''claude@mac:p:cam'') body (sample_uuid 51) = Inr (None, d1)"
proof -
  obtain key where key: "source_key sample_env (RouteSource sample_route) = Inr key" "hex64 key" using sample_key by blast
  have "\<exists>b. encode body = Inr b" using assms by (simp add: message_shape_def encode_def utf8_encode_def)
  then obtain g where g: "payload_digest sample_env body = Inr g" "hex64 g"
    using env_ok_sha [OF sample_env_ok] by (auto simp: payload_digest_def)
  have "intents_ok sample_env sample_registry" using sample_registry_intents(1) by (simp add: intents_inv_def)
  from begin_ok_iff [OF this, of 0 "sample_uuid 51" key "sample_uuid 50" "lit ''claude@mac:p:cam''" "sample_hex64 98"
      "sample_uuid 50" g "Some (sample_uuid 51)"] key(2) g(2) sample_alias_shape(1)
  have "is_ok (begin_identity sample_env 0 (sample_uuid 51) sample_registry key (sample_uuid 50) (lit ''claude@mac:p:cam'')
      (sample_hex64 98) (sample_uuid 50) g (Some (sample_uuid 51)))"
    by (simp add: begin_args_valid_def sample_registry_intents(2) unblocked_def sample_simps)
  then show thesis
    using that key(1) g(1) by (auto simp: begin_delivery_def is_ok_iff sample_target_def sample_route_def simp del: source_key.simps)
qed

lemma sample_prepare_local:
  obtains p d1 where "prepare_local sample_env sample_preparation 260 sample_registry (RouteSource sample_route) sample_target
       (lit ''hi'') None = Inr p" "pd_alias p = lit ''claude@mac:p:cam''" "pd_event p = sample_uuid 51"
    "begin_delivery sample_env (pr_stamp sample_preparation) (pr_others sample_preparation sample_registry) (RouteSource sample_route)
       (p_session_key sample_target) (p_generation sample_target) (pd_alias p) (pd_body p) (pd_event p) = Inr (None, d1)"
proof -
  have route: "delivery_route sample_env sample_host sample_registry sample_target = Inr (sample_route, sample_route)"
    by (simp add: delivery_route_def sample_registry_routes the_one_def)
      (simp add: sample_route_def sample_target_def)
  have "is_ok (encode (lit ''cac-recipient-origin-v1'' @ 0 # lit ''/state''))"
    by (subst encode_ascii) (simp_all add: lit_def)
  note origin = this
  have tok: "\<exists>tok t. local_token sample_env (lit ''/state'') key (sample_uuid 50) = Inr tok \<and>
      parse_recipient_token sample_env tok = Inr (Some t)" if key: "hex64 key" for key
  proof -
    obtain tok where "local_token sample_env (lit ''/state'') key (sample_uuid 50) = Inr tok"
      using local_token_ok [OF key sample_uuid_shape [of 50] sample_env_ok origin] by (auto simp: is_hex_def is_digit_def)
    with local_token_parse [OF sample_env_ok this] show ?thesis by blast
  qed
  obtain body where body: "wrap_for sample_env sample_preparation 260 (RouteSource sample_route) (lit ''claude@mac:p:cam'')
      (\<lambda>key. local_token sample_env (lit ''/state'') key (sample_uuid 50)) (lit ''hi'') None (peer_str (p_provider sample_target)) =
      Inr (sample_uuid 51, body)" "message_shape body"
    using sample_wrap [where token = "\<lambda>key. local_token sample_env (lit ''/state'') key (sample_uuid 50)", OF tok] by blast
  obtain d1 where d1: "begin_delivery sample_env 0 sample_registry (RouteSource sample_route) (p_session_key sample_target)
     (p_generation sample_target) (lit ''claude@mac:p:cam'') body (sample_uuid 51) = Inr (None, d1)"
    using sample_begin_delivery [OF body(2)] by blast
  let ?p = "\<lparr>pd_alias = lit ''claude@mac:p:cam'', pd_event = sample_uuid 51, pd_body = body, pd_target_route = sample_route, pd_route = sample_route\<rparr>"
  have g: "source_generation (RouteSource sample_route) = sample_uuid 50" by (simp add: sample_route_def)
  have pr: "pr_host_after sample_preparation = sample_host" "pr_others sample_preparation d = d" "pr_stamp sample_preparation = 0"
    "h_root (pr_host sample_preparation) = lit ''/state''" "pr_clock_timeout sample_preparation = 0" for d
    by (simp_all add: sample_preparation_def sample_host_def)
  have t: "p_session_id sample_target \<noteq> None" "p_pid sample_target \<noteq> None" "p_cwd sample_target \<noteq> None"
    by (simp_all add: sample_target_def)
  have "prepare_local sample_env sample_preparation 260 sample_registry (RouteSource sample_route) sample_target (lit ''hi'') None = Inr ?p"
    using t body(1)
    by (simp add: prepare_local_def sample_alias_value pr route g remaining_operation_timeout_def
        del: canonical_source_alias.simps source_generation.simps)
  with d1 show thesis using that [of ?p d1] by (simp add: pr)
qed

theorem send_local_truthful_witness:
  "\<exists>r d' m. send_native sample_env sample_preparation sample_attempts 0 260 sample_registry (RouteSource sample_route) sample_target
     (lit ''hi'') None = Some (r, d') \<and> m \<le> nat \<lceil>4 * (260 - 2 - pr_clock_timeout sample_preparation)\<rceil>"
proof -
  obtain p d1 where p: "prepare_local sample_env sample_preparation 260 sample_registry (RouteSource sample_route) sample_target
       (lit ''hi'') None = Inr p" "pd_alias p = lit ''claude@mac:p:cam''"
    "begin_delivery sample_env (pr_stamp sample_preparation) (pr_others sample_preparation sample_registry) (RouteSource sample_route)
       (p_session_key sample_target) (p_generation sample_target) (pd_alias p) (pd_body p) (pd_event p) = Inr (None, d1)"
    using sample_prepare_local by metis
  have inv: "intents_inv sample_env (pr_others sample_preparation sample_registry)"
    using sample_registry_intents(1) by (simp add: sample_preparation_def)
  have al: "list_all is_code_point (pd_alias p)" using sample_alias_shape(3) p(2) by simp
  have "is_endpoint (RouteSource sample_route) \<longrightarrow> source_current sample_env (pr_host_after sample_preparation) d1 (RouteSource sample_route) = Inr True"
    by simp
  from send_local_truthful [OF sample_env_ok inv sample_fair p(1) al p(3) this, of 0] show ?thesis by blast
qed

lemma sample_prepare_remote:
  obtains body d1 where "prepare_remote sample_env sample_preparation 260 sample_registry (RouteSource sample_route) sample_target
       (lit ''nCNTRL'') (lit ''hi'') None = Inr (lit ''claude@mac:p:cam'', sample_uuid 51, body)" "message_shape body"
    "begin_delivery sample_env (pr_stamp sample_preparation) (pr_others sample_preparation sample_registry) (RouteSource sample_route)
       (p_session_key sample_target) (p_generation sample_target) (lit ''claude@mac:p:cam'') body (sample_uuid 51) = Inr (None, d1)"
proof -
  have tok: "\<exists>tok t. remote_token sample_env (lit ''nCNTRL'') key (sample_uuid 50) = Inr tok \<and>
      parse_recipient_token sample_env tok = Inr (Some t)" if h: "hex64 key" for key
  proof -
    obtain tok where "remote_token sample_env (lit ''nCNTRL'') key (sample_uuid 50) = Inr tok"
      using remote_token_ok [OF sample_node h, of "sample_uuid 50" sample_env] by (auto simp: sample_simps)
    with remote_token_parse [OF this] show ?thesis by blast
  qed
  obtain body where body: "wrap_for sample_env sample_preparation 260 (RouteSource sample_route) (lit ''claude@mac:p:cam'')
      (\<lambda>key. remote_token sample_env (lit ''nCNTRL'') key (sample_uuid 50)) (lit ''hi'') None (peer_str (p_provider sample_target)) =
      Inr (sample_uuid 51, body)" "message_shape body"
    using sample_wrap [where token = "\<lambda>key. remote_token sample_env (lit ''nCNTRL'') key (sample_uuid 50)", OF tok] by blast
  obtain d1 where d1: "begin_delivery sample_env 0 sample_registry (RouteSource sample_route) (p_session_key sample_target)
     (p_generation sample_target) (lit ''claude@mac:p:cam'') body (sample_uuid 51) = Inr (None, d1)"
    using sample_begin_delivery [OF body(2)] by blast
  have g: "source_generation (RouteSource sample_route) = sample_uuid 50" by (simp add: sample_route_def)
  have pr: "pr_others sample_preparation d = d" "pr_stamp sample_preparation = 0" "pr_clock_timeout sample_preparation = 0" for d
    by (simp_all add: sample_preparation_def)
  have "p_tailnet_address sample_target \<noteq> None" by (simp add: sample_target_def)
  then have "prepare_remote sample_env sample_preparation 260 sample_registry (RouteSource sample_route) sample_target
       (lit ''nCNTRL'') (lit ''hi'') None = Inr (lit ''claude@mac:p:cam'', sample_uuid 51, body)"
    using body(1)
    by (simp add: prepare_remote_def sample_alias_value pr g remaining_operation_timeout_def
        del: canonical_source_alias.simps source_generation.simps)
  with d1 body(2) show thesis using that [of body d1] by (simp add: pr)
qed

theorem send_remote_truthful_witness:
  "\<exists>r d' m. send_remote_target sample_env sample_preparation sample_attempts 0 260 sample_registry (RouteSource sample_route) sample_target
     (lit ''nCNTRL'') (lit ''hi'') None = Some (r, d') \<and> m \<le> nat \<lceil>4 * (260 - 2 - pr_clock_timeout sample_preparation)\<rceil>"
proof -
  obtain body d1 where p: "prepare_remote sample_env sample_preparation 260 sample_registry (RouteSource sample_route) sample_target
       (lit ''nCNTRL'') (lit ''hi'') None = Inr (lit ''claude@mac:p:cam'', sample_uuid 51, body)" "message_shape body"
    "begin_delivery sample_env (pr_stamp sample_preparation) (pr_others sample_preparation sample_registry) (RouteSource sample_route)
       (p_session_key sample_target) (p_generation sample_target) (lit ''claude@mac:p:cam'') body (sample_uuid 51) = Inr (None, d1)"
    using sample_prepare_remote by metis
  have inv: "intents_inv sample_env (pr_others sample_preparation sample_registry)"
    using sample_registry_intents(1) by (simp add: sample_preparation_def)
  obtain envelope where e: "remote_envelope sample_env (sample_uuid 51) (lit ''claude@mac:p:cam'') (source_generation (RouteSource sample_route))
      (p_alias sample_target) (p_generation sample_target) body = Inr envelope"
    using p(2) sample_alias_shape(1) by (auto simp: remote_envelope_iff sample_target_def sample_route_def sample_simps simp del: dumps.simps)
  have "is_endpoint (RouteSource sample_route) \<longrightarrow> source_current sample_env (pr_host_after sample_preparation) d1 (RouteSource sample_route) = Inr True"
    by simp
  from send_remote_truthful [OF sample_env_ok inv sample_fair p(1) sample_alias_shape(3) p(3) this e, of 0] show ?thesis by blast
qed

end
