(* ===== verification/Tailnet.thy ===== *)
theory Tailnet
  imports Tokens
begin

text \<open>
  The tailnet as this device reads it (tailnet.py): which text is a tailnet address, the identity
  of this node and its peers from \<^verbatim>\<open>tailscale status --json\<close>, and the local address checked against
  the interfaces of \<^verbatim>\<open>ifconfig\<close>. What the two commands printed is an argument.
\<close>

section \<open>Addresses\<close>

fun split_dot :: "str \<Rightarrow> str list" where
  "split_dot [] = [[]]"
| "split_dot (c # s) =
     (if c = 46 then [] # split_dot s
      else (case split_dot s of [] \<Rightarrow> [[c]] | w # ws \<Rightarrow> (c # w) # ws))"

text \<open>
  \<^verbatim>\<open>ipaddress\<close> accepts an IPv4 address as four decimal octets without leading zeros and prints it
  the same way. An IPv6 address is refused by every caller like text that is no address.
\<close>

definition octet_value :: "str \<Rightarrow> nat option" where
  "octet_value s =
     (if s \<noteq> [] \<and> list_all is_digit s \<and> length s \<le> 3 \<and> (s = [48] \<or> hd s \<noteq> 48) \<and> dec_value s \<le> 255
      then Some (dec_value s) else None)"

definition ipv4_value :: "str \<Rightarrow> nat list option" where
  "ipv4_value s =
     (let octets = map octet_value (split_dot s) in
      if length octets = 4 \<and> list_all (\<lambda>v. v \<noteq> None) octets then Some (map the octets) else None)"

fun join_dot :: "str list \<Rightarrow> str" where
  "join_dot [] = []"
| "join_dot [w] = w"
| "join_dot (w # ws) = w @ 46 # join_dot ws"

definition ipv4_str :: "nat list \<Rightarrow> str" where
  "ipv4_str v = join_dot (map dec_str v)"

text \<open>\<open>TAILNET_NETWORK\<close>, 100.64.0.0/10.\<close>

definition in_tailnet :: "nat list \<Rightarrow> bool" where
  "in_tailnet v \<longleftrightarrow> v ! 0 = 100 \<and> v ! 1 div 64 = 1"

definition tailnet_value :: "str \<Rightarrow> str option" where
  "tailnet_value s =
     (case ipv4_value s of
        None \<Rightarrow> None
      | Some v \<Rightarrow> if in_tailnet v then Some (ipv4_str v) else None)"

definition valid_tailnet_address :: "str \<Rightarrow> str res" where
  "valid_tailnet_address s =
     (case tailnet_value s of None \<Rightarrow> fail ''Tailnet address is invalid'' | Some a \<Rightarrow> Inr a)"

definition tailnet_shape :: "str \<Rightarrow> bool" where
  "tailnet_shape s \<longleftrightarrow> (\<exists>v. ipv4_value s = Some v \<and> in_tailnet v)"

section \<open>The status of the tailnet\<close>

definition bad_status :: "'a res" where
  "bad_status = fail ''Tailscale status is invalid''"

definition status_node_id :: "json option \<Rightarrow> str res" where
  "status_node_id value =
     (case value of Some (JStr s) \<Rightarrow> if node_id_shape s then Inr s else bad_status | _ \<Rightarrow> bad_status)"

fun first_tailnet :: "str list \<Rightarrow> str option" where
  "first_tailnet [] = None"
| "first_tailnet (s # ss) = (case tailnet_value s of Some a \<Rightarrow> Some a | None \<Rightarrow> first_tailnet ss)"

definition address_list :: "json option \<Rightarrow> str list res" where
  "address_list value =
     (case value of
        Some (JArr items) \<Rightarrow>
          if list_all (\<lambda>v. as_str (Some v) \<noteq> None) items
          then Inr (map (\<lambda>v. the (as_str (Some v))) items) else bad_status
      | _ \<Rightarrow> bad_status)"

definition peer_tailnet_address :: "dict \<Rightarrow> str option res" where
  "peer_tailnet_address peer =
     bind (address_list (jget peer ''TailscaleIPs'')) (\<lambda>items. Inr (first_tailnet items))"

record tailnet_identity =
  ti_self_node_id :: "str option"
  ti_peers :: "(str \<times> str) list"

text \<open>One peer of the status: nothing when it is offline or has no tailnet address.\<close>

definition online_peer :: "json \<Rightarrow> (str \<times> str) option res" where
  "online_peer value =
     (case value of
        JObj peer \<Rightarrow>
          (case jget peer ''Online'' of
             Some (JBool online) \<Rightarrow>
               bind (peer_tailnet_address peer) (\<lambda>address.
               case address of
                 None \<Rightarrow> Inr None
               | Some a \<Rightarrow>
                   if \<not> online then Inr None
                   else bind (status_node_id (jget peer ''ID'')) (\<lambda>n. Inr (Some (n, a))))
           | _ \<Rightarrow> bad_status)
      | _ \<Rightarrow> bad_status)"

text \<open>The loop over the peers, with \<open>peers\<close> and the inverse map \<open>owners\<close>.\<close>

fun collect_peers :: "json list \<Rightarrow> (str \<times> str) list \<Rightarrow> (str \<times> str) list \<Rightarrow> (str \<times> str) list res" where
  "collect_peers [] peers owners = Inr peers"
| "collect_peers (v # vs) peers owners =
     bind (online_peer v) (\<lambda>p.
     case p of
       None \<Rightarrow> collect_peers vs peers owners
     | Some (n, a) \<Rightarrow>
         if map_of peers n \<noteq> None then bad_status
         else
           (case map_of owners a of
              Some m \<Rightarrow> if m \<noteq> n then bad_status else collect_peers vs (peers @ [(n, a)]) owners
            | None \<Rightarrow> collect_peers vs (peers @ [(n, a)]) (owners @ [(a, n)])))"

definition parse_status :: "pyenv \<Rightarrow> str \<Rightarrow> dict res" where
  "parse_status E tx =
     bind (except_chat (\<lambda>e. e = JSONDecodeError) ''Tailscale status is invalid'' (loads (float_parse E) tx)) (\<lambda>raw.
     case raw of JObj d \<Rightarrow> Inr d | _ \<Rightarrow> bad_status)"

text \<open>\<^verbatim>\<open>status.get(key)\<close> is \<open>None\<close> for a missing key and for \<^verbatim>\<open>null\<close>.\<close>

definition self_node :: "dict \<Rightarrow> str option res" where
  "self_node status =
     (case jget status ''Self'' of
        None \<Rightarrow> Inr None
      | Some JNull \<Rightarrow> Inr None
      | Some (JObj d) \<Rightarrow> bind (status_node_id (jget d ''ID'')) (\<lambda>n. Inr (Some n))
      | Some _ \<Rightarrow> bad_status)"

definition parse_tailnet_identity :: "pyenv \<Rightarrow> str \<Rightarrow> tailnet_identity res" where
  "parse_tailnet_identity E tx =
     bind (parse_status E tx) (\<lambda>status.
     bind (self_node status) (\<lambda>self.
     case jget status ''Peer'' of
       Some (JObj peers) \<Rightarrow>
         bind (collect_peers (map snd peers) [] []) (\<lambda>ps. Inr \<lparr>ti_self_node_id = self, ti_peers = ps\<rparr>)
     | _ \<Rightarrow> bad_status))"

definition self_tailnet_address :: "dict \<Rightarrow> str option res" where
  "self_tailnet_address status =
     (case jget status ''Self'' of
        Some (JObj d) \<Rightarrow>
          bind (address_list (jget d ''TailscaleIPs'')) (\<lambda>items.
          case first_tailnet items of
            None \<Rightarrow> Inr None
          | Some a \<Rightarrow> bind (valid_tailnet_address a) (\<lambda>x. Inr (Some x)))
      | _ \<Rightarrow> bad_status)"

definition parse_local_tailnet_address :: "pyenv \<Rightarrow> str \<Rightarrow> str option res" where
  "parse_local_tailnet_address E tx =
     bind (parse_status E tx) (\<lambda>status.
     if jget status ''BackendState'' \<noteq> Some (JStr (lit ''Running'')) then Inr None
     else self_tailnet_address status)"

definition parse_known_tailnet_address :: "pyenv \<Rightarrow> str \<Rightarrow> str option res" where
  "parse_known_tailnet_address E tx = bind (parse_status E tx) self_tailnet_address"

section \<open>Interfaces\<close>

definition is_linebreak :: "nat \<Rightarrow> bool" where
  "is_linebreak c \<longleftrightarrow> 10 \<le> c \<and> c \<le> 13 \<or> 28 \<le> c \<and> c \<le> 30 \<or> c = 133 \<or> c = 8232 \<or> c = 8233"

text \<open>\<^verbatim>\<open>splitlines\<close>: a carriage return followed by a newline is one break.\<close>

fun splitlines_from :: "str \<Rightarrow> str \<Rightarrow> str list" where
  "splitlines_from acc [] = (if acc = [] then [] else [rev acc])"
| "splitlines_from acc (c # s) =
     (if c = 13 \<and> s \<noteq> [] \<and> hd s = 10 then rev acc # splitlines_from [] (tl s)
      else if is_linebreak c then rev acc # splitlines_from [] s
      else splitlines_from (c # acc) s)"

definition splitlines :: "str \<Rightarrow> str list" where
  "splitlines = splitlines_from []"

fun split_space :: "str \<Rightarrow> str \<Rightarrow> str list" where
  "split_space acc [] = (if acc = [] then [] else [rev acc])"
| "split_space acc (c # s) =
     (if is_space c then (if acc = [] then split_space [] s else rev acc # split_space [] s)
      else split_space (c # acc) s)"

definition is_header :: "str \<Rightarrow> bool" where
  "is_header line \<longleftrightarrow> line \<noteq> [] \<and> \<not> is_space (hd line) \<and> 58 \<in> set line"

definition header_name :: "str \<Rightarrow> str" where
  "header_name line = takeWhile (\<lambda>c. c \<noteq> 58) line"

text \<open>The address of an \<^verbatim>\<open>inet\<close> line.\<close>

definition inet_field :: "str \<Rightarrow> str option" where
  "inet_field line =
     (case split_space [] line of
        f # a # _ \<Rightarrow> if f = lit ''inet'' then Some a else None
      | _ \<Rightarrow> None)"

fun tunnel_inets :: "str \<Rightarrow> str list \<Rightarrow> str list" where
  "tunnel_inets interface [] = []"
| "tunnel_inets interface (line # lines) =
     (if is_header line then tunnel_inets (header_name line) lines
      else if starts_with (lit ''utun'') interface
      then (case inet_field line of
              None \<Rightarrow> tunnel_inets interface lines
            | Some a \<Rightarrow> a # tunnel_inets interface lines)
      else tunnel_inets interface lines)"

definition parse_ifconfig_tailnet_address :: "str \<Rightarrow> str option" where
  "parse_ifconfig_tailnet_address tx =
     (case remdups (List.map_filter tailnet_value (tunnel_inets [] (splitlines tx))) of
        [a] \<Rightarrow> Some a | _ \<Rightarrow> None)"

definition interface_has_address :: "str \<Rightarrow> str \<Rightarrow> bool" where
  "interface_has_address tx expected \<longleftrightarrow> expected \<in> set (tunnel_inets [] (splitlines tx))"

section \<open>This device\<close>

text \<open>\<open>output\<close> is what the status command printed, if it ran and returned 0.\<close>

definition chat_to_none :: "'a option res \<Rightarrow> 'a option res" where
  "chat_to_none r = (case r of Inl e \<Rightarrow> if is_chat_error e then Inr None else Inl e | Inr x \<Rightarrow> Inr x)"

definition tailnet_identity_of :: "pyenv \<Rightarrow> str option \<Rightarrow> tailnet_identity option res" where
  "tailnet_identity_of E output =
     (case output of
        None \<Rightarrow> Inr None
      | Some tx \<Rightarrow> chat_to_none (bind (parse_tailnet_identity E tx) (\<lambda>i. Inr (Some i))))"

text \<open>\<open>configured\<close> is \<^verbatim>\<open>CROSS_AGENT_CHAT_TAILNET_ADDRESS\<close>; \<open>interfaces\<close> what \<^verbatim>\<open>ifconfig\<close> printed.\<close>

definition local_tailnet_address :: "pyenv \<Rightarrow> str option \<Rightarrow> str option \<Rightarrow> str option \<Rightarrow> str option res" where
  "local_tailnet_address E output configured interfaces =
     bind (case output of
             None \<Rightarrow>
               (case configured of
                  None \<Rightarrow> Inr None
                | Some c \<Rightarrow> chat_to_none (bind (valid_tailnet_address c) (\<lambda>a. Inr (Some a))))
           | Some tx \<Rightarrow> chat_to_none (parse_local_tailnet_address E tx)) (\<lambda>address.
     case (address, interfaces) of
       (Some a, Some tx) \<Rightarrow> if interface_has_address tx a then Inr (Some a) else Inr None
     | _ \<Rightarrow> Inr None)"

definition known_tailnet_address :: "pyenv \<Rightarrow> str option \<Rightarrow> str option res" where
  "known_tailnet_address E output =
     (case output of None \<Rightarrow> Inr None | Some tx \<Rightarrow> chat_to_none (parse_known_tailnet_address E tx))"

section \<open>Addresses are canonical\<close>

lemma dec_value_snoc: "dec_value (s @ [c]) = 10 * dec_value s + (c - 48)"
  by (simp add: dec_value_def)

lemma dec_str_dec_value:
  "s \<noteq> [] \<Longrightarrow> list_all is_digit s \<Longrightarrow> s = [48] \<or> hd s \<noteq> 48 \<Longrightarrow> dec_str (dec_value s) = s"
proof (induction s rule: rev_induct)
  case (snoc c s)
  obtain k where c: "c = 48 + k" "k < 10"
    using snoc.prems(2) by (auto simp: is_digit_def dest!: le_Suc_ex)
  show ?case
  proof (cases "s = []")
    case True
    with c show ?thesis by (simp add: dec_str.simps dec_value_def)
  next
    case False
    then have h: "hd s \<noteq> 48" using snoc.prems(3) by auto
    have IH: "dec_str (dec_value s) = s" using snoc False h by auto
    have "dec_value s \<noteq> 0" using h IH dec_str_0 by (metis list.sel(1))
    then have "dec_str (dec_value (s @ [c])) = dec_str (dec_value s) @ [c]"
      using c by (subst dec_str.simps) (simp add: dec_value_snoc)
    with IH show ?thesis by simp
  qed
qed simp

lemma octet_str: "octet_value s \<noteq> None \<Longrightarrow> dec_str (the (octet_value s)) = s"
  by (auto simp: octet_value_def dec_str_dec_value split: if_splits)

lemma split_dot_neq_Nil [simp]: "split_dot s \<noteq> []"
  by (cases s) (auto split: list.splits)

lemma join_dot_Cons: "ws \<noteq> [] \<Longrightarrow> join_dot (w # ws) = w @ 46 # join_dot ws"
  by (cases ws) auto

lemma join_dot_push: "join_dot ((c # w) # ws) = c # join_dot (w # ws)"
  by (cases ws) auto

lemma join_split_dot [simp]: "join_dot (split_dot s) = s"
proof (induction s)
  case (Cons c s)
  then show ?case by (cases "split_dot s") (auto simp: join_dot_Cons join_dot_push)
qed simp

lemma ipv4_str_value: "ipv4_value s = Some v \<Longrightarrow> ipv4_str v = s"
proof -
  assume "ipv4_value s = Some v"
  then have all: "list_all (\<lambda>w. octet_value w \<noteq> None) (split_dot s)"
    and v: "v = map (\<lambda>w. the (octet_value w)) (split_dot s)"
    by (auto simp: ipv4_value_def Let_def list_all_iff comp_def split: if_splits)
  have "map dec_str v = map (\<lambda>w. dec_str (the (octet_value w))) (split_dot s)" using v by (simp add: comp_def)
  also have "\<dots> = map (\<lambda>w. w) (split_dot s)"
    using all octet_str by (intro map_cong) (auto simp: list_all_iff simp del: not_None_eq)
  finally show ?thesis by (simp add: ipv4_str_def)
qed

lemma tailnet_value_iff [simp]: "tailnet_value s = Some a \<longleftrightarrow> a = s \<and> tailnet_shape s"
  by (auto simp: tailnet_value_def tailnet_shape_def ipv4_str_value split: option.splits if_splits)

lemma tailnet_value_None [simp]: "tailnet_value s = None \<longleftrightarrow> \<not> tailnet_shape s"
  by (metis not_None_eq tailnet_value_iff)

lemma valid_tailnet_address_iff [valid_simps]: "valid_tailnet_address s = Inr a \<longleftrightarrow> a = s \<and> tailnet_shape s"
  by (auto simp: valid_tailnet_address_def split: option.splits)

lemma valid_tailnet_address_error: "valid_tailnet_address s = Inl e \<Longrightarrow> e = ChatError (lit ''Tailnet address is invalid'')"
  by (auto simp: valid_tailnet_address_def fail_def split: option.splits)

lemma first_tailnet_spec: "first_tailnet ss = find tailnet_shape ss"
  by (induction ss) (auto split: option.splits)

section \<open>The peers of a status\<close>

fun somes :: "'a option list \<Rightarrow> 'a list" where
  "somes [] = []"
| "somes (None # xs) = somes xs"
| "somes (Some x # xs) = x # somes xs"

text \<open>
  The map of peers is one to one: no node id and no address occurs twice, whatever the status said.
\<close>

lemma object_case:
  "(case v of Some (JObj d) \<Rightarrow> f d | _ \<Rightarrow> bad_status) = Inr x \<longleftrightarrow> (\<exists>d. v = Some (JObj d) \<and> f d = Inr x)"
  by (auto simp: bad_status_def split: option.splits json.splits)

lemma chat_to_none_Some: "chat_to_none r = Inr (Some a) \<longleftrightarrow> r = Inr (Some a)"
  by (auto simp: chat_to_none_def split: sum.splits)

lemma status_node_id_iff: "status_node_id v = Inr n \<longleftrightarrow> v = Some (JStr n) \<and> node_id_shape n"
  by (auto simp: status_node_id_def bad_status_def split: option.splits json.splits if_splits)

definition peers_ok :: "(str \<times> str) list \<Rightarrow> bool" where
  "peers_ok ps \<longleftrightarrow> distinct (map fst ps) \<and> distinct (map snd ps) \<and>
     list_all (\<lambda>(n, a). node_id_shape n \<and> tailnet_shape a) ps"

lemma online_peer_shape: "online_peer v = Inr (Some (n, a)) \<Longrightarrow> node_id_shape n \<and> tailnet_shape a"
  by (auto simp: online_peer_def peer_tailnet_address_def first_tailnet_spec status_node_id_iff bad_status_def res_simps
      split: json.splits option.splits if_splits dest!: find_Some_iff [THEN iffD1])

lemma collect_peers_spec:
  assumes "collect_peers vs ps (map (\<lambda>(n, a). (a, n)) ps) = Inr qs" "peers_ok ps"
  shows "peers_ok qs \<and> (\<exists>rs. map_res online_peer vs = Inr rs \<and> qs = ps @ somes rs)"
  using assms
proof (induction vs arbitrary: ps)
  case (Cons v vs)
  let ?owners = "map (\<lambda>(n, a). (a, n)) ps"
  from Cons.prems(1) obtain p where p: "online_peer v = Inr p" by (auto simp: res_simps)
  show ?case
  proof (cases p)
    case None
    then have "collect_peers vs ps ?owners = Inr qs" using Cons.prems(1) p by simp
    from Cons.IH [OF this Cons.prems(2)] show ?thesis using None p by force
  next
    case (Some q)
    obtain n a where q: "q = (n, a)" by (cases q)
    have new: "map_of ps n = None" "map_of ?owners a = None \<or> map_of ?owners a = Some n"
      using Cons.prems(1) p Some q by (auto simp: bad_status_def split: if_splits option.splits)
    have "map_of ?owners a \<noteq> Some n" using new(1) by (force simp: map_of_eq_None_iff dest!: map_of_SomeD)
    then have a: "map_of ?owners a = None" using new(2) by blast
    have "n \<notin> fst ` set ps" "a \<notin> snd ` set ps"
      using new(1) a by (force simp: map_of_eq_None_iff)+
    then have ok: "peers_ok (ps @ [(n, a)])"
      using Cons.prems(2) online_peer_shape p Some q by (auto simp: peers_ok_def)
    have "collect_peers vs (ps @ [(n, a)]) (map (\<lambda>(n, a). (a, n)) (ps @ [(n, a)])) = Inr qs"
      using Cons.prems(1) p Some q a new(1) by simp
    from Cons.IH [OF this ok] show ?thesis using p Some q by force
  qed
qed simp

lemma collect_peers_complete:
  assumes "map_res online_peer vs = Inr rs" "peers_ok (ps @ somes rs)"
  shows "collect_peers vs ps (map (\<lambda>(n, a). (a, n)) ps) = Inr (ps @ somes rs)"
  using assms
proof (induction vs arbitrary: ps rs)
  case (Cons v vs)
  from Cons.prems(1) obtain p qs where p: "online_peer v = Inr p" "map_res online_peer vs = Inr qs" "rs = p # qs"
    by (auto simp: res_simps)
  show ?case
  proof (cases p)
    case None
    with p Cons.IH [OF p(2), of ps] Cons.prems(2) show ?thesis by simp
  next
    case (Some q)
    obtain n a where q: "q = (n, a)" by (cases q)
    have ok: "peers_ok ((ps @ [(n, a)]) @ somes qs)"
      using Cons.prems(2) p(3) Some q by simp
    then have "n \<notin> fst ` set ps" "a \<notin> snd ` set ps" by (auto simp: peers_ok_def)
    then have "map_of ps n = None" "map_of (map (\<lambda>(n, a). (a, n)) ps) a = None"
      by (force simp: map_of_eq_None_iff)+
    with p Some q Cons.IH [OF p(2) ok] show ?thesis by simp
  qed
qed simp

lemma peers_ok_inverse:
  assumes "peers_ok ps" "map_of ps n = Some a" "map_of ps m = Some a"
  shows "n = m"
  using assms unfolding peers_ok_def
  by (metis map_of_SomeD distinct_map inj_onD prod.inject snd_conv)

section \<open>Interfaces\<close>

text \<open>An address is listed for a tunnel when an \<^verbatim>\<open>inet\<close> line under the header of a tunnel has it.\<close>

lemma tunnel_inets_iff:
  "a \<in> set (tunnel_inets interface lines) \<longleftrightarrow>
     (\<exists>before line behind. lines = before @ line # behind \<and> inet_field line = Some a \<and> \<not> is_header line \<and>
        (if filter is_header before = [] then starts_with (lit ''utun'') interface
         else starts_with (lit ''utun'') (header_name (last (filter is_header before)))))"
proof (induction lines arbitrary: interface)
  case (Cons l ls)
  have split: "(\<exists>before line behind. l # ls = before @ line # behind \<and> P before line) \<longleftrightarrow>
      P [] l \<or> (\<exists>before line behind. ls = before @ line # behind \<and> P (l # before) line)" for P
    by (auto simp: Cons_eq_append_conv)
  show ?case
    unfolding split by (auto simp: Cons.IH split: option.splits if_splits) 
qed simp

section \<open>Properties\<close>

text \<open>
  C34. The tailnet map is an authority. \<open>parse_tailnet_identity\<close> succeeds exactly when the status is
  an object whose \<^verbatim>\<open>Self\<close> and peers are well formed and no node id and no address occurs twice among
  the online peers; the map then has exactly these peers, in order, each with a valid node id and
  its first address in 100.64.0.0/10. So an address belongs to at most one node.
\<close>

theorem tailnet_identity_spec:
  "parse_tailnet_identity E tx = Inr i \<longleftrightarrow>
     (\<exists>status peers rs. parse_status E tx = Inr status \<and> self_node status = Inr (ti_self_node_id i) \<and>
        jget status ''Peer'' = Some (JObj peers) \<and> map_res online_peer (map snd peers) = Inr rs \<and>
        ti_peers i = somes rs \<and> peers_ok (somes rs)) \<and>
     (\<forall>n m a. map_of (ti_peers i) n = Some a \<and> map_of (ti_peers i) m = Some a \<longrightarrow> n = m)"
proof -
  have ok: "peers_ok []" by (simp add: peers_ok_def)
  note sound = collect_peers_spec [of _ "[]", simplified, OF _ ok]
  note complete = collect_peers_complete [of _ _ "[]", simplified]
  have "parse_tailnet_identity E tx = Inr i \<longleftrightarrow>
     (\<exists>status peers rs. parse_status E tx = Inr status \<and> self_node status = Inr (ti_self_node_id i) \<and>
        jget status ''Peer'' = Some (JObj peers) \<and> map_res online_peer (map snd peers) = Inr rs \<and>
        ti_peers i = somes rs \<and> peers_ok (somes rs))" (is "?L \<longleftrightarrow> ?R")
  proof
    assume ?L
    then obtain status peers where st: "parse_status E tx = Inr status" "self_node status = Inr (ti_self_node_id i)"
      "jget status ''Peer'' = Some (JObj peers)" "collect_peers (map snd peers) [] [] = Inr (ti_peers i)"
      by (auto simp: parse_tailnet_identity_def bind_Inr_iff object_case)
    with sound [OF st(4)] show ?R by auto
  next
    assume ?R
    then show ?L by (auto simp: parse_tailnet_identity_def complete)
  qed
  moreover have "?R \<Longrightarrow> map_of (ti_peers i) n = Some a \<Longrightarrow> map_of (ti_peers i) m = Some a \<Longrightarrow> n = m" for n m a
    using peers_ok_inverse [of "ti_peers i"] by auto
  ultimately show ?thesis by blast
qed

lemma self_tailnet_address_shape: "self_tailnet_address st = Inr (Some a) \<Longrightarrow> tailnet_shape a"
  by (auto simp: self_tailnet_address_def bad_status_def res_simps valid_simps split: option.splits json.splits)

text \<open>
  The broker only binds an address of this device. \<open>local_tailnet_address\<close> returns an address
  only when it is in 100.64.0.0/10, is what the running Tailscale reports for this node or, without
  a status, the address captured by the installer, and is on an \<^verbatim>\<open>inet\<close> line of a tunnel interface.
\<close>

theorem local_address_is_ours:
  assumes "local_tailnet_address E output configured interfaces = Inr (Some a)"
  shows "tailnet_shape a \<and>
    (case output of None \<Rightarrow> configured = Some a | Some tx \<Rightarrow> parse_local_tailnet_address E tx = Inr (Some a)) \<and>
    (\<exists>tx before line behind. interfaces = Some tx \<and> splitlines tx = before @ line # behind \<and>
       inet_field line = Some a \<and> \<not> is_header line \<and> filter is_header before \<noteq> [] \<and>
       starts_with (lit ''utun'') (header_name (last (filter is_header before))))"
proof -
  have none: "\<not> starts_with (lit ''utun'') []" by (simp add: starts_with_def)
  let ?read = "case output of
      None \<Rightarrow> (case configured of None \<Rightarrow> Inr None
        | Some c \<Rightarrow> chat_to_none (bind (valid_tailnet_address c) (\<lambda>a. Inr (Some a))))
    | Some tx \<Rightarrow> chat_to_none (parse_local_tailnet_address E tx)"
  from assms obtain address where address: "?read = Inr address"
    "(case (address, interfaces) of
        (Some a, Some tx) \<Rightarrow> if interface_has_address tx a then Inr (Some a) else Inr None | _ \<Rightarrow> Inr None) =
     (Inr (Some a) :: str option res)"
    unfolding local_tailnet_address_def bind_Inr_iff by blast
  from address(2) obtain tx where tx: "interfaces = Some tx" "interface_has_address tx a" "address = Some a"
    by (cases address; cases interfaces) (auto split: if_splits)
  with address(1) have read: "?read = Inr (Some a)" by simp
  have "tailnet_shape a \<and>
    (case output of None \<Rightarrow> configured = Some a | Some tx \<Rightarrow> parse_local_tailnet_address E tx = Inr (Some a))"
  proof (cases "output")
    case None
    with read show ?thesis by (auto simp: chat_to_none_Some bind_Inr_iff valid_simps split: option.splits)
  next
    case (Some st)
    with read have p: "parse_local_tailnet_address E st = Inr (Some a)" by (simp add: chat_to_none_Some)
    then obtain status where "self_tailnet_address status = Inr (Some a)"
      by (auto simp: parse_local_tailnet_address_def bind_Inr_iff split: if_splits)
    with Some p self_tailnet_address_shape show ?thesis by simp
  qed
  moreover note tx(2) [unfolded interface_has_address_def tunnel_inets_iff]
  ultimately show ?thesis using tx(1) none by (auto split: if_splits)
qed

section \<open>A sample tailnet\<close>

definition sample_status :: dict where
  "sample_status =
     [(lit ''BackendState'', JStr (lit ''Running'')), (lit ''Self'', JObj [(lit ''ID'', JStr (lit ''nA''))]),
      (lit ''Peer'', JObj
         [(lit ''k1'', JObj [(lit ''Online'', JBool True), (lit ''ID'', JStr (lit ''nB'')),
             (lit ''TailscaleIPs'', JArr [JStr (lit ''10.0.0.1''), JStr (lit ''100.64.0.2'')])]),
          (lit ''k2'', JObj [(lit ''Online'', JBool False), (lit ''ID'', JStr (lit ''nB'')),
             (lit ''TailscaleIPs'', JArr [JStr (lit ''100.64.0.2'')])])])]"

definition sample_status_text :: str where
  "sample_status_text = dumps (float_repr sample_env) False (JObj sample_status)"

lemma sample_status_read: "parse_status sample_env sample_status_text = Inr sample_status"
proof -
  have "plain False (JObj sample_status)" by (simp add: sample_status_def)
  from loads_dumps_trailing [OF this, of "[]" "float_parse sample_env" "float_repr sample_env"]
  show ?thesis by (simp add: parse_status_def sample_status_text_def except_chat_def del: dumps.simps)
qed

lemma sample_addresses:
  "tailnet_shape (lit ''100.64.0.1'')" "tailnet_shape (lit ''100.64.0.2'')" "\<not> tailnet_shape (lit ''10.0.0.1'')"
  by (simp_all add: tailnet_shape_def ipv4_value_def octet_value_def in_tailnet_def lit_def is_digit_def dec_value_def)

lemma sample_node_ids: "node_id_shape (lit ''nA'')" "node_id_shape (lit ''nB'')"
  by (simp_all add: node_id_shape_def lit_def is_alnum_def is_lower_def is_upper_def)

lemma sample_identity:
  "parse_tailnet_identity sample_env sample_status_text =
     Inr \<lparr>ti_self_node_id = Some (lit ''nA''), ti_peers = [(lit ''nB'', lit ''100.64.0.2'')]\<rparr>"
  by (simp add: parse_tailnet_identity_def sample_status_read)
    (simp add: sample_status_def self_node_def status_node_id_def sample_node_ids online_peer_def
      peer_tailnet_address_def address_list_def first_tailnet_spec sample_addresses)

theorem tailnet_identity_spec_witness:
  "parse_tailnet_identity sample_env sample_status_text =
     Inr \<lparr>ti_self_node_id = Some (lit ''nA''), ti_peers = [(lit ''nB'', lit ''100.64.0.2'')]\<rparr> \<and>
   peers_ok [(lit ''nB'', lit ''100.64.0.2'')]"
  using iffD1 [OF tailnet_identity_spec sample_identity, THEN conjunct1] sample_identity by auto

theorem local_address_is_ours_witness:
  "\<exists>tx. local_tailnet_address sample_env None (Some (lit ''100.64.0.1'')) (Some tx) = Inr (Some (lit ''100.64.0.1'')) \<and>
    tailnet_shape (lit ''100.64.0.1'')"
proof -
  let ?tx = "lit ''utun4: UP'' @ [10, 9] @ lit ''inet 100.64.0.1 x'' @ [10]"
  have "interface_has_address ?tx (lit ''100.64.0.1'')"
    by (simp add: interface_has_address_def splitlines_def lit_def is_linebreak_def is_header_def header_name_def
        inet_field_def is_space_def starts_with_def)
  moreover have "valid_tailnet_address (lit ''100.64.0.1'') = Inr (lit ''100.64.0.1'')"
    by (simp add: valid_simps sample_addresses)
  ultimately have "local_tailnet_address sample_env None (Some (lit ''100.64.0.1'')) (Some ?tx) = Inr (Some (lit ''100.64.0.1''))"
    by (simp add: local_tailnet_address_def chat_to_none_def)
  with local_address_is_ours [OF this] show ?thesis by blast
qed

end
