(* ===== verification/Receiver.thy ===== *)
theory Receiver
  imports Sender Tailnet
begin

text \<open>
  Receiving over the tailnet (runtime.py): \<open>authorize_remote\<close>, by which the sender's device
  authorizes one envelope of its own, and \<open>receive_remote\<close>, which looks up the recipient, asks the
  sender's device for the authorization, checks the reply token, and only then hands the message to
  a courier or an enrolled endpoint.
\<close>

section \<open>Authorizing an envelope\<close>

definition authorization :: "string \<Rightarrow> str \<Rightarrow> str \<Rightarrow> str \<Rightarrow> str \<Rightarrow> str \<Rightarrow> str \<Rightarrow> dict" where
  "authorization status event_id source_alias sgen target_key tgen digest =
     [(lit ''schema_version'', JInt SCHEMA_VERSION), (lit ''event_id'', JStr event_id),
      (lit ''status'', JStr (lit status)), (lit ''source_alias'', JStr source_alias),
      (lit ''source_generation'', JStr sgen), (lit ''target_key'', JStr target_key),
      (lit ''target_generation'', JStr tgen), (lit ''payload_digest'', JStr digest)]"

definition authorize_remote ::
  "pyenv \<Rightarrow> rat \<Rightarrow> dir \<Rightarrow> str \<Rightarrow> str \<Rightarrow> str \<Rightarrow> str \<Rightarrow> str \<Rightarrow> str \<Rightarrow> (dict \<times> dir) res" where
  "authorize_remote E now d event_id source_alias sgen target_key tgen digest =
     bind (valid_uuid event_id ''event id'') (\<lambda>identifier.
     bind (valid_name E source_alias ''source alias'') (\<lambda>exact_alias.
     bind (valid_uuid sgen ''source generation'') (\<lambda>exact_sgen.
     bind (valid_uuid tgen ''target generation'') (\<lambda>exact_tgen.
     bind (claim_remote_authorization E now d event_id exact_sgen exact_alias target_key exact_tgen digest) (\<lambda>c.
     Inr (authorization (if fst c then ''AUTHORIZED'' else ''REFUSED'') identifier exact_alias exact_sgen
            target_key exact_tgen digest, snd c))))))"

section \<open>Receiving an envelope\<close>

definition FORWARDABLE_PRE_EFFECT_REASONS :: "str list" where
  "FORWARDABLE_PRE_EFFECT_REASONS =
     map lit
      [''Claude ListAgents discovery timed out'',
       ''Claude ListAgents discovery failed'',
       ''Claude target discovery is not one exact supported match'',
       ''Claude target is not one exact live supported session'',
       ''Claude target changed during discovery'',
       ''Claude agents preflight timed out'',
       ''Claude Code executable is unavailable'',
       ''Claude agents response is invalid'',
       ''Claude target reference is invalid'',
       ''Claude SendMessage courier setup failed'',
       ''Claude courier finished without a SendMessage call'',
       ''Claude SendMessage was refused before delivery'',
       ''session courier is still bootstrapping''] @
     [COURIER_BUSY, COURIER_STOPPED] @
     map lit
      [''Codex courier is unavailable'',
       ''Codex courier queue is full'',
       ''Devin courier queue is full'',
       ''Codex native queue is unavailable'',
       ''Codex native queue response exceeds the bounded limit'',
       ''Codex native queue profile changed'',
       ''Codex native queue preflight failed'',
       ''Codex native queue rejected the message before acceptance'',
       ''Devin inbox is unavailable'',
       ''remote target changed before transport acceptance'',
       ''remote target route is incomplete'',
       ''remote envelope is not authorized'',
       ''native helper is unavailable'',
       ''session courier is unavailable before delivery'',
       ''Tailnet peer is unavailable before delivery'',
       ''message is invalid'',
       ''message must not be empty'',
       ''message exceeds the 16 KiB limit'',
       ''message exceeds the encoded frame budget'']"

definition forwarded :: "str \<Rightarrow> str" where
  "forwarded reason =
     (if reason \<in> set FORWARDABLE_PRE_EFFECT_REASONS then reason
      else lit ''remote destination rejected before provider effect'')"

definition rejected_answer :: "str \<Rightarrow> str \<Rightarrow> str \<Rightarrow> dict" where
  "rejected_answer event_id provider reason =
     [(lit ''schema_version'', JInt SCHEMA_VERSION), (lit ''event_id'', JStr event_id),
      (lit ''status'', JStr (lit ''PRE_EFFECT_REJECTED'')), (lit ''provider'', JStr provider),
      (lit ''error'', JStr (forwarded reason))]"

text \<open>
  What one reception meets: the host, what \<open>local_targets\<close> returns for a handle or for all, the
  exchange with the sender's device, the host and the state directory after it, what Tailscale then
  reports, the monotonic clock when the deadline is set, when an endpoint accepts and at the first
  attempt, the attempts at the courier, and the callback of an endpoint.
\<close>

record reception =
  rc_host :: host
  rc_native :: "str option \<Rightarrow> target list res"
  rc_clock :: rat
  rc_authorize :: exchange
  rc_others :: "dir \<Rightarrow> dir"
  rc_host_after :: host
  rc_tailnet :: "tailnet_identity option"
  rc_clock_external :: rat
  rc_clock_start :: rat
  rc_attempts :: "nat \<Rightarrow> attempt"
  rc_callback :: callback_run

text \<open>The handles of the routes with the pinned generation, and the targets they allow.\<close>

definition scoped_handles :: "pyenv \<Rightarrow> dir \<Rightarrow> str \<Rightarrow> str list res" where
  "scoped_handles E d generation =
     bind (registry_routes E d) (\<lambda>routes.
     bind (map_res (\<lambda>r. session_key E (r_provider r) (r_session_id r))
             (filter (\<lambda>r. r_generation r = generation) routes)) (\<lambda>keys.
     Inr (remdups keys)))"

definition receiving_candidates :: "pyenv \<Rightarrow> reception \<Rightarrow> dir \<Rightarrow> str \<Rightarrow> str \<Rightarrow> target list res" where
  "receiving_candidates E rc d generation provider =
     bind (scoped_handles E d generation) (\<lambda>handles.
     bind (case handles of [] \<Rightarrow> Inr [] | [h] \<Rightarrow> rc_native rc (Some h) | _ \<Rightarrow> rc_native rc None) (\<lambda>candidates.
     if provider = lit ''external'' then external_targets E (h_uid (rc_host rc)) (h_wall (rc_host rc)) d None
     else Inr candidates))"

definition receiving_target :: "pyenv \<Rightarrow> reception \<Rightarrow> dir \<Rightarrow> str \<Rightarrow> str \<Rightarrow> str \<Rightarrow> target res" where
  "receiving_target E rc d target_alias generation provider =
     bind (receiving_candidates E rc d generation provider) (\<lambda>candidates.
     case the_one (\<lambda>t. p_alias t = target_alias \<and> p_generation t = generation) candidates of
       None \<Rightarrow> fail ''remote target changed before transport acceptance''
     | Some t \<Rightarrow>
         if p_provider t \<noteq> ExternalPeer \<and> (p_session_id t = None \<or> p_pid t = None \<or> p_cwd t = None)
         then fail ''remote target route is incomplete'' else Inr t)"

text \<open>The question to the sender's device, and the one answer that authorizes.\<close>

definition authorization_request :: "str \<Rightarrow> str \<Rightarrow> str \<Rightarrow> str \<Rightarrow> str \<Rightarrow> str \<Rightarrow> dict" where
  "authorization_request event_id source_alias sgen target_key tgen digest =
     [(lit ''schema_version'', JInt SCHEMA_VERSION), (lit ''operation'', JStr (lit ''authorize'')),
      (lit ''event_id'', JStr event_id), (lit ''source_alias'', JStr source_alias),
      (lit ''source_generation'', JStr sgen), (lit ''target_key'', JStr target_key),
      (lit ''target_generation'', JStr tgen), (lit ''payload_digest'', JStr digest)]"

definition expected_authorization :: "dict \<Rightarrow> dict" where
  "expected_authorization request =
     filter (\<lambda>kv. fst kv \<noteq> lit ''operation'') request @ [(lit ''status'', JStr (lit ''AUTHORIZED''))]"

definition check_authorization :: "pyenv \<Rightarrow> exchange \<Rightarrow> dict \<Rightarrow> unit res" where
  "check_authorization E x request =
     bind (request_tailnet E x request) (\<lambda>answer.
     if \<not> py_eq (JObj answer) (JObj (expected_authorization request))
     then fail ''remote envelope is not authorized'' else Inr ())"

definition check_reply_token :: "pyenv \<Rightarrow> reception \<Rightarrow> str \<Rightarrow> str \<Rightarrow> str \<Rightarrow> str \<Rightarrow> str \<Rightarrow> str \<Rightarrow> unit res" where
  "check_reply_token E rc message source_alias event_id provider sgen source_address =
     bind (envelope_reply_token E message source_alias event_id provider) (\<lambda>token.
     case token of
       None \<Rightarrow> Inr ()
     | Some t \<Rightarrow>
         verify_remote_reply_token (map_option (\<lambda>i. map_of (ti_peers i)) (rc_tailnet rc)) t sgen source_address)"

text \<open>The route of the target and, for Codex, its helper.\<close>

definition receiving_route :: "pyenv \<Rightarrow> host \<Rightarrow> dir \<Rightarrow> target \<Rightarrow> (route \<times> route) res" where
  "receiving_route E h d t =
     bind (registry_routes E d) (\<lambda>routes.
     case the_one (\<lambda>r. Some (r_session_id r) = p_session_id t \<and> Some (r_pid r) = p_pid t \<and>
            r_generation r = p_generation t \<and> Some (r_cwd r) = p_cwd t) routes of
       None \<Rightarrow> fail ''remote target changed before transport acceptance''
     | Some r \<Rightarrow>
         if r_provider r \<noteq> Codex then Inr (r, r)
         else
           bind (helper_for_original E (h_kill h) (h_fs h) d r routes) (\<lambda>helper.
           case helper of
             None \<Rightarrow> Inr (r, r)
           | Some x \<Rightarrow>
               bind (route_current E h d x) (\<lambda>ok.
               if \<not> ok then fail ''native helper is unavailable'' else Inr (r, x))))"

definition receive_reply :: "str \<Rightarrow> target \<Rightarrow> route \<times> route \<Rightarrow> dict \<Rightarrow> dict res" where
  "receive_reply event_id t rs response =
     (let provider = peer_str (p_provider t);
          expected = accepted_answer event_id (if snd rs = fst rs then p_alias t else r_alias (snd rs))
            (provider_str (r_provider (snd rs))) in
      case pre_effect_error response event_id provider of
        Some rejection \<Rightarrow> Inr (rejected_answer event_id provider rejection)
      | None \<Rightarrow>
          if unknown_delivery_diagnostic response event_id provider \<noteq> None then Inr response
          else if \<not> py_eq (JObj response) (JObj expected)
          then Inl (UnknownDeliveryError (lit ''remote delivery state is unknown''))
          else Inr (accepted_answer event_id (p_alias t) provider))"

text \<open>When the time is used up the busy refusal itself is the response that is forwarded.\<close>

definition receive_outcome :: "str \<Rightarrow> target \<Rightarrow> route \<times> route \<Rightarrow> sent \<Rightarrow> dict res" where
  "receive_outcome event_id t rs out =
     (case out of
        Raised e \<Rightarrow> Inl e
      | GaveUp response \<Rightarrow> receive_reply event_id t rs response
      | Reply response \<Rightarrow> receive_reply event_id t rs response)"

text \<open>The hand-over, after all checks.\<close>

definition hand_over ::
  "pyenv \<Rightarrow> reception \<Rightarrow> rat \<Rightarrow> dir \<Rightarrow> target \<Rightarrow> str \<Rightarrow> str \<Rightarrow> str \<Rightarrow> str \<Rightarrow> dict res option" where
  "hand_over E rc deadline d t message event_id source_alias sgen =
     (if p_provider t = ExternalPeer
      then Some (bind (remaining_operation_timeout deadline (rc_clock_external rc) 15) (\<lambda>timeout.
             accept_external E (rc_host_after rc) (rc_callback rc) d t message event_id source_alias sgen timeout 1))
      else
        case receiving_route E (rc_host_after rc) d t of
          Inl e \<Rightarrow> Some (Inl e)
        | Inr rs \<Rightarrow>
            map_option (\<lambda>(out, n, d'). receive_outcome event_id t rs out)
              (resend (rc_attempts rc) (\<lambda>x. request_socket E x (accept_payload (snd rs) event_id message))
                 (is_busy event_id (peer_str (p_provider t))) deadline (rc_clock_start rc)
                 PRE_EFFECT_RETRY_SECONDS 0 d))"

text \<open>The final \<^verbatim>\<open>except\<close> clauses.\<close>

definition decided :: "str \<Rightarrow> str \<Rightarrow> dict res \<Rightarrow> dict res" where
  "decided event_id provider r =
     (case r of
        Inl e \<Rightarrow>
          if is_unknown_delivery e then Inl e
          else if is_chat_error e then Inr (rejected_answer event_id provider (exn_text e))
          else Inl e
      | Inr x \<Rightarrow> Inr x)"

definition admitted_target ::
  "pyenv \<Rightarrow> reception \<Rightarrow> dir \<Rightarrow> str \<Rightarrow> str \<times> str \<times> str \<times> str \<times> str \<times> str \<Rightarrow> target res" where
  "admitted_target E rc d source_address envelope =
     (case envelope of (event_id, source_alias, sgen, target_alias, generation, message) \<Rightarrow>
        let provider = takeWhile (\<lambda>c. c \<noteq> 64) target_alias in
        bind (receiving_target E rc d target_alias generation provider) (\<lambda>t.
        bind (payload_digest E message) (\<lambda>digest.
        bind (check_authorization E (rc_authorize rc)
                (authorization_request event_id source_alias sgen (p_session_key t) generation digest)) (\<lambda>_.
        bind (check_reply_token E rc message source_alias event_id provider sgen source_address) (\<lambda>_.
        Inr t)))))"

definition receive_remote :: "pyenv \<Rightarrow> reception \<Rightarrow> dir \<Rightarrow> str \<Rightarrow> str \<Rightarrow> dict res option" where
  "receive_remote E rc d tx source_address =
     (case bind (valid_tailnet_address source_address) (\<lambda>address.
           bind (parse_remote_envelope E tx) (\<lambda>envelope. Inr (address, envelope))) of
        Inl e \<Rightarrow> Some (Inl e)
      | Inr (address, event_id, source_alias, sgen, target_alias, generation, message) \<Rightarrow>
          (let provider = takeWhile (\<lambda>c. c \<noteq> 64) target_alias in
           if provider \<notin> lit ` {''claude'', ''codex'', ''devin'', ''external''}
           then Some (fail ''remote target provider is invalid'')
           else
             map_option (decided event_id provider)
               (case admitted_target E rc d address (event_id, source_alias, sgen, target_alias, generation, message) of
                  Inl e \<Rightarrow> Some (Inl e)
                | Inr t \<Rightarrow>
                    hand_over E rc (rc_clock rc + AUTHORIZE_TIMEOUT_SECONDS + ACCEPT_TIMEOUT_SECONDS)
                      (rc_others rc d) t message event_id source_alias sgen)))"

section \<open>A reception always answers\<close>

lemma hand_over_returns: "\<exists>r. hand_over E rc deadline d t message event_id source_alias sgen = Some r"
proof (cases "p_provider t = ExternalPeer")
  case False
  show ?thesis
  proof (cases "receiving_route E (rc_host_after rc) d t")
    case (Inr rs)
    have "\<exists>x. resend (rc_attempts rc) (\<lambda>x. request_socket E x (accept_payload (snd rs) event_id message))
        (is_busy event_id (peer_str (p_provider t))) deadline (rc_clock_start rc) PRE_EFFECT_RETRY_SECONDS 0 d = Some x"
      using resend_first [of "rc_attempts rc"] unfolding ends_within_def by blast
    with False Inr show ?thesis by (auto simp: hand_over_def split: prod.splits)
  qed (simp add: hand_over_def False)
qed (simp add: hand_over_def)

lemma receive_remote_returns: "\<exists>r. receive_remote E rc d tx addr = Some r"
  by (auto simp: receive_remote_def Let_def hand_over_returns split: sum.splits prod.splits)

section \<open>What precedes the hand-over\<close>

definition at_provider :: "reception \<Rightarrow> (nat \<Rightarrow> attempt) \<Rightarrow> callback_run \<Rightarrow> reception" where
  "at_provider rc a c = rc\<lparr>rc_attempts := a, rc_callback := c\<rparr>"

lemma at_provider_fields [simp]:
  "rc_host (at_provider rc a c) = rc_host rc" "rc_native (at_provider rc a c) = rc_native rc"
  "rc_clock (at_provider rc a c) = rc_clock rc" "rc_authorize (at_provider rc a c) = rc_authorize rc"
  "rc_others (at_provider rc a c) = rc_others rc" "rc_tailnet (at_provider rc a c) = rc_tailnet rc"
  by (simp_all add: at_provider_def)

lemma candidates_any_provider [simp]: "receiving_candidates E (at_provider rc a c) = receiving_candidates E rc"
  by (intro ext) (simp add: receiving_candidates_def cong: list.case_cong if_cong)

lemma admitted_any_provider [simp]: "admitted_target E (at_provider rc a c) = admitted_target E rc"
  by (intro ext) (simp add: admitted_target_def receiving_target_def check_reply_token_def Let_def cong: prod.case_cong)

lemma receive_not_admitted:
  assumes "parse_remote_envelope E tx = Inr (event, sa, sg, ta, g, m)"
    and "admitted_target E rc d addr (event, sa, sg, ta, g, m) = Inl e"
  shows "receive_remote E (at_provider rc a c) d tx addr = receive_remote E rc d tx addr"
proof (cases "valid_tailnet_address addr")
  case (Inr a')
  then have "valid_tailnet_address addr = Inr addr" by (simp add: valid_simps)
  with assms show ?thesis by (simp add: receive_remote_def Let_def)
qed (simp add: receive_remote_def)

lemma admitted_targetD:
  assumes "admitted_target E rc d addr (event, sa, sg, ta, g, m) = Inr t"
  obtains digest answer where
    "receiving_target E rc d ta g (takeWhile (\<lambda>c. c \<noteq> 64) ta) = Inr t" "payload_digest E m = Inr digest"
    "request_tailnet E (rc_authorize rc) (authorization_request event sa sg (p_session_key t) g digest) = Inr answer"
    "py_eq (JObj answer) (JObj (expected_authorization (authorization_request event sa sg (p_session_key t) g digest)))"
    "check_reply_token E rc m sa event (takeWhile (\<lambda>c. c \<noteq> 64) ta) sg addr = Inr ()"
  using assms by (auto simp: admitted_target_def check_authorization_def Let_def bind_Inr_iff split: if_splits)

lemma check_reply_tokenD:
  assumes "check_reply_token E rc m sa event p sg addr = Inr ()" "envelope_reply_token E m sa event p = Inr (Some tok)"
  shows "t_generation tok = sg \<and> (\<exists>i n. rc_tailnet rc = Some i \<and> t_node_id tok = Some n \<and> map_of (ti_peers i) n = Some addr)"
  using assms by (auto simp: check_reply_token_def verify_remote_reply_token_def split: option.splits if_splits)

text \<open>The sender's answer authorizes exactly when it says so.\<close>

lemma authorization_expected:
  "py_eq (JObj (authorization st event sa sg tk tg digest))
     (JObj (expected_authorization (authorization_request event sa sg tk tg digest))) \<longleftrightarrow> st = ''AUTHORIZED''"
  by (simp add: authorization_def expected_authorization_def authorization_request_def)

section \<open>What an answer says\<close>

lemma rejected_answer_status [simp]:
  "jget (rejected_answer event p reason) ''status'' = Some (JStr (lit ''PRE_EFFECT_REJECTED''))"
  by (simp add: rejected_answer_def)

lemma accepted_answer_status [simp]:
  "jget (accepted_answer event to p) ''status'' = Some (JStr (lit ''TRANSPORT_ACCEPTED''))"
  by (simp add: accepted_answer_def)

text \<open>The status of the answer and what the courier replied.\<close>

lemma receive_reply_status:
  assumes "receive_reply event t rs response = Inr ans"
  shows "(jget ans ''status'' = Some (JStr (lit ''PRE_EFFECT_REJECTED'')) \<longrightarrow>
            refused event (peer_str (p_provider t)) response) \<and>
         (jget ans ''status'' = Some (JStr (lit ''TRANSPORT_ACCEPTED'')) \<longrightarrow>
            \<not> refused event (peer_str (p_provider t)) response \<and>
            py_eq (JObj response) (JObj (accepted_answer event (if snd rs = fst rs then p_alias t else r_alias (snd rs))
              (provider_str (r_provider (snd rs))))))"
proof (cases "pre_effect_error response event (peer_str (p_provider t))")
  case (Some reason)
  with assms show ?thesis by (auto simp: receive_reply_def refused_def)
next
  case None
  show ?thesis
  proof (cases "unknown_delivery_diagnostic response event (peer_str (p_provider t))")
    case None': None
    with assms None show ?thesis by (auto simp: receive_reply_def refused_def Let_def split: if_splits)
  next
    case (Some x)
    with assms None diagnostic_status [OF Some] show ?thesis by (auto simp: receive_reply_def Let_def)
  qed
qed

lemma receive_outcome_status:
  assumes "decided event p (receive_outcome event t rs out) = Inr ans"
    and "\<And>r. out = GaveUp r \<Longrightarrow> refused event (peer_str (p_provider t)) r"
  shows "(jget ans ''status'' = Some (JStr (lit ''PRE_EFFECT_REJECTED'')) \<longrightarrow>
            fruitless (refused event (peer_str (p_provider t))) out) \<and>
         (jget ans ''status'' = Some (JStr (lit ''TRANSPORT_ACCEPTED'')) \<longrightarrow>
            (\<exists>response. out = Reply response \<and>
              py_eq (JObj response) (JObj (accepted_answer event (if snd rs = fst rs then p_alias t else r_alias (snd rs))
                (provider_str (r_provider (snd rs)))))))"
proof -
  have reply: "receive_reply event t rs r = Inr ans" if "out = Reply r \<or> out = GaveUp r" for r
  proof -
    have "receive_reply event t rs r = Inl e \<Longrightarrow> is_unknown_delivery e" for e
      by (auto simp: receive_reply_def Let_def split: option.splits if_splits)
    with assms(1) that show ?thesis
      by (cases "receive_reply event t rs r") (auto simp: receive_outcome_def decided_def split: if_splits)
  qed
  show ?thesis
  proof (cases out)
    case (Reply r)
    with receive_reply_status [OF reply, of r] show ?thesis by (auto simp: fruitless_def)
  next
    case (GaveUp r)
    with receive_reply_status [OF reply, of r] assms(2) [OF GaveUp] show ?thesis by (auto simp: fruitless_def)
  next
    case (Raised e)
    with assms(1) show ?thesis by (auto simp: receive_outcome_def decided_def fruitless_def split: if_splits)
  qed
qed

section \<open>Properties\<close>

text \<open>
  C12. No provider is touched without authorization. When what the courier or the endpoint's callback
  would do makes any difference to the answer of \<open>receive_remote\<close>, then the envelope came from a
  tailnet address, names one current recipient by alias and generation, the sender's device gave the
  authorizing answer for exactly this event, sender, recipient and digest of this message, and a
  reply token in it is one of this sender's generation whose node has the address it came from.
\<close>

theorem receive_only_authorized:
  assumes "receive_remote E (at_provider rc a c) d tx addr \<noteq> receive_remote E rc d tx addr"
  shows "\<exists>event sa sg ta g m t digest answer.
    tailnet_shape addr \<and> parse_remote_envelope E tx = Inr (event, sa, sg, ta, g, m) \<and>
    receiving_target E rc d ta g (takeWhile (\<lambda>c. c \<noteq> 64) ta) = Inr t \<and> payload_digest E m = Inr digest \<and>
    request_tailnet E (rc_authorize rc) (authorization_request event sa sg (p_session_key t) g digest) = Inr answer \<and>
    py_eq (JObj answer) (JObj (expected_authorization (authorization_request event sa sg (p_session_key t) g digest))) \<and>
    (\<forall>tok. envelope_reply_token E m sa event (takeWhile (\<lambda>c. c \<noteq> 64) ta) = Inr (Some tok) \<longrightarrow>
       t_generation tok = sg \<and>
       (\<exists>i n. rc_tailnet rc = Some i \<and> t_node_id tok = Some n \<and> map_of (ti_peers i) n = Some addr))"
proof -
  have addr: "tailnet_shape addr"
  proof (rule ccontr)
    assume "\<not> tailnet_shape addr"
    then obtain e where "valid_tailnet_address addr = Inl e"
      by (cases "valid_tailnet_address addr") (auto simp: valid_simps)
    with assms show False by (simp add: receive_remote_def)
  qed
  obtain event sa sg ta g m where p: "parse_remote_envelope E tx = Inr (event, sa, sg, ta, g, m)"
  proof (cases "parse_remote_envelope E tx")
    case (Inl e)
    then obtain e' where "bind (valid_tailnet_address addr) (\<lambda>address.
        bind (parse_remote_envelope E tx) (\<lambda>envelope. Inr (address, envelope))) = Inl e'"
      by (cases "valid_tailnet_address addr") auto
    with assms show ?thesis by (simp add: receive_remote_def)
  next
    case (Inr x)
    with that show ?thesis by (cases x) auto
  qed
  obtain t where t: "admitted_target E rc d addr (event, sa, sg, ta, g, m) = Inr t"
    using receive_not_admitted [OF p] assms by (cases "admitted_target E rc d addr (event, sa, sg, ta, g, m)") auto
  from admitted_targetD [OF t] obtain digest answer where q:
    "receiving_target E rc d ta g (takeWhile (\<lambda>c. c \<noteq> 64) ta) = Inr t" "payload_digest E m = Inr digest"
    "request_tailnet E (rc_authorize rc) (authorization_request event sa sg (p_session_key t) g digest) = Inr answer"
    "py_eq (JObj answer) (JObj (expected_authorization (authorization_request event sa sg (p_session_key t) g digest)))"
    "check_reply_token E rc m sa event (takeWhile (\<lambda>c. c \<noteq> 64) ta) sg addr = Inr ()" .
  from addr p q(1-4) check_reply_tokenD [OF q(5)] show ?thesis by blast
qed

text \<open>
  C13. A reception is decided and its answer is truthful. Once the checks passed, \<open>receive_remote\<close>
  returns after at most one attempt for every quarter of a second until its deadline. It answers
  that the message was accepted only when the courier of the recipient gave exactly the expected
  acceptance, and that it was rejected before any effect only when every attempt either wrote
  nothing or was refused by the courier before any effect.
\<close>

theorem receive_truthful:
  assumes "tailnet_shape addr" "parse_remote_envelope E tx = Inr (event, sa, sg, ta, g, m)"
    and "takeWhile (\<lambda>c. c \<noteq> 64) ta \<in> lit ` {''claude'', ''codex'', ''devin'', ''external''}"
    and "admitted_target E rc d addr (event, sa, sg, ta, g, m) = Inr t" "p_provider t \<noteq> ExternalPeer"
    and "receiving_route E (rc_host_after rc) (rc_others rc d) t = Inr rs"
  shows "\<exists>r n. receive_remote E rc d tx addr = Some r \<and>
    n \<le> nat \<lceil>4 * (rc_clock rc + AUTHORIZE_TIMEOUT_SECONDS + ACCEPT_TIMEOUT_SECONDS - 2 - rc_clock_start rc)\<rceil> \<and>
    (\<forall>ans. r = Inr ans \<longrightarrow>
       (jget ans ''status'' = Some (JStr (lit ''PRE_EFFECT_REJECTED'')) \<longrightarrow>
          (\<forall>k \<le> n. open_socket (at_exchange (rc_attempts rc k)) \<noteq> Inr () \<or>
             (\<exists>response. request_socket E (at_exchange (rc_attempts rc k)) (accept_payload (snd rs) event m) = Inr response \<and>
                refused event (peer_str (p_provider t)) response))) \<and>
       (jget ans ''status'' = Some (JStr (lit ''TRANSPORT_ACCEPTED'')) \<longrightarrow>
          (\<exists>response. request_socket E (at_exchange (rc_attempts rc n)) (accept_payload (snd rs) event m) = Inr response \<and>
             py_eq (JObj response) (JObj (accepted_answer event (if snd rs = fst rs then p_alias t else r_alias (snd rs))
               (provider_str (r_provider (snd rs))))))))"
proof -
  let ?rq = "\<lambda>x. request_socket E x (accept_payload (snd rs) event m)" and ?prov = "peer_str (p_provider t)"
  let ?deadline = "rc_clock rc + AUTHORIZE_TIMEOUT_SECONDS + ACCEPT_TIMEOUT_SECONDS"
  let ?p = "takeWhile (\<lambda>c. c \<noteq> 64) ta"
  obtain out n d2 where loop: "resend (rc_attempts rc) ?rq (is_busy event ?prov) ?deadline (rc_clock_start rc)
      PRE_EFFECT_RETRY_SECONDS 0 (rc_others rc d) = Some (out, n, d2)"
    "n \<le> nat \<lceil>4 * (?deadline - 2 - rc_clock_start rc)\<rceil>" "traced (rc_attempts rc) ?rq (is_busy event ?prov) 0 out n"
    using resend_first [of "rc_attempts rc" ?rq "is_busy event ?prov" "rc_others rc d" ?deadline "rc_clock_start rc"]
    by (auto simp: ends_within_def)
  have "valid_tailnet_address addr = Inr addr" using assms(1) by (simp add: valid_simps)
  then have run: "receive_remote E rc d tx addr = Some (decided event ?p (receive_outcome event t rs out))"
    using assms(2-6) loop(1) by (simp add: receive_remote_def Let_def hand_over_def del: image_insert image_empty)
  have gave: "refused event ?prov r" if "out = GaveUp r" for r
    using loop(3) that socket_sends.again_harmless by (auto simp: traced_def)
  have ans: "(jget ans ''status'' = Some (JStr (lit ''PRE_EFFECT_REJECTED'')) \<longrightarrow>
      (\<forall>k \<le> n. open_socket (at_exchange (rc_attempts rc k)) \<noteq> Inr () \<or>
        (\<exists>response. ?rq (at_exchange (rc_attempts rc k)) = Inr response \<and> refused event ?prov response))) \<and>
    (jget ans ''status'' = Some (JStr (lit ''TRANSPORT_ACCEPTED'')) \<longrightarrow>
      (\<exists>response. ?rq (at_exchange (rc_attempts rc n)) = Inr response \<and>
        py_eq (JObj response) (JObj (accepted_answer event (if snd rs = fst rs then p_alias t else r_alias (snd rs))
          (provider_str (r_provider (snd rs)))))))"
    if "decided event ?p (receive_outcome event t rs out) = Inr ans" for ans
  proof -
    note s = receive_outcome_status [OF that gave]
    have "open_socket (at_exchange (rc_attempts rc k)) \<noteq> Inr () \<or>
        (\<exists>response. ?rq (at_exchange (rc_attempts rc k)) = Inr response \<and> refused event ?prov response)"
      if "jget ans ''status'' = Some (JStr (lit ''PRE_EFFECT_REJECTED''))" "k \<le> n" for k
      using socket_sends.all_without_effect [OF loop(3) _ that(2)] s that(1) by (auto simp: fruitless_def)
    with s loop(3) show ?thesis by (auto simp: traced_def)
  qed
  show ?thesis
    by (rule exI [of _ "decided event ?p (receive_outcome event t rs out)"], rule exI [of _ n])
      (intro conjI allI impI run loop(2) ans)
qed

lemma authorize_remote_iff:
  "authorize_remote E now d event sa sg tk tg digest = Inr (answer, d') \<longleftrightarrow>
     (\<exists>b. claim_remote_authorization E now d event sg sa tk tg digest = Inr (b, d') \<and>
        answer = authorization (if b then ''AUTHORIZED'' else ''REFUSED'') event sa sg tk tg digest)"
  by (auto simp: authorize_remote_def claim_remote_authorization_def valid_simps bind_Inr_iff)

section \<open>Authorizations fit in a frame\<close>

lemma utf8_small: "c < 128 \<Longrightarrow> length (utf8_char c) = 1"
  by (simp add: utf8_char_def)

lemma hex64_json_len: "hex64 s \<Longrightarrow> utf8_len (json_str False s) \<le> 1538"
  using json_len24 [of s] by (simp add: hex64_def)

lemma authorization_frame:
  assumes "uuid_shape e" "name_shape E sa" "list_all is_code_point sa" "uuid_shape sg" "hex64 tk" "uuid_shape tg" "hex64 digest"
    and "list_all (printable True) (lit st)" "length st \<le> 20"
  shows "plain True (JObj (authorization st e sa sg tk tg digest))"
    and "length (json_line E (JObj (authorization st e sa sg tk tg digest))) \<le> WIRE_FRAME_BYTES"
    and "plain True (JObj (authorization_request e sa sg tk tg digest))"
proof -
  have sc: "list_all (printable True) e" "list_all (printable True) sa" "list_all (printable True) sg"
    "list_all (printable True) tk" "list_all (printable True) tg" "list_all (printable True) digest"
    using assms name_scalar [OF assms(2,3)] uuid_scalar uuid_printable hex64_printable by (auto intro: scalar_printable)
  then show "plain True (JObj (authorization st e sa sg tk tg digest))" "plain True (JObj (authorization_request e sa sg tk tg digest))"
    using assms(8) by (simp_all add: authorization_def authorization_request_def SCHEMA_VERSION_def int_fits_small)
  have "int_str 1 = [49]" by (simp add: int_str_def dec_str.simps)
  then have "utf8_len (dumps fr False (JObj (authorization st e sa sg tk tg digest)) @ [10]) \<le> 65536" for fr
    using name_json_len [OF assms(2)] uuid_json_len [OF assms(1)] uuid_json_len [OF assms(4)] uuid_json_len [OF assms(6)]
      hex64_json_len [OF assms(5)] hex64_json_len [OF assms(7)] json_len24 [of "lit st"] assms(9)
      json_len24 [of "lit ''schema_version''"] json_len24 [of "lit ''event_id''"] json_len24 [of "lit ''status''"]
      json_len24 [of "lit ''source_alias''"] json_len24 [of "lit ''source_generation''"] json_len24 [of "lit ''target_key''"]
      json_len24 [of "lit ''target_generation''"] json_len24 [of "lit ''payload_digest''"]
    by (simp add: authorization_def SCHEMA_VERSION_def utf8_len_Cons utf8_small)
  from this [of "float_repr E"] show "length (json_line E (JObj (authorization st e sa sg tk tg digest))) \<le> WIRE_FRAME_BYTES"
    by (simp add: json_line_def utf8_len_def WIRE_FRAME_BYTES_def del: dumps.simps)
qed

text \<open>So the answer of the sender's device arrives when no socket fails.\<close>

lemma authorization_arrives:
  assumes "uuid_shape e" "name_shape E sa" "list_all is_code_point sa" "uuid_shape sg" "hex64 tk" "uuid_shape tg" "hex64 digest"
    and "list_all (printable True) (lit st)" "length st \<le> 20"
  shows "request_tailnet E (good_exchange (json_line E (JObj (authorization st e sa sg tk tg digest))))
     (authorization_request e sa sg tk tg digest) = Inr (authorization st e sa sg tk tg digest)"
  using authorization_frame [OF assms]
  by (intro good_request) (simp_all add: frame_bytes_line is_ok_def authorization_def del: plain.simps)

section \<open>A sample reception\<close>

definition sample_alias :: str where
  "sample_alias = lit ''claude@mac:p:cam''"

definition sample_body :: str where
  "sample_body = lit ''hi''"

definition sample_body_digest :: str where
  "sample_body_digest = sha256hex sample_env (concat (map utf8_char sample_body))"

definition sample_envelope_text :: str where
  "sample_envelope_text = dumps (float_repr sample_env) False
     (JObj (envelope_dict (sample_uuid 51) sample_alias (sample_uuid 49) sample_alias (sample_uuid 50) sample_body)) @ [10]"

definition sample_authorization :: "string \<Rightarrow> dict" where
  "sample_authorization st = authorization st (sample_uuid 51) sample_alias (sample_uuid 49)
     (p_session_key sample_target) (sample_uuid 50) sample_body_digest"

definition sample_callback_run :: callback_run where
  "sample_callback_run = \<lparr>cb_urls = sample_urls, cb_held = False, cb_others = (\<lambda>d. d), cb_process = (\<lambda>_. TimeExpired)\<rparr>"

definition sample_reception :: "string \<Rightarrow> reception" where
  "sample_reception st =
     \<lparr>rc_host = sample_host, rc_native = (\<lambda>_. Inr [sample_target]), rc_clock = 0,
      rc_authorize = good_exchange (json_line sample_env (JObj (sample_authorization st))), rc_others = (\<lambda>d. d),
      rc_host_after = sample_host, rc_tailnet = None, rc_clock_external = 0, rc_clock_start = 0,
      rc_attempts = sample_attempts, rc_callback = sample_callback_run\<rparr>"

lemma sample_body_ok:
  "message_shape sample_body" "list_all is_code_point sample_body" "payload_digest sample_env sample_body = Inr sample_body_digest"
  "hex64 sample_body_digest"
proof -
  show "message_shape sample_body" unfolding sample_body_def by (rule small_message) (simp_all add: lit_def)
  show "list_all is_code_point sample_body" by (simp add: sample_body_def lit_def is_code_point_def)
  show "payload_digest sample_env sample_body = Inr sample_body_digest"
    by (simp add: payload_digest_def encode_def utf8_encode_def sample_body_digest_def)
      (simp add: sample_body_def lit_def is_surrogate_def)
  show "hex64 sample_body_digest" unfolding sample_body_digest_def using env_ok_sha [OF sample_env_ok] by blast
qed

lemma sample_envelope_parse:
  "parse_remote_envelope sample_env sample_envelope_text =
     Inr (sample_uuid 51, sample_alias, sample_uuid 49, sample_alias, sample_uuid 50, sample_body)"
proof (rule envelope_read_back)
  show "remote_envelope sample_env (sample_uuid 51) sample_alias (sample_uuid 49) sample_alias (sample_uuid 50) sample_body =
      Inr sample_envelope_text"
    unfolding remote_envelope_iff sample_envelope_text_def
    using sample_alias_shape sample_body_ok by (simp add: sample_simps sample_alias_def del: dumps.simps)
  show "list_all is_code_point (sample_alias @ sample_alias @ sample_body)"
    using sample_alias_shape sample_body_ok by (simp add: sample_alias_def)
qed

lemma sample_target_fields:
  "p_session_key sample_target = sample_hex64 98" "p_alias sample_target = sample_alias"
  "p_generation sample_target = sample_uuid 50" "p_provider sample_target = Native Claude"
  "p_session_id sample_target \<noteq> None" "p_pid sample_target \<noteq> None" "p_cwd sample_target \<noteq> None"
  by (simp_all add: sample_target_def sample_alias_def)

lemma sample_answer_arrives:
  assumes "length st \<le> 20"
  shows "request_tailnet sample_env (rc_authorize (sample_reception st))
     (authorization_request (sample_uuid 51) sample_alias (sample_uuid 49) (p_session_key sample_target) (sample_uuid 50) sample_body_digest) =
     Inr (sample_authorization st)"
  unfolding sample_reception_def sample_authorization_def reception.simps
  using sample_alias_shape sample_body_ok(4) assms
  by (intro authorization_arrives) (simp_all add: sample_simps sample_target_fields sample_alias_def)

lemma sample_receiving_target:
  "receiving_target sample_env (sample_reception st) sample_registry sample_alias (sample_uuid 50) (lit ''claude'') = Inr sample_target"
proof -
  have g: "r_generation sample_route = sample_uuid 50" by (simp add: sample_route_def)
  obtain key where "session_key sample_env (r_provider sample_route) (r_session_id sample_route) = Inr key"
    using sample_key by auto
  then have "scoped_handles sample_env sample_registry (sample_uuid 50) = Inr [key]"
    by (simp add: scoped_handles_def sample_registry_routes g)
  then show ?thesis
    by (simp add: receiving_target_def receiving_candidates_def the_one_def sample_target_fields)
      (simp add: sample_reception_def the_one_def sample_target_fields)
qed

lemma sample_alias_provider: "takeWhile (\<lambda>c. c \<noteq> 64) sample_alias = lit ''claude''"
  by (simp add: sample_alias_def lit_def)

lemma sample_reply_token:
  "check_reply_token sample_env (sample_reception st) sample_body sample_alias (sample_uuid 51) (lit ''claude'') (sample_uuid 49) addr = Inr ()"
proof -
  have "split_nl 3 sample_body = [lit ''hi'']" by (simp add: sample_body_def lit_def numeral_3_eq_3)
  then have "envelope_reply_token sample_env sample_body sample_alias (sample_uuid 51) (lit ''claude'') = Inr None"
    by (simp add: envelope_reply_token_def Let_def TITLE_V2_def)
  then show ?thesis by (simp add: check_reply_token_def)
qed

lemma sample_admitted:
  "admitted_target sample_env (sample_reception ''AUTHORIZED'') sample_registry addr
     (sample_uuid 51, sample_alias, sample_uuid 49, sample_alias, sample_uuid 50, sample_body) = Inr sample_target"
  by (simp add: admitted_target_def Let_def sample_alias_provider sample_receiving_target sample_body_ok sample_reply_token
      check_authorization_def sample_answer_arrives sample_authorization_def authorization_expected del: py_eq.simps)

lemma sample_receiving_route: "receiving_route sample_env sample_host sample_registry sample_target = Inr (sample_route, sample_route)"
  by (simp add: receiving_route_def sample_registry_routes the_one_def) (simp add: sample_route_def sample_target_def)

theorem receive_truthful_witness:
  "\<exists>r. receive_remote sample_env (sample_reception ''AUTHORIZED'') sample_registry sample_envelope_text (lit ''100.64.0.2'') = Some r \<and>
     admitted_target sample_env (sample_reception ''AUTHORIZED'') sample_registry (lit ''100.64.0.2'')
       (sample_uuid 51, sample_alias, sample_uuid 49, sample_alias, sample_uuid 50, sample_body) = Inr sample_target"
proof -
  have route: "receiving_route sample_env (rc_host_after (sample_reception ''AUTHORIZED''))
      (rc_others (sample_reception ''AUTHORIZED'') sample_registry) sample_target = Inr (sample_route, sample_route)"
    using sample_receiving_route by (simp add: sample_reception_def)
  from receive_truthful [OF sample_addresses(2) sample_envelope_parse _ sample_admitted _ route] sample_admitted show ?thesis
    by (auto simp: sample_alias_provider sample_target_fields)
qed

lemma sample_received:
  assumes "request_socket sample_env (at_exchange (a 0)) (accept_payload sample_route (sample_uuid 51) sample_body) = Inl e"
  shows "receive_remote sample_env (at_provider (sample_reception ''AUTHORIZED'') a c) sample_registry sample_envelope_text (lit ''100.64.0.2'') =
    Some (decided (sample_uuid 51) (lit ''claude'') (Inl e))"
proof -
  let ?rc = "at_provider (sample_reception ''AUTHORIZED'') a c"
  have rc: "rc_host_after ?rc = sample_host" "rc_others (sample_reception ''AUTHORIZED'') = (\<lambda>d. d)" "rc_attempts ?rc = a"
    by (simp_all add: at_provider_def sample_reception_def)
  have loop: "resend a (\<lambda>x. request_socket sample_env x (accept_payload sample_route (sample_uuid 51) sample_body)) again deadline now delay 0 d =
      Some (Raised e, 0, at_others (a 0) d)" for again deadline now delay d
    using assms by (subst resend.simps) (simp add: Let_def)
  have "valid_tailnet_address (lit ''100.64.0.2'') = Inr (lit ''100.64.0.2'')" by (simp add: valid_simps sample_addresses)
  then show ?thesis
    by (simp add: receive_remote_def sample_envelope_parse Let_def sample_alias_provider sample_admitted hand_over_def
        sample_target_fields rc sample_receiving_route loop receive_outcome_def)
qed

theorem receive_only_authorized_witness:
  "\<exists>a c. receive_remote sample_env (at_provider (sample_reception ''AUTHORIZED'') a c) sample_registry sample_envelope_text (lit ''100.64.0.2'') \<noteq>
      receive_remote sample_env (sample_reception ''AUTHORIZED'') sample_registry sample_envelope_text (lit ''100.64.0.2'') \<and>
    tailnet_shape (lit ''100.64.0.2'')"
proof -
  let ?rc = "sample_reception ''AUTHORIZED''"
  let ?a = "\<lambda>k::nat. \<lparr>at_exchange = (good_exchange [])\<lparr>ex_late_read := True\<rparr>, at_others = (\<lambda>d. d), at_took = 0, at_overslept = 0\<rparr>"
  let ?p = "accept_payload sample_route (sample_uuid 51) sample_body"
  have same: "at_provider ?rc sample_attempts sample_callback_run = ?rc" by (simp add: at_provider_def sample_reception_def)
  have "request_socket sample_env (at_exchange (sample_attempts 0)) ?p = fail ''session courier is unavailable before delivery''"
    by (simp add: request_socket_def sample_attempts_def open_socket_def except_chat_def is_exchange_error_def fail_def)
  from sample_received [where a = sample_attempts, OF this [unfolded fail_def], of sample_callback_run] obtain ans where
    plain: "receive_remote sample_env ?rc sample_registry sample_envelope_text (lit ''100.64.0.2'') = Some (Inr ans)"
    unfolding same by (auto simp: decided_def)
  have "plain True (JObj ?p)"
    using sample_body_ok scalar_printable by (simp add: accept_payload_def int_fits_small uuid_printable sample_simps sample_route_def sample_body_def)
  then have "request_socket sample_env (at_exchange (?a 0)) ?p = Inl (UnknownDeliveryError (lit ''delivery state is unknown''))"
    by (simp add: request_socket_def open_socket_def good_exchange_def late_def except_chat_def after_write_def
        write_and_read_def frame_bytes_line is_exchange_error_def del: plain.simps)
  from sample_received [where a = ?a, OF this, of sample_callback_run] have other:
    "receive_remote sample_env (at_provider ?rc ?a sample_callback_run) sample_registry sample_envelope_text (lit ''100.64.0.2'') =
      Some (Inl (UnknownDeliveryError (lit ''delivery state is unknown'')))" by (simp add: decided_def)
  have "receive_remote sample_env (at_provider ?rc ?a sample_callback_run) sample_registry sample_envelope_text (lit ''100.64.0.2'') \<noteq>
      receive_remote sample_env ?rc sample_registry sample_envelope_text (lit ''100.64.0.2'')" unfolding plain other by simp
  with receive_only_authorized [OF this] show ?thesis by blast
qed

end
