(* ===== verification/Discovery.thy ===== *)
theory Discovery
  imports Receiver
begin

text \<open>
  Discovery (runtime.py): the probe of one courier (\<open>_local_target\<close>), the roster of this device
  (\<open>local_targets\<close>, \<open>peers\<close>), the reading of another device's roster (\<open>_targets_from_tailnet\<close>) and the
  negotiation by which it is asked for (\<open>_remote_node_targets\<close>).
\<close>

section \<open>Membership\<close>

text \<open>
  \<^verbatim>\<open>v in {...}\<close> for a set of strings: lists and dictionaries cannot be hashed, and Python raises
  \<open>TypeError\<close>.
\<close>

fun hashed_in :: "json \<Rightarrow> string list \<Rightarrow> bool res" where
  "hashed_in (JStr s) xs = Inr (list_ex (\<lambda>x. s = lit x) xs)"
| "hashed_in (JArr _) xs = Inl OtherError"
| "hashed_in (JObj _) xs = Inl OtherError"
| "hashed_in _ xs = Inr False"

definition DELIVERY_MECHANISMS :: "string list" where
  "DELIVERY_MECHANISMS =
     [''claude_native'', ''devin_prompt_bound'', ''devin_tool_boundary'', ''devin_acp_host'', ''direct_queue'',
      ''native_helper'', ''stop_bound'', ''owning_daemon'']"

definition DEVIN_CURRENT_BOUNDARIES :: "string list" where
  "DEVIN_CURRENT_BOUNDARIES =
     [''unrestricted'', ''root_tools_only'', ''next_prompt_custom_subagent'', ''next_prompt_unobserved_launch'']"

definition LOCAL_MODES :: "string list" where
  "LOCAL_MODES =
     [''claude_native_cross_session'', ''codex_stop_bound'', ''codex_experimental_queue'', ''codex_daemon_input'',
      ''devin_stop_or_prompt_bound'', ''devin_tool_boundary'', ''devin_acp_hosted'']"

text \<open>\<^verbatim>\<open>v is not None and v not in s\<close>, where a missing key and \<^verbatim>\<open>null\<close> both are \<open>None\<close>.\<close>

definition present :: "json option \<Rightarrow> json option" where
  "present v = (case v of Some JNull \<Rightarrow> None | _ \<Rightarrow> v)"

definition absent_or_in :: "json option \<Rightarrow> string list \<Rightarrow> bool res" where
  "absent_or_in v xs = (case present v of None \<Rightarrow> Inr True | Some x \<Rightarrow> hashed_in x xs)"

section \<open>Probing a courier\<close>

definition health_payload :: "route \<Rightarrow> dict" where
  "health_payload r =
     [(lit ''schema_version'', JInt 1), (lit ''operation'', JStr (lit ''health'')),
      (lit ''generation'', JStr (r_generation r)), (lit ''include_delivery_mode'', JBool True),
      (lit ''include_delivery_mechanism'', JBool True), (lit ''include_owning_daemon'', JBool True),
      (lit ''include_devin_tool_boundary'', JBool True), (lit ''include_devin_acp_host'', JBool True),
      (lit ''include_current_boundary'', JBool True)]"

definition health_keys :: "string list" where
  "health_keys = [''schema_version'', ''status'', ''generation'', ''alias'']"

text \<open>The checks of the answer, in order; the alias when all of them pass.\<close>

definition health_alias :: "route \<Rightarrow> dict \<Rightarrow> str option res" where
  "health_alias r response =
     (if \<not> list_ex (\<lambda>more. has_keys response (health_keys @ more))
            [[], [''delivery_mode''], [''delivery_mode'', ''delivery_mechanism''],
             [''delivery_mode'', ''delivery_mechanism'', ''current_boundary'']] \<or>
         \<not> field_eq_int response ''schema_version'' SCHEMA_VERSION \<or>
         \<not> field_is response ''status'' (lit ''READY'') \<or>
         \<not> field_is response ''generation'' (r_generation r)
      then Inr None
      else
        case jget response ''alias'' of
          Some (JStr alias) \<Rightarrow>
            bind (absent_or_in (jget response ''delivery_mode'') LOCAL_MODES) (\<lambda>mode_ok.
            if \<not> mode_ok then Inr None
            else
              bind (absent_or_in (jget response ''delivery_mechanism'') DELIVERY_MECHANISMS) (\<lambda>mechanism_ok.
              if \<not> mechanism_ok then Inr None
              else
                bind (absent_or_in (jget response ''current_boundary'') DEVIN_CURRENT_BOUNDARIES) (\<lambda>boundary_ok.
                if \<not> boundary_ok \<or>
                   present (jget response ''current_boundary'') \<noteq> None \<and>
                     (r_provider r \<noteq> Devin \<or> present (jget response ''delivery_mechanism'') = None)
                then Inr None else Inr (Some alias))))
        | _ \<Rightarrow> Inr None)"

definition alias_fits :: "pyenv \<Rightarrow> route \<Rightarrow> str \<Rightarrow> bool res" where
  "alias_fits E r alias =
     (if r_provider r \<noteq> Claude then Inr (alias = r_alias r)
      else
        let prefix = lit ''claude@'' @ r_device r @ lit '':'' @ r_project r @ lit '':'' in
        bind (session_key E Claude (r_session_id r)) (\<lambda>key.
        Inr (starts_with prefix alias \<or>
             115 < length prefix \<and> alias = take 115 prefix @ lit ''~'' @ take 12 key)))"

text \<open>\<open>boundary\<close> is what \<open>_devin_current_boundary\<close> reads for the route.\<close>

definition local_target :: "pyenv \<Rightarrow> host \<Rightarrow> exchange \<Rightarrow> (route \<Rightarrow> str) \<Rightarrow> route \<Rightarrow> target option res" where
  "local_target E h x boundary r =
     bind (cwd_is_available (h_fs h) r) (\<lambda>available.
     if \<not> available then Inr None
     else
       case request_socket E x (health_payload r) of
         Inl e \<Rightarrow> if is_chat_error e then Inr None else Inl e
       | Inr response \<Rightarrow>
           bind (health_alias r response) (\<lambda>alias.
           case alias of
             None \<Rightarrow> Inr None
           | Some a \<Rightarrow>
               bind (alias_fits E r a) (\<lambda>fits.
               if \<not> fits then Inr None
               else
                 chat_to_none
                  (bind (valid_name E a ''route alias'') (\<lambda>name.
                   bind (session_key E (r_provider r) (r_session_id r)) (\<lambda>key.
                   Inr (Some
                    \<lparr>p_alias = name, p_provider = Native (r_provider r), p_device = r_device r,
                     p_project = r_project r, p_generation = r_generation r, p_session_key = key, p_remote = False,
                     p_session_id = Some (r_session_id r), p_cwd = Some (r_cwd r), p_pid = Some (r_pid r),
                     p_tailnet_address = None, p_tailnet_node_id = None,
                     p_delivery_mode = as_str (jget response ''delivery_mode''),
                     p_delivery_mechanism = as_str (jget response ''delivery_mechanism''), p_title = None,
                     p_current_boundary = (if r_provider r = Devin then Some (boundary r) else None)\<rparr>)))))))"

section \<open>The roster of this device\<close>

definition roster_routes :: "pyenv \<Rightarrow> host \<Rightarrow> (nat \<Rightarrow> nat option) \<Rightarrow> dir \<Rightarrow> str option \<Rightarrow> route list res" where
  "roster_routes E h decimal d handle =
     bind (registry_routes E d) (\<lambda>routes.
     filter_res (\<lambda>r.
       bind (case handle of
               None \<Rightarrow> Inr True
             | Some k \<Rightarrow> bind (session_key E (r_provider r) (r_session_id r)) (\<lambda>key. Inr (key = k))) (\<lambda>wanted.
       and_res (wanted \<and> process_is_live (h_kill h) r)
        (bind (cwd_is_available (h_fs h) r) (\<lambda>available.
         and_res available (bind (is_helper_lineage E decimal d r) (\<lambda>helper. Inr (\<not> helper))))))) routes)"

text \<open>
  The probes run concurrently; \<open>completed\<close> lists the ones that finished in time, in the order they
  did. An exception in one of them leaves the loop.
\<close>

fun collect_probes :: "(nat \<Rightarrow> target option res) \<Rightarrow> nat list \<Rightarrow> target option list \<Rightarrow> target option list res" where
  "collect_probes result [] found = Inr found"
| "collect_probes result (i # completed) found =
     bind (result i) (\<lambda>t. collect_probes result completed (found[i := t]))"

record probing =
  pb_exchange :: "nat \<Rightarrow> exchange"
  pb_boundary :: "route \<Rightarrow> str"
  pb_decimal :: "nat \<Rightarrow> nat option"
  pb_completed :: "nat list"

definition local_targets :: "pyenv \<Rightarrow> host \<Rightarrow> probing \<Rightarrow> dir \<Rightarrow> str option \<Rightarrow> target list res" where
  "local_targets E h pb d handle =
     bind (roster_routes E h (pb_decimal pb) d handle) (\<lambda>routes.
     bind (collect_probes (\<lambda>i. local_target E h (pb_exchange pb i) (pb_boundary pb) (routes ! i))
             (filter (\<lambda>i. i < length routes) (pb_completed pb)) (replicate (length routes) None)) (\<lambda>found.
     Inr (somes found)))"

text \<open>\<open>_with_codex_titles\<close>: \<open>titles\<close> is what the app servers reported for the threads that could be asked.\<close>

definition with_codex_titles :: "(str \<Rightarrow> str option) \<Rightarrow> target list \<Rightarrow> target list" where
  "with_codex_titles titles =
     map (\<lambda>t. if p_remote t \<or> p_provider t \<noteq> Native Codex then t
              else t\<lparr>p_title := titles (case p_session_id t of None \<Rightarrow> [] | Some s \<Rightarrow> s)\<rparr>)"

section \<open>Reading another device's roster\<close>

record reader =
  rd_mode :: bool
  rd_mechanism :: bool
  rd_title :: bool
  rd_owning :: bool
  rd_tool :: bool
  rd_acp :: bool
  rd_boundary :: bool
  rd_devin :: bool
  rd_external :: bool

definition bad_discovery :: "'a res" where
  "bad_discovery = fail ''Tailnet peer returned invalid discovery''"

definition required_fields :: "string list" where
  "required_fields = [''alias'', ''provider'', ''device'', ''project'', ''status'', ''generation'', ''session_key'']"

definition allowed_fields :: "reader \<Rightarrow> string list" where
  "allowed_fields rd = required_fields @
     (if rd_mode rd then [''delivery_mode''] else []) @
     (if rd_mechanism rd then [''delivery_mechanism''] else []) @
     (if rd_boundary rd then [''current_boundary''] else []) @
     (if rd_title rd then [''title''] else [])"

definition remote_modes :: "reader \<Rightarrow> string list" where
  "remote_modes rd =
     [''claude_native_cross_session'', ''codex_stop_bound'', ''codex_experimental_queue'', ''devin_stop_or_prompt_bound'',
      ''unknown''] @
     (if rd_owning rd then [''codex_daemon_input''] else []) @
     (if rd_tool rd then [''devin_tool_boundary''] else []) @
     (if rd_acp rd then [''devin_acp_hosted''] else [])"

definition peer_of :: "str \<Rightarrow> peer_provider option" where
  "peer_of s = (if s = lit ''external'' then Some ExternalPeer else map_option Native (provider_of s))"

definition mode_ok :: "reader \<Rightarrow> dict \<Rightarrow> bool" where
  "mode_ok rd item \<longleftrightarrow>
     (case jget item ''delivery_mode'' of
        None \<Rightarrow> True
      | Some (JStr s) \<Rightarrow> list_ex (\<lambda>x. s = lit x) (remote_modes rd)
      | Some _ \<Rightarrow> False)"

definition mechanism_ok :: "reader \<Rightarrow> dict \<Rightarrow> bool" where
  "mechanism_ok rd item \<longleftrightarrow>
     (case jget item ''delivery_mechanism'' of
        None \<Rightarrow> True
      | Some (JStr s) \<Rightarrow>
          list_ex (\<lambda>x. s = lit x) (''unknown'' # DELIVERY_MECHANISMS) \<and>
          \<not> (s = lit ''devin_tool_boundary'' \<and> \<not> rd_tool rd) \<and> \<not> (s = lit ''devin_acp_host'' \<and> \<not> rd_acp rd)
      | Some _ \<Rightarrow> False)"

definition known_text :: "json option \<Rightarrow> str option" where
  "known_text v = (case as_str v of None \<Rightarrow> None | Some s \<Rightarrow> if s = lit ''unknown'' then None else Some s)"

text \<open>
  The restriction of a Devin row. The membership test comes after \<open>not include_current_boundary\<close> and
  before the test of the provider.
\<close>

definition boundary_ok :: "reader \<Rightarrow> peer_provider \<Rightarrow> dict \<Rightarrow> bool res" where
  "boundary_ok rd provider item =
     (case present (jget item ''current_boundary'') of
        None \<Rightarrow> Inr True
      | Some v \<Rightarrow>
          if \<not> rd_boundary rd then Inr False
          else bind (hashed_in v DEVIN_CURRENT_BOUNDARIES) (\<lambda>known. Inr (known \<and> provider = Native Devin)))"

definition item_values :: "dict \<Rightarrow> (str \<times> str \<times> str \<times> str \<times> str \<times> str) option" where
  "item_values item =
     (case (as_str (jget item ''provider''), as_str (jget item ''alias''), as_str (jget item ''device''),
            as_str (jget item ''project''), as_str (jget item ''generation''), as_str (jget item ''session_key'')) of
        (Some provider, Some alias, Some device, Some project, Some generation, Some key) \<Rightarrow>
          Some (provider, alias, device, project, generation, key)
      | _ \<Rightarrow> None)"

definition item_refused :: "reader \<Rightarrow> dict \<Rightarrow> peer_provider \<Rightarrow> str \<Rightarrow> bool" where
  "item_refused rd item p key \<longleftrightarrow>
     p = ExternalPeer \<and> \<not> rd_external rd \<or> p = Native Devin \<and> \<not> rd_devin rd \<or>
     \<not> field_is item ''status'' (lit ''available'') \<or> \<not> hex64 key \<or> \<not> mode_ok rd item \<or>
     \<not> mechanism_ok rd item \<or>
     (case present (jget item ''title'') of None \<Rightarrow> False | Some v \<Rightarrow> \<not> rd_title rd \<or> as_str (Some v) = None)"

definition item_target ::
  "pyenv \<Rightarrow> str \<Rightarrow> str option \<Rightarrow> dict \<Rightarrow> peer_provider \<Rightarrow> str \<Rightarrow> str \<Rightarrow> str \<Rightarrow> str \<Rightarrow> str \<Rightarrow> target res" where
  "item_target E address node_id item p alias device project generation key =
     bind (valid_name E alias ''remote alias'') (\<lambda>a.
     bind (valid_device device) (\<lambda>dv.
     bind (valid_name E project ''remote project'') (\<lambda>pj.
     bind (valid_uuid generation ''route generation'') (\<lambda>g.
     bind (case as_str (jget item ''title'') of
             None \<Rightarrow> Inr None
           | Some s \<Rightarrow> bind (valid_name E s ''remote title'') (\<lambda>n. Inr (Some n))) (\<lambda>title.
     Inr
      \<lparr>p_alias = a, p_provider = p, p_device = dv, p_project = pj, p_generation = g,
       p_session_key = key, p_remote = True, p_session_id = None, p_cwd = None, p_pid = None,
       p_tailnet_address = Some address, p_tailnet_node_id = node_id,
       p_delivery_mode = known_text (jget item ''delivery_mode''),
       p_delivery_mechanism = known_text (jget item ''delivery_mechanism''), p_title = title,
       p_current_boundary = as_str (jget item ''current_boundary'')\<rparr>)))))"

definition tailnet_item :: "pyenv \<Rightarrow> reader \<Rightarrow> str \<Rightarrow> str option \<Rightarrow> json \<Rightarrow> target res" where
  "tailnet_item E rd address node_id raw =
     (case raw of
        JObj item \<Rightarrow>
          if \<not> (keyset required_fields \<subseteq> jkeys item \<and> jkeys item \<subseteq> keyset (allowed_fields rd)) then bad_discovery
          else
            (case item_values item of
               None \<Rightarrow> bad_discovery
             | Some (provider, alias, device, project, generation, key) \<Rightarrow>
                 (case peer_of provider of
                    None \<Rightarrow> bad_discovery
                  | Some p \<Rightarrow>
                      if item_refused rd item p key then bad_discovery
                      else
                        bind (boundary_ok rd p item) (\<lambda>ok.
                        if \<not> ok then bad_discovery
                        else item_target E address node_id item p alias device project generation key)))
      | _ \<Rightarrow> bad_discovery)"

definition targets_from_tailnet :: "pyenv \<Rightarrow> reader \<Rightarrow> str \<Rightarrow> str option \<Rightarrow> dict \<Rightarrow> target list res" where
  "targets_from_tailnet E rd address node_id response =
     (if \<not> has_keys response [''schema_version'', ''peers''] \<or> \<not> field_eq_int response ''schema_version'' SCHEMA_VERSION
      then bad_discovery
      else
        case jget response ''peers'' of
          Some (JArr items) \<Rightarrow> map_res (tailnet_item E rd address node_id) items
        | _ \<Rightarrow> bad_discovery)"

section \<open>Listing peers\<close>

text \<open>\<^verbatim>\<open>w in s\<close> for strings.\<close>

definition contains :: "str \<Rightarrow> str \<Rightarrow> bool" where
  "contains s w \<longleftrightarrow> list_ex (\<lambda>i. starts_with w (drop i s)) [0..<Suc (length s)]"

definition target_before :: "pyenv \<Rightarrow> target \<Rightarrow> target \<Rightarrow> bool" where
  "target_before E t u \<longleftrightarrow>
     (if casefold E (p_alias t) = casefold E (p_alias u) then str_less_eq (p_session_key t) (p_session_key u)
      else str_less_eq (casefold E (p_alias t)) (casefold E (p_alias u)))"

fun insert_target :: "pyenv \<Rightarrow> target \<Rightarrow> target list \<Rightarrow> target list" where
  "insert_target E t [] = [t]"
| "insert_target E t (u # us) = (if target_before E t u then t # u # us else u # insert_target E t us)"

definition sorted_targets :: "pyenv \<Rightarrow> target list \<Rightarrow> target list" where
  "sorted_targets E ts = foldr (insert_target E) ts []"

definition target_handle_token :: "pyenv \<Rightarrow> str \<Rightarrow> target \<Rightarrow> str option res" where
  "target_handle_token E canonical t =
     (if p_remote t
      then (case p_tailnet_node_id t of
              None \<Rightarrow> Inr None
            | Some n \<Rightarrow> bind (remote_token E n (p_session_key t) (p_generation t)) (\<lambda>x. Inr (Some x)))
      else bind (local_token E canonical (p_session_key t) (p_generation t)) (\<lambda>x. Inr (Some x)))"

definition devin_display_title :: "str \<Rightarrow> str" where
  "devin_display_title key = lit ''session '' @ take CODEX_ALIAS_DIGEST_LENGTH key"

definition listing_disclosure :: "bool \<Rightarrow> reader \<Rightarrow> disclosure" where
  "listing_disclosure internal rd =
     \<lparr>dc_delivery_mode = rd_mode rd, dc_delivery_mechanism = rd_mechanism rd, dc_handle = (\<not> internal),
      dc_title = (\<not> internal \<or> rd_title rd), dc_owning_daemon = (\<not> internal \<or> rd_owning rd),
      dc_tool_boundary = (\<not> internal \<or> rd_tool rd), dc_acp_host = (\<not> internal \<or> rd_acp rd),
      dc_current_boundary = (\<not> internal \<or> rd_boundary rd)\<rparr>"

definition peer_item :: "bool \<Rightarrow> reader \<Rightarrow> str option \<Rightarrow> target \<Rightarrow> (str \<times> str) list" where
  "peer_item internal rd token t =
     public (listing_disclosure internal rd) token t @
     (if internal then [(lit ''generation'', p_generation t), (lit ''session_key'', p_session_key t)] else []) @
     (if p_provider t = Native Devin \<and> p_title t = None \<and> (\<not> internal \<or> rd_title rd)
      then [(lit ''title'', devin_display_title (p_session_key t))] else []) @
     (if p_provider t = ExternalPeer \<and> \<not> internal
      then [(lit ''identity_assurance'', lit ''owner_enrolled_endpoint'')] else [])"

fun peer_items :: "pyenv \<Rightarrow> str \<Rightarrow> bool \<Rightarrow> reader \<Rightarrow> target list \<Rightarrow> (str \<times> str) list list res" where
  "peer_items E canonical internal rd [] = Inr []"
| "peer_items E canonical internal rd (t # ts) =
     bind (if internal then Inr None else target_handle_token E canonical t) (\<lambda>token.
     bind (peer_items E canonical internal rd ts) (\<lambda>items.
     Inr (if \<not> internal \<and> token = None then items else peer_item internal rd token t # items)))"

definition text_of :: "(str \<times> str) list \<Rightarrow> string \<Rightarrow> str" where
  "text_of item k = (case map_of item (lit k) of None \<Rightarrow> [] | Some s \<Rightarrow> s)"

definition peer_title_metadata :: "(str \<times> str) list list \<Rightarrow> dict" where
  "peer_title_metadata items =
     (let candidates = filter (\<lambda>i. map_of i (lit ''provider'') \<in> {Some (lit ''codex''), Some (lit ''external'')}) items;
          missing = length (filter (\<lambda>i. text_of i ''title'' = []) candidates) in
      [(lit ''status'', JStr (lit (if missing = 0 then ''complete'' else ''incomplete''))),
       (lit ''applicable'', JInt (int (length candidates))), (lit ''missing'', JInt (int missing))])"

text \<open>
  What a listing meets: the host, what \<open>local_targets\<close> and \<open>_remote_discovery\<close> returned, what Tailscale
  reported about this device, and the titles of the Codex threads.
\<close>

record listing =
  ls_host :: host
  ls_local :: "target list res"
  ls_remote :: "(target list \<times> bool) res"
  ls_identity :: "tailnet_identity option"
  ls_titles :: "str \<Rightarrow> str option"

definition listed_targets :: "listing \<Rightarrow> bool \<Rightarrow> bool \<Rightarrow> (target list \<times> string) res" where
  "listed_targets ls include_remote internal =
     (if \<not> include_remote then bind (ls_local ls) (\<lambda>ts. Inr (ts, ''not_requested''))
      else
        bind (ls_remote ls) (\<lambda>(remote, complete).
        bind (ls_local ls) (\<lambda>native.
        let ts = native @ remote;
            selectable = (case ls_identity ls of None \<Rightarrow> False | Some i \<Rightarrow> ti_self_node_id i \<noteq> None) in
        Inr (if \<not> internal \<and> \<not> selectable then filter (\<lambda>t. \<not> p_remote t) ts else ts,
             if complete then ''complete'' else ''incomplete''))))"

definition with_external :: "pyenv \<Rightarrow> listing \<Rightarrow> dir \<Rightarrow> bool \<Rightarrow> str option \<Rightarrow> target list \<Rightarrow> (target list \<times> bool) res" where
  "with_external E ls d enabled handle ts =
     (if \<not> enabled then Inr (ts, False)
      else
        case external_targets E (h_uid (ls_host ls)) (h_wall (ls_host ls)) d handle of
          Inr xs \<Rightarrow> Inr (ts @ xs, False)
        | Inl e \<Rightarrow> if is_chat_error e then Inr (ts, True) else Inl e)"

definition wanted_item :: "pyenv \<Rightarrow> str \<Rightarrow> (str \<times> str) list \<Rightarrow> bool" where
  "wanted_item E wanted item \<longleftrightarrow>
     contains (casefold E (text_of item ''alias'')) wanted \<or> contains (casefold E (text_of item ''title'')) wanted"

definition json_item :: "(str \<times> str) list \<Rightarrow> json" where
  "json_item item = JObj (map (\<lambda>(k, v). (k, JStr v)) item)"

definition peers :: "pyenv \<Rightarrow> listing \<Rightarrow> dir \<Rightarrow> bool \<Rightarrow> bool \<Rightarrow> reader \<Rightarrow> str option \<Rightarrow> str option \<Rightarrow> dict res" where
  "peers E ls d include_remote internal rd handle query =
     bind (case query of None \<Rightarrow> Inr None | Some q \<Rightarrow> bind (valid_name E q ''peer query'') (\<lambda>n. Inr (Some (casefold E n)))) (\<lambda>wanted.
     bind (listed_targets ls include_remote internal) (\<lambda>(ts0, remote_discovery).
     bind (with_external E ls d (rd_external rd) handle ts0) (\<lambda>(ts1, unavailable).
     let ts2 = (if rd_devin rd then ts1 else filter (\<lambda>t. p_provider t \<noteq> Native Devin) ts1) in
     if \<not> distinct (map p_session_key ts2) then fail ''peer discovery returned duplicate handles''
     else
       let ts3 = sorted_targets E ts2;
           ts4 = (if \<not> internal \<or> rd_title rd then with_codex_titles (ls_titles ls) ts3 else ts3) in
       bind (peer_items E (h_root (ls_host ls)) internal rd ts4) (\<lambda>items.
       let shown = (case wanted of None \<Rightarrow> items | Some w \<Rightarrow> filter (wanted_item E w) items) in
       Inr ([(lit ''schema_version'', JInt SCHEMA_VERSION), (lit ''peers'', JArr (map json_item shown))] @
            (case query of
               None \<Rightarrow> []
             | Some q \<Rightarrow>
                 [(lit ''filter'', JObj [(lit ''query'', JStr q), (lit ''matched'', JInt (int (length shown))),
                    (lit ''of'', JInt (int (length items)))])] @
                 (if internal then [] else [(lit ''title_metadata'', JObj (peer_title_metadata items))])) @
            (if internal then []
             else [(lit ''remote_discovery'', JStr (lit remote_discovery))] @
                  (if unavailable then [(lit ''external_discovery'', JStr (lit ''unavailable''))] else [])))))))"

section \<open>Asking another device\<close>

definition flag :: "string \<Rightarrow> dict \<Rightarrow> dict" where
  "flag k payload = dict_put payload (lit k) (JBool True)"

definition has_flag :: "dict \<Rightarrow> string \<Rightarrow> bool" where
  "has_flag payload k \<longleftrightarrow> jget payload k \<noteq> None"

definition flag_if :: "bool \<Rightarrow> string \<Rightarrow> dict \<Rightarrow> dict" where
  "flag_if b k payload = (if b then flag k payload else payload)"

definition legacy_query :: dict where
  "legacy_query = [(lit ''schema_version'', JInt SCHEMA_VERSION), (lit ''operation'', JStr (lit ''peers''))]"

definition with_handle :: "str option \<Rightarrow> dict \<Rightarrow> dict" where
  "with_handle handle payload = (case handle of None \<Rightarrow> payload | Some h \<Rightarrow> dict_put payload (lit ''handle'') (JStr h))"

text \<open>The shapes a broker is asked in before any mechanism is negotiated, and whether the mode is asked for.\<close>

definition base_variants :: "reader \<Rightarrow> str option \<Rightarrow> (dict \<times> bool) list" where
  "base_variants rd handle =
     (if rd_external rd
      then [(with_handle handle (flag_if (rd_devin rd) ''include_devin'' (flag_if (rd_mode rd) ''include_delivery_mode''
               (flag ''include_external'' legacy_query))), rd_mode rd)]
      else []) @
     (if handle \<noteq> None
      then [(flag_if (rd_devin rd) ''include_devin'' (flag_if (rd_mode rd) ''include_delivery_mode''
               (with_handle handle legacy_query)), rd_mode rd)]
      else []) @
     (if rd_mode rd \<and> rd_devin rd then [(flag ''include_devin'' (flag ''include_delivery_mode'' legacy_query), True)] else []) @
     (if rd_mode rd then [(flag ''include_delivery_mode'' legacy_query, True)] else []) @
     (if rd_devin rd then [(flag ''include_devin'' legacy_query, False)] else []) @
     [(legacy_query, False)]"

definition mechanism_shapes :: "reader \<Rightarrow> dict \<Rightarrow> (dict \<times> bool) list" where
  "mechanism_shapes rd shape =
     (let tool = flag ''include_devin_tool_boundary'' shape; acp = flag ''include_devin_acp_host'' tool in
      (if rd_boundary rd then [(flag ''include_current_boundary'' acp, True)] else []) @
      [(acp, True)] @
      (if rd_boundary rd then [(flag ''include_current_boundary'' tool, True)] else []) @
      [(tool, True), (shape, True)])"

definition query_variants :: "reader \<Rightarrow> str option \<Rightarrow> (dict \<times> bool) list" where
  "query_variants rd handle =
     (let base = base_variants rd handle in
      if rd_mechanism rd
      then concat (map (\<lambda>p. mechanism_shapes rd (flag ''include_owning_daemon'' (flag ''include_delivery_mechanism'' (fst p))))
                     (filter snd base)) @ base
      else base)"

text \<open>What a variant lets the answer contain.\<close>

definition variant_reader :: "reader \<Rightarrow> dict \<times> bool \<Rightarrow> reader" where
  "variant_reader rd v =
     (let payload = fst v in
      \<lparr>rd_mode = snd v, rd_mechanism = has_flag payload ''include_delivery_mechanism'', rd_title = False,
       rd_owning = has_flag payload ''include_owning_daemon'', rd_tool = has_flag payload ''include_devin_tool_boundary'',
       rd_acp = has_flag payload ''include_devin_acp_host'', rd_boundary = has_flag payload ''include_current_boundary'',
       rd_devin = rd_devin rd, rd_external = rd_external rd\<rparr>)"

text \<open>
  The loop of one variant: it repeats while the broker is at capacity. \<open>Late\<close> is the deadline before
  any answer, \<open>Missed\<close> a \<open>ChatError\<close>, \<open>Full\<close> the capacity refusal that governs.
\<close>

datatype asked = Answer dict | Missed | Full | Late | Broken exn

partial_function (option) ask ::
  "(nat \<Rightarrow> attempt) \<Rightarrow> (exchange \<Rightarrow> dict res) \<Rightarrow> rat \<Rightarrow> rat \<Rightarrow> rat \<Rightarrow> bool \<Rightarrow> nat \<Rightarrow> (asked \<times> nat \<times> rat) option" where
  "ask attempts request deadline now delay full n =
     (if deadline - now \<le> 0 then Some (if full then Full else Late, n, now)
      else
        (let a = attempts n; now' = after now (at_took a) in
         case request (at_exchange a) of
           Inl e \<Rightarrow> Some (if is_chat_error e then Missed else Broken e, Suc n, now')
         | Inr raw \<Rightarrow>
             if \<not> at_capacity raw then Some (Answer raw, Suc n, now')
             else
               (case pre_effect_retry_pause deadline now' delay (at_overslept a) of
                  None \<Rightarrow> Some (Full, Suc n, now')
                | Some (delay', now'') \<Rightarrow> ask attempts request deadline now'' delay' True (Suc n))))"

text \<open>
  The variants in turn: no usable answer, the deadline, the capacity refusal, an exception, or a
  roster with the variant that gave it.
\<close>

datatype found = NoneFound | TooLate | AtCapacity | Failed exn | Found "target list" "dict"

fun try_variants ::
  "pyenv \<Rightarrow> (nat \<Rightarrow> attempt) \<Rightarrow> reader \<Rightarrow> str \<Rightarrow> str option \<Rightarrow> rat \<Rightarrow> (dict \<times> bool) list \<Rightarrow> rat \<Rightarrow> nat \<Rightarrow>
   (found \<times> nat \<times> rat) option" where
  "try_variants E attempts rd address node_id deadline [] now n = Some (NoneFound, n, now)"
| "try_variants E attempts rd address node_id deadline (v # vs) now n =
     (case ask attempts (\<lambda>x. request_tailnet E x (fst v)) deadline now PRE_EFFECT_RETRY_SECONDS False n of
        None \<Rightarrow> None
      | Some (Late, n', now') \<Rightarrow> Some (TooLate, n', now')
      | Some (Full, n', now') \<Rightarrow> Some (AtCapacity, n', now')
      | Some (Broken e, n', now') \<Rightarrow> Some (Failed e, n', now')
      | Some (Missed, n', now') \<Rightarrow> try_variants E attempts rd address node_id deadline vs now' n'
      | Some (Answer raw, n', now') \<Rightarrow>
          (case targets_from_tailnet E (variant_reader rd v) address node_id raw of
             Inr base \<Rightarrow> Some (Found base (fst v), n', now')
           | Inl e \<Rightarrow>
               if is_chat_error e then try_variants E attempts rd address node_id deadline vs now' n'
               else Some (Failed e, n', now')))"

text \<open>The second question, for titles, and when its answer replaces the first.\<close>

definition rich_query :: "reader \<Rightarrow> str option \<Rightarrow> dict \<Rightarrow> dict" where
  "rich_query rd handle payload =
     with_handle handle
      (flag_if (has_flag payload ''include_external'') ''include_external''
      (flag_if (rd_devin rd) ''include_devin''
      (flag_if (has_flag payload ''include_current_boundary'') ''include_current_boundary''
      (flag_if (has_flag payload ''include_devin_acp_host'') ''include_devin_acp_host''
      (flag_if (has_flag payload ''include_devin_tool_boundary'') ''include_devin_tool_boundary''
      (flag_if (has_flag payload ''include_owning_daemon'') ''include_owning_daemon''
      (flag_if (has_flag payload ''include_delivery_mechanism'') ''include_delivery_mechanism''
      (flag ''include_title'' (flag ''include_delivery_mode'' legacy_query)))))))))"

definition rich_reader :: "reader \<Rightarrow> dict \<Rightarrow> reader" where
  "rich_reader rd payload =
     (variant_reader rd (payload, True))\<lparr>rd_title := True, rd_external := has_flag payload ''include_external''\<rparr>"

definition untitled :: "target \<Rightarrow> target" where
  "untitled t = t\<lparr>p_title := None\<rparr>"

definition same_authority :: "target list \<Rightarrow> target list \<Rightarrow> bool" where
  "same_authority base rich \<longleftrightarrow>
     distinct (map p_session_key base) \<and> distinct (map p_session_key rich) \<and>
     set (map untitled rich) = set (map untitled base)"

definition enriched :: "pyenv \<Rightarrow> attempt \<Rightarrow> reader \<Rightarrow> str \<Rightarrow> str option \<Rightarrow> str option \<Rightarrow> target list \<Rightarrow> dict \<Rightarrow> target list res" where
  "enriched E a rd address node_id handle base payload =
     (case bind (request_tailnet E (at_exchange a) (rich_query rd handle payload))
             (targets_from_tailnet E (rich_reader rd payload) address node_id) of
        Inl e \<Rightarrow> if is_chat_error e then Inr base else Inl e
      | Inr ts \<Rightarrow>
          (let rich = (if rd_mode rd then ts else map (\<lambda>t. t\<lparr>p_delivery_mode := None\<rparr>) ts) in
           Inr (if same_authority base rich then rich else base)))"

definition remote_node_targets ::
  "pyenv \<Rightarrow> (nat \<Rightarrow> attempt) \<Rightarrow> reader \<Rightarrow> str \<Rightarrow> str option \<Rightarrow> str option \<Rightarrow> rat \<Rightarrow> rat \<Rightarrow> (target list \<times> bool) res option" where
  "remote_node_targets E attempts rd address node_id handle deadline now =
     (case try_variants E attempts rd address node_id deadline (query_variants rd handle) now 0 of
        None \<Rightarrow> None
      | Some (NoneFound, _) \<Rightarrow> Some (Inr ([], False))
      | Some (TooLate, _) \<Rightarrow> Some (Inr ([], False))
      | Some (AtCapacity, _) \<Rightarrow> Some (fail ''recipient broker is at capacity; nothing was delivered; send again'')
      | Some (Failed e, _) \<Rightarrow> Some (Inl e)
      | Some (Found base payload, n, now') \<Rightarrow>
          if \<not> rd_title rd \<or> deadline - now' \<le> 1 then Some (Inr (base, True))
          else Some (bind (enriched E (attempts n) rd address node_id handle base payload) (\<lambda>ts. Inr (ts, True))))"

section \<open>What a reader accepts\<close>

text \<open>A target another device may be told about, or have told this one about.\<close>

definition remote_shape :: "pyenv \<Rightarrow> reader \<Rightarrow> str \<Rightarrow> str option \<Rightarrow> target \<Rightarrow> bool" where
  "remote_shape E rd address node_id t \<longleftrightarrow>
     p_remote t \<and> p_tailnet_address t = Some address \<and> p_tailnet_node_id t = node_id \<and>
     name_shape E (p_alias t) \<and> device_shape (p_device t) \<and> name_shape E (p_project t) \<and>
     uuid_shape (p_generation t) \<and> hex64 (p_session_key t) \<and>
     (p_provider t = ExternalPeer \<longrightarrow> rd_external rd) \<and> (p_provider t = Native Devin \<longrightarrow> rd_devin rd)"

lemma bad_discovery_not_ok [simp]: "bad_discovery \<noteq> Inr x"
  by (simp add: bad_discovery_def fail_def)

lemma tailnet_itemD:
  assumes "tailnet_item E rd address node_id raw = Inr t"
  obtains item p al dev pj g key where "\<not> item_refused rd item p key"
    "item_target E address node_id item p al dev pj g key = Inr t"
  using assms
  by (cases raw) (auto simp: tailnet_item_def bind_Inr_iff split: if_splits option.splits)

lemma tailnet_item_shape:
  assumes "tailnet_item E rd address node_id raw = Inr t"
  shows "remote_shape E rd address node_id t"
proof -
  obtain item p al dev pj g key where x: "\<not> item_refused rd item p key"
    "item_target E address node_id item p al dev pj g key = Inr t"
    by (rule tailnet_itemD [OF assms])
  from x(2) have "p_provider t = p" "p_session_key t = key" "p_remote t" "p_tailnet_address t = Some address"
    "p_tailnet_node_id t = node_id" "name_shape E (p_alias t)" "device_shape (p_device t)" "name_shape E (p_project t)"
    "uuid_shape (p_generation t)"
    unfolding item_target_def bind_Inr_iff by (auto simp: valid_simps)
  with x(1) show ?thesis by (simp add: remote_shape_def item_refused_def)
qed

lemma targets_from_tailnet_shape:
  "targets_from_tailnet E rd address node_id d = Inr ts \<Longrightarrow> t \<in> set ts \<Longrightarrow> remote_shape E rd address node_id t"
proof -
  assume "targets_from_tailnet E rd address node_id d = Inr ts" "t \<in> set ts"
  then obtain items where "map_res (tailnet_item E rd address node_id) items = Inr ts"
    by (auto simp: targets_from_tailnet_def bad_discovery_def split: if_splits option.splits json.splits)
  then show ?thesis using \<open>t \<in> set ts\<close>
  proof (induction items arbitrary: ts)
    case (Cons i items)
    then show ?case by (auto simp: bind_Inr_iff dest: tailnet_item_shape)
  qed simp
qed

section \<open>Asking ends\<close>

lemma pause_later: "pre_effect_retry_pause deadline now delay ov = Some (delay', now') \<Longrightarrow> 0 \<le> delay \<Longrightarrow> now \<le> now'"
  by (auto simp: pre_effect_retry_pause_def Let_def after_def min_def max_def split: if_splits)

lemma ask_ends:
  assumes "0 < \<delta>" "\<delta> \<le> 1" "\<delta> \<le> delay" "deadline - 2 - now \<le> of_nat k * \<delta>"
  shows "\<exists>r m now'. ask attempts request deadline now delay full n = Some (r, m, now') \<and> now \<le> now' \<and> m \<le> Suc (n + k) \<and>
    (\<forall>raw. r = Answer raw \<longrightarrow> \<not> at_capacity raw \<and> (\<exists>i < m. request (at_exchange (attempts i)) = Inr raw))"
  using assms(3,4)
proof (induction k arbitrary: now delay full n)
  case 0
  then have "deadline - 2 \<le> after now (at_took (attempts n))" using after_le [of now] by (simp add: order_trans)
  then have "pre_effect_retry_pause deadline (after now (at_took (attempts n))) delay ov = None" for ov
    by (rule pause_none)
  then show ?case by (subst ask.simps) (auto simp: Let_def after_le split: sum.splits)
next
  case (Suc k)
  let ?a = "attempts n" and ?now = "after now (at_took (attempts n))"
  show ?case
  proof (cases "\<exists>raw. request (at_exchange ?a) = Inr raw \<and> at_capacity raw")
    case False
    then show ?thesis by (subst ask.simps) (auto simp: Let_def after_le split: sum.splits)
  next
    case True
    then obtain raw where r: "request (at_exchange ?a) = Inr raw" "at_capacity raw" by blast
    show ?thesis
    proof (cases "pre_effect_retry_pause deadline ?now delay (at_overslept ?a)")
      case None
      with r show ?thesis by (subst ask.simps) (auto simp: Let_def after_le)
    next
      case (Some q)
      obtain delay' now' where q: "q = (delay', now')" by (cases q)
      note p = pause_delay [OF Some [unfolded q]]
      have le: "now \<le> ?now" by (rule after_le)
      have d: "\<delta> \<le> delay'" using p assms(1,2) Suc.prems(1) by (auto simp: min_def)
      have "0 \<le> of_nat k * \<delta>" using assms(1) by simp
      then have "deadline - 2 - now' \<le> of_nat k * \<delta>" using p le Suc.prems by (auto simp: algebra_simps)
      from Suc.IH [OF d this, of True "Suc n"] pause_later [OF Some [unfolded q]] le assms(1) Suc.prems(1)
      obtain r m now'' where rest: "ask attempts request deadline now' delay' True (Suc n) = Some (r, m, now'')" "now \<le> now''"
        "m \<le> Suc (Suc n + k)"
        "\<forall>raw. r = Answer raw \<longrightarrow> \<not> at_capacity raw \<and> (\<exists>i < m. request (at_exchange (attempts i)) = Inr raw)"
        by fastforce
      show ?thesis
      proof (cases "deadline - now \<le> 0")
        case True
        then show ?thesis by (subst ask.simps) auto
      next
        case False
        then have "ask attempts request deadline now delay full n = ask attempts request deadline now' delay' True (Suc n)"
          using r Some q by (subst ask.simps) (simp add: Let_def)
        with rest show ?thesis by simp
      qed
    qed
  qed
qed

text \<open>One variant makes at most one question for every quarter of a second, and one more.\<close>

definition questions :: "rat \<Rightarrow> rat \<Rightarrow> nat" where
  "questions deadline now = Suc (nat \<lceil>4 * (deadline - 2 - now)\<rceil>)"

lemma ask_first:
  "\<exists>r m now'. ask attempts request deadline now PRE_EFFECT_RETRY_SECONDS False n = Some (r, m, now') \<and> now \<le> now' \<and>
    m \<le> n + questions deadline now \<and>
    (\<forall>raw. r = Answer raw \<longrightarrow> \<not> at_capacity raw \<and> (\<exists>i < m. request (at_exchange (attempts i)) = Inr raw))"
proof -
  define x where "x = deadline - 2 - now"
  have "4 * x \<le> of_nat (nat \<lceil>4 * x\<rceil>)" by (rule of_nat_ceiling)
  then have "deadline - 2 - now \<le> of_nat (nat \<lceil>4 * (deadline - 2 - now)\<rceil>) * (1 / 4)" unfolding x_def [symmetric] by simp
  from ask_ends [of "1 / 4", OF _ _ _ this, of PRE_EFFECT_RETRY_SECONDS attempts request False n] show ?thesis
    by (simp add: PRE_EFFECT_RETRY_SECONDS_def questions_def)
qed

lemma questions_mono: "now \<le> now' \<Longrightarrow> questions deadline now' \<le> questions deadline now"
  unfolding questions_def by (intro Suc_le_mono [THEN iffD2] nat_mono ceiling_mono) simp

text \<open>What is known of the questions when they end: at most \<open>N\<close> were asked, and a roster came from one of them.\<close>

definition found_from :: "pyenv \<Rightarrow> (nat \<Rightarrow> attempt) \<Rightarrow> reader \<Rightarrow> str \<Rightarrow> str option \<Rightarrow> dict \<times> bool \<Rightarrow> nat \<Rightarrow> target list \<Rightarrow> bool" where
  "found_from E attempts rd address node_id v m base \<longleftrightarrow>
     (\<exists>raw i. i < m \<and> request_tailnet E (at_exchange (attempts i)) (fst v) = Inr raw \<and> \<not> at_capacity raw \<and>
        targets_from_tailnet E (variant_reader rd v) address node_id raw = Inr base)"

definition tried ::
  "pyenv \<Rightarrow> (nat \<Rightarrow> attempt) \<Rightarrow> reader \<Rightarrow> str \<Rightarrow> str option \<Rightarrow> (dict \<times> bool) list \<Rightarrow> nat \<Rightarrow> rat \<Rightarrow>
   (found \<times> nat \<times> rat) option \<Rightarrow> bool" where
  "tried E attempts rd address node_id vs N now result \<longleftrightarrow>
     (\<exists>r m now'. result = Some (r, m, now') \<and> now \<le> now' \<and> m \<le> N \<and>
        (\<forall>base payload. r = Found base payload \<longrightarrow>
           (\<exists>v \<in> set vs. payload = fst v \<and> found_from E attempts rd address node_id v m base)))"

lemma tried_later:
  "tried E attempts rd address node_id vs N' now' result \<Longrightarrow> N' \<le> N \<Longrightarrow> now \<le> now' \<Longrightarrow>
   tried E attempts rd address node_id (v # vs) N now result"
proof -
  assume "tried E attempts rd address node_id vs N' now' result" and le: "N' \<le> N" "now \<le> now'"
  then obtain r m t where r: "result = Some (r, m, t)" "now' \<le> t" "m \<le> N'"
    "\<forall>base payload. r = Found base payload \<longrightarrow>
       (\<exists>v \<in> set vs. payload = fst v \<and> found_from E attempts rd address node_id v m base)"
    by (auto simp: tried_def)
  from r(4) have "\<forall>base payload. r = Found base payload \<longrightarrow>
       (\<exists>v \<in> set (v # vs). payload = fst v \<and> found_from E attempts rd address node_id v m base)" by auto
  with r(1-3) le show ?thesis by (auto simp: tried_def)
qed

lemma try_variants_ends:
  "tried E attempts rd address node_id vs (n + length vs * questions deadline now) now
     (try_variants E attempts rd address node_id deadline vs now n)"
proof (induction vs arbitrary: now n)
  case (Cons v vs)
  let ?N = "n + length (v # vs) * questions deadline now"
  obtain r m now' where ask: "ask attempts (\<lambda>x. request_tailnet E x (fst v)) deadline now PRE_EFFECT_RETRY_SECONDS False n = Some (r, m, now')"
    "now \<le> now'" "m \<le> n + questions deadline now"
    "\<forall>raw. r = Answer raw \<longrightarrow> \<not> at_capacity raw \<and> (\<exists>i < m. request_tailnet E (at_exchange (attempts i)) (fst v) = Inr raw)"
    using ask_first by blast
  have "length vs * questions deadline now' \<le> length vs * questions deadline now"
    using questions_mono [OF ask(2)] by (rule mult_le_mono2)
  with ask(3) have "m + length vs * questions deadline now' \<le> n + (questions deadline now + length vs * questions deadline now)"
    by linarith
  then have "m + length vs * questions deadline now' \<le> ?N" by simp
  note rest = tried_later [OF Cons.IH this ask(2), of v]
  have le: "m \<le> ?N" using ask(3) by simp
  show ?case
  proof (cases r)
    case (Answer raw)
    show ?thesis
    proof (cases "targets_from_tailnet E (variant_reader rd v) address node_id raw")
      case (Inl e)
      with Answer ask(1,2) rest le show ?thesis
        by (cases "is_chat_error e") (simp_all add: tried_def [of _ _ _ _ _ _ _ _ "Some (Failed e, m, now')"])
    next
      case (Inr base)
      with Answer ask(4) have "found_from E attempts rd address node_id v m base" by (auto simp: found_from_def)
      with Inr Answer ask(1,2) le show ?thesis by (simp add: tried_def)
    qed
  next
    case Missed
    with ask(1) rest show ?thesis by simp
  qed (use ask(1,2) le in \<open>simp_all add: tried_def\<close>)
qed (simp add: tried_def)

text \<open>
  Unrestricted titles do not change who a target is.
\<close>

lemma enriched_shape:
  assumes "enriched E a rd address node_id handle base payload = Inr ts"
    and "\<And>t. t \<in> set base \<Longrightarrow> remote_shape E rd address node_id t" "t \<in> set ts"
  shows "remote_shape E rd address node_id t \<and> untitled t \<in> untitled ` set base"
proof -
  from assms(1) have "ts = base \<or> set (map untitled ts) = set (map untitled base)"
    by (auto simp: enriched_def same_authority_def Let_def split: sum.splits if_splits)
  then have "untitled t \<in> untitled ` set base" using assms(3) by (metis image_eqI list.set_map)
  moreover then obtain u where "u \<in> set base" "untitled t = untitled u" by blast
  then have "remote_shape E rd address node_id t"
    using assms(2) [of u] by (simp add: remote_shape_def untitled_def) (metis target.ext_inject target.surjective target.update_convs(15))
  ultimately show ?thesis by blast
qed

lemma query_variants_length: "length (query_variants rd handle) \<le> 26"
proof -
  let ?base = "base_variants rd handle" and ?g = "\<lambda>p. flag ''include_owning_daemon'' (flag ''include_delivery_mechanism'' (fst p))"
  have five: "length (mechanism_shapes rd s) \<le> 5" for s by (simp add: mechanism_shapes_def Let_def)
  have "length (concat (map (\<lambda>p. mechanism_shapes rd (?g p)) ps)) \<le> 5 * length ps" for ps :: "(dict \<times> bool) list"
  proof (induction ps)
    case (Cons p ps)
    with five [of "?g p"] show ?case by simp
  qed simp
  from this [of "filter snd ?base"] have "length (concat (map (\<lambda>p. mechanism_shapes rd (?g p)) (filter snd ?base))) \<le> 5 * length (filter snd ?base)" .
  moreover have "length (filter snd ?base) \<le> 4" "length ?base \<le> 6" by (simp_all add: base_variants_def)
  ultimately show ?thesis by (simp add: query_variants_def Let_def)
qed

section \<open>A roster crosses the tailnet\<close>

text \<open>The pairs of mode and mechanism a courier publishes.\<close>

definition published :: "(string \<times> string) list" where
  "published =
     [(''claude_native_cross_session'', ''claude_native''), (''codex_stop_bound'', ''stop_bound''),
      (''codex_stop_bound'', ''native_helper''), (''codex_experimental_queue'', ''direct_queue''),
      (''codex_daemon_input'', ''owning_daemon''), (''devin_stop_or_prompt_bound'', ''devin_prompt_bound''),
      (''devin_tool_boundary'', ''devin_tool_boundary''), (''devin_acp_hosted'', ''devin_acp_host''),
      (''devin_acp_hosted'', ''devin_tool_boundary'')]"

definition shareable :: "pyenv \<Rightarrow> target \<Rightarrow> bool" where
  "shareable E t \<longleftrightarrow>
     name_shape E (p_alias t) \<and> device_shape (p_device t) \<and> name_shape E (p_project t) \<and> uuid_shape (p_generation t) \<and>
     hex64 (p_session_key t) \<and> (\<forall>n. p_title t = Some n \<longrightarrow> name_shape E n) \<and>
     ((p_delivery_mode t, p_delivery_mechanism t) = (None, None) \<or>
      (p_delivery_mode t, p_delivery_mechanism t) \<in> (\<lambda>(m, k). (Some (lit m), Some (lit k))) ` set published) \<and>
     (p_provider t = Native Devin \<longrightarrow> name_shape E (devin_display_title (p_session_key t))) \<and>
     (\<forall>b. p_current_boundary t = Some b \<longrightarrow> b \<in> lit ` set DEVIN_CURRENT_BOUNDARIES \<and> p_provider t = Native Devin)"

text \<open>What the reader learns of a target.\<close>

definition remote_view :: "reader \<Rightarrow> str \<Rightarrow> str option \<Rightarrow> target \<Rightarrow> target" where
  "remote_view rd address node_id t =
     (let mm = disclosed_mode (listing_disclosure True rd) (p_delivery_mode t, p_delivery_mechanism t) in
      t\<lparr>p_remote := True, p_session_id := None, p_cwd := None, p_pid := None, p_tailnet_address := Some address,
        p_tailnet_node_id := node_id, p_delivery_mode := (if rd_mode rd then fst mm else None),
        p_delivery_mechanism := (if rd_mode rd \<and> rd_mechanism rd then snd mm else None),
        p_title := (if rd_title rd
                    then (if p_provider t = Native Devin \<and> p_title t = None
                          then Some (devin_display_title (p_session_key t)) else p_title t)
                    else None),
        p_current_boundary := (if rd_boundary rd then p_current_boundary t else None)\<rparr>)"

lemma peer_of_str [simp]: "peer_of (peer_str p) = Some p"
proof (cases p)
  case (Native q)
  then show ?thesis by (cases q) (simp_all add: peer_of_def provider_of_def)
qed (simp add: peer_of_def)

lemma json_item_get: "jget (map (\<lambda>(k, v). (k, JStr v)) item) k = map_option JStr (map_of item (lit k))"
  by (induction item) auto

lemma as_str_map [simp]: "as_str (map_option JStr x) = x"
  by (cases x) auto

lemma json_item_keys: "jkeys (map (\<lambda>(k, v). (k, JStr v)) item) = fst ` set item"
  by (simp add: jkeys_def image_image case_prod_unfold)

definition row :: "reader \<Rightarrow> target \<Rightarrow> (str \<times> str) list" where
  "row rd t = peer_item True rd None t"

definition row_mode :: "reader \<Rightarrow> target \<Rightarrow> str option \<times> str option" where
  "row_mode rd t = disclosed_mode (listing_disclosure True rd) (p_delivery_mode t, p_delivery_mechanism t)"

definition row_title :: "target \<Rightarrow> str option" where
  "row_title t = (if p_provider t = Native Devin \<and> p_title t = None then Some (devin_display_title (p_session_key t)) else p_title t)"

lemma row_gets:
  "map_of (row rd t) (lit ''alias'') = Some (p_alias t)" "map_of (row rd t) (lit ''provider'') = Some (peer_str (p_provider t))"
  "map_of (row rd t) (lit ''device'') = Some (p_device t)" "map_of (row rd t) (lit ''project'') = Some (p_project t)"
  "map_of (row rd t) (lit ''status'') = Some (lit ''available'')" "map_of (row rd t) (lit ''generation'') = Some (p_generation t)"
  "map_of (row rd t) (lit ''session_key'') = Some (p_session_key t)"
  "map_of (row rd t) (lit ''title'') = (if rd_title rd then row_title t else None)"
  "map_of (row rd t) (lit ''delivery_mode'') = (if rd_mode rd then Some (or_unknown (fst (row_mode rd t))) else None)"
  "map_of (row rd t) (lit ''delivery_mechanism'') =
     (if rd_mode rd \<and> rd_mechanism rd then Some (or_unknown (snd (row_mode rd t))) else None)"
  "map_of (row rd t) (lit ''current_boundary'') = (if rd_boundary rd then p_current_boundary t else None)"
  by (simp_all add: row_def peer_item_def public_def listing_disclosure_def row_mode_def row_title_def Let_def map_add_def split: option.split)

lemma row_keys: "fst ` set (row rd t) \<subseteq> keyset (allowed_fields rd)" "keyset required_fields \<subseteq> fst ` set (row rd t)"
  by (auto simp: row_def peer_item_def public_def listing_disclosure_def allowed_fields_def required_fields_def keyset_def Let_def
      split: option.splits if_splits)

text \<open>The flags as they are negotiated: each layer rides on the one below it.\<close>

definition layered :: "reader \<Rightarrow> bool" where
  "layered rd \<longleftrightarrow> (rd_mechanism rd \<longrightarrow> rd_mode rd) \<and> (rd_acp rd \<longrightarrow> rd_tool rd)"

definition readable_mode :: "reader \<Rightarrow> str option \<times> str option \<Rightarrow> bool" where
  "readable_mode rd mm \<longleftrightarrow>
     or_unknown (fst mm) \<in> lit ` set (remote_modes rd) \<and>
     or_unknown (snd mm) \<in> lit ` set (''unknown'' # DELIVERY_MECHANISMS) \<and>
     (snd mm = Some (lit ''devin_tool_boundary'') \<longrightarrow> rd_tool rd) \<and> (snd mm = Some (lit ''devin_acp_host'') \<longrightarrow> rd_acp rd) \<and>
     fst mm \<noteq> Some (lit ''unknown'') \<and> snd mm \<noteq> Some (lit ''unknown'')"

lemma row_mode_readable:
  assumes "shareable E t" "layered rd"
  shows "readable_mode rd (row_mode rd t)"
proof -
  let ?d = "disclosed_mode (listing_disclosure True rd)"
  have none: "?d (None, None) = (None, None)" by (simp add: disclosed_mode_def)
  have "\<forall>p \<in> set published. readable_mode rd (?d (Some (lit (fst p)), Some (lit (snd p))))"
    using assms(2)
    by (cases "rd_owning rd"; cases "rd_tool rd"; cases "rd_acp rd")
      (simp_all add: published_def disclosed_mode_def Let_def listing_disclosure_def readable_mode_def remote_modes_def
        or_unknown_def DELIVERY_MECHANISMS_def layered_def)
  moreover have "readable_mode rd (None, None)" by (simp add: readable_mode_def or_unknown_def remote_modes_def)
  ultimately show ?thesis using assms(1) none by (auto simp: shareable_def row_mode_def)
qed

lemma known_or_unknown: "x \<noteq> Some (lit ''unknown'') \<Longrightarrow> known_text (Some (JStr (or_unknown x))) = x"
  by (cases x) (auto simp: known_text_def or_unknown_def)

lemma row_read:
  assumes "shareable E t" "layered rd"
    and "p_provider t = Native Devin \<Longrightarrow> rd_devin rd" "p_provider t = ExternalPeer \<Longrightarrow> rd_external rd"
  shows "tailnet_item E rd address node_id (json_item (row rd t)) = Inr (remote_view rd address node_id t)"
proof -
  let ?i = "map (\<lambda>(k, v). (k, JStr v)) (row rd t)"
  note get = json_item_get [of "row rd t"] row_gets [of rd t]
  note m = row_mode_readable [OF assms(1,2), unfolded readable_mode_def]
  have title: "row_title t = Some n \<Longrightarrow> name_shape E n" for n
    using assms(1) by (auto simp: shareable_def row_title_def split: if_splits)
  have "mode_ok rd ?i" using m by (auto simp: mode_ok_def get list_ex_iff image_iff)
  moreover have "mechanism_ok rd ?i"
    using m by (cases "snd (row_mode rd t)") (auto simp: mechanism_ok_def get list_ex_iff image_iff or_unknown_def)
  ultimately have admitted: "\<not> item_refused rd ?i (p_provider t) (p_session_key t)"
    using assms(1,3,4) by (auto simp: item_refused_def get field_is_def shareable_def present_def split: option.splits)
  have boundary: "boundary_ok rd (p_provider t) ?i = Inr True"
    using assms(1) by (auto simp: boundary_ok_def get present_def shareable_def list_ex_iff split: option.splits)
  have target: "item_target E address node_id ?i (p_provider t) (p_alias t) (p_device t) (p_project t) (p_generation t) (p_session_key t) =
      Inr (remote_view rd address node_id t)"
  proof -
    have v: "valid_name E (p_alias t) f = Inr (p_alias t)" "valid_name E (p_project t) f = Inr (p_project t)"
      "valid_device (p_device t) = Inr (p_device t)" "valid_uuid (p_generation t) f = Inr (p_generation t)" for f
      using assms(1) by (simp_all add: shareable_def valid_simps)
    have k: "known_text (jget ?i ''delivery_mode'') = (if rd_mode rd then fst (row_mode rd t) else None)"
      "known_text (jget ?i ''delivery_mechanism'') = (if rd_mode rd \<and> rd_mechanism rd then snd (row_mode rd t) else None)"
      "as_str (jget ?i ''current_boundary'') = (if rd_boundary rd then p_current_boundary t else None)"
      "as_str (jget ?i ''title'') = (if rd_title rd then row_title t else None)"
      using m by (simp_all add: get known_or_unknown) (simp_all add: known_text_def)
    have n: "(case (if rd_title rd then row_title t else None) of None \<Rightarrow> Inr None
        | Some s \<Rightarrow> bind (valid_name E s ''remote title'') (\<lambda>n. Inr (Some n))) = Inr (if rd_title rd then row_title t else None)"
      using title by (auto simp: valid_simps bind_Inr_iff split: option.splits)
    show ?thesis
      by (simp add: item_target_def v k n) (simp add: remote_view_def row_mode_def row_title_def Let_def)
  qed
  have "item_values ?i = Some (peer_str (p_provider t), p_alias t, p_device t, p_project t, p_generation t, p_session_key t)"
    by (simp add: item_values_def get)
  with admitted boundary target row_keys show ?thesis
    by (simp add: tailnet_item_def json_item_def json_item_keys)
qed

end
