(* ===== verification/Roster.thy ===== *)
theory Roster
  imports Discovery
begin

text \<open>
  The roster of this device as it is listed (sorted, titled, without the targets the reader did not
  ask for), and that it is read by another device as it was meant.
\<close>

section \<open>The roster as it is listed\<close>

lemma insert_target_set [simp]: "set (insert_target E t ts) = insert t (set ts)"
  by (induction ts) auto

lemma sorted_targets_set [simp]: "set (sorted_targets E ts) = set ts"
  by (induction ts) (auto simp: sorted_targets_def)

lemma insert_target_distinct: "distinct (map p_session_key (insert_target E t ts)) \<longleftrightarrow> distinct (map p_session_key (t # ts))"
proof (induction ts)
  case (Cons u ts)
  have "p_session_key ` set (insert_target E t ts) = insert (p_session_key t) (p_session_key ` set ts)" by simp
  with Cons show ?case by auto
qed simp

lemma sorted_targets_distinct: "distinct (map p_session_key (sorted_targets E ts)) \<longleftrightarrow> distinct (map p_session_key ts)"
  by (induction ts) (simp_all add: sorted_targets_def insert_target_distinct [unfolded sorted_targets_def],
      metis sorted_targets_def sorted_targets_set)

lemma with_codex_titles_keys [simp]: "map p_session_key (with_codex_titles f ts) = map p_session_key ts"
  by (simp add: with_codex_titles_def comp_def)

lemma with_codex_titles_untitled: "map untitled (with_codex_titles f ts) = map untitled ts"
  by (simp add: with_codex_titles_def comp_def untitled_def)

definition roster :: "pyenv \<Rightarrow> listing \<Rightarrow> reader \<Rightarrow> target list \<Rightarrow> target list" where
  "roster E ls rd ts =
     (if rd_title rd then with_codex_titles (ls_titles ls) else id)
       (sorted_targets E (if rd_devin rd then ts else filter (\<lambda>t. p_provider t \<noteq> Native Devin) ts))"

lemma peer_items_internal: "peer_items E canonical True rd ts = Inr (map (row rd) ts)"
  by (induction ts) (simp_all add: row_def)

lemma peers_internal:
  assumes "ls_local ls = Inr native" "with_external E ls d (rd_external rd) handle native = Inr (ts, b)"
    and "peers E ls d False True rd handle None = Inr answer"
  shows "answer = [(lit ''schema_version'', JInt SCHEMA_VERSION), (lit ''peers'', JArr (map json_item (map (row rd) (roster E ls rd ts))))] \<and>
    distinct (map p_session_key (roster E ls rd ts))"
  using assms
  by (auto simp: peers_def listed_targets_def Let_def peer_items_internal roster_def sorted_targets_distinct fail_def split: if_splits)

lemma map_res_all: "(\<And>x. x \<in> set xs \<Longrightarrow> f x = Inr (g x)) \<Longrightarrow> map_res f xs = Inr (map g xs)"
  by (induction xs) auto

lemma map_res_map: "map_res f (map g xs) = map_res (\<lambda>x. f (g x)) xs"
  by (induction xs) auto

lemma roster_provider:
  assumes "t \<in> set (roster E ls rd ts)"
  obtains u where "u \<in> set ts" "untitled u = untitled t" "p_provider u = p_provider t" "p_provider t = Native Devin \<longrightarrow> rd_devin rd"
proof -
  let ?f = "if rd_devin rd then ts else filter (\<lambda>t. p_provider t \<noteq> Native Devin) ts"
  have "set (map untitled (roster E ls rd ts)) = set (map untitled ?f)"
    using with_codex_titles_untitled [of "ls_titles ls" "sorted_targets E ?f"] unfolding roster_def
    by (metis (mono_tags, lifting) id_apply list.set_map sorted_targets_set)
  then obtain u where u: "u \<in> set ?f" "untitled t = untitled u" using assms by force
  then have "p_provider u = p_provider t" by (metis target.select_convs(2) target.surjective target.update_convs(15) untitled_def)
  with u that [of u] show thesis by (auto split: if_splits)
qed

section \<open>Properties\<close>

text \<open>
  C35. A roster crosses the tailnet unchanged. What \<open>peers\<close> answers to another broker is accepted by
  that broker's \<open>_targets_from_tailnet\<close> with the same negotiated flags, whenever the listed targets
  carry valid names and a published mode and mechanism: it yields the same targets in the same
  order, each as the flags disclose it, attributed to the address and node that answered; no
  handle occurs twice, and no Devin or external target is sent to a reader that did not ask.
\<close>

theorem roster_roundtrip:
  assumes "ls_local ls = Inr native" "with_external E ls d (rd_external rd) handle native = Inr (ts, b)"
    and "peers E ls d False True rd handle None = Inr answer" "layered rd"
    and "list_all (\<lambda>t. p_provider t \<noteq> ExternalPeer) native" "list_all (shareable E) (roster E ls rd ts)"
  shows "targets_from_tailnet E rd address node_id answer = Inr (map (remote_view rd address node_id) (roster E ls rd ts)) \<and>
    distinct (map p_session_key (roster E ls rd ts)) \<and>
    list_all (\<lambda>t. (p_provider t = Native Devin \<longrightarrow> rd_devin rd) \<and> (p_provider t = ExternalPeer \<longrightarrow> rd_external rd)) (roster E ls rd ts)"
proof -
  have ext: "\<not> rd_external rd \<Longrightarrow> ts = native" using assms(2) by (simp add: with_external_def)
  have ok: "(p_provider t = Native Devin \<longrightarrow> rd_devin rd) \<and> (p_provider t = ExternalPeer \<longrightarrow> rd_external rd)"
    if t: "t \<in> set (roster E ls rd ts)" for t
  proof -
    obtain u where "u \<in> set ts" "p_provider u = p_provider t" "p_provider t = Native Devin \<longrightarrow> rd_devin rd"
      by (rule roster_provider [OF t])
    with ext assms(5) show ?thesis by (cases "rd_external rd") (auto simp: list_all_iff)
  qed
  have "tailnet_item E rd address node_id (json_item (row rd t)) = Inr (remote_view rd address node_id t)"
    if t: "t \<in> set (roster E ls rd ts)" for t
    using row_read [OF _ assms(4)] assms(6) ok [OF t] t by (simp add: list_all_iff)
  then have "map_res (tailnet_item E rd address node_id) (map json_item (map (row rd) (roster E ls rd ts))) =
      Inr (map (remote_view rd address node_id) (roster E ls rd ts))"
    using map_res_all [of "roster E ls rd ts" "\<lambda>t. tailnet_item E rd address node_id (json_item (row rd t))"] by (simp add: map_res_map)
  with peers_internal [OF assms(1-3)] ok show ?thesis
    by (auto simp: targets_from_tailnet_def has_keys_def field_eq_int_def list_all_iff)
qed

definition sample_reader :: reader where
  "sample_reader = \<lparr>rd_mode = True, rd_mechanism = False, rd_title = True, rd_owning = False, rd_tool = False, rd_acp = False,
     rd_boundary = False, rd_devin = False, rd_external = False\<rparr>"

definition sample_listing :: listing where
  "sample_listing = \<lparr>ls_host = sample_host, ls_local = Inr [sample_target], ls_remote = Inr ([], True), ls_identity = None,
     ls_titles = (\<lambda>_. None)\<rparr>"

lemma sample_shareable: "shareable sample_env sample_target"
  by (simp add: shareable_def sample_target_def sample_simps device_shape_def lit_def is_alnum_def is_lower_def)

lemma sample_roster: "roster sample_env sample_listing sample_reader [sample_target] = [sample_target]"
  by (simp add: roster_def sample_reader_def sorted_targets_def with_codex_titles_def sample_target_fields sample_listing_def)

theorem roster_roundtrip_witness:
  "\<exists>answer. peers sample_env sample_listing empty_dir False True sample_reader None None = Inr answer \<and>
     targets_from_tailnet sample_env sample_reader (lit ''100.64.0.2'') None answer =
       Inr [remote_view sample_reader (lit ''100.64.0.2'') None sample_target]"
proof -
  have w: "with_external sample_env sample_listing empty_dir (rd_external sample_reader) None [sample_target] = Inr ([sample_target], False)"
    "ls_local sample_listing = Inr [sample_target]"
    by (simp_all add: with_external_def sample_reader_def sample_listing_def)
  then have "\<exists>answer. peers sample_env sample_listing empty_dir False True sample_reader None None = Inr answer"
    by (simp add: peers_def listed_targets_def Let_def peer_items_internal sample_target_fields)
  then obtain answer where a: "peers sample_env sample_listing empty_dir False True sample_reader None None = Inr answer" ..
  have "layered sample_reader" by (simp add: layered_def sample_reader_def)
  from roster_roundtrip [OF w(2,1) a this, of "lit ''100.64.0.2''" None] a show ?thesis
    by (simp add: sample_roster sample_shareable sample_target_fields)
qed

text \<open>
  Asking another device ends and attributes what it says. \<open>_remote_node_targets\<close> returns after at
  most 26 shapes of the question, each asked at most once for every quarter of a second until the
  deadline; a complete answer rests on a roster that device gave to one of those questions and read
  strictly, and every target returned is one of that roster up to its title, remote, valid, and
  attributed to the address and node that were asked.
\<close>

theorem remote_discovery_spec:
  "\<exists>r m. remote_node_targets E attempts rd address node_id handle deadline now = Some r \<and>
     m \<le> 26 * questions deadline now \<and>
     (\<forall>ts complete. r = Inr (ts, complete) \<and> (complete \<or> ts \<noteq> []) \<longrightarrow>
        (\<exists>base v. v \<in> set (query_variants rd handle) \<and> found_from E attempts rd address node_id v m base \<and>
           list_all (\<lambda>t. untitled t \<in> untitled ` set base \<and> remote_shape E rd address node_id t) ts))"
proof -
  let ?vs = "query_variants rd handle"
  obtain r m now' where t: "try_variants E attempts rd address node_id deadline ?vs now 0 = Some (r, m, now')"
    "m \<le> length ?vs * questions deadline now"
    "\<forall>base payload. r = Found base payload \<longrightarrow> (\<exists>v \<in> set ?vs. payload = fst v \<and> found_from E attempts rd address node_id v m base)"
    using try_variants_ends [of E attempts rd address node_id ?vs 0 deadline now] by (auto simp: tried_def)
  have "length ?vs * questions deadline now \<le> 26 * questions deadline now"
    by (rule mult_le_mono1 [OF query_variants_length])
  with t(2) have m: "m \<le> 26 * questions deadline now" by linarith
  show ?thesis
  proof (cases r)
    case (Found base payload)
    then obtain v where v: "v \<in> set ?vs" "payload = fst v" "found_from E attempts rd address node_id v m base" using t(3) by blast
    have same: "remote_shape E (variant_reader rd v) address node_id t \<longleftrightarrow> remote_shape E rd address node_id t" for t
      by (simp add: remote_shape_def variant_reader_def Let_def)
    have base: "remote_shape E rd address node_id t" if "t \<in> set base" for t
      using v(3) targets_from_tailnet_shape that unfolding found_from_def same [symmetric] by blast
    have all: "list_all (\<lambda>t. untitled t \<in> untitled ` set base \<and> remote_shape E rd address node_id t) ts"
      if "ts = base \<or> enriched E (attempts m) rd address node_id handle base payload = Inr ts" for ts
      using that base enriched_shape [OF _ base] by (auto simp: list_all_iff)
    have "\<exists>r'. remote_node_targets E attempts rd address node_id handle deadline now = Some r' \<and>
        (\<forall>ts complete. r' = Inr (ts, complete) \<longrightarrow>
           ts = base \<or> enriched E (attempts m) rd address node_id handle base payload = Inr ts)"
      using t(1) Found by (simp add: remote_node_targets_def bind_Inr_iff)
    then obtain r' where r': "remote_node_targets E attempts rd address node_id handle deadline now = Some r'"
      "\<And>ts complete. r' = Inr (ts, complete) \<Longrightarrow>
         ts = base \<or> enriched E (attempts m) rd address node_id handle base payload = Inr ts" by blast
    show ?thesis
      by (rule exI [of _ r'], rule exI [of _ m])
        (intro conjI allI impI r'(1) m exI [of _ base] exI [of _ v] v(1,3), rule all, rule r'(2), blast)
  qed (use t(1) m in \<open>auto simp: remote_node_targets_def fail_def\<close>)
qed

definition sample_answer :: dict where
  "sample_answer = [(lit ''schema_version'', JInt 1), (lit ''peers'', JArr [])]"

definition sample_question :: attempt where
  "sample_question = \<lparr>at_exchange = good_exchange (json_line sample_env (JObj sample_answer)), at_others = (\<lambda>d. d),
     at_took = 0, at_overslept = 0\<rparr>"

lemma sample_question_answered:
  assumes "plain True (JObj p)"
  shows "request_tailnet sample_env (at_exchange sample_question) p = Inr sample_answer"
proof -
  have p: "plain True (JObj sample_answer)" by (simp add: sample_answer_def int_fits_small)
  have "int_str 1 = [49]" by (simp add: int_str_def dec_str.simps)
  then have "utf8_len (dumps fr False (JObj sample_answer) @ [10]) \<le> 65536" for fr
    using json_len24 [of "lit ''schema_version''"] json_len24 [of "lit ''peers''"]
    by (simp add: sample_answer_def utf8_len_Cons utf8_small)
  from this [of "float_repr sample_env"] have "length (json_line sample_env (JObj sample_answer)) \<le> WIRE_FRAME_BYTES"
    by (simp add: json_line_def utf8_len_def WIRE_FRAME_BYTES_def del: dumps.simps)
  then show ?thesis
    unfolding sample_question_def attempt.simps using p assms
    by (intro good_request) (simp_all add: frame_bytes_line is_ok_def sample_answer_def del: plain.simps)
qed

theorem remote_discovery_spec_witness:
  "\<exists>m v base. remote_node_targets sample_env (\<lambda>_. sample_question) (sample_reader\<lparr>rd_title := False\<rparr>) (lit ''100.64.0.2'')
       (Some (lit ''nB'')) None 10 0 = Some (Inr ([], True)) \<and> m \<le> 26 * questions 10 0 \<and>
     found_from sample_env (\<lambda>_. sample_question) (sample_reader\<lparr>rd_title := False\<rparr>) (lit ''100.64.0.2'') (Some (lit ''nB'')) v m base"
proof -
  let ?rd = "sample_reader\<lparr>rd_title := False\<rparr>"
  let ?q = "flag ''include_delivery_mode'' legacy_query"
  have "plain True (JObj ?q)" by (simp add: flag_def legacy_query_def SCHEMA_VERSION_def int_fits_small)
  note a = sample_question_answered [OF this]
  have "query_variants ?rd None = [(?q, True), (legacy_query, False)]"
    by (simp add: query_variants_def base_variants_def sample_reader_def flag_if_def with_handle_def)
  moreover have "\<not> at_capacity sample_answer" by (simp add: at_capacity_def sample_answer_def BROKER_CAPACITY_REFUSAL_def)
  moreover have "targets_from_tailnet sample_env (variant_reader ?rd (?q, True)) (lit ''100.64.0.2'') (Some (lit ''nB'')) sample_answer = Inr []"
    by (simp add: targets_from_tailnet_def sample_answer_def has_keys_def field_eq_int_def SCHEMA_VERSION_def)
  ultimately have r: "remote_node_targets sample_env (\<lambda>_. sample_question) ?rd (lit ''100.64.0.2'') (Some (lit ''nB'')) None 10 0 =
      Some (Inr ([], True))"
    using a by (simp add: remote_node_targets_def ask.simps Let_def)
  from remote_discovery_spec [of sample_env "\<lambda>_. sample_question" ?rd "lit ''100.64.0.2''" "Some (lit ''nB'')" None 10 0] r
  obtain m base v where m: "m \<le> 26 * questions 10 0"
    "found_from sample_env (\<lambda>_. sample_question) ?rd (lit ''100.64.0.2'') (Some (lit ''nB'')) v m base" by fastforce
  with m r show ?thesis by blast
qed

section \<open>A restriction that cannot be hashed\<close>

text \<open>
  A peer that reports its current restriction as a list makes the membership test raise \<open>TypeError\<close>,
  which no clause of the discovery catches: neither the loop over the variants nor \<open>_remote_discovery\<close>
  does, so this one answer ends the discovery of all peers.
\<close>

lemma unhashable_boundary:
  assumes "tailnet_item E rd address node_id (JObj item) = Inr t" "jget item ''current_boundary'' = None" "rd_boundary rd"
  shows "tailnet_item E rd address node_id (JObj ((lit ''current_boundary'', JArr xs) # item)) = Inl OtherError"
proof -
  let ?i = "(lit ''current_boundary'', JArr xs) # item"
  from assms(1) obtain provider al dev pj g key p where i:
    "keyset required_fields \<subseteq> jkeys item" "jkeys item \<subseteq> keyset (allowed_fields rd)"
    "item_values item = Some (provider, al, dev, pj, g, key)" "peer_of provider = Some p" "\<not> item_refused rd item p key"
    by (auto simp: tailnet_item_def split: if_splits option.splits)
  have "jget ?i k = jget item k" if "k \<noteq> ''current_boundary''" for k using that by simp
  then have "item_values ?i = item_values item" "item_refused rd ?i p key \<longleftrightarrow> item_refused rd item p key"
    by (simp_all add: item_values_def item_refused_def field_is_def mode_ok_def mechanism_ok_def)
  moreover have "lit ''current_boundary'' \<in> keyset (allowed_fields rd)"
    using assms(3) by (simp add: keyset_def allowed_fields_def)
  ultimately show ?thesis
    using i assms(3) by (auto simp: tailnet_item_def jkeys_def boundary_ok_def present_def)
qed

lemma unhashable_boundary_escapes:
  assumes "request_tailnet E (at_exchange (attempts 0)) (fst v) = Inr raw" "\<not> at_capacity raw" "now < deadline"
    and "targets_from_tailnet E (variant_reader rd v) address node_id raw = Inl OtherError"
  shows "try_variants E attempts rd address node_id deadline (v # vs) now 0 = Some (Failed OtherError, 1, after now (at_took (attempts 0)))"
  using assms by (simp add: ask.simps Let_def)

end
