(* ===== verification/SmallFrames.thy ===== *)
theory SmallFrames
  imports Wire Tokens
begin

text \<open>
  Short objects of texts on a socket: they fit the frame limits, so an exchange that does not fail
  carries them. Used where a sample answer crosses a socket.
\<close>

lemma ascii_char_len: "c < 128 \<Longrightarrow> length (utf8_char c) = 1"
  by (simp add: utf8_char_def)

text \<open>A short object of texts crosses a socket that does not fail.\<close>

definition entry_size :: "str \<times> json \<Rightarrow> nat" where
  "entry_size kv = 24 * length (fst kv) + 4 + (case snd kv of JStr s \<Rightarrow> 24 * length s + 2 | _ \<Rightarrow> 1)"

definition texts :: "dict \<Rightarrow> bool" where
  "texts d \<longleftrightarrow> list_all (\<lambda>kv. case snd kv of JStr _ \<Rightarrow> True | v \<Rightarrow> v = JInt 1) d"

lemma entry_len:
  assumes "texts [p]"
  shows "utf8_len (json_str False (fst p) @ 58 # dumps fr False (snd p)) < entry_size p"
proof -
  have "int_str 1 = [49]" by (simp add: int_str_def dec_str.simps)
  moreover have "utf8_len (json_str False s) \<le> 24 * length s + 2" for s by (rule json_len24)
  note this [of "fst p"] this [of "case snd p of JStr s \<Rightarrow> s | _ \<Rightarrow> []"]
  ultimately show ?thesis using assms
    by (cases "snd p") (auto simp: texts_def entry_size_def utf8_len_Cons ascii_char_len)
qed

lemma entries_len:
  "texts d \<Longrightarrow>
   utf8_len (intersperse_comma (map (\<lambda>p. json_str False (fst p) @ 58 # dumps fr False (snd p)) d)) \<le> sum_list (map entry_size d)"
proof (induction d rule: induct_list012)
  case (2 p)
  then show ?case using entry_len [of p fr] by simp
next
  case (3 p q d)
  then have "texts [p]" by (simp add: texts_def)
  with entry_len [of p fr] 3 show ?case by (simp add: texts_def utf8_len_Cons ascii_char_len)
qed simp

lemma small_line:
  assumes "texts d" "sum_list (map entry_size d) \<le> 65000"
  shows "length (json_line E (JObj d)) \<le> WIRE_FRAME_BYTES"
proof -
  have "utf8_len (dumps (float_repr E) False (JObj d) @ [10]) \<le> 65536"
    using entries_len [OF assms(1), of "float_repr E"] assms(2) by (simp add: utf8_len_Cons ascii_char_len)
  then show ?thesis by (simp add: json_line_def utf8_len_def WIRE_FRAME_BYTES_def del: dumps.simps)
qed

lemma small_arrives:
  assumes "plain True (JObj d)" "d \<noteq> []" "texts d" "sum_list (map entry_size d) \<le> 65000" "plain True (JObj p)"
  shows "request_socket E (good_exchange (json_line E (JObj d))) p = Inr d"
    "request_tailnet E (good_exchange (json_line E (JObj d))) p = Inr d"
  using assms small_line [OF assms(3,4), of E]
  by (auto intro!: good_request simp: frame_bytes_line is_ok_def simp del: plain.simps)

end
