(* ===== verification/Inspect.thy ===== *)
theory Inspect
  imports Receiver SmallFrames
begin

text \<open>
  Where an event is (runtime.py): the resolution of the courier it was addressed to
  (\<open>_receiving_delivery\<close>), one question to that courier (\<open>_inspect_receiving_courier\<close>), the custody
  stage read out of the answer (\<open>_receiving_state_observation\<close>), the same for a recipient on another
  device (\<open>inspect_remote_receiving\<close> there, \<open>_remote_receiving_observation\<close> here), and the status an
  agent or the owner is shown (\<open>event_status\<close>, \<open>owner_event_status\<close>).
\<close>

section \<open>Resolving the courier\<close>

datatype observer = OriginalCourier | NativeHelperCourier

fun observer_str :: "observer \<Rightarrow> str" where
  "observer_str OriginalCourier = lit ''original_courier''"
| "observer_str NativeHelperCourier = lit ''native_helper''"

definition observer_of :: "str \<Rightarrow> observer option" where
  "observer_of s = find (\<lambda>x. observer_str x = s) [OriginalCourier, NativeHelperCourier]"

text \<open>
  Why nothing could be observed: the failure tokens of \<open>_receiving_delivery\<close> and of
  \<open>_inspect_receiving_courier\<close>, which are the keys of \<open>_REMOTE_INSPECT_DETAILS\<close>.
\<close>

datatype failure =
    OriginalUnavailable
  | NoLocalReceiver
  | HelperBindingAmbiguous
  | HelperUnavailable
  | CourierUnavailable
  | ObservationInvalid

fun failure_str :: "failure \<Rightarrow> str" where
  "failure_str OriginalUnavailable = lit ''original_unavailable''"
| "failure_str NoLocalReceiver = lit ''no_local_receiver''"
| "failure_str HelperBindingAmbiguous = lit ''helper_binding_ambiguous''"
| "failure_str HelperUnavailable = lit ''helper_unavailable''"
| "failure_str CourierUnavailable = lit ''courier_unavailable''"
| "failure_str ObservationInvalid = lit ''observation_invalid''"

definition all_failures :: "failure list" where
  "all_failures =
     [OriginalUnavailable, NoLocalReceiver, HelperBindingAmbiguous, HelperUnavailable, CourierUnavailable,
      ObservationInvalid]"

definition failure_of :: "str \<Rightarrow> failure option" where
  "failure_of s = find (\<lambda>x. failure_str x = s) all_failures"

text \<open>\<^verbatim>\<open>next((x for x in xs if p(x)), None)\<close>: the test runs only up to the first hit.\<close>

fun find_res :: "('a \<Rightarrow> bool res) \<Rightarrow> 'a list \<Rightarrow> 'a option res" where
  "find_res p [] = Inr None"
| "find_res p (x # xs) = bind (p x) (\<lambda>b. if b then Inr (Some x) else find_res p xs)"

datatype delivery =
    NoDelivery failure
  | Delivery route route observer

definition receiving_delivery :: "pyenv \<Rightarrow> host \<Rightarrow> dir \<Rightarrow> route list \<Rightarrow> str \<Rightarrow> str \<Rightarrow> delivery res" where
  "receiving_delivery E h d routes target_key target_generation =
     bind (find_res (\<lambda>r. bind (session_key E (r_provider r) (r_session_id r)) (\<lambda>key.
             Inr (key = target_key \<and> r_generation r = target_generation))) routes) (\<lambda>found.
     case found of
       None \<Rightarrow> Inr (NoDelivery NoLocalReceiver)
     | Some original \<Rightarrow>
         if r_provider original \<noteq> Codex then Inr (Delivery original original OriginalCourier)
         else
           bind (bindings E d) (\<lambda>bs.
           if \<not> list_ex (\<lambda>b. nb_state b = REGISTERED \<and> same_original original b) bs
           then Inr (Delivery original original OriginalCourier)
           else
             bind (route_current E h d original) (\<lambda>current.
             if \<not> current then Inr (NoDelivery OriginalUnavailable)
             else
               case helper_for_original E (h_kill h) (h_fs h) d original routes of
                 Inl e \<Rightarrow> if is_chat_error e then Inr (NoDelivery HelperBindingAmbiguous) else Inl e
               | Inr None \<Rightarrow> Inr (NoDelivery HelperUnavailable)
               | Inr (Some helper) \<Rightarrow>
                   bind (route_current E h d helper) (\<lambda>live.
                   Inr (if live then Delivery original helper NativeHelperCourier
                        else NoDelivery HelperUnavailable)))))"

section \<open>Asking the courier\<close>

text \<open>\<^verbatim>\<open>isinstance(v, (int, float)) and not isinstance(v, bool) and v >= 0\<close>.\<close>

fun nonnegative_number :: "json \<Rightarrow> bool" where
  "nonnegative_number (JInt i) \<longleftrightarrow> 0 \<le> i"
| "nonnegative_number (JFloat (Fin r)) \<longleftrightarrow> 0 \<le> r"
| "nonnegative_number (JFloat PosInf) \<longleftrightarrow> True"
| "nonnegative_number _ \<longleftrightarrow> False"

definition pending_fields_valid :: "dict \<Rightarrow> bool" where
  "pending_fields_valid raw \<longleftrightarrow>
     (case jget raw ''pending_count'' of
        None \<Rightarrow> jget raw ''oldest_pending_age_seconds'' = None
      | Some (JInt n) \<Rightarrow>
          0 \<le> n \<and>
          (case jget raw ''oldest_pending_age_seconds'' of
             None \<Rightarrow> False
           | Some age \<Rightarrow> age = JNull \<or> nonnegative_number age)
      | Some _ \<Rightarrow> False)"

definition COURIER_EVENT_STATES :: "string list" where
  "COURIER_EVENT_STATES = [''pending'', ''handed_off'', ''unseen'', ''no_courier_queue'']"

text \<open>The validated body-free answer of a courier.\<close>

record custody =
  cu_state :: str
  cu_version :: str
  cu_incarnation :: str
  cu_pending :: "(int \<times> json) option"

definition pending_of :: "dict \<Rightarrow> (int \<times> json) option" where
  "pending_of raw =
     (case (jget raw ''pending_count'', jget raw ''oldest_pending_age_seconds'') of
        (Some (JInt n), Some age) \<Rightarrow> Some (n, age)
      | _ \<Rightarrow> None)"

definition known_state :: "dict \<Rightarrow> bool" where
  "known_state raw \<longleftrightarrow>
     (case jget raw ''event_state'' of
        Some (JStr s) \<Rightarrow> list_ex (\<lambda>x. s = lit x) COURIER_EVENT_STATES
      | _ \<Rightarrow> False)"

definition custody_of :: "dict \<Rightarrow> custody option" where
  "custody_of raw =
     (case (as_str (jget raw ''event_state''), as_str (jget raw ''courier_version''),
            as_str (jget raw ''courier_incarnation'')) of
        (Some s, Some v, Some i) \<Rightarrow>
          if known_state raw \<and> pending_fields_valid raw
          then Some \<lparr>cu_state = s, cu_version = v, cu_incarnation = i, cu_pending = pending_of raw\<rparr> else None
      | _ \<Rightarrow> None)"

definition inspect_payload :: "route \<Rightarrow> str \<Rightarrow> dict" where
  "inspect_payload r event_id =
     [(lit ''schema_version'', JInt SCHEMA_VERSION), (lit ''operation'', JStr (lit ''inspect'')),
      (lit ''generation'', JStr (r_generation r)), (lit ''event_id'', JStr event_id)]"

definition inspect_fields :: "string list" where
  "inspect_fields =
     [''schema_version'', ''status'', ''generation'', ''courier_version'', ''courier_incarnation'', ''event_state'']"

definition inspect_receiving_courier :: "pyenv \<Rightarrow> exchange \<Rightarrow> route \<Rightarrow> str \<Rightarrow> (failure + custody) res" where
  "inspect_receiving_courier E x r event_id =
     (case request_socket E x (inspect_payload r event_id) of
        Inl e \<Rightarrow> if is_chat_error e \<or> is_os_error e then Inr (Inl CourierUnavailable) else Inl e
      | Inr response \<Rightarrow>
          if \<not> (has_keys response inspect_fields \<or>
                has_keys response (inspect_fields @ [''pending_count'', ''oldest_pending_age_seconds''])) \<or>
             \<not> field_eq_int response ''schema_version'' SCHEMA_VERSION \<or>
             \<not> field_is response ''status'' (lit ''INSPECTED'') \<or>
             \<not> field_is response ''generation'' (r_generation r)
          then Inr (Inl ObservationInvalid)
          else Inr (case custody_of response of None \<Rightarrow> Inl ObservationInvalid | Some c \<Rightarrow> Inr c))"

text \<open>Whether the bound pair recorded one claim of the event; its state always is \<open>UNKNOWN\<close>.\<close>

definition native_dispatch_claim :: "pyenv \<Rightarrow> dir \<Rightarrow> route \<Rightarrow> route \<Rightarrow> str \<Rightarrow> bool res" where
  "native_dispatch_claim E d original helper event_id =
     bind (dispatches E d) (\<lambda>xs.
     Inr (length (filter (\<lambda>x. nd_event_id x = event_id \<and> nd_helper_session_id x = r_session_id helper \<and>
            nd_helper_generation x = r_generation helper \<and> nd_original_session_id x = r_session_id original \<and>
            nd_original_generation x = r_generation original) xs) = 1))"

section \<open>The custody stage\<close>

definition receiving_unknown :: "str \<Rightarrow> str \<Rightarrow> dict" where
  "receiving_unknown reason detail =
     [(lit ''stage'', JStr (lit ''unknown'')), (lit ''reason'', JStr reason), (lit ''detail'', JStr detail)]"

fun holder :: "observer \<Rightarrow> str" where
  "holder NativeHelperCourier = lit ''the bound native helper's courier''"
| "holder OriginalCourier = lit ''the receiving courier''"

fun boundary_text :: "observer \<Rightarrow> str" where
  "boundary_text NativeHelperCourier = lit ''the helper session's provider boundary''"
| "boundary_text OriginalCourier = lit ''the provider boundary''"

definition pending_entries :: "custody \<Rightarrow> dict" where
  "pending_entries c =
     (case cu_pending c of
        None \<Rightarrow> []
      | Some (n, age) \<Rightarrow> [(lit ''pending_count'', JInt n), (lit ''oldest_pending_age_seconds'', age)])"

definition stage_entries :: "custody \<Rightarrow> intent_status \<Rightarrow> observer \<Rightarrow> dict" where
  "stage_entries c status ob =
     (if cu_state c = lit ''pending'' \<and> cu_pending c \<noteq> None then
        (lit ''stage'', JStr (lit ''pending_in_courier'')) # pending_entries c @
        [(lit ''detail'', JStr (holder ob @ lit '' still holds the event; '' @ boundary_text ob @ lit '' has not taken it''))]
      else if cu_state c = lit ''handed_off'' then
        (lit ''stage'', JStr (lit ''handed_off'')) # pending_entries c @
        [(lit ''detail'', JStr (holder ob @ lit '' recorded handing the event to '' @ boundary_text ob @
            lit ''; that is never evidence the original session consumed it'' @
            (if ob = NativeHelperCourier then lit ''; original forwarding remains unobserved'' else [])))]
      else if cu_state c = lit ''no_courier_queue'' \<and> status = TRANSPORT_ACCEPTED \<and> ob = OriginalCourier then
        [(lit ''stage'', JStr (lit ''handed_off'')),
         (lit ''detail'', JStr (lit (''provider-native delivery completed at transport acceptance; there '' @
            ''is no CAC-held queue to observe'')))]
      else if cu_state c = lit ''unseen'' then
        [(lit ''stage'', JStr (lit ''unknown'')), (lit ''reason'', JStr (lit ''no_courier_record'')),
         (lit ''detail'', JStr (lit ''the live '' @ holder ob @ lit '' holds no record of the event; a '' @
            lit ''same-generation courier restart forgets volatile custody''))]
      else
        [(lit ''stage'', JStr (lit ''unknown'')), (lit ''reason'', JStr (lit ''unqualified_state'')),
         (lit ''detail'', JStr (holder ob @ lit '' reported a state that does not map to a custody stage''))])"

definition receiving_state_observation :: "custody \<Rightarrow> intent_status \<Rightarrow> observer \<Rightarrow> dict" where
  "receiving_state_observation c status ob =
     [(lit ''observer'', JStr (observer_str ob)), (lit ''courier_version'', JStr (cu_version c)),
      (lit ''courier_incarnation'', JStr (cu_incarnation c))] @ stage_entries c status ob"

section \<open>Texts\<close>

definition RECEIVER_CHECK_ACTION :: string where
  "RECEIVER_CHECK_ACTION =
     ''check the intended original through its normal provider transcript or '' @
     ''next natural turn on the receiving Mac; do not replay this event''"

fun REMOTE_INSPECT_DETAILS :: "failure \<Rightarrow> str" where
  "REMOTE_INSPECT_DETAILS OriginalUnavailable =
     lit (''the recorded original's owner is no longer current; its bound helper '' @
      ''cannot establish a current receiving path. Use the original's normal '' @
      ''resume lifecycle when convenient; do not replay this event'')"
| "REMOTE_INSPECT_DETAILS NoLocalReceiver =
     lit (''the recipient node found no live receiver owning the recorded target '' @
      ''generation; '' @ RECEIVER_CHECK_ACTION)"
| "REMOTE_INSPECT_DETAILS HelperBindingAmbiguous =
     lit (''the recipient node could not resolve the recorded target's native '' @
      ''helper binding unambiguously; '' @ RECEIVER_CHECK_ACTION)"
| "REMOTE_INSPECT_DETAILS HelperUnavailable =
     lit (''the event was addressed to the recorded target's registered native '' @
      ''helper, which is not live; '' @ RECEIVER_CHECK_ACTION)"
| "REMOTE_INSPECT_DETAILS CourierUnavailable =
     lit (''the receiving courier on the recipient node did not answer inspect; it '' @
      ''may predate this observation or have restarted; '' @ RECEIVER_CHECK_ACTION)"
| "REMOTE_INSPECT_DETAILS ObservationInvalid =
     lit (''the receiving courier on the recipient node returned an answer that '' @
      ''was not a valid inspect response; '' @ RECEIVER_CHECK_ACTION)"

fun REMOTE_INSPECT_REASON_NAMES :: "failure \<Rightarrow> str" where
  "REMOTE_INSPECT_REASON_NAMES OriginalUnavailable = lit ''remote_original_unavailable''"
| "REMOTE_INSPECT_REASON_NAMES NoLocalReceiver = lit ''remote_no_receiver''"
| "REMOTE_INSPECT_REASON_NAMES HelperBindingAmbiguous = lit ''remote_helper_binding_ambiguous''"
| "REMOTE_INSPECT_REASON_NAMES HelperUnavailable = lit ''remote_helper_unavailable''"
| "REMOTE_INSPECT_REASON_NAMES CourierUnavailable = lit ''remote_courier_unavailable''"
| "REMOTE_INSPECT_REASON_NAMES ObservationInvalid = lit ''remote_observation_invalid''"

fun local_details :: "failure \<Rightarrow> str" where
  "local_details NoLocalReceiver =
     lit (''no live local receiver owns the recorded target generation; inspect '' @
      ''with that receiver's exact matching remote handle (status --recipient '' @
      ''or the chat_status recipient argument), or '' @ RECEIVER_CHECK_ACTION)"
| "local_details HelperBindingAmbiguous =
     lit (''the recorded target's native helper binding is ambiguous; '' @
      ''receiving state is unobservable'')"
| "local_details OriginalUnavailable = REMOTE_INSPECT_DETAILS OriginalUnavailable"
| "local_details HelperUnavailable =
     lit (''the event was addressed to the recorded target's registered native '' @
      ''helper, which is not currently live; the original courier was '' @
      ''never offered it, so volatile receiving state is unobservable'')"
| "local_details CourierUnavailable =
     lit (''the receiving courier did not answer inspect; it may predate this '' @
      ''observation or have restarted, so volatile receiving state is unobservable'')"
| "local_details ObservationInvalid =
     lit (''the receiving courier's answer was not a valid inspect response'')"

section \<open>Observing\<close>

text \<open>
  What an observation meets on the device of the recipient: the host, the exchange with the courier,
  and what other processes did to the state directory before the dispatch claims are read.
\<close>

record watch =
  wt_host :: host
  wt_courier :: exchange
  wt_others :: "dir \<Rightarrow> dir"

text \<open>The three reads both observers share: the outcome with the claim of the bound pair.\<close>

definition watched :: "pyenv \<Rightarrow> watch \<Rightarrow> dir \<Rightarrow> str \<Rightarrow> str \<Rightarrow> str \<Rightarrow> (failure + custody \<times> observer \<times> bool) res" where
  "watched E w d event_id target_key target_generation =
     bind (registry_routes E d) (\<lambda>routes.
     bind (receiving_delivery E (wt_host w) d routes target_key target_generation) (\<lambda>dl.
     case dl of
       NoDelivery f \<Rightarrow> Inr (Inl f)
     | Delivery original delivery ob \<Rightarrow>
         bind (inspect_receiving_courier E (wt_courier w) delivery event_id) (\<lambda>answer.
         case answer of
           Inl f \<Rightarrow> Inr (Inl f)
         | Inr c \<Rightarrow>
             bind (if ob = NativeHelperCourier then native_dispatch_claim E (wt_others w d) original delivery event_id
                   else Inr False) (\<lambda>claim.
             Inr (Inr (c, ob, claim))))))"

definition local_receiving_observation :: "pyenv \<Rightarrow> watch \<Rightarrow> dir \<Rightarrow> intent \<Rightarrow> dict res" where
  "local_receiving_observation E w d i =
     bind (watched E w d (i_event_id i) (i_target_key i) (i_target_generation i)) (\<lambda>seen.
     Inr (case seen of
            Inl f \<Rightarrow> receiving_unknown (failure_str f) (local_details f)
          | Inr (c, ob, claim) \<Rightarrow>
              receiving_state_observation c (i_status i) ob @
              (if claim then [(lit ''native_dispatch_claim'', JStr (lit ''UNKNOWN''))] else [])))"

text \<open>The answer to another device.\<close>

definition custody_entries :: "custody \<Rightarrow> dict" where
  "custody_entries c =
     [(lit ''event_state'', JStr (cu_state c)), (lit ''courier_version'', JStr (cu_version c)),
      (lit ''courier_incarnation'', JStr (cu_incarnation c))] @ pending_entries c"

definition inspect_remote_receiving :: "pyenv \<Rightarrow> watch \<Rightarrow> dir \<Rightarrow> str \<Rightarrow> str \<Rightarrow> str \<Rightarrow> dict res" where
  "inspect_remote_receiving E w d event_id target_key target_generation =
     bind (valid_uuid event_id ''event id'') (\<lambda>identifier.
     if \<not> hex64 target_key then fail ''Tailnet broker request is invalid''
     else
       bind (valid_uuid target_generation ''target generation'') (\<lambda>generation.
       bind (watched E w d identifier target_key generation) (\<lambda>seen.
       Inr ([(lit ''schema_version'', JInt SCHEMA_VERSION), (lit ''status'', JStr (lit ''INSPECTED'')),
             (lit ''event_id'', JStr identifier)] @
            (case seen of
               Inl f \<Rightarrow> [(lit ''observer'', JStr (lit ''none'')), (lit ''reason'', JStr (failure_str f))]
             | Inr (c, ob, claim) \<Rightarrow>
                 [(lit ''observer'', JStr (observer_str ob))] @ custody_entries c @
                 (if claim then [(lit ''dispatch_claim'', JStr (lit ''UNKNOWN''))] else []))))))"

text \<open>
  What the requester meets: its Tailscale identity and the exchange with the broker of the recipient.
\<close>

record remote_watch =
  rw_tailnet :: "tailnet_identity option"
  rw_broker :: exchange

definition inspect_request :: "intent \<Rightarrow> dict" where
  "inspect_request i =
     [(lit ''schema_version'', JInt SCHEMA_VERSION), (lit ''operation'', JStr (lit ''inspect'')),
      (lit ''event_id'', JStr (i_event_id i)), (lit ''target_key'', JStr (i_target_key i)),
      (lit ''target_generation'', JStr (i_target_generation i))]"

definition answer_base :: "string list" where
  "answer_base = [''schema_version'', ''status'', ''event_id'', ''observer'']"

definition answer_observed :: "string list" where
  "answer_observed = answer_base @ [''event_state'', ''courier_version'', ''courier_incarnation'']"

definition valid_failure :: "dict \<Rightarrow> failure option" where
  "valid_failure response =
     (if has_keys response (answer_base @ [''reason'']) \<and> field_is response ''observer'' (lit ''none'')
      then (case as_str (jget response ''reason'') of None \<Rightarrow> None | Some s \<Rightarrow> failure_of s) else None)"

definition valid_observation :: "dict \<Rightarrow> (observer \<times> custody) option" where
  "valid_observation response =
     (case as_str (jget response ''observer'') of
        None \<Rightarrow> None
      | Some s \<Rightarrow>
          (case observer_of s of
             None \<Rightarrow> None
           | Some ob \<Rightarrow>
               if keyset answer_observed \<subseteq> jkeys response \<and>
                  jkeys response - keyset answer_observed
                    \<subseteq> keyset [''pending_count'', ''oldest_pending_age_seconds'', ''dispatch_claim''] \<and>
                  (jget response ''pending_count'' = None) = (jget response ''oldest_pending_age_seconds'' = None) \<and>
                  (jget response ''dispatch_claim'' = None \<or> field_is response ''dispatch_claim'' (lit ''UNKNOWN''))
               then map_option (Pair ob) (custody_of response) else None))"

definition remote_answer :: "intent \<Rightarrow> dict \<Rightarrow> dict" where
  "remote_answer i response =
     (let invalid = receiving_unknown (lit ''remote_observation_invalid'')
            (lit (''the recipient node's answer was not a valid inspect response; '' @ RECEIVER_CHECK_ACTION)) in
      if \<not> field_eq_int response ''schema_version'' SCHEMA_VERSION \<or>
         \<not> field_is response ''status'' (lit ''INSPECTED'') \<or> \<not> field_is response ''event_id'' (i_event_id i)
      then invalid
      else
        case valid_failure response of
          Some f \<Rightarrow> receiving_unknown (REMOTE_INSPECT_REASON_NAMES f) (REMOTE_INSPECT_DETAILS f)
        | None \<Rightarrow>
            (case valid_observation response of
               None \<Rightarrow> invalid
             | Some (ob, c) \<Rightarrow>
                 receiving_state_observation c (i_status i) ob @
                 (if jget response ''dispatch_claim'' = None then []
                  else [(lit ''native_dispatch_claim'', JStr (lit ''UNKNOWN''))])))"

definition remote_receiving_observation :: "pyenv \<Rightarrow> remote_watch \<Rightarrow> intent \<Rightarrow> str \<Rightarrow> dict res" where
  "remote_receiving_observation E rw i recipient =
     bind (parse_recipient_token E recipient) (\<lambda>token.
     case token of
       None \<Rightarrow> fail (''recipient must be an exact remote recipient handle presented for '' @ ''this event's recorded target'')
     | Some t \<Rightarrow>
         (case (t_scope t, t_node_id t) of
            (Remote, Some node_id) \<Rightarrow>
              if t_handle t \<noteq> i_target_key i \<or> t_generation t \<noteq> i_target_generation i
              then fail (''recipient does not match this event's recorded target; refusing before any probe'')
              else
                (case rw_tailnet rw of
                   None \<Rightarrow>
                     Inr (receiving_unknown (lit ''remote_unavailable'')
                       (lit (''Tailscale is unavailable, so the recipient node cannot be resolved; '' @ RECEIVER_CHECK_ACTION)))
                 | Some ti \<Rightarrow>
                     (case map_of (ti_peers ti) node_id of
                        None \<Rightarrow>
                          Inr (receiving_unknown (lit ''remote_node_unavailable'')
                            (lit (''the node that presented the recorded recipient is not currently '' @
                              ''online on the tailnet; '' @ RECEIVER_CHECK_ACTION)))
                      | Some address \<Rightarrow>
                          (case request_tailnet E (rw_broker rw) (inspect_request i) of
                             Inl e \<Rightarrow>
                               if is_chat_error e \<or> is_os_error e
                               then Inr (receiving_unknown (lit ''remote_broker_unavailable'')
                                 (lit (''the recipient node's broker did not answer one bounded inspect; it '' @
                                   ''may be offline, at capacity, or older than this operation; '' @ RECEIVER_CHECK_ACTION)))
                               else Inl e
                           | Inr response \<Rightarrow> Inr (remote_answer i response))))
          | _ \<Rightarrow> fail (''recipient must be an exact remote recipient handle presented for '' @ ''this event's recorded target'')))"

section \<open>Status\<close>

definition receiving_observation :: "pyenv \<Rightarrow> watch \<Rightarrow> remote_watch \<Rightarrow> dir \<Rightarrow> intent \<Rightarrow> str option \<Rightarrow> dict res" where
  "receiving_observation E w rw d i recipient =
     (case recipient of
        Some r \<Rightarrow> remote_receiving_observation E rw i r
      | None \<Rightarrow> local_receiving_observation E w d i)"

definition event_status_payload :: "pyenv \<Rightarrow> watch \<Rightarrow> remote_watch \<Rightarrow> dir \<Rightarrow> intent \<Rightarrow> str option \<Rightarrow> dict res" where
  "event_status_payload E w rw d i recipient =
     bind (receiving_observation E w rw d i recipient) (\<lambda>observation.
     Inr [(lit ''schema_version'', JInt SCHEMA_VERSION), (lit ''event_id'', JStr (i_event_id i)),
          (lit ''status'', JStr (status_str (i_status i))), (lit ''source_alias'', JStr (i_source_alias i)),
          (lit ''target_handle'', JStr (i_target_key i)), (lit ''target_generation'', JStr (i_target_generation i)),
          (lit ''timestamp'', JStr (i_timestamp i)), (lit ''delivery_observation'', JStr (lit ''not_observed'')),
          (lit ''receiving_observation'', JObj observation)])"

definition event_status ::
  "pyenv \<Rightarrow> watch \<Rightarrow> remote_watch \<Rightarrow> dir \<Rightarrow> source \<Rightarrow> str \<Rightarrow> str option \<Rightarrow> dict res" where
  "event_status E w rw d source event_id recipient =
     bind (source_current E (wt_host w) d source) (\<lambda>current.
     if \<not> current then fail ''event is unavailable''
     else
       bind (source_key E source) (\<lambda>key.
       bind (intent_for_source E d event_id key (source_generation source)) (\<lambda>found.
       case found of
         None \<Rightarrow> fail ''event is unavailable''
       | Some i \<Rightarrow> event_status_payload E w rw d i recipient)))"

definition owner_event_status :: "pyenv \<Rightarrow> watch \<Rightarrow> remote_watch \<Rightarrow> dir \<Rightarrow> str \<Rightarrow> str option \<Rightarrow> dict res" where
  "owner_event_status E w rw d event_id recipient =
     bind (valid_uuid event_id ''event id'') (\<lambda>identifier.
     bind (intents E d) (\<lambda>rows.
     case filter (\<lambda>i. i_event_id i = identifier) rows of
       [i] \<Rightarrow> event_status_payload E w rw d i recipient
     | _ \<Rightarrow> fail ''event is unavailable''))"

section \<open>Answers that are well formed\<close>

lemma observer_of_Some [simp]: "observer_of s = Some ob \<longleftrightarrow> s = observer_str ob"
  by (cases ob) (auto simp: observer_of_def split: if_splits)

lemma observer_of_str [simp]: "observer_of (observer_str ob) = Some ob"
  by simp

lemma observer_not_none [simp]: "observer_str ob \<noteq> lit ''none''" "observer_of (lit ''none'') = None"
  by (cases ob) (simp_all add: observer_of_def)

lemma failure_of_str [simp]: "failure_of (failure_str f) = Some f"
  by (cases f) (simp_all add: failure_of_def all_failures_def)

definition custody_wf :: "custody \<Rightarrow> bool" where
  "custody_wf c \<longleftrightarrow>
     list_ex (\<lambda>x. cu_state c = lit x) COURIER_EVENT_STATES \<and>
     (case cu_pending c of None \<Rightarrow> True | Some (n, age) \<Rightarrow> 0 \<le> n \<and> (age = JNull \<or> nonnegative_number age))"

lemma pending_of_valid:
  "pending_fields_valid raw \<Longrightarrow>
   case pending_of raw of None \<Rightarrow> True | Some (n, age) \<Rightarrow> 0 \<le> n \<and> (age = JNull \<or> nonnegative_number age)"
  by (auto simp: pending_fields_valid_def pending_of_def split: option.splits json.splits)

lemma custody_ofD:
  assumes "custody_of raw = Some c"
  shows "custody_wf c"
proof -
  from assms have "known_state raw" "pending_fields_valid raw" "jget raw ''event_state'' = Some (JStr (cu_state c))"
    "cu_pending c = pending_of raw"
    by (auto simp: custody_of_def split: option.splits if_splits)
  then show ?thesis using pending_of_valid [of raw] by (simp add: custody_wf_def known_state_def)
qed

text \<open>What a broker forwards of a courier's answer is read as that answer.\<close>

lemma custody_of_entries:
  assumes "custody_wf c" "jget raw ''event_state'' = Some (JStr (cu_state c))"
    "jget raw ''courier_version'' = Some (JStr (cu_version c))"
    "jget raw ''courier_incarnation'' = Some (JStr (cu_incarnation c))"
    "jget raw ''pending_count'' = map_option (JInt \<circ> fst) (cu_pending c)"
    "jget raw ''oldest_pending_age_seconds'' = map_option snd (cu_pending c)"
  shows "custody_of raw = Some c"
proof -
  have "known_state raw" using assms(1,2) by (simp add: known_state_def custody_wf_def)
  moreover have "pending_fields_valid raw" "pending_of raw = cu_pending c"
    using assms(1,5,6) by (auto simp: pending_fields_valid_def pending_of_def custody_wf_def split: option.splits)
  ultimately show ?thesis using assms(2-4) by (simp add: custody_of_def)
qed

lemma inspect_receiving_courierD: "inspect_receiving_courier E x r i = Inr (Inr c) \<Longrightarrow> custody_wf c"
  by (auto simp: inspect_receiving_courier_def split: sum.splits if_splits option.splits dest: custody_ofD)

lemma case_sum_seen:
  "(case a of Inl f \<Rightarrow> Inr (Inl f) | Inr c \<Rightarrow> g c) = Inr (Inr y) \<longleftrightarrow> (\<exists>c. a = Inr c \<and> g c = Inr (Inr y))"
  by (cases a) auto

lemma watchedD:
  assumes "watched E w d i k g = Inr (Inr (c, ob, claim))"
  shows "custody_wf c"
proof -
  from assms obtain routes dl where
    dl: "(case dl of NoDelivery f \<Rightarrow> Inr (Inl f)
          | Delivery original delivery ob \<Rightarrow>
              bind (inspect_receiving_courier E (wt_courier w) delivery i) (\<lambda>answer.
              case answer of
                Inl f \<Rightarrow> Inr (Inl f)
              | Inr c \<Rightarrow>
                  bind (if ob = NativeHelperCourier then native_dispatch_claim E (wt_others w d) original delivery i
                        else Inr False) (\<lambda>claim. Inr (Inr (c, ob, claim))))) = Inr (Inr (c, ob, claim))"
    unfolding watched_def bind_Inr_iff by blast
  then obtain original delivery where "dl = Delivery original delivery ob"
    "inspect_receiving_courier E (wt_courier w) delivery i = Inr (Inr c)"
    by (cases dl) (auto simp: bind_Inr_iff case_sum_seen)
  then show ?thesis by (auto dest: inspect_receiving_courierD)
qed

lemma pending_entries_get [simp]:
  "jget (pending_entries c) ''pending_count'' = map_option (JInt \<circ> fst) (cu_pending c)"
  "jget (pending_entries c) ''oldest_pending_age_seconds'' = map_option snd (cu_pending c)"
  by (auto simp: pending_entries_def split: option.splits)

lemma pending_entries_other [simp]:
  "k \<noteq> ''pending_count'' \<Longrightarrow> k \<noteq> ''oldest_pending_age_seconds'' \<Longrightarrow> jget (pending_entries c) k = None"
  by (auto simp: pending_entries_def split: option.splits)

lemma pending_entries_keys [simp]:
  "fst ` set (pending_entries c) = (if cu_pending c = None then {} else keyset [''pending_count'', ''oldest_pending_age_seconds''])"
proof (cases "cu_pending c")
  case (Some p)
  then show ?thesis by (cases p) (simp add: pending_entries_def keyset_def)
qed (simp add: pending_entries_def)

section \<open>Asking another device\<close>

definition inspected :: "str \<Rightarrow> failure + custody \<times> observer \<times> bool \<Rightarrow> dict" where
  "inspected i seen =
     [(lit ''schema_version'', JInt SCHEMA_VERSION), (lit ''status'', JStr (lit ''INSPECTED'')),
      (lit ''event_id'', JStr i)] @
     (case seen of
        Inl f \<Rightarrow> [(lit ''observer'', JStr (lit ''none'')), (lit ''reason'', JStr (failure_str f))]
      | Inr (c, ob, claim) \<Rightarrow>
          [(lit ''observer'', JStr (observer_str ob))] @ custody_entries c @
          (if claim then [(lit ''dispatch_claim'', JStr (lit ''UNKNOWN''))] else []))"

lemma inspected_failure: "valid_failure (inspected i (Inl f)) = Some f"
  by (simp add: valid_failure_def inspected_def has_keys_def answer_base_def field_is_def insert_commute)

lemma inspected_no_failure: "valid_failure (inspected i (Inr (c, ob, claim))) = None"
  by (simp add: valid_failure_def inspected_def field_is_def)

lemma inspected_observation:
  assumes "custody_wf c"
  shows "valid_observation (inspected i (Inr (c, ob, claim))) = Some (ob, c)"
    "jget (inspected i (Inr (c, ob, claim))) ''dispatch_claim'' = (if claim then Some (JStr (lit ''UNKNOWN'')) else None)"
proof -
  let ?d = "inspected i (Inr (c, ob, claim))"
  show claim: "jget ?d ''dispatch_claim'' = (if claim then Some (JStr (lit ''UNKNOWN'')) else None)"
    by (simp add: inspected_def custody_entries_def map_add_def)
  have pending: "jget ?d ''pending_count'' = map_option (JInt \<circ> fst) (cu_pending c)"
    "jget ?d ''oldest_pending_age_seconds'' = map_option snd (cu_pending c)"
    by (simp_all add: inspected_def custody_entries_def map_add_def split: option.splits)
  have "custody_of ?d = Some c"
    using pending by (intro custody_of_entries [OF assms]) (simp_all add: inspected_def custody_entries_def)
  moreover have "jkeys ?d = keyset answer_observed \<union> fst ` set (pending_entries c) \<union> (if claim then keyset [''dispatch_claim''] else {})"
    by (auto simp: jkeys_def inspected_def custody_entries_def answer_observed_def answer_base_def keyset_def)
  moreover have "as_str (jget ?d ''observer'') = Some (observer_str ob)" by (simp add: inspected_def)
  ultimately show "valid_observation ?d = Some (ob, c)"
    using claim pending
    by (cases "cu_pending c"; cases claim) (auto simp: valid_observation_def field_is_def keyset_def)
qed

text \<open>What the requester makes of the answer of a device that saw \<open>seen\<close>.\<close>

definition seen_from_afar :: "intent \<Rightarrow> failure + custody \<times> observer \<times> bool \<Rightarrow> dict" where
  "seen_from_afar i seen =
     (case seen of
        Inl f \<Rightarrow> receiving_unknown (REMOTE_INSPECT_REASON_NAMES f) (REMOTE_INSPECT_DETAILS f)
      | Inr (c, ob, claim) \<Rightarrow>
          receiving_state_observation c (i_status i) ob @
          (if claim then [(lit ''native_dispatch_claim'', JStr (lit ''UNKNOWN''))] else []))"

lemma remote_answer_inspected:
  assumes "case seen of Inl _ \<Rightarrow> True | Inr (c, _) \<Rightarrow> custody_wf c"
  shows "remote_answer i (inspected (i_event_id i) seen) = seen_from_afar i seen"
proof -
  have gates: "field_eq_int (inspected (i_event_id i) seen) ''schema_version'' SCHEMA_VERSION"
    "field_is (inspected (i_event_id i) seen) ''status'' (lit ''INSPECTED'')"
    "field_is (inspected (i_event_id i) seen) ''event_id'' (i_event_id i)"
    by (simp_all add: inspected_def field_is_def field_eq_int_def)
  show ?thesis
  proof (cases seen)
    case (Inl f)
    with gates show ?thesis by (simp add: remote_answer_def inspected_failure seen_from_afar_def)
  next
    case (Inr x)
    then obtain c ob claim where x: "seen = Inr (c, ob, claim)" by (cases x) auto
    with gates assms show ?thesis
      by (simp add: remote_answer_def inspected_no_failure inspected_observation seen_from_afar_def)
  qed
qed

section \<open>The stage and the queue\<close>

text \<open>Where an event is, told from the queue of the courier itself.\<close>

definition custody_stage :: "courier option \<Rightarrow> str \<Rightarrow> intent_status \<Rightarrow> observer \<Rightarrow> string" where
  "custody_stage c event_id status ob =
     (case c of
        None \<Rightarrow> if status = TRANSPORT_ACCEPTED \<and> ob = OriginalCourier then ''handed_off'' else ''unknown''
      | Some q \<Rightarrow>
          if event_id \<in> c_handed_off q \<or> event_id \<in> fst ` set (c_retired q) then ''handed_off''
          else if event_id \<in> fst ` set (c_pending q) then ''pending_in_courier''
          else ''unknown'')"

definition courier_custody :: "surroundings \<Rightarrow> server \<Rightarrow> str \<Rightarrow> custody" where
  "courier_custody su s i =
     \<lparr>cu_state = (case sv_courier s of
        None \<Rightarrow> lit ''no_courier_queue''
      | Some q \<Rightarrow>
          if i \<in> c_handed_off q \<or> i \<in> fst ` set (c_retired q) then lit ''handed_off''
          else if i \<in> fst ` set (c_pending q) then lit ''pending'' else lit ''unseen''),
      cu_version = su_version su, cu_incarnation = su_incarnation su,
      cu_pending = (case sv_courier s of
        None \<Rightarrow> None
      | Some q \<Rightarrow> Some (int (length (c_pending q)),
          case map_option (\<lambda>t. max 0 (su_now su - t)) (min_time (map (snd \<circ> snd) (c_pending q))) of
            None \<Rightarrow> JNull | Some t \<Rightarrow> JFloat (Fin t)))\<rparr>"

lemma courier_custody_wf: "custody_wf (courier_custody su s i)"
  by (auto simp: custody_wf_def courier_custody_def COURIER_EVENT_STATES_def split: option.splits)

lemma courier_custody_stage:
  "jget (receiving_state_observation (courier_custody su s i) status ob) ''stage'' =
     Some (JStr (lit (custody_stage (sv_courier s) i status ob)))"
  by (simp add: receiving_state_observation_def stage_entries_def courier_custody_def custody_stage_def split: option.splits)

lemma serve_inspect:
  assumes "sv_bootstrapped s" "uuid_shape i"
  shows "serve_request E su s (JObj (inspect_payload (su_route su) i)) = (inspect_reply su s i, s)"
  using assms by (simp add: serve_request_def inspect_payload_def field_eq_int_def field_is_def Let_def)

lemma inspect_reply_custody:
  assumes "uuid_shape i"
  obtains d where "inspect_reply su s i = Some d" "custody_of d = Some (courier_custody su s i)"
    "has_keys d inspect_fields \<or> has_keys d (inspect_fields @ [''pending_count'', ''oldest_pending_age_seconds''])"
    "field_eq_int d ''schema_version'' SCHEMA_VERSION" "field_is d ''status'' (lit ''INSPECTED'')"
    "field_is d ''generation'' (r_generation (su_route su))"
proof -
  have v: "valid_uuid i f = Inr i" for f using assms by (simp add: valid_uuid_iff)
  let ?age = "\<lambda>q. case map_option (\<lambda>t. max 0 (su_now su - t)) (min_time (map (snd \<circ> snd) (c_pending q))) of
      None \<Rightarrow> JNull | Some t \<Rightarrow> JFloat (Fin t)"
  define d where "d =
    [(lit ''schema_version'', JInt 1), (lit ''status'', JStr (lit ''INSPECTED'')),
     (lit ''generation'', JStr (r_generation (su_route su))),
     (lit ''courier_version'', JStr (su_version su)), (lit ''courier_incarnation'', JStr (su_incarnation su)),
     (lit ''event_state'', JStr (cu_state (courier_custody su s i)))] @
    (case sv_courier s of None \<Rightarrow> []
     | Some q \<Rightarrow> [(lit ''pending_count'', JInt (int (length (c_pending q)))), (lit ''oldest_pending_age_seconds'', ?age q)])"
  have "inspect_reply su s i = Some d"
    by (simp add: inspect_reply_def v d_def courier_custody_def inspect_event_def split: option.splits)
  moreover have "custody_of d = Some (courier_custody su s i)"
    by (rule custody_of_entries [OF courier_custody_wf])
      (simp_all add: d_def courier_custody_def split: option.splits)
  moreover have "has_keys d inspect_fields \<or> has_keys d (inspect_fields @ [''pending_count'', ''oldest_pending_age_seconds''])"
    by (cases "sv_courier s") (simp_all add: has_keys_def inspect_fields_def d_def insert_commute)
  ultimately show thesis
    by (rule that) (simp_all add: d_def field_eq_int_def field_is_def SCHEMA_VERSION_def)
qed

lemma watched_delivery:
  assumes "registry_routes E d = Inr routes"
    and "receiving_delivery E (wt_host w) d routes k g = Inr (Delivery original r ob)"
    and "inspect_receiving_courier E (wt_courier w) r i = Inr (Inr c)"
    and "is_ok (dispatches E (wt_others w d))"
  shows "\<exists>claim. watched E w d i k g = Inr (Inr (c, ob, claim))"
  using assms by (auto simp: watched_def native_dispatch_claim_def is_ok_iff)

section \<open>Properties\<close>

text \<open>
  C38. A status says where the event is. When the courier an event was addressed to answers the
  question, the stage shown is the one its queue gives: handed off when the courier recorded so,
  pending when it still holds the message, unknown when it holds no record of it; and asking leaves
  the courier as it is.
\<close>

theorem observation_reflects_courier:
  assumes "intent_valid E i" and "sv_bootstrapped s"
    and "registry_routes E d = Inr routes"
    and "receiving_delivery E (wt_host w) d routes (i_target_key i) (i_target_generation i) =
           Inr (Delivery original (su_route su) ob)"
    and "serve_request E su s (JObj (inspect_payload (su_route su) (i_event_id i))) = (answer, s')"
    and "answer \<noteq> None \<Longrightarrow> request_socket E (wt_courier w) (inspect_payload (su_route su) (i_event_id i)) = Inr (the answer)"
    and "is_ok (dispatches E (wt_others w d))"
  shows "s' = s \<and> (\<exists>status. event_status_payload E w rw d i None = Inr status \<and>
     (\<exists>seen. jget status ''receiving_observation'' = Some (JObj seen) \<and>
       jget seen ''stage'' = Some (JStr (lit (custody_stage (sv_courier s) (i_event_id i) (i_status i) ob))) \<and>
       jget seen ''observer'' = Some (JStr (observer_str ob))))"
proof -
  let ?c = "courier_custody su s (i_event_id i)"
  have u: "uuid_shape (i_event_id i)" using assms(1) by (simp add: intent_valid_def)
  from serve_inspect [OF assms(2) u] assms(5) have a: "answer = inspect_reply su s (i_event_id i)" "s' = s" by auto
  obtain x where x: "inspect_reply su s (i_event_id i) = Some x" "custody_of x = Some ?c"
    "has_keys x inspect_fields \<or> has_keys x (inspect_fields @ [''pending_count'', ''oldest_pending_age_seconds''])"
    "field_eq_int x ''schema_version'' SCHEMA_VERSION" "field_is x ''status'' (lit ''INSPECTED'')"
    "field_is x ''generation'' (r_generation (su_route su))"
    using inspect_reply_custody [OF u] by blast
  with assms(6) a have "inspect_receiving_courier E (wt_courier w) (su_route su) (i_event_id i) = Inr (Inr ?c)"
    by (auto simp: inspect_receiving_courier_def)
  from watched_delivery [OF assms(3,4) this assms(7)] obtain claim where
    "watched E w d (i_event_id i) (i_target_key i) (i_target_generation i) = Inr (Inr (?c, ob, claim))" by blast
  then show ?thesis
    using courier_custody_stage [of su s "i_event_id i" "i_status i" ob] a(2)
    by (simp add: event_status_payload_def receiving_observation_def local_receiving_observation_def map_add_Some_iff)
      (simp add: receiving_state_observation_def map_add_Some_iff)
qed

text \<open>
  Looking from another device shows the same. When the recipient's device answers the question of
  the sender's device about an event, the sender is shown exactly what the recipient's device itself
  would show for that event; only where that device could not observe anything does the sender see
  the failure under its name for other devices.
\<close>

theorem remote_inspection_agrees:
  assumes "intent_valid E i" and "remote_token E node (i_target_key i) (i_target_generation i) = Inr recipient"
    and "rw_tailnet rw = Some me" and "map_of (ti_peers me) node = Some address"
    and "inspect_remote_receiving E w d (i_event_id i) (i_target_key i) (i_target_generation i) = Inr answer"
    and "request_tailnet E (rw_broker rw) (inspect_request i) = Inr answer"
  shows "\<exists>there. local_receiving_observation E w d i = Inr there \<and>
     (remote_receiving_observation E rw i recipient = Inr there \<or>
      (\<exists>f. there = receiving_unknown (failure_str f) (local_details f) \<and>
         remote_receiving_observation E rw i recipient =
           Inr (receiving_unknown (REMOTE_INSPECT_REASON_NAMES f) (REMOTE_INSPECT_DETAILS f))))"
proof -
  let ?i = "i_event_id i" and ?k = "i_target_key i" and ?g = "i_target_generation i"
  have u: "valid_uuid ?i f = Inr ?i" "valid_uuid ?g f = Inr ?g" "hex64 ?k" for f
    using assms(1) by (simp_all add: intent_valid_def valid_uuid_iff)
  with assms(5) obtain seen where seen: "watched E w d ?i ?k ?g = Inr seen" "answer = inspected ?i seen"
    by (auto simp: inspect_remote_receiving_def res_simps inspected_def)
  have "case seen of Inl _ \<Rightarrow> True | Inr (c, _) \<Rightarrow> custody_wf c"
    using watchedD seen(1) by (auto split: sum.splits prod.splits)
  then have "remote_answer i answer = seen_from_afar i seen"
    unfolding seen(2) by (rule remote_answer_inspected)
  then have "remote_receiving_observation E rw i recipient = Inr (seen_from_afar i seen)"
    using remote_token_parse [OF assms(2)] assms(3,4,6) by (simp add: remote_receiving_observation_def)
  with seen(1) show ?thesis
    by (auto simp: local_receiving_observation_def seen_from_afar_def split: sum.splits)
qed

section \<open>A sample observation\<close>

definition sample_route_key :: str where
  "sample_route_key = (case session_key sample_env Claude (sample_uuid 49) of Inl _ \<Rightarrow> [] | Inr k \<Rightarrow> k)"

definition sample_event :: intent where
  "sample_event =
     \<lparr>i_schema_version = 1, i_event_id = sample_uuid 51, i_source_key = sample_hex64 97,
      i_source_generation = sample_uuid 49, i_source_alias = sample_alias, i_target_key = sample_route_key,
      i_target_generation = sample_uuid 50, i_payload_digest = sample_hex64 98, i_status = TRANSPORT_ACCEPTED,
      i_timestamp = isoformat sample_env 0\<rparr>"

definition claude_surroundings :: surroundings where
  "claude_surroundings = sample_surroundings\<lparr>su_route := sample_route\<rparr>"

definition claude_server :: server where
  "claude_server = sample_server\<lparr>sv_courier := None\<rparr>"

definition sample_courier_answer :: dict where
  "sample_courier_answer =
     [(lit ''schema_version'', JInt 1), (lit ''status'', JStr (lit ''INSPECTED'')),
      (lit ''generation'', JStr (sample_uuid 50)), (lit ''courier_version'', JStr []),
      (lit ''courier_incarnation'', JStr []), (lit ''event_state'', JStr (lit ''no_courier_queue''))]"

definition sample_watch :: watch where
  "sample_watch = \<lparr>wt_host = sample_host,
     wt_courier = good_exchange (json_line sample_env (JObj sample_courier_answer)), wt_others = (\<lambda>d. d)\<rparr>"

lemma sample_route_session: "session_key sample_env Claude (sample_uuid 49) = Inr sample_route_key" "hex64 sample_route_key"
proof -
  have "session_shape Claude (sample_uuid 49)" by (simp add: session_shape_def sample_simps)
  from session_key_ok [OF this, of sample_env]
  show "session_key sample_env Claude (sample_uuid 49) = Inr sample_route_key" "hex64 sample_route_key"
    using env_ok_sha [OF sample_env_ok] by (auto simp: sample_route_key_def)
qed

lemma sample_event_valid: "intent_valid sample_env sample_event"
  using sample_route_session sample_alias_shape parse_timestamp_iso [OF sample_env_ok, of 0]
  by (simp add: intent_valid_def sample_event_def sample_simps sample_alias_def)

lemma sample_delivery:
  "receiving_delivery sample_env h d [sample_route] sample_route_key (sample_uuid 50) =
     Inr (Delivery sample_route sample_route OriginalCourier)"
  using sample_route_session by (simp add: receiving_delivery_def) (simp add: sample_route_def)

lemma sample_no_dispatches: "dispatches sample_env sample_registry = Inr []"
proof -
  have "anchor_generation native_dispatches_json = None"
    by (simp add: anchor_generation_def native_dispatches_json_def lit_def Let_def)
  moreover have "native_dispatches_json \<noteq> routes_json" "native_dispatches_json \<noteq> devin_routes_json"
    by (simp_all add: native_dispatches_json_def routes_json_def devin_routes_json_def)
  ultimately have "files sample_registry native_dispatches_json = None"
    by (simp add: sample_registry_def registry_write_def Let_def prune_owner_anchors_def empty_dir_def sample_route_def)
  then show ?thesis by (simp add: dispatches_def read_json_table_def)
qed

lemma sample_courier_served:
  "serve_request sample_env claude_surroundings claude_server (JObj (inspect_payload (su_route claude_surroundings) (i_event_id sample_event))) =
     (Some sample_courier_answer, claude_server)"
proof -
  have u: "uuid_shape (i_event_id sample_event)" "sv_bootstrapped claude_server"
    by (simp_all add: sample_event_def sample_simps claude_server_def sample_server_def)
  have v: "valid_uuid (i_event_id sample_event) f = Inr (i_event_id sample_event)" for f using u(1) by (simp add: valid_uuid_iff)
  have "inspect_reply claude_surroundings claude_server (i_event_id sample_event) = Some sample_courier_answer"
    using v
    by (simp add: inspect_reply_def claude_surroundings_def claude_server_def sample_surroundings_def
        sample_server_def sample_courier_answer_def sample_route_def)
  with serve_inspect [OF u(2,1), of sample_env claude_surroundings] show ?thesis by simp
qed

lemma sample_uuid_text: "c < 55296 \<Longrightarrow> list_all (printable True) (sample_uuid c)" "length (sample_uuid c) = 36"
  by (rule sample_uuid_printable) (simp_all add: sample_uuid_def)

lemma sample_courier_answers:
  "request_socket sample_env (wt_courier sample_watch) (inspect_payload (su_route claude_surroundings) (i_event_id sample_event)) =
     Inr sample_courier_answer"
proof -
  note p = sample_uuid_text [of 50] sample_uuid_text [of 51]
  show ?thesis
    unfolding sample_watch_def watch.simps
    using p
    by (intro small_arrives)
      (simp_all add: sample_courier_answer_def texts_def entry_size_def inspect_payload_def SCHEMA_VERSION_def
        int_fits_small claude_surroundings_def sample_route_def sample_event_def)
qed

definition sample_recipient :: str where
  "sample_recipient = (case remote_token sample_env (lit ''nCNTRL'') sample_route_key (sample_uuid 50) of Inl _ \<Rightarrow> [] | Inr t \<Rightarrow> t)"

definition sample_custody :: custody where
  "sample_custody = \<lparr>cu_state = lit ''no_courier_queue'', cu_version = [], cu_incarnation = [], cu_pending = None\<rparr>"

definition sample_remote_watch :: remote_watch where
  "sample_remote_watch =
     \<lparr>rw_tailnet = Some \<lparr>ti_self_node_id = None, ti_peers = [(lit ''nCNTRL'', lit ''100.64.0.2'')]\<rparr>,
      rw_broker = good_exchange (json_line sample_env
        (JObj (inspected (sample_uuid 51) (Inr (sample_custody, OriginalCourier, False)))))\<rparr>"

theorem observation_reflects_courier_witness:
  "\<exists>status. event_status_payload sample_env sample_watch sample_remote_watch sample_registry sample_event None = Inr status \<and>
     (\<exists>seen. jget status ''receiving_observation'' = Some (JObj seen) \<and>
       jget seen ''stage'' = Some (JStr (lit ''handed_off'')))"
  using observation_reflects_courier [OF sample_event_valid _ sample_registry_routes _ sample_courier_served, of sample_watch sample_route
      OriginalCourier sample_remote_watch] sample_courier_answers sample_delivery sample_no_dispatches
  by (auto simp: claude_server_def sample_server_def sample_watch_def sample_event_def claude_surroundings_def custody_stage_def)

lemma sample_inspected:
  "inspect_remote_receiving sample_env sample_watch sample_registry (i_event_id sample_event) (i_target_key sample_event)
     (i_target_generation sample_event) = Inr (inspected (sample_uuid 51) (Inr (sample_custody, OriginalCourier, False)))"
proof -
  have su: "su_route claude_surroundings = sample_route" by (simp add: claude_surroundings_def)
  have "custody_of sample_courier_answer = Some sample_custody"
    by (rule custody_of_entries)
      (simp_all add: custody_wf_def sample_custody_def sample_courier_answer_def COURIER_EVENT_STATES_def)
  moreover have "has_keys sample_courier_answer inspect_fields" "field_eq_int sample_courier_answer ''schema_version'' SCHEMA_VERSION"
    "field_is sample_courier_answer ''status'' (lit ''INSPECTED'')" "field_is sample_courier_answer ''generation'' (r_generation sample_route)"
    by (simp_all add: has_keys_def inspect_fields_def sample_courier_answer_def insert_commute field_eq_int_def field_is_def
        SCHEMA_VERSION_def sample_route_def)
  ultimately have "inspect_receiving_courier sample_env (wt_courier sample_watch) sample_route (sample_uuid 51) = Inr (Inr sample_custody)"
    using sample_courier_answers by (simp add: inspect_receiving_courier_def su sample_event_def)
  then have "watched sample_env sample_watch sample_registry (sample_uuid 51) sample_route_key (sample_uuid 50) =
      Inr (Inr (sample_custody, OriginalCourier, False))"
    by (simp add: watched_def sample_registry_routes sample_delivery)
  moreover have "valid_uuid (sample_uuid 51) f = Inr (sample_uuid 51)" "valid_uuid (sample_uuid 50) f = Inr (sample_uuid 50)" for f
    by (simp_all add: valid_uuid_iff sample_simps)
  ultimately show ?thesis
    using sample_route_session(2) by (simp add: inspect_remote_receiving_def sample_event_def inspected_def)
qed

lemma sample_inspected_arrives:
  "request_tailnet sample_env (rw_broker sample_remote_watch) (inspect_request sample_event) =
     Inr (inspected (sample_uuid 51) (Inr (sample_custody, OriginalCourier, False)))"
proof -
  note p = sample_uuid_text [of 50] sample_uuid_text [of 51]
  have "list_all (printable True) sample_route_key" using sample_route_session(2) hex64_printable by blast
  with p show ?thesis
    unfolding sample_remote_watch_def remote_watch.simps
    by (intro small_arrives)
      (simp_all add: inspected_def custody_entries_def pending_entries_def sample_custody_def texts_def entry_size_def
        inspect_request_def SCHEMA_VERSION_def int_fits_small sample_event_def)
qed

lemma sample_recipient_token: "remote_token sample_env (lit ''nCNTRL'') sample_route_key (sample_uuid 50) = Inr sample_recipient"
proof -
  obtain t where "remote_token sample_env (lit ''nCNTRL'') sample_route_key (sample_uuid 50) = Inr t"
    using remote_token_ok [OF sample_node sample_route_session(2), of "sample_uuid 50" sample_env] by (auto simp: sample_simps)
  then show ?thesis by (simp add: sample_recipient_def)
qed

lemma sample_peer: "rw_tailnet sample_remote_watch = Some \<lparr>ti_self_node_id = None, ti_peers = [(lit ''nCNTRL'', lit ''100.64.0.2'')]\<rparr>"
  by (simp add: sample_remote_watch_def)

theorem remote_inspection_agrees_witness:
  "\<exists>there. local_receiving_observation sample_env sample_watch sample_registry sample_event = Inr there \<and>
     is_ok (remote_receiving_observation sample_env sample_remote_watch sample_event sample_recipient)"
proof -
  have token: "remote_token sample_env (lit ''nCNTRL'') (i_target_key sample_event) (i_target_generation sample_event) = Inr sample_recipient"
    using sample_recipient_token by (simp add: sample_event_def)
  have "map_of (ti_peers \<lparr>ti_self_node_id = None, ti_peers = [(lit ''nCNTRL'', lit ''100.64.0.2'')]\<rparr>) (lit ''nCNTRL'') =
      Some (lit ''100.64.0.2'')" by simp
  from remote_inspection_agrees [OF sample_event_valid token sample_peer this sample_inspected sample_inspected_arrives]
  show ?thesis by auto
qed

end
