(* ===== verification/Broker.thy ===== *)
theory Broker
  imports Roster Inspect
begin

text \<open>
  The broker of a device (tailnet_broker.py): the admission of connections (\<open>BrokerAdmission\<close>), the
  handling of one request (\<open>handle_broker_request\<close>), the three lanes a connection can take (served,
  probed in the reserve lane, refused), and the dispatch that chooses the lane. What a peer sends
  and when its bytes arrive are arguments; what other processes do is in the records of the
  components the handler calls.
\<close>

section \<open>Handling a request\<close>

text \<open>
  What one request meets: the process, what listing, inspecting and receiving meet, and the wall
  clock of an authorization.
\<close>

record broker_world =
  bw_pid :: int
  bw_version :: str
  bw_module :: str
  bw_listing :: "str option \<Rightarrow> listing"
  bw_watch :: watch
  bw_now :: rat
  bw_reception :: reception

definition LOCAL_BROKER_HOST :: str where
  "LOCAL_BROKER_HOST = lit ''127.0.0.1''"

definition bad_request :: "'a res" where
  "bad_request = fail ''Tailnet broker request is invalid''"

definition layered_flags :: "string list" where
  "layered_flags =
     [''include_title'', ''include_delivery_mechanism'', ''include_owning_daemon'', ''include_devin_tool_boundary'',
      ''include_devin_acp_host'', ''include_current_boundary'']"

definition include_flags :: "string list" where
  "include_flags = [''include_delivery_mode'', ''include_devin'', ''include_external''] @ layered_flags"

definition peers_request_ok :: "dict \<Rightarrow> bool" where
  "peers_request_ok request \<longleftrightarrow>
     jkeys request - keyset [''schema_version'', ''operation''] \<subseteq> keyset (include_flags @ [''handle'']) \<and>
     \<not> (list_ex (has_flag request) layered_flags \<and> \<not> has_flag request ''include_delivery_mode'') \<and>
     field_eq_int request ''schema_version'' SCHEMA_VERSION \<and>
     list_all (\<lambda>k. has_flag request k \<longrightarrow> jget request k = Some (JBool True)) include_flags \<and>
     (case jget request ''handle'' of None \<Rightarrow> True | Some (JStr h) \<Rightarrow> hex64 h | Some _ \<Rightarrow> False)"

definition broker_reader :: "dict \<Rightarrow> reader" where
  "broker_reader request =
     \<lparr>rd_mode = has_flag request ''include_delivery_mode'',
      rd_mechanism = has_flag request ''include_delivery_mechanism'', rd_title = has_flag request ''include_title'',
      rd_owning = has_flag request ''include_owning_daemon'', rd_tool = has_flag request ''include_devin_tool_boundary'',
      rd_acp = has_flag request ''include_devin_acp_host'', rd_boundary = has_flag request ''include_current_boundary'',
      rd_devin = has_flag request ''include_devin'', rd_external = has_flag request ''include_external''\<rparr>"

definition broker_health :: "broker_world \<Rightarrow> dict \<Rightarrow> str \<Rightarrow> dict res" where
  "broker_health bw request peer =
     (if \<not> field_eq_int request ''schema_version'' SCHEMA_VERSION \<or> peer \<noteq> LOCAL_BROKER_HOST then bad_request
      else Inr [(lit ''schema_version'', JInt SCHEMA_VERSION), (lit ''status'', JStr (lit ''READY'')),
        (lit ''pid'', JInt (bw_pid bw)), (lit ''version'', JStr (bw_version bw)),
        (lit ''module_path'', JStr (bw_module bw))])"

definition broker_peers :: "pyenv \<Rightarrow> broker_world \<Rightarrow> dir \<Rightarrow> dict \<Rightarrow> str \<Rightarrow> dict res" where
  "broker_peers E bw d request peer =
     (if \<not> peers_request_ok request then bad_request
      else
        bind (valid_tailnet_address peer) (\<lambda>_.
        let handle = as_str (jget request ''handle'') in
        peers E (bw_listing bw handle) d False True (broker_reader request) handle None))"

text \<open>The texts of a request in the order given; \<open>None\<close> when one of them is not a string.\<close>

fun strs_of :: "dict \<Rightarrow> string list \<Rightarrow> str list option" where
  "strs_of request [] = Some []"
| "strs_of request (k # ks) =
     (case (as_str (jget request k), strs_of request ks) of (Some s, Some ss) \<Rightarrow> Some (s # ss) | _ \<Rightarrow> None)"

definition broker_inspect :: "pyenv \<Rightarrow> broker_world \<Rightarrow> dir \<Rightarrow> dict \<Rightarrow> str \<Rightarrow> dict res" where
  "broker_inspect E bw d request peer =
     bind (valid_tailnet_address peer) (\<lambda>_.
     if \<not> field_eq_int request ''schema_version'' SCHEMA_VERSION then bad_request
     else
       case strs_of request [''event_id'', ''target_key'', ''target_generation''] of
         Some [event_id, target_key, target_generation] \<Rightarrow>
           inspect_remote_receiving E (bw_watch bw) d event_id target_key target_generation
       | _ \<Rightarrow> bad_request)"

definition authorization_fields :: "string list" where
  "authorization_fields =
     [''event_id'', ''source_alias'', ''source_generation'', ''target_key'', ''target_generation'', ''payload_digest'']"

definition broker_authorize :: "pyenv \<Rightarrow> broker_world \<Rightarrow> dir \<Rightarrow> dict \<Rightarrow> str \<Rightarrow> (dict \<times> dir) res" where
  "broker_authorize E bw d request peer =
     bind (valid_tailnet_address peer) (\<lambda>_.
     if \<not> field_eq_int request ''schema_version'' SCHEMA_VERSION then bad_request
     else
       case strs_of request authorization_fields of
         Some [event_id, source_alias, sgen, target_key, tgen, digest] \<Rightarrow>
           authorize_remote E (bw_now bw) d event_id source_alias sgen target_key tgen digest
       | _ \<Rightarrow> bad_request)"

definition broker_receive :: "pyenv \<Rightarrow> broker_world \<Rightarrow> dir \<Rightarrow> dict \<Rightarrow> str \<Rightarrow> dict res option" where
  "broker_receive E bw d request peer =
     (if \<not> field_eq_int request ''schema_version'' SCHEMA_VERSION then Some bad_request
      else
        case jget request ''envelope'' of
          Some (JStr envelope) \<Rightarrow>
            (case valid_tailnet_address peer of
               Inl e \<Rightarrow> Some (Inl e)
             | Inr address \<Rightarrow> receive_remote E (bw_reception bw) d envelope address)
        | _ \<Rightarrow> Some bad_request)"

text \<open>The branch a request takes, by its operation and its exact keys.\<close>

datatype broker_operation = HealthOp | PeersOp | InspectOp | AuthorizeOp | ReceiveOp | InvalidOp

definition operation_of :: "dict \<Rightarrow> broker_operation" where
  "operation_of request =
     (let operation = field_is request ''operation''; head = [''schema_version'', ''operation''] in
      if operation (lit ''health'') \<and> has_keys request head then HealthOp
      else if operation (lit ''peers'') then PeersOp
      else if operation (lit ''inspect'') \<and> has_keys request (head @ [''event_id'', ''target_key'', ''target_generation''])
      then InspectOp
      else if operation (lit ''authorize'') \<and> has_keys request (head @ authorization_fields) then AuthorizeOp
      else if operation (lit ''receive'') \<and> has_keys request (head @ [''envelope'']) then ReceiveOp
      else InvalidOp)"

text \<open>
  The answer and the state directory. Only an authorization writes to it; \<open>None\<close> would be a handler
  that does not return.
\<close>

definition handle_broker_request ::
  "pyenv \<Rightarrow> broker_world \<Rightarrow> dir \<Rightarrow> json \<Rightarrow> str \<Rightarrow> (dict res \<times> dir) option" where
  "handle_broker_request E bw d raw peer =
     (case raw of
        JObj request \<Rightarrow>
          (case operation_of request of
             HealthOp \<Rightarrow> Some (broker_health bw request peer, d)
           | PeersOp \<Rightarrow> Some (broker_peers E bw d request peer, d)
           | InspectOp \<Rightarrow> Some (broker_inspect E bw d request peer, d)
           | AuthorizeOp \<Rightarrow>
               Some (case broker_authorize E bw d request peer of Inl e \<Rightarrow> (Inl e, d) | Inr (a, d') \<Rightarrow> (Inr a, d'))
           | ReceiveOp \<Rightarrow> map_option (\<lambda>r. (r, d)) (broker_receive E bw d request peer)
           | InvalidOp \<Rightarrow> Some (bad_request, d))
      | _ \<Rightarrow> Some (bad_request, d))"

section \<open>Connections\<close>

text \<open>\<open>serve_broker_connection\<close>: the frame, its JSON, the handler.\<close>

definition is_decode_error :: "exn \<Rightarrow> bool" where
  "is_decode_error e \<longleftrightarrow> e = JSONDecodeError \<or> e = UnicodeError"

definition broker_frame :: "pyenv \<Rightarrow> recv list \<Rightarrow> json res" where
  "broker_frame E evs =
     bind (read_frame WIRE_FRAME_BYTES evs) (\<lambda>f.
     except_chat is_decode_error ''Tailnet broker request is invalid'' (loads_bytes E f))"

definition serve_broker_connection ::
  "pyenv \<Rightarrow> broker_world \<Rightarrow> dir \<Rightarrow> recv list \<Rightarrow> str \<Rightarrow> (dict res \<times> dir) option" where
  "serve_broker_connection E bw d evs peer =
     (case broker_frame E evs of
        Inl e \<Rightarrow> Some (Inl e, d)
      | Inr raw \<Rightarrow> handle_broker_request E bw d raw peer)"

definition first_line :: "bytes \<Rightarrow> bytes" where
  "first_line b = takeWhile (\<lambda>c. c \<noteq> 10) b"

definition parse_peeked :: "pyenv \<Rightarrow> bytes \<Rightarrow> dict option res" where
  "parse_peeked E buffered =
     (if 10 \<notin> set buffered \<or> WIRE_FRAME_BYTES < length buffered then Inr None
      else
        case loads_bytes E (first_line buffered) of
          Inl e \<Rightarrow> if is_decode_error e then Inr None else Inl e
        | Inr (JObj d) \<Rightarrow> Inr (Some d)
        | Inr _ \<Rightarrow> Inr None)"

text \<open>
  A connection: everything the peer will send with what \<open>recv\<close> does, how much of it is in the buffer
  when the dispatcher looks (\<open>None\<close>: nothing yet, or an error), and what each later look finds: the
  number of bytes buffered then (none: end of file; \<open>None\<close>: an error or the timeout), how long it took,
  and how much longer than asked the pause after it lasted.
\<close>

record look =
  pk_size :: "nat option"
  pk_took :: rat
  pk_overslept :: rat

record connection =
  cn_events :: "recv list"
  cn_ready :: "nat option"
  cn_peeks :: "nat \<Rightarrow> look"
  cn_clock :: rat

definition peek_bytes :: "connection \<Rightarrow> nat \<Rightarrow> bytes" where
  "peek_bytes cn k = take (min 65536 k) (available (cn_events cn))"

definition ready_request :: "pyenv \<Rightarrow> connection \<Rightarrow> dict option res" where
  "ready_request E cn = (case cn_ready cn of None \<Rightarrow> Inr None | Some k \<Rightarrow> parse_peeked E (peek_bytes cn k))"

definition PEEK_REQUEST_DEADLINE_SECONDS :: rat where "PEEK_REQUEST_DEADLINE_SECONDS = 5"
definition PEEK_STALL_WAIT_MIN_SECONDS :: rat where "PEEK_STALL_WAIT_MIN_SECONDS = 5 / 1000"
definition PEEK_STALL_WAIT_MAX_SECONDS :: rat where "PEEK_STALL_WAIT_MAX_SECONDS = 1 / 10"

text \<open>The loop of \<open>_peeked_request\<close>: the bytes that decide the request, with the number of looks.\<close>

partial_function (option) look_loop ::
  "connection \<Rightarrow> rat \<Rightarrow> rat \<Rightarrow> rat \<Rightarrow> nat \<Rightarrow> bytes \<Rightarrow> (bytes option \<times> nat) option" where
  "look_loop cn deadline now stall n buffered =
     (if 10 \<in> set buffered \<or> WIRE_FRAME_BYTES < length buffered then Some (Some buffered, n)
      else if deadline - now \<le> 0 then Some (None, n)
      else
        let p = cn_peeks cn n; now' = after now (pk_took p) in
        case pk_size p of
          None \<Rightarrow> Some (None, Suc n)
        | Some k \<Rightarrow>
            let peeked = peek_bytes cn k in
            if peeked = [] then Some (None, Suc n)
            else if length buffered < length peeked
            then look_loop cn deadline now' PEEK_STALL_WAIT_MIN_SECONDS (Suc n) peeked
            else if deadline - now' \<le> 0 then Some (None, Suc n)
            else look_loop cn deadline (after (now' + min stall (deadline - now')) (pk_overslept p))
                   (min (stall * 2) PEEK_STALL_WAIT_MAX_SECONDS) (Suc n) buffered)"

definition peeked_request :: "pyenv \<Rightarrow> connection \<Rightarrow> dict option res option" where
  "peeked_request E cn =
     (case look_loop cn (cn_clock cn + PEEK_REQUEST_DEADLINE_SECONDS) (cn_clock cn) PEEK_STALL_WAIT_MIN_SECONDS 0 [] of
        None \<Rightarrow> None
      | Some (None, _) \<Rightarrow> Some (Inr None)
      | Some (Some buffered, _) \<Rightarrow> Some (parse_peeked E buffered))"

text \<open>
  The reserve lane. \<open>Inr None\<close> is a connection dropped without a word, \<open>Inr (Some a)\<close> one that was
  sent the frame \<open>a\<close>.
\<close>

definition probe_broker_connection ::
  "pyenv \<Rightarrow> broker_world \<Rightarrow> dir \<Rightarrow> connection \<Rightarrow> str \<Rightarrow> (dict option res \<times> dir) option" where
  "probe_broker_connection E bw d cn peer =
     (case peeked_request E cn of
        None \<Rightarrow> None
      | Some (Inl e) \<Rightarrow> Some (Inl e, d)
      | Some (Inr None) \<Rightarrow> Some (Inr None, d)
      | Some (Inr (Some request)) \<Rightarrow>
          if \<not> field_is request ''operation'' (lit ''authorize'') then Some (Inr (Some BROKER_CAPACITY_REFUSAL), d)
          else map_option (\<lambda>(r, d'). (bind r (\<lambda>a. Inr (Some a)), d')) (serve_broker_connection E bw d (cn_events cn) peer))"

section \<open>Admission\<close>

definition MAX_BROKER_CONNECTIONS :: nat where "MAX_BROKER_CONNECTIONS = 16"
definition MAX_BROKER_CONNECTIONS_PER_PEER :: nat where "MAX_BROKER_CONNECTIONS_PER_PEER = 2"

record broker_admission =
  ad_capacity :: nat
  ad_by_peer :: "str \<Rightarrow> nat option"

definition new_admission :: broker_admission where
  "new_admission = \<lparr>ad_capacity = MAX_BROKER_CONNECTIONS, ad_by_peer = (\<lambda>_. None)\<rparr>"

definition active :: "broker_admission \<Rightarrow> str \<Rightarrow> nat" where
  "active a peer = (case ad_by_peer a peer of None \<Rightarrow> 0 | Some n \<Rightarrow> n)"

text \<open>
  Only the dispatching thread acquires, so its two halves (the semaphore, then the count under the
  lock) are one step: a release in between could as well have come before.
\<close>

definition acquire :: "broker_admission \<Rightarrow> str \<Rightarrow> bool \<times> broker_admission" where
  "acquire a peer =
     (if ad_capacity a = 0 then (False, a)
      else if MAX_BROKER_CONNECTIONS_PER_PEER \<le> active a peer then (False, a)
      else (True, a\<lparr>ad_capacity := ad_capacity a - 1, ad_by_peer := (ad_by_peer a)(peer \<mapsto> active a peer + 1)\<rparr>))"

text \<open>
  A release has two steps: the count under the lock, then the bounded semaphore, which raises
  ValueError beyond its initial value.
\<close>

definition release_count :: "broker_admission \<Rightarrow> str \<Rightarrow> broker_admission" where
  "release_count a peer =
     a\<lparr>ad_by_peer := (ad_by_peer a)(peer := if active a peer \<le> 1 then None else Some (active a peer - 1))\<rparr>"

definition release_capacity :: "broker_admission \<Rightarrow> broker_admission res" where
  "release_capacity a =
     (if MAX_BROKER_CONNECTIONS \<le> ad_capacity a then Inl ValueError else Inr (a\<lparr>ad_capacity := ad_capacity a + 1\<rparr>))"

definition release :: "broker_admission \<Rightarrow> str \<Rightarrow> broker_admission res" where
  "release a peer = release_capacity (release_count a peer)"

section \<open>Dispatch\<close>

datatype lane = Serve | Probe | Refuse | Close

text \<open>The main admission, the reserve lane and the budget of refusals, where the server has them.\<close>

record broker =
  br_admission :: broker_admission
  br_callbacks :: "broker_admission option"
  br_refusals :: "nat option"

definition refuse_overflow :: "broker \<Rightarrow> lane \<times> broker" where
  "refuse_overflow br =
     (case br_refusals br of
        None \<Rightarrow> (Close, br)
      | Some n \<Rightarrow> if n = 0 then (Close, br) else (Refuse, br\<lparr>br_refusals := Some (n - 1)\<rparr>))"

definition dispatch_broker_connection :: "pyenv \<Rightarrow> broker \<Rightarrow> connection \<Rightarrow> str \<Rightarrow> lane res \<times> broker" where
  "dispatch_broker_connection E br cn peer =
     (case acquire (br_admission br) peer of
        (True, a) \<Rightarrow> (Inr Serve, br\<lparr>br_admission := a\<rparr>)
      | (False, _) \<Rightarrow>
          (case ready_request E cn of
             Inl e \<Rightarrow> (Inl e, br)
           | Inr ready \<Rightarrow>
               let overflow = (case refuse_overflow br of (l, br') \<Rightarrow> (Inr l, br')) in
               if (case ready of None \<Rightarrow> False | Some q \<Rightarrow> \<not> field_is q ''operation'' (lit ''authorize'')) then overflow
               else
                 (case br_callbacks br of
                    None \<Rightarrow> overflow
                  | Some c \<Rightarrow>
                      (case acquire c peer of
                         (True, c') \<Rightarrow> (Inr Probe, br\<lparr>br_callbacks := Some c'\<rparr>)
                       | (False, _) \<Rightarrow> overflow))))"

definition new_broker :: broker where
  "new_broker = \<lparr>br_admission = new_admission, br_callbacks = Some new_admission, br_refusals = Some MAX_BROKER_CONNECTIONS\<rparr>"

text \<open>What becomes of a connection in its lane: the frame it is sent, if any, and the directory.\<close>

definition run_lane :: "pyenv \<Rightarrow> broker_world \<Rightarrow> dir \<Rightarrow> connection \<Rightarrow> str \<Rightarrow> lane \<Rightarrow> (dict option res \<times> dir) option" where
  "run_lane E bw d cn peer l =
     (case l of
        Serve \<Rightarrow>
          map_option (\<lambda>(r, d'). (bind r (\<lambda>a. Inr (Some a)), d')) (serve_broker_connection E bw d (cn_events cn) peer)
      | Probe \<Rightarrow> probe_broker_connection E bw d cn peer
      | Refuse \<Rightarrow> Some (Inr (Some BROKER_CAPACITY_REFUSAL), d)
      | Close \<Rightarrow> Some (Inr None, d))"

section \<open>Listeners\<close>

definition LOCAL_BROKER_PORT :: int where "LOCAL_BROKER_PORT = 47072"
definition TAILNET_PORT :: int where "TAILNET_PORT = 47071"

definition broker_bindings :: "str option \<Rightarrow> (str \<times> int) list" where
  "broker_bindings tailnet_address =
     (LOCAL_BROKER_HOST, LOCAL_BROKER_PORT) # (case tailnet_address of None \<Rightarrow> [] | Some a \<Rightarrow> [(a, TAILNET_PORT)])"

text \<open>What binding and listening on an address did.\<close>

datatype bind_result = Bound | AddressNotAvailable | BindFails

definition bind_broker_listener :: "bind_result \<Rightarrow> bool \<Rightarrow> bool res" where
  "bind_broker_listener b allow_unavailable =
     (case b of
        Bound \<Rightarrow> Inr True
      | AddressNotAvailable \<Rightarrow> if allow_unavailable then Inr False else Inl OSError
      | BindFails \<Rightarrow> Inl OSError)"

text \<open>The listening sockets of the server by what they are bound to, and the tailnet binding.\<close>

record listeners =
  li_servers :: "(str \<times> int) list"
  li_tailnet :: "(str \<times> int) option"

definition start_listeners :: "bind_result \<Rightarrow> listeners res" where
  "start_listeners b =
     bind (bind_broker_listener b False) (\<lambda>_. Inr \<lparr>li_servers = [(LOCAL_BROKER_HOST, LOCAL_BROKER_PORT)], li_tailnet = None\<rparr>)"

text \<open>One finished refresh: a listener on another address is closed, and the wanted one opened.\<close>

definition refresh_listeners :: "(str \<times> int) list \<Rightarrow> bind_result \<Rightarrow> listeners \<Rightarrow> listeners res" where
  "refresh_listeners current b li =
     (let desired = (if length current = 2 then Some (current ! 1) else None);
          kept = (case li_tailnet li of
                    None \<Rightarrow> li
                  | Some t \<Rightarrow>
                      if desired \<noteq> Some t then \<lparr>li_servers = remove1 t (li_servers li), li_tailnet = None\<rparr> else li) in
      case desired of
        None \<Rightarrow> Inr kept
      | Some t \<Rightarrow>
          if li_tailnet kept = Some t then Inr kept
          else
            bind (bind_broker_listener b True) (\<lambda>ok.
            Inr (if ok then \<lparr>li_servers = li_servers kept @ [t], li_tailnet = Some t\<rparr> else kept)))"

definition listeners_ok :: "listeners \<Rightarrow> bool" where
  "listeners_ok li \<longleftrightarrow>
     li_servers li = (LOCAL_BROKER_HOST, LOCAL_BROKER_PORT) # (case li_tailnet li of None \<Rightarrow> [] | Some t \<Rightarrow> [t]) \<and>
     (case li_tailnet li of None \<Rightarrow> True | Some t \<Rightarrow> snd t = TAILNET_PORT)"

text \<open>
  The server always listens locally, and besides only on the tailnet address of the last refresh.
\<close>

lemma refresh_listeners_ok:
  assumes "listeners_ok li" "refresh_listeners (broker_bindings address) b li = Inr li'"
  shows "listeners_ok li' \<and> li_tailnet li' \<in> {None, map_option (\<lambda>a. (a, TAILNET_PORT)) address}"
proof -
  have ports: "LOCAL_BROKER_PORT \<noteq> TAILNET_PORT" by (simp add: LOCAL_BROKER_PORT_def TAILNET_PORT_def)
  show ?thesis
    using assms ports
    by (cases "li_tailnet li"; cases address)
      (auto simp: refresh_listeners_def broker_bindings_def listeners_ok_def Let_def bind_Inr_iff split: if_splits)
qed

section \<open>Seats\<close>

text \<open>
  What a lane relies on: the state of an admission agrees with the peers whose connections hold a
  seat and with the number of seats being given back.
\<close>

locale seats =
  fixes acquire :: "'s \<Rightarrow> str \<Rightarrow> bool \<times> 's" and leave :: "'s \<Rightarrow> str \<Rightarrow> 's" and free :: "'s \<Rightarrow> 's res"
    and agrees :: "'s \<Rightarrow> str list \<Rightarrow> nat \<Rightarrow> bool" and total :: nat and per_peer :: nat
  assumes entered: "agrees s ps n \<Longrightarrow> acquire s p = (True, s') \<Longrightarrow> agrees s' (p # ps) n"
    and turned_away: "acquire s p = (False, s') \<Longrightarrow> s' = s"
    and left: "agrees s (xs @ p # ys) n \<Longrightarrow> agrees (leave s p) (xs @ ys) (Suc n)"
    and freed: "agrees s ps (Suc n) \<Longrightarrow> \<exists>s'. free s = Inr s' \<and> agrees s' ps n"
    and bounded: "agrees s ps n \<Longrightarrow> length ps + n \<le> total \<and> count_list ps p \<le> per_peer"
    and open_seat: "agrees s ps n \<Longrightarrow> length ps + n < total \<Longrightarrow> count_list ps p < per_peer \<Longrightarrow> fst (acquire s p)"
begin

text \<open>A connection is turned away exactly when the lane or its peer's share of it is full.\<close>

lemma turned_away_iff:
  assumes "agrees s ps n"
  shows "\<not> fst (acquire s p) \<longleftrightarrow> length ps + n = total \<or> count_list ps p = per_peer"
proof
  show "\<not> fst (acquire s p) \<Longrightarrow> length ps + n = total \<or> count_list ps p = per_peer"
    using open_seat [OF assms] bounded [OF assms] by (meson antisym_conv2)
next
  assume full: "length ps + n = total \<or> count_list ps p = per_peer"
  show "\<not> fst (acquire s p)"
  proof
    assume "fst (acquire s p)"
    then obtain s' where "acquire s p = (True, s')" by (metis prod.collapse)
    from bounded [OF entered [OF assms this], of p] full show False by auto
  qed
qed

end

text \<open>The counts of a dictionary without zero entries.\<close>

definition nonzero :: "nat \<Rightarrow> nat option" where
  "nonzero n = (if n = 0 then None else Some n)"

definition seats_agree :: "broker_admission \<Rightarrow> str list \<Rightarrow> nat \<Rightarrow> bool" where
  "seats_agree a ps n \<longleftrightarrow>
     ad_capacity a + length ps + n = MAX_BROKER_CONNECTIONS \<and>
     ad_by_peer a = (\<lambda>p. nonzero (count_list ps p)) \<and>
     (\<forall>p. count_list ps p \<le> MAX_BROKER_CONNECTIONS_PER_PEER)"

lemma seats_active: "seats_agree a ps n \<Longrightarrow> active a p = count_list ps p"
  by (simp add: seats_agree_def active_def nonzero_def)

lemma seats_new: "seats_agree new_admission [] 0"
  by (simp add: seats_agree_def new_admission_def nonzero_def)

interpretation broker_seats: seats acquire release_count release_capacity seats_agree
  MAX_BROKER_CONNECTIONS MAX_BROKER_CONNECTIONS_PER_PEER
proof
  fix s ps n p s'
  assume a: "seats_agree s ps n" and "acquire s p = (True, s')"
  moreover have "(\<lambda>q. nonzero (count_list ps q))(p \<mapsto> Suc (count_list ps p)) = (\<lambda>q. nonzero (count_list (p # ps) q))"
    by (auto simp: fun_eq_iff nonzero_def)
  ultimately show "seats_agree s' (p # ps) n"
    by (auto simp: acquire_def seats_active [OF a] seats_agree_def split: if_splits)
next
  fix s xs p ys n
  assume a: "seats_agree s (xs @ p # ys) n"
  have "active s p = Suc (count_list xs p + count_list ys p)" using seats_active [OF a, of p] by simp
  then have "ad_by_peer (release_count s p) = (\<lambda>q. nonzero (count_list (xs @ ys) q))"
    using a by (auto simp: release_count_def seats_agree_def fun_eq_iff nonzero_def)
  moreover have "count_list (xs @ ys) q \<le> count_list (xs @ p # ys) q" for q by simp
  then have "count_list (xs @ ys) q \<le> MAX_BROKER_CONNECTIONS_PER_PEER" for q
    using a unfolding seats_agree_def by (meson le_trans)
  ultimately show "seats_agree (release_count s p) (xs @ ys) (Suc n)"
    using a by (simp add: seats_agree_def release_count_def)
next
  fix s ps n
  assume "seats_agree s ps (Suc n)"
  then show "\<exists>s'. release_capacity s = Inr s' \<and> seats_agree s' ps n"
    by (auto simp: release_capacity_def seats_agree_def)
qed (auto simp: acquire_def seats_active seats_agree_def split: if_splits)

section \<open>The running broker\<close>

text \<open>
  The broker with the peers of the connections in each lane, and the seats and refusals being given
  back. A connection arrives, a served or probed connection leaves in two steps, a refusal ends.
\<close>

record broker_system =
  bs_broker :: broker
  bs_serving :: "str list"
  bs_serving_left :: nat
  bs_probing :: "str list"
  bs_probing_left :: nat
  bs_refusing :: nat

definition start_broker :: broker_system where
  "start_broker = \<lparr>bs_broker = new_broker, bs_serving = [], bs_serving_left = 0, bs_probing = [], bs_probing_left = 0,
     bs_refusing = 0\<rparr>"

fun enter_lane :: "lane \<Rightarrow> str \<Rightarrow> broker_system \<Rightarrow> broker_system" where
  "enter_lane Serve p s = s\<lparr>bs_serving := p # bs_serving s\<rparr>"
| "enter_lane Probe p s = s\<lparr>bs_probing := p # bs_probing s\<rparr>"
| "enter_lane Refuse p s = s\<lparr>bs_refusing := Suc (bs_refusing s)\<rparr>"
| "enter_lane Close p s = s"

inductive broker_step :: "pyenv \<Rightarrow> broker_system \<Rightarrow> broker_system \<Rightarrow> bool" for E where
  arrive: "dispatch_broker_connection E (bs_broker s) cn p = (Inr l, b) \<Longrightarrow>
    broker_step E s (enter_lane l p (s\<lparr>bs_broker := b\<rparr>))"
| served: "bs_serving s = xs @ p # ys \<Longrightarrow>
    broker_step E s (s\<lparr>bs_broker := (bs_broker s)\<lparr>br_admission := release_count (br_admission (bs_broker s)) p\<rparr>,
      bs_serving := xs @ ys, bs_serving_left := Suc (bs_serving_left s)\<rparr>)"
| served_free: "bs_serving_left s = Suc n \<Longrightarrow> release_capacity (br_admission (bs_broker s)) = Inr a \<Longrightarrow>
    broker_step E s (s\<lparr>bs_broker := (bs_broker s)\<lparr>br_admission := a\<rparr>, bs_serving_left := n\<rparr>)"
| probed: "bs_probing s = xs @ p # ys \<Longrightarrow> br_callbacks (bs_broker s) = Some c \<Longrightarrow>
    broker_step E s (s\<lparr>bs_broker := (bs_broker s)\<lparr>br_callbacks := Some (release_count c p)\<rparr>,
      bs_probing := xs @ ys, bs_probing_left := Suc (bs_probing_left s)\<rparr>)"
| probed_free: "bs_probing_left s = Suc n \<Longrightarrow> br_callbacks (bs_broker s) = Some c \<Longrightarrow> release_capacity c = Inr c' \<Longrightarrow>
    broker_step E s (s\<lparr>bs_broker := (bs_broker s)\<lparr>br_callbacks := Some c'\<rparr>, bs_probing_left := n\<rparr>)"
| refused_free: "bs_refusing s = Suc n \<Longrightarrow> br_refusals (bs_broker s) = Some k \<Longrightarrow>
    broker_step E s (s\<lparr>bs_broker := (bs_broker s)\<lparr>br_refusals := Some (Suc k)\<rparr>, bs_refusing := n\<rparr>)"

inductive broker_reach :: "pyenv \<Rightarrow> broker_system \<Rightarrow> bool" for E where
  reach_start: "broker_reach E start_broker"
| reach_step: "broker_reach E s \<Longrightarrow> broker_step E s s' \<Longrightarrow> broker_reach E s'"

definition broker_inv :: "broker_system \<Rightarrow> bool" where
  "broker_inv s \<longleftrightarrow>
     seats_agree (br_admission (bs_broker s)) (bs_serving s) (bs_serving_left s) \<and>
     (\<exists>c. br_callbacks (bs_broker s) = Some c \<and> seats_agree c (bs_probing s) (bs_probing_left s)) \<and>
     (\<exists>k. br_refusals (bs_broker s) = Some k \<and> k + bs_refusing s = MAX_BROKER_CONNECTIONS)"

lemma refuse_overflow_cases:
  assumes "refuse_overflow br = (l, br')" "br_refusals br = Some k"
  obtains "l = Close" "br' = br" "k = 0" | n where "l = Refuse" "k = Suc n" "br' = br\<lparr>br_refusals := Some n\<rparr>"
  using assms by (cases k) (auto simp: refuse_overflow_def)

text \<open>The lanes by what the admissions say.\<close>

lemma dispatch_cases:
  assumes "dispatch_broker_connection E br cn p = (Inr l, br')" "br_callbacks br = Some c"
  obtains (served) a where "acquire (br_admission br) p = (True, a)" "l = Serve" "br' = br\<lparr>br_admission := a\<rparr>"
  | (probed) c' where "\<not> fst (acquire (br_admission br) p)" "acquire c p = (True, c')" "l = Probe" "br' = br\<lparr>br_callbacks := Some c'\<rparr>"
  | (overflow) "\<not> fst (acquire (br_admission br) p)" "refuse_overflow br = (l, br')"
  using assms
  by (auto simp: dispatch_broker_connection_def Let_def split: prod.splits bool.splits sum.splits if_splits)

lemma broker_inv_arrive:
  assumes "broker_inv s" "dispatch_broker_connection E (bs_broker s) cn p = (Inr l, b)"
  shows "broker_inv (enter_lane l p (s\<lparr>bs_broker := b\<rparr>))"
proof -
  obtain c k where s: "seats_agree (br_admission (bs_broker s)) (bs_serving s) (bs_serving_left s)"
    "br_callbacks (bs_broker s) = Some c" "seats_agree c (bs_probing s) (bs_probing_left s)"
    "br_refusals (bs_broker s) = Some k" "k + bs_refusing s = MAX_BROKER_CONNECTIONS"
    using assms(1) by (auto simp: broker_inv_def)
  show ?thesis
  proof (rule dispatch_cases [OF assms(2) s(2)])
    fix a
    assume "acquire (br_admission (bs_broker s)) p = (True, a)" "l = Serve" "b = (bs_broker s)\<lparr>br_admission := a\<rparr>"
    with s broker_seats.entered [OF s(1)] show ?thesis by (simp add: broker_inv_def)
  next
    fix c'
    assume "acquire c p = (True, c')" "l = Probe" "b = (bs_broker s)\<lparr>br_callbacks := Some c'\<rparr>"
    with s broker_seats.entered [OF s(3)] show ?thesis by (simp add: broker_inv_def)
  next
    assume "refuse_overflow (bs_broker s) = (l, b)"
    then show ?thesis by (rule refuse_overflow_cases [OF _ s(4)]) (use s in \<open>auto simp: broker_inv_def\<close>)
  qed
qed

lemma broker_inv_step:
  assumes "broker_step E s s'" "broker_inv s"
  shows "broker_inv s'"
  using assms
proof (induction rule: broker_step.induct)
  case (arrive s cn p l b)
  then show ?case by (simp add: broker_inv_arrive)
next
  case (served s xs p ys)
  then show ?case using broker_seats.left [of _ xs p ys] by (auto simp: broker_inv_def)
next
  case (served_free s n a)
  then show ?case using broker_seats.freed [of "br_admission (bs_broker s)" "bs_serving s" n] by (auto simp: broker_inv_def)
next
  case (probed s xs p ys c)
  then show ?case using broker_seats.left [of _ xs p ys] by (auto simp: broker_inv_def)
next
  case (probed_free s n c c')
  then show ?case using broker_seats.freed [of c "bs_probing s" n] by (auto simp: broker_inv_def)
qed (auto simp: broker_inv_def)

lemma broker_reach_inv: "broker_reach E s \<Longrightarrow> broker_inv s"
proof (induction rule: broker_reach.induct)
  case reach_start
  show ?case using seats_new by (simp add: broker_inv_def start_broker_def new_broker_def)
qed (auto intro: broker_inv_step)

section \<open>What an answer can be\<close>

definition receive_statuses :: "string set" where
  "receive_statuses = {''TRANSPORT_ACCEPTED'', ''PRE_EFFECT_REJECTED'', ''UNKNOWN_DELIVERY''}"

definition has_receive_status :: "dict \<Rightarrow> bool" where
  "has_receive_status a \<longleftrightarrow> (\<exists>st \<in> receive_statuses. jget a ''status'' = Some (JStr (lit st)))"

lemma receive_reply_answer: "receive_reply event t rs response = Inr a \<Longrightarrow> has_receive_status a"
  by (auto simp: receive_reply_def Let_def has_receive_status_def receive_statuses_def dest!: diagnostic_status
      split: option.splits if_splits)

lemma callback_answer_status: "callback_answer t event out = Inr a \<Longrightarrow> has_receive_status a"
  by (cases out) (auto simp: callback_answer_def has_receive_status_def receive_statuses_def)

lemma accept_external_status:
  assumes "accept_external E h cb d t body event sa sg timeout locks = Inr a"
  shows "has_receive_status a"
proof -
  have case_opt: "(case y of None \<Rightarrow> fail m | Some x \<Rightarrow> f x) = Inr a \<Longrightarrow> \<exists>x. f x = Inr a" for y m and f :: "endpoint \<Rightarrow> dict res"
    by (cases y) auto
  from assms obtain i out where "callback_answer t i out = Inr a"
    unfolding accept_external_def bind_Inr_iff Let_def
    by (auto dest!: case_opt simp: bind_Inr_iff split: if_splits)
  then show ?thesis by (rule callback_answer_status)
qed

lemma hand_over_status:
  assumes "hand_over E rc deadline d t m event sa sg = Some (Inr a)"
  shows "has_receive_status a"
proof (cases "p_provider t = ExternalPeer")
  case True
  with assms show ?thesis by (auto simp: hand_over_def bind_Inr_iff dest!: accept_external_status)
next
  case False
  with assms obtain rs out where "receive_outcome event t rs out = Inr a"
    by (auto simp: hand_over_def split: sum.splits)
  then show ?thesis by (auto simp: receive_outcome_def dest: receive_reply_answer split: sent.splits)
qed

lemma decided_status: "decided event p r = Inr a \<Longrightarrow> (\<And>x. r = Inr x \<Longrightarrow> has_receive_status x) \<Longrightarrow> has_receive_status a"
  by (auto simp: decided_def has_receive_status_def receive_statuses_def split: sum.splits if_splits)

lemma receive_remote_status:
  assumes "receive_remote E rc d tx addr = Some (Inr a)"
  shows "has_receive_status a"
proof (cases "bind (valid_tailnet_address addr) (\<lambda>address. bind (parse_remote_envelope E tx) (\<lambda>envelope. Inr (address, envelope)))")
  case (Inl e)
  with assms show ?thesis by (simp add: receive_remote_def)
next
  case (Inr y)
  obtain address event sa sg ta g m where y: "y = (address, event, sa, sg, ta, g, m)" by (cases y) auto
  define outcome where "outcome =
    (case admitted_target E rc d address (event, sa, sg, ta, g, m) of
       Inl e \<Rightarrow> Some (Inl e)
     | Inr t \<Rightarrow> hand_over E rc (rc_clock rc + AUTHORIZE_TIMEOUT_SECONDS + ACCEPT_TIMEOUT_SECONDS) (rc_others rc d) t m event sa sg)"
  have "map_option (decided event (takeWhile (\<lambda>c. c \<noteq> 64) ta)) outcome = Some (Inr a)"
    using assms unfolding receive_remote_def Inr y Let_def outcome_def
    by (simp only: sum.case prod.case fail_def option.inject sum.distinct split: if_split_asm)
  then obtain r where "outcome = Some r" "decided event (takeWhile (\<lambda>c. c \<noteq> 64) ta) r = Inr a" by auto
  moreover from this(1) have "r = Inr x \<Longrightarrow> has_receive_status x" for x
    by (auto simp: outcome_def dest: hand_over_status split: sum.splits)
  ultimately show ?thesis using decided_status by blast
qed

text \<open>An answer of a handler, by the kind of request.\<close>

definition authorization_answer :: "dict \<Rightarrow> bool" where
  "authorization_answer a \<longleftrightarrow> (\<exists>st e sa sg tk tg digest. a = authorization st e sa sg tk tg digest)"

lemma peers_answer:
  "peers E ls d include_remote True rd handle None = Inr a \<Longrightarrow> \<exists>xs. a = [(lit ''schema_version'', JInt SCHEMA_VERSION), (lit ''peers'', xs)]"
  unfolding peers_def Let_def by (auto simp: bind_Inr_iff split: if_splits)

lemma inspect_answer:
  assumes "inspect_remote_receiving E w d i k g = Inr a"
  shows "jget a ''status'' = Some (JStr (lit ''INSPECTED''))"
proof -
  from assms obtain seen where "a = inspected i seen"
    by (auto simp: inspect_remote_receiving_def bind_Inr_iff inspected_def valid_uuid_iff split: if_splits)
  then show ?thesis by (simp add: inspected_def)
qed

lemma strs_of_length: "strs_of request ks = Some ss \<Longrightarrow> length ss = length ks"
  by (induction ks arbitrary: ss) (auto split: option.splits)

lemma broker_authorizeD:
  assumes "broker_authorize E bw d request peer = Inr (a, d')"
  obtains e sa sg tk tg digest where "authorize_remote E (bw_now bw) d e sa sg tk tg digest = Inr (a, d')"
    "strs_of request authorization_fields = Some [e, sa, sg, tk, tg, digest]" "tailnet_shape peer"
proof -
  from assms have t: "tailnet_shape peer"
    "(case strs_of request authorization_fields of
        Some [e, sa, sg, tk, tg, digest] \<Rightarrow> authorize_remote E (bw_now bw) d e sa sg tk tg digest
      | _ \<Rightarrow> bad_request) = Inr (a, d')"
    by (auto simp: broker_authorize_def bind_Inr_iff bad_request_def valid_simps split: if_splits)
  then obtain ss where ss: "strs_of request authorization_fields = Some ss" by (cases "strs_of request authorization_fields") (auto simp: bad_request_def)
  then have "length ss = 6" using strs_of_length [OF ss] by (simp add: authorization_fields_def)
  then obtain e sa sg tk tg digest where "ss = [e, sa, sg, tk, tg, digest]" by (auto simp: numeral_eq_Suc length_Suc_conv)
  with t ss that show thesis by simp
qed

lemma broker_inspect_status:
  assumes "broker_inspect E bw d request peer = Inr a"
  shows "jget a ''status'' = Some (JStr (lit ''INSPECTED''))"
proof -
  let ?ks = "[''event_id'', ''target_key'', ''target_generation'']"
  from assms have c: "(case strs_of request ?ks of
        Some [i, k, g] \<Rightarrow> inspect_remote_receiving E (bw_watch bw) d i k g | _ \<Rightarrow> bad_request) = Inr a"
    by (auto simp: broker_inspect_def bind_Inr_iff bad_request_def simp del: strs_of.simps split: if_splits)
  then obtain ss where ss: "strs_of request ?ks = Some ss" by (cases "strs_of request ?ks") (auto simp: bad_request_def)
  then have "length ss = 3" using strs_of_length [OF ss] by simp
  then obtain i k g where "ss = [i, k, g]" by (auto simp: numeral_eq_Suc length_Suc_conv)
  with c ss show ?thesis by (auto dest: inspect_answer simp del: strs_of.simps)
qed

lemma operation_of_authorize: "operation_of request = AuthorizeOp \<Longrightarrow> field_is request ''operation'' (lit ''authorize'')"
  by (auto simp: operation_of_def Let_def split: if_splits)

text \<open>
  What a handled request can be answered with: only an authorization changes the directory, and only
  its answer can speak of an authorization.
\<close>

lemma handled_cases:
  assumes "handle_broker_request E bw d raw peer = Some (Inr a, d')"
  obtains (other) st where "d' = d" "jget a ''status'' = Some (JStr (lit st))"
      "st \<in> {''READY'', ''INSPECTED''} \<union> receive_statuses"
  | (roster) xs where "d' = d" "a = [(lit ''schema_version'', JInt SCHEMA_VERSION), (lit ''peers'', xs)]"
  | (authorized) request e sa sg tk tg digest where "raw = JObj request" "field_is request ''operation'' (lit ''authorize'')"
      "authorize_remote E (bw_now bw) d e sa sg tk tg digest = Inr (a, d')" "tailnet_shape peer"
proof -
  obtain request where raw: "raw = JObj request" using assms by (cases raw) (auto simp: handle_broker_request_def bad_request_def)
  note h = assms [unfolded raw handle_broker_request_def json.case]
  show thesis
  proof (cases "operation_of request")
    case HealthOp
    with h show ?thesis using other [of "''READY''"] by (auto simp: broker_health_def bad_request_def split: if_splits)
  next
    case PeersOp
    with h show ?thesis using roster
      by (auto simp: broker_peers_def bind_Inr_iff bad_request_def Let_def dest!: peers_answer split: if_splits)
  next
    case InspectOp
    with h show ?thesis using other [of "''INSPECTED''"] broker_inspect_status [of E bw d request peer a] by auto
  next
    case AuthorizeOp
    with h have "broker_authorize E bw d request peer = Inr (a, d')" by (auto split: sum.splits)
    then show ?thesis using operation_of_authorize [OF AuthorizeOp] authorized [OF raw] broker_authorizeD by metis
  next
    case ReceiveOp
    with h have r: "broker_receive E bw d request peer = Some (Inr a)" "d' = d" by auto
    from r(1) have "has_receive_status a"
      by (auto simp: broker_receive_def bad_request_def dest: receive_remote_status
          split: if_splits option.splits json.splits sum.splits)
    then show ?thesis using r(2) other by (auto simp: has_receive_status_def)
  next
    case InvalidOp
    with h show ?thesis by (simp add: bad_request_def)
  qed
qed

section \<open>Looking without consuming\<close>

definition decided_peek :: "bytes \<Rightarrow> bool" where
  "decided_peek b \<longleftrightarrow> 10 \<in> set b \<or> WIRE_FRAME_BYTES < length b"

definition peek_ends :: "connection \<Rightarrow> nat \<Rightarrow> (bytes option \<times> nat) option \<Rightarrow> bool" where
  "peek_ends cn bound r \<longleftrightarrow>
     (\<exists>out m. r = Some (out, m) \<and> m \<le> bound \<and>
        (\<forall>b. out = Some b \<longrightarrow> decided_peek b \<and> (\<exists>k. b = peek_bytes cn k)))"

lemma peek_endsI: "m \<le> bound \<Longrightarrow> peek_ends cn bound (Some (None, m))"
  by (simp add: peek_ends_def)

text \<open>
  Every look but the last either finds more bytes, of which there are at most 65536, or is followed
  by a pause of at least five milliseconds, so the loop ends.
\<close>

lemma peek_loop_ends:
  assumes "PEEK_STALL_WAIT_MIN_SECONDS \<le> stall" "deadline - now \<le> of_nat k * PEEK_STALL_WAIT_MIN_SECONDS"
    and "\<exists>j. buffered = peek_bytes cn j" "g + k = rest" "65536 \<le> g + length buffered"
  shows "peek_ends cn (n + rest) (look_loop cn deadline now stall n buffered)"
  using assms
proof (induction rest arbitrary: now stall n buffered g k)
  case 0
  then have "length buffered = 65536" "k = 0" by (auto simp: peek_bytes_def)
  with 0 show ?case by (subst look_loop.simps) (auto simp: peek_ends_def decided_peek_def)
next
  case (Suc rest)
  let ?p = "cn_peeks cn n"
  let ?now = "after now (pk_took ?p)"
  have now: "now \<le> ?now" by (rule after_le)
  show ?case
  proof (cases "decided_peek buffered \<or> deadline - now \<le> 0")
    case True
    with Suc.prems(3) show ?thesis by (subst look_loop.simps) (auto simp: peek_ends_def decided_peek_def)
  next
    case open_: False
    show ?thesis
    proof (cases "pk_size ?p")
      case None
      with open_ show ?thesis by (subst look_loop.simps) (auto simp: decided_peek_def Let_def intro!: peek_endsI)
    next
      case (Some j)
      consider (eof) "peek_bytes cn j = []" | (grown) "length buffered < length (peek_bytes cn j)"
        | (late) "peek_bytes cn j \<noteq> []" "\<not> length buffered < length (peek_bytes cn j)" "deadline - ?now \<le> 0"
        | (stalled) "peek_bytes cn j \<noteq> []" "\<not> length buffered < length (peek_bytes cn j)" "\<not> deadline - ?now \<le> 0" by auto
      then show ?thesis
      proof cases
        case eof
        with open_ Some show ?thesis by (subst look_loop.simps) (auto simp: decided_peek_def Let_def intro!: peek_endsI)
      next
        case grown
        then have ne: "peek_bytes cn j \<noteq> []" by auto
        have "length (peek_bytes cn j) \<le> 65536" by (simp add: peek_bytes_def)
        with grown Suc.prems(4,5) obtain g' where g: "g' + k = rest" "65536 \<le> g' + length (peek_bytes cn j)"
        proof (cases "g = 0")
          case False
          then show thesis using that [of "g - 1"] grown Suc.prems(4,5) by simp
        qed auto
        have "peek_ends cn (Suc n + rest) (look_loop cn deadline ?now PEEK_STALL_WAIT_MIN_SECONDS (Suc n) (peek_bytes cn j))"
          using now Suc.prems(2) g by (intro Suc.IH) auto
        with open_ Some ne grown show ?thesis by (subst look_loop.simps) (simp add: decided_peek_def Let_def)
      next
        case late
        with open_ Some show ?thesis by (subst look_loop.simps) (auto simp: decided_peek_def Let_def intro!: peek_endsI)
      next
        case stalled
        let ?later = "after (?now + min stall (deadline - ?now)) (pk_overslept ?p)"
        have k: "k \<noteq> 0" using open_ Suc.prems(2) by (cases k) auto
        have later: "?now + min stall (deadline - ?now) \<le> ?later" by (rule after_le)
        have "deadline - ?later \<le> of_nat (k - 1) * PEEK_STALL_WAIT_MIN_SECONDS"
        proof (cases "stall \<le> deadline - ?now")
          case True
          with later now Suc.prems(1) have "now + PEEK_STALL_WAIT_MIN_SECONDS \<le> ?later" by simp
          then show ?thesis using Suc.prems(2) k by (simp add: of_nat_diff algebra_simps)
        next
          case False
          then have "deadline \<le> ?later" using later by simp
          moreover have "0 \<le> of_nat (k - 1) * PEEK_STALL_WAIT_MIN_SECONDS" by (simp add: PEEK_STALL_WAIT_MIN_SECONDS_def)
          ultimately show ?thesis by simp
        qed
        moreover have "PEEK_STALL_WAIT_MIN_SECONDS \<le> min (stall * 2) PEEK_STALL_WAIT_MAX_SECONDS"
          using Suc.prems(1) by (simp add: PEEK_STALL_WAIT_MIN_SECONDS_def PEEK_STALL_WAIT_MAX_SECONDS_def)
        ultimately have "peek_ends cn (Suc n + rest)
            (look_loop cn deadline ?later (min (stall * 2) PEEK_STALL_WAIT_MAX_SECONDS) (Suc n) buffered)"
          using k Suc.prems by (intro Suc.IH [where g = g and k = "k - 1"]) auto
        with open_ Some stalled show ?thesis by (subst look_loop.simps) (simp add: decided_peek_def Let_def)
      qed
    qed
  qed
qed

lemma peek_loop_returns:
  "peek_ends cn 66536 (look_loop cn (cn_clock cn + PEEK_REQUEST_DEADLINE_SECONDS) (cn_clock cn) PEEK_STALL_WAIT_MIN_SECONDS 0 [])"
proof -
  have "[] = peek_bytes cn 0" by (simp add: peek_bytes_def)
  then have "\<exists>j. [] = peek_bytes cn j" by blast
  from peek_loop_ends [OF _ _ this, of PEEK_STALL_WAIT_MIN_SECONDS "cn_clock cn + PEEK_REQUEST_DEADLINE_SECONDS" "cn_clock cn" 1000 65536 66536 0]
  show ?thesis by (simp add: PEEK_REQUEST_DEADLINE_SECONDS_def PEEK_STALL_WAIT_MIN_SECONDS_def)
qed

lemma first_line_append: "10 \<notin> set f \<Longrightarrow> first_line (f @ 10 # r) = f"
  by (induction f) (auto simp: first_line_def)

lemma first_line_peek: "10 \<in> set (peek_bytes cn k) \<Longrightarrow> first_line (peek_bytes cn k) = first_line (available (cn_events cn))"
  using takeWhile_append1 [of 10 "peek_bytes cn k" "\<lambda>c. c \<noteq> 10" "drop (min 65536 k) (available (cn_events cn))"]
  by (simp add: first_line_def peek_bytes_def)

lemma parse_peekedD:
  "parse_peeked E b = Inr (Some request) \<Longrightarrow> 10 \<in> set b \<and> loads_bytes E (first_line b) = Inr (JObj request)"
  by (auto simp: parse_peeked_def split: if_splits sum.splits json.splits)

text \<open>The request that was peeked at is the one that is read.\<close>

lemma peeked_is_read:
  assumes "peeked_request E cn = Some (Inr (Some request))" "broker_frame E (cn_events cn) = Inr raw"
  shows "raw = JObj request"
proof -
  from assms(1) obtain b n where loop: "look_loop cn (cn_clock cn + PEEK_REQUEST_DEADLINE_SECONDS) (cn_clock cn)
      PEEK_STALL_WAIT_MIN_SECONDS 0 [] = Some (Some b, n)" "parse_peeked E b = Inr (Some request)"
    by (auto simp: peeked_request_def split: option.splits)
  obtain k where b: "b = peek_bytes cn k" using peek_loop_returns [of cn] by (auto simp: peek_ends_def loop(1))
  from assms(2) obtain f where f: "read_frame WIRE_FRAME_BYTES (cn_events cn) = Inr f"
    "except_chat is_decode_error ''Tailnet broker request is invalid'' (loads_bytes E f) = Inr raw"
    by (auto simp: broker_frame_def bind_Inr_iff)
  obtain r where r: "available (cn_events cn) = f @ 10 # r" "10 \<notin> set f"
    using read_frame_sound [OF f(1)] by blast
  then have "first_line (available (cn_events cn)) = f" by (simp add: first_line_append)
  with parse_peekedD [OF loop(2)] first_line_peek [of cn k] b have "loads_bytes E f = Inr (JObj request)" by simp
  with f(2) show ?thesis by (simp add: except_chat_def)
qed

lemma peeked_request_returns: "\<exists>r. peeked_request E cn = Some r"
  using peek_loop_returns [of cn] by (auto simp: peeked_request_def peek_ends_def split: option.splits)

lemma broker_receive_returns: "\<exists>r. broker_receive E bw d request peer = Some r"
  using receive_remote_returns
  by (auto simp: broker_receive_def split: option.splits json.splits sum.splits)

lemma handle_returns: "\<exists>r d'. handle_broker_request E bw d raw peer = Some (r, d')"
proof (cases raw)
  case (JObj request)
  then show ?thesis using broker_receive_returns [of E bw d request peer]
    by (cases "operation_of request") (auto simp: handle_broker_request_def split: sum.splits)
qed (simp_all add: handle_broker_request_def)

section \<open>Requests the program itself sends\<close>

lemma jkeys_flag: "jkeys (flag k q) = insert (lit k) (jkeys q)"
  by (simp add: flag_def jkeys_def dict_put_keys)

lemma has_flag_flag [simp]: "has_flag (flag k q) j \<longleftrightarrow> j = k \<or> has_flag q j"
  by (auto simp: has_flag_def flag_def)

lemma flag_ok:
  assumes "peers_request_ok q" "k \<in> set include_flags" "k \<in> set layered_flags \<Longrightarrow> has_flag q ''include_delivery_mode''"
  shows "peers_request_ok (flag k q)"
proof -
  have k: "k \<noteq> ''handle''" "k \<noteq> ''schema_version''" "k \<noteq> ''operation''" "lit k \<in> keyset (include_flags @ [''handle''])"
    using assms(2) by (auto simp: include_flags_def layered_flags_def keyset_def)
  have "jget (flag k q) ''handle'' = jget q ''handle''" "jget (flag k q) ''schema_version'' = jget q ''schema_version''"
    using k by (simp_all add: flag_def)
  moreover have "list_all (\<lambda>j. has_flag (flag k q) j \<longrightarrow> jget (flag k q) j = Some (JBool True)) include_flags"
    using assms(1) by (auto simp: peers_request_ok_def list_all_iff flag_def has_flag_def)
  moreover have "jkeys (flag k q) - keyset [''schema_version'', ''operation''] \<subseteq> keyset (include_flags @ [''handle''])"
    using assms(1) k(4) by (auto simp: peers_request_ok_def jkeys_flag)
  ultimately show ?thesis
    using assms by (auto simp: peers_request_ok_def field_eq_int_def list_ex_iff)
qed

lemma flag_if_ok:
  "peers_request_ok q \<Longrightarrow> k \<in> set include_flags \<Longrightarrow> k \<notin> set layered_flags \<Longrightarrow> peers_request_ok (flag_if b k q)"
  by (auto simp: flag_if_def intro: flag_ok)

lemma has_flag_flag_if [simp]: "has_flag (flag_if b k q) j \<longleftrightarrow> b \<and> j = k \<or> has_flag q j"
  by (simp add: flag_if_def)

lemma has_flag_with_handle [simp]: "j \<noteq> ''handle'' \<Longrightarrow> has_flag (with_handle h q) j \<longleftrightarrow> has_flag q j"
  by (simp add: has_flag_def with_handle_def split: option.splits)

lemma with_handle_ok:
  assumes "peers_request_ok q" "\<And>h. handle = Some h \<Longrightarrow> hex64 h"
  shows "peers_request_ok (with_handle handle q)"
proof (cases handle)
  case (Some h)
  have flags: "''handle'' \<notin> set layered_flags" "''handle'' \<notin> set include_flags"
    by (simp_all add: include_flags_def layered_flags_def)
  let ?q = "with_handle (Some h) q"
  have q: "?q = dict_put q (lit ''handle'') (JStr h)" by (simp add: with_handle_def)
  have "list_ex (has_flag ?q) layered_flags \<longleftrightarrow> list_ex (has_flag q) layered_flags"
    using flags(1) by (auto simp: list_ex_iff) (metis has_flag_with_handle)+
  moreover have "list_all (\<lambda>j. has_flag ?q j \<longrightarrow> jget ?q j = Some (JBool True)) include_flags"
    using flags(2) assms(1) by (auto simp: peers_request_ok_def list_all_iff has_flag_def q)
  moreover have "jkeys ?q = insert (lit ''handle'') (jkeys q)" by (simp add: q jkeys_def dict_put_keys)
  moreover have "has_flag ?q ''include_delivery_mode'' = has_flag q ''include_delivery_mode''" by simp
  moreover have "jget ?q ''handle'' = Some (JStr h)" "jget ?q ''schema_version'' = jget q ''schema_version''" by (simp_all add: q)
  ultimately show ?thesis
    using assms Some by (auto simp: peers_request_ok_def field_eq_int_def keyset_def)
qed (use assms in \<open>simp add: with_handle_def\<close>)

lemma legacy_query_ok: "peers_request_ok legacy_query"
  by (auto simp: peers_request_ok_def legacy_query_def jkeys_def keyset_def has_flag_def layered_flags_def include_flags_def
      field_eq_int_def)

lemma has_flag_legacy [simp]: "has_flag legacy_query k \<longleftrightarrow> k = ''schema_version'' \<or> k = ''operation''"
  by (auto simp: has_flag_def legacy_query_def)

text \<open>The flags of the base shapes are no layered ones.\<close>

lemma plain_flags:
  "''include_external'' \<in> set include_flags" "''include_devin'' \<in> set include_flags" "''include_delivery_mode'' \<in> set include_flags"
  "''include_external'' \<notin> set layered_flags" "''include_devin'' \<notin> set layered_flags" "''include_delivery_mode'' \<notin> set layered_flags"
  "set layered_flags \<subseteq> set include_flags"
  by (auto simp: include_flags_def layered_flags_def)

lemma base_variant:
  assumes "(q, m) \<in> set (base_variants rd handle)" "\<And>h. handle = Some h \<Longrightarrow> hex64 h"
  shows "peers_request_ok q" "has_flag q ''include_delivery_mode'' = m" "\<forall>k \<in> set layered_flags. \<not> has_flag q k"
    "rd_devin rd \<or> \<not> has_flag q ''include_devin''" "rd_external rd \<or> \<not> has_flag q ''include_external''"
  using assms
  by (auto simp: base_variants_def plain_flags layered_flags_def intro!: flag_ok flag_if_ok with_handle_ok legacy_query_ok
      split: if_splits)

text \<open>Every shape of the negotiation.\<close>

lemma query_variant:
  assumes "(q, m) \<in> set (query_variants rd handle)" "\<And>h. handle = Some h \<Longrightarrow> hex64 h"
  shows "peers_request_ok q \<and> variant_reader rd (q, m) = (broker_reader q)\<lparr>rd_devin := rd_devin rd, rd_external := rd_external rd\<rparr> \<and>
    (rd_devin rd \<or> \<not> rd_devin (broker_reader q)) \<and> (rd_external rd \<or> \<not> rd_external (broker_reader q))"
proof -
  have base: "?thesis" if b: "(q, m) \<in> set (base_variants rd handle)"
    using base_variant [OF b assms(2)]
    by (auto simp: variant_reader_def broker_reader_def Let_def layered_flags_def)
  show ?thesis
  proof (cases "(q, m) \<in> set (base_variants rd handle)")
    case False
    with assms(1) obtain b where b: "(b, True) \<in> set (base_variants rd handle)"
      and shape: "(q, m) \<in> set (mechanism_shapes rd (flag ''include_owning_daemon'' (flag ''include_delivery_mechanism'' b)))"
      by (auto simp: query_variants_def Let_def split: if_splits)
    note bv = base_variant [OF b assms(2)]
    have mode: "has_flag b ''include_delivery_mode''" using bv(2) by simp
    have ok: "k \<in> set layered_flags \<Longrightarrow> peers_request_ok x \<Longrightarrow> has_flag x ''include_delivery_mode'' \<Longrightarrow> peers_request_ok (flag k x)" for k x
      using flag_ok plain_flags(7) by blast
    have "peers_request_ok q"
      using shape bv(1) mode
      by (auto simp: mechanism_shapes_def Let_def layered_flags_def intro!: ok split: if_splits)
    moreover have "m" using shape by (auto simp: mechanism_shapes_def Let_def split: if_splits)
    ultimately show ?thesis
      using shape bv(3-5) mode
      by (auto simp: mechanism_shapes_def Let_def variant_reader_def broker_reader_def layered_flags_def split: if_splits)
  qed (rule base)
qed

lemma flag_get [simp]:
  "k \<noteq> j \<Longrightarrow> jget (flag k q) j = jget q j" "k \<noteq> j \<Longrightarrow> jget (flag_if b k q) j = jget q j"
  by (auto simp: flag_def flag_if_def)

lemma with_handle_get: "j \<noteq> ''handle'' \<Longrightarrow> jget (with_handle h q) j = jget q j"
  "jget (with_handle h q) ''handle'' = (case h of None \<Rightarrow> jget q ''handle'' | Some x \<Rightarrow> Some (JStr x))"
  by (auto simp: with_handle_def split: option.splits)

lemma query_variant_get:
  assumes "(q, m) \<in> set (query_variants rd handle)"
  shows "jget q ''operation'' = Some (JStr (lit ''peers''))" "jget q ''handle'' \<in> {None, map_option JStr handle}"
proof -
  have base: "jget q ''operation'' = Some (JStr (lit ''peers''))" "jget q ''handle'' = None \<or> jget q ''handle'' = map_option JStr handle"
    if "(q, m) \<in> set (base_variants rd handle)" for q m
    using that by (cases handle; auto simp: base_variants_def with_handle_get legacy_query_def split: if_splits)+
  obtain b m' where b: "(b, m') \<in> set (base_variants rd handle)" and
    "jget q ''operation'' = jget b ''operation''" "jget q ''handle'' = jget b ''handle''"
    using assms by (auto simp: query_variants_def mechanism_shapes_def Let_def split: if_splits)
  then show "jget q ''operation'' = Some (JStr (lit ''peers''))" "jget q ''handle'' \<in> {None, map_option JStr handle}"
    using base [OF b] by auto
qed

section \<open>Properties\<close>

text \<open>
  C36. A capacity refusal means that nothing happened. Whatever lane a connection takes, if the frame
  it is sent is the capacity refusal, then no handler ran: the state directory is unchanged, and the
  outcome is the same whatever a handler would have met.
\<close>

theorem capacity_refusal_no_effect:
  assumes "run_lane E bw d cn peer l = Some (Inr (Some a), d')" and "at_capacity a"
  shows "d' = d \<and> (\<forall>bw'. run_lane E bw' d cn peer l = Some (Inr (Some a), d))"
proof -
  have entry: "\<exists>w. map_of BROKER_CAPACITY_REFUSAL k = Some w \<and> py_eq v w" if "(k, v) \<in> set a" for k v
    using assms(2) that by (force simp: at_capacity_def split: option.splits)
  have handled: False if "handle_broker_request E bw d raw peer = Some (Inr a, d')" for raw
    using that
  proof (cases rule: handled_cases)
    case (other st)
    then have "(lit ''status'', JStr (lit st)) \<in> set a" by (auto dest: map_of_SomeD)
    from entry [OF this] other(3) show ?thesis by (auto simp: BROKER_CAPACITY_REFUSAL_def receive_statuses_def)
  next
    case (roster xs)
    then show ?thesis using entry [of "lit ''peers''" xs] by (auto simp: BROKER_CAPACITY_REFUSAL_def)
  next
    case (authorized request e sa sg tk tg digest)
    then have "\<exists>x. (lit ''event_id'', x) \<in> set a"
      by (auto simp: authorize_remote_def bind_Inr_iff authorization_def)
    then show ?thesis using entry by (fastforce simp: BROKER_CAPACITY_REFUSAL_def)
  qed
  have served: False if "serve_broker_connection E bw d (cn_events cn) peer = Some (r, d')" "r = Inr a" for r
    using that handled by (auto simp: serve_broker_connection_def split: sum.splits)
  show ?thesis
  proof (cases l)
    case Serve
    with assms(1) served show ?thesis by (auto simp: run_lane_def bind_Inr_iff)
  next
    case Probe
    with assms(1) show ?thesis using served
      by (auto simp: run_lane_def probe_broker_connection_def bind_Inr_iff split: option.splits sum.splits if_splits)
  qed (use assms(1) in \<open>auto simp: run_lane_def\<close>)
qed

text \<open>
  The reserve lane only authorizes. A probed connection always comes to an end, after at most
  66,536 looks at its buffer; and either no handler ran and nothing changed, or the request that was
  handled is the one on the wire and is an authorization.
\<close>

theorem reserve_lane_authorizes_only:
  "\<exists>r d'. probe_broker_connection E bw d cn peer = Some (r, d') \<and>
     (d' = d \<and> (\<forall>bw'. probe_broker_connection E bw' d cn peer = Some (r, d)) \<or>
      (\<exists>request q. broker_frame E (cn_events cn) = Inr (JObj request) \<and>
         field_is request ''operation'' (lit ''authorize'') \<and>
         handle_broker_request E bw d (JObj request) peer = Some (q, d') \<and> r = bind q (\<lambda>a. Inr (Some a))))"
proof -
  obtain p where p: "peeked_request E cn = Some p" using peeked_request_returns by blast
  show ?thesis
  proof (cases "\<exists>request. p = Inr (Some request) \<and> field_is request ''operation'' (lit ''authorize'')")
    case False
    then have "\<exists>r. \<forall>bw'. probe_broker_connection E bw' d cn peer = Some (r, d)"
      using p by (cases p) (auto simp: probe_broker_connection_def split: option.splits)
    then show ?thesis by blast
  next
    case True
    then obtain request where q: "p = Inr (Some request)" "field_is request ''operation'' (lit ''authorize'')" by blast
    have probe: "probe_broker_connection E bw' d cn peer =
        map_option (\<lambda>(r, d'). (bind r (\<lambda>a. Inr (Some a)), d')) (serve_broker_connection E bw' d (cn_events cn) peer)" for bw'
      using p q by (simp add: probe_broker_connection_def)
    show ?thesis
    proof (cases "broker_frame E (cn_events cn)")
      case (Inl e)
      then show ?thesis unfolding probe by (simp add: serve_broker_connection_def)
    next
      case (Inr raw)
      have raw: "raw = JObj request" using peeked_is_read p q(1) Inr by blast
      obtain r d' where "handle_broker_request E bw d raw peer = Some (r, d')" using handle_returns by blast
      then show ?thesis using q(2) Inr unfolding probe serve_broker_connection_def raw by auto
    qed
  qed
qed

text \<open>
  Every question of the negotiation is understood. A broker of this version accepts each of the
  shapes in which \<open>_remote_node_targets\<close> may ask, and answers it with the listing of exactly the
  columns the asker will accept for that shape.
\<close>

theorem broker_understands_queries:
  assumes "(q, m) \<in> set (query_variants rd handle)" and "\<And>h. handle = Some h \<Longrightarrow> hex64 h" and "tailnet_shape peer"
  shows "\<exists>h. h \<in> {None, handle} \<and>
     handle_broker_request E bw d (JObj q) peer =
       Some (peers E (bw_listing bw h) d False True (broker_reader q) h None, d) \<and>
     variant_reader rd (q, m) = (broker_reader q)\<lparr>rd_devin := rd_devin rd, rd_external := rd_external rd\<rparr> \<and>
     (rd_devin rd \<or> \<not> rd_devin (broker_reader q)) \<and> (rd_external rd \<or> \<not> rd_external (broker_reader q))"
proof -
  note v = query_variant [OF assms(1,2)] and g = query_variant_get [OF assms(1)]
  have "operation_of q = PeersOp" using g(1) by (simp add: operation_of_def Let_def field_is_def)
  moreover have "valid_tailnet_address peer = Inr peer" using assms(3) by (simp add: valid_simps)
  moreover have "as_str (jget q ''handle'') \<in> {None, handle}" using g(2) by (cases handle) auto
  ultimately show ?thesis
    using v by (intro exI [of _ "as_str (jget q ''handle'')"]) (simp add: handle_broker_request_def broker_peers_def Let_def)
qed

definition sample_broker_world :: broker_world where
  "sample_broker_world = \<lparr>bw_pid = 7, bw_version = lit ''1'', bw_module = lit ''/m'', bw_listing = (\<lambda>_. sample_listing),
     bw_watch = sample_watch, bw_now = 1, bw_reception = sample_reception ''REFUSED''\<rparr>"

theorem broker_understands_queries_witness:
  "\<exists>h. h \<in> {None} \<and> handle_broker_request sample_env sample_broker_world empty_dir (JObj legacy_query) (lit ''100.64.0.2'') =
     Some (peers sample_env sample_listing empty_dir False True (broker_reader legacy_query) h None, empty_dir)"
proof -
  have "(legacy_query, False) \<in> set (query_variants sample_reader None)"
    by (simp add: query_variants_def base_variants_def Let_def sample_reader_def)
  from broker_understands_queries [OF this _ sample_addresses(2), of sample_env sample_broker_world empty_dir]
  show ?thesis by (simp add: sample_broker_world_def)
qed

definition authorizes :: "dict \<Rightarrow> str \<Rightarrow> bool" where
  "authorizes a e \<longleftrightarrow> field_is a ''status'' (lit ''AUTHORIZED'') \<and> field_is a ''event_id'' e"

lemma handled_authorizes:
  assumes "handle_broker_request E bw d raw peer = Some (Inr a, d')" "authorizes a e"
  shows "\<exists>sg sa tk tg digest. claim_remote_authorization E (bw_now bw) d e sg sa tk tg digest = Inr (True, d') \<and> tailnet_shape peer"
  using assms(1)
proof (cases rule: handled_cases)
  case (authorized request e' sa sg tk tg digest)
  then obtain b where b: "claim_remote_authorization E (bw_now bw) d e' sg sa tk tg digest = Inr (b, d')"
    "a = authorization (if b then ''AUTHORIZED'' else ''REFUSED'') e' sa sg tk tg digest" by (auto simp: authorize_remote_iff)
  with assms(2) have "b" "e' = e" by (auto simp: authorizes_def field_is_def authorization_def split: if_splits)
  then have "claim_remote_authorization E (bw_now bw) d e sg sa tk tg digest = Inr (True, d')" using b(1) by simp
  with authorized(4) show ?thesis by (intro exI conjI)
qed (use assms(2) in \<open>auto simp: authorizes_def field_is_def receive_statuses_def\<close>)

lemma run_lane_authorizes:
  assumes "run_lane E bw d cn peer l = Some (Inr (Some a), d')" "authorizes a e"
  shows "\<exists>sg sa tk tg digest. claim_remote_authorization E (bw_now bw) d e sg sa tk tg digest = Inr (True, d') \<and> tailnet_shape peer"
proof -
  have no: "\<not> authorizes BROKER_CAPACITY_REFUSAL e" by (simp add: authorizes_def BROKER_CAPACITY_REFUSAL_def field_is_def)
  have "serve_broker_connection E bw d (cn_events cn) peer = Some (Inr a, d')"
    using assms no
    by (cases l) (auto simp: run_lane_def probe_broker_connection_def bind_Inr_iff split: option.splits sum.splits if_splits)
  then obtain raw where "handle_broker_request E bw d raw peer = Some (Inr a, d')"
    by (auto simp: serve_broker_connection_def split: sum.splits)
  then show ?thesis using assms(2) by (rule handled_authorizes)
qed

text \<open>
  C37. A broker authorizes an event at most once. Once any connection in any lane was answered that an
  event is authorized, no later connection is, whatever requests and other processes come between;
  and the event was pending then, and the connection came from a tailnet address.
\<close>

theorem broker_authorizes_once:
  assumes "env_ok E" and "intents_inv E d"
    and "run_lane E bw d cn peer l = Some (Inr (Some a), d1)" and "authorizes a e"
    and "intent_steps E d1 d2"
    and "run_lane E bw' d2 cn' peer' l' = Some (Inr (Some a'), d3)"
  shows "\<not> authorizes a' e \<and> tailnet_shape peer \<and> (\<exists>i \<in> set (rows_of_dir E d). i_event_id i = e \<and> i_status i = PENDING)"
proof -
  from run_lane_authorizes [OF assms(3,4)] obtain sg sa tk tg digest where
    c: "claim_remote_authorization E (bw_now bw) d e sg sa tk tg digest = Inr (True, d1)" "tailnet_shape peer" by blast
  obtain i where i: "i \<in> set (rows_of_dir E d)" "i_status i = PENDING" "intent_core i = [e, i_source_key i, sg, sa, tk, tg, digest]"
    "left_pending e (rows_of_dir E d1)" "intents_inv E d1"
    by (rule claim_leaves_pending [OF assms(1,2) c(1)])
  have "\<not> authorizes a' e"
    using run_lane_authorizes [OF assms(6), of e] claim_spent [OF assms(1) i(5,4) assms(5)] by blast
  with c(2) i(1-3) show ?thesis by (auto simp: intent_core_def)
qed

definition sample_authorize_request :: dict where
  "sample_authorize_request = authorization_request (sample_uuid 51) (lit ''claude@mac:p'') (sample_uuid 49) (sample_hex64 98)
     (sample_uuid 50) (sample_hex64 48)"

definition sample_connection :: connection where
  "sample_connection = \<lparr>cn_events = [Data (json_line sample_env (JObj sample_authorize_request))], cn_ready = None,
     cn_peeks = (\<lambda>_. \<lparr>pk_size = None, pk_took = 0, pk_overslept = 0\<rparr>), cn_clock = 0\<rparr>"

lemma sample_authorize_frame:
  "broker_frame sample_env (cn_events sample_connection) = Inr (JObj sample_authorize_request)"
proof -
  have p: "plain True (JObj sample_authorize_request)" "texts sample_authorize_request"
    using sample_uuid_text [of 51] sample_uuid_text [of 50] sample_uuid_text [of 49] hex64_printable [OF sample_hex64_ok]
    by (auto simp: sample_authorize_request_def authorization_request_def SCHEMA_VERSION_def int_fits_small texts_def
        sample_hex_digits lit_printable)
  have ne: "sample_authorize_request \<noteq> []" by (simp add: sample_authorize_request_def authorization_request_def)
  have "sum_list (map entry_size sample_authorize_request) \<le> 65000"
    by (simp add: sample_authorize_request_def authorization_request_def entry_size_def sample_uuid_def sample_hex64_def)
  note len = small_line [OF p(2) this, of sample_env]
  have "json_line sample_env (JObj sample_authorize_request) \<noteq> []" by (simp add: json_line_def utf8_char_def)
  then have "bind (read_frame WIRE_FRAME_BYTES (cn_events sample_connection)) (loads_bytes sample_env) = Inr (JObj sample_authorize_request)"
    using frame_read_back [OF p(1) ne frame_bytes_line [OF p(1)] len, of "[json_line sample_env (JObj sample_authorize_request)]" "[]"]
    by (simp add: sample_connection_def)
  then show ?thesis by (auto simp: broker_frame_def bind_Inr_iff except_chat_def)
qed

lemma sample_authorize_handled:
  "handle_broker_request sample_env bw d (JObj sample_authorize_request) (lit ''100.64.0.2'') =
     Some (case authorize_remote sample_env (bw_now bw) d (sample_uuid 51) (lit ''claude@mac:p'') (sample_uuid 49) (sample_hex64 98)
             (sample_uuid 50) (sample_hex64 48) of Inl e \<Rightarrow> (Inl e, d) | Inr (a, d') \<Rightarrow> (Inr a, d'))"
proof -
  have "operation_of sample_authorize_request = AuthorizeOp"
    by (simp add: operation_of_def Let_def field_is_def sample_authorize_request_def authorization_request_def has_keys_def
        authorization_fields_def insert_commute)
  moreover have "strs_of sample_authorize_request authorization_fields =
      Some [sample_uuid 51, lit ''claude@mac:p'', sample_uuid 49, sample_hex64 98, sample_uuid 50, sample_hex64 48]"
    by (simp add: sample_authorize_request_def authorization_request_def authorization_fields_def)
  moreover have "field_eq_int sample_authorize_request ''schema_version'' SCHEMA_VERSION"
    by (simp add: sample_authorize_request_def authorization_request_def field_eq_int_def)
  moreover have "valid_tailnet_address (lit ''100.64.0.2'') = Inr (lit ''100.64.0.2'')"
    using sample_addresses(2) by (simp add: valid_simps)
  ultimately show ?thesis by (simp add: handle_broker_request_def broker_authorize_def)
qed

lemma sample_authorize_lane:
  "run_lane sample_env bw d sample_connection (lit ''100.64.0.2'') Serve =
     Some (case authorize_remote sample_env (bw_now bw) d (sample_uuid 51) (lit ''claude@mac:p'') (sample_uuid 49) (sample_hex64 98)
             (sample_uuid 50) (sample_hex64 48) of Inl e \<Rightarrow> (Inl e, d) | Inr (a, d') \<Rightarrow> (Inr (Some a), d'))"
  by (simp add: run_lane_def serve_broker_connection_def sample_authorize_frame sample_authorize_handled split: sum.splits)

theorem broker_authorizes_once_witness:
  "\<exists>d a d1 a' d3. run_lane sample_env sample_broker_world d sample_connection (lit ''100.64.0.2'') Serve = Some (Inr (Some a), d1) \<and>
     authorizes a (sample_uuid 51) \<and>
     run_lane sample_env sample_broker_world d1 sample_connection (lit ''100.64.0.2'') Serve = Some (Inr (Some a'), d3) \<and>
     \<not> authorizes a' (sample_uuid 51)"
proof -
  let ?al = "lit ''claude@mac:p''"
  obtain d i where inv: "intents_inv sample_env d" and r: "rows_of_dir sample_env d = [i]"
    "i_status i = PENDING" "intent_core i = [sample_uuid 51, sample_hex64 97, sample_uuid 49, ?al,
       sample_hex64 98, sample_uuid 50, sample_hex64 48]"
    by (rule sample_begin)
  have al: "name_shape sample_env ?al" using sample_begin_args by (simp add: begin_args_valid_def)
  note claim = claim_result [OF _ sample_uuid_shape sample_uuid_shape al sample_uuid_shape sample_hex64_ok sample_hex64_ok,
      of _ 51 49 50 98 48 1]
  obtain d1 where c1: "claim_remote_authorization sample_env 1 d (sample_uuid 51) (sample_uuid 49) ?al
      (sample_hex64 98) (sample_uuid 50) (sample_hex64 48) = Inr (True, d1)"
    using claim [of d] inv r by (auto simp: intents_inv_def sample_simps intent_core_def)
  obtain j where "intents_inv sample_env d1" by (rule claim_leaves_pending [OF sample_env_ok inv c1])
  then obtain b d3 where c2: "claim_remote_authorization sample_env 1 d1 (sample_uuid 51) (sample_uuid 49) ?al
      (sample_hex64 98) (sample_uuid 50) (sample_hex64 48) = Inr (b, d3)"
    using claim [of d1] by (auto simp: intents_inv_def sample_simps)
  let ?answer = "\<lambda>b. authorization (if b then ''AUTHORIZED'' else ''REFUSED'') (sample_uuid 51) ?al (sample_uuid 49) (sample_hex64 98)
      (sample_uuid 50) (sample_hex64 48)"
  have lane: "run_lane sample_env sample_broker_world x sample_connection (lit ''100.64.0.2'') Serve = Some (Inr (Some (?answer b)), y)"
    if "claim_remote_authorization sample_env 1 x (sample_uuid 51) (sample_uuid 49) ?al (sample_hex64 98) (sample_uuid 50)
      (sample_hex64 48) = Inr (b, y)" for x b y
  proof -
    have "authorize_remote sample_env 1 x (sample_uuid 51) ?al (sample_uuid 49) (sample_hex64 98) (sample_uuid 50) (sample_hex64 48) =
        Inr (?answer b, y)" using that by (auto simp: authorize_remote_iff)
    then show ?thesis unfolding sample_authorize_lane by (simp add: sample_broker_world_def)
  qed
  have a: "authorizes (?answer True) (sample_uuid 51)" by (simp add: authorizes_def field_is_def authorization_def)
  have refl: "intent_steps sample_env d1 d1" by simp
  from broker_authorizes_once [OF sample_env_ok inv lane [OF c1] a refl lane [OF c2]] lane [OF c1] lane [OF c2] a
  show ?thesis by blast
qed

text \<open>
  The broker's bounds hold. In every state a running broker reaches, at most 16 connections are
  served and 16 probed, at most two of each for one peer, and at most 16 are being refused, so each
  served or probed one has a worker of its own; giving a seat back never raises; a connection is
  served exactly when a seat is free for its peer; and it is closed without a word only when all 16
  refusals are in use.
\<close>

theorem broker_capacity:
  assumes "broker_reach E s"
  shows "length (bs_serving s) + bs_serving_left s \<le> 16 \<and> length (bs_probing s) + bs_probing_left s \<le> 16 \<and>
    count_list (bs_serving s) p \<le> 2 \<and> count_list (bs_probing s) p \<le> 2 \<and> bs_refusing s \<le> 16 \<and>
    (bs_serving_left s \<noteq> 0 \<longrightarrow> is_ok (release_capacity (br_admission (bs_broker s)))) \<and>
    (fst (dispatch_broker_connection E (bs_broker s) cn p) = Inr Serve \<longleftrightarrow>
       length (bs_serving s) + bs_serving_left s < 16 \<and> count_list (bs_serving s) p < 2) \<and>
    (fst (dispatch_broker_connection E (bs_broker s) cn p) = Inr Close \<longrightarrow> bs_refusing s = 16)"
proof -
  obtain c k where s: "seats_agree (br_admission (bs_broker s)) (bs_serving s) (bs_serving_left s)"
    "br_callbacks (bs_broker s) = Some c" "seats_agree c (bs_probing s) (bs_probing_left s)"
    "br_refusals (bs_broker s) = Some k" "k + bs_refusing s = 16"
    using broker_reach_inv [OF assms] by (auto simp: broker_inv_def MAX_BROKER_CONNECTIONS_def)
  note b = broker_seats.bounded [OF s(1), of p] broker_seats.bounded [OF s(3), of p]
  note bounds = b [unfolded MAX_BROKER_CONNECTIONS_def MAX_BROKER_CONNECTIONS_PER_PEER_def]
  have lanes: "fst (dispatch_broker_connection E (bs_broker s) cn p) = Inr l \<Longrightarrow>
      (l = Serve \<longleftrightarrow> fst (acquire (br_admission (bs_broker s)) p)) \<and> (l = Close \<longrightarrow> k = 0)" for l
    by (rule dispatch_cases [OF _ s(2), of E cn p l "snd (dispatch_broker_connection E (bs_broker s) cn p)"])
      (auto simp: prod_eq_iff refuse_overflow_def s(4) split: if_splits)
  have seat: "fst (acquire (br_admission (bs_broker s)) p) \<Longrightarrow> fst (dispatch_broker_connection E (bs_broker s) cn p) = Inr Serve"
    by (cases "acquire (br_admission (bs_broker s)) p") (simp add: dispatch_broker_connection_def)
  have "fst (acquire (br_admission (bs_broker s)) p) \<longleftrightarrow>
      length (bs_serving s) + bs_serving_left s < 16 \<and> count_list (bs_serving s) p < 2"
    using broker_seats.turned_away_iff [OF s(1), of p] bounds
    by (auto simp: MAX_BROKER_CONNECTIONS_def MAX_BROKER_CONNECTIONS_PER_PEER_def)
  moreover have "bs_serving_left s \<noteq> 0 \<longrightarrow> is_ok (release_capacity (br_admission (bs_broker s)))"
    using broker_seats.freed [of "br_admission (bs_broker s)" "bs_serving s"] s(1) by (cases "bs_serving_left s") fastforce+
  ultimately show ?thesis using bounds s(5) lanes seat by auto
qed

definition busy_broker :: broker_system where
  "busy_broker = start_broker\<lparr>bs_broker := (new_broker\<lparr>br_admission := snd (acquire new_admission (lit ''100.64.0.2''))\<rparr>),
     bs_serving := [lit ''100.64.0.2'']\<rparr>"

lemma busy_broker_reached: "broker_reach E busy_broker"
proof -
  have "dispatch_broker_connection E (bs_broker start_broker) sample_connection (lit ''100.64.0.2'') =
      (Inr Serve, new_broker\<lparr>br_admission := snd (acquire new_admission (lit ''100.64.0.2''))\<rparr>)"
    by (simp add: dispatch_broker_connection_def start_broker_def new_broker_def acquire_def new_admission_def active_def
        MAX_BROKER_CONNECTIONS_def MAX_BROKER_CONNECTIONS_PER_PEER_def)
  from reach_step [OF reach_start arrive [OF this]] show ?thesis by (simp add: busy_broker_def start_broker_def)
qed

theorem broker_capacity_witness:
  "length (bs_serving busy_broker) + bs_serving_left busy_broker \<le> 16 \<and>
   fst (dispatch_broker_connection sample_env (bs_broker busy_broker) sample_connection (lit ''100.64.0.2'')) = Inr Serve"
  using broker_capacity [OF busy_broker_reached, of "lit ''100.64.0.2''" sample_env sample_connection]
  by (simp add: busy_broker_def start_broker_def)

theorem capacity_refusal_no_effect_witness:
  "\<exists>a. at_capacity a \<and> run_lane sample_env sample_broker_world empty_dir sample_connection (lit ''100.64.0.2'') Refuse =
     Some (Inr (Some a), empty_dir)"
proof -
  have r: "run_lane sample_env sample_broker_world empty_dir sample_connection (lit ''100.64.0.2'') Refuse =
      Some (Inr (Some BROKER_CAPACITY_REFUSAL), empty_dir)" by (simp add: run_lane_def)
  have "at_capacity BROKER_CAPACITY_REFUSAL" by (simp add: at_capacity_def BROKER_CAPACITY_REFUSAL_def py_eq_int)
  with capacity_refusal_no_effect [OF r this] show ?thesis by blast
qed

text \<open>
  C39. The gap of the dispatcher. When a connection finds no seat, the dispatching thread itself parses
  what the peer has sent so far, and catches JSON and Unicode errors only: a line with one integer of
  4301 digits raises ValueError there, which ends the broker for every peer.
\<close>

theorem oversized_integer_ends_dispatch:
  assumes "\<not> fst (acquire (br_admission br) peer)"
    and "available (cn_events cn) = replicate 4301 49 @ 10 # rest" and "cn_ready cn = Some 4302"
  shows "dispatch_broker_connection E br cn peer = (Inl ValueError, br)"
proof -
  have b: "peek_bytes cn 4302 = replicate 4301 49 @ [10]" using assms(2) by (simp add: peek_bytes_def)
  have "10 \<notin> set (replicate 4301 (49 :: nat))" by simp
  from first_line_append [OF this, of "[]"] have "first_line (replicate 4301 49 @ [10]) = replicate 4301 49" by simp
  then have "parse_peeked E (peek_bytes cn 4302) = Inl ValueError"
    using loads_integer_limit [of "[]" E]
    by (simp add: parse_peeked_def b WIRE_FRAME_BYTES_def is_decode_error_def)
  with assms(3) have "ready_request E cn = Inl ValueError" by (simp add: ready_request_def)
  with assms(1) show ?thesis
    by (cases "acquire (br_admission br) peer") (simp add: dispatch_broker_connection_def)
qed

definition hostile_connection :: connection where
  "hostile_connection = sample_connection\<lparr>cn_events := [Data (replicate 4301 49 @ [10])], cn_ready := Some 4302\<rparr>"

definition full_broker :: broker where
  "full_broker = new_broker\<lparr>br_admission := \<lparr>ad_capacity = 0, ad_by_peer = (\<lambda>_. None)\<rparr>\<rparr>"

theorem oversized_integer_ends_dispatch_witness:
  "dispatch_broker_connection sample_env full_broker hostile_connection (lit ''100.64.0.2'') = (Inl ValueError, full_broker)"
  by (rule oversized_integer_ends_dispatch [where rest = "[]"])
    (simp_all add: full_broker_def new_broker_def acquire_def hostile_connection_def)

end
