(* ===== verification/Selection.thy ===== *)
theory Selection
  imports Roster Tailnet
begin

text \<open>
  What a send does before there is anything to deliver: the discovery of all peer devices
  (\<open>_remote_discovery\<close>, \<open>all_targets\<close>), and the choice of exactly one recipient by token, alias or
  title (\<open>send\<close>, \<open>send_local\<close>, \<open>_send_local_token_target\<close>, \<open>_send_remote_token_target\<close>) of runtime.py.
\<close>

section \<open>Discovery over the tailnet\<close>

definition REMOTE_DISCOVERY_TIMEOUT_SECONDS :: rat where
  "REMOTE_DISCOVERY_TIMEOUT_SECONDS = HEALTH_TIMEOUT_SECONDS + 5"

text \<open>
  What a send finds around it. \<open>su_local\<close> is what \<open>local_targets\<close> returns for a handle, \<open>su_titles\<close>
  what the app servers know; \<open>su_status\<close> and \<open>su_status_again\<close> what the status command prints for the
  discovery and for a remote token. The worker for a device begins at \<open>su_begin\<close> and meets
  \<open>su_node\<close>; \<open>su_order\<close> lists the devices in the order in which their workers were done before the
  deadline. The exact question to the device of a token begins at \<open>su_clock\<close> and meets \<open>su_again\<close>.
\<close>

record send_world =
  su_host :: host
  su_local :: "str option \<Rightarrow> target list res"
  su_titles :: "(str \<Rightarrow> str option) res"
  su_status :: "str option"
  su_start :: rat
  su_begin :: "str \<Rightarrow> rat"
  su_node :: "str \<Rightarrow> nat \<Rightarrow> attempt"
  su_order :: "str list"
  su_status_again :: "str option"
  su_clock :: rat
  su_again :: "nat \<Rightarrow> attempt"

text \<open>A refusal by one device makes the discovery incomplete; any other exception ends it.\<close>

fun gather :: "(str \<Rightarrow> (target list \<times> bool) res) \<Rightarrow> str list \<Rightarrow> target list \<Rightarrow> bool \<Rightarrow> (target list \<times> bool) res" where
  "gather answer [] targets whole = Inr (targets, whole)"
| "gather answer (n # ns) targets whole =
     (case answer n of
        Inr (ts, ok) \<Rightarrow> gather answer ns (targets @ ts) (whole \<and> ok)
      | Inl e \<Rightarrow> if is_chat_error e then gather answer ns targets False else Inl e)"

text \<open>A worker that never ends is one that is not in \<open>su_order\<close>.\<close>

definition node_answer :: "pyenv \<Rightarrow> send_world \<Rightarrow> reader \<Rightarrow> (str \<times> str) list \<Rightarrow> str \<Rightarrow> (target list \<times> bool) res" where
  "node_answer E su rd devices n =
     (case remote_node_targets E (su_node su n) rd (the (map_of devices n)) (Some n) None
             (su_start su + REMOTE_DISCOVERY_TIMEOUT_SECONDS) (su_begin su n) of
        None \<Rightarrow> Inr ([], False)
      | Some r \<Rightarrow> r)"

definition remote_discovery :: "pyenv \<Rightarrow> send_world \<Rightarrow> reader \<Rightarrow> tailnet_identity option \<Rightarrow> (target list \<times> bool) res" where
  "remote_discovery E su rd given =
     bind (case given of None \<Rightarrow> tailnet_identity_of E (su_status su) | Some i \<Rightarrow> Inr (Some i)) (\<lambda>found.
     case found of
       None \<Rightarrow> Inr ([], False)
     | Some i \<Rightarrow>
         if ti_peers i = [] then Inr ([], False)
         else
           let finished = filter (\<lambda>n. map_of (ti_peers i) n \<noteq> None) (su_order su) in
           bind (gather (node_answer E su rd (ti_peers i)) finished [] True) (\<lambda>(targets, whole).
           Inr (targets, whole \<and> list_all (\<lambda>(n, a). n \<in> set finished) (ti_peers i))))"

definition discovery_reader :: "bool \<Rightarrow> bool \<Rightarrow> bool \<Rightarrow> bool \<Rightarrow> reader" where
  "discovery_reader mode title devin external =
     \<lparr>rd_mode = mode, rd_mechanism = False, rd_title = title, rd_owning = False, rd_tool = False, rd_acp = False,
      rd_boundary = False, rd_devin = devin, rd_external = external\<rparr>"

definition remote_targets :: "pyenv \<Rightarrow> send_world \<Rightarrow> bool \<Rightarrow> bool \<Rightarrow> bool \<Rightarrow> bool \<Rightarrow> target list res" where
  "remote_targets E su mode title devin external =
     bind (remote_discovery E su (discovery_reader mode title devin external) None) (\<lambda>(ts, _). Inr ts)"

definition all_targets :: "pyenv \<Rightarrow> send_world \<Rightarrow> bool \<Rightarrow> bool \<Rightarrow> bool \<Rightarrow> target list res" where
  "all_targets E su include_remote mode title =
     bind (if include_remote
           then bind (su_local su None) (\<lambda>ls. bind (remote_targets E su mode title True False) (\<lambda>rs. Inr (ls @ rs)))
           else su_local su None) (\<lambda>targets.
     if \<not> distinct (map p_session_key targets) then fail ''peer discovery returned duplicate handles''
     else Inr (sorted_targets E targets))"

section \<open>The choice of the recipient\<close>

definition CHANGED_TEXT :: str where
  "CHANGED_TEXT = lit ''recipient is unavailable or changed; nothing was delivered; '' @
     lit ''call chat_peers and choose the recipient again''"

definition UNVERIFIED_TEXT :: str where
  "UNVERIFIED_TEXT = lit ''the selected recipient could not be verified; nothing was delivered; '' @
     lit ''call chat_peers and choose the recipient again''"

definition available_locally :: "pyenv \<Rightarrow> send_world \<Rightarrow> dir \<Rightarrow> bool \<Rightarrow> str option \<Rightarrow> target list res" where
  "available_locally E su d external handle =
     bind (su_local su handle) (\<lambda>native.
     if external then local_endpoint_targets E (h_uid (su_host su)) (h_wall (su_host su)) d native handle
     else Inr native)"

definition claims :: "recipient_token \<Rightarrow> target \<Rightarrow> bool" where
  "claims tok t \<longleftrightarrow> p_session_key t = t_handle tok \<and> p_generation t = t_generation tok"

definition local_token_target :: "pyenv \<Rightarrow> send_world \<Rightarrow> dir \<Rightarrow> bool \<Rightarrow> recipient_token \<Rightarrow> target res" where
  "local_token_target E su d external tok =
     bind (local_origin E (h_root (su_host su))) (\<lambda>origin.
     if t_origin tok \<noteq> Some origin
     then Inl (ChatError (lit ''recipient token was issued for a different state; '' @
            lit ''call chat_peers and choose the recipient again''))
     else
       bind (available_locally E su d external (Some (t_handle tok))) (\<lambda>targets.
       only_one (\<lambda>_. CHANGED_TEXT) (filter (claims tok) targets)))"

definition token_reader :: "bool \<Rightarrow> reader" where
  "token_reader external =
     \<lparr>rd_mode = True, rd_mechanism = True, rd_title = False, rd_owning = False, rd_tool = False, rd_acp = False,
      rd_boundary = True, rd_devin = True, rd_external = external\<rparr>"

text \<open>The target, and the node this device is; \<open>None\<close> would be a question that never ends.\<close>

definition remote_token_target ::
  "pyenv \<Rightarrow> send_world \<Rightarrow> rat \<Rightarrow> bool \<Rightarrow> recipient_token \<Rightarrow> (target \<times> str) res option" where
  "remote_token_target E su deadline external tok =
     (case t_node_id tok of
        None \<Rightarrow> Some (fail ''recipient token is invalid'')
      | Some node \<Rightarrow>
          (case tailnet_identity_of E (su_status_again su) of
             Inl e \<Rightarrow> Some (Inl e)
           | Inr None \<Rightarrow> Some (fail ''Tailscale is unavailable, so the selected recipient cannot be verified'')
           | Inr (Some seen) \<Rightarrow>
               (case map_of (ti_peers seen) node of
                  None \<Rightarrow>
                    Some (Inl (ChatError (lit ''the selected recipient'' @ 39 # lit ''s device is not on the tailnet; '' @
                      lit ''call chat_peers and choose the recipient again'')))
                | Some address \<Rightarrow>
                    (case ti_self_node_id seen of
                       None \<Rightarrow> Some (fail ''local Tailscale node identity is unavailable'')
                     | Some self \<Rightarrow>
                         map_option
                           (\<lambda>r. bind r (\<lambda>(attested, whole).
                              bind (only_one (\<lambda>_. if whole then CHANGED_TEXT else UNVERIFIED_TEXT) (filter (claims tok) attested))
                                (\<lambda>t. Inr (t, self))))
                           (remote_node_targets E (su_again su) (token_reader external) address (Some node) (Some (t_handle tok))
                              (min (su_clock su + REMOTE_DISCOVERY_TIMEOUT_SECONDS) deadline) (su_clock su))))))"

text \<open>An exact alias decides; only without one an exact title, and only if every title is known.\<close>

definition titled :: "target \<Rightarrow> bool" where
  "titled t \<longleftrightarrow> p_provider t = Native Codex \<or> p_provider t = ExternalPeer"

definition same_title :: "pyenv \<Rightarrow> target \<Rightarrow> str \<Rightarrow> bool" where
  "same_title E t query \<longleftrightarrow> (\<exists>title. p_title t = Some title \<and> casefold E title = casefold E query)"

definition NOT_EXACT_TEXT :: str where
  "NOT_EXACT_TEXT = lit ''recipient is not an exact handle, exact alias, or exact title of one discovered peer; '' @
     lit ''call chat_peers and choose the recipient''"

definition AMBIGUOUS_TEXT :: str where
  "AMBIGUOUS_TEXT = lit ''target is ambiguous or unavailable''"

definition exact_title :: "pyenv \<Rightarrow> target list \<Rightarrow> str \<Rightarrow> target res" where
  "exact_title E targets query =
     (let candidates = filter titled targets in
      if \<not> list_all (\<lambda>t. p_title t \<noteq> None) candidates
      then Inl (ChatError (lit ''recipient title metadata is incomplete; '' @
             lit ''use an exact available recipient handle or full alias''))
      else only_one (\<lambda>ts. if ts = [] then NOT_EXACT_TEXT else AMBIGUOUS_TEXT)
             (filter (\<lambda>t. same_title E t query) candidates))"

definition exact_target :: "pyenv \<Rightarrow> send_world \<Rightarrow> dir \<Rightarrow> bool \<Rightarrow> str \<Rightarrow> target res" where
  "exact_target E su d external query =
     bind (available_locally E su d external None) (\<lambda>native.
     bind (remote_discovery E su (discovery_reader False True True external) None) (\<lambda>(remote, whole).
     if \<not> whole then fail ''remote peer discovery is incomplete; use an exact available recipient handle''
     else
       let exact_aliases = filter (\<lambda>t. same_alias E t query) (native @ remote) in
       if exact_aliases \<noteq> [] then only_one (\<lambda>_. AMBIGUOUS_TEXT) exact_aliases
       else
         bind (su_titles su) (\<lambda>titles.
         exact_title E (with_codex_titles titles native @ remote) query)))"

section \<open>Sending\<close>

datatype choice = SendLocal target | SendRemote target str

definition opaque :: "'a res" where
  "opaque = fail ''recipient handles are now opaque tokens; call chat_peers and send to the fresh handle''"

definition chosen_locally :: "target res \<Rightarrow> choice res option" where
  "chosen_locally r = Some (bind r (\<lambda>t. Inr (SendLocal t)))"

definition chosen_remotely :: "(target \<times> str) res option \<Rightarrow> choice res option" where
  "chosen_remotely r = map_option (\<lambda>x. bind x (\<lambda>(t, self). Inr (SendRemote t self))) r"

definition chosen :: "pyenv \<Rightarrow> send_world \<Rightarrow> dir \<Rightarrow> bool \<Rightarrow> str \<Rightarrow> choice res option" where
  "chosen E su d external query =
     (let deadline = su_start su + OPERATION_TIMEOUT_SECONDS in
      case parse_recipient_token E query of
        Inl e \<Rightarrow> Some (Inl e)
      | Inr (Some tok) \<Rightarrow>
          if t_scope tok = Local then chosen_locally (local_token_target E su d external tok)
          else chosen_remotely (remote_token_target E su deadline external tok)
      | Inr None \<Rightarrow>
          if hex64 query then Some opaque
          else
            (case exact_target E su d external query of
               Inl e \<Rightarrow> Some (Inl e)
             | Inr t \<Rightarrow>
                 if \<not> p_remote t then chosen_locally (Inr t)
                 else
                   (case p_tailnet_node_id t of
                      None \<Rightarrow> Some (fail ''remote target route is incomplete'')
                    | Some node \<Rightarrow>
                        chosen_remotely (remote_token_target E su deadline external
                          \<lparr>t_scope = Remote, t_handle = p_session_key t, t_generation = p_generation t,
                           t_node_id = Some node, t_origin = None\<rparr>))))"

definition choose_local :: "pyenv \<Rightarrow> send_world \<Rightarrow> dir \<Rightarrow> str \<Rightarrow> target res" where
  "choose_local E su d query =
     bind (parse_recipient_token E query) (\<lambda>parsed.
     case parsed of
       Some tok \<Rightarrow>
         if t_scope tok \<noteq> Local then fail ''recipient token selects a remote device, not a local session''
         else local_token_target E su d False tok
     | None \<Rightarrow>
         if hex64 query then opaque
         else bind (available_locally E su d True None) (\<lambda>ts. resolve_target E ts query))"

text \<open>\<open>stamp\<close>, \<open>attempts\<close> and \<open>cb\<close> are what the delivery meets; \<open>held_locks\<close> is 1 when the caller holds its own effect lock.\<close>

definition dispatch_choice ::
  "pyenv \<Rightarrow> preparation \<Rightarrow> (nat \<Rightarrow> attempt) \<Rightarrow> callback_run \<Rightarrow> rat \<Rightarrow> rat \<Rightarrow> rat \<Rightarrow> dir \<Rightarrow> source \<Rightarrow> nat \<Rightarrow>
   str \<Rightarrow> str option \<Rightarrow> choice \<Rightarrow> (dict res \<times> dir) option" where
  "dispatch_choice E pr attempts cb clock stamp deadline d source held_locks message event_id c =
     (case c of
        SendLocal t \<Rightarrow> send_local_target E pr attempts cb clock stamp deadline d source held_locks t message event_id
      | SendRemote t self \<Rightarrow> send_remote_target E pr attempts stamp deadline d source t self message event_id)"

definition send ::
  "pyenv \<Rightarrow> send_world \<Rightarrow> preparation \<Rightarrow> (nat \<Rightarrow> attempt) \<Rightarrow> callback_run \<Rightarrow> rat \<Rightarrow> rat \<Rightarrow> dir \<Rightarrow> source \<Rightarrow> nat \<Rightarrow> bool \<Rightarrow>
   str \<Rightarrow> str \<Rightarrow> str option \<Rightarrow> (dict res \<times> dir) option" where
  "send E su pr attempts cb clock stamp d source held_locks external query message event_id =
     (case chosen E su d external query of
        None \<Rightarrow> None
      | Some (Inl e) \<Rightarrow> Some (Inl e, d)
      | Some (Inr c) \<Rightarrow>
          dispatch_choice E pr attempts cb clock stamp (su_start su + OPERATION_TIMEOUT_SECONDS) d source held_locks
            message event_id c)"

definition send_local ::
  "pyenv \<Rightarrow> send_world \<Rightarrow> preparation \<Rightarrow> (nat \<Rightarrow> attempt) \<Rightarrow> callback_run \<Rightarrow> rat \<Rightarrow> rat \<Rightarrow> dir \<Rightarrow> source \<Rightarrow> nat \<Rightarrow>
   str \<Rightarrow> str \<Rightarrow> str option \<Rightarrow> (dict res \<times> dir) option" where
  "send_local E su pr attempts cb clock stamp d source held_locks query message event_id =
     (case choose_local E su d query of
        Inl e \<Rightarrow> Some (Inl e, d)
      | Inr t \<Rightarrow>
          send_local_target E pr attempts cb clock stamp (su_start su + OPERATION_TIMEOUT_SECONDS) d source held_locks t
            message event_id)"


section \<open>Every exchange ends\<close>

lemma remote_node_targets_shape:
  "\<exists>r. remote_node_targets E attempts rd address node_id handle deadline now = Some r \<and>
     (\<forall>ts whole t. r = Inr (ts, whole) \<and> t \<in> set ts \<longrightarrow> remote_shape E rd address node_id t)"
proof -
  let ?vs = "query_variants rd handle"
  obtain r m now' where t: "try_variants E attempts rd address node_id deadline ?vs now 0 = Some (r, m, now')"
    "\<forall>base payload. r = Found base payload \<longrightarrow> (\<exists>v \<in> set ?vs. payload = fst v \<and> found_from E attempts rd address node_id v m base)"
    using try_variants_ends [of E attempts rd address node_id ?vs 0 deadline now] by (auto simp: tried_def)
  show ?thesis
  proof (cases r)
    case (Found base payload)
    then obtain v where v: "found_from E attempts rd address node_id v m base" using t(2) by blast
    have "remote_shape E (variant_reader rd v) address node_id t \<longleftrightarrow> remote_shape E rd address node_id t" for t
      by (simp add: remote_shape_def variant_reader_def Let_def)
    then have base: "remote_shape E rd address node_id t" if "t \<in> set base" for t
      using v targets_from_tailnet_shape that unfolding found_from_def by blast
    show ?thesis using t(1) Found base enriched_shape [OF _ base]
      by (simp add: remote_node_targets_def bind_Inr_iff) blast
  qed (use t(1) in \<open>simp_all add: remote_node_targets_def fail_def\<close>)
qed

lemma send_native_ends: "\<exists>r d'. send_native E pr attempts stamp deadline d source t message event_id = Some (r, d')"
proof (cases "prepare_local E pr deadline d source t message event_id")
  case (Inr p)
  let ?go = "\<lambda>d'. resend attempts (\<lambda>x. request_socket E x (accept_payload (pd_route p) (pd_event p) (pd_body p)))
      (is_busy (pd_event p) (peer_str (p_provider t))) deadline (pr_clock_timeout pr) PRE_EFFECT_RETRY_SECONDS 0 d'"
  have "\<exists>out n d''. ?go d' = Some (out, n, d'')" for d'
    using resend_first by (fastforce simp: ends_within_def)
  then show ?thesis using Inr
    by (simp add: send_native_def Let_def begun_def split: sum.splits option.splits prod.splits bool.splits)
      (metis option.distinct(1) prod_cases3 surj_pair)
qed (simp add: send_native_def)

lemma send_remote_target_ends:
  "\<exists>r d'. send_remote_target E pr attempts stamp deadline d source t self message event_id = Some (r, d')"
proof (cases "prepare_remote E pr deadline d source t self message event_id")
  case (Inr p)
  obtain al event body where p: "p = (al, event, body)" by (cases p)
  have "\<exists>out n d''. resend attempts (\<lambda>x. request_tailnet E x (receive_payload envelope))
      at_capacity deadline (pr_clock_timeout pr) PRE_EFFECT_RETRY_SECONDS 0 d' = Some (out, n, d'')" for d' envelope
    using resend_first by (fastforce simp: ends_within_def)
  then show ?thesis using Inr p
    by (simp add: send_remote_target_def begun_def split: sum.splits option.splits prod.splits bool.splits)
      (metis option.distinct(1) prod_cases3 surj_pair)
qed (simp add: send_remote_target_def)

lemma dispatch_choice_ends:
  "\<exists>r d'. dispatch_choice E pr attempts cb clock stamp deadline d source held_locks message event_id c = Some (r, d')"
  using send_native_ends send_remote_target_ends
  by (cases c) (auto simp: dispatch_choice_def send_local_target_def)


section \<open>What a choice rests on\<close>

lemma remote_token_target_ends: "\<exists>r. remote_token_target E su deadline external tok = Some r"
  using remote_node_targets_shape by (fastforce simp: remote_token_target_def split: option.splits sum.splits)

lemma chosen_ends: "\<exists>r. chosen E su d external query = Some r"
  using remote_token_target_ends
  by (auto simp: chosen_def chosen_locally_def chosen_remotely_def Let_def split: option.splits sum.splits)

lemma filter_only: "filter P xs = [x] \<Longrightarrow> x \<in> set xs" "filter P xs = [x] \<Longrightarrow> P x"
  by (auto simp: filter_eq_Cons_iff)

lemma local_token_targetD:
  assumes "local_token_target E su d external tok = Inr t"
  shows "claims tok t \<and> (\<exists>origin targets. local_origin E (h_root (su_host su)) = Inr origin \<and> t_origin tok = Some origin \<and>
    available_locally E su d external (Some (t_handle tok)) = Inr targets \<and> filter (claims tok) targets = [t])"
proof -
  from assms obtain origin targets where o: "local_origin E (h_root (su_host su)) = Inr origin" "t_origin tok = Some origin"
    "available_locally E su d external (Some (t_handle tok)) = Inr targets" "filter (claims tok) targets = [t]"
    by (auto simp: local_token_target_def bind_Inr_iff split: if_splits)
  moreover have "claims tok t" using o(4) by (rule filter_only)
  ultimately show ?thesis by auto
qed

text \<open>A device vouches for a target: it was asked as the tailnet map says, and exactly one of its targets has that handle and generation.\<close>

definition attested :: "pyenv \<Rightarrow> send_world \<Rightarrow> bool \<Rightarrow> recipient_token \<Rightarrow> target \<Rightarrow> str \<Rightarrow> bool" where
  "attested E su external tok t self \<longleftrightarrow>
     (\<exists>node seen address ts whole deadline.
        t_node_id tok = Some node \<and> tailnet_identity_of E (su_status_again su) = Inr (Some seen) \<and>
        map_of (ti_peers seen) node = Some address \<and> ti_self_node_id seen = Some self \<and>
        remote_node_targets E (su_again su) (token_reader external) address (Some node) (Some (t_handle tok)) deadline (su_clock su) =
          Some (Inr (ts, whole)) \<and>
        filter (claims tok) ts = [t] \<and> remote_shape E (token_reader external) address (Some node) t)"

lemma remote_token_targetD:
  assumes "remote_token_target E su deadline external tok = Some (Inr (t, self))"
  shows "claims tok t \<and> attested E su external tok t self"
proof -
  let ?d = "min (su_clock su + REMOTE_DISCOVERY_TIMEOUT_SECONDS) deadline"
  from assms obtain node seen address r where o: "t_node_id tok = Some node"
    "tailnet_identity_of E (su_status_again su) = Inr (Some seen)" "map_of (ti_peers seen) node = Some address"
    "ti_self_node_id seen = Some self"
    "remote_node_targets E (su_again su) (token_reader external) address (Some node) (Some (t_handle tok)) ?d (su_clock su) = Some r"
    "bind r (\<lambda>(ts, whole). bind (only_one (\<lambda>_. if whole then CHANGED_TEXT else UNVERIFIED_TEXT) (filter (claims tok) ts))
       (\<lambda>t. Inr (t, self))) = Inr (t, self)"
    by (auto simp: remote_token_target_def bind_Inr_iff fail_def split: option.splits sum.splits)
  from o(6) obtain ts whole where ts: "r = Inr (ts, whole)" "filter (claims tok) ts = [t]" by (auto simp: bind_Inr_iff)
  note t = filter_only [OF ts(2)]
  moreover have "remote_shape E (token_reader external) address (Some node) t"
    using remote_node_targets_shape [of E "su_again su" "token_reader external" address "Some node" "Some (t_handle tok)" ?d "su_clock su"]
      o(5) ts(1) t(1) by auto
  ultimately show ?thesis using o(1-5) ts unfolding attested_def by blast
qed

text \<open>
  The name of one recipient: with every device heard, the only target with this alias, or, when no
  target has it and every title is known, the only one with this title.
\<close>

definition exactly_named :: "pyenv \<Rightarrow> send_world \<Rightarrow> dir \<Rightarrow> bool \<Rightarrow> str \<Rightarrow> target \<Rightarrow> bool" where
  "exactly_named E su d external query u \<longleftrightarrow>
     (\<exists>native remote. available_locally E su d external None = Inr native \<and>
        remote_discovery E su (discovery_reader False True True external) None = Inr (remote, True) \<and>
        (filter (\<lambda>t. same_alias E t query) (native @ remote) = [u] \<or>
         (\<exists>titles. su_titles su = Inr titles \<and> list_all (\<lambda>t. \<not> same_alias E t query) (native @ remote) \<and>
            list_all (\<lambda>t. titled t \<longrightarrow> p_title t \<noteq> None) (with_codex_titles titles native @ remote) \<and>
            filter (\<lambda>t. titled t \<and> same_title E t query) (with_codex_titles titles native @ remote) = [u])))"

lemma exact_titleD:
  assumes "exact_title E targets query = Inr t"
  shows "list_all (\<lambda>t. titled t \<longrightarrow> p_title t \<noteq> None) targets \<and> filter (\<lambda>t. titled t \<and> same_title E t query) targets = [t]"
  using assms by (auto simp: exact_title_def Let_def list_all_iff conj_commute split: if_splits)

lemma exact_targetD: "exact_target E su d external query = Inr t \<Longrightarrow> exactly_named E su d external query t"
  by (auto simp: exact_target_def exactly_named_def bind_Inr_iff fail_def Let_def filter_empty_conv list_all_iff Ball_def
      split: if_splits dest!: exact_titleD)

text \<open>What a choice means: who was named, and that exactly this one is still there.\<close>

definition picked :: "pyenv \<Rightarrow> send_world \<Rightarrow> dir \<Rightarrow> bool \<Rightarrow> str \<Rightarrow> choice \<Rightarrow> bool" where
  "picked E su d external query c \<longleftrightarrow>
     (\<exists>tok. parse_recipient_token E query = Inr (Some tok) \<and>
        (case c of
           SendLocal t \<Rightarrow>
             t_scope tok = Local \<and>
             (\<exists>origin targets. local_origin E (h_root (su_host su)) = Inr origin \<and> t_origin tok = Some origin \<and>
                available_locally E su d external (Some (t_handle tok)) = Inr targets \<and> filter (claims tok) targets = [t])
         | SendRemote t self \<Rightarrow> t_scope tok = Remote \<and> attested E su external tok t self)) \<or>
     parse_recipient_token E query = Inr None \<and> \<not> hex64 query \<and>
     (\<exists>u. exactly_named E su d external query u \<and>
        (case c of
           SendLocal t \<Rightarrow> t = u \<and> \<not> p_remote u
         | SendRemote t self \<Rightarrow>
             p_remote u \<and> p_session_key t = p_session_key u \<and> p_generation t = p_generation u \<and>
             p_tailnet_node_id t = p_tailnet_node_id u \<and>
             (\<exists>tok. t_handle tok = p_session_key u \<and> t_generation tok = p_generation u \<and> attested E su external tok t self)))"

lemma chosen_picked:
  assumes "chosen E su d external query = Some (Inr c)"
  shows "picked E su d external query c"
proof (cases "parse_recipient_token E query")
  case (Inr parsed)
  show ?thesis
  proof (cases parsed)
    case (Some tok)
    show ?thesis
    proof (cases "t_scope tok = Local")
      case True
      with assms Inr Some show ?thesis
        by (auto simp: chosen_def chosen_locally_def bind_Inr_iff picked_def dest!: local_token_targetD)
    next
      case False
      then have "t_scope tok = Remote" by (cases "t_scope tok") auto
      with assms Inr Some show ?thesis
        by (auto simp: chosen_def chosen_remotely_def bind_Inr_iff picked_def dest!: remote_token_targetD)
    qed
  next
    case None
    with assms Inr obtain u where u: "exact_target E su d external query = Inr u" "\<not> hex64 query"
      by (auto simp: chosen_def opaque_def fail_def split: if_splits sum.splits)
    note named = exact_targetD [OF u(1)]
    show ?thesis
    proof (cases "p_remote u")
      case False
      with assms Inr None u have "c = SendLocal u" by (simp add: chosen_def chosen_locally_def)
      with False named Inr None u(2) show ?thesis by (auto simp: picked_def)
    next
      case True
      with assms Inr None u obtain node where n: "p_tailnet_node_id u = Some node"
        by (auto simp: chosen_def fail_def split: option.splits)
      let ?tok = "\<lparr>t_scope = Remote, t_handle = p_session_key u, t_generation = p_generation u, t_node_id = Some node, t_origin = None\<rparr>"
      from assms Inr None u True n obtain t self where c: "c = SendRemote t self"
        "remote_token_target E su (su_start su + OPERATION_TIMEOUT_SECONDS) external ?tok = Some (Inr (t, self))"
        by (auto simp: chosen_def chosen_remotely_def bind_Inr_iff)
      note d = remote_token_targetD [OF c(2)]
      then have "p_tailnet_node_id t = Some node" by (auto simp: attested_def remote_shape_def)
      then have "picked E su d external query (SendRemote t self)"
        using d True named Inr None u(2) n unfolding picked_def choice.case claims_def
        by (intro disjI2 conjI exI [of _ u] exI [of _ ?tok]) auto
      then show ?thesis by (simp add: c(1))
    qed
  qed
qed (use assms in \<open>simp add: chosen_def\<close>)

lemma exact_target_iff: "exact_target E su d external query = Inr t \<longleftrightarrow> exactly_named E su d external query t"
proof
  assume "exactly_named E su d external query t"
  then obtain native remote where n: "available_locally E su d external None = Inr native"
      "remote_discovery E su (discovery_reader False True True external) None = Inr (remote, True)"
    and c: "filter (\<lambda>t. same_alias E t query) (native @ remote) = [t] \<or>
      (\<exists>titles. su_titles su = Inr titles \<and> list_all (\<lambda>t. \<not> same_alias E t query) (native @ remote) \<and>
         list_all (\<lambda>t. titled t \<longrightarrow> p_title t \<noteq> None) (with_codex_titles titles native @ remote) \<and>
         filter (\<lambda>t. titled t \<and> same_title E t query) (with_codex_titles titles native @ remote) = [t])"
    by (auto simp: exactly_named_def)
  from c show "exact_target E su d external query = Inr t"
  proof
    assume "filter (\<lambda>t. same_alias E t query) (native @ remote) = [t]"
    with n show ?thesis by (simp add: exact_target_def del: filter_append)
  next
    assume "\<exists>titles. su_titles su = Inr titles \<and> list_all (\<lambda>t. \<not> same_alias E t query) (native @ remote) \<and>
         list_all (\<lambda>t. titled t \<longrightarrow> p_title t \<noteq> None) (with_codex_titles titles native @ remote) \<and>
         filter (\<lambda>t. titled t \<and> same_title E t query) (with_codex_titles titles native @ remote) = [t]"
    then obtain titles where t: "su_titles su = Inr titles" "list_all (\<lambda>t. \<not> same_alias E t query) (native @ remote)"
      "list_all (\<lambda>t. titled t \<longrightarrow> p_title t \<noteq> None) (with_codex_titles titles native @ remote)"
      "filter (\<lambda>t. titled t \<and> same_title E t query) (with_codex_titles titles native @ remote) = [t]" by blast
    from t(2) have "filter (\<lambda>t. same_alias E t query) (native @ remote) = []" by (simp add: filter_empty_conv list_all_iff)
    moreover have "exact_title E (with_codex_titles titles native @ remote) query = Inr t"
      using t(3,4) by (auto simp: exact_title_def list_all_iff conj_commute Let_def simp del: filter_append)
    ultimately show ?thesis using n t(1) by (simp add: exact_target_def)
  qed
qed (rule exact_targetD)

section \<open>Property\<close>

text \<open>
  C4. A send ends, and acts for exactly one recipient that was named exactly. Whatever the devices,
  sockets and other processes do, \<open>send\<close> returns: either it refused and left the intents as they
  were, or it sent to one recipient. That recipient was named by a token of this state, or of the
  device whose authenticated answer contains exactly one target with that handle and generation;
  or by an alias that exactly one discovered target has, every device having answered; or, when
  none has it and every title is known, by the title of exactly one; never by a part of a name. A
  remote one is asked for again, at the address its node has now, before anything is sent. And a
  local recipient that is named so is sent to.
\<close>

theorem send_exact:
  "\<exists>r d'. send E su pr attempts cb clock stamp d source held_locks external query message event_id = Some (r, d') \<and>
     ((\<exists>e. r = Inl e \<and> d' = d) \<or>
      (\<exists>c. picked E su d external query c \<and>
         dispatch_choice E pr attempts cb clock stamp (su_start su + OPERATION_TIMEOUT_SECONDS) d source held_locks message event_id c =
           Some (r, d'))) \<and>
     (parse_recipient_token E query = Inr None \<and> \<not> hex64 query \<and> exactly_named E su d external query u \<and> \<not> p_remote u \<longrightarrow>
        send_local_target E pr attempts cb clock stamp (su_start su + OPERATION_TIMEOUT_SECONDS) d source held_locks u message event_id =
          Some (r, d'))"
proof -
  have named: "chosen E su d external query = Some (Inr (SendLocal u))"
    if "parse_recipient_token E query = Inr None" "\<not> hex64 query" "exactly_named E su d external query u" "\<not> p_remote u"
    using that by (simp add: chosen_def chosen_locally_def exact_target_iff [THEN iffD2])
  obtain x where x: "chosen E su d external query = Some x" using chosen_ends by blast
  show ?thesis
  proof (cases x)
    case (Inl e)
    with x named show ?thesis by (auto simp: send_def)
  next
    case (Inr c)
    with x chosen_picked have "picked E su d external query c" by blast
    moreover have "\<exists>r d'. dispatch_choice E pr attempts cb clock stamp (su_start su + OPERATION_TIMEOUT_SECONDS) d source held_locks message event_id c =
        Some (r, d')" by (rule dispatch_choice_ends)
    ultimately show ?thesis using x Inr named by (auto simp: send_def dispatch_choice_def)
  qed
qed


definition sample_send_world :: send_world where
  "sample_send_world = \<lparr>su_host = sample_host, su_local = (\<lambda>_. Inr [sample_target]), su_titles = Inr (\<lambda>_. None),
     su_status = Some sample_status_text, su_start = 0, su_begin = (\<lambda>_. 21), su_node = (\<lambda>_ _. sample_question),
     su_order = [lit ''nB''], su_status_again = None, su_clock = 21, su_again = (\<lambda>_. sample_question)\<rparr>"

lemma sample_discovery:
  "remote_discovery sample_env sample_send_world (discovery_reader False True True False) None = Inr ([], True)"
proof -
  let ?rd = "discovery_reader False True True False"
  let ?q = "flag ''include_devin'' legacy_query" and ?v = "hd (query_variants (discovery_reader False True True False) None)"
  have v: "query_variants ?rd None = ?v # tl (query_variants ?rd None)" "plain True (JObj (fst ?v))"
    by (simp_all add: query_variants_def base_variants_def discovery_reader_def flag_if_def with_handle_def flag_def
        legacy_query_def SCHEMA_VERSION_def int_fits_small)
  note a = sample_question_answered [OF v(2)]
  have c: "\<not> at_capacity sample_answer" by (simp add: at_capacity_def sample_answer_def BROKER_CAPACITY_REFUSAL_def)
  have t: "targets_from_tailnet sample_env (variant_reader ?rd ?v) (lit ''100.64.0.2'') (Some (lit ''nB'')) sample_answer = Inr []"
    by (simp add: targets_from_tailnet_def sample_answer_def has_keys_def field_eq_int_def SCHEMA_VERSION_def)
  have "try_variants sample_env (\<lambda>_. sample_question) ?rd (lit ''100.64.0.2'') (Some (lit ''nB'')) 22
      (query_variants ?rd None) 21 0 = Some (Found [] (fst ?v), 1, 21)"
    using a c t by (subst v(1)) (simp add: ask.simps Let_def sample_question_def after_def)
  then have "remote_node_targets sample_env (\<lambda>_. sample_question) ?rd (lit ''100.64.0.2'') (Some (lit ''nB'')) None 22 21 =
      Some (Inr ([], True))"
    by (simp add: remote_node_targets_def)
  then show ?thesis
    by (simp add: remote_discovery_def sample_send_world_def tailnet_identity_of_def sample_identity chat_to_none_def node_answer_def
        REMOTE_DISCOVERY_TIMEOUT_SECONDS_def HEALTH_TIMEOUT_SECONDS_def AGENTS_TIMEOUT_SECONDS_def)
qed

lemma sample_named:
  "exactly_named sample_env sample_send_world d False (lit ''claude@mac:p:cam'') sample_target"
  using sample_discovery
  by (simp add: exactly_named_def available_locally_def same_alias_def)
    (simp add: sample_send_world_def sample_target_def)

theorem send_exact_witness:
  "\<forall>cb. \<exists>r d'. send sample_env sample_send_world sample_preparation sample_attempts cb 0 0 sample_registry (RouteSource sample_route) 0
       False (lit ''claude@mac:p:cam'') (lit ''hi'') None = Some (r, d') \<and>
     send_local_target sample_env sample_preparation sample_attempts cb 0 0 260 sample_registry (RouteSource sample_route) 0
       sample_target (lit ''hi'') None = Some (r, d')"
proof
  fix cb
  let ?q = "lit ''claude@mac:p:cam''"
  have "parse_recipient_token sample_env ?q = Inr None" "\<not> hex64 ?q" "\<not> p_remote sample_target"
    by (simp_all add: parse_recipient_token_def starts_with_def RECIPIENT_TOKEN_PREFIX_def hex64_def lit_def sample_target_def)
  with send_exact [of sample_env sample_send_world sample_preparation sample_attempts cb 0 0 sample_registry "RouteSource sample_route" 0
      False ?q "lit ''hi''" None sample_target] sample_named [of sample_registry]
  show "\<exists>r d'. send sample_env sample_send_world sample_preparation sample_attempts cb 0 0 sample_registry (RouteSource sample_route) 0
       False ?q (lit ''hi'') None = Some (r, d') \<and>
     send_local_target sample_env sample_preparation sample_attempts cb 0 0 260 sample_registry (RouteSource sample_route) 0
       sample_target (lit ''hi'') None = Some (r, d')" by (auto simp: sample_send_world_def OPERATION_TIMEOUT_SECONDS_def)
qed

end
