(* ===== verification/DevinStores.thy ===== *)
theory DevinStores
  imports DevinHooks
begin

text \<open>
  The capability store of devin.py: what lets one Devin tool call act as its session, once.
\<close>

section \<open>Capabilities\<close>

definition DEVIN_CAPABILITY_MAX_ACTIVE :: nat where "DEVIN_CAPABILITY_MAX_ACTIVE = 64"
definition DEVIN_CAPABILITY_TTL_SECONDS :: rat where "DEVIN_CAPABILITY_TTL_SECONDS = 120"

record devin_capability =
  dc_token_digest :: str
  dc_session_id :: str
  dc_generation :: str
  dc_prompt_id :: str
  dc_tool_name :: str
  dc_arguments_digest :: str
  dc_issued_at :: rat

definition CAPABILITY_TOOLS :: "string list" where
  "CAPABILITY_TOOLS = [''chat_peers'', ''chat_send'', ''chat_status'']"

definition CAPABILITY_KEYS :: "string list" where
  "CAPABILITY_KEYS =
     [''token_digest'', ''session_id'', ''generation'', ''prompt_id'', ''tool_name'', ''arguments_digest'', ''issued_at'']"

definition capability_arguments_digest :: "pyenv \<Rightarrow> dict \<Rightarrow> str res" where
  "capability_arguments_digest E arguments =
     bind (encode (dumps (float_repr E) False (sort_keys (JObj arguments)))) (\<lambda>b. Inr (sha256hex E b))"

definition capability_to_dict :: "devin_capability \<Rightarrow> json" where
  "capability_to_dict c = JObj
     [(lit ''token_digest'', JStr (dc_token_digest c)), (lit ''session_id'', JStr (dc_session_id c)),
      (lit ''generation'', JStr (dc_generation c)), (lit ''prompt_id'', JStr (dc_prompt_id c)),
      (lit ''tool_name'', JStr (dc_tool_name c)), (lit ''arguments_digest'', JStr (dc_arguments_digest c)),
      (lit ''issued_at'', JFloat (Fin (dc_issued_at c)))]"

text \<open>
  \<^verbatim>\<open>float(i)\<close> of an integer: rounded to 53 bits, half to even. An integer too large for a float
  makes \<^verbatim>\<open>math.isfinite\<close> raise \<open>OverflowError\<close>.
\<close>

fun excess_bits :: "nat \<Rightarrow> nat" where
  "excess_bits n = (if n < 2 ^ 53 then 0 else Suc (excess_bits (n div 2)))"

declare excess_bits.simps [simp del]

definition float_of_int :: "int \<Rightarrow> rat" where
  "float_of_int i =
     (let n = nat \<bar>i\<bar>; k = excess_bits n; q = n div 2 ^ k; r = n mod 2 ^ k;
          q' = (if 2 ^ k < 2 * r \<or> (2 ^ k = 2 * r \<and> odd q) then q + 1 else q)
      in (if i < 0 then -1 else 1) * of_nat (q' * 2 ^ k))"

definition issued_at_of :: "json option \<Rightarrow> rat res" where
  "issued_at_of v =
     (case v of
        Some (JInt i) \<Rightarrow> if 2 ^ 1024 - 2 ^ 970 \<le> \<bar>i\<bar> then Inl OtherError else Inr (float_of_int i)
      | Some (JFloat (Fin r)) \<Rightarrow> Inr r
      | _ \<Rightarrow> fail ''Devin capability state is invalid'')"

definition capability_from_object :: "json \<Rightarrow> devin_capability res" where
  "capability_from_object v =
     (case v of
        JObj d \<Rightarrow>
          if \<not> has_keys d CAPABILITY_KEYS then fail ''Devin capability state is invalid''
          else
            bind (get_str ''Devin capability state is invalid'' d ''token_digest'') (\<lambda>token_digest.
            bind (get_str ''Devin capability state is invalid'' d ''session_id'') (\<lambda>session.
            bind (get_str ''Devin capability state is invalid'' d ''generation'') (\<lambda>generation.
            bind (get_str ''Devin capability state is invalid'' d ''prompt_id'') (\<lambda>prompt.
            bind (get_str ''Devin capability state is invalid'' d ''tool_name'') (\<lambda>tool.
            bind (get_str ''Devin capability state is invalid'' d ''arguments_digest'') (\<lambda>arguments_digest.
            if \<not> list_ex (\<lambda>t. tool = lit t) CAPABILITY_TOOLS \<or> \<not> hex64 token_digest \<or> \<not> hex64 arguments_digest
            then fail ''Devin capability state is invalid''
            else
              bind (issued_at_of (jget d ''issued_at'')) (\<lambda>issued_at.
              bind (valid_session_id (lit ''devin'') session ''Devin capability session id'') (\<lambda>session_id.
              bind (valid_uuid generation ''Devin capability generation'') (\<lambda>_.
              bind (valid_uuid prompt ''Devin capability prompt id'') (\<lambda>_.
              Inr \<lparr>dc_token_digest = token_digest, dc_session_id = session, dc_generation = generation,
                   dc_prompt_id = prompt, dc_tool_name = tool, dc_arguments_digest = arguments_digest,
                   dc_issued_at = issued_at\<rparr>))))))))))
      | _ \<Rightarrow> fail ''Devin capability state is invalid'')"

definition CAPABILITY_FILE :: str where
  "CAPABILITY_FILE = lit ''devin-capabilities.json''"

definition capabilities :: "pyenv \<Rightarrow> dir \<Rightarrow> devin_capability list res" where
  "capabilities E d =
     (case files d CAPABILITY_FILE of
        None \<Rightarrow> Inr []
      | Some f \<Rightarrow>
          bind (read_private_json E d CAPABILITY_FILE ''Devin capability state is invalid'' f) (\<lambda>raw.
          bind (rows_of capability_from_object ''Devin capability state is invalid'' raw) (\<lambda>cs.
          if \<not> distinct (map dc_token_digest cs) then fail ''Devin capability state contains duplicate tokens''
          else Inr cs)))"

definition write_capabilities :: "pyenv \<Rightarrow> dir \<Rightarrow> devin_capability list \<Rightarrow> dir" where
  "write_capabilities E d cs = atomic_json E d CAPABILITY_FILE (JArr (map capability_to_dict cs))"

definition capability_is_fresh :: "rat \<Rightarrow> devin_capability \<Rightarrow> bool" where
  "capability_is_fresh now c \<longleftrightarrow> 0 \<le> now - dc_issued_at c \<and> now - dc_issued_at c \<le> DEVIN_CAPABILITY_TTL_SECONDS"

text \<open>\<open>now\<close> is read when the capability is made, \<open>now'\<close> under the lock; \<open>token\<close> is random.\<close>

definition issue :: "pyenv \<Rightarrow> rat \<Rightarrow> rat \<Rightarrow> str \<Rightarrow> dir \<Rightarrow> route \<Rightarrow> str \<Rightarrow> str \<Rightarrow> dict \<Rightarrow> (str \<times> dir) res" where
  "issue E now now' token d route prompt_id tool_name arguments =
     (if r_provider route \<noteq> Devin then fail ''Devin capability route is invalid''
      else
        bind (valid_uuid prompt_id ''Devin capability prompt id'') (\<lambda>_.
        bind (capability_arguments_digest E arguments) (\<lambda>digest.
        let capability =
          \<lparr>dc_token_digest = sha256hex E token, dc_session_id = r_session_id route, dc_generation = r_generation route,
           dc_prompt_id = prompt_id, dc_tool_name = tool_name, dc_arguments_digest = digest, dc_issued_at = now\<rparr> in
        bind (capabilities E d) (\<lambda>cs.
        let existing = filter (capability_is_fresh now') cs in
        if DEVIN_CAPABILITY_MAX_ACTIVE \<le> length existing then fail ''Devin capability state is full''
        else Inr (token, write_capabilities E d (existing @ [capability]))))))"

text \<open>\<open>now\<close> is read by \<open>_fresh\<close>, \<open>now'\<close> when an unusable record is looked at again.\<close>

definition EXPIRED_TEXT :: str where
  "EXPIRED_TEXT = lit ''Devin sender capability is unavailable: expired before use; nothing was delivered''"

definition take_capability :: "rat \<Rightarrow> rat \<Rightarrow> str \<Rightarrow> devin_capability list \<Rightarrow> (devin_capability \<times> devin_capability list) res" where
  "take_capability now now' token_digest records =
     (let existing = filter (capability_is_fresh now) records in
      case filter (\<lambda>c. dc_token_digest c = token_digest) existing of
        [c] \<Rightarrow> Inr (c, filter (\<lambda>x. x \<noteq> c) existing)
      | _ \<Rightarrow>
          (case filter (\<lambda>c. dc_token_digest c = token_digest) records of
             [c] \<Rightarrow>
               if DEVIN_CAPABILITY_TTL_SECONDS < now' - dc_issued_at c then Inl (DevinCapabilityExpiredError EXPIRED_TEXT)
               else fail ''Devin sender capability is unavailable''
           | _ \<Rightarrow> fail ''Devin sender capability is unavailable''))"

definition consume :: "pyenv \<Rightarrow> rat \<Rightarrow> rat \<Rightarrow> dir \<Rightarrow> str \<Rightarrow> str \<Rightarrow> dict \<Rightarrow> devin_capability res \<times> dir" where
  "consume E now now' d token tool_name arguments =
     (if \<not> hex64 token then (fail ''Devin sender capability is invalid'', d)
      else
        case bind (capabilities E d) (take_capability now now' (sha256hex E token)) of
          Inl e \<Rightarrow> (Inl e, d)
        | Inr (c, retained) \<Rightarrow>
            (bind (capability_arguments_digest E arguments) (\<lambda>digest.
             if dc_tool_name c \<noteq> tool_name \<or> dc_arguments_digest c \<noteq> digest
             then fail ''Devin sender capability does not match the tool call'' else Inr c),
             write_capabilities E d retained))"

definition revoke_session :: "pyenv \<Rightarrow> rat \<Rightarrow> dir \<Rightarrow> str \<Rightarrow> dir res" where
  "revoke_session E now d session_id =
     bind (valid_session_id (lit ''devin'') session_id ''Devin capability session id'') (\<lambda>_.
     bind (capabilities E d) (\<lambda>cs.
     let existing = filter (capability_is_fresh now) cs;
         retained = filter (\<lambda>c. dc_session_id c \<noteq> session_id) existing in
     Inr (if retained \<noteq> existing \<or> files d CAPABILITY_FILE \<noteq> None then write_capabilities E d retained else d)))"

section \<open>Capabilities on disk\<close>

text \<open>A table whose rows may hold floats, as long as the interpreter carries them.\<close>

locale carried_table =
  fixes E :: pyenv and good :: "'a \<Rightarrow> bool" and to_dict :: "'a \<Rightarrow> json" and from_object :: "json \<Rightarrow> 'a res"
  assumes carried_row: "good r \<Longrightarrow> carried (float_repr E) (float_parse E) True (to_dict r)"
    and row_restored: "good r \<Longrightarrow> from_object (sort_keys (to_dict r)) = Inr r"
begin

lemma table_read_written:
  assumes "list_all good rs"
  shows "bind (read_private_json E (atomic_json E d n (JArr (map to_dict rs))) n m
            \<lparr>is_private = True, data = json_payload E (JArr (map to_dict rs))\<rparr>)
          (rows_of from_object m') = Inr rs"
proof -
  have c: "carried (float_repr E) (float_parse E) True (JArr (map to_dict rs))"
    using assms by (simp add: list_all_iff carried_row)
  have "map_res from_object (map (\<lambda>r. sort_keys (to_dict r)) rs) = Inr rs"
    using map_res_map_Inr [of rs from_object "\<lambda>r. sort_keys (to_dict r)" id] assms by (simp add: row_restored list_all_iff)
  then show ?thesis using read_carried [OF c] by (simp add: rows_of_def comp_def)
qed

end

definition good_capability :: "pyenv \<Rightarrow> devin_capability \<Rightarrow> bool" where
  "good_capability E c \<longleftrightarrow>
     hex64 (dc_token_digest c) \<and> session_shape Devin (dc_session_id c) \<and> uuid_shape (dc_generation c) \<and>
     uuid_shape (dc_prompt_id c) \<and> list_ex (\<lambda>t. dc_tool_name c = lit t) CAPABILITY_TOOLS \<and>
     hex64 (dc_arguments_digest c) \<and> carried_float (float_repr E) (float_parse E) (Fin (dc_issued_at c))"

lemma devin_session_iff:
  "valid_session_id (lit ''devin'') v f = Inr x \<longleftrightarrow> x = v \<and> session_shape Devin v"
  using valid_session_id_iff [of Devin v f x] by simp

lemma devin_session_ok: "session_shape Devin v \<Longrightarrow> valid_session_id (lit ''devin'') v f = Inr v"
  by (simp add: devin_session_iff)

lemma capability_text_printable: "list_all (\<lambda>c. is_alnum c \<or> c = 46 \<or> c = 95 \<or> c = 45) s \<Longrightarrow> list_all (printable True) s"
  by (auto simp: list_all_iff printable_def is_code_point_def is_surrogate_def is_alnum_def is_digit_def is_upper_def is_lower_def)

lemma capability_row_carried:
  assumes "good_capability E c"
  shows "carried (float_repr E) (float_parse E) True (capability_to_dict c)"
proof -
  have "list_all (printable True) (dc_tool_name c)"
    using assms lit_printable by (auto simp: good_capability_def CAPABILITY_TOOLS_def)
  then show ?thesis
    using assms session_shape_chars [of Devin "dc_session_id c"]
    by (simp add: good_capability_def capability_to_dict_def hex64_printable uuid_printable capability_text_printable lit_printable)
qed

lemma capability_of_fields:
  assumes "good_capability E c" "has_keys d CAPABILITY_KEYS"
    and "jget d ''token_digest'' = Some (JStr (dc_token_digest c))" "jget d ''session_id'' = Some (JStr (dc_session_id c))"
    and "jget d ''generation'' = Some (JStr (dc_generation c))" "jget d ''prompt_id'' = Some (JStr (dc_prompt_id c))"
    and "jget d ''tool_name'' = Some (JStr (dc_tool_name c))" "jget d ''arguments_digest'' = Some (JStr (dc_arguments_digest c))"
    and "jget d ''issued_at'' = Some (JFloat (Fin (dc_issued_at c)))"
  shows "capability_from_object (JObj d) = Inr c"
proof -
  from assms show ?thesis
    by (simp add: capability_from_object_def good_capability_def issued_at_of_def get_str_def devin_session_ok checked)
qed

lemma capability_row_restored:
  assumes "good_capability E c"
  shows "capability_from_object (sort_keys (capability_to_dict c)) = Inr c"
proof -
  define d where "d = [(lit ''token_digest'', JStr (dc_token_digest c)), (lit ''session_id'', JStr (dc_session_id c)),
      (lit ''generation'', JStr (dc_generation c)), (lit ''prompt_id'', JStr (dc_prompt_id c)),
      (lit ''tool_name'', JStr (dc_tool_name c)), (lit ''arguments_digest'', JStr (dc_arguments_digest c)),
      (lit ''issued_at'', JFloat (Fin (dc_issued_at c)))]"
  have d: "distinct (map fst d)" "has_keys d CAPABILITY_KEYS" by (simp_all add: d_def has_keys_def CAPABILITY_KEYS_def)
  have "sort_keys (capability_to_dict c) = JObj (sort_dict d)" by (simp add: capability_to_dict_def d_def)
  moreover have "capability_from_object (JObj (sort_dict d)) = Inr c"
    by (rule capability_of_fields [OF assms]) (simp_all only: has_keys_sort_dict d(2) map_of_sort_dict [OF d(1)], simp_all add: d_def)
  ultimately show ?thesis by simp
qed

interpretation capability_rows: carried_table E "good_capability E" capability_to_dict capability_from_object for E :: pyenv
  by unfold_locales (rule capability_row_carried, assumption, rule capability_row_restored, assumption)

lemma capabilities_written:
  assumes "list_all (good_capability E) cs" "distinct (map dc_token_digest cs)"
  shows "capabilities E (write_capabilities E d cs) = Inr cs"
proof -
  let ?t = "atomic_json E d CAPABILITY_FILE (JArr (map capability_to_dict cs))"
  have "bind (read_private_json E ?t CAPABILITY_FILE ''Devin capability state is invalid''
        \<lparr>is_private = True, data = json_payload E (JArr (map capability_to_dict cs))\<rparr>)
      (\<lambda>raw. bind (rows_of capability_from_object ''Devin capability state is invalid'' raw)
         (\<lambda>cs. if \<not> distinct (map dc_token_digest cs) then fail ''Devin capability state contains duplicate tokens'' else Inr cs)) = Inr cs"
    using capability_rows.table_read_written [OF assms(1), of d CAPABILITY_FILE "''Devin capability state is invalid''" "''Devin capability state is invalid''"] assms(2)
    by (auto simp: bind_Inr_iff)
  then show ?thesis by (simp add: capabilities_def write_capabilities_def)
qed


section \<open>What the operations do to the capabilities\<close>

definition capabilities_ok :: "pyenv \<Rightarrow> dir \<Rightarrow> devin_capability list \<Rightarrow> bool" where
  "capabilities_ok E d cs \<longleftrightarrow> capabilities E d = Inr cs \<and> list_all (good_capability E) cs"

lemma capabilities_distinct: "capabilities E d = Inr cs \<Longrightarrow> distinct (map dc_token_digest cs)"
  by (auto simp: capabilities_def bind_Inr_iff fail_def split: option.splits if_splits)

lemma capabilities_ok_write:
  assumes "list_all (good_capability E) cs" "distinct (map dc_token_digest cs)"
  shows "capabilities_ok E (write_capabilities E d cs) cs"
  using assms by (simp add: capabilities_ok_def capabilities_written)

lemma capabilities_ok_filter:
  assumes "capabilities_ok E d cs"
  shows "capabilities_ok E (write_capabilities E d' (filter P cs)) (filter P cs)"
  using assms capabilities_distinct [of E d cs]
  by (intro capabilities_ok_write) (auto simp: capabilities_ok_def list_all_iff distinct_map_filter)

text \<open>
  One operation on the capabilities, or anything that leaves their file alone. The clock returns
  floats, the tool of an issued capability is one of the three, and its digest is new.
\<close>

inductive capability_step :: "pyenv \<Rightarrow> dir \<Rightarrow> str option \<Rightarrow> dir \<Rightarrow> bool" for E :: pyenv where
  Issued: "capability_step E d (Some (sha256hex E token)) d'"
    if "issue E now now' token d r prompt tool arguments = Inr (t, d')" "capabilities E d = Inr cs"
      "sha256hex E token \<notin> dc_token_digest ` set cs" "list_ex (\<lambda>x. tool = lit x) CAPABILITY_TOOLS"
      "session_shape Devin (r_session_id r)" "uuid_shape (r_generation r)"
      "carried_float (float_repr E) (float_parse E) (Fin now)"
| Consumed: "capability_step E d None d'" if "consume E now now' d token tool arguments = (x, d')"
| Revoked: "capability_step E d None d'" if "revoke_session E now d session = Inr d'"
| Elsewhere: "capability_step E d None d'"
    if "files d' CAPABILITY_FILE = files d CAPABILITY_FILE" "root_path d' = root_path d"

lemma capabilities_cong:
  "files d' CAPABILITY_FILE = files d CAPABILITY_FILE \<Longrightarrow> root_path d' = root_path d \<Longrightarrow> capabilities E d' = capabilities E d"
  using read_private_json_cong [of d' CAPABILITY_FILE d]
  by (cases "files d CAPABILITY_FILE") (simp_all add: capabilities_def)

lemma digest_ok: "env_ok E \<Longrightarrow> capability_arguments_digest E arguments = Inr x \<Longrightarrow> hex64 x"
  by (auto simp: capability_arguments_digest_def bind_Inr_iff)

lemma consume_cases:
  assumes "capabilities_ok E d cs" "consume E now now' d token tool arguments = (r, d')"
  obtains (Refused) e where "r = Inl e" "is_chat_error e" "d' = d"
    "\<not> hex64 token \<or> length (filter (\<lambda>c. capability_is_fresh now c \<and> dc_token_digest c = sha256hex E token) cs) \<noteq> 1"
  | (Spent) c where "c \<in> set cs" "capability_is_fresh now c" "dc_token_digest c = sha256hex E token" "hex64 token"
    "d' = write_capabilities E d (filter (\<lambda>x. x \<noteq> c) (filter (capability_is_fresh now) cs))"
    "r = bind (capability_arguments_digest E arguments) (\<lambda>digest.
       if dc_tool_name c \<noteq> tool \<or> dc_arguments_digest c \<noteq> digest
       then fail ''Devin sender capability does not match the tool call'' else Inr c)"
proof -
  have cs: "capabilities E d = Inr cs" using assms(1) by (simp add: capabilities_ok_def)
  let ?m = "filter (\<lambda>c. dc_token_digest c = sha256hex E token) (filter (capability_is_fresh now) cs)"
  show thesis
  proof (cases "hex64 token")
    case False
    with assms(2) Refused show thesis by (auto simp: consume_def fail_def)
  next
    case True
    show thesis
    proof (cases "\<exists>c. ?m = [c]")
      case False
      then have "length ?m \<noteq> 1" by (auto simp: length_Suc_conv)
      moreover have "\<exists>e. take_capability now now' (sha256hex E token) cs = Inl e \<and> is_chat_error e"
        using False by (auto simp: take_capability_def Let_def fail_def split: list.splits)
      ultimately show thesis using True cs assms(2) Refused by (auto simp: consume_def conj_commute)
    next
      case f: True
      then obtain c where c: "?m = [c]" by blast
      then have "c \<in> set ?m" by simp
      then have "c \<in> set cs" "capability_is_fresh now c" "dc_token_digest c = sha256hex E token" by auto
      moreover have "take_capability now now' (sha256hex E token) cs = Inr (c, filter (\<lambda>x. x \<noteq> c) (filter (capability_is_fresh now) cs))"
        using c by (simp add: take_capability_def Let_def)
      ultimately show thesis using True cs assms(2) Spent by (auto simp: consume_def)
    qed
  qed
qed

lemma issue_ok:
  assumes "env_ok E" "capabilities_ok E d cs" "issue E now now' token d r prompt tool arguments = Inr (t, d')"
    and "sha256hex E token \<notin> dc_token_digest ` set cs" "list_ex (\<lambda>x. tool = lit x) CAPABILITY_TOOLS"
    and "session_shape Devin (r_session_id r)" "uuid_shape (r_generation r)" "carried_float (float_repr E) (float_parse E) (Fin now)"
  shows "\<exists>c. dc_token_digest c = sha256hex E token \<and>
    capabilities_ok E d' (filter (capability_is_fresh now') cs @ [c]) \<and> length (filter (capability_is_fresh now') cs) < 64"
proof -
  from assms(2,3) obtain digest where i: "capability_arguments_digest E arguments = Inr digest" "uuid_shape prompt"
    "length (filter (capability_is_fresh now') cs) < 64"
    "d' = write_capabilities E d (filter (capability_is_fresh now') cs @
       [\<lparr>dc_token_digest = sha256hex E token, dc_session_id = r_session_id r, dc_generation = r_generation r,
         dc_prompt_id = prompt, dc_tool_name = tool, dc_arguments_digest = digest, dc_issued_at = now\<rparr>])"
    by (auto simp: issue_def capabilities_ok_def bind_Inr_iff Let_def fail_def valid_simps DEVIN_CAPABILITY_MAX_ACTIVE_def split: if_splits)
  let ?c = "\<lparr>dc_token_digest = sha256hex E token, dc_session_id = r_session_id r, dc_generation = r_generation r,
         dc_prompt_id = prompt, dc_tool_name = tool, dc_arguments_digest = digest, dc_issued_at = now\<rparr>"
  have "good_capability E ?c"
    using assms(1,5-8) i(2) digest_ok [OF assms(1) i(1)] by (simp add: good_capability_def env_ok_sha)
  then have "capabilities_ok E d' (filter (capability_is_fresh now') cs @ [?c])"
    using assms(2,4) capabilities_distinct [of E d cs] unfolding i(4)
    by (intro capabilities_ok_write) (auto simp: capabilities_ok_def list_all_iff distinct_map_filter)
  with i(3) show ?thesis by (intro exI [of _ ?c]) simp
qed

lemma revoke_ok:
  assumes "capabilities_ok E d cs" "revoke_session E now d session = Inr d'"
  shows "capabilities_ok E d' (filter (\<lambda>c. dc_session_id c \<noteq> session \<and> capability_is_fresh now c) cs) \<or> d' = d"
  using assms capabilities_ok_filter [of E d cs]
  by (auto simp: revoke_session_def capabilities_ok_def bind_Inr_iff Let_def filter_filter conj_commute split: if_splits)

text \<open>What was spent stays spent: no step brings a digest back but the issue of the same one.\<close>

lemma capability_step_keeps:
  assumes "env_ok E" "capabilities_ok E d cs" "length cs \<le> 64" "capability_step E d e d'"
  obtains cs' where "capabilities_ok E d' cs'" "length cs' \<le> 64"
    "dc_token_digest ` set cs' \<subseteq> set_option e \<union> dc_token_digest ` set cs"
  using assms(4)
proof cases
  case (Issued now now' token r prompt tool arguments t cs0)
  then have "cs0 = cs" using assms(2) by (simp add: capabilities_ok_def)
  with Issued assms(1,2) obtain c where c: "dc_token_digest c = sha256hex E token"
    "capabilities_ok E d' (filter (capability_is_fresh now') cs @ [c])" "length (filter (capability_is_fresh now') cs) < 64"
    using issue_ok [of E d cs now now' token r prompt tool arguments t d'] by blast
  with Issued(1) show thesis by (intro that [OF c(2)]) auto
next
  case (Consumed now now' token tool arguments x)
  show thesis
  proof (rule consume_cases [OF assms(2) Consumed(2)])
    assume "d' = d" then show thesis using that assms(2,3) by blast
  next
    fix c assume "d' = write_capabilities E d (filter (\<lambda>x. x \<noteq> c) (filter (capability_is_fresh now) cs))"
    then have d': "capabilities_ok E d' (filter (\<lambda>x. x \<noteq> c \<and> capability_is_fresh now x) cs)"
      using capabilities_ok_filter [OF assms(2)] by (simp add: filter_filter conj_commute)
    then show thesis using assms(3) by (intro that [OF d']) (auto intro: order_trans [OF length_filter_le])
  qed
next
  case (Revoked now session)
  show thesis
    using revoke_ok [OF assms(2) Revoked(2)]
  proof
    assume d': "capabilities_ok E d' (filter (\<lambda>c. dc_session_id c \<noteq> session \<and> capability_is_fresh now c) cs)"
    then show thesis using assms(3) by (intro that [OF d']) (auto intro: order_trans [OF length_filter_le])
  next
    assume "d' = d" then show thesis using that assms(2,3) by blast
  qed
next
  case Elsewhere
  then have "capabilities_ok E d' cs"
    using assms(2) capabilities_cong [of d' d E] by (simp add: capabilities_ok_def)
  then show thesis using that assms(3) by blast
qed


definition capability_run :: "pyenv \<Rightarrow> str \<Rightarrow> dir \<Rightarrow> dir \<Rightarrow> bool" where
  "capability_run E digest = (\<lambda>d d'. \<exists>e. capability_step E d e d' \<and> e \<noteq> Some digest)\<^sup>*\<^sup>*"

lemma capability_run_keeps:
  assumes "capability_run E digest d d'" "env_ok E" "capabilities_ok E d cs" "length cs \<le> 64" "digest \<notin> dc_token_digest ` set cs"
  shows "\<exists>cs'. capabilities_ok E d' cs' \<and> length cs' \<le> 64 \<and> digest \<notin> dc_token_digest ` set cs'"
  using assms(1) unfolding capability_run_def
proof (induction rule: rtranclp_induct)
  case base
  with assms(3-5) show ?case by blast
next
  case (step y z)
  then obtain cs' e where y: "capabilities_ok E y cs'" "length cs' \<le> 64" "digest \<notin> dc_token_digest ` set cs'"
    "capability_step E y e z" "e \<noteq> Some digest" by blast
  obtain cs'' where "capabilities_ok E z cs''" "length cs'' \<le> 64"
    "dc_token_digest ` set cs'' \<subseteq> set_option e \<union> dc_token_digest ` set cs'"
    by (rule capability_step_keeps [OF assms(2) y(1,2,4)])
  with y(3,5) show ?case by (intro exI [of _ cs'']) (auto simp: subset_iff image_iff)
qed

text \<open>
  C6. A Devin capability acts once. When a token was accepted, or was presented for another tool or
  other arguments, then in every later state, after any operations of any process that do not issue
  the same digest, presenting it again fails and changes nothing, whatever tool, arguments and
  clock. What was accepted is a stored, fresh capability for exactly this tool and these arguments,
  and there are never more than 64.
\<close>

theorem capability_once:
  assumes "env_ok E" "capabilities_ok E d cs" "length cs \<le> 64"
    and "consume E now now' d token tool arguments = (r, d1)" "(\<exists>c. r = Inr c) \<or> d1 \<noteq> d"
    and "capability_run E (sha256hex E token) d1 d2"
  shows "(\<forall>c. r = Inr c \<longrightarrow> c \<in> set cs \<and> 0 \<le> now - dc_issued_at c \<and> now - dc_issued_at c \<le> 120 \<and> dc_tool_name c = tool \<and>
        capability_arguments_digest E arguments = Inr (dc_arguments_digest c)) \<and>
    (\<exists>e. consume E later later' d2 token tool' arguments' = (Inl e, d2) \<and> is_chat_error e) \<and>
    (\<exists>cs'. capabilities E d2 = Inr cs' \<and> length cs' \<le> 64)"
proof (rule consume_cases [OF assms(2,4)])
  fix c assume c: "c \<in> set cs" "capability_is_fresh now c" "dc_token_digest c = sha256hex E token"
    "d1 = write_capabilities E d (filter (\<lambda>x. x \<noteq> c) (filter (capability_is_fresh now) cs))"
    "r = bind (capability_arguments_digest E arguments) (\<lambda>digest.
       if dc_tool_name c \<noteq> tool \<or> dc_arguments_digest c \<noteq> digest
       then fail ''Devin sender capability does not match the tool call'' else Inr c)"
  let ?cs1 = "filter (\<lambda>x. x \<noteq> c \<and> capability_is_fresh now x) cs"
  have d1: "capabilities_ok E d1 ?cs1"
    using capabilities_ok_filter [OF assms(2)] by (simp add: c(4) filter_filter conj_commute)
  have "distinct (map dc_token_digest cs)" using assms(2) by (auto simp: capabilities_ok_def dest: capabilities_distinct)
  then have "x = c" if "x \<in> set cs" "dc_token_digest x = dc_token_digest c" for x
    using c(1) that by (auto simp: distinct_map dest: inj_onD)
  then have gone: "sha256hex E token \<notin> dc_token_digest ` set ?cs1" using c(3) by auto
  have "length ?cs1 \<le> 64" using assms(3) by (auto intro: order_trans [OF length_filter_le])
  from capability_run_keeps [OF assms(6,1) d1 this gone] obtain cs' where
    d2: "capabilities_ok E d2 cs'" "length cs' \<le> 64" "sha256hex E token \<notin> dc_token_digest ` set cs'" by blast
  obtain r' d3 where again: "consume E later later' d2 token tool' arguments' = (r', d3)" by fastforce
  have "\<exists>e. consume E later later' d2 token tool' arguments' = (Inl e, d2) \<and> is_chat_error e"
  proof (rule consume_cases [OF d2(1) again])
    fix c' assume "c' \<in> set cs'" "dc_token_digest c' = sha256hex E token"
    with d2(3) show ?thesis by (metis image_eqI)
  qed (use again in auto)
  with c d2 show ?thesis
    by (auto simp: bind_Inr_iff fail_def capability_is_fresh_def DEVIN_CAPABILITY_TTL_SECONDS_def capabilities_ok_def split: if_splits)
qed (use assms(5) in auto)

definition sample_capability_dir :: dir where
  "sample_capability_dir = write_capabilities sample_env empty_dir
     [\<lparr>dc_token_digest = sha256hex sample_env (sample_hex64 48), dc_session_id = lit ''devin-session'', dc_generation = sample_uuid 49,
       dc_prompt_id = sample_uuid 50, dc_tool_name = lit ''chat_send'',
       dc_arguments_digest = sha256hex sample_env (dumps (float_repr sample_env) False (JObj [])), dc_issued_at = 0\<rparr>]"

lemma sample_time: "carried_float (float_repr sample_env) (float_parse sample_env) (Fin 0)"
proof -
  have "parse_number (\<lambda>_. Fin 0) (48 # 46 # 48 # r) = Inr (JFloat (Fin 0), r)" if "num_stop r" for r
  proof -
    have "takeWhile is_digit (48 # r) = [48]" using takeWhile_digits [of "[48]" r] that by (simp add: is_digit_def)
    then have "frac_part (46 # 48 # r) = ([46, 48], r)"
      using takeWhile_dropWhile_id [of is_digit r] by (simp add: frac_part_def is_digit_def)
    then show ?thesis using num_stop_parts [OF that] by (simp add: parse_number_def num_sign_def num_digits_def Let_def)
  qed
  then show ?thesis by (simp add: carried_float_def sample_env_def is_digit_def)
qed

lemma sample_capabilities:
  "\<exists>c. capabilities_ok sample_env sample_capability_dir [c] \<and> dc_token_digest c = sha256hex sample_env (sample_hex64 48) \<and>
     dc_tool_name c = lit ''chat_send'' \<and> dc_issued_at c = 0 \<and>
     capability_arguments_digest sample_env [] = Inr (dc_arguments_digest c)"
proof -
  have "devin_session_shape (lit ''devin-session'')"
    by (simp add: devin_session_shape_def lit_def is_alnum_def is_lower_def is_upper_def is_digit_def)
  moreover have "encode (dumps (float_repr sample_env) False (JObj [])) = Inr (dumps (float_repr sample_env) False (JObj []))"
    by (simp add: encode_def utf8_encode_def lit_def is_surrogate_def utf8_char_def)
  ultimately show ?thesis unfolding sample_capability_dir_def
    by (intro exI [of _ "\<lparr>dc_token_digest = sha256hex sample_env (sample_hex64 48), dc_session_id = lit ''devin-session'', dc_generation = sample_uuid 49,
       dc_prompt_id = sample_uuid 50, dc_tool_name = lit ''chat_send'',
       dc_arguments_digest = sha256hex sample_env (dumps (float_repr sample_env) False (JObj [])), dc_issued_at = 0\<rparr>"] conjI
       capabilities_ok_write)
      (simp_all add: good_capability_def sample_time env_ok_sha [OF sample_env_ok] session_shape_def CAPABILITY_TOOLS_def sample_simps
        capability_arguments_digest_def)
qed

theorem capability_once_witness:
  "\<exists>c d1. consume sample_env 1 1 sample_capability_dir (sample_hex64 48) (lit ''chat_send'') [] = (Inr c, d1) \<and>
     (\<exists>e. consume sample_env 1 1 d1 (sample_hex64 48) (lit ''chat_send'') [] = (Inl e, d1))"
proof -
  obtain c where c: "capabilities_ok sample_env sample_capability_dir [c]" "dc_token_digest c = sha256hex sample_env (sample_hex64 48)"
    "dc_tool_name c = lit ''chat_send''" "dc_issued_at c = 0" "capability_arguments_digest sample_env [] = Inr (dc_arguments_digest c)"
    using sample_capabilities by blast
  then obtain d1 where d1: "consume sample_env 1 1 sample_capability_dir (sample_hex64 48) (lit ''chat_send'') [] = (Inr c, d1)"
    by (simp add: consume_def capabilities_ok_def take_capability_def capability_is_fresh_def DEVIN_CAPABILITY_TTL_SECONDS_def sample_simps)
  have "capability_run sample_env (sha256hex sample_env (sample_hex64 48)) d1 d1" by (simp add: capability_run_def)
  from capability_once [OF sample_env_ok c(1) _ d1 _ this, of 1 1 "lit ''chat_send''" "[]"] d1 show ?thesis by auto
qed

end
