(* ===== verification/DevinSubagents.thy ===== *)
theory DevinSubagents
  imports DevinStores
begin

text \<open>
  The subagent store of devin.py: the evidence of running subagents that decides which hook of a
  session may carry a message.
\<close>

section \<open>Evidence of subagents\<close>

definition DEVIN_NON_NESTING_PROFILES :: "string list" where
  "DEVIN_NON_NESTING_PROFILES = [''subagent_explore'', ''subagent_general'']"

datatype custody_kind = RootTools | Hold

type_synonym launch_map = "(str \<times> bool) list"

record subagent_entry =
  se_children :: launch_map
  se_pending :: launch_map
  se_uncertain :: bool

type_synonym subagent_table = "(str \<times> subagent_entry) list"

definition bad_subagents :: "'a res" where
  "bad_subagents = fail ''Devin subagent state is invalid''"

definition launch_of :: "str \<times> json \<Rightarrow> (str \<times> bool) res" where
  "launch_of p =
     (case snd p of
        JBool b \<Rightarrow> if fst p \<noteq> [] \<and> length (fst p) \<le> 256 then Inr (fst p, b) else bad_subagents
      | _ \<Rightarrow> bad_subagents)"

definition launches :: "json option \<Rightarrow> launch_map res" where
  "launches v = (case v of Some (JObj d) \<Rightarrow> map_res launch_of d | _ \<Rightarrow> bad_subagents)"

definition ENTRY_FIELDS :: "string list" where
  "ENTRY_FIELDS = [''children'', ''pending'', ''uncertain'']"

definition subagent_entry_of :: "str \<times> json \<Rightarrow> (str \<times> subagent_entry) res" where
  "subagent_entry_of p =
     (case snd p of
        JObj d \<Rightarrow>
          if \<not> hex64 (fst p) \<or> \<not> has_keys d ENTRY_FIELDS then bad_subagents
          else
            bind (get_bool ''Devin subagent state is invalid'' d ''uncertain'') (\<lambda>uncertain.
            bind (launches (jget d ''children'')) (\<lambda>children.
            bind (launches (jget d ''pending'')) (\<lambda>pending.
            Inr (fst p, \<lparr>se_children = children, se_pending = pending, se_uncertain = uncertain\<rparr>))))
      | _ \<Rightarrow> bad_subagents)"

definition SUBAGENT_FILE :: str where
  "SUBAGENT_FILE = lit ''devin-subagent-lifecycle.v2.json''"

definition uncertain_path :: "str \<Rightarrow> str" where
  "uncertain_path key = lit ''devin-subagent-uncertain/'' @ key"

definition subagent_entries :: "pyenv \<Rightarrow> dir \<Rightarrow> subagent_table res" where
  "subagent_entries E d =
     (case files d SUBAGENT_FILE of
        None \<Rightarrow> Inr []
      | Some f \<Rightarrow>
          bind (read_private_json E d SUBAGENT_FILE ''Devin subagent state is invalid'' f) (\<lambda>raw.
          case raw of JObj kvs \<Rightarrow> map_res subagent_entry_of kvs | _ \<Rightarrow> bad_subagents))"

definition launches_json :: "launch_map \<Rightarrow> json" where
  "launches_json m = JObj (map (\<lambda>(k, b). (k, JBool b)) m)"

definition subagent_json :: "subagent_entry \<Rightarrow> json" where
  "subagent_json x = JObj
     [(lit ''children'', launches_json (se_children x)), (lit ''pending'', launches_json (se_pending x)),
      (lit ''uncertain'', JBool (se_uncertain x))]"

definition write_subagents :: "pyenv \<Rightarrow> dir \<Rightarrow> subagent_table \<Rightarrow> dir" where
  "write_subagents E d es = atomic_json E d SUBAGENT_FILE (JObj (map (\<lambda>(k, x). (k, subagent_json x)) es))"

text \<open>
  A change maps the children and the pending launches to new ones and whether evidence was lost.
  \<open>live\<close> are the keys of the sessions that have a route; only others are forgotten.
\<close>

type_synonym subagent_change = "launch_map \<Rightarrow> launch_map \<Rightarrow> (launch_map \<times> launch_map \<times> bool) res"

definition changed_entry :: "subagent_change \<Rightarrow> subagent_entry \<Rightarrow> subagent_entry res" where
  "changed_entry change x =
     bind (change (se_children x) (se_pending x)) (\<lambda>(children, pending, lost).
     Inr \<lparr>se_children = children, se_pending = pending, se_uncertain = se_uncertain x \<or> lost\<rparr>)"

definition stored_entry :: "str \<Rightarrow> subagent_entry \<Rightarrow> subagent_table \<Rightarrow> subagent_table" where
  "stored_entry key x es =
     (if se_children x \<noteq> [] \<or> se_pending x \<noteq> [] \<or> se_uncertain x then AList.update key x es else AList.delete key es)"

definition kept_entries :: "str \<Rightarrow> str list option \<Rightarrow> subagent_table \<Rightarrow> subagent_table" where
  "kept_entries key live es =
     (case live of None \<Rightarrow> es | Some keys \<Rightarrow> filter (\<lambda>p. fst p = key \<or> fst p \<in> set keys) es)"

definition update_subagents :: "pyenv \<Rightarrow> dir \<Rightarrow> str \<Rightarrow> subagent_change \<Rightarrow> str list option \<Rightarrow> bool \<Rightarrow> dir res" where
  "update_subagents E d session_id change live create =
     bind (session_key E Devin session_id) (\<lambda>key.
     bind (subagent_entries E d) (\<lambda>es.
     case (map_of es key, create) of
       (None, False) \<Rightarrow> Inr d
     | (found, _) \<Rightarrow>
         bind (changed_entry change (case found of Some x \<Rightarrow> x | None \<Rightarrow> \<lparr>se_children = [], se_pending = [], se_uncertain = False\<rparr>))
           (\<lambda>x. Inr (write_subagents E d (kept_entries key live (stored_entry key x es))))))"

definition any_nesting :: "launch_map \<Rightarrow> bool" where
  "any_nesting m \<longleftrightarrow> list_ex snd m"

definition subagent_custody :: "pyenv \<Rightarrow> dir \<Rightarrow> str \<Rightarrow> custody_kind option res" where
  "subagent_custody E d session_id =
     bind (session_key E Devin session_id) (\<lambda>key.
     if files d (uncertain_path key) \<noteq> None then Inr (Some Hold)
     else
       bind (subagent_entries E d) (\<lambda>es.
       Inr (case map_of es key of
              None \<Rightarrow> None
            | Some x \<Rightarrow>
                if se_uncertain x \<or> any_nesting (se_children x) \<or> any_nesting (se_pending x) then Some Hold else Some RootTools)))"

definition restriction :: "pyenv \<Rightarrow> dir \<Rightarrow> str \<Rightarrow> str res" where
  "restriction E d session_id =
     bind (session_key E Devin session_id) (\<lambda>key.
     if files d (uncertain_path key) \<noteq> None then Inr (lit ''next_prompt_unobserved_launch'')
     else
       bind (subagent_entries E d) (\<lambda>es.
       Inr (case map_of es key of
              None \<Rightarrow> lit ''unrestricted''
            | Some x \<Rightarrow>
                if se_uncertain x then lit ''next_prompt_unobserved_launch''
                else if any_nesting (se_children x) \<or> any_nesting (se_pending x) then lit ''next_prompt_custom_subagent''
                else lit ''root_tools_only'')))"

definition launch_change :: "str option \<Rightarrow> json option \<Rightarrow> subagent_change" where
  "launch_change tool_use_id profile children pending =
     (case tool_use_id of
        None \<Rightarrow> Inr (children, pending, True)
      | Some t \<Rightarrow>
          bind (case profile of None \<Rightarrow> Inr False | Some p \<Rightarrow> hashed_in p DEVIN_NON_NESTING_PROFILES) (\<lambda>builtin.
          Inr (children, AList.update t (\<not> builtin) pending, False)))"

definition launch :: "pyenv \<Rightarrow> dir \<Rightarrow> str \<Rightarrow> str option \<Rightarrow> json option \<Rightarrow> str list option \<Rightarrow> dir res" where
  "launch E d session_id tool_use_id profile live =
     update_subagents E d session_id (launch_change tool_use_id profile) live True"

definition launched_change :: "pyenv \<Rightarrow> str option \<Rightarrow> str \<Rightarrow> subagent_change" where
  "launched_change E tool_use_id report children pending =
     (let known = Option.bind tool_use_id (map_of pending);
          pending' = (case tool_use_id of None \<Rightarrow> pending | Some t \<Rightarrow> AList.delete t pending);
          may_nest = (case known of None \<Rightarrow> True | Some b \<Rightarrow> b);
          started = subagent_started E report
      in Inr (case started of None \<Rightarrow> children | Some a \<Rightarrow> AList.update a may_nest children, pending',
              known = None \<or> (started = None \<and> subagent_finished E report = None)))"

definition launched :: "pyenv \<Rightarrow> dir \<Rightarrow> str \<Rightarrow> str option \<Rightarrow> str \<Rightarrow> str list option \<Rightarrow> dir res" where
  "launched E d session_id tool_use_id report live =
     update_subagents E d session_id (launched_change E tool_use_id report) live True"

definition read_agent :: "pyenv \<Rightarrow> dir \<Rightarrow> str \<Rightarrow> json option \<Rightarrow> str \<Rightarrow> str list option \<Rightarrow> dir res" where
  "read_agent E d session_id agent_id report live =
     (case (as_str agent_id, subagent_finished E report) of
        (Some a, Some b) \<Rightarrow>
          if a \<noteq> b then Inr d
          else update_subagents E d session_id (\<lambda>children pending. Inr (AList.delete a children, pending, False)) live False
      | _ \<Rightarrow> Inr d)"

text \<open>\<open>opened\<close> is whether the marker file could be created.\<close>

definition mark_uncertain :: "pyenv \<Rightarrow> bool \<Rightarrow> dir \<Rightarrow> str \<Rightarrow> dir res" where
  "mark_uncertain E opened d session_id =
     bind (session_key E Devin session_id) (\<lambda>key.
     if \<not> opened then Inl OSError
     else if files d (uncertain_path key) \<noteq> None then Inr d
     else Inr (d\<lparr>files := (files d)(uncertain_path key \<mapsto> \<lparr>is_private = True, data = []\<rparr>)\<rparr>))"

text \<open>The marker is removed before the entries are read: an unreadable file leaves it removed.\<close>

definition clear_subagents :: "pyenv \<Rightarrow> dir \<Rightarrow> str \<Rightarrow> unit res \<times> dir" where
  "clear_subagents E d session_id =
     (case session_key E Devin session_id of
        Inl e \<Rightarrow> (Inl e, d)
      | Inr key \<Rightarrow>
          (let d1 = unlink d (uncertain_path key) in
           case subagent_entries E d1 of
             Inl e \<Rightarrow> (Inl e, d1)
           | Inr es \<Rightarrow>
               (Inr (), if map_of es key = None then d1 else write_subagents E d1 (AList.delete key es))))"



section \<open>The store on disk\<close>

definition launch_id_ok :: "str \<Rightarrow> bool" where
  "launch_id_ok k \<longleftrightarrow> k \<noteq> [] \<and> length k \<le> 256 \<and> list_all (printable True) k"

definition launches_ok :: "launch_map \<Rightarrow> bool" where
  "launches_ok m \<longleftrightarrow> distinct (map fst m) \<and> list_all (\<lambda>p. launch_id_ok (fst p)) m"

definition entry_ok :: "subagent_entry \<Rightarrow> bool" where
  "entry_ok x \<longleftrightarrow> launches_ok (se_children x) \<and> launches_ok (se_pending x)"

definition entries_ok :: "subagent_table \<Rightarrow> bool" where
  "entries_ok es \<longleftrightarrow> distinct (map fst es) \<and> list_all (\<lambda>p. hex64 (fst p) \<and> entry_ok (snd p)) es"

text \<open>What an entry says, whatever the order its keys were written in.\<close>

type_synonym subagent_view = "(str \<rightharpoonup> bool) \<times> (str \<rightharpoonup> bool) \<times> bool"

definition entry_view :: "subagent_entry \<Rightarrow> subagent_view" where
  "entry_view x = (map_of (se_children x), map_of (se_pending x), se_uncertain x)"

definition entries_view :: "subagent_table \<Rightarrow> str \<Rightarrow> subagent_view option" where
  "entries_view es k = map_option entry_view (map_of es k)"

fun unbool :: "json \<Rightarrow> bool" where
  "unbool (JBool b) = b"
| "unbool _ = False"

lemma launches_sorted:
  assumes "launches_ok m"
  shows "\<exists>m'. launches (Some (sort_keys (launches_json m))) = Inr m' \<and> launches_ok m' \<and> map_of m' = map_of m"
proof -
  define d where "d = map (\<lambda>(k, b). (k, JBool b)) m"
  define sd where "sd = sort_dict d"
  let ?m' = "map (\<lambda>(k, v). (k, unbool v)) sd"
  have d: "distinct (map fst d)" using assms by (simp add: d_def launches_ok_def comp_def case_prod_unfold)
  have set: "set sd = (\<lambda>(k, b). (k, JBool b)) ` set m"
    unfolding sd_def set_sort_dict by (force simp: d_def image_image)
  have keys: "distinct (map fst sd)" unfolding sd_def by (rule distinct_sort_dict [OF d])
  have "launch_of p = Inr (fst p, unbool (snd p))" if "p \<in> set sd" for p
    using that assms by (auto simp: set launch_of_def launches_ok_def launch_id_ok_def list_all_iff)
  then have "map_res launch_of sd = Inr (map (\<lambda>p. (fst p, unbool (snd p))) sd)" using map_res_map_Inr [of sd launch_of "\<lambda>p. p" "\<lambda>p. (fst p, unbool (snd p))"] by simp
  then have r: "map_res launch_of sd = Inr ?m'" by (simp add: case_prod_unfold)
  have "set ?m' = set m" by (force simp: set)
  moreover have "distinct (map fst ?m')" using keys by (simp add: comp_def case_prod_unfold)
  ultimately have "launches_ok ?m'" "map_of ?m' = map_of m"
    using assms by (auto simp: launches_ok_def list_all_iff map_of_inject_set)
  moreover have "sort_keys (launches_json m) = JObj sd" by (simp add: launches_json_def sd_def d_def)
  ultimately show ?thesis using r by (intro exI [of _ ?m']) (simp add: launches_def)
qed

lemma entry_sorted:
  assumes "hex64 k" "entry_ok x"
  shows "\<exists>x'. subagent_entry_of (k, sort_keys (subagent_json x)) = Inr (k, x') \<and> entry_ok x' \<and> entry_view x' = entry_view x"
proof -
  define d where "d = [(lit ''children'', launches_json (se_children x)), (lit ''pending'', launches_json (se_pending x)),
     (lit ''uncertain'', JBool (se_uncertain x))]"
  have d: "distinct (map fst d)" "has_keys d ENTRY_FIELDS" by (simp_all add: d_def has_keys_def ENTRY_FIELDS_def)
  obtain c where c: "launches (Some (sort_keys (launches_json (se_children x)))) = Inr c" "launches_ok c" "map_of c = map_of (se_children x)"
    using launches_sorted assms(2) by (auto simp: entry_ok_def)
  obtain q where q: "launches (Some (sort_keys (launches_json (se_pending x)))) = Inr q" "launches_ok q" "map_of q = map_of (se_pending x)"
    using launches_sorted assms(2) by (auto simp: entry_ok_def)
  have "jget (sort_dict d) ''children'' = Some (sort_keys (launches_json (se_children x)))"
    "jget (sort_dict d) ''pending'' = Some (sort_keys (launches_json (se_pending x)))"
    "jget (sort_dict d) ''uncertain'' = Some (JBool (se_uncertain x))"
    by (simp_all only: map_of_sort_dict [OF d(1)]) (simp_all add: d_def)
  moreover have "sort_keys (subagent_json x) = JObj (sort_dict d)" by (simp add: subagent_json_def d_def)
  moreover have "has_keys (sort_dict d) ENTRY_FIELDS" by (simp only: has_keys_sort_dict d(2))
  ultimately show ?thesis using assms(1) c q
    by (intro exI [of _ "\<lparr>se_children = c, se_pending = q, se_uncertain = se_uncertain x\<rparr>"])
      (simp add: subagent_entry_of_def get_bool_def entry_ok_def entry_view_def)
qed

lemma entries_plain:
  assumes "entries_ok es"
  shows "plain True (JObj (map (\<lambda>(k, x). (k, subagent_json x)) es))"
proof -
  have "plain True (launches_json m)" if "launches_ok m" for m
    using that by (auto simp: launches_json_def launches_ok_def launch_id_ok_def list_all_iff comp_def case_prod_unfold)
  then have x: "plain True (subagent_json x)" if "entry_ok x" for x
    using that by (simp add: entry_ok_def subagent_json_def lit_printable)
  have "list_all (\<lambda>p. list_all (printable True) (fst p) \<and> plain True (snd p)) (map (\<lambda>(k, x). (k, subagent_json x)) es)"
    using assms x hex64_printable by (fastforce simp: entries_ok_def list_all_iff)
  then show ?thesis using assms by (simp add: entries_ok_def comp_def case_prod_unfold)
qed

text \<open>What was written is read back as the same evidence.\<close>

lemma entries_written:
  assumes "entries_ok es"
  shows "\<exists>es'. subagent_entries E (write_subagents E d es) = Inr es' \<and> entries_ok es' \<and> entries_view es' = entries_view es"
proof -
  define j where "j = map (\<lambda>(k, x). (k, subagent_json x)) es"
  define sd where "sd = sort_dict j"
  have j: "distinct (map fst j)" using assms by (simp add: j_def entries_ok_def comp_def case_prod_unfold)
  have keys: "distinct (map fst sd)" unfolding sd_def by (rule distinct_sort_dict [OF j])
  have mo: "map_of sd k = map_option (\<lambda>x. sort_keys (subagent_json x)) (map_of es k)" for k
    unfolding sd_def map_of_sort_dict [OF j] by (simp add: j_def map_of_map option.map_comp comp_def)
  have "\<forall>p. \<exists>x'. p \<in> set sd \<longrightarrow> subagent_entry_of p = Inr (fst p, x') \<and> entry_ok x' \<and>
      map_option entry_view (map_of es (fst p)) = Some (entry_view x') \<and> hex64 (fst p)"
  proof (intro allI)
    fix p
    show "\<exists>x'. p \<in> set sd \<longrightarrow> subagent_entry_of p = Inr (fst p, x') \<and> entry_ok x' \<and>
      map_option entry_view (map_of es (fst p)) = Some (entry_view x') \<and> hex64 (fst p)"
    proof (cases "p \<in> set sd")
      case True
      then have "map_of sd (fst p) = Some (snd p)" using keys by (simp add: map_of_is_SomeI)
      then obtain x where x: "map_of es (fst p) = Some x" "snd p = sort_keys (subagent_json x)" by (auto simp: mo)
      then have "(fst p, x) \<in> set es" by (simp add: map_of_SomeD)
      then have ok: "hex64 (fst p)" "entry_ok x" using assms by (auto simp: entries_ok_def list_all_iff)
      from entry_sorted [OF ok] obtain x' where
        "subagent_entry_of (fst p, sort_keys (subagent_json x)) = Inr (fst p, x')" "entry_ok x'" "entry_view x' = entry_view x" by blast
      with x ok show ?thesis by (metis prod.collapse option.simps(9))
    qed blast
  qed
  then obtain g where g: "\<And>p. p \<in> set sd \<Longrightarrow> subagent_entry_of p = Inr (fst p, g p) \<and> entry_ok (g p) \<and>
      map_option entry_view (map_of es (fst p)) = Some (entry_view (g p)) \<and> hex64 (fst p)" by metis
  let ?es' = "map (\<lambda>p. (fst p, g p)) sd"
  have r: "map_res subagent_entry_of sd = Inr ?es'" using g map_res_map_Inr [of sd subagent_entry_of "\<lambda>p. p" "\<lambda>p. (fst p, g p)"] by simp
  have dist: "distinct (map fst ?es')" using keys by (simp add: comp_def)
  have ok: "entries_ok ?es'" using dist g by (simp add: entries_ok_def list_all_iff)
  have "entries_view ?es' k = entries_view es k" for k
  proof (cases "map_of sd k")
    case None
    then have "k \<notin> fst ` set sd" by (simp add: map_of_eq_None_iff)
    then have "map_of ?es' k = None" by (force simp: map_of_eq_None_iff)
    with None show ?thesis by (simp add: entries_view_def mo)
  next
    case (Some v)
    then have p: "(k, v) \<in> set sd" by (rule map_of_SomeD)
    then have "(k, g (k, v)) \<in> set ?es'" by force
    with dist have "map_of ?es' k = Some (g (k, v))" by (simp add: map_of_is_SomeI del: set_map)
    with g [OF p] show ?thesis by (auto simp: entries_view_def)
  qed
  moreover have "subagent_entries E (write_subagents E d es) = Inr ?es'"
    using r read_written [OF entries_plain [OF assms], of E d SUBAGENT_FILE "''Devin subagent state is invalid''"]
    by (simp add: subagent_entries_def write_subagents_def j_def [symmetric] sd_def [symmetric] del: plain.simps)
  ultimately show ?thesis using ok by (intro exI [of _ ?es']) auto
qed


section \<open>What an update does\<close>

definition subagents_ok :: "pyenv \<Rightarrow> dir \<Rightarrow> subagent_table \<Rightarrow> bool" where
  "subagents_ok E d es \<longleftrightarrow> subagent_entries E d = Inr es \<and> entries_ok es"

definition sound_change :: "subagent_change \<Rightarrow> bool" where
  "sound_change change \<longleftrightarrow>
     (\<forall>c p c' p' l. launches_ok c \<and> launches_ok p \<and> change c p = Inr (c', p', l) \<longrightarrow> launches_ok c' \<and> launches_ok p')"

lemma set_update: "set (AList.update k x es) \<subseteq> insert (k, x) (set es)"
  by (induction es) auto

lemma set_delete: "set (AList.delete k es) \<subseteq> set es"
  by (auto simp: AList.delete_eq)

lemma launches_ok_update: "launches_ok m \<Longrightarrow> launch_id_ok k \<Longrightarrow> launches_ok (AList.update k b m)"
  using set_update [of k b m] by (fastforce simp: launches_ok_def distinct_update list_all_iff)

lemma launches_ok_delete: "launches_ok m \<Longrightarrow> launches_ok (AList.delete k m)"
  using set_delete [of k m] by (auto simp: launches_ok_def distinct_delete list_all_iff)

lemma launches_ok_Nil [simp]: "launches_ok []"
  by (simp add: launches_ok_def)

lemma view_empty: "entry_view \<lparr>se_children = [], se_pending = [], se_uncertain = False\<rparr> = (Map.empty, Map.empty, False)"
  by (simp add: entry_view_def)

definition empty_entry :: subagent_entry where
  "empty_entry = \<lparr>se_children = [], se_pending = [], se_uncertain = False\<rparr>"

lemma stored_ok:
  assumes "entries_ok es" "hex64 key" "entry_ok x"
  shows "entries_ok (kept_entries key live (stored_entry key x es))"
proof -
  have "entries_ok (stored_entry key x es)"
  proof (cases "se_children x \<noteq> [] \<or> se_pending x \<noteq> [] \<or> se_uncertain x")
    case True
    with assms have "list_all (\<lambda>p. hex64 (fst p) \<and> entry_ok (snd p)) (AList.update key x es)"
      using set_update [of key x es] by (fastforce simp: entries_ok_def list_all_iff)
    with True assms(1) show ?thesis by (simp add: stored_entry_def entries_ok_def distinct_update)
  next
    case False
    have "list_all (\<lambda>p. hex64 (fst p) \<and> entry_ok (snd p)) (AList.delete key es)"
      using set_delete [of key es] assms(1) by (fastforce simp: entries_ok_def list_all_iff)
    with False assms(1) show ?thesis by (simp add: stored_entry_def entries_ok_def distinct_delete)
  qed
  then show ?thesis by (auto simp: kept_entries_def entries_ok_def list_all_iff distinct_map_filter split: option.splits)
qed

lemma stored_view:
  assumes "entries_ok es"
  shows "entries_view (kept_entries key live (stored_entry key x es)) k =
    (if k = key then (if se_children x \<noteq> [] \<or> se_pending x \<noteq> [] \<or> se_uncertain x then Some (entry_view x) else None)
     else if live = None \<or> k \<in> set (the live) then entries_view es k else None)"
proof -
  have kept: "map_of (filter (\<lambda>p. fst p = key \<or> fst p \<in> set ks) es') k = (if k = key \<or> k \<in> set ks then map_of es' k else None)"
    for ks and es' :: subagent_table
    by (induction es') auto
  show ?thesis
    by (cases live) (auto simp: entries_view_def kept_entries_def stored_entry_def kept update_conv' delete_conv')
qed

lemma update_subagents_spec:
  assumes "subagents_ok E d es" "update_subagents E d session change live create = Inr d'" "session_key E Devin session = Inr key"
    and "sound_change change" "hex64 key"
  obtains (Same) "d' = d" "map_of es key = None" "\<not> create"
  | (Written) x es' where "changed_entry change (case map_of es key of Some x \<Rightarrow> x | None \<Rightarrow> empty_entry) = Inr x"
    "subagents_ok E d' es'" "entries_view es' = entries_view (kept_entries key live (stored_entry key x es))"
    "\<And>n. n \<noteq> SUBAGENT_FILE \<Longrightarrow> files d' n = files d n" "root_path d' = root_path d"
proof (cases "map_of es key = None \<and> \<not> create")
  case True
  with assms(1-3) Same show thesis by (simp add: update_subagents_def subagents_ok_def)
next
  case False
  define x0 where "x0 = (case map_of es key of Some x \<Rightarrow> x | None \<Rightarrow> empty_entry)"
  from False assms(1-3) obtain x where x: "changed_entry change x0 = Inr x"
    "d' = write_subagents E d (kept_entries key live (stored_entry key x es))"
    by (cases "map_of es key"; cases create) (auto simp: update_subagents_def subagents_ok_def bind_Inr_iff empty_entry_def x0_def)
  have es: "entries_ok es" using assms(1) by (simp add: subagents_ok_def)
  have x0: "launches_ok (se_children x0)" "launches_ok (se_pending x0)"
    using es by (auto simp: x0_def entry_ok_def empty_entry_def entries_ok_def list_all_iff split: option.splits dest!: map_of_SomeD)
  obtain c p l where c: "change (se_children x0) (se_pending x0) = Inr (c, p, l)"
    "x = \<lparr>se_children = c, se_pending = p, se_uncertain = se_uncertain x0 \<or> l\<rparr>"
    using x(1) by (auto simp: changed_entry_def bind_Inr_iff)
  have "launches_ok c \<and> launches_ok p" using assms(4) x0 c(1) unfolding sound_change_def by blast
  then have "entry_ok x" by (simp add: c(2) entry_ok_def)
  from entries_written [OF stored_ok [OF es assms(5) this], of E d live] obtain es' where
    w: "subagents_ok E d' es'" "entries_view es' = entries_view (kept_entries key live (stored_entry key x es))"
    by (auto simp: subagents_ok_def x(2))
  show thesis by (rule Written [OF x(1) [unfolded x0_def] w]) (simp_all add: x(2) write_subagents_def)
qed


section \<open>Evidence\<close>

text \<open>A launch that has not returned, a child that is not known to have ended, or lost evidence.\<close>

datatype evidence = Pending str | Child str | Lost

fun evident_in :: "evidence \<Rightarrow> bool \<Rightarrow> subagent_view \<Rightarrow> bool" where
  "evident_in (Pending t) b v \<longleftrightarrow> fst (snd v) t = Some b"
| "evident_in (Child a) b v \<longleftrightarrow> fst v a = Some b"
| "evident_in Lost b v \<longleftrightarrow> b \<and> snd (snd v)"

text \<open>\<open>b\<close> tells whether the child may start others; lost evidence counts as that.\<close>

definition evident :: "pyenv \<Rightarrow> dir \<Rightarrow> str \<Rightarrow> evidence \<Rightarrow> bool \<Rightarrow> bool" where
  "evident E d key ev b \<longleftrightarrow>
     (\<exists>es. subagents_ok E d es \<and>
        (ev = Lost \<and> b \<and> files d (uncertain_path key) \<noteq> None \<or> (\<exists>v. entries_view es key = Some v \<and> evident_in ev b v)))"

lemma any_nesting_iff: "launches_ok m \<Longrightarrow> any_nesting m \<longleftrightarrow> (\<exists>k. map_of m k = Some True)"
proof
  assume "launches_ok m" "any_nesting m"
  then obtain k where "(k, True) \<in> set m" by (auto simp: any_nesting_def list_ex_iff)
  with \<open>launches_ok m\<close> show "\<exists>k. map_of m k = Some True" by (auto simp: launches_ok_def dest: map_of_is_SomeI)
qed (force simp: any_nesting_def list_ex_iff dest: map_of_SomeD)

lemma custody_view:
  assumes "subagents_ok E d es" "session_key E Devin session = Inr key"
  shows "subagent_custody E d session = Inr
    (if files d (uncertain_path key) \<noteq> None then Some Hold
     else case entries_view es key of
       None \<Rightarrow> None
     | Some (c, p, u) \<Rightarrow> if u \<or> (\<exists>k. c k = Some True) \<or> (\<exists>k. p k = Some True) then Some Hold else Some RootTools)"
proof (cases "map_of es key")
  case (Some x)
  then have "entry_ok x" using assms(1) by (auto simp: subagents_ok_def entries_ok_def list_all_iff dest!: map_of_SomeD)
  with Some assms show ?thesis
    by (simp add: subagent_custody_def subagents_ok_def entries_view_def entry_view_def any_nesting_iff entry_ok_def)
qed (use assms in \<open>simp add: subagent_custody_def subagents_ok_def entries_view_def\<close>)

lemma evident_custody:
  assumes "evident E d key ev b" "session_key E Devin session = Inr key"
  shows "\<exists>c. subagent_custody E d session = Inr (Some c) \<and> (b \<longrightarrow> c = Hold)"
proof -
  from assms(1) obtain es where es: "subagents_ok E d es"
    "ev = Lost \<and> b \<and> files d (uncertain_path key) \<noteq> None \<or> (\<exists>v. entries_view es key = Some v \<and> evident_in ev b v)"
    by (auto simp: evident_def)
  show ?thesis
  proof (cases "files d (uncertain_path key) \<noteq> None")
    case False
    with es(2) obtain c p u where "entries_view es key = Some (c, p, u)" "evident_in ev b (c, p, u)" by auto
    with False show ?thesis by (cases ev) (auto simp: custody_view [OF es(1) assms(2)])
  qed (simp add: custody_view [OF es(1) assms(2)])
qed

text \<open>What the hooks of all sessions do to the store; an operation that fails leaves it as it was.\<close>

datatype subagent_event =
    EvLaunch str "str option" "str list option"
  | EvLaunched str "str option" str "str list option"
  | EvRead str "json option" str "str list option"
  | EvMark str
  | EvClear str
  | EvOther

inductive subagent_step :: "pyenv \<Rightarrow> dir \<Rightarrow> subagent_event \<Rightarrow> dir \<Rightarrow> bool" for E :: pyenv where
  Launch: "subagent_step E d (EvLaunch s t live) d'"
    if "launch E d s t profile live = Inr d'" "\<forall>x. t = Some x \<longrightarrow> launch_id_ok x"
| Launched: "subagent_step E d (EvLaunched s t report live) d'" if "launched E d s t report live = Inr d'"
| Read: "subagent_step E d (EvRead s agent report live) d'" if "read_agent E d s agent report live = Inr d'"
| Mark: "subagent_step E d (EvMark s) d'" if "mark_uncertain E True d s = Inr d'"
| Clear: "subagent_step E d (EvClear s) d'" if "clear_subagents E d s = (r, d')"
| Other: "subagent_step E d EvOther d'"
    if "files d' SUBAGENT_FILE = files d SUBAGENT_FILE" "\<forall>key. files d' (uncertain_path key) = files d (uncertain_path key)"
      "root_path d' = root_path d"

text \<open>The events that may end a piece of evidence of the session with this key.\<close>

fun may_end :: "pyenv \<Rightarrow> str \<Rightarrow> evidence \<Rightarrow> subagent_event \<Rightarrow> bool" where
  "may_end E key ev (EvClear s) \<longleftrightarrow> session_key E Devin s = Inr key"
| "may_end E key ev (EvLaunch s t live) \<longleftrightarrow>
     session_key E Devin s = Inr key \<and> (\<exists>x. ev = Pending x \<and> t = Some x) \<or>
     session_key E Devin s \<noteq> Inr key \<and> live \<noteq> None \<and> key \<notin> set (the live)"
| "may_end E key ev (EvLaunched s t report live) \<longleftrightarrow>
     session_key E Devin s = Inr key \<and> ((\<exists>x. ev = Pending x \<and> t = Some x) \<or> (\<exists>a. ev = Child a \<and> subagent_started E report = Some a)) \<or>
     session_key E Devin s \<noteq> Inr key \<and> live \<noteq> None \<and> key \<notin> set (the live)"
| "may_end E key ev (EvRead s agent report live) \<longleftrightarrow>
     session_key E Devin s = Inr key \<and> (\<exists>a. ev = Child a \<and> agent = Some (JStr a) \<and> subagent_finished E report = Some a) \<or>
     session_key E Devin s \<noteq> Inr key \<and> live \<noteq> None \<and> key \<notin> set (the live)"
| "may_end E key ev (EvMark s) \<longleftrightarrow> False"
| "may_end E key ev EvOther \<longleftrightarrow> False"

lemma longest_agent_ok: "longest_agent E s n = Some a \<Longrightarrow> \<exists>m. 0 < m \<and> m \<le> n \<and> a = take m s"
  by (induction n) (auto split: if_splits intro: le_SucI)

lemma agent_match_ok: "agent_match E s = Some a \<Longrightarrow> launch_id_ok a"
proof -
  assume "agent_match E s = Some a"
  then have a: "s \<noteq> []" "longest_agent E s (min 64 (length (takeWhile is_agent_char s))) = Some a"
    by (auto simp: agent_match_def split: if_splits)
  then obtain m where m: "0 < m" "m \<le> 64" "m \<le> length (takeWhile is_agent_char s)" "a = take m s"
    using longest_agent_ok by force
  have "takeWhile is_agent_char s = take (length (takeWhile is_agent_char s)) s" by (rule takeWhile_eq_take)
  with m(3,4) have "a = take m (takeWhile is_agent_char s)" by (metis min.absorb1 take_take)
  then have "\<forall>c \<in> set a. is_agent_char c" by (auto dest!: in_set_takeD set_takeWhileD)
  moreover have "\<forall>c. is_agent_char c \<longrightarrow> printable True c"
    by (auto simp: is_agent_char_def printable_def is_code_point_def is_surrogate_def is_alnum_def is_digit_def is_upper_def is_lower_def)
  ultimately show ?thesis using a(1) m by (auto simp: launch_id_ok_def list_all_iff)
qed

lemma subagent_started_ok: "subagent_started E s = Some a \<Longrightarrow> launch_id_ok a"
  by (induction s) (auto split: option.splits if_splits dest: agent_match_ok)


section \<open>Evidence stays\<close>

lemma launch_sound: "\<forall>x. t = Some x \<longrightarrow> launch_id_ok x \<Longrightarrow> sound_change (launch_change t profile)"
  by (cases t) (auto simp: sound_change_def launch_change_def bind_Inr_iff intro: launches_ok_update)

lemma launched_sound: "sound_change (launched_change E t report)"
  using subagent_started_ok [of E report]
  by (auto simp: sound_change_def launched_change_def Let_def intro!: launches_ok_update launches_ok_delete split: option.splits)

lemma read_sound: "sound_change (\<lambda>children pending. Inr (AList.delete a children, pending, False))"
  by (auto simp: sound_change_def intro: launches_ok_delete)

lemma session_key_hex: "env_ok E \<Longrightarrow> session_key E Devin s = Inr key \<Longrightarrow> hex64 key"
  by (auto simp: session_key_def bind_Inr_iff)

lemma uncertain_path_other [simp]: "uncertain_path key \<noteq> SUBAGENT_FILE" "SUBAGENT_FILE \<noteq> uncertain_path key"
  by (simp_all add: uncertain_path_def SUBAGENT_FILE_def lit_def)

text \<open>An update keeps the evidence of other live sessions, and of its own what the change keeps.\<close>

lemma update_keeps:
  assumes "env_ok E" "evident E d key ev b" "update_subagents E d session change live create = Inr d'"
    and "session_key E Devin session = Inr k" "sound_change change"
    and "k \<noteq> key \<Longrightarrow> live = None \<or> key \<in> set (the live)"
    and "\<And>c p c' p' l u. k = key \<Longrightarrow> change c p = Inr (c', p', l) \<Longrightarrow> evident_in ev b (map_of c, map_of p, u) \<Longrightarrow>
           evident_in ev b (map_of c', map_of p', u \<or> l) \<and> (c' \<noteq> [] \<or> p' \<noteq> [] \<or> u \<or> l)"
  shows "evident E d' key ev b"
proof -
  from assms(2) obtain es where es: "subagents_ok E d es"
    "ev = Lost \<and> b \<and> files d (uncertain_path key) \<noteq> None \<or> (\<exists>v. entries_view es key = Some v \<and> evident_in ev b v)"
    by (auto simp: evident_def)
  show ?thesis
  proof (rule update_subagents_spec [OF es(1) assms(3,4,5) session_key_hex [OF assms(1,4)]])
    assume "d' = d" with assms(2) show ?thesis by simp
  next
    fix x es'
    assume x: "changed_entry change (case map_of es k of Some x \<Rightarrow> x | None \<Rightarrow> empty_entry) = Inr x"
      and es': "subagents_ok E d' es'" "entries_view es' = entries_view (kept_entries k live (stored_entry k x es))"
      and f: "\<And>n. n \<noteq> SUBAGENT_FILE \<Longrightarrow> files d' n = files d n"
    have eo: "entries_ok es" using es(1) by (simp add: subagents_ok_def)
    show ?thesis
    proof (cases "ev = Lost \<and> b \<and> files d (uncertain_path key) \<noteq> None")
      case True
      with es'(1) f [of "uncertain_path key"] show ?thesis by (auto simp: evident_def)
    next
      case False
      with es(2) obtain v where v: "entries_view es key = Some v" "evident_in ev b v" by blast
      show ?thesis
      proof (cases "k = key")
        case True
        with v(1) obtain y where y: "map_of es key = Some y" "v = entry_view y" by (auto simp: entries_view_def)
        with x True obtain c p l where c: "change (se_children y) (se_pending y) = Inr (c, p, l)"
          "x = \<lparr>se_children = c, se_pending = p, se_uncertain = se_uncertain y \<or> l\<rparr>"
          by (auto simp: changed_entry_def bind_Inr_iff)
        from assms(7) [OF True c(1), of "se_uncertain y"] v(2) y(2)
        have "evident_in ev b (entry_view x)" "c \<noteq> [] \<or> p \<noteq> [] \<or> se_uncertain y \<or> l" by (simp_all add: entry_view_def c(2))
        then have "entries_view es' key = Some (entry_view x)" "evident_in ev b (entry_view x)"
          using True es'(2) stored_view [OF eo, of k live x key] by (auto simp: c(2))
        then show ?thesis unfolding evident_def using es'(1) by blast
      next
        case other: False
        then have "entries_view es' key = Some v"
          using es'(2) v(1) assms(6) [OF other] stored_view [OF eo, of k live x key] by auto
        then show ?thesis unfolding evident_def using es'(1) v(2) by blast
      qed
    qed
  qed
qed

lemma change_keeps:
  assumes "launch_change t profile c p = Inr (c', p', l)" "evident_in ev b (map_of c, map_of p, u)" "\<forall>x. ev = Pending x \<longrightarrow> t \<noteq> Some x"
  shows "evident_in ev b (map_of c', map_of p', u \<or> l) \<and> (c' \<noteq> [] \<or> p' \<noteq> [] \<or> u \<or> l)"
  using assms by (cases ev; cases t) (auto simp: launch_change_def bind_Inr_iff update_conv' split: option.splits)

lemma launched_keeps:
  assumes "launched_change E t report c p = Inr (c', p', l)" "evident_in ev b (map_of c, map_of p, u)"
    and "\<forall>x. ev = Pending x \<longrightarrow> t \<noteq> Some x" "\<forall>a. ev = Child a \<longrightarrow> subagent_started E report \<noteq> Some a"
  shows "evident_in ev b (map_of c', map_of p', u \<or> l) \<and> (c' \<noteq> [] \<or> p' \<noteq> [] \<or> u \<or> l)"
proof -
  have e: "evident_in ev b (map_of c', map_of p', u \<or> l)"
    using assms by (cases ev) (auto simp: launched_change_def Let_def update_conv' delete_conv' split: option.splits)
  then have "c' \<noteq> [] \<or> p' \<noteq> [] \<or> u \<or> l" by (cases ev) auto
  with e show ?thesis by blast
qed

lemma read_keeps:
  assumes "evident_in ev b (map_of c, map_of p, u)" "ev \<noteq> Child a"
  shows "evident_in ev b (map_of (AList.delete a c), map_of p, u) \<and> (AList.delete a c \<noteq> [] \<or> p \<noteq> [] \<or> u)"
proof -
  have e: "evident_in ev b (map_of (AList.delete a c), map_of p, u)"
    using assms by (cases ev) (auto simp: delete_conv')
  then have "AList.delete a c \<noteq> [] \<or> p \<noteq> [] \<or> u" by (cases ev) auto
  with e show ?thesis by blast
qed


lemma subagents_cong:
  "files d' SUBAGENT_FILE = files d SUBAGENT_FILE \<Longrightarrow> root_path d' = root_path d \<Longrightarrow> subagent_entries E d' = subagent_entries E d"
  using read_private_json_cong [of d' SUBAGENT_FILE d]
  by (cases "files d SUBAGENT_FILE") (simp_all add: subagent_entries_def)

lemma evident_elsewhere:
  assumes "evident E d key ev b" "files d' SUBAGENT_FILE = files d SUBAGENT_FILE" "root_path d' = root_path d"
    and "files d (uncertain_path key) \<noteq> None \<longrightarrow> files d' (uncertain_path key) \<noteq> None"
  shows "evident E d' key ev b"
  using assms subagents_cong [OF assms(2,3), of E] by (auto simp: evident_def subagents_ok_def)

lemma uncertain_path_inject [simp]: "uncertain_path k = uncertain_path k' \<longleftrightarrow> k = k'"
  by (simp add: uncertain_path_def)

lemma delete_keeps:
  assumes "evident E d key ev b" "subagent_entries E d = Inr es" "k \<noteq> key"
  shows "evident E (write_subagents E d (AList.delete k es)) key ev b"
proof -
  from assms(1,2) have es: "entries_ok es"
    "ev = Lost \<and> b \<and> files d (uncertain_path key) \<noteq> None \<or> (\<exists>v. entries_view es key = Some v \<and> evident_in ev b v)"
    by (auto simp: evident_def subagents_ok_def)
  have "entries_ok (AList.delete k es)"
    using es(1) set_delete [of k es] by (fastforce simp: entries_ok_def distinct_delete list_all_iff)
  from entries_written [OF this, of E d] obtain es' where
    es': "subagents_ok E (write_subagents E d (AList.delete k es)) es'" "entries_view es' = entries_view (AList.delete k es)"
    by (auto simp: subagents_ok_def)
  then have "entries_view es' key = entries_view es key" using assms(3) by (simp add: entries_view_def delete_conv')
  moreover have "files (write_subagents E d (AList.delete k es)) (uncertain_path key) = files d (uncertain_path key)"
    by (simp add: write_subagents_def)
  ultimately show ?thesis unfolding evident_def using es(2) es'(1) by (intro exI [of _ es']) simp
qed

lemma subagent_step_keeps:
  assumes "env_ok E" "evident E d key ev b" "subagent_step E d e d'" "\<not> may_end E key ev e"
  shows "evident E d' key ev b"
  using assms(3)
proof cases
  case (Launch s t profile live)
  then obtain k where k: "session_key E Devin s = Inr k" by (auto simp: launch_def update_subagents_def bind_Inr_iff)
  show ?thesis
    using assms(4) Launch k
    by (intro update_keeps [OF assms(1,2) Launch(2) [unfolded launch_def] k launch_sound _ change_keeps]) auto
next
  case (Launched s t report live)
  then obtain k where k: "session_key E Devin s = Inr k" by (auto simp: launched_def update_subagents_def bind_Inr_iff)
  show ?thesis
    using assms(4) Launched k
    by (intro update_keeps [OF assms(1,2) Launched(2) [unfolded launched_def] k launched_sound _ launched_keeps]) auto
next
  case (Read s agent report live)
  show ?thesis
  proof (cases "\<exists>a. agent = Some (JStr a) \<and> subagent_finished E report = Some a")
    case True
    then obtain a where a: "agent = Some (JStr a)" "subagent_finished E report = Some a" by blast
    then have up: "update_subagents E d s (\<lambda>children pending. Inr (AList.delete a children, pending, False)) live False = Inr d'"
      using Read by (simp add: read_agent_def)
    then obtain k where k: "session_key E Devin s = Inr k" by (auto simp: update_subagents_def bind_Inr_iff)
    show ?thesis
    proof (rule update_keeps [OF assms(1,2) up k read_sound])
      show "k \<noteq> key \<Longrightarrow> live = None \<or> key \<in> set (the live)" using assms(4) Read k by auto
      fix c p c' p' :: launch_map and l u
      assume "k = key" "Inr (AList.delete a c, p, False) = (Inr (c', p', l) :: (launch_map \<times> launch_map \<times> bool) res)"
        "evident_in ev b (map_of c, map_of p, u)"
      then show "evident_in ev b (map_of c', map_of p', u \<or> l) \<and> (c' \<noteq> [] \<or> p' \<noteq> [] \<or> u \<or> l)"
        using read_keeps [of ev b c p u a] assms(4) Read k a by auto
    qed
  next
    case False
    then have "d' = d" using Read by (cases agent) (auto simp: read_agent_def as_str_def split: option.splits json.splits if_splits)
    with assms(2) show ?thesis by simp
  qed
next
  case (Mark s)
  then show ?thesis
    by (intro evident_elsewhere [OF assms(2)]) (auto simp: mark_uncertain_def bind_Inr_iff split: if_splits)
next
  case (Clear s r)
  show ?thesis
  proof (cases "session_key E Devin s")
    case (Inl e)
    with Clear assms(2) show ?thesis by (simp add: clear_subagents_def)
  next
    case (Inr k)
    with assms(4) Clear have k: "k \<noteq> key" by simp
    let ?d1 = "unlink d (uncertain_path k)"
    have d1: "evident E ?d1 key ev b" using k by (intro evident_elsewhere [OF assms(2)]) simp_all
    show ?thesis
      using Clear Inr d1 delete_keeps [OF d1 _ k]
      by (auto simp: clear_subagents_def Let_def split: sum.splits if_splits)
  qed
next
  case Other
  then show ?thesis by (intro evident_elsewhere [OF assms(2)]) auto
qed

text \<open>What \<open>launch\<close> and \<open>launched\<close> leave behind.\<close>

lemma update_view:
  assumes "env_ok E" "subagents_ok E d es" "update_subagents E d session change live True = Inr d'" "session_key E Devin session = Inr key"
    and "sound_change change"
  obtains x es' where "changed_entry change (case map_of es key of Some x \<Rightarrow> x | None \<Rightarrow> empty_entry) = Inr x" "subagents_ok E d' es'"
    "entries_view es' key = (if se_children x \<noteq> [] \<or> se_pending x \<noteq> [] \<or> se_uncertain x then Some (entry_view x) else None)"
proof (rule update_subagents_spec [OF assms(2,3,4,5) session_key_hex [OF assms(1,4)]])
  assume "\<not> True" then show thesis by simp
next
  fix x es'
  assume "changed_entry change (case map_of es key of Some x \<Rightarrow> x | None \<Rightarrow> empty_entry) = Inr x" "subagents_ok E d' es'"
    "entries_view es' = entries_view (kept_entries key live (stored_entry key x es))"
  with assms(2) show thesis using stored_view [of es key live x key] by (intro that [of x es']) (simp_all add: subagents_ok_def)
qed


lemma evident_entry:
  assumes "subagents_ok E d es" "evident_in ev b (entry_view x)"
    and "entries_view es key = (if se_children x \<noteq> [] \<or> se_pending x \<noteq> [] \<or> se_uncertain x then Some (entry_view x) else None)"
  shows "evident E d key ev b"
proof -
  have "se_children x \<noteq> [] \<or> se_pending x \<noteq> [] \<or> se_uncertain x"
    using assms(2) by (cases ev) (auto simp: entry_view_def)
  with assms(3) have "entries_view es key = Some (entry_view x)" by (simp only: if_True)
  with assms(1,2) show ?thesis unfolding evident_def by blast
qed

lemma launch_leaves_evidence:
  assumes "env_ok E" "subagents_ok E d es" "session_key E Devin session = Inr key" "launch E d session t profile live = Inr d'"
    and "\<forall>x. t = Some x \<longrightarrow> launch_id_ok x"
  shows "evident E d' key (case t of None \<Rightarrow> Lost | Some x \<Rightarrow> Pending x)
    (t = None \<or> (\<forall>p. profile = Some p \<longrightarrow> hashed_in p DEVIN_NON_NESTING_PROFILES = Inr False))"
proof -
  from assms(4) have up: "update_subagents E d session (launch_change t profile) live True = Inr d'" by (simp add: launch_def)
  obtain x es' where x: "changed_entry (launch_change t profile) (case map_of es key of Some x \<Rightarrow> x | None \<Rightarrow> empty_entry) = Inr x"
    "subagents_ok E d' es'"
    "entries_view es' key = (if se_children x \<noteq> [] \<or> se_pending x \<noteq> [] \<or> se_uncertain x then Some (entry_view x) else None)"
    by (rule update_view [OF assms(1,2) up assms(3) launch_sound [OF assms(5)]])
  show ?thesis
  proof (cases t)
    case None
    with x(1) have "evident_in Lost True (entry_view x)"
      by (auto simp: changed_entry_def launch_change_def entry_view_def)
    from evident_entry [OF x(2) this x(3)] None show ?thesis by simp
  next
    case (Some y)
    then obtain bi where bi: "(case profile of None \<Rightarrow> Inr False | Some p \<Rightarrow> hashed_in p DEVIN_NON_NESTING_PROFILES) = Inr bi"
      "map_of (se_pending x) y = Some (\<not> bi)" "se_pending x \<noteq> []"
      using x(1) by (auto simp: changed_entry_def launch_change_def bind_Inr_iff update_conv')
    have "(\<forall>p. profile = Some p \<longrightarrow> hashed_in p DEVIN_NON_NESTING_PROFILES = Inr False) \<longleftrightarrow> \<not> bi"
      using bi(1) by (cases profile) auto
    moreover have "evident E d' key (Pending y) (\<not> bi)"
      using bi(2) by (intro evident_entry [OF x(2) _ x(3)]) (simp add: entry_view_def)
    ultimately show ?thesis using Some by simp
  qed
qed

lemma launched_leaves_evidence:
  assumes "env_ok E" "subagents_ok E d es" "session_key E Devin session = Inr key" "launched E d session t report live = Inr d'"
  shows "(\<exists>a b. subagent_started E report = Some a \<and> evident E d' key (Child a) b \<and>
       (\<forall>x b'. t = Some x \<and> evident E d key (Pending x) b' \<longrightarrow> b = b')) \<or>
    evident E d' key Lost True \<or> (subagent_started E report = None \<and> subagent_finished E report \<noteq> None)"
proof -
  from assms(4) have up: "update_subagents E d session (launched_change E t report) live True = Inr d'" by (simp add: launched_def)
  let ?y = "case map_of es key of Some x \<Rightarrow> x | None \<Rightarrow> empty_entry"
  obtain x es' where x: "changed_entry (launched_change E t report) ?y = Inr x"
    "subagents_ok E d' es'"
    "entries_view es' key = (if se_children x \<noteq> [] \<or> se_pending x \<noteq> [] \<or> se_uncertain x then Some (entry_view x) else None)"
    by (rule update_view [OF assms(1,2) up assms(3) launched_sound])
  show ?thesis
  proof (cases "subagent_started E report")
    case None
    show ?thesis
    proof (cases "subagent_finished E report")
      case fin: None
      with x(1) None have "evident_in Lost True (entry_view x)"
        by (auto simp: changed_entry_def launched_change_def Let_def entry_view_def)
      from evident_entry [OF x(2) this x(3)] show ?thesis by blast
    qed (use None in simp)
  next
    case (Some a)
    let ?b = "case Option.bind t (map_of (se_pending ?y)) of None \<Rightarrow> True | Some b \<Rightarrow> b"
    have "map_of (se_children x) a = Some ?b" "se_children x \<noteq> []"
      using x(1) Some by (auto simp: changed_entry_def launched_change_def Let_def update_conv')
    then have "evident E d' key (Child a) ?b"
      by (intro evident_entry [OF x(2) _ x(3)]) (simp add: entry_view_def)
    moreover have "\<forall>x b'. t = Some x \<and> evident E d key (Pending x) b' \<longrightarrow> ?b = b'"
      using assms(2) by (auto simp: evident_def subagents_ok_def entries_view_def entry_view_def)
    ultimately show ?thesis using Some by blast
  qed
qed

section \<open>Properties\<close>




section \<open>An identifier that is too long\<close>

lemma launch_of_error: "launch_of p = Inl e \<Longrightarrow> e = ChatError (lit ''Devin subagent state is invalid'')"
  by (auto simp: launch_of_def bad_subagents_def fail_def split: json.splits if_splits)

lemma launches_error: "launches v = Inl e \<Longrightarrow> e = ChatError (lit ''Devin subagent state is invalid'')"
  by (auto simp: launches_def bad_subagents_def fail_def dest!: map_res_Inl_set launch_of_error split: option.splits json.splits)

lemma entry_of_error: "subagent_entry_of p = Inl e \<Longrightarrow> e = ChatError (lit ''Devin subagent state is invalid'')"
  by (auto simp: subagent_entry_of_def bad_subagents_def fail_def bind_Inl_iff dest: get_err launches_error split: json.splits if_splits)

lemma map_res_fails: "x \<in> set xs \<Longrightarrow> f x = Inl e \<Longrightarrow> \<exists>e'. map_res f xs = Inl e'"
proof (induction xs)
  case (Cons y ys)
  then show ?case by (cases "f y") auto
qed simp

lemma launches_too_long:
  assumes "(k, b) \<in> set m" "256 < length k" "distinct (map fst m)"
  shows "launches (Some (sort_keys (launches_json m))) = Inl (ChatError (lit ''Devin subagent state is invalid''))"
proof -
  define d where "d = map (\<lambda>(k, b). (k, JBool b)) m"
  have "set (sort_dict d) = (\<lambda>(k, b). (k, JBool b)) ` set m" unfolding set_sort_dict by (force simp: d_def image_image)
  then have "(k, JBool b) \<in> set (sort_dict d)" using assms(1) by force
  moreover have "launch_of (k, JBool b) = Inl (ChatError (lit ''Devin subagent state is invalid''))"
    using assms(2) by (simp add: launch_of_def bad_subagents_def fail_def)
  ultimately obtain e where "map_res launch_of (sort_dict d) = Inl e"
    using map_res_fails [of "(k, JBool b)" "sort_dict d" launch_of] by auto
  moreover have "sort_keys (launches_json m) = JObj (sort_dict d)" by (simp add: launches_json_def d_def)
  ultimately have "launches (Some (sort_keys (launches_json m))) = Inl e" by (simp add: launches_def)
  with launches_error show ?thesis by blast
qed

lemma entry_plain:
  assumes "distinct (map fst (se_children x))" "list_all (\<lambda>p. list_all (printable True) (fst p)) (se_children x)"
    and "distinct (map fst (se_pending x))" "list_all (\<lambda>p. list_all (printable True) (fst p)) (se_pending x)"
  shows "plain True (subagent_json x)"
proof -
  have "plain True (launches_json m)" if "distinct (map fst m)" "list_all (\<lambda>p. list_all (printable True) (fst p)) m" for m
    using that by (auto simp: launches_json_def list_all_iff comp_def case_prod_unfold)
  from this [OF assms(1,2)] this [OF assms(3,4)] show ?thesis by (simp add: subagent_json_def lit_printable)
qed

text \<open>An entry with an overlong identifier is refused, and with it the whole table.\<close>

lemma overlong_entry:
  assumes "launches_ok (se_children x)" "(t, b) \<in> set (se_pending x)" "256 < length t" "distinct (map fst (se_pending x))" "hex64 k"
  shows "subagent_entry_of (k, sort_keys (subagent_json x)) = Inl (ChatError (lit ''Devin subagent state is invalid''))"
proof -
  define f where "f = [(lit ''children'', launches_json (se_children x)), (lit ''pending'', launches_json (se_pending x)),
     (lit ''uncertain'', JBool (se_uncertain x))]"
  have f: "distinct (map fst f)" "has_keys f ENTRY_FIELDS" by (simp_all add: f_def has_keys_def ENTRY_FIELDS_def)
  obtain c where "launches (Some (sort_keys (launches_json (se_children x)))) = Inr c"
    using launches_sorted [OF assms(1)] by auto
  moreover have "jget (sort_dict f) ''children'' = Some (sort_keys (launches_json (se_children x)))"
    "jget (sort_dict f) ''pending'' = Some (sort_keys (launches_json (se_pending x)))"
    "jget (sort_dict f) ''uncertain'' = Some (JBool (se_uncertain x))"
    by (simp_all only: map_of_sort_dict [OF f(1)]) (simp_all add: f_def)
  moreover have "sort_keys (subagent_json x) = JObj (sort_dict f)" by (simp add: subagent_json_def f_def)
  moreover have "has_keys (sort_dict f) ENTRY_FIELDS" by (simp only: has_keys_sort_dict f(2))
  ultimately show ?thesis
    using launches_too_long [OF assms(2-4)] assms(5) by (simp add: subagent_entry_of_def get_bool_def)
qed

lemma refused_table:
  assumes "distinct (map fst w)" "(k, x) \<in> set w"
    and "subagent_entry_of (k, sort_keys (subagent_json x)) = Inl (ChatError (lit ''Devin subagent state is invalid''))"
    and "\<forall>(j, y) \<in> set w. plain True (subagent_json y) \<and> hex64 j"
  shows "subagent_entries E (write_subagents E d w) = Inl (ChatError (lit ''Devin subagent state is invalid''))"
proof -
  define j where "j = map (\<lambda>(k, x). (k, subagent_json x)) w"
  have "distinct (map fst j)" using assms(1) by (simp add: j_def comp_def case_prod_unfold)
  moreover have "list_all (\<lambda>p. list_all (printable True) (fst p) \<and> plain True (snd p)) j"
    using assms(4) hex64_printable by (fastforce simp: j_def list_all_iff)
  ultimately have pl: "plain True (JObj j)" by simp
  have "(k, subagent_json x) \<in> set j" using assms(2) by (force simp: j_def)
  then have "(k, sort_keys (subagent_json x)) \<in> set (sort_dict j)" unfolding set_sort_dict by force
  then obtain e where "map_res subagent_entry_of (sort_dict j) = Inl e"
    using assms(3) map_res_fails [of "(k, sort_keys (subagent_json x))" "sort_dict j" subagent_entry_of] by auto
  moreover from this have "e = ChatError (lit ''Devin subagent state is invalid'')"
    by (auto dest!: map_res_Inl_set entry_of_error)
  ultimately show ?thesis
    using read_written [OF pl, of E d SUBAGENT_FILE "''Devin subagent state is invalid''"]
    by (simp add: subagent_entries_def write_subagents_def j_def [symmetric] del: plain.simps)
qed

text \<open>
  C40. One overlong tool use id disables custody for every session. \<open>launch\<close> stores the id of a hook
  without the length check its own reader makes: when the id has more than 256 characters the call
  succeeds, and from then on the file is refused: the custody and the restriction of every session
  without a marker raise, and so does every later launch, return and clear of any session.
\<close>

theorem overlong_tool_use_id:
  assumes "env_ok E" "subagents_ok E d es" "launch E d session (Some t) profile live = Inr d'"
    and "256 < length t" "list_all (printable True) t" "session_key E Devin other = Inr key"
  shows "(files d' (uncertain_path key) = None \<longrightarrow>
      subagent_custody E d' other = Inl (ChatError (lit ''Devin subagent state is invalid'')) \<and>
      restriction E d' other = Inl (ChatError (lit ''Devin subagent state is invalid''))) \<and>
    launch E d' other t' profile' live' = Inl (ChatError (lit ''Devin subagent state is invalid'')) \<and>
    launched E d' other t' report live' = Inl (ChatError (lit ''Devin subagent state is invalid'')) \<and>
    fst (clear_subagents E d' other) = Inl (ChatError (lit ''Devin subagent state is invalid''))"
proof -
  have es: "subagent_entries E d = Inr es" "entries_ok es" using assms(2) by (simp_all add: subagents_ok_def)
  from assms(3) obtain k where key: "session_key E Devin session = Inr k"
    by (auto simp: launch_def update_subagents_def bind_Inr_iff)
  define x0 where "x0 = (case map_of es k of Some x \<Rightarrow> x | None \<Rightarrow> empty_entry)"
  from assms(3) es(1) key obtain bi where k: "session_key E Devin session = Inr k"
    "d' = write_subagents E d (kept_entries k live
       (stored_entry k \<lparr>se_children = se_children x0, se_pending = AList.update t bi (se_pending x0), se_uncertain = se_uncertain x0\<rparr> es))"
    by (cases "map_of es k") (auto simp: launch_def update_subagents_def bind_Inr_iff changed_entry_def launch_change_def x0_def empty_entry_def)
  let ?x = "\<lparr>se_children = se_children x0, se_pending = AList.update t bi (se_pending x0), se_uncertain = se_uncertain x0\<rparr>"
  have x0: "launches_ok (se_children x0)" "launches_ok (se_pending x0)"
    using es(2) by (auto simp: x0_def entry_ok_def empty_entry_def entries_ok_def list_all_iff split: option.splits dest!: map_of_SomeD)
  define w where "w = kept_entries k live (AList.update k ?x es)"
  have w: "d' = write_subagents E d w" "distinct (map fst w)" "(k, ?x) \<in> set w"
  proof -
    show "d' = write_subagents E d w" by (simp add: k(2) w_def stored_entry_def)
    show "distinct (map fst w)" using es(2)
      by (auto simp: w_def kept_entries_def entries_ok_def distinct_update distinct_map_filter split: option.splits)
    have "(k, ?x) \<in> set (AList.update k ?x es)" by (induction es) auto
    then show "(k, ?x) \<in> set w" by (auto simp: w_def kept_entries_def split: option.splits)
  qed
  have pend: "distinct (map fst (se_pending ?x))" "(t, bi) \<in> set (se_pending ?x)"
    using x0(2) map_of_SomeD [of "AList.update t bi (se_pending x0)" t bi]
    by (simp_all add: launches_ok_def distinct_update update_conv')
  have good: "plain True (subagent_json y) \<and> hex64 j" if "(j, y) \<in> set w" for j y
  proof -
    have "(j, y) = (k, ?x) \<or> (j, y) \<in> set es"
      using that set_update [of k ?x es] by (auto simp: w_def kept_entries_def split: option.splits)
    then show ?thesis
    proof
      assume "(j, y) = (k, ?x)"
      moreover have "plain True (subagent_json ?x)"
        using x0 assms(5) pend(1) set_update [of t bi "se_pending x0"]
        by (intro entry_plain) (fastforce simp: launches_ok_def launch_id_ok_def list_all_iff)+
      ultimately show ?thesis using session_key_hex [OF assms(1) k(1)] by simp
    next
      assume "(j, y) \<in> set es"
      then have "entry_ok y" "hex64 j" using es(2) by (auto simp: entries_ok_def list_all_iff)
      then show ?thesis by (auto simp: entry_ok_def launches_ok_def launch_id_ok_def list_all_iff intro!: entry_plain)
    qed
  qed
  have "subagent_entry_of (k, sort_keys (subagent_json ?x)) = Inl (ChatError (lit ''Devin subagent state is invalid''))"
    using x0(1) pend session_key_hex [OF assms(1) k(1)] by (intro overlong_entry [OF _ _ assms(4)]) simp_all
  then have bad: "subagent_entries E d' = Inl (ChatError (lit ''Devin subagent state is invalid''))"
    using good unfolding w(1) by (intro refused_table [OF w(2,3)]) auto
  moreover have "subagent_entries E (unlink d' (uncertain_path key)) = subagent_entries E d'" by (rule subagents_cong) simp_all
  ultimately show ?thesis using assms(6)
    by (simp add: subagent_custody_def restriction_def launch_def launched_def update_subagents_def clear_subagents_def Let_def)
qed


theorem overlong_tool_use_id_witness:
  "\<exists>d. launch sample_env empty_dir (lit ''devin-session'') (Some (replicate 257 97)) None None = Inr d \<and>
     subagent_custody sample_env d (lit ''other-session'') = Inl (ChatError (lit ''Devin subagent state is invalid''))"
proof -
  let ?s = "lit ''devin-session''" and ?o = "lit ''other-session''" and ?t = "replicate 257 (97::nat)"
  have "session_shape Devin ?s" "session_shape Devin ?o"
    by (simp_all add: session_shape_def devin_session_shape_def lit_def is_alnum_def is_lower_def is_upper_def is_digit_def)
  then obtain key other where key: "session_key sample_env Devin ?s = Inr key" "session_key sample_env Devin ?o = Inr other"
    using session_key_ok by blast
  have e0: "subagents_ok sample_env empty_dir []"
    by (simp add: subagents_ok_def subagent_entries_def empty_dir_def entries_ok_def)
  obtain d where d: "launch sample_env empty_dir ?s (Some ?t) None None = Inr d"
    using e0 key by (simp add: launch_def update_subagents_def subagents_ok_def launch_change_def changed_entry_def)
  have "files d (uncertain_path other) = None"
    using d key e0 by (auto simp: launch_def update_subagents_def subagents_ok_def launch_change_def changed_entry_def
        write_subagents_def empty_dir_def)
  with overlong_tool_use_id [OF sample_env_ok e0 d _ _ key(2)] d show ?thesis
    by (auto simp: list_all_iff printable_def is_code_point_def is_surrogate_def)
qed

text \<open>The restriction a peer is shown says what custody enforces.\<close>

lemma restriction_custody:
  "restriction E d session =
     (case subagent_custody E d session of
        Inl e \<Rightarrow> Inl e
      | Inr None \<Rightarrow> Inr (lit ''unrestricted'')
      | Inr (Some RootTools) \<Rightarrow> Inr (lit ''root_tools_only'')
      | Inr (Some Hold) \<Rightarrow>
          Inr (if (\<exists>key es x. session_key E Devin session = Inr key \<and> files d (uncertain_path key) = None \<and>
                    subagent_entries E d = Inr es \<and> map_of es key = Some x \<and> \<not> se_uncertain x)
               then lit ''next_prompt_custom_subagent'' else lit ''next_prompt_unobserved_launch''))"
  by (cases "session_key E Devin session"; cases "subagent_entries E d")
    (auto simp: restriction_def subagent_custody_def split: option.splits)

end
