(* ===== verification/Owners.thy ===== *)
theory Owners
  imports Routes
begin

text \<open>
  The owner of a route in runtime.py: which running process a route was registered for, read from the
  kernel, and the anchor that keeps binding it after the provider's package has moved.
\<close>

section \<open>What the kernel tells of a process\<close>

text \<open>
  The answers of \<^verbatim>\<open>proc_pidinfo\<close> and \<^verbatim>\<open>proc_pidpath\<close> are the buffers they fill; \<open>None\<close> is an answer
  of another size. \<open>ow_resolve\<close> is \<open>Path.resolve(strict=True)\<close>, \<open>ow_expand\<close> is
  \<open>Path.expanduser().resolve(strict=False)\<close>, \<open>ow_stat\<close> the device and inode of a path.
\<close>

record owner_world =
  ow_bsdinfo :: "int \<Rightarrow> bytes option"
  ow_region :: "int \<Rightarrow> nat \<Rightarrow> bytes option"
  ow_unique :: "int \<Rightarrow> bytes option"
  ow_path :: "int \<Rightarrow> bytes option"
  ow_uid :: nat
  ow_resolve :: "str \<Rightarrow> str res"
  ow_expand :: "str \<Rightarrow> str res"
  ow_stat :: "str \<Rightarrow> (nat \<times> nat) res"
  ow_devin_binaries :: "str list res"
  ow_devin_profile :: "str res"
  ow_home :: str
  ow_codex_home :: "str option"
  ow_claude_config_dir :: "str option"

fun le_value :: "bytes \<Rightarrow> nat" where
  "le_value [] = 0"
| "le_value (b # bs) = b + 256 * le_value bs"

definition raw_field :: "bytes \<Rightarrow> nat \<Rightarrow> nat \<Rightarrow> nat" where
  "raw_field raw start width = le_value (take width (drop start raw))"

text \<open>\<^verbatim>\<open>int.from_bytes(.., signed=True)\<close> of four bytes.\<close>

definition signed32 :: "nat \<Rightarrow> int" where
  "signed32 n = (if n < 2 ^ 31 then int n else int n - 2 ^ 32)"

definition no_process :: "'a res" where
  "no_process = fail ''provider process identity is unavailable''"

definition process_identity_facts :: "owner_world \<Rightarrow> int \<Rightarrow> (nat \<times> nat \<times> nat) res" where
  "process_identity_facts w pid =
     (case ow_bsdinfo w pid of
        None \<Rightarrow> no_process
      | Some raw \<Rightarrow>
          (let uid = raw_field raw 20 4 in
           if uid \<noteq> ow_uid w then no_process
           else Inr (uid, raw_field raw 120 8, raw_field raw 128 8)))"

definition recipient_profile_root :: "owner_world \<Rightarrow> provider \<Rightarrow> str res" where
  "recipient_profile_root w p =
     (if p = Devin then ow_devin_profile w
      else
        let value = (if p = Codex then ow_codex_home w else ow_claude_config_dir w) in
        ow_expand w (case value of
            Some v \<Rightarrow> if v = [] then ow_home w @ lit (if p = Codex then ''/.codex'' else ''/.claude'') else v
          | None \<Rightarrow> ow_home w @ lit (if p = Codex then ''/.codex'' else ''/.claude'')))"

text \<open>\<^verbatim>\<open>profile_root or recipient_profile_root(provider)\<close>.\<close>

definition profile_or_default :: "owner_world \<Rightarrow> provider \<Rightarrow> str option \<Rightarrow> str res" where
  "profile_or_default w p profile_root =
     (case profile_root of
        Some r \<Rightarrow> if r = [] then recipient_profile_root w p else Inr r
      | None \<Rightarrow> recipient_profile_root w p)"

text \<open>A C string ends at its first zero byte; \<open>Path\<close> of the decoded text.\<close>

definition c_string :: "bytes \<Rightarrow> bytes" where
  "c_string = takeWhile (\<lambda>b. b \<noteq> 0)"

definition process_binary :: "owner_world \<Rightarrow> int \<Rightarrow> str res" where
  "process_binary w pid =
     (case ow_path w pid of
        None \<Rightarrow> no_process
      | Some buffer \<Rightarrow>
          (case utf8_decode False (c_string buffer) of
             None \<Rightarrow> Inl UnicodeError
           | Some tx \<Rightarrow> ow_resolve w tx))"

definition nul_join :: "str list \<Rightarrow> str" where
  "nul_join ts = (case ts of [] \<Rightarrow> [] | t # us \<Rightarrow> t @ concat (map ((#) 0) us))"

definition recipient_owner_identity ::
  "pyenv \<Rightarrow> owner_world \<Rightarrow> provider \<Rightarrow> int \<Rightarrow> str option \<Rightarrow> (str \<times> str) res" where
  "recipient_owner_identity E w p pid profile_root =
     (if ow_path w pid = None then no_process
      else
        bind (process_identity_facts w pid) (\<lambda>(uid, start_seconds, start_microseconds).
        bind (process_binary w pid) (\<lambda>binary.
        bind (if p = Devin then bind (ow_devin_binaries w) (\<lambda>bs. Inr (binary \<notin> set bs)) else Inr False) (\<lambda>foreign.
        if foreign then no_process
        else
          bind (profile_or_default w p profile_root) (\<lambda>profile.
          bind (ow_expand w profile) (\<lambda>root.
          bind (encode (nul_join [provider_str p, binary, dec_str uid, dec_str start_seconds, dec_str start_microseconds, root])) (\<lambda>b.
          Inr (sha256hex E b, binary))))))))"

section \<open>The image of a process\<close>

text \<open>The device and inode of the region at or after an address, and the address after it.\<close>

definition owner_vnode_region :: "owner_world \<Rightarrow> int \<Rightarrow> nat \<Rightarrow> (nat \<times> nat \<times> nat) option" where
  "owner_vnode_region w pid address =
     map_option (\<lambda>raw. (raw_field raw 96 4, raw_field raw 104 8, raw_field raw 80 8 + raw_field raw 88 8))
       (ow_region w pid address)"

definition PROC_BSDINFO_SIZE :: nat where "PROC_BSDINFO_SIZE = 136"
definition PROC_REGIONWITHPATHINFO_SIZE :: nat where "PROC_REGIONWITHPATHINFO_SIZE = 1272"
definition PROC_UNIQIDENTIFIERINFO_SIZE :: nat where "PROC_UNIQIDENTIFIERINFO_SIZE = 56"
definition REGION_SCAN_MAX :: nat where "REGION_SCAN_MAX = 4096"

fun scan_regions :: "(nat \<Rightarrow> (nat \<times> nat \<times> nat) option) \<Rightarrow> (nat \<times> nat) option \<Rightarrow> nat \<Rightarrow> nat \<Rightarrow> (nat \<times> nat) res" where
  "scan_regions region target 0 address = no_process"
| "scan_regions region target (Suc n) address =
     (case region address of
        None \<Rightarrow> no_process
      | Some (device, inode, next_address) \<Rightarrow>
          if target = None \<or> target = Some (device, inode) then Inr (device, inode)
          else if next_address \<le> address then no_process
          else scan_regions region target n next_address)"

definition owner_image_vnode :: "owner_world \<Rightarrow> int \<Rightarrow> (nat \<times> nat) option \<Rightarrow> (nat \<times> nat) res" where
  "owner_image_vnode w pid target = scan_regions (owner_vnode_region w pid) target REGION_SCAN_MAX 0"

record exec_facts =
  xf_uuid :: bytes
  xf_uniqueid :: nat
  xf_idversion :: int
  xf_uid :: nat
  xf_start_seconds :: nat
  xf_start_microseconds :: nat

definition owner_exec_facts :: "owner_world \<Rightarrow> int \<Rightarrow> exec_facts res" where
  "owner_exec_facts w pid =
     (case ow_unique w pid of
        None \<Rightarrow> no_process
      | Some raw \<Rightarrow>
          bind (process_identity_facts w pid) (\<lambda>(uid, start_seconds, start_microseconds).
          Inr \<lparr>xf_uuid = take 16 raw, xf_uniqueid = raw_field raw 16 8, xf_idversion = signed32 (raw_field raw 32 4),
               xf_uid = uid, xf_start_seconds = start_seconds, xf_start_microseconds = start_microseconds\<rparr>))"

definition bytes_hex :: "bytes \<Rightarrow> str" where
  "bytes_hex bs = concat (map (\<lambda>b. [hex_digit (b div 16), hex_digit (b mod 16)]) bs)"

definition image_payload :: "provider \<Rightarrow> nat \<Rightarrow> nat \<Rightarrow> exec_facts \<Rightarrow> str \<Rightarrow> str" where
  "image_payload p device inode f base =
     nul_join [provider_str p, dec_str device, dec_str inode, dec_str (xf_uniqueid f), int_str (xf_idversion f),
       bytes_hex (xf_uuid f), dec_str (xf_uid f), dec_str (xf_start_seconds f), dec_str (xf_start_microseconds f), base]"

definition owner_image_identity ::
  "pyenv \<Rightarrow> owner_world \<Rightarrow> provider \<Rightarrow> nat \<Rightarrow> nat \<Rightarrow> exec_facts \<Rightarrow> str \<Rightarrow> str res" where
  "owner_image_identity E w p device inode f profile_root =
     bind (ow_expand w profile_root) (\<lambda>root.
     bind (encode (image_payload p device inode f root)) (\<lambda>b. Inr (sha256hex E b)))"

definition owner_image_identity_for_vnode ::
  "pyenv \<Rightarrow> owner_world \<Rightarrow> provider \<Rightarrow> int \<Rightarrow> nat \<Rightarrow> nat \<Rightarrow> str \<Rightarrow> str res" where
  "owner_image_identity_for_vnode E w p pid device inode profile_root =
     bind (owner_exec_facts w pid) (\<lambda>f. owner_image_identity E w p device inode f profile_root)"

definition recipient_owner_image_identity :: "pyenv \<Rightarrow> owner_world \<Rightarrow> provider \<Rightarrow> int \<Rightarrow> str option \<Rightarrow> str res" where
  "recipient_owner_image_identity E w p pid profile_root =
     bind (owner_image_vnode w pid None) (\<lambda>(device, inode).
     bind (profile_or_default w p profile_root) (\<lambda>root.
     owner_image_identity_for_vnode E w p pid device inode root))"

section \<open>The anchor of a route\<close>

definition OWNER_ANCHOR_FIELDS :: "string list" where
  "OWNER_ANCHOR_FIELDS =
     [''provider'', ''pid'', ''generation'', ''owner_identity'', ''profile_root'', ''image_dev'', ''image_ino'', ''image_identity'']"

definition anchor_of :: "route \<Rightarrow> str \<Rightarrow> str \<Rightarrow> nat \<Rightarrow> nat \<Rightarrow> str \<Rightarrow> dict" where
  "anchor_of r owner profile device inode digest =
     [(lit ''provider'', JStr (provider_str (r_provider r))), (lit ''pid'', JInt (r_pid r)),
      (lit ''generation'', JStr (r_generation r)), (lit ''owner_identity'', JStr owner),
      (lit ''profile_root'', JStr profile), (lit ''image_dev'', JInt (int device)),
      (lit ''image_ino'', JInt (int inode)), (lit ''image_identity'', JStr digest)]"

text \<open>\<open>Inr None\<close>: the route is published without an anchor.\<close>

definition owner_anchor_document :: "pyenv \<Rightarrow> owner_world \<Rightarrow> route \<Rightarrow> str \<Rightarrow> dict option res" where
  "owner_anchor_document E w r owner_binary =
     (case (r_owner_identity r, r_profile_root r) of
        (Some owner, Some profile) \<Rightarrow>
          (case bind (owner_image_vnode w (r_pid r) None) (\<lambda>(device, inode).
                bind (ow_stat w owner_binary) (\<lambda>found.
                if (device, inode) \<noteq> found then Inr None
                else
                  bind (owner_image_identity_for_vnode E w (r_provider r) (r_pid r) device inode profile) (\<lambda>digest.
                  Inr (Some (anchor_of r owner profile device inode digest))))) of
             Inr a \<Rightarrow> Inr a
           | Inl e \<Rightarrow> if is_chat_error e \<or> is_os_error e then Inr None else Inl e)
      | _ \<Rightarrow> Inr None)"

definition optional_json :: "str option \<Rightarrow> json" where
  "optional_json v = (case v of None \<Rightarrow> JNull | Some s \<Rightarrow> JStr s)"

definition anchor_field :: "dict \<Rightarrow> string \<Rightarrow> json \<Rightarrow> bool" where
  "anchor_field raw k v \<longleftrightarrow> (case jget raw k of Some x \<Rightarrow> py_eq x v | None \<Rightarrow> False)"

definition anchor_binding :: "route \<Rightarrow> json \<Rightarrow> (nat \<times> nat \<times> str) res" where
  "anchor_binding r v =
     (case v of
        JObj raw \<Rightarrow>
          if \<not> has_keys raw OWNER_ANCHOR_FIELDS \<or>
             \<not> anchor_field raw ''provider'' (JStr (provider_str (r_provider r))) \<or>
             \<not> anchor_field raw ''pid'' (JInt (r_pid r)) \<or>
             \<not> anchor_field raw ''generation'' (JStr (r_generation r)) \<or>
             \<not> anchor_field raw ''owner_identity'' (optional_json (r_owner_identity r)) \<or>
             \<not> anchor_field raw ''profile_root'' (optional_json (r_profile_root r))
          then fail ''route owner anchor is invalid''
          else
            (case (jget raw ''image_dev'', jget raw ''image_ino'', jget raw ''image_identity'') of
               (Some (JInt device), Some (JInt inode), Some (JStr digest)) \<Rightarrow>
                 if device < 0 \<or> inode < 0 \<or> \<not> hex64 digest then fail ''route owner anchor is invalid''
                 else Inr (nat device, nat inode, digest)
             | _ \<Rightarrow> fail ''route owner anchor is invalid'')
      | _ \<Rightarrow> fail ''route owner anchor is invalid'')"

definition route_owner_anchor :: "pyenv \<Rightarrow> dir \<Rightarrow> route \<Rightarrow> (nat \<times> nat \<times> str) option res" where
  "route_owner_anchor E d r =
     bind (owner_anchor_name (r_generation r)) (\<lambda>n.
     case files d n of
       None \<Rightarrow> Inr None
     | Some f \<Rightarrow>
         bind (read_private_json E d n ''route owner anchor is invalid'' f) (\<lambda>raw.
         bind (anchor_binding r raw) (\<lambda>bound. Inr (Some bound))))"

definition anchored_owner_image_current ::
  "pyenv \<Rightarrow> owner_world \<Rightarrow> int \<Rightarrow> provider \<Rightarrow> str option \<Rightarrow> nat \<times> nat \<times> str \<Rightarrow> bool res" where
  "anchored_owner_image_current E w pid p profile_root bound =
     (case bound of (image_dev, image_ino, image_identity) \<Rightarrow>
        bind (owner_image_vnode w pid (Some (image_dev, image_ino))) (\<lambda>(device, inode).
        bind (profile_or_default w p profile_root) (\<lambda>root.
        bind (owner_image_identity_for_vnode E w p pid device inode root) (\<lambda>digest.
        Inr (digest = image_identity)))))"

text \<open>\<^verbatim>\<open>except (ChatError, OSError): return False\<close>.\<close>

definition or_false :: "bool res \<Rightarrow> bool res" where
  "or_false r = (case r of Inl e \<Rightarrow> if is_chat_error e \<or> is_os_error e then Inr False else Inl e | Inr b \<Rightarrow> Inr b)"

definition anchored_owner_current :: "pyenv \<Rightarrow> owner_world \<Rightarrow> dir \<Rightarrow> route \<Rightarrow> bool res" where
  "anchored_owner_current E w d r =
     (if r_owner_identity r = None then Inr False
      else
        case route_owner_anchor E d r of
          Inl e \<Rightarrow> if is_chat_error e then Inr False else Inl e
        | Inr None \<Rightarrow> Inr False
        | Inr (Some bound) \<Rightarrow>
            or_false (anchored_owner_image_current E w (r_pid r) (r_provider r) (r_profile_root r) bound))"

definition route_owner_current :: "pyenv \<Rightarrow> owner_world \<Rightarrow> dir \<Rightarrow> route \<Rightarrow> bool res" where
  "route_owner_current E w d r =
     (if r_owner_identity r = None then Inr False
      else
        case route_owner_anchor E d r of
          Inl e \<Rightarrow> if is_chat_error e then Inr False else Inl e
        | Inr (Some bound) \<Rightarrow>
            or_false (anchored_owner_image_current E w (r_pid r) (r_provider r) (r_profile_root r) bound)
        | Inr None \<Rightarrow>
            bind (profile_or_default w (r_provider r) (r_profile_root r)) (\<lambda>profile.
            or_false (bind (recipient_owner_identity E w (r_provider r) (r_pid r) (Some profile)) (\<lambda>(identity, _).
              Inr (Some identity = r_owner_identity r)))))"

definition reusable_anchored_route ::
  "pyenv \<Rightarrow> owner_world \<Rightarrow> (int \<Rightarrow> kill_result) \<Rightarrow> dir \<Rightarrow> provider \<Rightarrow> str \<Rightarrow> int \<Rightarrow> route option res" where
  "reusable_anchored_route E w kill d p session_id pid =
     bind (registry_routes E d) (\<lambda>routes.
     case the_one (\<lambda>r. r_provider r = p \<and> r_session_id r = session_id \<and> r_pid r = pid) routes of
       None \<Rightarrow> Inr None
     | Some r \<Rightarrow>
         if \<not> process_is_live kill r then Inr None
         else bind (anchored_owner_current E w d r) (\<lambda>ok. Inr (if ok then Some r else None)))"

text \<open>The executable of the owner; discovery answers only when the anchor still holds.\<close>

definition courier_owner_binary ::
  "pyenv \<Rightarrow> owner_world \<Rightarrow> (provider \<Rightarrow> str option res) \<Rightarrow> dir \<Rightarrow> route \<Rightarrow> str option res" where
  "courier_owner_binary E w discovered d r =
     (case recipient_owner_identity E w (r_provider r) (r_pid r) (r_profile_root r) of
        Inr (_, binary) \<Rightarrow> Inr (Some binary)
      | Inl e \<Rightarrow>
          if is_chat_error e \<or> is_os_error e
          then bind (anchored_owner_current E w d r) (\<lambda>ok. if ok then discovered (r_provider r) else Inl e)
          else Inl e)"

section \<open>Payloads determine their fields\<close>

lemma nul_join_Cons [simp]: "nul_join [t] = t" "nul_join (t # u # us) = t @ 0 # nul_join (u # us)"
  by (simp_all add: nul_join_def)

lemma nul_split: "0 \<notin> set t \<Longrightarrow> 0 \<notin> set t' \<Longrightarrow> t @ 0 # r = t' @ 0 # r' \<longleftrightarrow> t = t' \<and> r = r'"
proof (induction t arbitrary: t')
  case Nil
  then show ?case by (cases t') auto
next
  case (Cons c t)
  then show ?case by (cases t') auto
qed

lemma dec_str_inject [simp]: "dec_str m = dec_str n \<longleftrightarrow> m = n"
  by (metis dec_value_dec_str)

lemma dec_str_no_minus: "dec_str n \<noteq> 45 # s"
  using dec_str_digits [of n] by (auto simp: is_digit_def)

lemma int_str_inject [simp]: "int_str i = int_str j \<longleftrightarrow> i = j"
  using dec_str_no_minus by (auto simp: int_str_def split: if_splits dest: sym)

lemma dec_str_no_nul [simp]: "0 \<notin> set (dec_str n)"
  using dec_str_digits [of n] by (auto simp: list_all_iff is_digit_def)

lemma int_str_no_nul [simp]: "0 \<notin> set (int_str i)"
  by (simp add: int_str_def)

lemma hex_digit_no_nul: "hex_digit n \<noteq> 0"
  by (simp add: hex_digit_def)

lemma bytes_hex_no_nul [simp]: "0 \<notin> set (bytes_hex bs)"
  by (auto simp: bytes_hex_def hex_digit_def)

lemma bytes_hex_inject: "is_bytes bs \<Longrightarrow> is_bytes cs \<Longrightarrow> bytes_hex bs = bytes_hex cs \<longleftrightarrow> bs = cs"
proof (induction bs arbitrary: cs)
  case Nil
  then show ?case by (cases cs) (simp_all add: bytes_hex_def)
next
  case (Cons b bs)
  show ?case
  proof (cases cs)
    case (Cons c cs')
    have "hex_digit x = hex_digit y \<longleftrightarrow> x = y" if "x < 16" "y < 16" for x y
      using that hex_value_digit by (metis option.inject)
    moreover have "b div 16 < 16" "c div 16 < 16" using Cons Cons.prems by (auto simp: is_bytes_def)
    moreover have "b = c \<longleftrightarrow> b div 16 = c div 16 \<and> b mod 16 = c mod 16" by (metis div_mult_mod_eq)
    ultimately show ?thesis
      using Cons Cons.IH [of cs'] Cons.prems by (auto simp: bytes_hex_def is_bytes_def)
  qed (simp add: bytes_hex_def)
qed

lemma provider_str_no_nul [simp]: "0 \<notin> set (provider_str p)"
  by (cases p) (simp_all add: lit_def)

text \<open>The kernel fills its buffers with bytes.\<close>

definition kernel_ok :: "owner_world \<Rightarrow> bool" where
  "kernel_ok w \<longleftrightarrow>
     (\<forall>pid address b. ow_region w pid address = Some b \<longrightarrow> is_bytes b) \<and>
     (\<forall>pid b. ow_unique w pid = Some b \<longrightarrow> is_bytes b) \<and>
     (\<forall>p s. ow_expand w p = Inr s \<longrightarrow> list_all is_code_point s)"

lemma le_value_bound: "is_bytes bs \<Longrightarrow> le_value bs < 256 ^ length bs"
proof (induction bs)
  case (Cons b bs)
  then have "b < 256" "le_value bs + 1 \<le> 256 ^ length bs" by (auto simp: is_bytes_def)
  then have "b + 256 * le_value bs < 256 * (le_value bs + 1)" "256 * (le_value bs + 1) \<le> 256 * 256 ^ length bs"
    by (simp, metis mult_le_mono2)
  then show ?case by simp
qed simp

lemma raw_field_bound:
  assumes "is_bytes raw"
  shows "raw_field raw start width < 256 ^ width"
proof -
  have "is_bytes (take width (drop start raw))"
    using assms by (auto simp: is_bytes_def list_all_iff dest: in_set_takeD in_set_dropD)
  then have "raw_field raw start width < 256 ^ length (take width (drop start raw))"
    unfolding raw_field_def by (rule le_value_bound)
  also have "\<dots> \<le> 256 ^ width" by (rule power_increasing) simp_all
  finally show ?thesis .
qed

lemma scan_regions_target: "scan_regions region (Some v) n a = Inr u \<Longrightarrow> u = v"
  by (induction n arbitrary: a) (auto simp: no_process_def fail_def split: option.splits if_splits prod.splits)

lemma scan_regions_bound:
  assumes "kernel_ok w"
  shows "scan_regions (owner_vnode_region w pid) t n a = Inr (device, inode) \<Longrightarrow> device < 2 ^ 32 \<and> inode < 2 ^ 64"
proof (induction n arbitrary: a)
  case (Suc n)
  from Suc.prems obtain raw where raw: "ow_region w pid a = Some raw"
    by (auto simp: owner_vnode_region_def no_process_def fail_def split: option.splits)
  with assms have b: "is_bytes raw" by (auto simp: kernel_ok_def)
  show ?case
    using Suc raw raw_field_bound [OF b, of 96 4] raw_field_bound [OF b, of 104 8]
    by (auto simp: owner_vnode_region_def no_process_def fail_def split: if_splits)
qed (simp add: no_process_def fail_def)

lemma digits_fit:
  assumes "n < 10 ^ k" "k \<noteq> 0"
  shows "length (dec_str n) \<le> k"
  using assms
proof (induction k arbitrary: n)
  case (Suc k)
  show ?case
  proof (cases "n < 10")
    case False
    then have "k \<noteq> 0" using Suc.prems by (cases k) auto
    moreover have "n div 10 < 10 ^ k" using Suc.prems by (simp add: less_mult_imp_div_less mult.commute)
    ultimately show ?thesis using Suc.IH [of "n div 10"] False by (simp add: dec_str.simps [of n])
  qed (simp add: dec_str.simps [of n])
qed simp

lemma int_fits_64: "n < 2 ^ 64 \<Longrightarrow> int_fits (int n)"
  using digits_fit [of n 20] by (simp add: int_fits_def int_max_str_digits_def)

section \<open>An anchor read back\<close>

lemma anchor_plain:
  assumes "route_storable E r" "r_owner_identity r = Some owner" "r_profile_root r = Some profile"
    and "hex64 digest" "device < 2 ^ 32" "inode < 2 ^ 64"
  shows "plain True (JObj (anchor_of r owner profile device inode digest))"
proof -
  have r: "plain True (JObj (route_dict r))" using assms(1) by (simp add: route_storable_def route_to_dict_def)
  have p: "list_all (printable True) (lit s)" for s
    using scalar_lit by (auto simp: list_all_iff is_scalar_printable)
  have "list_all (printable True) digest"
    using assms(4) by (force simp: hex64_def is_hex_def is_digit_def list_all_iff printable_def is_code_point_def is_surrogate_def)
  moreover have "int_fits (int device)" "int_fits (int inode)"
    using assms(5,6) by (auto intro!: int_fits_64)
  ultimately show ?thesis
    using r assms(2,3) by (simp add: anchor_of_def route_dict_def p)
qed

lemma anchor_restored:
  assumes "r_owner_identity r = Some owner" "r_profile_root r = Some profile" "hex64 digest"
  shows "anchor_binding r (sort_keys (JObj (anchor_of r owner profile device inode digest))) = Inr (device, inode, digest)"
proof -
  let ?a = "anchor_of r owner profile device inode digest"
  have d: "distinct (map fst ?a)" by (simp add: anchor_of_def)
  have k: "has_keys ?a OWNER_ANCHOR_FIELDS" by (simp add: has_keys_def OWNER_ANCHOR_FIELDS_def anchor_of_def insert_commute)
  have g: "jget (sort_dict ?a) key = map_option sort_keys (jget ?a key)" for key
    using map_of_sort_dict [OF d] by simp
  show ?thesis
    by (simp add: anchor_binding_def k anchor_field_def g optional_json_def assms del: foldr.simps list.map)
      (simp add: anchor_of_def assms)
qed

lemma image_payload_inject:
  assumes "image_payload p device inode f base = image_payload p device inode f' base'"
    and "is_bytes (xf_uuid f)" "is_bytes (xf_uuid f')"
  shows "f = f' \<and> base = base'"
  using assms by (auto simp: image_payload_def nul_split bytes_hex_inject intro!: exec_facts.equality)

lemma exec_facts_bytes: "kernel_ok w \<Longrightarrow> owner_exec_facts w pid = Inr f \<Longrightarrow> is_bytes (xf_uuid f)"
  by (auto simp: owner_exec_facts_def kernel_ok_def no_process_def res_simps is_bytes_def list_all_iff
      split: option.splits dest!: in_set_takeD)

text \<open>The document of a route names the vnode of its image and the digest over it.\<close>

lemma owner_anchor_document_cases:
  assumes "owner_anchor_document E w r binary = Inr (Some a)"
  obtains owner profile device inode digest where
    "r_owner_identity r = Some owner" "r_profile_root r = Some profile"
    "owner_image_vnode w (r_pid r) None = Inr (device, inode)" "ow_stat w binary = Inr (device, inode)"
    "owner_image_identity_for_vnode E w (r_provider r) (r_pid r) device inode profile = Inr digest"
    "a = anchor_of r owner profile device inode digest"
  using assms
  by (auto simp: owner_anchor_document_def res_simps split: option.splits sum.splits if_splits)

lemma image_identity_cases:
  assumes "owner_image_identity_for_vnode E w p pid device inode profile = Inr digest"
  obtains f base b where "owner_exec_facts w pid = Inr f" "ow_expand w profile = Inr base"
    "utf8_encode (image_payload p device inode f base) = Some b" "digest = sha256hex E b"
  using assms
  by (auto simp: owner_image_identity_for_vnode_def owner_image_identity_def encode_def res_simps split: option.splits)

lemma anchor_published:
  assumes "env_ok E" "registry_ok E d" "route_storable E r" "kernel_ok w"
    and "owner_anchor_document E w r binary = Inr (Some a)" "registry_upsert E d r (Some a) = Inr d'"
  obtains owner profile device inode digest where
    "r_owner_identity r = Some owner" "r_profile_root r = Some profile" "profile \<noteq> []"
    "owner_image_vnode w (r_pid r) None = Inr (device, inode)"
    "owner_image_identity_for_vnode E w (r_provider r) (r_pid r) device inode profile = Inr digest"
    "route_owner_anchor E d' r = Inr (Some (device, inode, digest))"
proof -
  from assms(5) obtain owner profile device inode digest where a:
    "r_owner_identity r = Some owner" "r_profile_root r = Some profile"
    "owner_image_vnode w (r_pid r) None = Inr (device, inode)" "ow_stat w binary = Inr (device, inode)"
    "owner_image_identity_for_vnode E w (r_provider r) (r_pid r) device inode profile = Inr digest"
    "a = anchor_of r owner profile device inode digest"
    by (rule owner_anchor_document_cases)
  have h: "hex64 digest" using a(5) assms(1) by (auto elim!: image_identity_cases)
  have b: "device < 2 ^ 32" "inode < 2 ^ 64"
    using scan_regions_bound [OF assms(4)] a(3) unfolding owner_image_vnode_def by blast+
  have p: "plain True (JObj a)" unfolding a(6) by (rule anchor_plain) (use assms(3) a h b in simp_all)
  have id: "bind x Inr = x" for x :: "json res" by (cases x) simp_all
  from upsert_anchor [OF assms(2,3) p, of "''route owner anchor is invalid''"] assms(6) obtain n where n:
    "owner_anchor_name (r_generation r) = Inr n"
    "files d' n = Some \<lparr>is_private = True, data = json_payload E (JObj a)\<rparr>"
    "read_private_json E d' n ''route owner anchor is invalid'' \<lparr>is_private = True, data = json_payload E (JObj a)\<rparr> =
       Inr (sort_keys (JObj a))"
    unfolding id by auto
  have "route_owner_anchor E d' r = Inr (Some (device, inode, digest))"
    using n anchor_restored [OF a(1,2) h] by (simp add: route_owner_anchor_def a(6) del: sort_keys.simps)
  moreover have "profile \<noteq> []"
    using assms(3) a(2) by (auto simp: route_storable_def route_valid_def cwd_shape_def is_absolute_def starts_with_def)
  ultimately show thesis using that a by blast
qed

text \<open>What both checks of an anchored route come down to.\<close>

lemma anchored_check:
  assumes "route_owner_anchor E d r = Inr (Some (device, inode, digest))" "r_owner_identity r \<noteq> None"
    and "r_profile_root r = Some profile" "profile \<noteq> []"
  shows "anchored_owner_current E w d r = or_false (bind (owner_image_vnode w (r_pid r) (Some (device, inode))) (\<lambda>(device, inode).
      bind (owner_image_identity_for_vnode E w (r_provider r) (r_pid r) device inode profile) (\<lambda>x. Inr (x = digest))))"
    and "route_owner_current E w d r = anchored_owner_current E w d r"
  using assms
  by (auto simp: anchored_owner_current_def route_owner_current_def anchored_owner_image_current_def profile_or_default_def)

lemma or_false_True [simp]: "or_false r = Inr True \<longleftrightarrow> r = Inr True"
  by (auto simp: or_false_def split: sum.splits)

section \<open>Properties\<close>

text \<open>
  C26. An anchored route belongs to one process image. After a registration published its anchor, the
  route is current in any later world exactly when the image is still mapped and the digest over
  the kernel's facts is the one of the registration: it does not matter where the executable is or
  whether it still exists. Equal facts give currency; and if the payloads of the two digests are the
  same text, then the exec generation, the birth and the user of the process and the profile are the same.
\<close>

theorem anchor_follows_process:
  assumes "env_ok E" "registry_ok E d" "route_storable E r" "kernel_ok w" "kernel_ok w'"
    and "owner_anchor_document E w r binary = Inr (Some a)" "registry_upsert E d r (Some a) = Inr d'"
  shows "\<exists>v f base profile. r_profile_root r = Some profile \<and> owner_image_vnode w (r_pid r) None = Inr v \<and>
    owner_exec_facts w (r_pid r) = Inr f \<and> ow_expand w profile = Inr base \<and>
    (owner_image_vnode w' (r_pid r) (Some v) = Inr v \<and> owner_exec_facts w' (r_pid r) = Inr f \<and> ow_expand w' profile = Inr base \<longrightarrow>
       route_owner_current E w' d' r = Inr True) \<and>
    (route_owner_current E w' d' r = Inr True \<longrightarrow>
       owner_image_vnode w' (r_pid r) (Some v) = Inr v \<and>
       (\<exists>f' base' b b'. owner_exec_facts w' (r_pid r) = Inr f' \<and> ow_expand w' profile = Inr base' \<and>
          utf8_encode (image_payload (r_provider r) (fst v) (snd v) f base) = Some b \<and>
          utf8_encode (image_payload (r_provider r) (fst v) (snd v) f' base') = Some b' \<and>
          sha256hex E b' = sha256hex E b \<and>
          (image_payload (r_provider r) (fst v) (snd v) f' base' = image_payload (r_provider r) (fst v) (snd v) f base \<longrightarrow>
             f' = f \<and> base' = base)))"
proof -
  from anchor_published [OF assms(1-4,6,7)] obtain owner profile device inode digest where a:
    "r_owner_identity r = Some owner" "r_profile_root r = Some profile" "profile \<noteq> []"
    "owner_image_vnode w (r_pid r) None = Inr (device, inode)"
    "owner_image_identity_for_vnode E w (r_provider r) (r_pid r) device inode profile = Inr digest"
    "route_owner_anchor E d' r = Inr (Some (device, inode, digest))" .
  from a(5) obtain f base b where f: "owner_exec_facts w (r_pid r) = Inr f" "ow_expand w profile = Inr base"
    "utf8_encode (image_payload (r_provider r) device inode f base) = Some b" "digest = sha256hex E b"
    by (rule image_identity_cases)
  let ?check = "bind (owner_image_vnode w' (r_pid r) (Some (device, inode))) (\<lambda>(device, inode).
      bind (owner_image_identity_for_vnode E w' (r_provider r) (r_pid r) device inode profile) (\<lambda>x. Inr (x = digest)))"
  have current: "route_owner_current E w' d' r = or_false ?check"
    using anchored_check [OF a(6) _ a(2,3)] a(1) by simp
  have "route_owner_current E w' d' r = Inr True"
    if "owner_image_vnode w' (r_pid r) (Some (device, inode)) = Inr (device, inode)"
      "owner_exec_facts w' (r_pid r) = Inr f" "ow_expand w' profile = Inr base"
    using that f by (simp add: current owner_image_identity_for_vnode_def owner_image_identity_def encode_def)
  moreover have "owner_image_vnode w' (r_pid r) (Some (device, inode)) = Inr (device, inode) \<and>
      (\<exists>f' base' b'. owner_exec_facts w' (r_pid r) = Inr f' \<and> ow_expand w' profile = Inr base' \<and>
         utf8_encode (image_payload (r_provider r) device inode f' base') = Some b' \<and> sha256hex E b' = sha256hex E b \<and>
         (image_payload (r_provider r) device inode f' base' = image_payload (r_provider r) device inode f base \<longrightarrow>
            f' = f \<and> base' = base))"
    if "route_owner_current E w' d' r = Inr True"
  proof -
    from that obtain v where v: "owner_image_vnode w' (r_pid r) (Some (device, inode)) = Inr v"
      "owner_image_identity_for_vnode E w' (r_provider r) (r_pid r) (fst v) (snd v) profile = Inr digest"
      by (auto simp: current res_simps)
    then have t: "v = (device, inode)" unfolding owner_image_vnode_def by (blast dest: scan_regions_target)
    from v(2) obtain f' base' b' where f': "owner_exec_facts w' (r_pid r) = Inr f'" "ow_expand w' profile = Inr base'"
      "utf8_encode (image_payload (r_provider r) (fst v) (snd v) f' base') = Some b'" "digest = sha256hex E b'"
      by (rule image_identity_cases)
    from image_payload_inject [OF _ exec_facts_bytes [OF assms(5) f'(1)] exec_facts_bytes [OF assms(4) f(1)]]
    show ?thesis using v(1) f' f(4) t by auto
  qed
  ultimately show ?thesis
    using a(2,4) f(1-3)
    by (intro exI [of _ "(device, inode)"] exI [of _ f] exI [of _ base] exI [of _ profile]) auto
qed

definition sample_owner_world :: owner_world where
  "sample_owner_world =
     \<lparr>ow_bsdinfo = (\<lambda>_. Some (replicate PROC_BSDINFO_SIZE 0)), ow_region = (\<lambda>_ _. Some (replicate PROC_REGIONWITHPATHINFO_SIZE 0)),
      ow_unique = (\<lambda>_. Some (replicate PROC_UNIQIDENTIFIERINFO_SIZE 0)), ow_path = (\<lambda>_. None), ow_uid = 0,
      ow_resolve = (\<lambda>_. Inl OSError), ow_expand = (\<lambda>_. Inr (lit ''/p'')), ow_stat = (\<lambda>_. Inr (0, 0)),
      ow_devin_binaries = fail ''Devin CLI is unavailable'', ow_devin_profile = Inr (lit ''/p''), ow_home = lit ''/p'',
      ow_codex_home = None, ow_claude_config_dir = None\<rparr>"

definition sample_owned_route :: route where
  "sample_owned_route = sample_route\<lparr>r_profile_root := Some (lit ''/p'')\<rparr>"

lemma sample_owned_route_storable: "route_storable sample_env sample_owned_route"
proof -
  have "cwd_shape (lit ''/p'')" using sample_route_storable by (simp add: route_storable_def route_valid_def sample_route_def)
  moreover have "list_all (printable True) (lit s)" for s
    using scalar_lit by (auto simp: list_all_iff is_scalar_printable)
  ultimately show ?thesis
    using sample_route_storable
    by (simp add: route_storable_def route_valid_def sample_owned_route_def route_to_dict_def route_dict_def sample_route_def)
qed

lemma le_value_zeros [simp]: "le_value (replicate n 0) = 0"
  by (induction n) simp_all

lemma raw_field_zeros [simp]: "raw_field (replicate n 0) start width = 0"
  by (simp add: raw_field_def)

lemma sample_owner_world_ok: "kernel_ok sample_owner_world"
  by (auto simp: kernel_ok_def sample_owner_world_def is_bytes_def list_all_iff is_code_point_def lit_def)

lemma sample_owner_image: "owner_image_vnode sample_owner_world pid t = Inr (0, 0)" if "t = None \<or> t = Some (0, 0)"
  using that by (auto simp: owner_image_vnode_def REGION_SCAN_MAX_def owner_vnode_region_def sample_owner_world_def numeral_eq_Suc)

lemma sample_exec_facts: "\<exists>f. owner_exec_facts sample_owner_world pid = Inr f"
  by (simp add: owner_exec_facts_def process_identity_facts_def sample_owner_world_def)

lemma sample_anchor:
  "\<exists>a. owner_anchor_document sample_env sample_owner_world sample_owned_route [] = Inr (Some a)"
proof -
  obtain f where f: "owner_exec_facts sample_owner_world (r_pid sample_owned_route) = Inr f" using sample_exec_facts by blast
  have "\<exists>b. utf8_encode (image_payload Claude 0 0 f (lit ''/p'')) = Some b"
  proof -
    have "list_all (\<lambda>c. \<not> is_surrogate c) (dec_str n)" for n
      using dec_str_digits [of n] by (auto simp: list_all_iff is_digit_def is_surrogate_def)
    then have t: "list_all (\<lambda>c. \<not> is_surrogate c) (dec_str n)" "list_all (\<lambda>c. \<not> is_surrogate c) (int_str i)" for n i
      by (auto simp: int_str_def is_surrogate_def)
    have h: "\<not> is_surrogate (hex_digit n)" if "n < 256" for n
      using that by (simp add: hex_digit_def is_surrogate_def)
    have "is_bytes (xf_uuid f)" using exec_facts_bytes [OF sample_owner_world_ok f] .
    then have "list_all (\<lambda>c. \<not> is_surrogate c) (bytes_hex (xf_uuid f))"
      using h by (auto simp: bytes_hex_def list_all_iff is_bytes_def less_mult_imp_div_less)
    then show ?thesis using t
      by (auto simp: image_payload_def utf8_encode_def list_all_iff lit_def is_surrogate_def)
  qed
  then obtain b where b: "utf8_encode (image_payload Claude 0 0 f (lit ''/p'')) = Some b" by blast
  have w: "ow_stat sample_owner_world p = Inr (0, 0)" "ow_expand sample_owner_world p = Inr (lit ''/p'')" for p
    by (simp_all add: sample_owner_world_def)
  have r: "r_owner_identity sample_owned_route = Some (sample_hex64 97)" "r_profile_root sample_owned_route = Some (lit ''/p'')"
    "r_provider sample_owned_route = Claude"
    by (simp_all add: sample_owned_route_def sample_route_def)
  show ?thesis
    by (simp add: owner_anchor_document_def r sample_owner_image w owner_image_identity_for_vnode_def f
        owner_image_identity_def encode_def b)
qed

theorem anchor_follows_process_witness:
  "\<exists>a d'. owner_anchor_document sample_env sample_owner_world sample_owned_route [] = Inr (Some a) \<and>
     registry_upsert sample_env empty_dir sample_owned_route (Some a) = Inr d' \<and>
     ow_path sample_owner_world 7 = None \<and> route_owner_current sample_env sample_owner_world d' sample_owned_route = Inr True"
proof -
  obtain a where a: "owner_anchor_document sample_env sample_owner_world sample_owned_route [] = Inr (Some a)"
    using sample_anchor by blast
  obtain d' where d': "registry_upsert sample_env empty_dir sample_owned_route (Some a) = Inr d'"
    by (simp add: registry_upsert_def empty_registry Let_def)
  have "\<exists>v. owner_image_vnode sample_owner_world (r_pid sample_owned_route) None = Inr v \<and>
      owner_image_vnode sample_owner_world (r_pid sample_owned_route) (Some v) = Inr v"
    using sample_owner_image by blast
  then have "route_owner_current sample_env sample_owner_world d' sample_owned_route = Inr True"
    using anchor_follows_process [OF sample_env_ok empty_registry(1) sample_owned_route_storable sample_owner_world_ok
        sample_owner_world_ok a d'] by auto
  then show ?thesis using a d' by (simp add: sample_owner_world_def)
qed

end
