(* ===== verification/CourierLife.thy ===== *)
theory CourierLife
  imports Wire
begin

text \<open>
  The life of a courier process in runtime.py: the lifetime lock, the socket it binds, what may
  be removed of a dead courier, and how a registration starts a new one.
\<close>

section \<open>The record in the lifetime lock\<close>

text \<open>\<^verbatim>\<open>f"{st_dev} {st_ino}\n"\<close>.\<close>

definition socket_record :: "nat \<times> nat \<Rightarrow> bytes" where
  "socket_record s = dec_str (fst s) @ 32 # dec_str (snd s) @ [10]"

text \<open>
  At most 129 bytes are read. Only the canonical text is a record, so the two numbers are what stands
  before and after the first space.
\<close>

definition recorded_socket_identity :: "bytes \<Rightarrow> (nat \<times> nat) option" where
  "recorded_socket_identity content =
     (if 129 \<le> length content then None
      else
        let first = takeWhile is_digit content;
            second = takeWhile is_digit (drop (Suc (length first)) content);
            s = (dec_value first, dec_value second) in
        if snd s \<noteq> 0 \<and> content = socket_record s then Some s else None)"

section \<open>The two files of a generation\<close>

text \<open>
  What the lock path holds when it is opened, and what the socket path holds when it is looked at.
  Inodes name files; \<open>LockUnsafe\<close> is any occupant that is not this user's own private regular file
  or that cannot be opened.
\<close>

datatype lock_entry = NoLock | LockUnsafe | LockFile nat

datatype socket_entry = NoSocket | SocketFails | SocketOdd | SocketAt "nat \<times> nat"

definition unsafe_socket :: "'a res" where
  "unsafe_socket = fail ''session courier socket is unsafe''"

text \<open>\<open>None\<close>: there is no lock file.\<close>

definition open_courier_lock :: "lock_entry \<Rightarrow> nat option res" where
  "open_courier_lock e =
     (case e of NoLock \<Rightarrow> Inr None | LockUnsafe \<Rightarrow> unsafe_socket | LockFile i \<Rightarrow> Inr (Some i))"

definition courier_lock_is_held :: "lock_entry \<Rightarrow> (nat \<Rightarrow> bool) \<Rightarrow> bool res" where
  "courier_lock_is_held e held =
     bind (open_courier_lock e) (\<lambda>descriptor. Inr (case descriptor of None \<Rightarrow> False | Some i \<Rightarrow> held i))"

definition lock_path_is_current :: "nat \<Rightarrow> lock_entry \<Rightarrow> bool" where
  "lock_path_is_current descriptor e \<longleftrightarrow> e = LockFile descriptor"

text \<open>
  \<open>opened\<close> is the lock path when it was opened; \<open>held\<close>, \<open>named\<close> (the lock path again), \<open>text\<close> (the
  contents of the locks) and \<open>sock\<close> are what is found after. The result is whether the courier is
  proven dead, and what the socket path then holds.
\<close>

definition reclaim_dead_courier_socket ::
  "lock_entry \<Rightarrow> (nat \<Rightarrow> bool) \<Rightarrow> lock_entry \<Rightarrow> (nat \<Rightarrow> bytes) \<Rightarrow> socket_entry \<Rightarrow> bool res \<times> socket_entry" where
  "reclaim_dead_courier_socket opened held named text sock =
     (case open_courier_lock opened of
        Inl e \<Rightarrow> (Inl e, sock)
      | Inr None \<Rightarrow> (Inr False, sock)
      | Inr (Some descriptor) \<Rightarrow>
          if held descriptor then (Inr False, sock)
          else if \<not> lock_path_is_current descriptor named then (Inr False, sock)
          else
            (case sock of
               NoSocket \<Rightarrow> (Inr True, sock)
             | SocketFails \<Rightarrow> (unsafe_socket, sock)
             | SocketOdd \<Rightarrow> (unsafe_socket, sock)
             | SocketAt s \<Rightarrow>
                 if recorded_socket_identity (text descriptor) \<noteq> Some s then (Inr False, sock)
                 else (Inr True, NoSocket)))"

section \<open>Couriers of one generation\<close>

text \<open>
  A process opens the lock, takes it, binds the socket, records it and serves; a registration opens
  the lock to reclaim. \<open>si_text\<close> is the content of each lock file, \<open>si_used\<close> the sockets ever bound.
\<close>

datatype life = Gone | Opened nat | Holding nat | Listening nat "nat \<times> nat" | Serving nat "nat \<times> nat"

record site =
  si_lock :: "nat option"
  si_text :: "nat \<Rightarrow> bytes"
  si_socket :: "(nat \<times> nat) option"
  si_used :: "(nat \<times> nat) set"
  si_life :: "nat \<Rightarrow> life"

fun holds :: "life \<Rightarrow> nat option" where
  "holds (Holding i) = Some i"
| "holds (Listening i s) = Some i"
| "holds (Serving i s) = Some i"
| "holds _ = None"

fun listens :: "life \<Rightarrow> (nat \<times> nat) option" where
  "listens (Listening i s) = Some s"
| "listens (Serving i s) = Some s"
| "listens _ = None"

definition lock_held :: "site \<Rightarrow> nat \<Rightarrow> bool" where
  "lock_held st i \<longleftrightarrow> (\<exists>p. holds (si_life st p) = Some i)"

definition lock_entry_of :: "site \<Rightarrow> lock_entry" where
  "lock_entry_of st = (case si_lock st of None \<Rightarrow> NoLock | Some i \<Rightarrow> LockFile i)"

definition socket_entry_of :: "site \<Rightarrow> socket_entry" where
  "socket_entry_of st = (case si_socket st of None \<Rightarrow> NoSocket | Some s \<Rightarrow> SocketAt s)"

abbreviation now_is :: "site \<Rightarrow> nat \<Rightarrow> life \<Rightarrow> site" where
  "now_is st p l \<equiv> st\<lparr>si_life := (si_life st)(p := l)\<rparr>"

text \<open>\<^verbatim>\<open>os.open(.., O_CREAT)\<close>: a lock file that is not there is made, empty.\<close>

definition opened_lock :: "site \<Rightarrow> nat \<Rightarrow> nat \<times> site" where
  "opened_lock st new =
     (case si_lock st of
        Some i \<Rightarrow> (i, st)
      | None \<Rightarrow> (new, st\<lparr>si_lock := Some new, si_text := (si_text st)(new := [])\<rparr>))"

text \<open>
  The steps of \<open>courier_server\<close> from \<open>_acquire_courier_lock\<close> on, a crash at any point, what a process
  of the same user may remove, and a registration that reclaims. A write of the record that fails
  leaves a proper prefix of it, and then the path is removed.
\<close>

inductive site_step :: "site \<Rightarrow> site \<Rightarrow> bool" where
  open_lock: "site_step st (now_is st' p (Opened i))"
    if "si_life st p = Gone" "opened_lock st new = (i, st')" "\<forall>q. holds (si_life st q) \<noteq> Some new \<and> si_life st q \<noteq> Opened new"
| take_lock: "site_step st (now_is st p (Holding i))" if "si_life st p = Opened i" "\<not> lock_held st i"
| lock_busy: "site_step st (now_is st p Gone)" if "si_life st p = Opened i" "lock_held st i"
| bind_socket: "site_step st (now_is (st\<lparr>si_socket := Some s, si_used := insert s (si_used st)\<rparr>) p (Listening i s))"
    if "si_life st p = Holding i" "si_socket st = None" "s \<notin> si_used st"
| record_socket: "site_step st (now_is (st\<lparr>si_text := (si_text st)(i := socket_record s)\<rparr>) p (Serving i s))"
    if "si_life st p = Listening i s"
| record_fails: "site_step st (now_is (st\<lparr>si_text := (si_text st)(i := take k (socket_record s)), si_socket := None\<rparr>) p Gone)"
    if "si_life st p = Listening i s" "k < length (socket_record s)"
| record_crash: "site_step st (now_is (st\<lparr>si_text := (si_text st)(i := take k (socket_record s))\<rparr>) p Gone)"
    if "si_life st p = Listening i s"
| stop: "site_step st (now_is (st\<lparr>si_socket := (if si_socket st = Some s then None else si_socket st)\<rparr>) p Gone)"
    if "si_life st p = Serving i s"
| crash: "site_step st (now_is st p Gone)"
| unlink_lock: "site_step st (st\<lparr>si_lock := None\<rparr>)"
| unlink_socket: "site_step st (st\<lparr>si_socket := None\<rparr>)"
| reclaim: "site_step st (now_is (st\<lparr>si_socket := (case sock of SocketAt s \<Rightarrow> Some s | _ \<Rightarrow> None)\<rparr>) p Gone)"
    if "si_life st p = Opened i"
      "reclaim_dead_courier_socket (LockFile i) (lock_held st) (lock_entry_of st) (si_text st) (socket_entry_of st) = (r, sock)"

abbreviation site_steps :: "site \<Rightarrow> site \<Rightarrow> bool" where
  "site_steps \<equiv> site_step\<^sup>*\<^sup>*"

definition empty_site :: site where
  "empty_site = \<lparr>si_lock = None, si_text = (\<lambda>_. []), si_socket = None, si_used = {}, si_life = (\<lambda>_. Gone)\<rparr>"

section \<open>Records\<close>

lemma recorded_sound: "recorded_socket_identity c = Some s \<Longrightarrow> c = socket_record s"
  by (auto simp: recorded_socket_identity_def Let_def split: if_splits)

lemma digits_take: "takeWhile is_digit (dec_str n @ r) = dec_str n @ takeWhile is_digit r"
  using dec_str_digits [of n] by (simp add: takeWhile_append2 list_all_iff)

lemma recorded_back: "snd s \<noteq> 0 \<Longrightarrow> length (socket_record s) < 129 \<Longrightarrow> recorded_socket_identity (socket_record s) = Some s"
  by (simp add: recorded_socket_identity_def socket_record_def digits_take is_digit_def)

lemma recorded_empty [simp]: "recorded_socket_identity [] = None"
  by (simp add: recorded_socket_identity_def socket_record_def Let_def)

lemma record_inject: "socket_record s = socket_record s' \<longleftrightarrow> s = s'"
proof
  assume e: "socket_record s = socket_record s'"
  have "fst s = fst s'" if "socket_record s = socket_record s'" for s s'
    using arg_cong [OF that, of "takeWhile is_digit"] by (simp add: socket_record_def digits_take is_digit_def) (metis dec_value_dec_str)
  from this [OF e] e show "s = s'"
    by (simp add: socket_record_def prod_eq_iff) (metis dec_value_dec_str)
qed simp

text \<open>A newline ends a record and stands nowhere else, so no proper prefix of a record is one.\<close>

lemma record_prefix:
  assumes "take k (socket_record s) = socket_record s'"
  shows "length (socket_record s) \<le> k \<and> s' = s"
proof -
  define x where "x = dec_str (fst s) @ 32 # dec_str (snd s)"
  have "10 \<notin> set (dec_str n)" for n using dec_str_digits [of n] by (auto simp: list_all_iff is_digit_def)
  then have n: "10 \<notin> set x" by (simp add: x_def)
  have r: "socket_record s = x @ [10]" by (simp add: x_def socket_record_def)
  have "10 \<in> set (socket_record s')" by (simp add: socket_record_def)
  then have "10 \<in> set (take k (x @ [10]))" using assms r by simp
  then have "length (socket_record s) \<le> k"
    using n by (cases "k \<le> length x") (auto simp: r dest: in_set_takeD)
  then show ?thesis using assms by (simp add: record_inject)
qed

section \<open>The invariant of a generation\<close>

definition site_inv :: "site \<Rightarrow> bool" where
  "site_inv st \<longleftrightarrow>
     (\<forall>p q i. holds (si_life st p) = Some i \<longrightarrow> holds (si_life st q) = Some i \<longrightarrow> p = q) \<and>
     (\<forall>p s. listens (si_life st p) = Some s \<longrightarrow> s \<in> si_used st) \<and>
     (\<forall>p q s. listens (si_life st p) = Some s \<longrightarrow> listens (si_life st q) = Some s \<longrightarrow> p = q) \<and>
     (\<forall>i s. recorded_socket_identity (si_text st i) = Some s \<longrightarrow>
        s \<in> si_used st \<and> (\<forall>p. listens (si_life st p) = Some s \<longrightarrow> holds (si_life st p) = Some i))"

lemma site_invI:
  assumes "\<And>p q i. holds (si_life st p) = Some i \<Longrightarrow> holds (si_life st q) = Some i \<Longrightarrow> p = q"
    and "\<And>p s. listens (si_life st p) = Some s \<Longrightarrow> s \<in> si_used st"
    and "\<And>p q s. listens (si_life st p) = Some s \<Longrightarrow> listens (si_life st q) = Some s \<Longrightarrow> p = q"
    and "\<And>i s. recorded_socket_identity (si_text st i) = Some s \<Longrightarrow> s \<in> si_used st"
    and "\<And>i s p. recorded_socket_identity (si_text st i) = Some s \<Longrightarrow> listens (si_life st p) = Some s \<Longrightarrow>
      holds (si_life st p) = Some i"
  shows "site_inv st"
  using assms unfolding site_inv_def by blast

lemma site_invD:
  assumes "site_inv st"
  shows "holds (si_life st p) = Some i \<Longrightarrow> holds (si_life st q) = Some i \<Longrightarrow> p = q"
    and "listens (si_life st p) = Some s \<Longrightarrow> s \<in> si_used st"
    and "listens (si_life st p) = Some s \<Longrightarrow> listens (si_life st q) = Some s \<Longrightarrow> p = q"
    and "recorded_socket_identity (si_text st i) = Some s \<Longrightarrow> s \<in> si_used st"
    and "recorded_socket_identity (si_text st i) = Some s \<Longrightarrow> listens (si_life st p) = Some s \<Longrightarrow>
      holds (si_life st p) = Some i"
  using assms unfolding site_inv_def by blast+

lemma site_inv_paths:
  "si_text st' = si_text st \<Longrightarrow> si_used st' = si_used st \<Longrightarrow> si_life st' = si_life st \<Longrightarrow> site_inv st' \<longleftrightarrow> site_inv st"
  by (simp add: site_inv_def)

lemma listens_holds: "listens l = Some s \<Longrightarrow> \<exists>i. holds l = Some i"
  by (cases l) simp_all

text \<open>A process that leaves, or that never had the lock, changes nothing for the others.\<close>

lemma site_inv_life:
  assumes "site_inv st" "holds l = None" "\<And>i. si_text st' i = si_text st i \<or> recorded_socket_identity (si_text st' i) = None"
    and "si_used st' = si_used st" "si_life st' = (si_life st)(p := l)"
  shows "site_inv st'"
proof -
  have n: "listens l = None" using assms(2) by (cases l) simp_all
  show ?thesis
  proof (rule site_invI)
    show "q = q'" if "holds (si_life st' q) = Some i" "holds (si_life st' q') = Some i" for q q' i
      using that assms(2,5) site_invD(1) [OF assms(1), of q i q'] by (auto split: if_splits)
    show "s \<in> si_used st'" if "listens (si_life st' q) = Some s" for q s
      using that assms(4,5) n site_invD(2) [OF assms(1), of q s] by (auto split: if_splits)
    show "q = q'" if "listens (si_life st' q) = Some s" "listens (si_life st' q') = Some s" for q q' s
      using that assms(5) n site_invD(3) [OF assms(1), of q s q'] by (auto split: if_splits)
    show "s \<in> si_used st'" if "recorded_socket_identity (si_text st' i) = Some s" for i s
      using that assms(3) [of i] assms(4) site_invD(4) [OF assms(1), of i s] by auto
    show "holds (si_life st' q) = Some i"
      if "recorded_socket_identity (si_text st' i) = Some s" "listens (si_life st' q) = Some s" for i s q
      using that assms(3) [of i] assms(5) n site_invD(5) [OF assms(1), of i s q] by (auto split: if_splits)
  qed
qed

lemma recorded_partial: "recorded_socket_identity (take k (socket_record s)) = Some s' \<Longrightarrow> length (socket_record s) \<le> k \<and> s' = s"
  by (rule record_prefix [OF recorded_sound])

lemma recorded_short: "k < length (socket_record s) \<Longrightarrow> recorded_socket_identity (take k (socket_record s)) = None"
  by (cases "recorded_socket_identity (take k (socket_record s))") (simp_all, drule recorded_partial, simp)

text \<open>The record of a socket in the lock of its own process.\<close>

lemma site_inv_text:
  assumes "site_inv st" "si_life st p = Listening i s"
    and "\<And>s'. recorded_socket_identity t = Some s' \<Longrightarrow> s' = s"
    and "l = Gone \<or> l = Serving i s"
  shows "site_inv (now_is (st\<lparr>si_text := (si_text st)(i := t)\<rparr>) p l)"
proof (rule site_invI)
  let ?st = "now_is (st\<lparr>si_text := (si_text st)(i := t)\<rparr>) p l"
  have old: "holds (si_life ?st q) = Some j \<Longrightarrow> holds (si_life st q) = Some j"
    "listens (si_life ?st q) = Some x \<Longrightarrow> listens (si_life st q) = Some x" for q j x
    using assms(2,4) by (auto split: if_splits)
  show "q = q'" if "holds (si_life ?st q) = Some j" "holds (si_life ?st q') = Some j" for q q' j
    using site_invD(1) [OF assms(1)] old(1) that by blast
  show "x \<in> si_used ?st" if "listens (si_life ?st q) = Some x" for q x
    using site_invD(2) [OF assms(1) old(2) [OF that]] by simp
  show "q = q'" if "listens (si_life ?st q) = Some x" "listens (si_life ?st q') = Some x" for q q' x
    using site_invD(3) [OF assms(1)] old(2) that by blast
  have s: "s \<in> si_used st" using site_invD(2) [OF assms(1), of p s] assms(2) by simp
  show "x \<in> si_used ?st" if "recorded_socket_identity (si_text ?st j) = Some x" for j x
    using that assms(3) s site_invD(4) [OF assms(1), of j x] by (auto split: if_splits)
  show "holds (si_life ?st q) = Some j"
    if r: "recorded_socket_identity (si_text ?st j) = Some x" and q: "listens (si_life ?st q) = Some x" for j x q
  proof (cases "j = i")
    case True
    then have "x = s" using r assms(3) by simp
    then have "q = p" using site_invD(3) [OF assms(1) old(2) [OF q], of p] assms(2) by simp
    then show ?thesis using q True assms(4) by auto
  next
    case False
    then have "recorded_socket_identity (si_text st j) = Some x" using r by simp
    from site_invD(5) [OF assms(1) this old(2) [OF q]] have h: "holds (si_life st q) = Some j" .
    with False assms(2) have "q \<noteq> p" by auto
    with h show ?thesis by simp
  qed
qed

lemma reclaim_result:
  assumes "reclaim_dead_courier_socket (LockFile i) held named text sock = (r, sock')"
  shows "sock' = sock \<or>
    (\<exists>s. sock = SocketAt s \<and> sock' = NoSocket \<and> r = Inr True \<and> \<not> held i \<and> named = LockFile i \<and>
       recorded_socket_identity (text i) = Some s)"
  using assms
  by (auto simp: reclaim_dead_courier_socket_def open_courier_lock_def lock_path_is_current_def
      split: if_splits socket_entry.splits)

lemma site_inv_step: "site_step st st' \<Longrightarrow> site_inv st \<Longrightarrow> site_inv st'"
proof (induction rule: site_step.induct)
  case (open_lock st p new i st')
  have t: "si_text st' j = si_text st j \<or> recorded_socket_identity (si_text st' j) = None" for j
    using open_lock(2) by (auto simp: opened_lock_def split: option.splits)
  have "si_used st' = si_used st" "si_life st' = si_life st"
    using open_lock(2) by (auto simp: opened_lock_def split: option.splits)
  then show ?case using t by (intro site_inv_life [OF open_lock(4), of "Opened i"]) simp_all
next
  case (take_lock st p i)
  note d = site_invD [OF take_lock(3)]
  show ?case
    by (rule site_invI) (use take_lock d in \<open>auto simp: lock_held_def split: if_splits\<close>)
next
  case (bind_socket st p i s)
  note d = site_invD [OF bind_socket(4)]
  have h: "holds (si_life st p) = Some i" using bind_socket(1) by simp
  show ?case
  proof (rule site_invI)
    let ?st = "now_is (st\<lparr>si_socket := Some s, si_used := insert s (si_used st)\<rparr>) p (Listening i s)"
    have old: "holds (si_life ?st q) = Some j \<Longrightarrow> holds (si_life st q) = Some j" for q j
      using h by (auto split: if_splits)
    show "q = q'" if "holds (si_life ?st q) = Some j" "holds (si_life ?st q') = Some j" for q q' j
      using d(1) old that by blast
    show "x \<in> si_used ?st" if "listens (si_life ?st q) = Some x" for q x
      using that d(2) by (auto split: if_splits)
    show "q = q'" if "listens (si_life ?st q) = Some x" "listens (si_life ?st q') = Some x" for q q' x
      using that d(2) [of _ s] d(3) bind_socket(3) by (auto split: if_splits)
    show "x \<in> si_used ?st" if "recorded_socket_identity (si_text ?st j) = Some x" for j x
      using that d(4) by auto
    show "holds (si_life ?st q) = Some j"
      if "recorded_socket_identity (si_text ?st j) = Some x" "listens (si_life ?st q) = Some x" for j x q
      using that d(4) [of j s] d(5) bind_socket(3) by (auto split: if_splits)
  qed
next
  case (record_socket st p i s)
  show ?case
    by (rule site_inv_text [OF record_socket(2,1)]) (auto dest: recorded_sound simp: record_inject)
next
  case (record_fails st p i s k)
  have "site_inv (now_is (st\<lparr>si_text := (si_text st)(i := take k (socket_record s))\<rparr>) p Gone)"
    by (rule site_inv_text [OF record_fails(3,1)]) (auto dest: recorded_partial)
  then show ?case by (rule site_inv_paths [THEN iffD1, rotated 3]) simp_all
next
  case (record_crash st p i s k)
  show ?case by (rule site_inv_text [OF record_crash(2,1)]) (auto dest: recorded_partial)
next
  case (unlink_lock st)
  then show ?case by (rule site_inv_paths [THEN iffD1, rotated 3]) simp_all
next
  case (unlink_socket st)
  then show ?case by (rule site_inv_paths [THEN iffD1, rotated 3]) simp_all
next
  case (lock_busy st p i)
  show ?case by (rule site_inv_life [OF lock_busy(3), of Gone]) simp_all
next
  case (stop st p i s)
  show ?case by (rule site_inv_life [OF stop(2), of Gone]) simp_all
next
  case (crash st p)
  show ?case by (rule site_inv_life [OF crash(1), of Gone]) simp_all
next
  case (reclaim st p i r sock)
  show ?case by (rule site_inv_life [OF reclaim(3), of Gone]) simp_all
qed

lemma site_inv_reach: "site_steps empty_site st \<Longrightarrow> site_inv st"
proof (induction rule: rtranclp_induct)
  case base
  then show ?case by (intro site_invI) (simp_all add: empty_site_def)
qed (rule site_inv_step)

section \<open>Properties\<close>


text \<open>A courier that crashed after it recorded its socket is reclaimed.\<close>

definition crashed_site :: site where
  "crashed_site =
     \<lparr>si_lock = Some 7, si_text = (\<lambda>_. [])(7 := socket_record (1, 5)), si_socket = Some (1, 5), si_used = {(1, 5)},
      si_life = (\<lambda>_. Gone)(1 := Opened 7)\<rparr>"

lemma crashed_site_reached: "site_steps empty_site crashed_site"
proof -
  let ?a = "now_is (empty_site\<lparr>si_lock := Some 7, si_text := (si_text empty_site)(7 := [])\<rparr>) 0 (Opened 7)"
  let ?b = "now_is ?a 0 (Holding 7)"
  let ?c = "now_is (?b\<lparr>si_socket := Some (1, 5), si_used := insert (1, 5) (si_used ?b)\<rparr>) 0 (Listening 7 (1, 5))"
  let ?d = "now_is (?c\<lparr>si_text := (si_text ?c)(7 := socket_record (1, 5))\<rparr>) 0 (Serving 7 (1, 5))"
  let ?e = "now_is ?d 0 Gone"
  have "site_step empty_site ?a"
    by (rule open_lock [of _ _ 7]) (simp_all add: empty_site_def opened_lock_def)
  moreover have "site_step ?a ?b" by (rule take_lock) (simp_all add: empty_site_def lock_held_def)
  moreover have "site_step ?b ?c" by (rule bind_socket) (simp_all add: empty_site_def)
  moreover have "site_step ?c ?d" by (rule record_socket) simp
  moreover have "site_step ?d ?e" by (rule crash)
  moreover have "site_step ?e crashed_site"
  proof -
    have "site_step ?e (now_is ?e 1 (Opened 7))"
      by (rule open_lock [of _ _ 8]) (simp_all add: empty_site_def opened_lock_def)
    moreover have "now_is ?e 1 (Opened 7) = crashed_site"
      by (simp add: crashed_site_def empty_site_def fun_eq_iff)
    ultimately show ?thesis by simp
  qed
  ultimately show ?thesis by (meson r_into_rtranclp rtranclp_trans)
qed


end
