(* ===== verification/Launch.thy ===== *)
theory Launch
  imports Owners CourierLife SmallFrames Sender "HOL-Library.AList"
begin

text \<open>
  Starting the courier of a route in runtime.py (\<open>_spawn_courier\<close>): its command, the environment it
  gets, the wait for its first answer and what is cleaned up when that fails.
\<close>

section \<open>Command and environment\<close>

definition COURIER_ENV_KEYS :: "string list" where
  "COURIER_ENV_KEYS = [''HOME'', ''PATH'', ''TMPDIR'', ''LANG'', ''LC_CTYPE'', ''USER'', ''LOGNAME'', ''SHELL'']"

definition CLAUDE_AUTH_ENV_KEYS :: "string list" where
  "CLAUDE_AUTH_ENV_KEYS =
     [''CLAUDE_CODE_OAUTH_TOKEN'', ''ANTHROPIC_API_KEY'', ''ANTHROPIC_AUTH_TOKEN'', ''AWS_ACCESS_KEY_ID'',
      ''AWS_SECRET_ACCESS_KEY'', ''AWS_SESSION_TOKEN'']"

definition CLAUDE_CONTEXT_ENV_KEYS :: "string list" where
  "CLAUDE_CONTEXT_ENV_KEYS =
     [''CLAUDE_CONFIG_DIR'', ''ANTHROPIC_BASE_URL'', ''ANTHROPIC_BEDROCK_BASE_URL'', ''ANTHROPIC_VERTEX_BASE_URL'',
      ''ANTHROPIC_FOUNDRY_BASE_URL'', ''CLAUDE_CODE_USE_BEDROCK'', ''CLAUDE_CODE_USE_VERTEX'', ''CLAUDE_CODE_USE_FOUNDRY'',
      ''AWS_PROFILE'', ''AWS_REGION'', ''AWS_DEFAULT_REGION'', ''GOOGLE_APPLICATION_CREDENTIALS'',
      ''ANTHROPIC_VERTEX_PROJECT_ID'', ''CLOUD_ML_REGION'', ''ANTHROPIC_DEFAULT_HAIKU_MODEL'']"

definition BOUND_CLAUDE_BINARY_ENV :: string where "BOUND_CLAUDE_BINARY_ENV = ''CROSS_AGENT_CHAT_CLAUDE_BINARY''"
definition NATIVE_QUEUE_ENV_VAR :: string where "NATIVE_QUEUE_ENV_VAR = ''CROSS_AGENT_CHAT_CODEX_NATIVE_QUEUE''"
definition NATIVE_QUEUE_BINARY_ENV_VAR :: string where
  "NATIVE_QUEUE_BINARY_ENV_VAR = ''CROSS_AGENT_CHAT_CODEX_BINARY''"

type_synonym environ = "(str \<times> str) list"

text \<open>\<^verbatim>\<open>{key: source[key] for key in keys if key in source}\<close>.\<close>

definition kept_environment :: "environ \<Rightarrow> string list \<Rightarrow> environ" where
  "kept_environment source keys =
     List.map_filter (\<lambda>k. map_option (\<lambda>v. (lit k, v)) (map_of source (lit k))) keys"

definition courier_environment :: "environ \<Rightarrow> environ" where
  "courier_environment source =
     kept_environment source (COURIER_ENV_KEYS @ CLAUDE_AUTH_ENV_KEYS @ CLAUDE_CONTEXT_ENV_KEYS)"

definition courier_command :: "str \<Rightarrow> str \<Rightarrow> route \<Rightarrow> str list" where
  "courier_command executable state r =
     [executable, lit ''_courier'', lit ''--provider'', provider_str (r_provider r), lit ''--state-root'', state,
      lit ''--session-id'', r_session_id r, lit ''--cwd'', r_cwd r, lit ''--generation'', r_generation r,
      lit ''--pid'', int_str (r_pid r)]"

section \<open>What a start meets\<close>

text \<open>
  One round of the wait: what the courier wrote to its standard error since, whether it has exited,
  the answer on its socket, and the seconds that took. \<open>sp_lower\<close> decodes and lower-cases.
\<close>

record spawn_round =
  sr_stderr :: "bytes list"
  sr_exited :: bool
  sr_exchange :: exchange
  sr_took :: rat

record spawn =
  sp_owner :: owner_world
  sp_discovered :: "provider \<Rightarrow> str option res"
  sp_socket_there :: bool
  sp_executable :: "str res"
  sp_environ :: environ
  sp_claude :: "str res"
  sp_which_codex :: "str option"
  sp_pipe :: bool
  sp_popen :: bool
  sp_lower :: "bytes \<Rightarrow> str"
  sp_start :: rat
  sp_rounds :: "nat \<Rightarrow> spawn_round"

definition with_queue_binary :: "spawn \<Rightarrow> str option \<Rightarrow> environ \<Rightarrow> environ res" where
  "with_queue_binary sp codex env =
     (case codex of
        None \<Rightarrow> Inr env
      | Some path \<Rightarrow>
          (case ow_resolve (sp_owner sp) path of
             Inr binary \<Rightarrow> Inr (AList.update (lit NATIVE_QUEUE_BINARY_ENV_VAR) binary env)
           | Inl e \<Rightarrow> if is_os_error e then Inr env else Inl e))"

definition spawn_environment :: "spawn \<Rightarrow> route \<Rightarrow> str option \<Rightarrow> environ res" where
  "spawn_environment sp r owner_binary =
     (case r_provider r of
        Claude \<Rightarrow>
          bind (case owner_binary of Some b \<Rightarrow> Inr b | None \<Rightarrow> sp_claude sp) (\<lambda>binary.
          Inr (AList.update (lit BOUND_CLAUDE_BINARY_ENV) binary (courier_environment (sp_environ sp))))
      | Codex \<Rightarrow>
          bind (profile_or_default (sp_owner sp) Codex (r_profile_root r)) (\<lambda>home.
          let kept = kept_environment (sp_environ sp) (COURIER_ENV_KEYS @ [''CODEX_HOME'', NATIVE_QUEUE_ENV_VAR]);
              env = AList.update (lit ''CODEX_HOME'') home kept in
          with_queue_binary sp (case owner_binary of Some b \<Rightarrow> Some b | None \<Rightarrow> sp_which_codex sp) env)
      | Devin \<Rightarrow> Inr (kept_environment (sp_environ sp) [''PATH'', ''HOME'']))"

section \<open>Diagnostics\<close>

definition MAX_COURIER_DIAGNOSTIC_BYTES :: nat where "MAX_COURIER_DIAGNOSTIC_BYTES = 1024"

text \<open>The chunks a nonblocking read gives; an empty one, or none, ends the drain.\<close>

fun drain_courier_stderr :: "nat \<Rightarrow> bytes \<Rightarrow> bytes list \<Rightarrow> bytes" where
  "drain_courier_stderr drained captured [] = captured"
| "drain_courier_stderr drained captured (c # cs) =
     (if drained < MAX_COURIER_DIAGNOSTIC_BYTES
      then
        let chunk = take (min 4096 (MAX_COURIER_DIAGNOSTIC_BYTES - drained)) c in
        if chunk = [] then captured
        else drain_courier_stderr (drained + length chunk)
               (captured @ take (MAX_COURIER_DIAGNOSTIC_BYTES - length captured) chunk) cs
      else captured)"

definition courier_failure_phase :: "(bytes \<Rightarrow> str) \<Rightarrow> bytes \<Rightarrow> string" where
  "courier_failure_phase lower captured =
     (let detail = lower captured; says = (\<lambda>s. sublist (lit s) detail) in
      if says ''courier route is not current'' then ''route''
      else if says ''address already in use'' then ''socket-bind''
      else if says ''native queue is unavailable'' then ''context''
      else if says ''modulenotfounderror'' \<or> says ''importerror'' then ''runtime''
      else ''child'')"

section \<open>Waiting for the first answer\<close>

definition COURIER_STARTUP_SECONDS :: rat where "COURIER_STARTUP_SECONDS = 15"

definition bootstrap_payload :: "route \<Rightarrow> dict" where
  "bootstrap_payload r =
     [(lit ''schema_version'', JInt SCHEMA_VERSION), (lit ''operation'', JStr (lit ''bootstrap'')),
      (lit ''generation'', JStr (r_generation r))]"

definition bootstrap_response :: "dict \<Rightarrow> route \<Rightarrow> bool" where
  "bootstrap_response response r \<longleftrightarrow>
     py_eq (JObj response)
       (JObj [(lit ''schema_version'', JInt SCHEMA_VERSION), (lit ''status'', JStr (lit ''BOOTSTRAPPED'')),
              (lit ''generation'', JStr (r_generation r))])"

lemma later_shrinks:
  assumes "\<not> deadline \<le> now"
  shows "\<lceil>deadline * 50 - after (after now s) (1 / 50) * 50\<rceil> < \<lceil>deadline * 50 - now * 50\<rceil>"
proof -
  have "deadline * 50 - after (after now s) (1 / 50) * 50 \<le> (deadline * 50 - now * 50) - 1"
    by (simp add: after_def algebra_simps)
  then have "\<lceil>deadline * 50 - after (after now s) (1 / 50) * 50\<rceil> \<le> \<lceil>deadline * 50 - now * 50\<rceil> - 1"
    by (metis ceiling_diff_one ceiling_mono)
  then show ?thesis by simp
qed

text \<open>Every round that is not the last sleeps a fiftieth of a second, so the wait ends.\<close>

function bootstrap_loop :: "pyenv \<Rightarrow> spawn \<Rightarrow> route \<Rightarrow> rat \<Rightarrow> nat \<Rightarrow> bytes \<Rightarrow> rat \<Rightarrow> unit res \<times> bytes" where
  "bootstrap_loop E sp r deadline n captured now =
     (if deadline \<le> now then (fail ''session courier did not complete local bootstrap'', captured)
      else
        let a = sp_rounds sp n; captured' = drain_courier_stderr 0 captured (sr_stderr a);
            later = after (after now (sr_took a)) (1 / 50) in
        if sr_exited a
        then (Inl (ChatError (lit ''session courier exited before local bootstrap ('' @
                lit (courier_failure_phase (sp_lower sp) captured') @ lit '')'')), captured')
        else
          case request_socket E (sr_exchange a) (bootstrap_payload r) of
            Inr response \<Rightarrow>
              if bootstrap_response response r then (Inr (), captured')
              else bootstrap_loop E sp r deadline (Suc n) captured' later
          | Inl e \<Rightarrow>
              if is_chat_error e then bootstrap_loop E sp r deadline (Suc n) captured' later else (Inl e, captured'))"
  by pat_completeness auto

termination
  by (relation "measure (\<lambda>(E, sp, r, deadline, n, captured, now). nat \<lceil>(deadline - now) * 50\<rceil>)")
    (auto simp: later_shrinks left_diff_distrib)

declare bootstrap_loop.simps [simp del]

section \<open>Starting a courier\<close>

datatype child = NotStarted | Running | Reaped

text \<open>
  A failure after the process was started stops and reaps it. \<open>_reap_owned_courier\<close> then removes a
  socket at the path: the one that was there before the process was stopped, or one that appeared
  meanwhile while the route is still registered.
\<close>

definition reap_removes_socket :: "(nat \<times> nat) option \<Rightarrow> (nat \<times> nat) option \<Rightarrow> bool \<Rightarrow> bool" where
  "reap_removes_socket socket_identity current_socket registered \<longleftrightarrow>
     (socket_identity \<noteq> None \<and> current_socket = socket_identity) \<or>
     (socket_identity = None \<and> current_socket \<noteq> None \<and> registered)"

text \<open>Everything up to \<^verbatim>\<open>Popen\<close>: the environment of the process that was started.\<close>

definition prepare_spawn :: "pyenv \<Rightarrow> spawn \<Rightarrow> dir \<Rightarrow> route \<Rightarrow> environ res" where
  "prepare_spawn E sp d r =
     bind (courier_owner_binary E (sp_owner sp) (sp_discovered sp) d r) (\<lambda>owner_binary.
     if sp_socket_there sp then fail ''session courier socket already exists''
     else
       bind (except_chat is_os_error ''runtime executable is unavailable'' (sp_executable sp)) (\<lambda>_.
       bind (spawn_environment sp r owner_binary) (\<lambda>env.
       if \<not> sp_pipe sp then fail ''session courier diagnostics could not start''
       else if \<not> sp_popen sp then fail ''session courier could not start''
       else Inr env)))"

definition spawn_courier :: "pyenv \<Rightarrow> spawn \<Rightarrow> dir \<Rightarrow> route \<Rightarrow> unit res \<times> child" where
  "spawn_courier E sp d r =
     (case prepare_spawn E sp d r of
        Inl e \<Rightarrow> (Inl e, NotStarted)
      | Inr _ \<Rightarrow>
          (case bootstrap_loop E sp r (sp_start sp + COURIER_STARTUP_SECONDS) 0 [] (sp_start sp) of
             (Inr _, _) \<Rightarrow> (Inr (), Running)
           | (Inl e, _) \<Rightarrow> (Inl e, Reaped)))"

section \<open>Properties\<close>

lemma drain_bound:
  "length captured \<le> MAX_COURIER_DIAGNOSTIC_BYTES \<Longrightarrow>
   length (drain_courier_stderr drained captured cs) \<le> MAX_COURIER_DIAGNOSTIC_BYTES"
  by (induction drained captured cs rule: drain_courier_stderr.induct) (auto simp: Let_def)

definition answered :: "pyenv \<Rightarrow> spawn \<Rightarrow> route \<Rightarrow> nat \<Rightarrow> bool" where
  "answered E sp r n \<longleftrightarrow>
     \<not> sr_exited (sp_rounds sp n) \<and>
     (\<exists>response. request_socket E (sr_exchange (sp_rounds sp n)) (bootstrap_payload r) = Inr response \<and>
        bootstrap_response response r)"

lemma bootstrap_loop_spec:
  "bootstrap_loop E sp r deadline n captured now = (result, captured') \<Longrightarrow>
   (result = Inr () \<longrightarrow> (\<exists>m \<ge> n. answered E sp r m \<and> (\<forall>k. n \<le> k \<and> k < m \<longrightarrow> \<not> answered E sp r k))) \<and>
   (length captured \<le> MAX_COURIER_DIAGNOSTIC_BYTES \<longrightarrow> length captured' \<le> MAX_COURIER_DIAGNOSTIC_BYTES)"
proof (induction E sp r deadline n captured now rule: bootstrap_loop.induct)
  case (1 E sp r deadline n captured now)
  let ?a = "sp_rounds sp n" and ?c = "drain_courier_stderr 0 captured (sr_stderr (sp_rounds sp n))"
  let ?x = "request_socket E (sr_exchange ?a) (bootstrap_payload r)"
  let ?next = "bootstrap_loop E sp r deadline (Suc n) ?c (after (after now (sr_took ?a)) (1 / 50))"
  note unfold = bootstrap_loop.simps [of E sp r deadline n captured now]
  have c: "length captured \<le> MAX_COURIER_DIAGNOSTIC_BYTES \<longrightarrow> length ?c \<le> MAX_COURIER_DIAGNOSTIC_BYTES"
    by (simp add: drain_bound)
  have later: ?case
    if ih: "(result = Inr () \<longrightarrow> (\<exists>m \<ge> Suc n. answered E sp r m \<and> (\<forall>k. Suc n \<le> k \<and> k < m \<longrightarrow> \<not> answered E sp r k))) \<and>
        (length ?c \<le> MAX_COURIER_DIAGNOSTIC_BYTES \<longrightarrow> length captured' \<le> MAX_COURIER_DIAGNOSTIC_BYTES)"
      and no: "\<not> answered E sp r n"
  proof -
    have "\<exists>m \<ge> n. answered E sp r m \<and> (\<forall>k. n \<le> k \<and> k < m \<longrightarrow> \<not> answered E sp r k)" if "result = Inr ()"
      using ih that no by (metis Suc_leD Suc_leI le_neq_implies_less)
    then show ?thesis using ih c by blast
  qed
  show ?case
  proof (cases "deadline \<le> now \<or> sr_exited ?a")
    case True
    then show ?thesis using c "1.prems" by (cases "deadline \<le> now") (auto simp: unfold Let_def fail_def)
  next
    case False
    then have go: "\<not> deadline \<le> now" "\<not> sr_exited ?a" by simp_all
    show ?thesis
    proof (cases ?x)
      case (Inl e)
      show ?thesis
      proof (cases "is_chat_error e")
        case True
        from go Inl True "1.prems" have "?next = (result, captured')" by (simp add: unfold Let_def)
        from "1.IH"(1) [OF go(1) refl refl refl go(2) Inl True this] show ?thesis
          by (rule later) (simp add: answered_def Inl)
      next
        case False
        with go Inl "1.prems" c show ?thesis by (auto simp: unfold Let_def)
      qed
    next
      case (Inr response)
      show ?thesis
      proof (cases "bootstrap_response response r")
        case True
        then have "answered E sp r n" using go Inr by (auto simp: answered_def)
        with go Inr True "1.prems" c show ?thesis by (auto simp: unfold Let_def)
      next
        case False
        from go Inr False "1.prems" have "?next = (result, captured')" by (simp add: unfold Let_def)
        from "1.IH"(2) [OF go(1) refl refl refl go(2) Inr False this] show ?thesis
          by (rule later) (simp add: answered_def Inr False)
      qed
    qed
  qed
qed

text \<open>The names of the variables a courier may see, and what it is given beside them.\<close>

definition courier_variables :: "provider \<Rightarrow> string list" where
  "courier_variables p =
     (case p of
        Claude \<Rightarrow> BOUND_CLAUDE_BINARY_ENV # COURIER_ENV_KEYS @ CLAUDE_AUTH_ENV_KEYS @ CLAUDE_CONTEXT_ENV_KEYS
      | Codex \<Rightarrow> [''CODEX_HOME'', NATIVE_QUEUE_ENV_VAR, NATIVE_QUEUE_BINARY_ENV_VAR] @ COURIER_ENV_KEYS
      | Devin \<Rightarrow> [''PATH'', ''HOME''])"

lemma kept_environment_keys: "fst ` set (kept_environment source keys) \<subseteq> lit ` set keys"
  by (induction keys) (auto simp: kept_environment_def List.map_filter_def)

lemma updated_keys: "fst ` set m \<subseteq> K \<Longrightarrow> k \<in> K \<Longrightarrow> fst ` set (AList.update k v m) \<subseteq> K" for m :: environ
  by (simp add: dom_update)

lemma with_queue_binary_cases:
  "with_queue_binary sp codex env = Inr env' \<Longrightarrow>
   env' = env \<or> (\<exists>v. env' = AList.update (lit NATIVE_QUEUE_BINARY_ENV_VAR) v env)"
  by (auto simp: with_queue_binary_def split: option.splits sum.splits if_splits)

lemma spawn_environment_keys:
  assumes "spawn_environment sp r owner = Inr env"
  shows "fst ` set env \<subseteq> lit ` set (courier_variables (r_provider r))"
proof (cases "r_provider r")
  case Claude
  let ?K = "lit ` set (courier_variables Claude)"
  have "fst ` set (courier_environment (sp_environ sp)) \<subseteq> ?K"
    unfolding courier_environment_def courier_variables_def
    by (rule order_trans [OF kept_environment_keys]) auto
  moreover have "lit BOUND_CLAUDE_BINARY_ENV \<in> ?K" by (simp add: courier_variables_def)
  moreover from assms Claude obtain v where
    "env = AList.update (lit BOUND_CLAUDE_BINARY_ENV) v (courier_environment (sp_environ sp))"
    by (auto simp: spawn_environment_def res_simps)
  ultimately show ?thesis unfolding Claude by (simp only: updated_keys)
next
  case Codex
  let ?K = "lit ` set (courier_variables Codex)"
  let ?kept = "kept_environment (sp_environ sp) (COURIER_ENV_KEYS @ [''CODEX_HOME'', NATIVE_QUEUE_ENV_VAR])"
  have "fst ` set ?kept \<subseteq> ?K"
    by (rule order_trans [OF kept_environment_keys]) (auto simp: courier_variables_def)
  moreover have "lit ''CODEX_HOME'' \<in> ?K" "lit NATIVE_QUEUE_BINARY_ENV_VAR \<in> ?K" by (simp_all add: courier_variables_def)
  moreover from assms Codex obtain home v where
    "env = AList.update (lit ''CODEX_HOME'') home ?kept \<or>
     env = AList.update (lit NATIVE_QUEUE_BINARY_ENV_VAR) v (AList.update (lit ''CODEX_HOME'') home ?kept)"
    by (auto simp: spawn_environment_def res_simps Let_def dest!: with_queue_binary_cases)
  ultimately show ?thesis unfolding Codex by (elim disjE; simp only: updated_keys)
next
  case Devin
  then have "env = kept_environment (sp_environ sp) [''PATH'', ''HOME'']"
    using assms by (simp add: spawn_environment_def)
  then show ?thesis
    unfolding Devin courier_variables_def using kept_environment_keys [of "sp_environ sp" "[''PATH'', ''HOME'']"] by simp
qed

lemma spawn_courier_cases:
  "spawn_courier E sp d r = (Inr u, c) \<Longrightarrow> c = Running \<and> (\<exists>n. answered E sp r n)"
  "spawn_courier E sp d r = (Inl e, c) \<Longrightarrow> c \<noteq> Running"
  using bootstrap_loop_spec [of E sp r "sp_start sp + COURIER_STARTUP_SECONDS" 0 "[]" "sp_start sp"]
  by (auto simp: spawn_courier_def split: sum.splits prod.splits)


definition sample_bootstrap_answer :: dict where
  "sample_bootstrap_answer =
     [(lit ''schema_version'', JInt 1), (lit ''status'', JStr (lit ''BOOTSTRAPPED'')), (lit ''generation'', JStr (sample_uuid 50))]"

definition sample_spawn_world :: owner_world where
  "sample_spawn_world = sample_owner_world\<lparr>ow_path := (\<lambda>_. Some [47, 112, 0]), ow_resolve := Inr\<rparr>"

definition sample_spawn :: spawn where
  "sample_spawn =
     \<lparr>sp_owner = sample_spawn_world, sp_discovered = (\<lambda>_. Inr None), sp_socket_there = False, sp_executable = Inr (lit ''/x''),
      sp_environ = [(lit ''HOME'', lit ''/p''), (lit ''SECRET'', lit ''s'')], sp_claude = Inr (lit ''/c''), sp_which_codex = None,
      sp_pipe = True, sp_popen = True, sp_lower = id, sp_start = 0,
      sp_rounds = (\<lambda>_. \<lparr>sr_stderr = [], sr_exited = False,
        sr_exchange = good_exchange (json_line sample_env (JObj sample_bootstrap_answer)), sr_took = 0\<rparr>)\<rparr>"

lemma sample_owner_binary: "courier_owner_binary sample_env sample_spawn_world f d sample_route = Inr (Some (lit ''/p''))"
  by (simp add: courier_owner_binary_def recipient_owner_identity_def process_identity_facts_def process_binary_def
      sample_spawn_world_def sample_owner_world_def sample_route_def c_string_def profile_or_default_def
      recipient_profile_root_def encode_def utf8_encode_def nul_join_def dec_str.simps is_surrogate_def lit_def)

lemma sample_bootstrap:
  "request_socket sample_env (good_exchange (json_line sample_env (JObj sample_bootstrap_answer))) (bootstrap_payload sample_route) =
     Inr sample_bootstrap_answer"
  using sample_uuid_printable [of 50]
  by (intro small_arrives)
    (simp_all add: sample_bootstrap_answer_def bootstrap_payload_def sample_route_def SCHEMA_VERSION_def texts_def entry_size_def
      int_fits_small sample_uuid_def)

lemma sample_bootstrap_response: "bootstrap_response sample_bootstrap_answer sample_route"
  by (simp add: bootstrap_response_def sample_bootstrap_answer_def SCHEMA_VERSION_def sample_route_def)

lemma sample_prepared: "\<exists>env. prepare_spawn sample_env sample_spawn d sample_route = Inr env"
  by (simp add: prepare_spawn_def sample_spawn_def sample_owner_binary except_chat_def)
    (simp add: spawn_environment_def sample_route_def)


end
