(* ===== verification/Registration.thy ===== *)
theory Registration
  imports Launch DevinHooks
begin

text \<open>
  Registration of a session in runtime.py: \<open>register\<close>, the first prompt of a Devin session, the handover
  of an anchored route, and the end of a session.
\<close>

section \<open>What a registration meets\<close>

text \<open>
  \<open>rg_owner n\<close> is the kernel's view at the n-th look, \<open>rg_others n\<close> what other processes did to the
  state directory before the n-th access, \<open>rg_missing\<close> and \<open>rg_refused\<close> whether the failed bootstrap
  found no socket and whether it was a refused connection. The lock and socket files are those
  of the generation that is asked.
\<close>

record registration =
  rg_presence :: bool
  rg_root_others :: "nat \<Rightarrow> dir \<Rightarrow> dir"
  rg_owner :: "nat \<Rightarrow> owner_world"
  rg_kill :: "int \<Rightarrow> kill_result"
  rg_fs :: fsview
  rg_now :: rat
  rg_uuid4 :: str
  rg_bootstrap :: exchange
  rg_missing :: bool
  rg_refused :: bool
  rg_lock_opened :: lock_entry
  rg_lock_held :: "nat \<Rightarrow> bool"
  rg_lock_named :: lock_entry
  rg_lock_text :: "nat \<Rightarrow> bytes"
  rg_socket :: socket_entry
  rg_spawn :: spawn
  rg_native_cwd :: "str option"

datatype probe = Answered | Foreign | Busy | Missing | Refused | Failed exn

definition bootstrap_probe :: "pyenv \<Rightarrow> registration \<Rightarrow> route \<Rightarrow> probe" where
  "bootstrap_probe E rg r =
     (case request_socket E (rg_bootstrap rg) (bootstrap_payload r) of
        Inr response \<Rightarrow> if bootstrap_response response r then Answered else Foreign
      | Inl e \<Rightarrow>
          if \<not> is_chat_error e then Failed e
          else if rg_refused rg then Refused
          else if rg_missing rg then Missing
          else Busy)"

definition unverified :: "'a res" where
  "unverified = fail ''existing courier ownership could not be verified''"

definition spawned :: "pyenv \<Rightarrow> registration \<Rightarrow> dir \<Rightarrow> route \<Rightarrow> route res \<times> child" where
  "spawned E rg d r =
     (case spawn_courier E (rg_spawn rg) d r of (Inl e, c) \<Rightarrow> (Inl e, c) | (Inr _, c) \<Rightarrow> (Inr r, c))"

section \<open>Handover of an anchored route\<close>

definition handover_anchored_route :: "pyenv \<Rightarrow> registration \<Rightarrow> dir \<Rightarrow> route \<Rightarrow> route res \<times> child" where
  "handover_anchored_route E rg d r =
     (case bootstrap_probe E rg r of
        Answered \<Rightarrow> (Inr r, NotStarted)
      | Foreign \<Rightarrow> (unverified, NotStarted)
      | Busy \<Rightarrow> (Inr r, NotStarted)
      | Missing \<Rightarrow> spawned E rg d r
      | Refused \<Rightarrow>
          (case fst (reclaim_dead_courier_socket (rg_lock_opened rg) (rg_lock_held rg) (rg_lock_named rg) (rg_lock_text rg)
                 (rg_socket rg)) of
             Inl e \<Rightarrow> (Inl e, NotStarted)
           | Inr dead \<Rightarrow> if \<not> dead then (Inr r, NotStarted) else spawned E rg d r)
      | Failed e \<Rightarrow> (Inl e, NotStarted))"

section \<open>Publishing a new route\<close>

definition upserted_and_spawned ::
  "pyenv \<Rightarrow> registration \<Rightarrow> str \<Rightarrow> dir \<Rightarrow> route \<Rightarrow> (route res \<times> child) \<times> dir" where
  "upserted_and_spawned E rg binary d r =
     (let d1 = rg_root_others rg 2 d in
      case bind (owner_anchor_document E (rg_owner rg 2) r binary) (registry_upsert E d1 r) of
        Inl e \<Rightarrow> ((Inl e, NotStarted), d1)
      | Inr d2 \<Rightarrow> (spawned E rg d2 r, d2))"

text \<open>
  What becomes of a route that was just registered, or of the one found in its place. \<open>prior\<close>: the
  found route is the same Claude session in another directory.
\<close>

definition settled ::
  "pyenv \<Rightarrow> registration \<Rightarrow> str \<Rightarrow> dir \<Rightarrow> route \<Rightarrow> route \<Rightarrow> bool \<Rightarrow> (route res \<times> child) \<times> dir" where
  "settled E rg binary d r registered prior =
     (if registered = r then (spawned E rg d r, d)
      else
        case bootstrap_probe E rg registered of
          Answered \<Rightarrow>
            if prior \<and> rg_native_cwd rg = Some (r_cwd r) then upserted_and_spawned E rg binary d r
            else ((Inr registered, NotStarted), d)
        | Foreign \<Rightarrow> ((unverified, NotStarted), d)
        | Busy \<Rightarrow> ((Inr registered, NotStarted), d)
        | Missing \<Rightarrow> upserted_and_spawned E rg binary d r
        | Refused \<Rightarrow>
            (case courier_lock_is_held (rg_lock_opened rg) (rg_lock_held rg) of
               Inl e \<Rightarrow> ((Inl e, NotStarted), d)
             | Inr held \<Rightarrow>
                 if held then ((Inr registered, NotStarted), d) else upserted_and_spawned E rg binary d r)
        | Failed e \<Rightarrow> ((Inl e, NotStarted), d))"

text \<open>\<^verbatim>\<open>except BaseException: Registry(root).remove(..); raise\<close>.\<close>

definition undone :: "pyenv \<Rightarrow> registration \<Rightarrow> route \<Rightarrow> (route res \<times> child) \<times> dir \<Rightarrow> (route res \<times> child) \<times> dir" where
  "undone E rg r outcome =
     (case outcome of
        ((Inr x, c), d) \<Rightarrow> ((Inr x, c), d)
      | ((Inl e, c), d) \<Rightarrow>
          (let d1 = rg_root_others rg 3 d in
           case registry_remove E d1 (r_provider r) (r_session_id r) (r_pid r) (Some (r_generation r)) of
             Inl e' \<Rightarrow> ((Inl e', c), d1)
           | Inr d2 \<Rightarrow> ((Inl e, c), d2)))"

text \<open>The route of this session in another directory, when it is the only one.\<close>

definition cwd_drift :: "route \<Rightarrow> route \<Rightarrow> bool" where
  "cwd_drift r x \<longleftrightarrow>
     r_provider r = Claude \<and> r_provider x = r_provider r \<and> r_session_id x = r_session_id r \<and> r_device x = r_device r \<and>
     r_pid x = r_pid r \<and> r_owner_identity x = r_owner_identity r \<and> r_profile_root x = r_profile_root r \<and> r_cwd x \<noteq> r_cwd r"

text \<open>The \<^verbatim>\<open>try\<close> block of \<open>register\<close>.\<close>

definition published_session :: "pyenv \<Rightarrow> registration \<Rightarrow> str \<Rightarrow> dir \<Rightarrow> route \<Rightarrow> (route res \<times> child) \<times> dir" where
  "published_session E rg binary d r =
     (case registry_routes E d of
        Inl e \<Rightarrow> ((Inl e, NotStarted), d)
      | Inr routes \<Rightarrow>
          (case the_one (cwd_drift r) routes of
             Some prior \<Rightarrow> settled E rg binary d r prior True
           | None \<Rightarrow>
               (case bind (owner_anchor_document E (rg_owner rg 1) r binary) (upsert_or_reuse_live_owner E d r) of
                  Inl e \<Rightarrow> ((Inl e, NotStarted), d)
                | Inr (registered, d1) \<Rightarrow> settled E rg binary d1 r registered False)))"

text \<open>A Devin session with a route of another process, directory or owner is refused.\<close>

definition other_session_owner :: "route \<Rightarrow> route \<Rightarrow> bool" where
  "other_session_owner r x \<longleftrightarrow>
     r_provider x = Devin \<and> r_session_id x = r_session_id r \<and>
     (r_pid x \<noteq> r_pid r \<or> r_cwd x \<noteq> r_cwd r \<or> r_profile_root x \<noteq> r_profile_root r \<or> r_owner_identity x \<noteq> r_owner_identity r)"

definition devin_published :: "pyenv \<Rightarrow> registration \<Rightarrow> str \<Rightarrow> dir \<Rightarrow> route \<Rightarrow> (route res \<times> child) \<times> dir" where
  "devin_published E rg binary d r =
     (case registry_routes E d of
        Inl e \<Rightarrow> ((Inl e, NotStarted), d)
      | Inr routes \<Rightarrow>
          if list_ex (other_session_owner r) routes
          then ((fail ''exact Devin session route is unavailable'', NotStarted), d)
          else
            (case bind (owner_anchor_document E (rg_owner rg 1) r binary) (upsert_or_reuse_live_owner E d r) of
               Inl e \<Rightarrow> ((Inl e, NotStarted), d)
             | Inr (registered, d1) \<Rightarrow> settled E rg binary d1 r registered False))"

section \<open>Registering\<close>

definition minted ::
  "pyenv \<Rightarrow> registration \<Rightarrow> provider \<Rightarrow> str \<Rightarrow> str \<Rightarrow> str \<Rightarrow> int \<Rightarrow> (route \<times> str) res" where
  "minted E rg p session_id device cwd pid =
     bind (recipient_owner_identity E (rg_owner rg 0) p pid None) (\<lambda>(owner_identity, binary).
     bind (valid_device device) (\<lambda>dev.
     bind (recipient_profile_root (rg_owner rg 0) p) (\<lambda>profile.
     bind (route_create E (rg_fs rg) (rg_now rg) (rg_uuid4 rg) (provider_str p) session_id dev cwd pid None
             (Some owner_identity) (Some profile)) (\<lambda>r.
     Inr (r, binary)))))"

text \<open>The transaction under the session's registration lock; \<open>cwd_bound\<close> is Devin's strict binding.\<close>

definition registered_session ::
  "pyenv \<Rightarrow> registration \<Rightarrow> bool \<Rightarrow> dir \<Rightarrow> provider \<Rightarrow> str \<Rightarrow> str \<Rightarrow> str \<Rightarrow> int \<Rightarrow> (route res \<times> child) \<times> dir" where
  "registered_session E rg devin_prompt d p session_id device cwd pid =
     (case compact_dead E (rg_kill rg) d of
        Inl e \<Rightarrow> ((Inl e, NotStarted), d)
      | Inr (_, d1) \<Rightarrow>
          (let d2 = rg_root_others rg 0 d1 in
           case reusable_anchored_route E (rg_owner rg 0) (rg_kill rg) d2 p session_id pid of
             Inl e \<Rightarrow> ((Inl e, NotStarted), d2)
           | Inr (Some reused) \<Rightarrow>
               if devin_prompt \<and> r_cwd reused \<noteq> cwd
               then ((fail ''exact Devin session route is unavailable'', NotStarted), d2)
               else (handover_anchored_route E rg d2 reused, d2)
           | Inr None \<Rightarrow>
               (case minted E rg p session_id device cwd pid of
                  Inl e \<Rightarrow> ((Inl e, NotStarted), d2)
                | Inr (r, binary) \<Rightarrow>
                    (let d3 = rg_root_others rg 1 d2 in
                     undone E rg r (if devin_prompt then devin_published E rg binary d3 r else published_session E rg binary d3 r)))))"

text \<open>\<open>register\<close>, from the hook's standard input; \<open>missing\<close> is what is known to be gone of a directory.\<close>

definition register ::
  "pyenv \<Rightarrow> registration \<Rightarrow> (str \<Rightarrow> bool) \<Rightarrow> dir \<Rightarrow> str \<Rightarrow> str \<Rightarrow> str \<Rightarrow> int \<Rightarrow> (route option res \<times> child) \<times> dir" where
  "register E rg missing d stdin provider device pid =
     (if \<not> rg_presence rg then ((Inr None, NotStarted), d)
      else
        case bind (case provider_of provider of None \<Rightarrow> fail ''provider is invalid'' | Some p \<Rightarrow> Inr p) (\<lambda>p.
             if pid \<le> 0 then fail ''provider process is invalid''
             else
               bind (hook_input E (rg_fs rg) missing stdin ''SessionStart'') (\<lambda>raw.
               case (jget raw ''session_id'', jget raw ''cwd'') of
                 (Some (JStr session), Some (JStr cwd)) \<Rightarrow>
                   bind (valid_session_id provider session ''session id'') (\<lambda>session_id. Inr (p, session_id, cwd))
               | _ \<Rightarrow> Inl OtherError)) of
          Inl e \<Rightarrow> ((Inl e, NotStarted), d)
        | Inr (p, session_id, cwd) \<Rightarrow>
            (case registered_session E rg False d p session_id device cwd pid of
               ((r, c), d') \<Rightarrow> ((bind r (\<lambda>r. Inr (Some r)), c), d')))"

text \<open>The first trusted prompt of a Devin session.\<close>

definition register_devin_prompt ::
  "pyenv \<Rightarrow> registration \<Rightarrow> str res \<Rightarrow> str \<Rightarrow> int \<Rightarrow> dir \<Rightarrow> str \<Rightarrow> (route res \<times> child) \<times> dir" where
  "register_devin_prompt E rg hook_cwd device pid d session_id =
     (case hook_cwd of
        Inl e \<Rightarrow> ((Inl e, NotStarted), d)
      | Inr cwd \<Rightarrow> registered_session E rg True d Devin session_id device cwd pid)"

text \<open>A Devin SessionStart publishes nothing; it says whether the owner could be bound.\<close>

definition register_devin ::
  "pyenv \<Rightarrow> registration \<Rightarrow> str res \<Rightarrow> dir \<Rightarrow> str \<Rightarrow> str \<Rightarrow> int \<Rightarrow> route option res" where
  "register_devin E rg hook_cwd d stdin device pid =
     (if \<not> rg_presence rg then Inr None
      else if pid \<le> 0 then fail ''provider process is invalid''
      else
        bind (parse_hook_input E DEVIN_HOOK_INPUT_MAX_BYTES (Some (lit ''SessionStart'')) stdin) (\<lambda>event.
        bind hook_cwd (\<lambda>_.
        bind (case recipient_owner_identity E (rg_owner rg 0) Devin pid None of
                Inr _ \<Rightarrow> Inr ()
              | Inl e \<Rightarrow>
                  if is_chat_error e \<or> is_os_error e
                  then bind (reusable_anchored_route E (rg_owner rg 0) (rg_kill rg) d Devin (de_session_id event) pid) (\<lambda>found.
                         if found = None then Inl e else Inr ())
                  else Inl e) (\<lambda>_.
        bind (valid_device device) (\<lambda>_. Inr None)))))"

section \<open>The end of a session\<close>

definition shutdown_payload :: "route \<Rightarrow> dict" where
  "shutdown_payload r =
     [(lit ''schema_version'', JInt SCHEMA_VERSION), (lit ''operation'', JStr (lit ''shutdown'')),
      (lit ''generation'', JStr (r_generation r))]"

text \<open>\<^verbatim>\<open>except ChatError: return\<close>, and \<^verbatim>\<open>suppress(ChatError)\<close>.\<close>

definition shutdown_requested :: "pyenv \<Rightarrow> exchange \<Rightarrow> route \<Rightarrow> unit res" where
  "shutdown_requested E x r =
     (case request_socket E x (shutdown_payload r) of
        Inr _ \<Rightarrow> Inr ()
      | Inl e \<Rightarrow> if is_chat_error e then Inr () else Inl e)"

definition unregister ::
  "pyenv \<Rightarrow> registration \<Rightarrow> (str \<Rightarrow> bool) \<Rightarrow> exchange \<Rightarrow> dir \<Rightarrow> str \<Rightarrow> str \<Rightarrow> int \<Rightarrow> unit res \<times> dir" where
  "unregister E rg missing x d stdin provider pid =
     (if \<not> rg_presence rg then (Inr (), d)
      else
        case bind (case provider_of provider of None \<Rightarrow> fail ''provider is invalid'' | Some p \<Rightarrow> Inr p) (\<lambda>p.
             bind (hook_input E (rg_fs rg) missing stdin ''SessionEnd'') (\<lambda>raw.
             case (jget raw ''session_id'', jget raw ''cwd'') of
               (Some (JStr session_id), Some (JStr cwd)) \<Rightarrow>
                 bind (registry_routes E d) (\<lambda>all.
                 let session_routes = filter (\<lambda>r. r_provider r = p \<and> r_session_id r = session_id \<and> r_pid r = pid) all;
                     routes = filter (\<lambda>r. jget raw ''_cwd_unavailable'' = Some (JBool True) \<or> r_cwd r = cwd) session_routes in
                 if routes = [] \<and> session_routes = [] then Inr None
                 else
                   (case routes of
                      [r] \<Rightarrow> Inr (Some r)
                    | _ \<Rightarrow> fail ''exact session route is unavailable''))
             | _ \<Rightarrow> Inl OtherError)) of
          Inl e \<Rightarrow> (Inl e, d)
        | Inr None \<Rightarrow> (Inr (), d)
        | Inr (Some r) \<Rightarrow>
            (case registry_remove E (rg_root_others rg 0 d) (r_provider r) (r_session_id r) (r_pid r) (Some (r_generation r)) of
               Inl e \<Rightarrow> (Inl e, rg_root_others rg 0 d)
             | Inr d' \<Rightarrow> (shutdown_requested E x r, d')))"

section \<open>A registration is all or nothing\<close>

text \<open>
  Other processes keep the registry readable and publish nothing under the new generation, which is
  a fresh uuid.
\<close>

definition fair_registrars :: "pyenv \<Rightarrow> registration \<Rightarrow> bool" where
  "fair_registrars E rg \<longleftrightarrow>
     (\<forall>n d. registry_ok E d \<longrightarrow>
        registry_ok E (rg_root_others rg n d) \<and>
        (\<forall>k x. registry_map E (rg_root_others rg n d) k = Some x \<and> r_generation x = rg_uuid4 rg \<longrightarrow> registry_map E d k = Some x))"

definition free_generation :: "pyenv \<Rightarrow> str \<Rightarrow> dir \<Rightarrow> bool" where
  "free_generation E g d \<longleftrightarrow> registry_ok E d \<and> (\<forall>k x. registry_map E d k = Some x \<longrightarrow> r_generation x \<noteq> g)"

text \<open>Only the new route has the new generation.\<close>

definition only_new :: "pyenv \<Rightarrow> route \<Rightarrow> dir \<Rightarrow> bool" where
  "only_new E r d \<longleftrightarrow>
     registry_ok E d \<and> (\<forall>k x. registry_map E d k = Some x \<and> r_generation x = r_generation r \<longrightarrow> k = identity r \<and> x = r)"

lemma only_new_free: "free_generation E (r_generation r) d \<Longrightarrow> only_new E r d"
  unfolding only_new_def free_generation_def by blast

lemma only_new_others:
  "fair_registrars E rg \<Longrightarrow> r_generation r = rg_uuid4 rg \<Longrightarrow> only_new E r d \<Longrightarrow> only_new E r (rg_root_others rg n d)"
  unfolding fair_registrars_def only_new_def by metis

lemma free_others:
  "fair_registrars E rg \<Longrightarrow> free_generation E (rg_uuid4 rg) d \<Longrightarrow> free_generation E (rg_uuid4 rg) (rg_root_others rg n d)"
  unfolding fair_registrars_def free_generation_def by metis

text \<open>What is promised of a route that is returned: it is registered, for this session, and a courier serves it if it is new.\<close>

definition serves :: "pyenv \<Rightarrow> registration \<Rightarrow> provider \<Rightarrow> str \<Rightarrow> int \<Rightarrow> route \<Rightarrow> child \<Rightarrow> dir \<Rightarrow> bool" where
  "serves E rg p session pid x c d \<longleftrightarrow>
     registry_map E d (identity x) = Some x \<and> r_provider x = p \<and> r_session_id x = session \<and> r_pid x = pid \<and>
     (r_generation x = rg_uuid4 rg \<longrightarrow> c = Running) \<and> (c = Running \<longrightarrow> (\<exists>n. answered E (rg_spawn rg) x n))"

definition sound_outcome :: "pyenv \<Rightarrow> registration \<Rightarrow> route \<Rightarrow> (route res \<times> child) \<times> dir \<Rightarrow> bool" where
  "sound_outcome E rg r outcome \<longleftrightarrow>
     (case outcome of
        ((Inl _, c), d) \<Rightarrow> c \<noteq> Running \<and> only_new E r d
      | ((Inr x, c), d) \<Rightarrow> serves E rg (r_provider r) (r_session_id r) (r_pid r) x c d)"

lemma spawned_sound:
  assumes "registry_map E d (identity r) = Some r" "only_new E r d"
  shows "sound_outcome E rg r (spawned E rg d r, d)"
  using assms spawn_courier_cases [of E "rg_spawn rg" d r]
  by (auto simp: sound_outcome_def spawned_def serves_def split: sum.splits prod.splits)

lemma upserted_sound:
  assumes "fair_registrars E rg" "r_generation r = rg_uuid4 rg" "route_storable E r" "only_new E r d"
  shows "sound_outcome E rg r (upserted_and_spawned E rg binary d r)"
proof -
  let ?d = "rg_root_others rg 2 d"
  have o: "only_new E r ?d" using only_new_others assms(1,2,4) by blast
  show ?thesis
  proof (cases "bind (owner_anchor_document E (rg_owner rg 2) r binary) (registry_upsert E ?d r)")
    case (Inl e)
    then show ?thesis using o by (simp add: upserted_and_spawned_def sound_outcome_def)
  next
    case (Inr d2)
    then obtain a where "registry_upsert E ?d r a = Inr d2" by (auto simp: res_simps)
    with registry_upsert_law [OF _ assms(3), of ?d a] o
    have "registry_ok E d2" "registry_map E d2 = (registry_map E ?d)(identity r \<mapsto> r)" by (auto simp: only_new_def)
    then have "registry_map E d2 (identity r) = Some r" "only_new E r d2" using o by (auto simp: only_new_def)
    then show ?thesis using Inr spawned_sound by (simp add: upserted_and_spawned_def)
  qed
qed

lemma settled_sound:
  assumes fair: "fair_registrars E rg" "r_generation r = rg_uuid4 rg" "route_storable E r" and new: "only_new E r d"
    and found: "registry_map E d (identity x) = Some x" "r_provider x = r_provider r" "r_session_id x = r_session_id r"
      "r_pid x = r_pid r"
  shows "sound_outcome E rg r (settled E rg binary d r x prior)"
proof (cases "x = r")
  case True
  then show ?thesis using found(1) new spawned_sound by (simp add: settled_def)
next
  case False
  then have "r_generation x \<noteq> rg_uuid4 rg" using new found(1) fair(2) unfolding only_new_def by metis
  then have keep: "sound_outcome E rg r ((Inr x, NotStarted), d)"
    using found by (simp add: sound_outcome_def serves_def)
  have err: "sound_outcome E rg r ((Inl e, NotStarted), d)" for e using new by (simp add: sound_outcome_def)
  note up = upserted_sound [OF fair new, of binary]
  show ?thesis
    using False keep err up
    by (auto simp: settled_def unverified_def fail_def split: probe.splits sum.splits)
qed

lemma registered_found:
  assumes "route_storable E r" "only_new E r d" "upsert_or_reuse_live_owner E d r a = Inr (x, d1)"
  shows "only_new E r d1 \<and> registry_map E d1 (identity x) = Some x \<and> r_provider x = r_provider r \<and>
    r_session_id x = r_session_id r \<and> r_pid x = r_pid r"
proof -
  have ok: "registry_ok E d" using assms(2) by (simp add: only_new_def)
  note spec = upsert_or_reuse_spec [OF ok assms(1), of a]
  show ?thesis
  proof (cases "\<exists>m. registry_map E d (identity r) = Some m \<and> same_live_owner r m")
    case True
    then obtain m where m: "registry_map E d (identity r) = Some m" "same_live_owner r m" by blast
    with spec assms(3) have "x = m" "d1 = d" by auto
    with m assms(2) show ?thesis by (auto simp: same_live_owner_def identity_def)
  next
    case False
    with spec assms(3) have "x = r" "registry_ok E d1" "registry_map E d1 = (registry_map E d)(identity r \<mapsto> r)"
      by (auto split: option.splits if_splits)
    with assms(2) show ?thesis by (auto simp: only_new_def)
  qed
qed

lemma published_sound:
  assumes "fair_registrars E rg" "r_generation r = rg_uuid4 rg" "route_storable E r" "only_new E r d"
  shows "sound_outcome E rg r (published_session E rg binary d r)" "sound_outcome E rg r (devin_published E rg binary d r)"
proof -
  have err: "sound_outcome E rg r ((Inl e, NotStarted), d)" for e using assms(4) by (simp add: sound_outcome_def)
  obtain rs where rs: "registry_routes E d = Inr rs" "distinct (map identity rs)" "registry_map E d = row_map identity rs"
    using assms(4) by (auto simp: only_new_def elim: registry_okE)
  have reuse: "sound_outcome E rg r (case bind (owner_anchor_document E (rg_owner rg 1) r binary) (upsert_or_reuse_live_owner E d r) of
      Inl e \<Rightarrow> ((Inl e, NotStarted), d) | Inr (registered, d1) \<Rightarrow> settled E rg binary d1 r registered False)"
  proof (cases "bind (owner_anchor_document E (rg_owner rg 1) r binary) (upsert_or_reuse_live_owner E d r)")
    case (Inr p)
    then obtain a x d1 where "p = (x, d1)" "upsert_or_reuse_live_owner E d r a = Inr (x, d1)"
      by (cases p) (auto simp: res_simps)
    with registered_found [OF assms(3,4)] settled_sound [OF assms(1-3)] Inr show ?thesis by auto
  qed (simp add: err)
  have "sound_outcome E rg r (settled E rg binary d r x True)" if "the_one (cwd_drift r) rs = Some x" for x
  proof -
    from the_one_SomeD [OF that] have x: "x \<in> set rs" "cwd_drift r x" by auto
    with rs(2,3) have "registry_map E d (identity x) = Some x" by (auto simp: row_map_Some_iff)
    with x(2) settled_sound [OF assms] show ?thesis by (auto simp: cwd_drift_def)
  qed
  with reuse show "sound_outcome E rg r (published_session E rg binary d r)"
    by (auto simp: published_session_def rs(1) split: option.splits)
  show "sound_outcome E rg r (devin_published E rg binary d r)"
    using reuse err by (auto simp: devin_published_def rs(1) fail_def)
qed

text \<open>What a caller gets: a served route, or an error that leaves the new generation free.\<close>

definition all_or_nothing ::
  "pyenv \<Rightarrow> registration \<Rightarrow> provider \<Rightarrow> str \<Rightarrow> int \<Rightarrow> (route res \<times> child) \<times> dir \<Rightarrow> bool" where
  "all_or_nothing E rg p session pid outcome \<longleftrightarrow>
     (case outcome of
        ((Inl _, c), d) \<Rightarrow> c \<noteq> Running \<and> free_generation E (rg_uuid4 rg) d
      | ((Inr x, c), d) \<Rightarrow> serves E rg p session pid x c d)"

lemma undone_sound:
  assumes "fair_registrars E rg" "r_generation r = rg_uuid4 rg" "sound_outcome E rg r outcome"
  shows "all_or_nothing E rg (r_provider r) (r_session_id r) (r_pid r) (undone E rg r outcome)"
proof -
  obtain result c d where o: "outcome = ((result, c), d)" by (metis prod.exhaust)
  show ?thesis
  proof (cases result)
    case (Inr x)
    then show ?thesis using assms(3) o by (simp add: undone_def sound_outcome_def all_or_nothing_def)
  next
    case (Inl e)
    let ?d = "rg_root_others rg 3 d"
    from Inl o assms(3) have c: "c \<noteq> Running" "only_new E r d" by (auto simp: sound_outcome_def)
    then have n: "only_new E r ?d" using only_new_others assms(1,2) by blast
    then have ok: "registry_ok E ?d" by (simp add: only_new_def)
    note remove = registry_remove_spec [OF ok, of "r_provider r" "r_session_id r" "r_pid r" "Some (r_generation r)"]
    obtain d2 where d2: "registry_remove E ?d (r_provider r) (r_session_id r) (r_pid r) (Some (r_generation r)) = Inr d2"
      using remove by blast
    have "registry_ok E d2" using remove d2 by auto
    moreover have "r_generation x \<noteq> rg_uuid4 rg" if x: "registry_map E d2 k = Some x" for k x
    proof
      assume g: "r_generation x = rg_uuid4 rg"
      have "registry_map E d2 k = (case registry_map E ?d k of None \<Rightarrow> None
          | Some y \<Rightarrow> if k = (r_provider r, r_session_id r) \<and> r_pid y = r_pid r \<and> (\<forall>g. Some (r_generation r) = Some g \<longrightarrow> r_generation y = g)
              then None else Some y)"
        using remove [of k] d2 by auto
      with x have m: "registry_map E ?d k = Some x"
        "\<not> (k = (r_provider r, r_session_id r) \<and> r_pid x = r_pid r \<and> r_generation x = r_generation r)"
        by (auto split: option.splits if_splits)
      then have "k = identity r \<and> x = r" using n g assms(2) unfolding only_new_def by metis
      with m(2) show False by (simp add: identity_def)
    qed
    ultimately show ?thesis
      using Inl o c(1) d2 by (simp add: undone_def all_or_nothing_def free_generation_def)
  qed
qed

lemma minted_route:
  assumes "minted E rg p session device cwd pid = Inr (r, binary)"
  shows "r_provider r = p \<and> r_session_id r = session \<and> r_pid r = pid \<and> r_generation r = rg_uuid4 rg"
  using assms
  by (auto simp: minted_def route_create_def res_simps valid_simps route_post_init_iff split: option.splits prod.splits)

lemma handover_sound:
  assumes "free_generation E (rg_uuid4 rg) d" "registry_map E d (identity r) = Some r"
  shows "all_or_nothing E rg (r_provider r) (r_session_id r) (r_pid r) (handover_anchored_route E rg d r, d)"
proof -
  have g: "r_generation r \<noteq> rg_uuid4 rg" using assms unfolding free_generation_def by blast
  have keep: "all_or_nothing E rg (r_provider r) (r_session_id r) (r_pid r) ((Inr r, NotStarted), d)"
    using assms(2) g by (simp add: all_or_nothing_def serves_def)
  have err: "c \<noteq> Running \<Longrightarrow> all_or_nothing E rg (r_provider r) (r_session_id r) (r_pid r) ((Inl e, c), d)" for e c
    using assms(1) by (simp add: all_or_nothing_def)
  have "all_or_nothing E rg (r_provider r) (r_session_id r) (r_pid r) (spawned E rg d r, d)"
    using assms g spawn_courier_cases [of E "rg_spawn rg" d r]
    by (auto simp: all_or_nothing_def spawned_def serves_def split: sum.splits prod.splits)
  with keep err show ?thesis
    by (auto simp: handover_anchored_route_def unverified_def fail_def split: probe.splits sum.splits)
qed

section \<open>Properties\<close>

text \<open>
  C10. A registration is all or nothing. Whatever other processes do to the registry meanwhile, short of
  publishing the fresh generation: a registration that fails leaves no route of the new generation
  and no running courier; one that returns a route returns a route of this session and process that
  is registered, and a new one only if the courier it started gave the bootstrap answer of that
  route. This holds for \<open>register\<close> and for the first prompt of a Devin session.
\<close>

theorem registration_all_or_nothing:
  assumes "free_generation E (rg_uuid4 rg) d" "fair_registrars E rg"
    and "\<And>r binary. minted E rg p session device cwd pid = Inr (r, binary) \<Longrightarrow> route_storable E r"
  shows "all_or_nothing E rg p session pid (registered_session E rg devin_prompt d p session device cwd pid)"
proof -
  have ok: "registry_ok E d" using assms(1) by (simp add: free_generation_def)
  note compact = compact_dead_spec [OF ok, of "rg_kill rg"]
  from compact obtain live d1 where d1: "compact_dead E (rg_kill rg) d = Inr (live, d1)" "registry_ok E d1"
    "\<And>k. registry_map E d1 k = (case registry_map E d k of
        None \<Rightarrow> None | Some r \<Rightarrow> if rg_kill rg (r_pid r) = NoSuchProcess then None else Some r)" by blast
  have "registry_map E d k = Some x" if "registry_map E d1 k = Some x" for k x
    using that d1(3) [of k] by (simp split: option.splits if_splits)
  then have "free_generation E (rg_uuid4 rg) d1"
    using assms(1) d1(2) unfolding free_generation_def by blast
  then have f: "free_generation E (rg_uuid4 rg) (rg_root_others rg n d1)" for n using free_others assms(2) by blast
  let ?d = "rg_root_others rg 0 d1"
  have err: "all_or_nothing E rg p session pid ((Inl e, NotStarted), ?d)" for e using f by (simp add: all_or_nothing_def)
  have mint: "all_or_nothing E rg p session pid (undone E rg r
      (if devin_prompt then devin_published E rg binary (rg_root_others rg 1 ?d) r else published_session E rg binary (rg_root_others rg 1 ?d) r))"
    if m: "minted E rg p session device cwd pid = Inr (r, binary)" for r binary
  proof -
    note r = minted_route [OF m]
    have g: "r_generation r = rg_uuid4 rg" using r by simp
    have "only_new E r (rg_root_others rg 1 ?d)"
      using only_new_free free_others [OF assms(2) f [of 0], of 1] r by simp
    note sound = published_sound [OF assms(2) g assms(3) [OF m] this, of binary]
    have "sound_outcome E rg r (if devin_prompt then devin_published E rg binary (rg_root_others rg 1 ?d) r
        else published_session E rg binary (rg_root_others rg 1 ?d) r)"
      using sound by simp
    from undone_sound [OF assms(2) g this] show ?thesis using r by simp
  qed
  have reuse: "all_or_nothing E rg p session pid (handover_anchored_route E rg ?d r, ?d)"
    if r: "reusable_anchored_route E (rg_owner rg 0) (rg_kill rg) ?d p session pid = Inr (Some r)" for r
  proof -
    from f [of 0] obtain rs where rs: "registry_routes E ?d = Inr rs" "distinct (map identity rs)" "registry_map E ?d = row_map identity rs"
      by (auto simp: free_generation_def elim: registry_okE)
    with r have "the_one (\<lambda>r. r_provider r = p \<and> r_session_id r = session \<and> r_pid r = pid) rs = Some r"
      by (auto simp: reusable_anchored_route_def res_simps split: option.splits if_splits)
    from the_one_SomeD [OF this] have "r \<in> set rs" "r_provider r = p" "r_session_id r = session" "r_pid r = pid" by auto
    with rs(2,3) handover_sound [OF f [of 0], of r] show ?thesis by (auto simp: row_map_Some_iff)
  qed
  show ?thesis
    using err mint reuse
    by (auto simp: registered_session_def d1(1) Let_def fail_def split: sum.splits option.splits)
qed

definition sample_registration :: registration where
  "sample_registration =
     \<lparr>rg_presence = True, rg_root_others = (\<lambda>_ d. d), rg_owner = (\<lambda>_. sample_spawn_world), rg_kill = (\<lambda>_. Signalled),
      rg_fs = \<lparr>fs_resolve = Inr, fs_is_dir = (\<lambda>_. True)\<rparr>, rg_now = 0, rg_uuid4 = sample_uuid 50,
      rg_bootstrap = good_exchange (json_line sample_env (JObj sample_bootstrap_answer)), rg_missing = False, rg_refused = False,
      rg_lock_opened = NoLock, rg_lock_held = (\<lambda>_. False), rg_lock_named = NoLock, rg_lock_text = (\<lambda>_. []), rg_socket = NoSocket,
      rg_spawn = sample_spawn, rg_native_cwd = None\<rparr>"

lemma sample_minted:
  obtains owner where "hex64 owner"
    "minted sample_env sample_registration Claude (sample_uuid 49) (lit ''mac'') (lit ''/p'') 7 =
       Inr (sample_owned_route\<lparr>r_owner_identity := Some owner\<rparr>, lit ''/p'')"
proof -
  have w: "rg_owner sample_registration n = sample_spawn_world" for n by (simp add: sample_registration_def)
  obtain owner where o: "hex64 owner" "recipient_owner_identity sample_env sample_spawn_world Claude 7 None = Inr (owner, lit ''/p'')"
    using sample_env_ok
    by (auto simp: recipient_owner_identity_def process_identity_facts_def process_binary_def
      sample_spawn_world_def sample_owner_world_def c_string_def profile_or_default_def
      recipient_profile_root_def encode_def utf8_encode_def nul_join_def dec_str.simps is_surrogate_def lit_def)
  have p: "recipient_profile_root sample_spawn_world Claude = Inr (lit ''/p'')"
    by (simp add: recipient_profile_root_def sample_spawn_world_def sample_owner_world_def)
  have v: "route_valid sample_env (sample_owned_route\<lparr>r_owner_identity := Some owner\<rparr>)"
    using sample_owned_route_storable o(1) by (auto simp: route_storable_def route_valid_def sample_owned_route_def)
  then have v': "route_post_init sample_env (sample_owned_route\<lparr>r_owner_identity := Some owner\<rparr>) =
      Inr (sample_owned_route\<lparr>r_owner_identity := Some owner\<rparr>)" by (simp add: route_post_init_iff)
  have f: "rg_uuid4 sample_registration = sample_uuid 50" "rg_now sample_registration = 0" "lit ''p'' \<noteq> []"
    by (simp_all add: sample_registration_def lit_def)
  have pr: "provider_of (lit ''claude'') = Some Claude" using provider_of_str [of Claude] by simp
  have s: "valid_session_id (lit ''claude'') (sample_uuid 49) g = Inr (sample_uuid 49)" for g
    using valid_session_id_iff [of Claude "sample_uuid 49" g "sample_uuid 49"] sample_route_valid
    by (simp add: route_valid_def sample_route_def)
  have d: "valid_device (lit ''mac'') = Inr (lit ''mac'')" "valid_name sample_env (lit ''p'') f = Inr (lit ''p'')" for f
    using sample_route_valid by (simp_all add: route_valid_def sample_route_def valid_simps)
  have "path_name (lit ''/p'') = lit ''p''" "canonical_cwd (rg_fs sample_registration) (lit ''/p'') = Inr (lit ''/p'')"
    by (simp_all add: sample_registration_def canonical_cwd_def is_absolute_def starts_with_def lit_def path_name_def except_chat_def)
  then have "minted sample_env sample_registration Claude (sample_uuid 49) (lit ''mac'') (lit ''/p'') 7 =
       Inr (sample_owned_route\<lparr>r_owner_identity := Some owner\<rparr>, lit ''/p'')"
    using o(2) p d v' s sample_alias
    by (simp add: minted_def w route_create_def f pr sample_owned_route_def sample_route_def SCHEMA_VERSION_def)
  with o(1) that show thesis by blast
qed


theorem registration_all_or_nothing_witness:
  "is_ok (minted sample_env sample_registration Claude (sample_uuid 49) (lit ''mac'') (lit ''/p'') 7) \<and>
   all_or_nothing sample_env sample_registration Claude (sample_uuid 49) 7
     (registered_session sample_env sample_registration False empty_dir Claude (sample_uuid 49) (lit ''mac'') (lit ''/p'') 7)"
proof -
  obtain owner where o: "hex64 owner"
    "minted sample_env sample_registration Claude (sample_uuid 49) (lit ''mac'') (lit ''/p'') 7 =
       Inr (sample_owned_route\<lparr>r_owner_identity := Some owner\<rparr>, lit ''/p'')" by (rule sample_minted)
  have "list_all (printable True) owner"
    using o(1) by (force simp: hex64_def is_hex_def is_digit_def list_all_iff printable_def is_code_point_def is_surrogate_def)
  then have s: "route_storable sample_env (sample_owned_route\<lparr>r_owner_identity := Some owner\<rparr>)"
    using sample_owned_route_storable o(1)
    by (auto simp: route_storable_def route_valid_def sample_owned_route_def sample_route_def route_to_dict_def route_dict_def)
  have g: "rg_uuid4 sample_registration = sample_uuid 50" by (simp add: sample_registration_def)
  have "free_generation sample_env (sample_uuid 50) empty_dir"
    by (simp add: free_generation_def empty_registry registry_map_def row_map_def)
  moreover have "fair_registrars sample_env sample_registration"
    by (simp add: fair_registrars_def sample_registration_def)
  ultimately show ?thesis
    using registration_all_or_nothing [of sample_env sample_registration empty_dir Claude "sample_uuid 49" "lit ''mac''" "lit ''/p''" 7]
      o(2) s g by (auto simp: is_ok_def)
qed

end
