(* ===== verification/DevinTurns.thy ===== *)
theory DevinTurns
  imports DevinSubagents Registration
begin

text \<open>
  The hooks of a Devin session in runtime.py: what a Stop, a prompt or a tool call does to the stores
  and to the courier, and what it prints.
\<close>

section \<open>What a hook meets\<close>

text \<open>
  Standard input is an argument of each hook. \<open>tn_host n\<close> is the host at the n-th look at it, and
  \<open>tn_others n\<close> is what other processes did to the state directory before the n-th step of the hook.
  \<open>tn_opens n\<close> says whether the marker file of step n could be created.
\<close>

record turn =
  tn_presence :: bool
  tn_project_dir :: "str option"
  tn_pid :: int
  tn_now :: rat
  tn_now' :: rat
  tn_token :: str
  tn_host :: "nat \<Rightarrow> host"
  tn_others :: "nat \<Rightarrow> dir \<Rightarrow> dir"
  tn_opens :: "nat \<Rightarrow> bool"
  tn_peek :: exchange
  tn_ack :: exchange
  tn_shutdown :: exchange
  tn_registration :: registration

definition DEVIN_ROOT_ONLY_TOOLS :: "string list" where
  "DEVIN_ROOT_ONLY_TOOLS = [''run_subagent'', ''read_subagent'', ''ask_user_question'']"

definition DEVIN_SUBAGENT_TOOL :: str where "DEVIN_SUBAGENT_TOOL = lit ''run_subagent''"

definition DEVIN_READ_SUBAGENT_TOOL :: str where "DEVIN_READ_SUBAGENT_TOOL = lit ''read_subagent''"

definition devin_hook_cwd :: "turn \<Rightarrow> str res" where
  "devin_hook_cwd tn =
     (case tn_project_dir tn of
        None \<Rightarrow> fail ''Devin hook workspace is unavailable''
      | Some value \<Rightarrow>
          if value = [] then fail ''Devin hook workspace is unavailable''
          else canonical_cwd (h_fs (tn_host tn 0)) value)"

text \<open>The route of a hook: exactly one of this session, process and, unless waived, directory.\<close>

definition route_of_hook :: "str \<Rightarrow> int \<Rightarrow> str option \<Rightarrow> route \<Rightarrow> bool" where
  "route_of_hook session pid cwd r \<longleftrightarrow>
     r_provider r = Devin \<and> r_session_id r = session \<and> r_pid r = pid \<and> (case cwd of None \<Rightarrow> True | Some c \<Rightarrow> r_cwd r = c)"

definition devin_route :: "pyenv \<Rightarrow> turn \<Rightarrow> dir \<Rightarrow> str \<Rightarrow> int \<Rightarrow> bool \<Rightarrow> route option res" where
  "devin_route E tn d event_session_id pid require_cwd =
     (let matching = (\<lambda>cwd. bind (registry_routes E d) (\<lambda>routes. Inr (the_one (route_of_hook event_session_id pid cwd) routes))) in
      if \<not> require_cwd then matching None
      else
        case devin_hook_cwd tn of
          Inr cwd \<Rightarrow> matching (Some cwd)
        | Inl e \<Rightarrow> if is_os_error e \<or> is_chat_error e then Inr None else Inl e)"

text \<open>A hook goes on only with a route that is current; the two checks read the registry apart.\<close>

definition current_route :: "pyenv \<Rightarrow> turn \<Rightarrow> dir \<Rightarrow> str \<Rightarrow> int \<Rightarrow> route option res \<times> dir" where
  "current_route E tn d session pid =
     (case devin_route E tn d session pid True of
        Inl e \<Rightarrow> (Inl e, d)
      | Inr None \<Rightarrow> (Inr None, d)
      | Inr (Some r) \<Rightarrow>
          (let d' = tn_others tn 1 d in
           (bind (route_current E (tn_host tn 1) d' r) (\<lambda>ok. Inr (if ok then Some r else None)), d')))"

section \<open>The two questions to the courier\<close>

definition peek_payload :: "route \<Rightarrow> dict" where
  "peek_payload r =
     [(lit ''schema_version'', JInt SCHEMA_VERSION), (lit ''operation'', JStr (lit ''peek'')),
      (lit ''generation'', JStr (r_generation r))]"

definition ack_payload :: "route \<Rightarrow> str list \<Rightarrow> dict" where
  "ack_payload r event_ids =
     [(lit ''schema_version'', JInt SCHEMA_VERSION), (lit ''operation'', JStr (lit ''ack'')),
      (lit ''generation'', JStr (r_generation r)), (lit ''event_ids'', JArr (map JStr event_ids))]"

definition peeked_item :: "string \<Rightarrow> json \<Rightarrow> (str \<times> str) res" where
  "peeked_item text item =
     (case item of
        JObj d \<Rightarrow>
          if \<not> has_keys d [''event_id'', ''message''] then fail text
          else
            (case (jget d ''event_id'', jget d ''message'') of
               (Some (JStr event_id), Some (JStr message)) \<Rightarrow>
                 bind (valid_uuid event_id ''event id'') (\<lambda>i. Inr (i, message))
             | _ \<Rightarrow> fail text)
      | _ \<Rightarrow> fail text)"

definition devin_messages :: "pyenv \<Rightarrow> exchange \<Rightarrow> route \<Rightarrow> (str \<times> str) list res" where
  "devin_messages E x r =
     bind (request_socket E x (peek_payload r)) (\<lambda>response.
     case jget response ''messages'' of
       Some (JArr raw) \<Rightarrow>
         map_res (\<lambda>item. bind (peeked_item ''Devin courier response is invalid'' item) (\<lambda>(i, message).
           bind (bounded_message message) (\<lambda>m. Inr (i, m)))) raw
     | _ \<Rightarrow> fail ''Devin courier response is invalid'')"

definition ack_devin :: "pyenv \<Rightarrow> exchange \<Rightarrow> route \<Rightarrow> (str \<times> str) list \<Rightarrow> unit res" where
  "ack_devin E x r ms = bind (request_socket E x (ack_payload r (map fst ms))) (\<lambda>_. Inr ())"

text \<open>
  One message is handed over: the payload is built, then the courier is told to drop the message,
  then the payload is printed. \<open>Some\<close> is what is printed.
\<close>

definition hand_to_devin :: "pyenv \<Rightarrow> turn \<Rightarrow> route \<Rightarrow> json option \<Rightarrow> (str \<Rightarrow> str \<Rightarrow> dict res) \<Rightarrow> json option res" where
  "hand_to_devin E tn r nothing build =
     bind (devin_messages E (tn_peek tn) r) (\<lambda>ms.
     case ms of
       [] \<Rightarrow> Inr nothing
     | (i, m) # _ \<Rightarrow>
         bind (build i m) (\<lambda>payload.
         bind (ack_devin E (tn_ack tn) r [(i, m)]) (\<lambda>_.
         Inr (Some (JObj payload)))))"

section \<open>Stop and prompt\<close>

definition NOTHING :: "json option" where "NOTHING = Some (JObj [])"

definition devin_stop :: "pyenv \<Rightarrow> turn \<Rightarrow> dir \<Rightarrow> str \<Rightarrow> json option res \<times> dir" where
  "devin_stop E tn d stdin =
     (if \<not> tn_presence tn then (Inr None, d)
      else
        case parse_hook_input E DEVIN_LARGE_HOOK_INPUT_MAX_BYTES (Some (lit ''Stop'')) stdin of
          Inl e \<Rightarrow> (Inl e, d)
        | Inr event \<Rightarrow>
            (case revoke_session E (tn_now tn) d (de_session_id event) of
               Inl e \<Rightarrow> (Inl e, d)
             | Inr d1 \<Rightarrow>
                 (case current_route E tn (tn_others tn 0 d1) (de_session_id event) (tn_pid tn) of
                    (Inl e, d2) \<Rightarrow> (Inl e, d2)
                  | (Inr None, d2) \<Rightarrow> (Inr NOTHING, d2)
                  | (Inr (Some r), d2) \<Rightarrow>
                      if de_stop_active event = Some True then (Inr NOTHING, d2)
                      else
                        (let d3 = tn_others tn 2 d2 in
                         (bind (subagent_custody E d3 (de_session_id event)) (\<lambda>held.
                          if held \<noteq> None then Inr NOTHING
                          else hand_to_devin E tn r NOTHING (build_stop_callback_payload E)), d3)))))"

text \<open>A prompt without a device uses the route that is there; with one it may register it first.\<close>

definition prompt_route :: "pyenv \<Rightarrow> turn \<Rightarrow> str option \<Rightarrow> dir \<Rightarrow> str \<Rightarrow> route option res \<times> dir" where
  "prompt_route E tn device d session_id =
     (case device of
        None \<Rightarrow> (devin_route E tn d session_id (tn_pid tn) True, d)
      | Some dev \<Rightarrow>
          (case valid_device dev of
             Inl e \<Rightarrow> (Inl e, d)
           | Inr dev' \<Rightarrow>
               (case register_devin_prompt E (tn_registration tn) (devin_hook_cwd tn) dev' (tn_pid tn) d session_id of
                  ((r, _), d') \<Rightarrow> (bind r (\<lambda>r. Inr (Some r)), d'))))"

definition devin_user_prompt :: "pyenv \<Rightarrow> turn \<Rightarrow> str option \<Rightarrow> dir \<Rightarrow> str \<Rightarrow> json option res \<times> dir" where
  "devin_user_prompt E tn device d stdin =
     (if \<not> tn_presence tn then (Inr None, d)
      else
        case parse_hook_input E DEVIN_LARGE_HOOK_INPUT_MAX_BYTES (Some (lit ''UserPromptSubmit'')) stdin of
          Inl e \<Rightarrow> (Inl e, d)
        | Inr event \<Rightarrow>
            (case prompt_route E tn device d (de_session_id event) of
               (Inl e, d1) \<Rightarrow> (Inl e, d1)
             | (Inr found, d1) \<Rightarrow>
                 (let d1' = tn_others tn 0 d1 in
                  case revoke_session E (tn_now tn) d1' (de_session_id event) of
                    Inl e \<Rightarrow> (Inl e, d1')
                  | Inr d2 \<Rightarrow>
                      (case found of
                         None \<Rightarrow> (Inr None, d2)
                       | Some r \<Rightarrow>
                           (let d3 = tn_others tn 1 d2 in
                            (bind (route_current E (tn_host tn 1) d3 r) (\<lambda>ok.
                             if \<not> ok then Inr None
                             else hand_to_devin E tn r None (\<lambda>_ m. build_user_prompt_callback_payload E m)), d3))))))"

section \<open>Between tool calls\<close>

definition live_devin_keys :: "pyenv \<Rightarrow> dir \<Rightarrow> str list res" where
  "live_devin_keys E d =
     bind (registry_routes E d) (\<lambda>routes.
     map_res (\<lambda>r. session_key E Devin (r_session_id r)) (filter (\<lambda>r. r_provider r = Devin) routes))"

text \<open>
  One change of the evidence; when it fails the session is marked, so that no hook of it hands
  anything over. The registry and the store are read apart.
\<close>

definition record_devin_subagents ::
  "pyenv \<Rightarrow> turn \<Rightarrow> dir \<Rightarrow> str \<Rightarrow> (dir \<Rightarrow> str list option \<Rightarrow> dir res) \<Rightarrow> unit res \<times> dir" where
  "record_devin_subagents E tn d session_id change =
     (let d1 = tn_others tn 2 d in
      case bind (live_devin_keys E d) (\<lambda>live. change d1 (Some live)) of
        Inr d2 \<Rightarrow> (Inr (), d2)
      | Inl e \<Rightarrow>
          if is_chat_error e \<or> is_os_error e
          then
            (case mark_uncertain E (tn_opens tn 2) d1 session_id of
               Inr d2 \<Rightarrow> (Inr (), d2)
             | Inl e' \<Rightarrow> if is_chat_error e' \<or> is_os_error e' then (Inr (), d1) else (Inl e', d1))
          else (Inl e, d1))"

definition devin_tool_boundary_path :: "route \<Rightarrow> str res" where
  "devin_tool_boundary_path r =
     bind (valid_uuid (r_generation r) ''route generation'') (\<lambda>g. Inr (lit ''devin-tool-boundary-'' @ g))"

definition affirm_devin_tool_boundary :: "turn \<Rightarrow> dir \<Rightarrow> route \<Rightarrow> dir res" where
  "affirm_devin_tool_boundary tn d r =
     bind (devin_tool_boundary_path r) (\<lambda>path.
     Inr (if files d path \<noteq> None \<or> \<not> tn_opens tn 1 then d
          else d\<lparr>files := (files d)(path \<mapsto> \<lparr>is_private = True, data = []\<rparr>)\<rparr>))"

text \<open>Which change a finished tool call makes to the evidence.\<close>

definition post_tool_change :: "pyenv \<Rightarrow> devin_tool_boundary \<Rightarrow> (dir \<Rightarrow> str list option \<Rightarrow> dir res) option" where
  "post_tool_change E b =
     (if db_tool_name b = DEVIN_SUBAGENT_TOOL
      then Some (\<lambda>d live. launched E d (db_session_id b) (db_tool_use_id b) (db_output b) live)
      else if db_tool_name b = DEVIN_READ_SUBAGENT_TOOL
      then Some (\<lambda>d live. read_agent E d (db_session_id b) (db_agent_id b) (db_output b) live)
      else None)"

definition withheld :: "custody_kind option \<Rightarrow> str \<Rightarrow> bool" where
  "withheld held tool_name \<longleftrightarrow>
     held = Some Hold \<or> (held = Some RootTools \<and> \<not> list_ex (\<lambda>t. tool_name = lit t) DEVIN_ROOT_ONLY_TOOLS)"

definition devin_post_tool :: "pyenv \<Rightarrow> turn \<Rightarrow> dir \<Rightarrow> str \<Rightarrow> json option res \<times> dir" where
  "devin_post_tool E tn d stdin =
     (if \<not> tn_presence tn then (Inr None, d)
      else
        case bind (parse_tool_boundary E stdin) (\<lambda>b.
             if db_name b \<noteq> lit ''PostToolUse'' then fail ''Devin hook event does not match the expected event'' else Inr b) of
          Inl e \<Rightarrow> (Inl e, d)
        | Inr b \<Rightarrow>
            (case current_route E tn (tn_others tn 0 d) (db_session_id b) (tn_pid tn) of
               (Inl e, d1) \<Rightarrow> (Inl e, d1)
             | (Inr None, d1) \<Rightarrow> (Inr None, d1)
             | (Inr (Some r), d1) \<Rightarrow>
                 (case affirm_devin_tool_boundary tn d1 r of
                    Inl e \<Rightarrow> (Inl e, d1)
                  | Inr d2 \<Rightarrow>
                      (case (case post_tool_change E b of
                               None \<Rightarrow> (Inr (), d2)
                             | Some change \<Rightarrow> record_devin_subagents E tn d2 (db_session_id b) change) of
                         (Inl e, d3) \<Rightarrow> (Inl e, d3)
                       | (Inr _, d3) \<Rightarrow>
                           (let d4 = tn_others tn 3 d3 in
                            (bind (subagent_custody E d4 (db_session_id b)) (\<lambda>held.
                             if withheld held (db_tool_name b) then Inr None
                             else hand_to_devin E tn r None (build_post_tool_callback_payload E)), d4))))))"

section \<open>Before a tool call\<close>

definition MCP_PREFIX :: str where "MCP_PREFIX = lit ''mcp__cross-agent-chat__''"

definition bound_tool :: "str \<Rightarrow> str option" where
  "bound_tool name =
     (if \<not> starts_with MCP_PREFIX name then None
      else
        let tool = drop (length MCP_PREFIX) name in
        if list_ex (\<lambda>t. tool = lit t) CAPABILITY_TOOLS then Some tool else None)"

definition without_capability :: "dict \<Rightarrow> dict" where
  "without_capability arguments = filter (\<lambda>p. fst p \<noteq> DEVIN_CAPABILITY_FIELD) arguments"

text \<open>The launch of a subagent is recorded, never refused.\<close>

definition launch_recorded :: "pyenv \<Rightarrow> turn \<Rightarrow> dir \<Rightarrow> devin_tool_boundary \<Rightarrow> unit res \<times> dir" where
  "launch_recorded E tn d b =
     (case devin_route E tn d (db_session_id b) (tn_pid tn) True of
        Inl e \<Rightarrow> (Inl e, d)
      | Inr None \<Rightarrow> (Inr (), d)
      | Inr (Some r) \<Rightarrow>
          record_devin_subagents E tn d (db_session_id b)
            (\<lambda>d live. launch E d (db_session_id b) (db_tool_use_id b) (db_profile b) live))"

text \<open>A call of one of the three tools gets a capability of this session, prompt, tool and arguments.\<close>

definition capability_issued :: "pyenv \<Rightarrow> turn \<Rightarrow> dir \<Rightarrow> devin_pretool_event \<Rightarrow> str \<Rightarrow> json option res \<times> dir" where
  "capability_issued E tn d event tool =
     (case current_route E tn d (dp_session_id event) (tn_pid tn) of
        (Inl e, d1) \<Rightarrow> (Inl e, d1)
      | (Inr None, d1) \<Rightarrow>
          (case revoke_session E (tn_now tn) d1 (dp_session_id event) of
             Inl e \<Rightarrow> (Inl e, d1) | Inr d2 \<Rightarrow> (Inr None, d2))
      | (Inr (Some r), d1) \<Rightarrow>
          (let arguments = without_capability (dp_tool_input event) in
           case issue E (tn_now tn) (tn_now' tn) (tn_token tn) d1 r (dp_prompt_id event) tool arguments of
             Inl e \<Rightarrow> (Inl e, d1)
           | Inr (token, d2) \<Rightarrow>
               (bind (build_pretool_callback E arguments token) (\<lambda>payload. Inr (Some (JObj payload))), d2)))"

definition devin_pretool :: "pyenv \<Rightarrow> turn \<Rightarrow> dir \<Rightarrow> str \<Rightarrow> json option res \<times> dir" where
  "devin_pretool E tn d stdin =
     (if \<not> tn_presence tn then (Inr None, d)
      else
        case parse_tool_boundary E stdin of
          Inl e \<Rightarrow> (Inl e, d)
        | Inr b \<Rightarrow>
            if db_tool_name b = DEVIN_SUBAGENT_TOOL
            then (case launch_recorded E tn d b of (r, d') \<Rightarrow> (bind r (\<lambda>_. Inr None), d'))
            else
              (case parse_pretool_input E stdin of
                 Inl e \<Rightarrow> (Inl e, d)
               | Inr event \<Rightarrow>
                   (case bound_tool (dp_tool_name event) of
                      None \<Rightarrow> (Inr None, d)
                    | Some tool \<Rightarrow> capability_issued E tn d event tool)))"

section \<open>The call itself\<close>

text \<open>The server of the tools asks who calls: the capability names the session, its route is checked again.\<close>

definition authenticate_devin_capability ::
  "pyenv \<Rightarrow> turn \<Rightarrow> dir \<Rightarrow> str \<Rightarrow> dict \<Rightarrow> route res \<times> dir" where
  "authenticate_devin_capability E tn d tool_name arguments =
     (case as_str (map_of arguments DEVIN_CAPABILITY_FIELD) of
        None \<Rightarrow> (fail ''Devin sender capability is required'', d)
      | Some token \<Rightarrow>
          if \<not> list_ex (\<lambda>t. tool_name = lit t) CAPABILITY_TOOLS then (fail ''Devin sender capability tool is invalid'', d)
          else
            (case consume E (tn_now tn) (tn_now' tn) d token tool_name (without_capability arguments) of
               (Inl e, d1) \<Rightarrow> (Inl e, d1)
             | (Inr c, d1) \<Rightarrow>
                 (let d2 = tn_others tn 0 d1 in
                  case devin_route E tn d2 (dc_session_id c) (tn_pid tn) False of
                    Inl e \<Rightarrow> (Inl e, d2)
                  | Inr found \<Rightarrow>
                      (let d3 = tn_others tn 1 d2 in
                       case (case found of
                               None \<Rightarrow> Inr None
                             | Some r \<Rightarrow>
                                 if r_generation r \<noteq> dc_generation c then Inr None
                                 else bind (route_current E (tn_host tn 1) d3 r) (\<lambda>ok. Inr (if ok then Some r else None))) of
                         Inl e \<Rightarrow> (Inl e, d3)
                       | Inr (Some r) \<Rightarrow> (Inr r, d3)
                       | Inr None \<Rightarrow>
                           (case revoke_session E (tn_now tn) d3 (dc_session_id c) of
                              Inl e \<Rightarrow> (Inl e, d3)
                            | Inr d4 \<Rightarrow> (fail ''Devin sender capability route is unavailable'', d4))))))"

section \<open>The end of a session\<close>

definition session_retired :: "pyenv \<Rightarrow> turn \<Rightarrow> dir \<Rightarrow> str \<Rightarrow> route option \<Rightarrow> unit res \<times> dir" where
  "session_retired E tn d session_id found =
     (case (case found of
              None \<Rightarrow> (Inr (), d)
            | Some r \<Rightarrow>
                (case registry_remove E d (r_provider r) (r_session_id r) (r_pid r) (Some (r_generation r)) of
                   Inl e \<Rightarrow> (Inl e, d)
                 | Inr d1 \<Rightarrow>
                     (case devin_tool_boundary_path r of
                        Inl e \<Rightarrow> (Inl e, d1) | Inr path \<Rightarrow> (Inr (), unlink d1 path)))) of
        (Inl e, d1) \<Rightarrow> (Inl e, d1)
      | (Inr _, d1) \<Rightarrow>
          (case revoke_session E (tn_now tn) d1 session_id of
             Inl e \<Rightarrow> (Inl e, d1)
           | Inr d2 \<Rightarrow> clear_subagents E d2 session_id))"

definition unregister_devin :: "pyenv \<Rightarrow> turn \<Rightarrow> dir \<Rightarrow> str \<Rightarrow> unit res \<times> dir" where
  "unregister_devin E tn d stdin =
     (if \<not> tn_presence tn then (Inr (), d)
      else
        case bind (parse_hook_input E DEVIN_HOOK_INPUT_MAX_BYTES (Some (lit ''SessionEnd'')) stdin) (\<lambda>event.
             bind (registry_routes E d) (\<lambda>routes.
             bind (devin_route E tn d (de_session_id event) (tn_pid tn) True) (\<lambda>found.
             if found = None \<and> list_ex (\<lambda>r. r_provider r = Devin \<and> r_session_id r = de_session_id event) routes
             then fail ''exact Devin session route is unavailable''
             else Inr (de_session_id event, found)))) of
          Inl e \<Rightarrow> (Inl e, d)
        | Inr (session_id, found) \<Rightarrow>
            (case session_retired E tn d session_id found of
               (Inl e, d1) \<Rightarrow> (Inl e, d1)
             | (Inr _, d1) \<Rightarrow>
                 (case found of
                    None \<Rightarrow> (Inr (), d1)
                  | Some r \<Rightarrow> (shutdown_requested E (tn_shutdown tn) r, d1))))"

text \<open>What a peer is shown when the evidence cannot be read is the unobserved launch.\<close>

definition devin_current_boundary :: "pyenv \<Rightarrow> dir \<Rightarrow> route \<Rightarrow> str res" where
  "devin_current_boundary E d r =
     (case restriction E d (r_session_id r) of
        Inr b \<Rightarrow> Inr b
      | Inl e \<Rightarrow> if is_chat_error e \<or> is_os_error e then Inr (lit ''next_prompt_unobserved_launch'') else Inl e)"

section \<open>Who has what\<close>

definition queued_ids :: "server \<Rightarrow> str set" where
  "queued_ids s = fst ` set (queued (sv_courier s))"

lemma accept_ids:
  "accept now now' oc q i m = (v, q') \<Longrightarrow> fst ` set (c_pending q') \<subseteq> insert i (fst ` set (c_pending q))"
  by (auto simp: accept_def accept_begin_def accept_end_def Let_def settle_def admit_def conflict_error_def full_error_def
      valid_simps res_simps pop_key_def split: option.splits if_splits prod.splits sum.splits) force+

lemma delivery_ids:
  assumes "provider_delivery E now now' r calls c i m = (v, c')"
  shows "fst ` set (queued c') \<subseteq> insert i (fst ` set (queued c))"
proof (cases "bind (valid_uuid i ''event id'') (\<lambda>i. bind (bounded_message m) (\<lambda>b. Inr (i, b)))")
  case (Inl e)
  then show ?thesis using assms by (auto simp: provider_delivery_def)
next
  case (Inr p)
  then have p: "p = (i, m)" by (auto simp: res_simps valid_simps)
  show ?thesis
  proof (cases c)
    case None
    then show ?thesis
      using assms Inr p
      by (cases "r_provider r"; cases "pc_daemon calls") (auto simp: provider_delivery_def queued_def split: sum.splits if_splits)
  next
    case (Some q)
    obtain w q' where w: "accept now now' (pc_queue calls) q i m = (w, q')" by (cases "accept now now' (pc_queue calls) q i m")
    have "c_pending (retire_event now' i q) = c_pending q" by simp
    with assms Inr p Some w have "c' = Some q' \<or> queued c' = queued c"
      by (cases "r_provider r"; cases "pc_daemon calls") (auto simp: provider_delivery_def queued_def split: sum.splits if_splits)
    then show ?thesis using accept_ids [OF w] Some by (auto simp: queued_def)
  qed
qed

lemma serve_accept_ids:
  assumes "serve_accept E su s i m = (a, s')"
  shows "queued_ids s' \<subseteq> insert i (queued_ids s)"
proof (cases "gates_open su s")
  case True
  obtain v c where c: "provider_delivery E (su_now su) (su_now' su) (su_route su) (su_calls su) (sv_courier s) i m = (v, c)"
    by (cases "provider_delivery E (su_now su) (su_now' su) (su_route su) (su_calls su) (sv_courier s) i m")
  then have "snd (courier_accept E (su_now su) (su_now' su) (su_route su) (su_calls su) (sv_courier s) i m) = c"
    by (cases v) (simp_all add: courier_accept_def)
  then have "sv_courier s' = c"
    using assms by (auto simp: serve_accept_open [OF True] split: prod.splits)
  then show ?thesis using delivery_ids [OF c] by (simp add: queued_ids_def)
next
  case False
  then show ?thesis using serve_accept_closed [OF False, of E i m] assms by auto
qed

lemma serve_all_absent:
  "i \<notin> queued_ids s \<Longrightarrow> \<forall>(su, raw) \<in> set rs. \<forall>m. \<not> accept_request su i m raw \<Longrightarrow> serve_all E s rs = (as, s') \<Longrightarrow> i \<notin> queued_ids s'"
proof (induction rs arbitrary: s as)
  case (Cons x rs)
  obtain su raw where x: "x = (su, raw)" by (cases x)
  obtain a s1 where s1: "serve_request E su s raw = (a, s1)" by (cases "serve_request E su s raw")
  have "i \<notin> queued_ids s1"
    using serve_request_other [OF s1]
  proof
    assume "\<exists>j m. accept_request su j m raw \<and> serve_accept E su s j m = (a, s1)"
    then obtain j m where "accept_request su j m raw" "serve_accept E su s j m = (a, s1)" by blast
    then show ?thesis using serve_accept_ids Cons.prems(1,2) x by fastforce
  qed (use Cons.prems(1) in \<open>auto simp: queued_ids_def\<close>)
  with Cons x s1 show ?case by (auto split: prod.splits)
qed simp

section \<open>The hand over\<close>

lemma serve_peek_payload:
  "su_route su = r \<Longrightarrow> serve_request E su s (JObj (peek_payload r)) = serve_peek E su s"
  by (simp add: serve_request_def peek_payload_def field_eq_int_def field_is_def Let_def)

lemma serve_ack_payload:
  "su_route su = r \<Longrightarrow> serve_request E su s (JObj (ack_payload r ids)) = serve_ack su s (Some (JArr (map JStr ids)))"
  by (simp add: serve_request_def ack_payload_def field_eq_int_def field_is_def Let_def)

lemma str_list_map [simp]: "str_list (map JStr ids) = Some ids"
  by (induction ids) simp_all

text \<open>What the hook reads is a prefix of the queue.\<close>

lemma peeked_messages:
  assumes "courier_inv q" "sv_courier s = Some q" "su_route su = r"
    and "\<And>a. request_socket E x (peek_payload r) = Inr a \<Longrightarrow> fst (serve_request E su s (JObj (peek_payload r))) = Some a"
    and "devin_messages E x r = Inr ms"
  shows "\<exists>k. ms = map message_of (take k (c_pending q))"
proof -
  from assms(5) obtain a where a: "request_socket E x (peek_payload r) = Inr a" by (auto simp: devin_messages_def res_simps)
  from peek_spec [OF assms(1), of E] obtain k where k: "peek E q = Inr (map message_of (take k (c_pending q)))" by blast
  let ?ms = "map message_of (take k (c_pending q))"
  from assms(4) [OF a] k assms(2) have "jget a ''messages'' =
      Some (JArr (map (\<lambda>m. JObj [(lit ''event_id'', JStr (fst m)), (lit ''message'', JStr (snd m))]) ?ms))"
    by (auto simp: serve_peek_payload [OF assms(3)] serve_peek_def peek_response_def)
  moreover have "map_res (\<lambda>item. bind (peeked_item tx item) (\<lambda>(i, message). bind (bounded_message message) (\<lambda>m. Inr (i, m))))
      (map (\<lambda>m. JObj [(lit ''event_id'', JStr (fst m)), (lit ''message'', JStr (snd m))]) xs) = Inr ys \<Longrightarrow> ys = xs" for tx xs ys
  proof (induction xs arbitrary: ys)
    case (Cons m xs)
    have "has_keys [(lit ''event_id'', v), (lit ''message'', w)] [''event_id'', ''message'']" for v w
      by (simp add: has_keys_def insert_commute)
    with Cons show ?case by (cases m) (auto simp: peeked_item_def res_simps valid_simps)
  qed simp
  ultimately have "ms = ?ms" using assms(5) a by (auto simp: devin_messages_def)
  then show ?thesis by blast
qed

lemma handed_over:
  assumes "hand_to_devin E tn r nothing build = Inr printed" "printed \<noteq> nothing"
  obtains i m ms payload where "devin_messages E (tn_peek tn) r = Inr ((i, m) # ms)" "build i m = Inr payload"
    "is_ok (request_socket E (tn_ack tn) (ack_payload r [i]))" "printed = Some (JObj payload)"
proof -
  from assms(1) obtain ms where ms: "devin_messages E (tn_peek tn) r = Inr ms"
    by (cases "devin_messages E (tn_peek tn) r") (simp_all add: hand_to_devin_def res_simps)
  moreover from ms assms have "ms \<noteq> []" by (auto simp: hand_to_devin_def res_simps)
  then obtain i m rest where cons: "ms = (i, m) # rest" by (metis list.exhaust surj_pair)
  moreover from assms(1) ms cons have "bind (build i m) (\<lambda>payload. bind (ack_devin E (tn_ack tn) r [(i, m)]) (\<lambda>_.
      Inr (Some (JObj payload)))) = Inr printed"
    by (simp add: hand_to_devin_def res_simps)
  then obtain payload where "build i m = Inr payload" "is_ok (request_socket E (tn_ack tn) (ack_payload r [i]))"
    "printed = Some (JObj payload)"
    by (auto simp: ack_devin_def res_simps is_ok_iff)
  ultimately show thesis using that by blast
qed

section \<open>Properties\<close>

text \<open>
  C9. A hook hands over what the courier gives up. When both questions of a hook were answered by
  the courier of its route (at whatever two moments), then what it prints is the head of the queue at
  the first, and the event is queued just before the second and gone after it, with every other event
  kept in order; and as long as nobody sends that event again, no later hook can acknowledge it,
  so none prints it.
\<close>

theorem hook_hands_over_once:
  assumes "hand_to_devin E tn r nothing build = Inr printed" "printed \<noteq> nothing"
    and "su_route su1 = r" "sv_courier s1 = Some q1" "courier_inv q1"
    and "\<And>a. request_socket E (tn_peek tn) (peek_payload r) = Inr a \<Longrightarrow>
           fst (serve_request E su1 s1 (JObj (peek_payload r))) = Some a"
    and "su_route su2 = r"
    and "\<And>i m ms a. devin_messages E (tn_peek tn) r = Inr ((i, m) # ms) \<Longrightarrow>
           request_socket E (tn_ack tn) (ack_payload r [i]) = Inr a \<Longrightarrow>
           fst (serve_request E su2 s2 (JObj (ack_payload r [i]))) = Some a"
  shows "\<exists>i m t rest payload q2. c_pending q1 = (i, m, t) # rest \<and> build i m = Inr payload \<and> printed = Some (JObj payload) \<and>
    sv_courier s2 = Some q2 \<and> i \<in> queued_ids s2 \<and>
    (let s3 = snd (serve_request E su2 s2 (JObj (ack_payload r [i]))) in
     queued (sv_courier s3) = filter (\<lambda>e. fst e \<noteq> i) (c_pending q2) \<and>
     (\<forall>rs answers s4 su. serve_all E s3 rs = (answers, s4) \<and> su_route su = r \<and>
        (\<forall>(su', raw) \<in> set rs. \<forall>m'. \<not> accept_request su' i m' raw) \<longrightarrow>
        fst (serve_request E su s4 (JObj (ack_payload r [i]))) = None))"
proof -
  from assms(1,2) obtain i m ms payload where h: "devin_messages E (tn_peek tn) r = Inr ((i, m) # ms)" "build i m = Inr payload"
    "is_ok (request_socket E (tn_ack tn) (ack_payload r [i]))" "printed = Some (JObj payload)" by (rule handed_over)
  have "\<exists>k. (i, m) # ms = map message_of (take k (c_pending q1))"
    by (rule peeked_messages [OF assms(5,4,3) _ h(1)]) (rule assms(6))
  then obtain k where "(i, m) # ms = map message_of (take k (c_pending q1))" by (elim exE)
  then obtain t rest where head: "c_pending q1 = (i, m, t) # rest"
    by (cases "c_pending q1"; cases k) (auto simp: message_of_def)
  from h(3) obtain a where "request_socket E (tn_ack tn) (ack_payload r [i]) = Inr a" by (auto simp: is_ok_iff)
  then have "fst (serve_ack su2 s2 (Some (JArr (map JStr [i])))) = Some a"
    using assms(8) [OF h(1)] serve_ack_payload [OF assms(7)] by metis
  then obtain q2 q3 where q: "sv_courier s2 = Some q2" "acknowledge (su_now su2) q2 [i] = Inr q3"
    "snd (serve_ack su2 s2 (Some (JArr (map JStr [i])))) = s2\<lparr>sv_courier := Some q3\<rparr>"
    by (auto simp: serve_ack_def split: option.splits sum.splits)
  let ?s3 = "snd (serve_request E su2 s2 (JObj (ack_payload r [i])))"
  have s3: "?s3 = s2\<lparr>sv_courier := Some q3\<rparr>" using q(3) serve_ack_payload [OF assms(7)] by metis
  from q(2) have mem: "i \<in> fst ` set (c_pending q2)" and p3: "c_pending q3 = filter (\<lambda>e. fst e \<noteq> i) (c_pending q2)"
    by (auto simp: acknowledge_iff ack_event_def pop_key_def)
  then have "i \<notin> queued_ids ?s3" by (auto simp: s3 queued_ids_def queued_def)
  then have later: "fst (serve_request E su s4 (JObj (ack_payload r [i]))) = None"
    if "serve_all E ?s3 rs = (answers, s4)" "su_route su = r" "\<forall>(su', raw) \<in> set rs. \<forall>m'. \<not> accept_request su' i m' raw"
    for rs answers s4 su
  proof -
    have "i \<notin> queued_ids s4" using serve_all_absent that(1,3) \<open>i \<notin> queued_ids ?s3\<close> by blast
    then show ?thesis
      using that(2)
      by (cases "sv_courier s4") (auto simp: serve_ack_payload serve_ack_def acknowledge_def queued_ids_def queued_def fail_def
          split: sum.splits)
  qed
  have "\<forall>rs answers s4 su. serve_all E ?s3 rs = (answers, s4) \<and> su_route su = r \<and>
        (\<forall>(su', raw) \<in> set rs. \<forall>m'. \<not> accept_request su' i m' raw) \<longrightarrow>
        fst (serve_request E su s4 (JObj (ack_payload r [i]))) = None"
    by (intro allI impI; elim conjE) (rule later)
  moreover have "i \<in> queued_ids s2" "queued (sv_courier ?s3) = filter (\<lambda>e. fst e \<noteq> i) (c_pending q2)"
    using mem p3 q(1) by (simp_all add: s3 queued_ids_def queued_def)
  ultimately show ?thesis unfolding Let_def using h head q(1) by blast
qed

section \<open>Sessions in custody\<close>

lemma evident_files:
  assumes "evident E d key ev b" "\<And>n. n \<noteq> CAPABILITY_FILE \<Longrightarrow> files d n \<noteq> None \<Longrightarrow> files d' n = files d n"
    and "files d' SUBAGENT_FILE = files d SUBAGENT_FILE" "root_path d' = root_path d"
  shows "evident E d' key ev b"
proof (rule evident_elsewhere [OF assms(1,3,4)])
  have "uncertain_path key \<noteq> CAPABILITY_FILE" by (simp add: uncertain_path_def CAPABILITY_FILE_def lit_def)
  with assms(2) show "files d (uncertain_path key) \<noteq> None \<longrightarrow> files d' (uncertain_path key) \<noteq> None" by auto
qed

lemma revoke_evident:
  assumes "evident E d key ev b" "revoke_session E now d session = Inr d'"
  shows "evident E d' key ev b"
proof (rule evident_files [OF assms(1)])
  have "SUBAGENT_FILE \<noteq> CAPABILITY_FILE" by (simp add: SUBAGENT_FILE_def CAPABILITY_FILE_def lit_def)
  with assms(2) show "files d' SUBAGENT_FILE = files d SUBAGENT_FILE" "root_path d' = root_path d"
    "\<And>n. n \<noteq> CAPABILITY_FILE \<Longrightarrow> files d n \<noteq> None \<Longrightarrow> files d' n = files d n"
    by (auto simp: revoke_session_def res_simps Let_def write_capabilities_def atomic_json_def split: if_splits)
qed

lemma affirm_evident:
  assumes "evident E d key ev b" "affirm_devin_tool_boundary tn d r = Inr d'"
  shows "evident E d' key ev b"
proof (rule evident_files [OF assms(1)])
  have "SUBAGENT_FILE \<noteq> lit ''devin-tool-boundary-'' @ g" for g by (simp add: SUBAGENT_FILE_def lit_def)
  with assms(2) show "files d' SUBAGENT_FILE = files d SUBAGENT_FILE" "root_path d' = root_path d"
    "\<And>n. n \<noteq> CAPABILITY_FILE \<Longrightarrow> files d n \<noteq> None \<Longrightarrow> files d' n = files d n"
    by (auto simp: affirm_devin_tool_boundary_def devin_tool_boundary_path_def res_simps split: if_splits)
qed

lemma current_route_dir:
  assumes "current_route E tn d session pid = (r, d')"
  shows "d' = d \<or> d' = tn_others tn 1 d"
  using assms by (auto simp: current_route_def Let_def split: sum.splits option.splits)

text \<open>Other processes may do anything but end the evidence.\<close>

definition evidence_kept :: "pyenv \<Rightarrow> turn \<Rightarrow> str \<Rightarrow> evidence \<Rightarrow> bool \<Rightarrow> bool" where
  "evidence_kept E tn key ev b \<longleftrightarrow> (\<forall>n d. evident E d key ev b \<longrightarrow> evident E (tn_others tn n d) key ev b)"

lemma current_route_evident:
  assumes "evidence_kept E tn key ev b" "evident E d key ev b" "current_route E tn d session pid = (r, d')"
  shows "evident E d' key ev b"
  using current_route_dir [OF assms(3)] assms(1,2) by (auto simp: evidence_kept_def)

lemma stop_in_custody:
  assumes "evidence_kept E tn key ev b" "evident E d key ev b" "session_key E Devin session = Inr key"
    and "parse_hook_input E DEVIN_LARGE_HOOK_INPUT_MAX_BYTES (Some (lit ''Stop'')) stdin = Inr event"
    and "de_session_id event = session" "devin_stop E tn d stdin = (out, d')"
  shows "evident E d' key ev b \<and> (out = Inr None \<or> out = Inr NOTHING \<or> (\<exists>e. out = Inl e))"
proof (cases "revoke_session E (tn_now tn) d session")
  case (Inr d1)
  then have e1: "evident E (tn_others tn 0 d1) key ev b" using revoke_evident assms(1,2) by (auto simp: evidence_kept_def)
  obtain found d2 where c: "current_route E tn (tn_others tn 0 d1) session (tn_pid tn) = (found, d2)" by fastforce
  have e2: "evident E d2 key ev b" by (rule current_route_evident [OF assms(1) e1 c])
  then have e3: "evident E (tn_others tn 2 d2) key ev b" using assms(1) by (simp add: evidence_kept_def)
  then obtain k where "subagent_custody E (tn_others tn 2 d2) session = Inr (Some k)"
    using evident_custody [OF _ assms(3)] by blast
  with assms Inr c e2 e3 show ?thesis
    by (auto simp: devin_stop_def Let_def split: sum.splits option.splits if_splits)
qed (use assms in \<open>auto simp: devin_stop_def split: if_splits\<close>)

lemma post_tool_in_custody:
  assumes "evidence_kept E tn key ev b" "evident E d key ev b" "session_key E Devin session = Inr key"
    and "parse_tool_boundary E stdin = Inr tb" "db_session_id tb = session" "post_tool_change E tb = None"
    and "b \<or> \<not> list_ex (\<lambda>t. db_tool_name tb = lit t) DEVIN_ROOT_ONLY_TOOLS" "devin_post_tool E tn d stdin = (out, d')"
  shows "evident E d' key ev b \<and> (out = Inr None \<or> (\<exists>e. out = Inl e))"
proof (cases "tn_presence tn \<and> db_name tb = lit ''PostToolUse''")
  case True
  have e1: "evident E (tn_others tn 0 d) key ev b" using assms(1,2) by (auto simp: evidence_kept_def)
  obtain found d1 where c: "current_route E tn (tn_others tn 0 d) session (tn_pid tn) = (found, d1)" by fastforce
  have e2: "evident E d1 key ev b" by (rule current_route_evident [OF assms(1) e1 c])
  show ?thesis
  proof (cases "\<exists>r d2. found = Inr (Some r) \<and> affirm_devin_tool_boundary tn d1 r = Inr d2")
    case here: True
    then obtain r d2 where f: "found = Inr (Some r)" "affirm_devin_tool_boundary tn d1 r = Inr d2" by blast
    have e3: "evident E (tn_others tn 3 d2) key ev b" using affirm_evident [OF e2 f(2)] assms(1) by (simp add: evidence_kept_def)
    then obtain k where k: "subagent_custody E (tn_others tn 3 d2) session = Inr (Some k)" "b \<longrightarrow> k = Hold"
      using evident_custody [OF _ assms(3)] by blast
    then have "withheld (Some k) (db_tool_name tb)" using assms(7) by (cases k) (auto simp: withheld_def)
    with assms True c f e3 k(1) show ?thesis by (auto simp: devin_post_tool_def Let_def)
  next
    case False
    with assms True c e2 show ?thesis
      by (auto simp: devin_post_tool_def Let_def split: sum.splits option.splits)
  qed
next
  case False
  with assms show ?thesis by (auto simp: devin_post_tool_def fail_def split: if_splits)
qed

text \<open>
  C8. A session in custody is silent. As long as the launch of a subagent, a running child or lost
  evidence of it is on record for a Devin session, its Stop hook answers with an empty object (or fails) and the
  hook of a finished tool call prints nothing, unless the call is one that only the root session can make
  and the child cannot start others; and the evidence is still there afterwards. Other processes may
  do anything but end it.
\<close>

theorem custody_silences_hooks:
  assumes "evidence_kept E tn key ev b" "evident E d key ev b" "session_key E Devin session = Inr key"
  shows "(\<forall>event. parse_hook_input E DEVIN_LARGE_HOOK_INPUT_MAX_BYTES (Some (lit ''Stop'')) stdin = Inr event \<and>
        de_session_id event = session \<longrightarrow>
      evident E (snd (devin_stop E tn d stdin)) key ev b \<and>
      (\<forall>printed. fst (devin_stop E tn d stdin) = Inr (Some printed) \<longrightarrow> printed = JObj [])) \<and>
    (\<forall>tb. parse_tool_boundary E stdin = Inr tb \<and> db_session_id tb = session \<and> post_tool_change E tb = None \<and>
        (b \<or> \<not> list_ex (\<lambda>t. db_tool_name tb = lit t) DEVIN_ROOT_ONLY_TOOLS) \<longrightarrow>
      evident E (snd (devin_post_tool E tn d stdin)) key ev b \<and>
      (\<forall>printed. fst (devin_post_tool E tn d stdin) \<noteq> Inr (Some printed)))"
  using stop_in_custody [OF assms _ _ surjective_pairing, of stdin]
    post_tool_in_custody [OF assms _ _ _ _ surjective_pairing, of stdin]
  by (fastforce simp: NOTHING_def)

section \<open>Sample hooks\<close>

lemma hook_text:
  assumes "plain True (JObj body)" "utf8_len (dumps fr False (JObj body)) \<le> DEVIN_LARGE_HOOK_INPUT_MAX_BYTES"
  shows "loads (float_parse E) (dumps fr False (JObj body)) = Inr (JObj body)"
    "parse_hook_input E DEVIN_LARGE_HOOK_INPUT_MAX_BYTES expected (dumps fr False (JObj body)) = hook_fields expected body"
proof -
  have "plain False (JObj body)" using plain_True_False [OF assms(1)] .
  from loads_dumps_trailing [OF this, of "[]" "float_parse E" fr]
  show l: "loads (float_parse E) (dumps fr False (JObj body)) = Inr (JObj body)" by (simp del: dumps.simps)
  have "list_all (\<lambda>c. \<not> is_surrogate c) (dumps fr False (JObj body))"
    using scalar_dumps [OF assms(1), of fr False] by (auto simp: list_all_iff is_scalar_def simp del: dumps.simps)
  then obtain bs where "utf8_encode (dumps fr False (JObj body)) = Some bs" "length bs = utf8_len (dumps fr False (JObj body))"
    using utf8_encode_length by (auto simp: utf8_encode_def simp del: dumps.simps)
  moreover have "dumps fr False (JObj body) \<noteq> []" by simp
  ultimately show "parse_hook_input E DEVIN_LARGE_HOOK_INPUT_MAX_BYTES expected (dumps fr False (JObj body)) = hook_fields expected body"
    using assms(2) l by (simp add: parse_hook_input_def decoded_hook_def except_chat_def as_string_mapping_def del: dumps.simps)
qed

definition sample_turn :: turn where
  "sample_turn = \<lparr>tn_presence = True, tn_project_dir = Some (lit ''/p''), tn_pid = 7, tn_now = 0, tn_now' = 0, tn_token = [],
     tn_host = (\<lambda>_. sample_host),
     tn_others = (\<lambda>_ d. d), tn_opens = (\<lambda>_. True), tn_peek = good_exchange [], tn_ack = good_exchange [],
     tn_shutdown = good_exchange [], tn_registration = sample_registration\<rparr>"

definition sample_stop :: dict where
  "sample_stop = [(lit ''hook_event_name'', JStr (lit ''Stop'')), (lit ''session_id'', JStr (lit ''devin-session'')),
     (lit ''prompt_id'', JStr (sample_uuid 52)), (lit ''stop_hook_active'', JBool False)]"

definition sample_edit :: dict where
  "sample_edit = [(lit ''hook_event_name'', JStr (lit ''PostToolUse'')), (lit ''session_id'', JStr (lit ''devin-session'')),
     (lit ''tool_name'', JStr (lit ''edit''))]"

lemma hook_body_len:
  assumes "list_all (\<lambda>p. utf8_len (dumps fr False (snd p)) \<le> 3000 \<and> length (fst p) \<le> 100) body" "length body \<le> 10"
  shows "utf8_len (dumps fr False (JObj body)) \<le> DEVIN_LARGE_HOOK_INPUT_MAX_BYTES"
proof -
  have "utf8_len (intersperse_comma (map (\<lambda>p. json_str False (fst p) @ 58 # dumps fr False (snd p)) ps)) \<le> 6000 * length ps"
    if "list_all (\<lambda>p. utf8_len (dumps fr False (snd p)) \<le> 3000 \<and> length (fst p) \<le> 100) ps" for ps
    using that
  proof (induction ps rule: induct_list012)
    case (2 p)
    then show ?case using json_len24 [of "fst p"] by (simp add: utf8_len_Cons ascii_char_len)
  next
    case (3 p q ps)
    then show ?case using json_len24 [of "fst p"] by (simp add: utf8_len_Cons ascii_char_len)
  qed simp
  from this [OF assms(1)] show ?thesis
    using assms(2) by (simp add: utf8_len_Cons ascii_char_len DEVIN_LARGE_HOOK_INPUT_MAX_BYTES_def)
qed

lemma devin_session_text: "session_shape Devin (lit ''devin-session'')" "valid_session_id (lit ''devin'') (lit ''devin-session'') f = Inr (lit ''devin-session'')"
proof -
  show s: "session_shape Devin (lit ''devin-session'')"
    by (simp add: session_shape_def devin_session_shape_def lit_def is_alnum_def is_lower_def is_upper_def is_digit_def)
  show "valid_session_id (lit ''devin'') (lit ''devin-session'') f = Inr (lit ''devin-session'')"
    using s by (simp add: valid_session_id_def session_shape_def)
qed

lemma sample_stop_parsed:
  "parse_hook_input sample_env DEVIN_LARGE_HOOK_INPUT_MAX_BYTES (Some (lit ''Stop'')) (dumps (float_repr sample_env) False (JObj sample_stop)) =
     Inr \<lparr>de_name = lit ''Stop'', de_session_id = lit ''devin-session'', de_prompt_id = Some (sample_uuid 52), de_stop_active = Some False\<rparr>"
proof -
  have "utf8_len (dumps (float_repr sample_env) False (JObj sample_stop)) \<le> DEVIN_LARGE_HOOK_INPUT_MAX_BYTES"
    using json_len24 [of "lit ''Stop''"] json_len24 [of "lit ''devin-session''"] json_len24 [of "sample_uuid 52"]
    by (intro hook_body_len) (simp_all add: sample_stop_def sample_uuid_def utf8_len_Cons ascii_char_len lit_def)
  moreover have "plain True (JObj sample_stop)" using sample_uuid_printable [of 52] by (simp add: sample_stop_def)
  ultimately show ?thesis
    by (simp add: hook_text hook_fields_def hook_name_def sample_stop_def DEVIN_HOOK_NAMES_def devin_session_text
        hook_prompt_def hook_stop_active_def present_def valid_sample_uuid is_hex_def is_digit_def del: dumps.simps)
qed

lemma sample_edit_parsed:
  "\<exists>tb. parse_tool_boundary sample_env (dumps (float_repr sample_env) False (JObj sample_edit)) = Inr tb \<and>
     db_session_id tb = lit ''devin-session'' \<and> db_tool_name tb = lit ''edit'' \<and> db_name tb = lit ''PostToolUse''"
proof -
  have "utf8_len (dumps (float_repr sample_env) False (JObj sample_edit)) \<le> DEVIN_LARGE_HOOK_INPUT_MAX_BYTES"
    using json_len24 [of "lit ''PostToolUse''"] json_len24 [of "lit ''devin-session''"] json_len24 [of "lit ''edit''"]
    by (intro hook_body_len) (simp_all add: sample_edit_def)
  moreover have "plain True (JObj sample_edit)" by (simp add: sample_edit_def)
  ultimately show ?thesis
    by (simp add: parse_tool_boundary_def hook_text hook_fields_def hook_name_def sample_edit_def DEVIN_HOOK_NAMES_def
        devin_session_text hook_prompt_def hook_stop_active_def present_def as_string_mapping_def tool_boundary_def Let_def del: dumps.simps)
qed

theorem custody_silences_hooks_witness:
  "\<exists>d key. launch sample_env empty_dir (lit ''devin-session'') (Some (lit ''t1'')) None None = Inr d \<and>
     evident sample_env d key (Pending (lit ''t1'')) True \<and>
     evident sample_env (snd (devin_stop sample_env sample_turn d (dumps (float_repr sample_env) False (JObj sample_stop))))
       key (Pending (lit ''t1'')) True \<and>
     (\<forall>printed. fst (devin_post_tool sample_env sample_turn d (dumps (float_repr sample_env) False (JObj sample_edit)))
       \<noteq> Inr (Some printed))"
proof -
  let ?s = "lit ''devin-session''"
  obtain key where key: "session_key sample_env Devin ?s = Inr key" using session_key_ok devin_session_text(1) by blast
  have id: "launch_id_ok (lit ''t1'')" using lit_printable by (simp_all add: launch_id_ok_def)
  have e0: "subagents_ok sample_env empty_dir []"
    by (simp add: subagents_ok_def subagent_entries_def empty_dir_def entries_ok_def)
  then obtain d where d: "launch sample_env empty_dir ?s (Some (lit ''t1'')) None None = Inr d"
    using key by (simp add: launch_def update_subagents_def subagents_ok_def launch_change_def changed_entry_def)
  from launch_leaves_evidence [OF sample_env_ok e0 key d] id have ev: "evident sample_env d key (Pending (lit ''t1'')) True" by simp
  have kept: "evidence_kept sample_env sample_turn key (Pending (lit ''t1'')) True"
    by (simp add: evidence_kept_def sample_turn_def)
  obtain tb where tb: "parse_tool_boundary sample_env (dumps (float_repr sample_env) False (JObj sample_edit)) = Inr tb"
    "db_session_id tb = ?s" "db_tool_name tb = lit ''edit''" using sample_edit_parsed by blast
  have "post_tool_change sample_env tb = None"
    by (simp add: post_tool_change_def tb(3) DEVIN_SUBAGENT_TOOL_def DEVIN_READ_SUBAGENT_TOOL_def)
  with custody_silences_hooks [OF kept ev key] sample_stop_parsed tb d ev show ?thesis
    by (metis devin_event.select_convs(2))
qed

definition devin_courier :: courier where
  "devin_courier = sample_courier\<lparr>c_native_queue := None, c_native_helper := False, c_provider := Devin,
     c_pending := [(sample_uuid 51, lit ''hi'', 0)]\<rparr>"

definition devin_server :: server where "devin_server = sample_server\<lparr>sv_courier := Some devin_courier\<rparr>"

definition devin_surroundings :: surroundings where
  "devin_surroundings = sample_surroundings\<lparr>su_route := sample_route\<lparr>r_provider := Devin\<rparr>\<rparr>"

definition sample_peeked :: dict where
  "sample_peeked = (case peek_response (sample_uuid 50) [(sample_uuid 51, lit ''hi'')] of JObj d \<Rightarrow> d | _ \<Rightarrow> [])"

definition sample_acked :: dict where
  "sample_acked = [(lit ''schema_version'', JInt 1), (lit ''status'', JStr (lit ''ACKNOWLEDGED'')),
     (lit ''event_ids'', JArr [JStr (sample_uuid 51)])]"

definition exchanging_turn :: turn where
  "exchanging_turn = sample_turn\<lparr>tn_peek := good_exchange (json_line sample_env (JObj sample_peeked)),
     tn_ack := good_exchange (json_line sample_env (JObj sample_acked))\<rparr>"

lemma one_message:
  "courier_inv devin_courier" "peek sample_env devin_courier = Inr [(sample_uuid 51, lit ''hi'')]"
  "bounded_message (lit ''hi'') = Inr (lit ''hi'')"
proof -
  have m: "message_shape (lit ''hi'')" by (rule small_message) (simp_all add: lit_def)
  then show "bounded_message (lit ''hi'') = Inr (lit ''hi'')" by (simp add: checked)
  show inv: "courier_inv devin_courier"
    using m by (simp add: courier_inv_def devin_courier_def sample_courier_def DEFAULT_CAPACITY_def message_ok_def message_of_def
        sample_simps RETIRED_EVENT_LIMIT_def)
  from peek_spec [OF inv, of sample_env] show "peek sample_env devin_courier = Inr [(sample_uuid 51, lit ''hi'')]"
    by (auto simp: devin_courier_def message_of_def le_Suc_eq)
qed

lemma exchange_sizes:
  "length (json_line sample_env (JObj sample_peeked)) \<le> WIRE_FRAME_BYTES"
  "length (json_line sample_env (JObj sample_acked)) \<le> WIRE_FRAME_BYTES"
proof -
  note len = json_len24 [of "lit ''PEEKED''"] json_len24 [of "lit ''hi''"] json_len24 [of "sample_uuid 50"] json_len24 [of "sample_uuid 51"]
    json_len24 [of "lit ''schema_version''"] json_len24 [of "lit ''status''"] json_len24 [of "lit ''generation''"]
    json_len24 [of "lit ''messages''"] json_len24 [of "lit ''event_id''"] json_len24 [of "lit ''message''"]
    json_len24 [of "lit ''ACKNOWLEDGED''"] json_len24 [of "lit ''event_ids''"]
  have one: "int_str 1 = [49]" by (simp add: int_str_def dec_str.simps)
  have "utf8_len (dumps (float_repr sample_env) False (JObj sample_peeked) @ [10]) \<le> 65536"
    using len by (simp add: sample_peeked_def peek_response_def utf8_len_Cons ascii_char_len one sample_uuid_def)
  then show "length (json_line sample_env (JObj sample_peeked)) \<le> WIRE_FRAME_BYTES"
    by (simp add: json_line_def utf8_len_def WIRE_FRAME_BYTES_def del: dumps.simps)
  have "utf8_len (dumps (float_repr sample_env) False (JObj sample_acked) @ [10]) \<le> 65536"
    using len by (simp add: sample_acked_def utf8_len_Cons ascii_char_len one sample_uuid_def)
  then show "length (json_line sample_env (JObj sample_acked)) \<le> WIRE_FRAME_BYTES"
    by (simp add: json_line_def utf8_len_def WIRE_FRAME_BYTES_def del: dumps.simps)
qed

lemma exchanges:
  "request_socket sample_env (tn_peek exchanging_turn) (peek_payload (su_route devin_surroundings)) = Inr sample_peeked"
  "list_all (printable True) i \<Longrightarrow>
   request_socket sample_env (tn_ack exchanging_turn) (ack_payload (su_route devin_surroundings) [i]) = Inr sample_acked"
proof -
  note p = sample_uuid_printable [of 50] sample_uuid_printable [of 51]
  have sent: "is_ok (frame_bytes sample_env d)" if "plain True (JObj d)" for d
    using frame_bytes_line [OF that, of sample_env] by (simp add: is_ok_def)
  have plains: "plain True (JObj sample_peeked)" "plain True (JObj sample_acked)"
    "plain True (JObj (peek_payload (su_route devin_surroundings)))"
    using p by (simp_all add: sample_peeked_def peek_response_def sample_acked_def peek_payload_def devin_surroundings_def
        SCHEMA_VERSION_def sample_route_def int_fits_small)
  show "request_socket sample_env (tn_peek exchanging_turn) (peek_payload (su_route devin_surroundings)) = Inr sample_peeked"
    using plains sent exchange_sizes frame_bytes_line
    by (simp add: exchanging_turn_def, intro good_request) (auto simp: sample_peeked_def peek_response_def simp del: plain.simps)
  assume i: "list_all (printable True) i"
  have "plain True (JObj (ack_payload (su_route devin_surroundings) [i]))"
    using p i by (simp add: ack_payload_def devin_surroundings_def SCHEMA_VERSION_def sample_route_def int_fits_small)
  then show "request_socket sample_env (tn_ack exchanging_turn) (ack_payload (su_route devin_surroundings) [i]) = Inr sample_acked"
    using plains sent exchange_sizes frame_bytes_line
    by (simp add: exchanging_turn_def, intro good_request) (auto simp: sample_acked_def simp del: plain.simps)
qed


lemma devin_answers:
  "fst (serve_request sample_env devin_surroundings devin_server (JObj (peek_payload (su_route devin_surroundings)))) = Some sample_peeked"
  "fst (serve_request sample_env devin_surroundings devin_server (JObj (ack_payload (su_route devin_surroundings) [sample_uuid 51]))) =
     Some sample_acked"
proof -
  show "fst (serve_request sample_env devin_surroundings devin_server (JObj (peek_payload (su_route devin_surroundings)))) =
      Some sample_peeked"
    using one_message(2)
    by (simp add: serve_peek_payload serve_peek_def devin_server_def sample_peeked_def peek_response_def devin_surroundings_def
        sample_route_def)
  show "fst (serve_request sample_env devin_surroundings devin_server (JObj (ack_payload (su_route devin_surroundings) [sample_uuid 51]))) =
      Some sample_acked"
    by (simp add: serve_ack_payload serve_ack_def devin_server_def sample_acked_def acknowledge_def)
      (simp add: devin_courier_def)
qed

lemma devin_asks: "devin_messages sample_env (tn_peek exchanging_turn) (su_route devin_surroundings) = Inr [(sample_uuid 51, lit ''hi'')]"
proof -
  have "has_keys [(lit ''event_id'', v), (lit ''message'', w)] [''event_id'', ''message'']" for v w
    by (simp add: has_keys_def insert_commute)
  then show ?thesis
    using exchanges(1) one_message(3)
    by (simp add: devin_messages_def sample_peeked_def peek_response_def peeked_item_def valid_sample_uuid is_hex_def is_digit_def)
qed

theorem hook_hands_over_once_witness:
  "\<exists>payload. hand_to_devin sample_env exchanging_turn (su_route devin_surroundings) NOTHING (build_stop_callback_payload sample_env) =
       Inr (Some (JObj payload)) \<and>
     sample_uuid 51 \<in> queued_ids devin_server \<and>
     queued (sv_courier (snd (serve_request sample_env devin_surroundings devin_server
       (JObj (ack_payload (su_route devin_surroundings) [sample_uuid 51]))))) = []"
proof -
  let ?r = "su_route devin_surroundings"
  let ?payload = "stop_payload (reason_text (sample_uuid 51) (lit ''hi''))"
  have u: "valid_uuid (sample_uuid 51) ''event id'' = Inr (sample_uuid 51)" by (simp add: valid_sample_uuid is_hex_def is_digit_def)
  have b: "build_stop_callback_payload sample_env (sample_uuid 51) (lit ''hi'') = Inr ?payload"
    by (rule payloads_ok(1) [OF u one_message(3)])
  have acked: "request_socket sample_env (tn_ack exchanging_turn) (ack_payload ?r [sample_uuid 51]) = Inr sample_acked"
    using exchanges(2) [of "sample_uuid 51"] sample_uuid_printable [of 51] by simp
  with b have h: "hand_to_devin sample_env exchanging_turn ?r NOTHING (build_stop_callback_payload sample_env) = Inr (Some (JObj ?payload))"
    by (simp add: hand_to_devin_def devin_asks ack_devin_def)
  have n: "Some (JObj ?payload) \<noteq> NOTHING" by (simp add: stop_payload_def NOTHING_def)
  have q: "sv_courier devin_server = Some devin_courier" by (simp add: devin_server_def)
  have peeks: "fst (serve_request sample_env devin_surroundings devin_server (JObj (peek_payload ?r))) = Some a"
    if "request_socket sample_env (tn_peek exchanging_turn) (peek_payload ?r) = Inr a" for a
    using that exchanges(1) devin_answers(1) by simp
  have acks: "fst (serve_request sample_env devin_surroundings devin_server (JObj (ack_payload ?r [i]))) = Some a"
    if "devin_messages sample_env (tn_peek exchanging_turn) ?r = Inr ((i, m) # ms)"
      "request_socket sample_env (tn_ack exchanging_turn) (ack_payload ?r [i]) = Inr a" for i m ms a
    using that devin_asks acked devin_answers(2) by auto
  obtain i m t rest q2 where "c_pending devin_courier = (i, m, t) # rest" "sv_courier devin_server = Some q2"
    "i \<in> queued_ids devin_server"
    "queued (sv_courier (snd (serve_request sample_env devin_surroundings devin_server (JObj (ack_payload ?r [i]))))) =
       filter (\<lambda>e. fst e \<noteq> i) (c_pending q2)"
    by (rule exE [OF hook_hands_over_once [OF h n refl q one_message(1) _ refl]], erule peeks, erule (1) acks,
        unfold Let_def, elim exE conjE, rule that)
  with h show ?thesis by (auto simp: devin_server_def devin_courier_def)
qed

end
