(* ===== verification/ClaudeGate.thy ===== *)
theory ClaudeGate
  imports Tailnet CourierServer
begin

text \<open>
  The gate of one native Claude delivery in claude_runtime.py. A courier model may propose one
  SendMessage call; the PreToolUse hook replaces its arguments by the authoritative ones and leaves a marker
  in the private gate directory that tells what it decided.
\<close>

section \<open>The arguments of the call\<close>

definition SUMMARY_MAX_CHARACTERS :: nat where "SUMMARY_MAX_CHARACTERS = 200"

definition MAX_GATE_EXPECTATION_BYTES :: nat where "MAX_GATE_EXPECTATION_BYTES = 128 * 1024"

definition SENDMESSAGE_TOOL_INPUT_KEYS :: "string list" where
  "SENDMESSAGE_TOOL_INPUT_KEYS =
     [''to'', ''recipient'', ''message'', ''content'', ''type'', ''summary'', ''recipient_kind'']"

text \<open>\<^verbatim>\<open>.+ \[[A-Za-z0-9]{6}\]\<close>.\<close>

definition target_ref :: "str \<Rightarrow> bool" where
  "target_ref s \<longleftrightarrow>
     10 \<le> length s \<and>
     (let name = take (length s - 9) s; rest = drop (length s - 9) s in
      10 \<notin> set name \<and> take 2 rest = lit '' ['' \<and> list_all is_alnum (take 6 (drop 2 rest)) \<and> drop 8 rest = lit '']'')"

text \<open>\<^verbatim>\<open>[\x00-\x08\x0a-\x0d\x0e-\x1f\x7f-\x9f\u2028\u2029]\<close>.\<close>

definition summary_reject :: "nat \<Rightarrow> bool" where
  "summary_reject c \<longleftrightarrow> c \<le> 8 \<or> 10 \<le> c \<and> c \<le> 31 \<or> 127 \<le> c \<and> c \<le> 159 \<or> c = 8232 \<or> c = 8233"

definition valid_summary :: "pyenv \<Rightarrow> json \<Rightarrow> bool" where
  "valid_summary E v =
     (case v of
        JStr s \<Rightarrow> length s \<le> SUMMARY_MAX_CHARACTERS \<and> \<not> list_ex summary_reject s \<and> utf8_encode s \<noteq> None \<and>
          list_all (\<lambda>c. c = 9 \<or> \<not> bad_category (ucategory E c)) s
      | _ \<Rightarrow> False)"

definition authoritative_tool_input :: "str \<Rightarrow> str \<Rightarrow> str \<Rightarrow> dict" where
  "authoritative_tool_input recipient message summary =
     [(lit ''to'', JStr recipient), (lit ''recipient'', JStr recipient), (lit ''message'', JStr message),
      (lit ''content'', JStr message), (lit ''type'', JStr (lit ''message'')), (lit ''summary'', JStr summary)]"

text \<open>\<open>Inl\<close> is the phase of a denial, \<open>Inr\<close> the arguments the call gets.\<close>

definition proposal :: "json \<Rightarrow> dict option" where
  "proposal payload =
     (case payload of
        JObj p \<Rightarrow>
          if field_is p ''hook_event_name'' (lit ''PreToolUse'') \<and> field_is p ''tool_name'' (lit ''SendMessage'')
          then (case jget p ''tool_input'' of Some (JObj input) \<Rightarrow> Some input | _ \<Rightarrow> None)
          else None
      | _ \<Rightarrow> None)"

definition pretool_resolution :: "pyenv \<Rightarrow> dict \<Rightarrow> json \<Rightarrow> string + dict" where
  "pretool_resolution E expected payload =
     (if \<not> has_keys expected [''recipient'', ''message'', ''summary''] then Inl ''sendmessage_payload_mismatch''
      else
        case (jget expected ''recipient'', jget expected ''message'', jget expected ''summary'', proposal payload) of
          (Some (JStr recipient), Some (JStr message), Some (JStr summary), Some input) \<Rightarrow>
            if \<not> target_ref recipient \<or> \<not> valid_summary E (JStr summary) then Inl ''sendmessage_payload_mismatch''
            else if \<not> jkeys input \<subseteq> keyset SENDMESSAGE_TOOL_INPUT_KEYS then Inl ''sendmessage_payload_mismatch''
            else if jget input ''recipient_kind'' \<noteq> None \<and> \<not> field_is input ''recipient_kind'' (lit ''name'')
            then Inl ''sendmessage_payload_mismatch''
            else
              (case bounded_message message of
                 Inl _ \<Rightarrow> Inl ''sendmessage_payload_mismatch''
               | Inr _ \<Rightarrow> Inr (authoritative_tool_input recipient message summary))
        | _ \<Rightarrow> Inl ''sendmessage_payload_mismatch'')"

section \<open>The gate directory\<close>

text \<open>
  \<open>Unopenable\<close> is an entry that cannot be opened without following a link; \<open>GateFile private data\<close> tells whether
  it is a regular file of the user with mode 0600. \<open>gs_private\<close> is the same for the directory (0700).
\<close>

datatype gate_file = Missing | Unopenable | GateFile bool bytes

record gate_state =
  gs_private :: bool
  gs_expected :: gate_file
  gs_consumed :: gate_file
  gs_denied :: gate_file

definition DENIAL_MARKERS :: "string list" where
  "DENIAL_MARKERS =
     [''pretool_gate_denied'', ''sendmessage_payload_mismatch'', ''sendmessage_target_mismatch'',
      ''sendmessage_message_mismatch'', ''sendmessage_type_mismatch'', ''sendmessage_summary_mismatch'']"

definition denial_marker :: "string \<Rightarrow> bytes" where
  "denial_marker phase =
     (if phase = ''pretool_gate_denied'' \<or> phase \<notin> set DENIAL_MARKERS then lit ''denied'' @ [10] else lit phase @ [10])"

definition CONSUMED :: bytes where "CONSUMED = lit ''consumed'' @ [10]"

text \<open>
  A marker is created exclusively and written. \<open>MarkerRefused\<close>: the open fails; \<open>MarkerBroken n\<close>: writing fails after n
  bytes reached the file.
\<close>

datatype marker_fault = MarkerWritten | MarkerRefused | MarkerBroken nat

definition create_marker :: "marker_fault \<Rightarrow> bytes \<Rightarrow> gate_file \<Rightarrow> unit res \<times> gate_file" where
  "create_marker f value current =
     (if current \<noteq> Missing then (Inl OSError, current)
      else
        case f of
          MarkerWritten \<Rightarrow> (Inr (), GateFile True value)
        | MarkerRefused \<Rightarrow> (Inl OSError, Missing)
        | MarkerBroken n \<Rightarrow> (Inl OSError, GateFile True (take n value)))"

definition read_gate_expectation :: "gate_file \<Rightarrow> str res" where
  "read_gate_expectation f =
     (case f of
        GateFile own raw \<Rightarrow>
          if \<not> own \<or> MAX_GATE_EXPECTATION_BYTES < length raw then fail ''pre-tool expectation is unsafe''
          else (case utf8_decode False raw of None \<Rightarrow> Inl UnicodeError | Some t \<Rightarrow> Inr t)
      | _ \<Rightarrow> Inl OSError)"

section \<open>One run of the hook\<close>

text \<open>\<open>ga_path\<close> is the check of the path itself, \<open>ga_parent\<close> the one of its directory.\<close>

record gate_attempt =
  ga_path :: "unit res"
  ga_parent :: "unit res"
  ga_stdin :: "str res"
  ga_consume :: marker_fault
  ga_deny :: marker_fault

definition is_gate_error :: "exn \<Rightarrow> bool" where
  "is_gate_error e \<longleftrightarrow> is_os_error e \<or> e = UnicodeError \<or> e = JSONDecodeError \<or> is_chat_error e"

definition gate_decision :: "pyenv \<Rightarrow> gate_attempt \<Rightarrow> gate_state \<Rightarrow> (string + dict) res" where
  "gate_decision E ga s =
     bind (read_gate_expectation (gs_expected s)) (\<lambda>tx.
     bind (loads (float_parse E) tx) (\<lambda>expected_raw.
     bind (ga_stdin ga) (\<lambda>all.
     let payload_text = take 65537 all in
     bind (loads (float_parse E) payload_text) (\<lambda>payload.
     case expected_raw of
       JObj expected \<Rightarrow>
         (case utf8_encode payload_text of
            None \<Rightarrow> Inl UnicodeError
          | Some encoded \<Rightarrow>
              if 65536 < length encoded then Inr (Inl ''pretool_gate_denied'')
              else Inr (pretool_resolution E expected payload))
     | _ \<Rightarrow> Inr (Inl ''pretool_gate_denied'')))))"

definition hook_output :: "dict option \<Rightarrow> json" where
  "hook_output arguments =
     JObj [(lit ''hookSpecificOutput'', JObj (
       [(lit ''hookEventName'', JStr (lit ''PreToolUse'')),
        (lit ''permissionDecision'', JStr (lit (if arguments \<noteq> None then ''allow'' else ''deny''))),
        (lit ''permissionDecisionReason'',
           JStr (lit (if arguments \<noteq> None then ''Exact Cross Agent Chat action''
                      else ''Cross Agent Chat rejected a mismatched action'')))] @
       (case arguments of None \<Rightarrow> [] | Some a \<Rightarrow> [(lit ''updatedInput'', JObj a)])))]"

definition denied_at :: "gate_attempt \<Rightarrow> string \<Rightarrow> gate_state \<Rightarrow> gate_state" where
  "denied_at ga phase s = s\<lparr>gs_denied := snd (create_marker (ga_deny ga) (denial_marker phase) (gs_denied s))\<rparr>"

text \<open>\<open>Inr (Some a)\<close>: the call is allowed with the arguments a; \<open>Inr None\<close>: it is denied. \<open>Inl\<close>: the hook dies without an answer.\<close>

definition run_pretool_gate :: "pyenv \<Rightarrow> gate_attempt \<Rightarrow> gate_state \<Rightarrow> dict option res \<times> gate_state" where
  "run_pretool_gate E ga s =
     (case bind (ga_path ga) (\<lambda>_. bind (ga_parent ga) (\<lambda>_.
             if gs_private s then Inr () else fail ''pre-tool gate directory is unsafe'')) of
        Inl e \<Rightarrow> (if is_gate_error e then Inr None else Inl e, s)
      | Inr _ \<Rightarrow>
          (case gate_decision E ga s of
             Inl e \<Rightarrow> if is_gate_error e then (Inr None, denied_at ga ''pretool_gate_denied'' s) else (Inl e, s)
           | Inr (Inl phase) \<Rightarrow> (Inr None, denied_at ga phase s)
           | Inr (Inr arguments) \<Rightarrow>
               (case create_marker (ga_consume ga) CONSUMED (gs_consumed s) of
                  (Inr _, f) \<Rightarrow> (Inr (Some arguments), s\<lparr>gs_consumed := f\<rparr>)
                | (Inl _, f) \<Rightarrow> (Inr None, denied_at ga ''pretool_gate_denied'' (s\<lparr>gs_consumed := f\<rparr>)))))"

section \<open>What the sender reads\<close>

definition claude_unknown :: "string \<Rightarrow> 'a res" where
  "claude_unknown phase = Inl (ClaudeSendMessageUnknownDelivery (lit phase))"

definition gate_marker :: "gate_state \<Rightarrow> gate_file \<Rightarrow> bytes list \<Rightarrow> bytes option res" where
  "gate_marker s f allowed =
     (if \<not> gs_private s then claude_unknown ''pretool_gate_unreadable''
      else
        case f of
          Missing \<Rightarrow> Inr None
        | Unopenable \<Rightarrow> claude_unknown ''pretool_gate_unreadable''
        | GateFile own raw \<Rightarrow>
            (let value = take (foldr max (map length allowed) 0 + 1) raw in
             if \<not> own \<or> value \<notin> set allowed then claude_unknown ''pretool_gate_unreadable'' else Inr (Some value)))"

definition gate_consumed :: "gate_state \<Rightarrow> bool res" where
  "gate_consumed s =
     bind (gate_marker s (gs_consumed s) [CONSUMED]) (\<lambda>consumed.
     bind (gate_marker s (gs_denied s) (map denial_marker DENIAL_MARKERS)) (\<lambda>denied.
     if consumed \<noteq> None \<and> denied \<noteq> None then claude_unknown ''pretool_gate_conflict''
     else Inr (consumed \<noteq> None)))"

section \<open>Any number of calls at one gate\<close>

text \<open>The hook runs once for each call the courier model makes; all of them meet the same gate.\<close>

fun gate_runs :: "pyenv \<Rightarrow> gate_attempt list \<Rightarrow> gate_state \<Rightarrow> dict option res list \<times> gate_state" where
  "gate_runs E [] s = ([], s)"
| "gate_runs E (ga # gas) s =
     (case run_pretool_gate E ga s of
        (answer, s1) \<Rightarrow> (case gate_runs E gas s1 of (answers, s2) \<Rightarrow> (answer # answers, s2)))"

definition allowed_call :: "dict option res \<Rightarrow> bool" where
  "allowed_call answer \<longleftrightarrow> (case answer of Inr (Some _) \<Rightarrow> True | _ \<Rightarrow> False)"

lemma allowed_call_simps [simp]: "allowed_call (Inr (Some a))" "\<not> allowed_call (Inr None)" "\<not> allowed_call (Inl e)"
  by (simp_all add: allowed_call_def)

lemma no_allowed: "filter allowed_call xs = [] \<Longrightarrow> Inr (Some a) \<notin> set xs"
  by (induction xs) (auto split: if_splits)

text \<open>The arguments are those of the expectation, and the body is a bounded message.\<close>

definition authoritative :: "pyenv \<Rightarrow> gate_file \<Rightarrow> dict \<Rightarrow> bool" where
  "authoritative E expectation arguments \<longleftrightarrow>
     (\<exists>tx x recipient message summary. read_gate_expectation expectation = Inr tx \<and> loads (float_parse E) tx = Inr (JObj x) \<and>
        has_keys x [''recipient'', ''message'', ''summary''] \<and> jget x ''recipient'' = Some (JStr recipient) \<and>
        jget x ''message'' = Some (JStr message) \<and> jget x ''summary'' = Some (JStr summary) \<and> target_ref recipient \<and>
        is_ok (bounded_message message) \<and> arguments = authoritative_tool_input recipient message summary)"

lemma resolution_arguments:
  assumes "pretool_resolution E x payload = Inr arguments"
  obtains recipient message summary where "has_keys x [''recipient'', ''message'', ''summary'']"
    "jget x ''recipient'' = Some (JStr recipient)" "jget x ''message'' = Some (JStr message)"
    "jget x ''summary'' = Some (JStr summary)" "target_ref recipient" "is_ok (bounded_message message)"
    "arguments = authoritative_tool_input recipient message summary"
  using assms by (auto simp: pretool_resolution_def is_ok_def split: if_splits option.splits json.splits sum.splits)

lemma decision_authoritative:
  assumes "gate_decision E ga s = Inr (Inr arguments)"
  shows "authoritative E (gs_expected s) arguments"
proof -
  from assms obtain tx raw all payload where h: "read_gate_expectation (gs_expected s) = Inr tx" "loads (float_parse E) tx = Inr raw"
    "(case raw of
       JObj expected \<Rightarrow>
         (case utf8_encode (take 65537 all) of
            None \<Rightarrow> Inl UnicodeError
          | Some encoded \<Rightarrow>
              if 65536 < length encoded then Inr (Inl ''pretool_gate_denied'')
              else Inr (pretool_resolution E expected payload))
     | _ \<Rightarrow> Inr (Inl ''pretool_gate_denied'')) = (Inr (Inr arguments) :: (string + dict) res)"
    unfolding gate_decision_def Let_def bind_Inr_iff by blast
  then obtain x where x: "raw = JObj x" "pretool_resolution E x payload = Inr arguments"
    by (cases raw) (auto split: option.splits if_splits)
  from x(2) show ?thesis
    by (rule resolution_arguments) (use h(1,2) x(1) in \<open>auto simp: authoritative_def\<close>)
qed

lemma denied_at_fields [simp]:
  "gs_consumed (denied_at ga phase s) = gs_consumed s" "gs_expected (denied_at ga phase s) = gs_expected s"
  "gs_private (denied_at ga phase s) = gs_private s"
  by (simp_all add: denied_at_def)

text \<open>A run either is the one that leaves the marker, or it does not touch it and allows nothing.\<close>

lemma run_gate_cases:
  assumes "run_pretool_gate E ga s = (answer, s')"
  obtains (Allowed) a where "answer = Inr (Some a)" "gs_consumed s = Missing" "gs_consumed s' = GateFile True CONSUMED"
      "gate_decision E ga s = Inr (Inr a)" "gs_expected s' = gs_expected s" "gs_private s'"
    | (Broken) a n where "answer = Inr None" "gs_consumed s = Missing" "gs_consumed s' = GateFile True (take n CONSUMED)"
      "gate_decision E ga s = Inr (Inr a)" "gs_expected s' = gs_expected s"
    | (Refused) "\<not> allowed_call answer" "gs_consumed s' = gs_consumed s" "gs_expected s' = gs_expected s"
  using assms that
  by (auto simp: run_pretool_gate_def allowed_call_def create_marker_def res_simps split: sum.splits if_splits prod.splits marker_fault.splits)

lemma spent_gate:
  assumes "gate_runs E gas s = (answers, s')" "gs_consumed s \<noteq> Missing"
  shows "gs_consumed s' = gs_consumed s \<and> (\<forall>x \<in> set answers. \<not> allowed_call x)"
  using assms
proof (induction gas arbitrary: s answers)
  case (Cons ga gas)
  obtain x s1 xs where x: "run_pretool_gate E ga s = (x, s1)" "gate_runs E gas s1 = (xs, s')" "answers = x # xs"
    using Cons.prems(1) by (auto split: prod.splits)
  from x(1) have "\<not> allowed_call x \<and> gs_consumed s1 = gs_consumed s"
    by (rule run_gate_cases) (use Cons.prems(2) in auto)
  with Cons.IH [OF x(2)] Cons.prems(2) x(3) show ?case by auto
qed simp

lemma gate_runs_expected: "gate_runs E gas s = (answers, s') \<Longrightarrow> gs_expected s' = gs_expected s"
proof (induction gas arbitrary: s answers)
  case (Cons ga gas)
  obtain x s1 xs where x: "run_pretool_gate E ga s = (x, s1)" "gate_runs E gas s1 = (xs, s')"
    using Cons.prems(1) by (auto split: prod.splits)
  from x(1) have "gs_expected s1 = gs_expected s" by (rule run_gate_cases) simp_all
  with Cons.IH [OF x(2)] show ?case by simp
qed simp

lemma gate_run_markers:
  assumes "gate_runs E gas s = (answers, s')" "gs_consumed s = Missing"
  shows "length (filter allowed_call answers) \<le> 1 \<and>
    (\<forall>a. Inr (Some a) \<in> set answers \<longrightarrow> authoritative E (gs_expected s) a) \<and>
    (gs_consumed s' = Missing \<longrightarrow> filter allowed_call answers = []) \<and>
    (filter allowed_call answers \<noteq> [] \<longrightarrow> gs_consumed s' = GateFile True CONSUMED) \<and>
    (gs_consumed s' \<noteq> Missing \<longrightarrow> (\<exists>a. authoritative E (gs_expected s) a)) \<and> gs_expected s' = gs_expected s"
  using assms
proof (induction gas arbitrary: s answers)
  case (Cons ga gas)
  obtain x s1 xs where x: "run_pretool_gate E ga s = (x, s1)" "gate_runs E gas s1 = (xs, s')" "answers = x # xs"
    using Cons.prems(1) by (auto split: prod.splits)
  from x(1) show ?case
  proof (cases rule: run_gate_cases)
    case (Allowed a)
    with spent_gate [OF x(2)] have "gs_consumed s' = GateFile True CONSUMED" "filter allowed_call xs = []"
      by (auto simp: filter_empty_conv)
    moreover have "gs_expected s' = gs_expected s" using gate_runs_expected [OF x(2)] Allowed(5) by simp
    moreover have "Inr (Some b) \<notin> set xs" for b by (rule no_allowed [OF calculation(2)])
    ultimately show ?thesis using decision_authoritative [OF Allowed(4)] x(3) Allowed(1) by auto
  next
    case (Broken a n)
    with spent_gate [OF x(2)] have "gs_consumed s' = GateFile True (take n CONSUMED)" "filter allowed_call xs = []"
      by (auto simp: filter_empty_conv)
    moreover have "gs_expected s' = gs_expected s" using gate_runs_expected [OF x(2)] Broken(5) by simp
    moreover have "Inr (Some b) \<notin> set xs" for b by (rule no_allowed [OF calculation(2)])
    ultimately show ?thesis using decision_authoritative [OF Broken(4)] x(3) Broken(1) by auto
  next
    case Refused
    then have "gs_consumed s1 = Missing" using Cons.prems(2) by simp
    note ih = Cons.IH [OF x(2) this]
    have f: "filter allowed_call answers = filter allowed_call xs" using Refused(1) by (simp add: x(3))
    have m: "Inr (Some a) \<in> set answers \<longleftrightarrow> Inr (Some a) \<in> set xs" for a using Refused(1) by (auto simp: x(3))
    show ?thesis using ih unfolding f m Refused(3) .
  qed
qed simp

lemma gate_consumed_marker:
  "gate_consumed s = Inr True \<Longrightarrow> gs_consumed s \<noteq> Missing"
  "gate_consumed s = Inr False \<Longrightarrow> gs_consumed s = Missing"
  by (auto simp: gate_consumed_def gate_marker_def claude_unknown_def Let_def res_simps split: if_splits gate_file.splits)

end
