(* ===== verification/ClaudeSend.thy ===== *)
theory ClaudeSend
  imports ClaudeGate Discovery
begin

text \<open>
  One native Claude delivery in claude_runtime.py: what the sender concludes from the gate and from the
  event stream of the courier model.
\<close>

definition invalid_stream :: "'a res" where
  "invalid_stream = claude_unknown ''helper_stream_invalid''"

definition SEND_SUMMARY :: str where "SEND_SUMMARY = lit ''Cross Agent Chat''"

section \<open>Results of the tool\<close>

definition REFUSAL_RESULT_KEYS :: "string list" where
  "REFUSAL_RESULT_KEYS = [''success'', ''message'', ''display'']"

text \<open>Text that is not JSON is \<open>None\<close>; an integer of too many digits raises.\<close>

definition result_text_payload :: "pyenv \<Rightarrow> dict \<Rightarrow> dict option res" where
  "result_text_payload E result =
     (case jget result ''content'' of
        Some (JArr [JObj block]) \<Rightarrow>
          if \<not> has_keys block [''type'', ''text''] \<or> \<not> field_is block ''type'' (lit ''text'') then Inr None
          else
            (case jget block ''text'' of
               Some (JStr t) \<Rightarrow>
                 (case loads (float_parse E) t of
                    Inl JSONDecodeError \<Rightarrow> Inr None
                  | Inl e \<Rightarrow> Inl e
                  | Inr (JObj payload) \<Rightarrow> Inr (Some payload)
                  | Inr _ \<Rightarrow> Inr None)
             | _ \<Rightarrow> Inr None)
      | _ \<Rightarrow> Inr None)"

definition refusal_reason :: "dict option \<Rightarrow> str option" where
  "refusal_reason payload =
     (case payload of
        None \<Rightarrow> None
      | Some p \<Rightarrow>
          if keyset [''success'', ''message''] \<subseteq> jkeys p \<and> jkeys p \<subseteq> keyset REFUSAL_RESULT_KEYS \<and>
             jget p ''success'' = Some (JBool False) \<and>
             (case jget p ''display'' of None \<Rightarrow> True | Some v \<Rightarrow> as_str (Some v) \<noteq> None)
          then as_str (jget p ''message'') else None)"

section \<open>The event stream\<close>

definition STREAM_RECORD_TYPES :: "string list" where
  "STREAM_RECORD_TYPES = [''system'', ''assistant'', ''user'', ''rate_limit_event'']"

definition INERT_BLOCK_TYPES :: "string list" where
  "INERT_BLOCK_TYPES = [''text'', ''thinking'', ''redacted_thinking'']"

definition TERMINAL_INT_FIELDS :: "string list" where
  "TERMINAL_INT_FIELDS = [''num_turns'', ''result_index'', ''queued_turn_count'']"

definition terminal_shape :: "dict \<Rightarrow> bool" where
  "terminal_shape r \<longleftrightarrow>
     field_is r ''type'' (lit ''result'') \<and> as_str (jget r ''subtype'') \<noteq> None \<and>
     (case jget r ''is_error'' of Some (JBool _) \<Rightarrow> True | _ \<Rightarrow> False) \<and>
     (case jget r ''stop_reason'' of Some JNull \<Rightarrow> True | Some (JStr _) \<Rightarrow> True | _ \<Rightarrow> False) \<and>
     as_str (jget r ''terminal_reason'') \<noteq> None \<and>
     (case jget r ''permission_denials'' of Some (JArr _) \<Rightarrow> True | _ \<Rightarrow> False) \<and>
     list_all (\<lambda>f. case jget r f of Some (JInt _) \<Rightarrow> True | _ \<Rightarrow> False) TERMINAL_INT_FIELDS"

definition stream_line :: "pyenv \<Rightarrow> str \<Rightarrow> dict res" where
  "stream_line E line =
     bind (loads (float_parse E) line) (\<lambda>v.
     case v of
       JObj d \<Rightarrow> if as_str (jget d ''type'') = None then invalid_stream else Inr d
     | _ \<Rightarrow> invalid_stream)"

definition stream_records :: "pyenv \<Rightarrow> str \<Rightarrow> dict list res" where
  "stream_records E tx =
     (case utf8_encode tx of
        None \<Rightarrow> invalid_stream
      | Some encoded \<Rightarrow>
          if 64 * 1024 < length encoded then invalid_stream
          else
            (case map_res (stream_line E) (filter (\<lambda>l. l \<noteq> []) (splitlines tx)) of
               Inl JSONDecodeError \<Rightarrow> invalid_stream
             | r \<Rightarrow> r))"

text \<open>The blocks of a record that have to be looked at.\<close>

definition record_blocks :: "dict \<Rightarrow> str \<Rightarrow> json list option res" where
  "record_blocks r kind =
     (if kind \<noteq> lit ''result'' \<and> \<not> list_ex (\<lambda>t. kind = lit t) STREAM_RECORD_TYPES then invalid_stream
      else if kind = lit ''assistant'' \<or> kind = lit ''user'' then
        (case jget r ''message'' of
           Some (JObj m) \<Rightarrow>
             if jget m ''role'' \<noteq> None \<and> \<not> field_is m ''role'' kind then invalid_stream
             else (case jget m ''content'' of Some (JArr blocks) \<Rightarrow> Inr (Some blocks) | _ \<Rightarrow> invalid_stream)
         | _ \<Rightarrow> invalid_stream)
      else
        (case jget r ''message'' of
           Some (JObj m) \<Rightarrow>
             (case jget m ''content'' of None \<Rightarrow> Inr None | Some (JArr blocks) \<Rightarrow> Inr (Some blocks) | Some _ \<Rightarrow> invalid_stream)
         | _ \<Rightarrow> Inr None))"

record stream_state =
  ss_uses :: "dict list"
  ss_results :: "dict list"
  ss_use_ids :: "str list"
  ss_answered :: "str list"

definition use_block :: "dict \<Rightarrow> stream_state \<Rightarrow> stream_state res" where
  "use_block b st =
     (case jget b ''id'' of
        Some (JStr use_id) \<Rightarrow>
          if \<not> field_is b ''name'' (lit ''SendMessage'') \<or> use_id = [] \<or> use_id \<in> set (ss_use_ids st) then invalid_stream
          else Inr (st\<lparr>ss_use_ids := ss_use_ids st @ [use_id], ss_uses := ss_uses st @ [b]\<rparr>)
      | _ \<Rightarrow> invalid_stream)"

definition result_block :: "pyenv \<Rightarrow> dict \<Rightarrow> stream_state \<Rightarrow> stream_state res" where
  "result_block E b st =
     (if \<not> (keyset [''type'', ''tool_use_id'', ''content''] \<subseteq> jkeys b \<and>
            jkeys b \<subseteq> keyset [''type'', ''tool_use_id'', ''content'', ''is_error''])
      then invalid_stream
      else if jget b ''is_error'' \<noteq> None \<and> jget b ''is_error'' \<noteq> Some (JBool False) then invalid_stream
      else
        (case jget b ''tool_use_id'' of
           Some (JStr result_id) \<Rightarrow>
             if result_id \<notin> set (ss_use_ids st) \<or> result_id \<in> set (ss_answered st) then invalid_stream
             else
               bind (result_text_payload E b) (\<lambda>payload.
               if payload = None then invalid_stream
               else Inr (st\<lparr>ss_answered := ss_answered st @ [result_id], ss_results := ss_results st @ [b]\<rparr>))
         | _ \<Rightarrow> invalid_stream))"

text \<open>\<open>block_type in _INERT_BLOCK_TYPES\<close> hashes the value, so a list or an object raises \<^verbatim>\<open>TypeError\<close>.\<close>

definition stream_block :: "pyenv \<Rightarrow> str \<Rightarrow> nat \<Rightarrow> json \<Rightarrow> stream_state \<Rightarrow> stream_state res" where
  "stream_block E kind n block st =
     (case block of
        JObj b \<Rightarrow>
          bind (case jget b ''type'' of None \<Rightarrow> Inr False | Some v \<Rightarrow> hashed_in v INERT_BLOCK_TYPES) (\<lambda>inert.
          if inert then Inr st
          else if field_is b ''type'' (lit ''tool_use'') \<and> kind = lit ''assistant'' then use_block b st
          else if field_is b ''type'' (lit ''tool_result'') \<and> kind = lit ''user'' \<and> n = 1 then result_block E b st
          else invalid_stream)
      | _ \<Rightarrow> invalid_stream)"

fun stream_blocks :: "pyenv \<Rightarrow> str \<Rightarrow> nat \<Rightarrow> json list \<Rightarrow> stream_state \<Rightarrow> stream_state res" where
  "stream_blocks E kind n [] st = Inr st"
| "stream_blocks E kind n (b # bs) st = bind (stream_block E kind n b st) (stream_blocks E kind n bs)"

fun stream_scan :: "pyenv \<Rightarrow> dict list \<Rightarrow> stream_state \<Rightarrow> stream_state res" where
  "stream_scan E [] st = Inr st"
| "stream_scan E (r # rs) st =
     (case as_str (jget r ''type'') of
        None \<Rightarrow> invalid_stream
      | Some kind \<Rightarrow>
          bind (record_blocks r kind) (\<lambda>found.
          bind (case found of None \<Rightarrow> Inr st | Some blocks \<Rightarrow> stream_blocks E kind (length blocks) blocks st) (stream_scan E rs)))"

definition stream_tool_records :: "pyenv \<Rightarrow> str \<Rightarrow> (dict list \<times> dict list) res" where
  "stream_tool_records E tx =
     bind (stream_records E tx) (\<lambda>records.
     if records = [] \<or> \<not> terminal_shape (last records) \<or> list_ex (\<lambda>r. field_is r ''type'' (lit ''result'')) (butlast records)
     then invalid_stream
     else
       bind (stream_scan E records \<lparr>ss_uses = [], ss_results = [], ss_use_ids = [], ss_answered = []\<rparr>) (\<lambda>st.
       Inr (ss_uses st, ss_results st)))"

section \<open>Conclusions\<close>

definition bad_receipt :: "str res" where
  "bad_receipt = fail ''Claude SendMessage receipt is invalid''"

definition receipt_verdict :: "pyenv \<Rightarrow> dict \<Rightarrow> str res" where
  "receipt_verdict E result =
     bind (result_text_payload E result) (\<lambda>payload.
     case payload of
       None \<Rightarrow> bad_receipt
     | Some p \<Rightarrow>
         (case refusal_reason payload of
            Some reason \<Rightarrow> Inl (ClaudeSendMessageRefused reason)
          | None \<Rightarrow>
              if \<not> has_keys p [''success'', ''message'', ''msg_id''] \<or> jget p ''success'' \<noteq> Some (JBool True) \<or>
                 as_str (jget p ''message'') = None
              then bad_receipt
              else (case as_str (jget p ''msg_id'') of
                      None \<Rightarrow> bad_receipt
                    | Some i \<Rightarrow> valid_uuid i ''courier message id'')))"

definition parse_sendmessage_receipt :: "pyenv \<Rightarrow> str \<Rightarrow> str res" where
  "parse_sendmessage_receipt E tx =
     (case stream_tool_records E tx of
        Inl (ClaudeSendMessageUnknownDelivery _) \<Rightarrow> bad_receipt
      | Inl e \<Rightarrow> Inl e
      | Inr (uses, results) \<Rightarrow>
          (case uses of
             [use] \<Rightarrow>
               if \<not> field_is use ''name'' (lit ''SendMessage'') then bad_receipt
               else
                 (case (jget use ''id'', filter (\<lambda>r. jget r ''tool_use_id'' = jget use ''id'') results) of
                    (Some (JStr _), [result]) \<Rightarrow>
                      if jget result ''is_error'' = Some (JBool True) then bad_receipt else receipt_verdict E result
                  | _ \<Rightarrow> bad_receipt)
           | _ \<Rightarrow> bad_receipt))"

definition denial_reason :: "bytes \<Rightarrow> string" where
  "denial_reason marker =
     (if marker = denial_marker ''pretool_gate_denied'' then ''the Cross Agent Chat gate denied the SendMessage call''
      else ''the courier's SendMessage call did not match the authoritative action'')"

text \<open>What a result under a denied call says: an effect contradicts the denial.\<close>

definition denied_result :: "pyenv \<Rightarrow> dict \<Rightarrow> str res" where
  "denied_result E result =
     bind (result_text_payload E result) (\<lambda>payload.
     case payload of
       None \<Rightarrow> invalid_stream
     | Some p \<Rightarrow>
         if jget p ''success'' = Some (JBool True) \<or> jget p ''msg_id'' \<noteq> None then claude_unknown ''pretool_gate_conflict''
         else (case refusal_reason payload of None \<Rightarrow> invalid_stream | Some reason \<Rightarrow> Inr reason))"

definition unconsumed_gate_outcome :: "pyenv \<Rightarrow> gate_state \<Rightarrow> str \<Rightarrow> unit res" where
  "unconsumed_gate_outcome E s tx =
     bind (gate_marker s (gs_denied s) (map denial_marker DENIAL_MARKERS)) (\<lambda>denied.
     bind (stream_tool_records E tx) (\<lambda>(uses, results).
     case denied of
       Some marker \<Rightarrow>
         if 1 < length uses then claude_unknown ''multiple_sendmessage_tool_use''
         else
           bind (map_res (denied_result E) results) (\<lambda>reasons.
           if uses \<noteq> [] \<and> results = [] then invalid_stream
           else Inl (ClaudeSendMessageRefused
             (case reasons of
                reason # _ \<Rightarrow> reason
              | [] \<Rightarrow> lit ''Claude SendMessage was not delivered: '' @ lit (denial_reason marker))))
     | None \<Rightarrow>
         if uses = [] then Inl (ClaudeSendMessageRefused (lit ''Claude courier finished without a SendMessage call''))
         else if length uses \<noteq> 1 then claude_unknown ''multiple_sendmessage_tool_use''
         else claude_unknown ''pretool_gate_unobserved''))"

section \<open>The delivery\<close>

text \<open>How the courier process ended: \<open>Garbled\<close> is output that is not text, \<open>Ran\<close> carries exit code and output.\<close>

datatype courier_run = RunTimeout | RunFails | RunGarbled | Ran int str

text \<open>\<open>sm_setup\<close> is the making of the directories, the gate file and the command; \<open>sm_run\<close> the process with its hooks.\<close>

record send_call =
  sm_setup :: "unit res"
  sm_run :: "gate_state \<Rightarrow> courier_run \<times> gate_state"

definition expectation :: "str \<Rightarrow> str \<Rightarrow> dict" where
  "expectation target message =
     [(lit ''recipient'', JStr target), (lit ''message'', JStr message), (lit ''summary'', JStr SEND_SUMMARY)]"

definition fresh_gate :: "pyenv \<Rightarrow> str \<Rightarrow> str \<Rightarrow> gate_state" where
  "fresh_gate E target message =
     \<lparr>gs_private = True,
      gs_expected = GateFile True (concat (map utf8_char (dumps (float_repr E) True (JObj (expectation target message))))),
      gs_consumed = Missing, gs_denied = Missing\<rparr>"

definition send_concluded :: "pyenv \<Rightarrow> courier_run \<Rightarrow> gate_state \<Rightarrow> unit res" where
  "send_concluded E run s =
     (case run of
        RunTimeout \<Rightarrow> claude_unknown ''helper_timeout''
      | RunFails \<Rightarrow> claude_unknown ''helper_execution_failed''
      | RunGarbled \<Rightarrow> Inl UnicodeError
      | Ran code out \<Rightarrow>
          if code \<noteq> 0 then claude_unknown ''helper_exit_nonzero''
          else
            bind (gate_consumed s) (\<lambda>consumed.
            if \<not> consumed then unconsumed_gate_outcome E s out
            else
              (case parse_sendmessage_receipt E out of
                 Inr _ \<Rightarrow> Inr ()
               | Inl (ClaudeSendMessageRefused reason) \<Rightarrow> Inl (ClaudeSendMessageRefused reason)
               | Inl e \<Rightarrow> if is_chat_error e then claude_unknown ''receipt_invalid'' else Inl e)))"

definition sendmessage :: "pyenv \<Rightarrow> send_call \<Rightarrow> str \<Rightarrow> str \<Rightarrow> unit res" where
  "sendmessage E sm target message =
     bind (bounded_message message) (\<lambda>_.
     if \<not> target_ref target then fail ''Claude target reference is invalid''
     else
       bind (except_chat is_os_error ''Claude SendMessage courier setup failed'' (sm_setup sm)) (\<lambda>_.
       case sm_run sm (fresh_gate E target message) of (run, s) \<Rightarrow> send_concluded E run s))"

section \<open>A closed tool graph\<close>

definition stream_inv :: "stream_state \<Rightarrow> bool" where
  "stream_inv st \<longleftrightarrow>
     map (\<lambda>u. jget u ''id'') (ss_uses st) = map (\<lambda>i. Some (JStr i)) (ss_use_ids st) \<and> distinct (ss_use_ids st) \<and>
     map (\<lambda>r. jget r ''tool_use_id'') (ss_results st) = map (\<lambda>i. Some (JStr i)) (ss_answered st) \<and>
     distinct (ss_answered st) \<and> set (ss_answered st) \<subseteq> set (ss_use_ids st) \<and>
     list_all (\<lambda>u. field_is u ''name'' (lit ''SendMessage'')) (ss_uses st)"

lemma invalid_stream_neq [simp]: "invalid_stream \<noteq> Inr x" "claude_unknown ph \<noteq> Inr x"
  by (simp_all add: invalid_stream_def claude_unknown_def)

lemma stream_block_inv:
  assumes "stream_inv st" "stream_block E kind n block st = Inr st'"
  shows "stream_inv st'"
proof -
  have "stream_inv st'" if "use_block b st = Inr st'" for b
    using that assms(1) by (auto simp: use_block_def stream_inv_def split: option.splits json.splits if_splits)
  moreover have "stream_inv st'" if "result_block E b st = Inr st'" for b
    using that assms(1) by (auto simp: result_block_def stream_inv_def res_simps split: option.splits json.splits if_splits)
  ultimately show ?thesis
    using assms by (cases block) (auto simp: stream_block_def res_simps split: if_splits)
qed

lemma stream_blocks_inv: "stream_blocks E kind n bs st = Inr st' \<Longrightarrow> stream_inv st \<Longrightarrow> stream_inv st'"
  by (induction bs arbitrary: st) (auto simp: res_simps dest: stream_block_inv)

lemma stream_scan_inv: "stream_scan E rs st = Inr st' \<Longrightarrow> stream_inv st \<Longrightarrow> stream_inv st'"
  by (induction rs arbitrary: st) (auto simp: res_simps split: option.splits dest: stream_blocks_inv)

lemma stream_tool_recordsD:
  assumes "stream_tool_records E tx = Inr (uses, results)"
  obtains ids answered where "map (\<lambda>u. jget u ''id'') uses = map (\<lambda>i. Some (JStr i)) ids" "distinct ids"
    "map (\<lambda>r. jget r ''tool_use_id'') results = map (\<lambda>i. Some (JStr i)) answered" "distinct answered"
    "set answered \<subseteq> set ids" "list_all (\<lambda>u. field_is u ''name'' (lit ''SendMessage'')) uses"
proof -
  have "stream_inv \<lparr>ss_uses = [], ss_results = [], ss_use_ids = [], ss_answered = []\<rparr>" by (simp add: stream_inv_def)
  with assms obtain st where "stream_inv st" "uses = ss_uses st" "results = ss_results st"
    by (auto simp: stream_tool_records_def res_simps split: if_splits dest: stream_scan_inv)
  then show thesis using that unfolding stream_inv_def by blast
qed

text \<open>Evidence of an effect: success, or the identifier of a message.\<close>

definition effect_result :: "pyenv \<Rightarrow> dict \<Rightarrow> bool" where
  "effect_result E result \<longleftrightarrow>
     (case result_text_payload E result of
        Inr (Some p) \<Rightarrow> jget p ''success'' = Some (JBool True) \<or> jget p ''msg_id'' \<noteq> None
      | _ \<Rightarrow> False)"

lemma refusal_no_effect:
  assumes "refusal_reason (Some p) = Some reason"
  shows "jget p ''success'' = Some (JBool False) \<and> jget p ''msg_id'' = None"
proof -
  have "lit ''msg_id'' \<notin> keyset REFUSAL_RESULT_KEYS" by (simp add: keyset_def REFUSAL_RESULT_KEYS_def)
  then have "lit ''msg_id'' \<notin> fst ` set p" using assms by (auto simp: refusal_reason_def jkeys_def split: if_splits)
  then show ?thesis using assms by (auto simp: refusal_reason_def map_of_eq_None_iff split: if_splits)
qed

text \<open>With one use there is at most one result, and it answers that use.\<close>

lemma single_use:
  assumes "stream_tool_records E tx = Inr ([use], results)"
  shows "results = [] \<or> (\<exists>r. results = [r] \<and> jget r ''tool_use_id'' = jget use ''id'')"
proof -
  from assms obtain i answered where a: "jget use ''id'' = Some (JStr i)" "distinct answered" "set answered \<subseteq> {i}"
    "map (\<lambda>r. jget r ''tool_use_id'') results = map (\<lambda>i. Some (JStr i)) answered"
    by (rule stream_tool_recordsD) (auto simp: map_eq_Cons_conv)
  from a(2,3) have "answered = [] \<or> answered = [i]"
    by (cases answered; cases "tl answered") auto
  with a(1,4) show ?thesis by auto
qed

text \<open>What reading a stream can raise: it is invalid, or it made the reader itself fail.\<close>

definition reading_error :: "exn \<Rightarrow> bool" where
  "reading_error e \<longleftrightarrow>
     e = ClaudeSendMessageUnknownDelivery (lit ''helper_stream_invalid'') \<or> e = ValueError \<or> e = OtherError"

lemma reading_simps [simp]:
  "reading_error (ClaudeSendMessageUnknownDelivery (lit ''helper_stream_invalid''))" "reading_error ValueError" "reading_error OtherError"
  by (simp_all add: reading_error_def)

lemma invalid_reading [simp]: "invalid_stream = Inl e \<longleftrightarrow> e = ClaudeSendMessageUnknownDelivery (lit ''helper_stream_invalid'')"
  by (auto simp: invalid_stream_def claude_unknown_def)

lemma payload_reading: "result_text_payload E r = Inl e \<Longrightarrow> e = ValueError"
  by (auto simp: result_text_payload_def dest!: loads_error split: option.splits json.splits list.splits if_splits sum.splits exn.splits)

lemma hashed_in_error: "hashed_in v xs = Inl e \<Longrightarrow> e = OtherError"
  by (cases v) auto

lemma block_reading: "stream_block E kind n block st = Inl e \<Longrightarrow> reading_error e"
  by (auto simp: stream_block_def use_block_def result_block_def reading_error_def bind_Inl_iff
      dest: payload_reading hashed_in_error split: json.splits option.splits if_splits)

lemma blocks_reading: "stream_blocks E kind n bs st = Inl e \<Longrightarrow> reading_error e"
  by (induction bs arbitrary: st) (auto simp: bind_Inl_iff dest: block_reading)

lemma record_blocks_reading: "record_blocks r kind = Inl e \<Longrightarrow> reading_error e"
  by (auto simp: record_blocks_def reading_error_def split: option.splits json.splits if_splits)

lemma scan_reading: "stream_scan E rs st = Inl e \<Longrightarrow> reading_error e"
proof (induction rs arbitrary: st)
  case (Cons r rs)
  then show ?case
    by (auto simp: bind_Inl_iff split: option.splits dest: record_blocks_reading blocks_reading)
qed simp

lemma line_reading: "stream_line E l = Inl e \<Longrightarrow> e = JSONDecodeError \<or> reading_error e"
proof (cases "loads (float_parse E) l")
  case (Inr v)
  then show "stream_line E l = Inl e \<Longrightarrow> ?thesis" by (cases v) (auto simp: stream_line_def split: if_splits)
qed (auto simp: stream_line_def dest: loads_error)

lemma records_reading: "stream_records E tx = Inl e \<Longrightarrow> reading_error e"
proof -
  let ?ls = "map_res (stream_line E) (filter (\<lambda>l. l \<noteq> []) (splitlines tx))"
  have line: "e = JSONDecodeError \<or> reading_error e" if "?ls = Inl e" for e
    using map_res_Inl_set [OF that] line_reading by blast
  assume "stream_records E tx = Inl e"
  then have "reading_error e \<or> (case ?ls of Inl JSONDecodeError \<Rightarrow> invalid_stream | r \<Rightarrow> r) = Inl e"
    by (auto simp: stream_records_def split: option.splits if_splits)
  then show ?thesis using line by (cases ?ls) (auto split: exn.splits)
qed

lemma stream_reading: "stream_tool_records E tx = Inl e \<Longrightarrow> reading_error e"
  by (auto simp: stream_tool_records_def bind_Inl_iff split: if_splits dest: records_reading scan_reading)

section \<open>Receipts\<close>

lemma verdict_cases:
  "receipt_verdict E result = bad_receipt \<or> receipt_verdict E result = Inl ValueError \<or>
   (\<exists>p t. result_text_payload E result = Inr (Some p) \<and> refusal_reason (Some p) = Some t \<and>
      receipt_verdict E result = Inl (ClaudeSendMessageRefused t)) \<or>
   (\<exists>p i. result_text_payload E result = Inr (Some p) \<and> jget p ''success'' = Some (JBool True) \<and>
      jget p ''msg_id'' = Some (JStr i) \<and> receipt_verdict E result = valid_uuid i ''courier message id'')"
proof (cases "result_text_payload E result")
  case (Inl e)
  with payload_reading [OF Inl] show ?thesis by (simp add: receipt_verdict_def)
next
  case (Inr x)
  show ?thesis
  proof (cases x)
    case (Some p)
    with Inr show ?thesis by (cases "refusal_reason x") (auto simp: receipt_verdict_def split: option.splits)
  qed (use Inr in \<open>simp add: receipt_verdict_def\<close>)
qed

text \<open>The verdict is over the one result of the one use, or the receipt is bad.\<close>

lemma receipt_cases:
  "parse_sendmessage_receipt E tx = bad_receipt \<or>
   (\<exists>e. parse_sendmessage_receipt E tx = Inl e \<and> (e = ValueError \<or> e = OtherError)) \<or>
   (\<exists>use result. stream_tool_records E tx = Inr ([use], [result]) \<and> parse_sendmessage_receipt E tx = receipt_verdict E result)"
proof (cases "stream_tool_records E tx")
  case (Inl e)
  with stream_reading [OF Inl] show ?thesis by (auto simp: parse_sendmessage_receipt_def reading_error_def)
next
  case (Inr x)
  obtain uses results where x: "x = (uses, results)" by (cases x)
  show ?thesis
  proof (cases "\<exists>use. uses = [use]")
    case True
    then obtain use where u: "uses = [use]" by blast
    with Inr x have "results = [] \<or> (\<exists>r. results = [r] \<and> jget r ''tool_use_id'' = jget use ''id'')" by (intro single_use) simp
    with Inr x u show ?thesis by (auto simp: parse_sendmessage_receipt_def split: option.splits json.splits if_splits)
  next
    case False
    with Inr x show ?thesis by (auto simp: parse_sendmessage_receipt_def split: list.splits)
  qed
qed

lemma bad_receipt_neq [simp]:
  "bad_receipt \<noteq> Inr x" "Inr x \<noteq> bad_receipt" "bad_receipt \<noteq> Inl (ClaudeSendMessageRefused t)" "Inl (ClaudeSendMessageRefused t) \<noteq> bad_receipt"
  by (simp_all add: bad_receipt_def fail_def)

lemma decided_errors:
  "bad_receipt = Inl e \<Longrightarrow> is_chat_error e" "Inl e = bad_receipt \<Longrightarrow> is_chat_error e"
  "valid_uuid i f = Inl e \<Longrightarrow> is_chat_error e" "Inl e = valid_uuid i f \<Longrightarrow> is_chat_error e"
  by (auto simp: bad_receipt_def fail_def valid_uuid_def split: if_splits option.splits)

lemma valid_uuid_refused [simp]: "valid_uuid i f \<noteq> Inl (ClaudeSendMessageRefused t)"
  by (auto simp: valid_uuid_def fail_def split: option.splits)

lemma receipt_accepted:
  assumes "parse_sendmessage_receipt E tx = Inr i"
  shows "\<exists>use result. stream_tool_records E tx = Inr ([use], [result]) \<and> effect_result E result"
proof -
  from assms receipt_cases [of E tx] obtain use result where r: "stream_tool_records E tx = Inr ([use], [result])"
    "receipt_verdict E result = Inr i" by auto
  with verdict_cases [of E result] show ?thesis by (auto simp: effect_result_def)
qed

lemma receipt_refused:
  assumes "parse_sendmessage_receipt E tx = Inl (ClaudeSendMessageRefused t)"
  shows "\<exists>use result. stream_tool_records E tx = Inr ([use], [result]) \<and> \<not> effect_result E result"
proof -
  from assms receipt_cases [of E tx] obtain use result where r: "stream_tool_records E tx = Inr ([use], [result])"
    "receipt_verdict E result = Inl (ClaudeSendMessageRefused t)" by auto
  with verdict_cases [of E result] refusal_no_effect show ?thesis by (fastforce simp: effect_result_def)
qed

section \<open>Refusals\<close>

lemma denied_result_cases:
  "result_text_payload E r = Inl e \<and> denied_result E r = Inl e \<or>
   result_text_payload E r = Inr None \<and> denied_result E r = invalid_stream \<or>
   effect_result E r \<and> denied_result E r = claude_unknown ''pretool_gate_conflict'' \<or>
   \<not> effect_result E r \<and> (denied_result E r = invalid_stream \<or> (\<exists>reason. denied_result E r = Inr reason))"
  if "\<forall>e'. result_text_payload E r = Inl e' \<longrightarrow> e' = e"
proof (cases "result_text_payload E r")
  case (Inr x)
  then show ?thesis
    by (cases x; cases "refusal_reason x") (auto simp: denied_result_def effect_result_def)
qed (use that in \<open>auto simp: denied_result_def\<close>)

lemma denied_no_effect: "denied_result E r = Inr reason \<Longrightarrow> \<not> effect_result E r"
  using denied_result_cases [of E r ValueError] payload_reading by fastforce

lemma denied_errors: "denied_result E r \<noteq> Inl (ClaudeSendMessageRefused t)"
  using denied_result_cases [of E r ValueError] payload_reading by (fastforce simp: claude_unknown_def)

lemma map_res_each: "map_res f xs = Inr ys \<Longrightarrow> x \<in> set xs \<Longrightarrow> \<exists>y. f x = Inr y"
  by (induction xs arbitrary: ys) (auto simp: res_simps)

lemma no_use_no_result: "stream_tool_records E tx = Inr ([], results) \<Longrightarrow> results = []"
  by (erule stream_tool_recordsD) auto

lemma unconsumed_refused:
  assumes "unconsumed_gate_outcome E s tx = Inl (ClaudeSendMessageRefused t)"
  shows "\<exists>uses results. stream_tool_records E tx = Inr (uses, results) \<and> length uses \<le> 1 \<and> (\<forall>r \<in> set results. \<not> effect_result E r)"
proof (cases "stream_tool_records E tx")
  case (Inl e)
  with assms stream_reading [OF Inl] show ?thesis
    by (auto simp: unconsumed_gate_outcome_def bind_Inl_iff gate_marker_def claude_unknown_def reading_error_def Let_def
        split: if_splits gate_file.splits)
next
  case (Inr x)
  obtain uses results where x: "x = (uses, results)" by (cases x)
  have m: "gate_marker s f allowed \<noteq> Inl (ClaudeSendMessageRefused t)" for f allowed
    by (auto simp: gate_marker_def claude_unknown_def Let_def split: if_splits gate_file.splits)
  then obtain denied where d: "gate_marker s (gs_denied s) (map denial_marker DENIAL_MARKERS) = Inr denied"
    using assms by (cases "gate_marker s (gs_denied s) (map denial_marker DENIAL_MARKERS)") (auto simp: unconsumed_gate_outcome_def)
  show ?thesis
  proof (cases denied)
    case None
    with assms Inr x d have "uses = []"
      by (auto simp: unconsumed_gate_outcome_def claude_unknown_def split: if_splits)
    moreover from this Inr x no_use_no_result have "results = []" by blast
    ultimately show ?thesis using Inr x by simp
  next
    case (Some marker)
    have "map_res (denied_result E) results \<noteq> Inl (ClaudeSendMessageRefused t)"
      using map_res_Inl_set denied_errors by metis
    with assms Inr x d Some obtain reasons where "map_res (denied_result E) results = Inr reasons" "length uses \<le> 1"
      by (cases "map_res (denied_result E) results")
        (auto simp: unconsumed_gate_outcome_def claude_unknown_def invalid_stream_def split: if_splits)
    moreover from this have "\<forall>r \<in> set results. \<exists>y. denied_result E r = Inr y"
      by (auto dest: map_res_each)
    ultimately show ?thesis using Inr x denied_no_effect by blast
  qed
qed

section \<open>Errors after the process ran\<close>

text \<open>Once the courier ran, no error is one that promises there was no effect, but the refusal.\<close>

definition undecided_error :: "exn \<Rightarrow> bool" where
  "undecided_error e \<longleftrightarrow> (\<exists>phase. e = ClaudeSendMessageUnknownDelivery phase) \<or> e = UnicodeError \<or> e = ValueError \<or> e = OtherError"

lemma reading_undecided: "reading_error e \<Longrightarrow> undecided_error e"
  by (auto simp: reading_error_def undecided_error_def)

lemma unknown_undecided: "claude_unknown phase = Inl e \<Longrightarrow> undecided_error e"
  by (auto simp: claude_unknown_def undecided_error_def)

lemma marker_undecided: "gate_marker s f allowed = Inl e \<Longrightarrow> undecided_error e"
  by (auto simp: gate_marker_def Let_def split: if_splits gate_file.splits dest: unknown_undecided)

lemma invalid_undecided: "invalid_stream = Inl e \<Longrightarrow> undecided_error e"
  by (simp add: undecided_error_def)

lemma undecided_refused [simp]: "\<not> undecided_error (ClaudeSendMessageRefused t)"
  by (simp add: undecided_error_def)

lemma consumed_undecided: "gate_consumed s = Inl e \<Longrightarrow> undecided_error e"
  by (auto simp: gate_consumed_def bind_Inl_iff split: if_splits dest: marker_undecided unknown_undecided)

lemma denied_undecided: "denied_result E r = Inl e \<Longrightarrow> undecided_error e"
  using denied_result_cases [of E r ValueError] payload_reading invalid_undecided unknown_undecided
  by (fastforce simp: undecided_error_def)

lemma unconsumed_outcome:
  "(\<exists>t. unconsumed_gate_outcome E s tx = Inl (ClaudeSendMessageRefused t)) \<or>
   (\<exists>e. unconsumed_gate_outcome E s tx = Inl e \<and> undecided_error e)"
proof (cases "gate_marker s (gs_denied s) (map denial_marker DENIAL_MARKERS)")
  case (Inl e)
  with marker_undecided [OF Inl] show ?thesis by (simp add: unconsumed_gate_outcome_def)
next
  case m: (Inr denied)
  show ?thesis
  proof (cases "stream_tool_records E tx")
    case (Inl e)
    with m reading_undecided [OF stream_reading [OF Inl]] show ?thesis by (simp add: unconsumed_gate_outcome_def)
  next
    case st: (Inr x)
    obtain uses results where x: "x = (uses, results)" by (cases x)
    show ?thesis
    proof (cases "map_res (denied_result E) results")
      case (Inl e)
      then have "undecided_error e" using map_res_Inl_set denied_undecided by metis
      with m st x Inl show ?thesis
        by (cases denied) (auto simp: unconsumed_gate_outcome_def claude_unknown_def undecided_error_def)
    next
      case (Inr reasons)
      with m st x show ?thesis
        by (cases denied) (auto simp: unconsumed_gate_outcome_def claude_unknown_def invalid_stream_def undecided_error_def)
    qed
  qed
qed

lemma receipt_errors:
  assumes "parse_sendmessage_receipt E tx = Inl e"
  shows "(\<exists>t. e = ClaudeSendMessageRefused t) \<or> is_chat_error e \<or> undecided_error e"
proof -
  have "(\<exists>t. e = ClaudeSendMessageRefused t) \<or> is_chat_error e \<or> undecided_error e" if "receipt_verdict E result = Inl e" for result
    using verdict_cases [of E result] that by (auto simp: undecided_error_def dest: decided_errors)
  then show ?thesis using receipt_cases [of E tx] assms by (auto simp: undecided_error_def dest: decided_errors)
qed

lemma concluded_errors:
  assumes "send_concluded E run s = Inl e"
  shows "(\<exists>t. e = ClaudeSendMessageRefused t) \<or> undecided_error e"
proof (cases run)
  case (Ran code out)
  show ?thesis
  proof (cases "gate_consumed s")
    case (Inl e')
    then have "undecided_error e'" by (rule consumed_undecided)
    with Ran Inl assms show ?thesis by (auto simp: send_concluded_def claude_unknown_def undecided_error_def split: if_splits)
  next
    case (Inr consumed)
    show ?thesis
    proof (cases "code = 0 \<and> consumed")
      case True
      with Ran Inr assms show ?thesis
        by (cases "parse_sendmessage_receipt E out")
          (auto simp: send_concluded_def claude_unknown_def undecided_error_def dest!: receipt_errors split: exn.splits if_splits)
    next
      case False
      with Ran Inr assms unconsumed_outcome [of E s out] show ?thesis
        by (auto simp: send_concluded_def claude_unknown_def undecided_error_def split: if_splits)
    qed
  qed
qed (use assms in \<open>auto simp: send_concluded_def claude_unknown_def undecided_error_def\<close>)

section \<open>Properties\<close>

lemma expectation_read:
  assumes "list_all (printable True) target" "list_all (printable True) message"
    and "read_gate_expectation (gs_expected (fresh_gate E target message)) = Inr tx"
  shows "loads (float_parse E) tx = Inr (JObj (expectation target message))"
proof -
  let ?s = "dumps (float_repr E) True (JObj (expectation target message))"
  have p: "plain True (JObj (expectation target message))"
    using assms(1,2) lit_printable by (simp add: expectation_def SEND_SUMMARY_def)
  then have "utf8_decode False (concat (map utf8_char ?s)) = Some ?s"
    using utf8_decode_encode_append [of ?s False "[]"] scalar_dumps [OF p, of "float_repr E" True] by (simp del: dumps.simps)
  then show ?thesis
    using assms(3) loads_dumps_trailing [OF p, of "[]" "float_parse E" "float_repr E"]
    by (auto simp: read_gate_expectation_def fresh_gate_def fail_def simp del: dumps.simps split: if_splits)
qed

text \<open>
  C16. What a native delivery reports is what the courier's stream shows. Whatever the courier model proposes
  and however often its hook runs, the gate hands out arguments at most once, and only the exact target, message
  and summary of this send. The send returns only if the gate was taken and the stream, closed and complete, has
  one SendMessage call whose one result is a success. It reports a refusal, which the sender takes for no
  effect, only if no result in the closed stream shows an effect, and if the gate had let the call pass, then
  that call was answered by the refusal. Every other error after the process ran is one that leaves the outcome open.
\<close>

theorem claude_delivery_decided:
  assumes "sm_run sm (fresh_gate E target message) = (run, gs)"
    and "gate_runs E gas (fresh_gate E target message) = (answers, gs)"
    and "list_all (printable True) target" "list_all (printable True) message"
    and "is_ok (bounded_message message)" "target_ref target" "sm_setup sm = Inr ()"
  shows "length (filter allowed_call answers) \<le> 1 \<and>
    (\<forall>a. Inr (Some a) \<in> set answers \<longrightarrow> a = authoritative_tool_input target message SEND_SUMMARY) \<and>
    (case sendmessage E sm target message of
       Inr _ \<Rightarrow>
         gs_consumed gs \<noteq> Missing \<and>
         (\<exists>out use result. run = Ran 0 out \<and> stream_tool_records E out = Inr ([use], [result]) \<and> effect_result E result)
     | Inl (ClaudeSendMessageRefused _) \<Rightarrow>
         \<exists>out uses results. run = Ran 0 out \<and> stream_tool_records E out = Inr (uses, results) \<and> length uses \<le> 1 \<and>
           (\<forall>r \<in> set results. \<not> effect_result E r) \<and> (filter allowed_call answers \<noteq> [] \<longrightarrow> results \<noteq> [])
     | Inl e \<Rightarrow> undecided_error e)"
proof -
  have "gs_consumed (fresh_gate E target message) = Missing" by (simp add: fresh_gate_def)
  note marks = gate_run_markers [OF assms(2) this]
  have exact: "a = authoritative_tool_input target message SEND_SUMMARY"
    if "authoritative E (gs_expected (fresh_gate E target message)) a" for a
    using that expectation_read [OF assms(3,4)] unfolding authoritative_def by (fastforce simp: expectation_def)
  have send: "sendmessage E sm target message = send_concluded E run gs"
    using assms(1,5,6,7) by (auto simp: sendmessage_def is_ok_iff)
  have refused: "\<exists>out uses results. run = Ran 0 out \<and> stream_tool_records E out = Inr (uses, results) \<and> length uses \<le> 1 \<and>
      (\<forall>r \<in> set results. \<not> effect_result E r) \<and> (filter allowed_call answers \<noteq> [] \<longrightarrow> results \<noteq> [])"
    if r: "send_concluded E run gs = Inl (ClaudeSendMessageRefused t)" for t
  proof -
    from r obtain out where out: "run = Ran 0 out"
      by (cases run) (auto simp: send_concluded_def claude_unknown_def split: if_splits)
    show ?thesis
    proof (cases "gate_consumed gs")
      case (Inl e)
      with r out consumed_undecided [OF Inl] show ?thesis by (auto simp: send_concluded_def claude_unknown_def split: if_splits)
    next
      case (Inr consumed)
      show ?thesis
      proof (cases consumed)
        case True
        with r out Inr have "parse_sendmessage_receipt E out = Inl (ClaudeSendMessageRefused t)"
          by (cases "parse_sendmessage_receipt E out") (auto simp: send_concluded_def claude_unknown_def split: exn.splits if_splits)
        with receipt_refused out show ?thesis by fastforce
      next
        case False
        with Inr gate_consumed_marker(2) [of gs] have "gs_consumed gs = Missing" by simp
        with marks have "filter allowed_call answers = []" by blast
        moreover from r out Inr False have "unconsumed_gate_outcome E gs out = Inl (ClaudeSendMessageRefused t)"
          by (simp add: send_concluded_def)
        ultimately show ?thesis using unconsumed_refused out by blast
      qed
    qed
  qed
  have accepted: "gs_consumed gs \<noteq> Missing \<and>
      (\<exists>out use result. run = Ran 0 out \<and> stream_tool_records E out = Inr ([use], [result]) \<and> effect_result E result)"
    if r: "send_concluded E run gs = Inr u" for u
  proof -
    from r obtain out where out: "run = Ran 0 out"
      by (cases run) (auto simp: send_concluded_def claude_unknown_def split: if_splits)
    with r have "gate_consumed gs = Inr True" using unconsumed_outcome [of E gs out]
      by (cases "gate_consumed gs") (auto simp: send_concluded_def split: if_splits)
    moreover from this r out obtain i where "parse_sendmessage_receipt E out = Inr i"
      by (cases "parse_sendmessage_receipt E out") (auto simp: send_concluded_def claude_unknown_def split: exn.splits if_splits)
    ultimately show ?thesis using gate_consumed_marker(1) receipt_accepted out by blast
  qed
  have "length (filter allowed_call answers) \<le> 1 \<and>
      (\<forall>a. Inr (Some a) \<in> set answers \<longrightarrow> a = authoritative_tool_input target message SEND_SUMMARY)"
    using marks exact by blast
  moreover have "case send_concluded E run gs of
       Inr _ \<Rightarrow>
         gs_consumed gs \<noteq> Missing \<and>
         (\<exists>out use result. run = Ran 0 out \<and> stream_tool_records E out = Inr ([use], [result]) \<and> effect_result E result)
     | Inl (ClaudeSendMessageRefused _) \<Rightarrow>
         \<exists>out uses results. run = Ran 0 out \<and> stream_tool_records E out = Inr (uses, results) \<and> length uses \<le> 1 \<and>
           (\<forall>r \<in> set results. \<not> effect_result E r) \<and> (filter allowed_call answers \<noteq> [] \<longrightarrow> results \<noteq> [])
     | Inl e \<Rightarrow> undecided_error e"
  proof (cases "send_concluded E run gs")
    case (Inr u)
    with accepted show ?thesis by simp
  next
    case (Inl e)
    show ?thesis
    proof (cases "undecided_error e")
      case True
      then show ?thesis unfolding Inl by (cases e) simp_all
    next
      case False
      with concluded_errors [OF Inl] obtain t where "e = ClaudeSendMessageRefused t" by blast
      with Inl refused show ?thesis by simp
    qed
  qed
  ultimately show ?thesis unfolding send by blast
qed

section \<open>A sample delivery\<close>

text \<open>The hook is asked with empty input, and the courier ends without a call.\<close>

definition sample_terminal :: dict where
  "sample_terminal =
     [(lit ''type'', JStr (lit ''result'')), (lit ''subtype'', JStr (lit ''success'')), (lit ''is_error'', JBool False),
      (lit ''stop_reason'', JNull), (lit ''terminal_reason'', JStr (lit ''done'')), (lit ''permission_denials'', JArr []),
      (lit ''num_turns'', JInt 1), (lit ''result_index'', JInt 0), (lit ''queued_turn_count'', JInt 0)]"

definition sample_stream :: str where "sample_stream = dumps (float_repr sample_env) True (JObj sample_terminal)"

definition sample_attempt :: gate_attempt where
  "sample_attempt = \<lparr>ga_path = Inr (), ga_parent = Inr (), ga_stdin = Inr [], ga_consume = MarkerWritten, ga_deny = MarkerWritten\<rparr>"

definition sample_send :: send_call where
  "sample_send = \<lparr>sm_setup = Inr (), sm_run = (\<lambda>s. (Ran 0 sample_stream, snd (gate_runs sample_env [sample_attempt] s)))\<rparr>"

definition sample_ref :: str where "sample_ref = lit ''peer [abc123]''"

text \<open>An ASCII dump is one line.\<close>

definition visible :: "nat \<Rightarrow> bool" where "visible c \<longleftrightarrow> 32 \<le> c \<and> c \<le> 126"

lemma esc_char_visible: "is_code_point c \<Longrightarrow> list_all visible (esc_char True c)"
proof -
  have "visible (hex_digit n)" if "n < 16" for n using that by (simp add: hex_digit_def visible_def)
  moreover assume "is_code_point c"
  then have "(55296 + (c - 65536) div 1024) div 4096 < 16" by (simp add: is_code_point_def)
  ultimately show ?thesis by (auto simp: esc_char_def hex4_def visible_def)
qed

lemma json_str_visible: "list_all is_code_point s \<Longrightarrow> list_all visible (json_str True s)"
proof -
  assume "list_all is_code_point s"
  then have "list_all visible (concat (map (esc_char True) s))" by (induction s) (simp_all add: esc_char_visible)
  then show ?thesis by (simp add: json_str_def visible_def [of 34])
qed

lemma intersperse_visible: "(\<And>x. x \<in> set xs \<Longrightarrow> list_all visible x) \<Longrightarrow> list_all visible (intersperse_comma xs)"
  by (induction xs rule: intersperse_comma.induct) (auto simp: visible_def)

lemma dumps_visible: "plain True v \<Longrightarrow> list_all visible (dumps fr True v)"
proof (induction v)
  case (JInt i)
  then show ?case by (auto dest: int_str_digits simp: is_digit_def visible_def list_all_iff)
next
  case (JStr s)
  then have "list_all is_code_point s" by (auto simp: printable_def list_all_iff)
  then show ?case by (simp add: json_str_visible)
next
  case (JArr xs)
  then have "list_all visible (dumps fr True x)" if "x \<in> set xs" for x using that by (auto simp: list_all_iff)
  then have "list_all visible (intersperse_comma (map (dumps fr True) xs))" by (intro intersperse_visible) auto
  then show ?case by (simp add: visible_def [of 91] visible_def [of 93])
next
  case (JObj kvs)
  have "list_all visible (json_str True (fst p) @ 58 # dumps fr True (snd p))" if "p \<in> set kvs" for p
  proof -
    have "list_all is_code_point (fst p)" "plain True (snd p)"
      using JObj.prems that by (auto simp: list_all_iff printable_def)
    then show ?thesis
      using JObj.IH [of p "snd p"] that json_str_visible by (cases p) (auto simp: visible_def [of 58])
  qed
  then have "list_all visible (intersperse_comma (map (\<lambda>p. json_str True (fst p) @ 58 # dumps fr True (snd p)) kvs))"
    by (intro intersperse_visible) (simp only: set_map, erule imageE, simp only: simp_thms)
  then show ?case by (simp add: visible_def [of 123] visible_def [of 125])
qed (auto simp: lit_def visible_def)

lemma visible_line:
  assumes "list_all visible s" "s \<noteq> []"
  shows "splitlines s = [s]"
proof -
  have "splitlines_from acc s = (if acc = [] \<and> s = [] then [] else [rev acc @ s])" for acc
    using assms(1) by (induction s arbitrary: acc) (auto simp: is_linebreak_def visible_def)
  then show ?thesis using assms(2) by (simp add: splitlines_def)
qed

lemma sample_stream_read: "stream_tool_records sample_env sample_stream = Inr ([], [])"
proof -
  have p: "plain True (JObj sample_terminal)" by (simp add: sample_terminal_def int_fits_small)
  have v: "list_all visible sample_stream" unfolding sample_stream_def by (rule dumps_visible [OF p])
  have l: "loads (float_parse sample_env) sample_stream = Inr (JObj sample_terminal)"
    unfolding sample_stream_def using loads_dumps_trailing [OF p, of "[]"] by simp
  have n: "sample_stream \<noteq> []" by (simp add: sample_stream_def)
  have "list_all (\<lambda>c. \<not> is_surrogate c) sample_stream" using v by (auto simp: list_all_iff visible_def is_surrogate_def)
  then obtain b where b: "utf8_encode sample_stream = Some b" "length b = utf8_len sample_stream"
    using utf8_encode_length by (auto simp: utf8_encode_def)
  have "utf8_len sample_stream = length sample_stream"
    using v by (intro utf8_len_ascii) (auto simp: list_all_iff visible_def)
  also have "\<dots> \<le> 65536"
    by (simp add: sample_stream_def sample_terminal_def json_str_def lit_def esc_char_def int_str_def dec_str.simps)
  finally have "stream_records sample_env sample_stream = Inr [sample_terminal]"
    using b l n by (simp add: stream_records_def visible_line [OF v n] stream_line_def)
      (simp add: sample_terminal_def)
  then show ?thesis
    by (simp add: stream_tool_records_def)
      (simp add: sample_terminal_def terminal_shape_def field_is_def TERMINAL_INT_FIELDS_def record_blocks_def)
qed

lemma sample_gate_run:
  "gate_runs sample_env [sample_attempt] (fresh_gate sample_env sample_ref (lit ''hi'')) =
     ([Inr None], (fresh_gate sample_env sample_ref (lit ''hi''))\<lparr>gs_denied := GateFile True (denial_marker ''pretool_gate_denied'')\<rparr>)"
proof -
  let ?g = "fresh_gate sample_env sample_ref (lit ''hi'')"
  have f: "gs_private ?g" "gs_consumed ?g = Missing" "gs_denied ?g = Missing" by (simp_all add: fresh_gate_def)
  have x: "loads fp [] = Inl JSONDecodeError" for fp by (simp add: loads_def)
  have "\<exists>e. gate_decision sample_env sample_attempt ?g = Inl e \<and> is_gate_error e"
  proof (cases "read_gate_expectation (gs_expected ?g)")
    case (Inl e)
    then show ?thesis
      by (auto simp: gate_decision_def read_gate_expectation_def fail_def is_gate_error_def split: gate_file.splits if_splits option.splits)
  next
    case (Inr tx)
    have "loads (float_parse sample_env) tx = Inr (JObj (expectation sample_ref (lit ''hi'')))"
      by (rule expectation_read [OF _ _ Inr]) (simp_all add: sample_ref_def)
    with Inr x show ?thesis by (simp add: gate_decision_def sample_attempt_def is_gate_error_def)
  qed
  then show ?thesis
    using f by (auto simp: run_pretool_gate_def sample_attempt_def denied_at_def create_marker_def)
qed

theorem claude_delivery_decided_witness:
  "\<exists>t. sendmessage sample_env sample_send sample_ref (lit ''hi'') = Inl (ClaudeSendMessageRefused t) \<and>
     (\<exists>uses results. stream_tool_records sample_env sample_stream = Inr (uses, results) \<and>
        (\<forall>r \<in> set results. \<not> effect_result sample_env r))"
proof -
  let ?g = "fresh_gate sample_env sample_ref (lit ''hi'')"
  let ?gs = "?g\<lparr>gs_denied := GateFile True (denial_marker ''pretool_gate_denied'')\<rparr>"
  have run: "sm_run sample_send ?g = (Ran 0 sample_stream, ?gs)"
    by (simp only: sample_send_def send_call.simps sample_gate_run snd_conv)
  have m: "is_ok (bounded_message (lit ''hi''))"
    using bounded_message_printable [of "lit ''hi''"] by (simp add: is_ok_def lit_def is_surrogate_def utf8_len_Cons utf8_char_def)
  have t: "target_ref sample_ref" by (simp add: target_ref_def sample_ref_def lit_def is_alnum_def is_digit_def is_lower_def)
  have gs: "gs_private ?gs" "gs_consumed ?gs = Missing" by (simp_all add: fresh_gate_def)
  have "gate_marker ?gs (gs_denied ?gs) (map denial_marker DENIAL_MARKERS) = Inr (Some (denial_marker ''pretool_gate_denied''))"
    using gs(1) by (simp add: gate_marker_def denial_marker_def DENIAL_MARKERS_def lit_def)
  then have "send_concluded sample_env (Ran 0 sample_stream) ?gs =
      Inl (ClaudeSendMessageRefused (lit ''Claude SendMessage was not delivered: '' @ lit (denial_reason (denial_marker ''pretool_gate_denied''))))"
    using gs by (simp add: send_concluded_def gate_consumed_def gate_marker_def [of _ Missing] unconsumed_gate_outcome_def sample_stream_read)
  then have r: "sendmessage sample_env sample_send sample_ref (lit ''hi'') =
      Inl (ClaudeSendMessageRefused (lit ''Claude SendMessage was not delivered: '' @ lit (denial_reason (denial_marker ''pretool_gate_denied''))))"
    using m t run by (auto simp: sendmessage_def is_ok_iff sample_send_def)
  have "sm_setup sample_send = Inr ()" by (simp add: sample_send_def)
  moreover have "list_all (printable True) sample_ref" "list_all (printable True) (lit ''hi'')" by (simp_all add: sample_ref_def)
  ultimately show ?thesis using claude_delivery_decided [OF run sample_gate_run _ _ m t] r by auto
qed

end
