(* ===== verification/ClaudeListing.thy ===== *)
theory ClaudeListing
  imports ClaudeGate
begin

text \<open>
  The two listings of claude_runtime.py that a native delivery reads: the live sessions
  (\<^verbatim>\<open>claude agents --json\<close>) and the addresses of the ListAgents tool. The processes are arguments.
\<close>

section \<open>The binary\<close>

text \<open>Paths are texts; \<open>bn_configured\<close> is the pinned binary, with whether it still exists.\<close>

record binaries =
  bn_configured :: "str option"
  bn_which :: "str option"
  bn_fallback :: str
  bn_exists :: "str \<Rightarrow> bool"
  bn_resolve :: "str \<Rightarrow> str res"
  bn_runnable :: "str \<Rightarrow> bool"

definition binary_unavailable :: "'a res" where
  "binary_unavailable = fail ''Claude Code executable is unavailable''"

definition claude_binary :: "binaries \<Rightarrow> str res" where
  "claude_binary bn =
     (let found = (case bn_configured bn of
                     Some c \<Rightarrow> if bn_exists bn c then Some c else bn_which bn
                   | None \<Rightarrow> bn_which bn);
          candidate = (case found of
                         Some c \<Rightarrow> Some c
                       | None \<Rightarrow> if bn_exists bn (bn_fallback bn) then Some (bn_fallback bn) else None)
      in case candidate of
           None \<Rightarrow> binary_unavailable
         | Some c \<Rightarrow>
             bind (except_chat is_os_error ''Claude Code executable is unavailable'' (bn_resolve bn c)) (\<lambda>binary.
             if \<not> bn_runnable bn binary then binary_unavailable else Inr binary))"

section \<open>Live sessions\<close>

definition bad_agents :: "'a res" where
  "bad_agents = fail ''Claude agents response is invalid''"

text \<open>\<open>None\<close>: the workspace of the row is gone, so the row is skipped.\<close>

definition agent_row :: "pyenv \<Rightarrow> fsview \<Rightarrow> json \<Rightarrow> claude_agent option res" where
  "agent_row E fs item =
     (case item of
        JObj d \<Rightarrow>
          (case (jget d ''sessionId'', jget d ''name'', jget d ''kind'', jget d ''cwd'') of
             (Some (JStr session), Some (JStr name), Some (JStr kind), Some (JStr cwd)) \<Rightarrow>
               bind (valid_uuid session ''Claude session id'') (\<lambda>session_id.
               bind (valid_name E name ''Claude session name'') (\<lambda>agent_name.
               case canonical_cwd fs cwd of
                 Inl e \<Rightarrow> if is_chat_error e then Inr None else Inl e
               | Inr canonical \<Rightarrow>
                   Inr (Some \<lparr>ag_session_id = session_id, ag_name = agent_name, ag_kind = kind, ag_cwd = canonical\<rparr>)))
           | _ \<Rightarrow> bad_agents)
      | _ \<Rightarrow> bad_agents)"

definition agent_rows :: "pyenv \<Rightarrow> fsview \<Rightarrow> json list \<Rightarrow> claude_agent list res" where
  "agent_rows E fs items = bind (map_res (agent_row E fs) items) (\<lambda>xs. Inr (List.map_filter id xs))"

definition agents_json :: "pyenv \<Rightarrow> str \<Rightarrow> json list res" where
  "agents_json E tx =
     bind (except_chat (\<lambda>e. e = JSONDecodeError) ''Claude agents response is invalid'' (loads (float_parse E) tx)) (\<lambda>raw.
     case raw of JArr items \<Rightarrow> Inr items | _ \<Rightarrow> bad_agents)"

definition parse_claude_agents :: "pyenv \<Rightarrow> fsview \<Rightarrow> str \<Rightarrow> claude_agent list res" where
  "parse_claude_agents E fs tx = bind (agents_json E tx) (agent_rows E fs)"

text \<open>The rows of one session; the code prints such a row and parses it again, which gives the row.\<close>

definition row_of_session :: "pyenv \<Rightarrow> str \<Rightarrow> json \<Rightarrow> bool" where
  "row_of_session E session_id item =
     (case item of
        JObj d \<Rightarrow> (case jget d ''sessionId'' of Some (JStr s) \<Rightarrow> casefold E s = casefold E session_id | _ \<Rightarrow> False)
      | _ \<Rightarrow> False)"

definition parse_targeted_claude_agents :: "pyenv \<Rightarrow> fsview \<Rightarrow> str \<Rightarrow> str \<Rightarrow> claude_agent list res" where
  "parse_targeted_claude_agents E fs tx session_id =
     bind (agents_json E tx) (\<lambda>items.
     bind (map_res (\<lambda>item. agent_rows E fs [item]) (filter (row_of_session E session_id) items)) (\<lambda>xss. Inr (concat xss)))"

text \<open>How the listing process ended; \<open>SpawnFailed\<close> and \<open>ProcessFailed\<close> carry the reduced diagnostic.\<close>

datatype listing_run =
    ListingTimeout
  | SpawnFailed str
  | ProcessFailed str
  | ListingGarbled
  | Listed int str

definition claude_agents :: "pyenv \<Rightarrow> fsview \<Rightarrow> str res \<Rightarrow> listing_run \<Rightarrow> str option \<Rightarrow> claude_agent list res" where
  "claude_agents E fs binary run session_id =
     bind binary (\<lambda>_.
     case run of
       ListingTimeout \<Rightarrow> Inl (ClaudeAgentsPreflightTimeout (lit ''Claude agents preflight timed out''))
     | SpawnFailed category \<Rightarrow> Inl (ChatError (lit ''Claude agents preflight failed (spawn '' @ category @ lit '')''))
     | ProcessFailed name \<Rightarrow> Inl (ChatError (lit ''Claude agents preflight failed ('' @ name @ lit '')''))
     | ListingGarbled \<Rightarrow> Inl UnicodeError
     | Listed code out \<Rightarrow>
         if code \<noteq> 0 then Inl (ChatError (lit ''Claude agents preflight failed (exit '' @ int_str code @ lit '')''))
         else
           (case session_id of
              None \<Rightarrow> parse_claude_agents E fs out
            | Some s \<Rightarrow> parse_targeted_claude_agents E fs out s))"

definition exact_match :: "str \<Rightarrow> str \<Rightarrow> claude_agent \<Rightarrow> bool" where
  "exact_match session_id cwd a \<longleftrightarrow>
     ag_session_id a = session_id \<and> (ag_kind a = lit ''interactive'' \<or> ag_kind a = lit ''background'') \<and> ag_cwd a = cwd"

definition exact_agent :: "pyenv \<Rightarrow> fsview \<Rightarrow> str res \<Rightarrow> listing_run \<Rightarrow> str \<Rightarrow> str \<Rightarrow> claude_agent res" where
  "exact_agent E fs binary run session_id cwd =
     bind (valid_uuid session_id ''Claude session id'') (\<lambda>_.
     bind (claude_agents E fs binary run (Some session_id)) (\<lambda>agents.
     case the_one (exact_match session_id cwd) agents of
       None \<Rightarrow> fail ''Claude target is not one exact live supported session''
     | Some a \<Rightarrow> Inr a))"

text \<open>The directory of a live session, for a registration that finds its own to have moved.\<close>

definition native_claude_cwd :: "pyenv \<Rightarrow> fsview \<Rightarrow> str res \<Rightarrow> listing_run \<Rightarrow> str \<Rightarrow> str option res" where
  "native_claude_cwd E fs binary run session_id =
     (case claude_agents E fs binary run (Some session_id) of
        Inl e \<Rightarrow> if is_chat_error e then Inr None else Inl e
      | Inr agents \<Rightarrow>
          Inr (map_option ag_cwd (the_one (\<lambda>a. ag_session_id a = session_id \<and>
            (ag_kind a = lit ''interactive'' \<or> ag_kind a = lit ''background'')) agents)))"

section \<open>Addresses\<close>

definition SEPARATOR :: str where "SEPARATOR = [32, 32, 183, 32, 32]"

definition is_udigit :: "pyenv \<Rightarrow> nat \<Rightarrow> bool" where
  "is_udigit E c \<longleftrightarrow> ucategory E c = ''Nd''"

definition one_line :: "str \<Rightarrow> bool" where
  "one_line s \<longleftrightarrow> s \<noteq> [] \<and> 10 \<notin> set s \<and> 13 \<notin> set s"

text \<open>\<^verbatim>\<open>(?:interactive|bg)(?: SEP [^\r\n]+)*\<close>: the columns together are one text after a separator.\<close>

definition kind_columns :: "str \<Rightarrow> bool" where
  "kind_columns s \<longleftrightarrow>
     list_ex (\<lambda>k. starts_with (lit k) s \<and>
       (let rest = drop (length k) s in
        rest = [] \<or> starts_with SEPARATOR rest \<and> one_line (drop 5 rest))) [''interactive'', ''bg'']"

text \<open>\<^verbatim>\<open>says it was X until D+[smhd] ago SEP\<close> and the columns, for some split of the text.\<close>

definition until_ago :: "pyenv \<Rightarrow> str \<Rightarrow> bool" where
  "until_ago E s \<longleftrightarrow>
     starts_with (lit '' until '') s \<and>
     (let digits = takeWhile (is_udigit E) (drop 7 s); rest = drop (7 + length digits) s in
      digits \<noteq> [] \<and> (case rest of c # r \<Rightarrow> c \<in> {115, 109, 104, 100} \<and> starts_with (lit '' ago'' @ SEPARATOR) r \<and>
        kind_columns (drop 9 r) | [] \<Rightarrow> False))"

definition history_columns :: "pyenv \<Rightarrow> str \<Rightarrow> bool" where
  "history_columns E s \<longleftrightarrow>
     starts_with (lit ''says it was '') s \<and>
     (let rest = drop 12 s in list_ex (\<lambda>n. one_line (take n rest) \<and> until_ago E (drop n rest)) [0..<Suc (length rest)])"

definition after_name :: "pyenv \<Rightarrow> str \<Rightarrow> bool" where
  "after_name E s \<longleftrightarrow>
     starts_with (lit '' ['') s \<and> list_all is_alnum (take 6 (drop 2 s)) \<and> length (take 6 (drop 2 s)) = 6 \<and>
     starts_with (93 # SEPARATOR) (drop 8 s) \<and>
     (kind_columns (drop 14 s) \<or> history_columns E (drop 14 s))"

text \<open>The shortest name with which the whole row matches, and its token.\<close>

definition listing_row :: "pyenv \<Rightarrow> str \<Rightarrow> (str \<times> str) option" where
  "listing_row E line =
     (if \<not> starts_with [32, 32] line then None
      else
        let s = drop 2 line in
        map_option (\<lambda>n. (take n s, take 6 (drop (n + 2) s)))
          (List.find (\<lambda>n. 10 \<notin> set (take n s) \<and> after_name E (drop n s)) [1..<Suc (length s)]))"

definition listing_target_refs :: "pyenv \<Rightarrow> str \<Rightarrow> str \<Rightarrow> str list" where
  "listing_target_refs E listing session_name =
     List.map_filter (\<lambda>line. case listing_row E line of
        None \<Rightarrow> None
      | Some (name, token) \<Rightarrow> if name = session_name then Some (name @ lit '' ['' @ token @ lit '']'') else None) (splitlines listing)"

definition listing_of :: "json \<Rightarrow> str option" where
  "listing_of record =
     (case record of
        JObj d \<Rightarrow> (case jget d ''tool_use_result'' of Some (JObj r) \<Rightarrow> as_str (jget r ''listing'') | _ \<Rightarrow> None)
      | _ \<Rightarrow> None)"

text \<open>A listing with a lone surrogate makes \<open>encode\<close> raise.\<close>

definition bounded_listing :: "str \<Rightarrow> bool res" where
  "bounded_listing listing =
     (case utf8_encode listing of None \<Rightarrow> Inl UnicodeError | Some b \<Rightarrow> Inr (length b \<le> 128 * 1024))"

fun filter_bounded :: "str list \<Rightarrow> str list res" where
  "filter_bounded [] = Inr []"
| "filter_bounded (l # ls) =
     bind (bounded_listing l) (\<lambda>ok. bind (filter_bounded ls) (\<lambda>rest. Inr (if ok then l # rest else rest)))"

text \<open>One listing, and in it one row of the name.\<close>

definition picked_ref :: "pyenv \<Rightarrow> int \<Rightarrow> str list \<Rightarrow> str \<Rightarrow> str res" where
  "picked_ref E code listings session_name =
     (if code \<noteq> 0 \<or> length listings \<noteq> 1 then fail ''Claude ListAgents discovery failed''
      else
        let refs = listing_target_refs E (hd listings) session_name in
        if length refs \<noteq> 1 \<or> \<not> target_ref (hd refs)
        then fail ''Claude target discovery is not one exact supported match'' else Inr (hd refs))"

definition discover_target_ref :: "pyenv \<Rightarrow> str res \<Rightarrow> listing_run \<Rightarrow> str \<Rightarrow> str res" where
  "discover_target_ref E binary run session_name =
     bind binary (\<lambda>_.
     case run of
       ListingTimeout \<Rightarrow> fail ''Claude ListAgents discovery timed out''
     | SpawnFailed _ \<Rightarrow> fail ''Claude ListAgents discovery failed''
     | ProcessFailed _ \<Rightarrow> fail ''Claude ListAgents discovery failed''
     | ListingGarbled \<Rightarrow> Inl UnicodeError
     | Listed code out \<Rightarrow>
         bind (except_chat (\<lambda>e. e = JSONDecodeError) ''Claude ListAgents discovery failed''
           (map_res (loads (float_parse E)) (filter (\<lambda>l. l \<noteq> []) (splitlines out)))) (\<lambda>records.
         bind (filter_bounded (List.map_filter listing_of records)) (\<lambda>listings.
         picked_ref E code listings session_name)))"

section \<open>Exactness\<close>

lemma agent_rows_session:
  assumes "agent_rows E fs [item] = Inr as" "a \<in> set as"
  shows "\<exists>d. item = JObj d \<and> jget d ''sessionId'' = Some (JStr (ag_session_id a)) \<and> jget d ''name'' = Some (JStr (ag_name a)) \<and>
    jget d ''kind'' = Some (JStr (ag_kind a)) \<and> uuid_shape (ag_session_id a)"
proof -
  from assms have row: "agent_row E fs item = Inr (Some a)"
    by (auto simp: agent_rows_def res_simps map_filter_def split: option.splits if_splits)
  then obtain d where d: "item = JObj d" by (cases item) (auto simp: agent_row_def bad_agents_def)
  with row obtain session name kind cwd where "jget d ''sessionId'' = Some (JStr session)" "jget d ''name'' = Some (JStr name)"
    "jget d ''kind'' = Some (JStr kind)" "jget d ''cwd'' = Some (JStr cwd)"
    by (auto simp: agent_row_def bad_agents_def split: option.splits json.splits)
  with row d show ?thesis
    by (auto simp: agent_row_def res_simps valid_uuid_iff valid_name_iff split: sum.splits if_splits)
qed

lemma exact_agent_targeted:
  assumes "agents_json E out = Inr items"
  shows "exact_agent E fs binary (Listed 0 out) s cwd =
    bind (valid_uuid s ''Claude session id'') (\<lambda>_. bind binary (\<lambda>_.
    bind (map_res (\<lambda>item. agent_rows E fs [item]) (filter (row_of_session E s) items)) (\<lambda>xss.
    case the_one (exact_match s cwd) (concat xss) of
      None \<Rightarrow> fail ''Claude target is not one exact live supported session'' | Some a \<Rightarrow> Inr a)))"
proof (cases binary)
  case (Inr b)
  then show ?thesis
    by (cases "map_res (\<lambda>item. agent_rows E fs [item]) (filter (row_of_session E s) items)")
      (simp_all add: exact_agent_def claude_agents_def parse_targeted_claude_agents_def assms)
qed (simp add: exact_agent_def claude_agents_def)

text \<open>
  C29. A native delivery goes to one exact live session. The session that is found has the asked id, a supported kind and the
  asked directory, and it is the only such row; rows of other sessions, malformed ones included,
  make no difference to the answer.
\<close>

theorem exact_agent_spec:
  assumes "agents_json E out = Inr items" "agents_json E out' = Inr items'"
    and "filter (row_of_session E s) items = filter (row_of_session E s) items'"
  shows "exact_agent E fs binary (Listed 0 out') s cwd = exact_agent E fs binary (Listed 0 out) s cwd \<and>
    (\<forall>a. exact_agent E fs binary (Listed 0 out) s cwd = Inr a \<longrightarrow>
       exact_match s cwd a \<and>
       (\<exists>d. JObj d \<in> set items \<and> jget d ''sessionId'' = Some (JStr s) \<and> jget d ''name'' = Some (JStr (ag_name a))) \<and>
       (\<exists>xss. map_res (\<lambda>item. agent_rows E fs [item]) (filter (row_of_session E s) items) = Inr xss \<and>
          filter (exact_match s cwd) (concat xss) = [a]))"
proof -
  have eq: "exact_agent E fs binary (Listed 0 out') s cwd = exact_agent E fs binary (Listed 0 out) s cwd"
    by (simp add: exact_agent_targeted [OF assms(1)] exact_agent_targeted [OF assms(2)] assms(3))
  have "exact_match s cwd a \<and>
       (\<exists>d. JObj d \<in> set items \<and> jget d ''sessionId'' = Some (JStr s) \<and> jget d ''name'' = Some (JStr (ag_name a))) \<and>
       (\<exists>xss. map_res (\<lambda>item. agent_rows E fs [item]) (filter (row_of_session E s) items) = Inr xss \<and>
          filter (exact_match s cwd) (concat xss) = [a])"
    if "exact_agent E fs binary (Listed 0 out) s cwd = Inr a" for a
  proof -
    from that obtain xss where x: "map_res (\<lambda>item. agent_rows E fs [item]) (filter (row_of_session E s) items) = Inr xss"
      "the_one (exact_match s cwd) (concat xss) = Some a"
      by (auto simp: exact_agent_targeted [OF assms(1)] res_simps split: option.splits)
    from x(2) have f: "filter (exact_match s cwd) (concat xss) = [a]" by (simp add: the_one_Some_iff)
    then have "a \<in> set (filter (exact_match s cwd) (concat xss))" by simp
    then have m: "exact_match s cwd a" "a \<in> set (concat xss)" by auto
    then obtain xs where "a \<in> set xs" "xs \<in> set xss" by auto
    with map_res_Inr_set [OF x(1)] obtain item where "item \<in> set items" "agent_rows E fs [item] = Inr xs" by auto
    with agent_rows_session [OF _ \<open>a \<in> set xs\<close>] m(1) x(1) f show ?thesis by (fastforce simp: exact_match_def)
  qed
  with eq show ?thesis by blast
qed

lemma discover_target_ref_spec:
  assumes "discover_target_ref E binary run session_name = Inr ref"
  shows "target_ref ref \<and> (\<exists>token. ref = session_name @ lit '' ['' @ token @ lit '']'')"
proof -
  from assms obtain code listings where "picked_ref E code listings session_name = Inr ref"
    by (auto simp: discover_target_ref_def res_simps split: listing_run.splits)
  then have l: "listing_target_refs E (hd listings) session_name = [ref]" "target_ref ref"
    by (auto simp: picked_ref_def Let_def length_Suc_conv split: if_splits)
  then have "ref \<in> set (listing_target_refs E (hd listings) session_name)" by simp
  then obtain line where "(case listing_row E line of
        None \<Rightarrow> None
      | Some (name, token) \<Rightarrow> if name = session_name then Some (name @ lit '' ['' @ token @ lit '']'') else None) = Some ref"
    unfolding listing_target_refs_def map_filter_def by force
  then obtain name token where "listing_row E line = Some (name, token)" "name = session_name"
    "ref = name @ lit '' ['' @ token @ lit '']''"
    by (cases "listing_row E line") (auto split: if_splits)
  with l(2) show ?thesis by blast
qed

definition sample_session_row :: json where
  "sample_session_row = JObj [(lit ''sessionId'', JStr (sample_uuid 49)), (lit ''name'', JStr (lit ''peer'')),
     (lit ''kind'', JStr (lit ''interactive'')), (lit ''cwd'', JStr (lit ''/p''))]"

definition sample_listing :: "json list \<Rightarrow> str" where
  "sample_listing items = dumps (float_repr sample_env) True (JArr items)"

definition sample_view :: fsview where "sample_view = \<lparr>fs_resolve = Inr, fs_is_dir = (\<lambda>_. True)\<rparr>"

definition sample_live :: claude_agent where
  "sample_live = \<lparr>ag_session_id = sample_uuid 49, ag_name = lit ''peer'', ag_kind = lit ''interactive'', ag_cwd = lit ''/p''\<rparr>"

lemma sample_listed: "list_all (plain True) items \<Longrightarrow> agents_json sample_env (sample_listing items) = Inr items"
proof -
  assume "list_all (plain True) items"
  then have "plain True (JArr items)" by simp
  from loads_dumps_trailing [OF this, of "[]" "float_parse sample_env" "float_repr sample_env"]
  show ?thesis by (simp add: agents_json_def sample_listing_def except_chat_def del: dumps.simps)
qed

lemma sample_row_plain: "plain True sample_session_row"
  using sample_uuid_printable [of 49] by (simp add: sample_session_row_def)

lemma sample_row_read: "agent_row sample_env sample_view sample_session_row = Inr (Some sample_live)"
proof -
  have "valid_uuid (sample_uuid 49) f = Inr (sample_uuid 49)" for f
    by (simp add: valid_uuid_iff sample_uuid_shape is_hex_def is_digit_def)
  moreover have "valid_name sample_env (lit ''peer'') f = Inr (lit ''peer'')" for f
    by (simp add: valid_name_iff sample_simps) (simp add: name_shape_def sample_env_def lit_def bad_category_def MAX_NAME_CODEPOINTS_def
        utf8_encode_def is_surrogate_def)
  moreover have "canonical_cwd sample_view (lit ''/p'') = Inr (lit ''/p'')"
    by (simp add: canonical_cwd_def sample_view_def is_absolute_def lit_def starts_with_def)
  ultimately show ?thesis by (simp add: agent_row_def sample_session_row_def sample_live_def)
qed

theorem exact_agent_spec_witness:
  "exact_agent sample_env sample_view (Inr []) (Listed 0 (sample_listing [JInt 1, sample_session_row])) (sample_uuid 49) (lit ''/p'') =
     Inr sample_live \<and>
   exact_match (sample_uuid 49) (lit ''/p'') sample_live"
proof -
  let ?s = "sample_uuid 49"
  have l: "agents_json sample_env (sample_listing [sample_session_row]) = Inr [sample_session_row]"
    "agents_json sample_env (sample_listing [JInt 1, sample_session_row]) = Inr [JInt 1, sample_session_row]"
    using sample_row_plain by (auto intro!: sample_listed simp: int_fits_small)
  have r: "row_of_session sample_env ?s sample_session_row" "\<not> row_of_session sample_env ?s (JInt 1)"
    by (simp_all add: row_of_session_def sample_session_row_def)
  have "valid_uuid ?s f = Inr ?s" for f by (simp add: valid_uuid_iff sample_uuid_shape is_hex_def is_digit_def)
  moreover have "agent_rows sample_env sample_view [sample_session_row] = Inr [sample_live]"
    by (simp add: agent_rows_def sample_row_read map_filter_def)
  moreover have "exact_match ?s (lit ''/p'') sample_live" by (simp add: exact_match_def sample_live_def)
  ultimately have one: "exact_agent sample_env sample_view (Inr []) (Listed 0 (sample_listing [sample_session_row])) ?s (lit ''/p'') = Inr sample_live"
    by (simp add: exact_agent_targeted [OF l(1)] r the_one_def)
  have "filter (row_of_session sample_env ?s) [sample_session_row] = filter (row_of_session sample_env ?s) [JInt 1, sample_session_row]"
    by (simp add: r)
  from exact_agent_spec [OF l this, of sample_view "Inr []" "lit ''/p''"] one show ?thesis by simp
qed

end
