(* ===== verification/Spec2Isabelle.thy ===== *)
theory Spec2Isabelle
  imports Mcp Broker Selection DevinTurns ClaudeSend ClaudeListing
begin

text \<open>
  Cross Agent Chat lets coding agents of one user (Claude, Codex, Devin, or an external program) send
  each other messages, on one device or across a tailnet. This development models the program under
  \<^verbatim>\<open>src/src/cross_agent_chat\<close>; all file names below are relative to it.

  How a message travels. A session's start hook registers a route and starts its courier, a process
  with a Unix socket that owns a queue (\<open>runtime.register\<close>, \<open>_spawn_courier\<close>, \<open>courier_server\<close>). A
  sender picks one recipient (\<open>runtime.send\<close>), writes an intent row for the event, asks the courier or
  the broker of the other device, and marks the row by the outcome. The broker of a receiving
  device hands an envelope to \<open>receive_remote\<close>, which asks the sending device to authorize the event
  against its intent row before it consults any provider. A session takes its messages from its
  courier at a hook, by a notice to a native helper, or through its provider. The hard part, and what most
  properties are about, is that a message is not delivered twice and that what is reported and
  recorded agrees with what happened, although every step may fail before or after its effect.

  Layers and theories.

  Foundations. \<open>Prelude\<close>: results, errors as values (\<open>exn\<close>, \<open>'a res\<close>), lists and row tables. \<open>PyText\<close>:
  code points, UTF-8, base64, digits. \<open>Json\<close> and \<open>JsonText\<close>: \<^verbatim>\<open>json.loads\<close> and \<^verbatim>\<open>json.dumps\<close> with every error
  they raise, and that parsing undoes printing. \<open>Disk\<close>: a state directory as a map from names to
  files, private JSON tables and atomic replacement; the locale of tables of JSON rows that all
  stores interpret. \<open>Frames\<close>: JSON lines. \<open>SmallFrames\<close>: short answers fit a frame.

  Stores. \<open>Validators\<close> (core.py: validators, keys, aliases), \<open>Routes\<close> (core.py: \<open>Route\<close>, \<open>Registry\<close>,
  anchors), \<open>Intents\<close> (core.py: \<open>Intent\<close>, \<open>IntentStore\<close>), \<open>Tokens\<close> (recipient.py, transport.py, remote.py),
  \<open>External\<close> (external.py), \<open>NativeHelper\<close> (native_helper.py), \<open>DevinStores\<close> and \<open>DevinSubagents\<close>
  (devin.py: capabilities; subagent evidence). Each store is a record per row, its reading with
  every check, its operations as functions from a directory to a result and a directory, and a
  well-formedness predicate (\<open>registry_ok\<close>, \<open>intents_ok\<close>, ..) that they keep. One operation is what the
  code does under one lock; several are composed as steps, with arbitrary changes by others between.

  Couriers. \<open>Courier\<close> (codex.py: \<open>CodexCourier\<close>, accept split at the provider call), \<open>Wire\<close> (runtime.py:
  frames, \<open>request_socket\<close>, \<open>request_tailnet\<close>, \<open>hook_input\<close>), \<open>CourierServer\<close> (runtime.py:
  \<open>courier_accept\<close>, the requests of \<open>courier_server\<close>), \<open>Owners\<close> (runtime.py: the process behind a route
  and its anchor), \<open>CourierLife\<close> (runtime.py: lock and socket files, reclaiming), \<open>Launch\<close> (runtime.py:
  \<open>_spawn_courier\<close>; claude_runtime.py: its environment), \<open>Registration\<close> (runtime.py: \<open>register\<close> and its
  Devin forms, \<open>unregister\<close>).

  Native Claude delivery (claude_runtime.py). \<open>ClaudeGate\<close>: the PreToolUse hook that replaces the
  arguments of the proposed call and leaves a marker in a private directory. \<open>ClaudeSend\<close>: the reader
  of the event stream, \<open>sendmessage\<close> and what it concludes from stream and markers.
  \<open>ClaudeListing\<close>: the binary, the live sessions, the addresses of the ListAgents tool. Their results are
  what \<open>CourierServer\<close> takes as \<open>pc_send\<close>, \<open>pc_agent\<close> and \<open>pc_target_ref\<close>: it is proved for any such result.

  Sending and receiving. \<open>Peers\<close> (runtime.py: \<open>Target\<close> and resolution), \<open>Envelope\<close> (runtime.py: head and
  body of a message, reply tokens), \<open>Callback\<close> (external_callback.py), \<open>Sender\<close> (runtime.py: intent life
  of a send, bounded retries, the three kinds of send), \<open>Tailnet\<close> (tailnet.py), \<open>Receiver\<close> (runtime.py:
  \<open>authorize_remote\<close>, \<open>receive_remote\<close>), \<open>Discovery\<close> and \<open>Roster\<close> (runtime.py: probing couriers, listing
  peers, asking other devices), \<open>Selection\<close> (runtime.py: \<open>send\<close>, \<open>send_local\<close>), \<open>Inspect\<close> (runtime.py:
  event status), \<open>Broker\<close> (tailnet_broker.py).

  Front ends. \<open>Mcp\<close> (mcp_server.py: bounded line reader, session state machine), \<open>DevinHooks\<close> (devin.py:
  hook input and callbacks), \<open>DevinTurns\<close> (runtime.py: the hooks of a Devin session).

  What is an argument. The state directory is explicit. Random values, clock readings, the process
  table, the file system outside the state directory, the kernel's answers, what a socket or a
  provider does, and what other processes do in between are arguments of the definitions, collected
  in records (\<open>pyenv\<close>, \<open>host\<close>, \<open>exchange\<close>, \<open>provider_calls\<close>, \<open>surroundings\<close>, \<open>reception\<close>, \<open>owner_world\<close>,
  \<open>registration\<close>, \<open>turn\<close>, ..), so a theorem holds for all of them. \<open>env_ok\<close> states of \<open>pyenv\<close> what is
  used of SHA-256 (its shape, never injectivity) and of ISO timestamps. Fields named \<open>.._others\<close> are what other
  processes did to the directory before a step; where a property needs them fair, the hypothesis
  says so (\<open>fair_others\<close>, \<open>fair_registrars\<close>, \<open>evidence_kept\<close>). A monotonic clock is advanced by non-negative
  amounts; float readings are rationals that the interpreter prints and reads back.

  What the lemmas show. Stores: rows written are the rows read (\<open>.._written\<close>, \<open>.._roundtrip\<close>), every
  operation keeps the well-formedness and has an exact effect on the rows (\<open>.._spec\<close>), and under any sequence of
  steps the invariant holds (\<open>intent_runs\<close>, \<open>capability_once\<close>, \<open>custody_until_observed\<close>). Delivery: a
  claim, a capability, a dispatch and an authorization succeed at most once; the report, the intent
  row and the provider agree on every branch (\<open>send_local_truthful\<close>, \<open>send_remote_truthful\<close>,
  \<open>courier_accept_truthful\<close>, \<open>receive_truthful\<close>, \<open>callback_truthful\<close>); a definitive refusal had no effect; a
  replayed envelope reaches no provider. A Claude gate allows one call, with the authoritative arguments, and a
  delivery that may have had an effect is never refused (\<open>claude_delivery_decided\<close>). Couriers: bounds and deliveries of the queue in every interleaving,
  shutdown is final, a reclaim never removes the socket of a living courier, a registration is all or
  nothing. Front ends: the bounded reader agrees with splitting lines, nothing is dispatched before
  initialization, a hook hands over what the courier gave up and is silent while a subagent may run.

  Bounds and termination. The JSON parser has fuel \<open>2 * length + 1\<close>, proved enough (\<open>loads_no_fuel_error\<close>).
  The retries of a send or a reception are recursive in the time left until the deadline less two
  seconds, at most four attempts a second, so they end. The negotiation with an older broker tries the 26
  query shapes at most once each. The lanes of a probed connection end after at most 66,536 looks. The
  region scan of a process stops at 4096. The bootstrap of a courier takes at least a fiftieth of a
  second per round and ends within 15 seconds. The line reader and the hook scanner consume input at every step.

  Not modelled. Disk faults during a store's write, except where the code answers them
  (\<open>configure_callback\<close>, the markers of \<open>DevinTurns\<close>); file locking itself; thread pools and listener loops
  (a worker's results are the list of those that were done in time); signals. The \<^verbatim>\<open>claude\<close> process and its command line: what it prints and how it ends are arguments. The
  app-server protocol (codex.py outside \<open>CodexCourier\<close>), codex_daemon.py and devin_acp.py drive other
  programs over pipes and sockets, and their results are arguments here. \<open>codex_stop\<close> and the desktop hooks of runtime.py, install.py and cli.py
  are not modelled either. Python text may hold surrogates; sizes are counted in UTF-8 as the code
  does, and every \<open>encode\<close> that can raise has its error branch. Type errors that the code does not expect
  are the single value \<open>OtherError\<close>.
\<close>

section \<open>Properties across components\<close>

text \<open>
  C5. An envelope that is replayed touches no provider. Once the sender's device has authorized an
  event, then whatever happens to its intents, every later reception of an envelope with that event
  that asks this device gets the refusal, changes nothing there, and answers the same whatever the
  recipient's courier or callback would do; and the event was authorized for a row that was pending
  with exactly these identities and this digest.
\<close>

theorem replay_has_no_effect:
  assumes "env_ok E" "intents_inv E d"
    and "authorize_remote E now d event sa0 sg0 tk0 tg0 digest0 = Inr (first, d1)"
    and "py_eq (JObj first) (JObj (expected_authorization (authorization_request event sa0 sg0 tk0 tg0 digest0)))"
    and "intent_steps E d1 d2"
    and "parse_remote_envelope E tx = Inr (event, sa, sg, ta, g, m)" "payload_digest E m = Inr digest"
    and "receiving_target E rc dr ta g (takeWhile (\<lambda>c. c \<noteq> 64) ta) = Inr t"
    and "authorize_remote E now' d2 event sa sg (p_session_key t) g digest = Inr (answer, d3)"
    and "request_tailnet E (rc_authorize rc) (authorization_request event sa sg (p_session_key t) g digest) = Inr answer"
  shows "receive_remote E (at_provider rc a c) dr tx addr = receive_remote E rc dr tx addr \<and> d3 = d2 \<and>
    (\<exists>i \<in> set (rows_of_dir E d). i_status i = PENDING \<and>
       intent_core i = [event, i_source_key i, sg0, sa0, tk0, tg0, digest0])"
proof -
  from assms(3) obtain b where "claim_remote_authorization E now d event sg0 sa0 tk0 tg0 digest0 = Inr (b, d1)"
    "first = authorization (if b then ''AUTHORIZED'' else ''REFUSED'') event sa0 sg0 tk0 tg0 digest0"
    unfolding authorize_remote_iff by blast
  with assms(4) have first: "claim_remote_authorization E now d event sg0 sa0 tk0 tg0 digest0 = Inr (True, d1)"
    by (cases b) (simp_all add: authorization_expected del: py_eq.simps)
  from assms(9) obtain b' where b': "claim_remote_authorization E now' d2 event sg sa (p_session_key t) g digest = Inr (b', d3)"
    "answer = authorization (if b' then ''AUTHORIZED'' else ''REFUSED'') event sa sg (p_session_key t) g digest"
    unfolding authorize_remote_iff by blast
  obtain i where i: "i \<in> set (rows_of_dir E d)" "i_status i = PENDING"
    "intent_core i = [event, i_source_key i, sg0, sa0, tk0, tg0, digest0]"
    "left_pending event (rows_of_dir E d1)" "intents_inv E d1"
    by (rule claim_leaves_pending [OF assms(1,2) first])
  from claim_spent [OF assms(1) i(5,4) assms(5) b'(1)] have spent: "\<not> b'" "d3 = d2" by simp_all
  have "admitted_target E rc dr addr (event, sa, sg, ta, g, m) = Inl (ChatError (lit ''remote envelope is not authorized''))"
    using spent(1) b'(2) assms(7,8,10)
    by (simp add: admitted_target_def Let_def check_authorization_def authorization_expected fail_def del: py_eq.simps)
  from receive_not_admitted [OF assms(6) this] i(1-3) spent(2) show ?thesis by blast
qed

theorem replay_has_no_effect_witness:
  "\<exists>d d1 answer. authorize_remote sample_env 1 d (sample_uuid 51) (lit ''claude@mac:p'') (sample_uuid 49) (sample_hex64 98)
       (sample_uuid 50) (sample_hex64 48) = Inr (answer, d1) \<and>
     (\<forall>a c. receive_remote sample_env (at_provider (sample_reception ''REFUSED'') a c) sample_registry sample_envelope_text
         (lit ''100.64.0.2'') =
       receive_remote sample_env (sample_reception ''REFUSED'') sample_registry sample_envelope_text (lit ''100.64.0.2''))"
proof -
  let ?al = "lit ''claude@mac:p''"
  obtain d i where inv: "intents_inv sample_env d" and r: "rows_of_dir sample_env d = [i]"
    "i_status i = PENDING" "intent_core i = [sample_uuid 51, sample_hex64 97, sample_uuid 49, ?al,
       sample_hex64 98, sample_uuid 50, sample_hex64 48]"
    by (rule sample_begin)
  have al: "name_shape sample_env ?al" using sample_begin_args by (simp add: begin_args_valid_def)
  obtain d1 where c1: "claim_remote_authorization sample_env 1 d (sample_uuid 51) (sample_uuid 49) ?al
      (sample_hex64 98) (sample_uuid 50) (sample_hex64 48) = Inr (True, d1)"
    using claim_result [OF _ sample_uuid_shape sample_uuid_shape al sample_uuid_shape sample_hex64_ok sample_hex64_ok,
        of d 51 49 50 98 48 1] inv r
    by (auto simp: intents_inv_def sample_simps intent_core_def)
  obtain j where j: "left_pending (sample_uuid 51) (rows_of_dir sample_env d1)" "intents_inv sample_env d1"
    by (rule claim_leaves_pending [OF sample_env_ok inv c1])
  have "name_shape sample_env sample_alias" using sample_alias_shape by (simp add: sample_alias_def)
  then obtain b' d3 where c2: "claim_remote_authorization sample_env 2 d1 (sample_uuid 51) (sample_uuid 49) sample_alias
      (p_session_key sample_target) (sample_uuid 50) sample_body_digest = Inr (b', d3)"
    using claim_result [of sample_env d1 "sample_uuid 51" "sample_uuid 49" sample_alias "sample_uuid 50"
        "p_session_key sample_target" sample_body_digest 2] j(2) sample_body_ok(4)
    by (auto simp: intents_inv_def sample_simps sample_target_fields)
  have refl: "intent_steps sample_env d1 d1" by simp
  from claim_spent [OF sample_env_ok j(2,1) refl c2] have "\<not> b'" by simp
  with c2 have second: "authorize_remote sample_env 2 d1 (sample_uuid 51) sample_alias (sample_uuid 49) (p_session_key sample_target)
      (sample_uuid 50) sample_body_digest = Inr (sample_authorization ''REFUSED'', d3)"
    unfolding authorize_remote_iff by (auto simp: sample_authorization_def)
  have first: "authorize_remote sample_env 1 d (sample_uuid 51) ?al (sample_uuid 49) (sample_hex64 98) (sample_uuid 50)
      (sample_hex64 48) = Inr (authorization ''AUTHORIZED'' (sample_uuid 51) ?al (sample_uuid 49) (sample_hex64 98)
        (sample_uuid 50) (sample_hex64 48), d1)"
    unfolding authorize_remote_iff using c1 by auto
  have "receive_remote sample_env (at_provider (sample_reception ''REFUSED'') a c) sample_registry sample_envelope_text
         (lit ''100.64.0.2'') =
       receive_remote sample_env (sample_reception ''REFUSED'') sample_registry sample_envelope_text (lit ''100.64.0.2'')" for a c
    using replay_has_no_effect [OF sample_env_ok inv first _ refl sample_envelope_parse sample_body_ok(3) _ second
        sample_answer_arrives, where a = a and c = c and addr = "lit ''100.64.0.2''" and dr = sample_registry]
      sample_receiving_target
    by (simp add: authorization_expected sample_alias_provider del: py_eq.simps)
  with first show ?thesis by blast
qed

end
